(* ===== verification/Go_Prelude.thy ===== *)
theory Go_Prelude
  imports Main "HOL-Library.AList" "HOL-Library.Char_ord" "HOL-Library.List_Lexorder"
begin

text \<open>
  The part of the Go language and its standard library that the control plane uses, and the
  lemma collections the component theories share.

  \<^item> A Go map is an association list: \<open>mget\<close>, \<open>mput\<close> and \<open>mdel\<close> are
    the index expression, the index assignment and \<^verbatim>\<open>delete\<close>. The order of the list is the
    order in which a \<^verbatim>\<open>range\<close> loop visits the entries; Go leaves that order open, and every
    theorem here quantifies over all lists.
  \<^item> A Go string is a list of bytes (\<open>string\<close>); \<open>rune_count\<close> is
    \<^verbatim>\<open>len([]rune(s))\<close>, with the UTF-8 acceptance table of the Go decoder, and
    \<open>TrimSpace\<close> strips the code points of \<^verbatim>\<open>unicode.IsSpace\<close>.
  \<^item> A \<^verbatim>\<open>time.Time\<close> is the number of nanoseconds since the zero time (January 1 of year 1), so
    that \<open>is_zero_time\<close> is \<^verbatim>\<open>IsZero\<close>; a \<^verbatim>\<open>time.Duration\<close> is a number of nanoseconds.
  \<^item> An error is a value of the left summand of \<open>'a result\<close>.
\<close>

named_theorems go_map_simps \<open>lookups after updates and deletions\<close>
named_theorems store_simps \<open>frame facts of the store operations\<close>
named_theorems inv_intros \<open>operations that keep an invariant\<close>

section \<open>Maps\<close>

type_synonym ('k, 'v) gomap = "('k \<times> 'v) list"

definition mget :: "('k, 'v) gomap \<Rightarrow> 'k \<Rightarrow> 'v option" where
  "mget m k = map_of m k"

definition mput :: "'k \<Rightarrow> 'v \<Rightarrow> ('k, 'v) gomap \<Rightarrow> ('k, 'v) gomap" where
  "mput k v m = AList.update k v m"

definition mdel :: "'k \<Rightarrow> ('k, 'v) gomap \<Rightarrow> ('k, 'v) gomap" where
  "mdel k m = AList.delete k m"

definition mhas :: "('k, 'v) gomap \<Rightarrow> 'k \<Rightarrow> bool" where
  "mhas m k = (mget m k \<noteq> None)"

text \<open>The value of the index expression with the zero value for an absent key.\<close>

definition mget_zero :: "'v \<Rightarrow> ('k, 'v) gomap \<Rightarrow> 'k \<Rightarrow> 'v" where
  "mget_zero z m k = (case mget m k of None \<Rightarrow> z | Some v \<Rightarrow> v)"

text \<open>Rewriting every value in a \<^verbatim>\<open>range\<close> loop, and deleting the entries that satisfy a test.\<close>

definition mmap :: "('k \<Rightarrow> 'v \<Rightarrow> 'v) \<Rightarrow> ('k, 'v) gomap \<Rightarrow> ('k, 'v) gomap" where
  "mmap f m = map (\<lambda>(k, v). (k, f k v)) m"

definition mdel_if :: "('k \<Rightarrow> 'v \<Rightarrow> bool) \<Rightarrow> ('k, 'v) gomap \<Rightarrow> ('k, 'v) gomap" where
  "mdel_if p m = filter (\<lambda>(k, v). \<not> p k v) m"

definition mwf :: "('k, 'v) gomap \<Rightarrow> bool" where
  "mwf m = distinct (map fst m)"

text \<open>The interface the clients of a map rely on.\<close>

locale go_map =
  fixes get :: "'m \<Rightarrow> 'k \<Rightarrow> 'v option"
    and put :: "'k \<Rightarrow> 'v \<Rightarrow> 'm \<Rightarrow> 'm"
    and del :: "'k \<Rightarrow> 'm \<Rightarrow> 'm"
  assumes get_put: "get (put k v m) k' = (if k' = k then Some v else get m k')"
    and get_del: "get (del k m) k' = (if k' = k then None else get m k')"
begin

lemma get_put_same: "get (put k v m) k = Some v"
  by (simp add: get_put)

lemma get_put_other: "k' \<noteq> k \<Longrightarrow> get (put k v m) k' = get m k'"
  by (simp add: get_put)

lemma get_put_twice: "get (put k v (put k w m)) = get (put k v m)"
  by (rule ext) (simp add: get_put)

lemma get_del_put: "get (del k (put k v m)) = get (del k m)"
  by (rule ext) (simp add: get_put get_del)

lemma get_put_commute: "k \<noteq> l \<Longrightarrow> get (put k v (put l w m)) = get (put l w (put k v m))"
  by (rule ext) (simp add: get_put)

end

interpretation gm: go_map mget mput mdel
  by unfold_locales (simp_all add: mget_def mput_def mdel_def update_conv' delete_conv')

lemmas [simp, go_map_simps] = gm.get_put gm.get_del

lemma mget_Nil [simp]: "mget [] k = None"
  by (simp add: mget_def)

lemma mget_Cons [simp]: "mget ((k, v) # m) k' = (if k' = k then Some v else mget m k')"
  by (simp add: mget_def)

lemma mhas_put [simp, go_map_simps]: "mhas (mput k v m) k' = (k' = k \<or> mhas m k')"
  by (simp add: mhas_def)

lemma mget_mmap [simp, go_map_simps]: "mget (mmap f m) k = map_option (f k) (mget m k)"
  by (induction m) (auto simp: mmap_def mget_def)

lemma mhas_mmap [simp, go_map_simps]: "mhas (mmap f m) k = mhas m k"
  by (simp add: mhas_def)

lemma mhas_Some: "mget m k = Some v \<Longrightarrow> mhas m k"
  by (simp add: mhas_def)

lemma mget_in_set: "mget m k = Some v \<Longrightarrow> (k, v) \<in> set m"
  by (simp add: mget_def map_of_SomeD)

lemma mget_Some_iff: "mwf m \<Longrightarrow> mget m k = Some v \<longleftrightarrow> (k, v) \<in> set m"
  by (simp add: mget_def mwf_def)

lemma mwf_Nil [simp]: "mwf []"
  by (simp add: mwf_def)

lemma mwf_put [simp, intro]: "mwf m \<Longrightarrow> mwf (mput k v m)"
  by (simp add: mwf_def mput_def distinct_update)

lemma mwf_del [simp, intro]: "mwf m \<Longrightarrow> mwf (mdel k m)"
  by (simp add: mwf_def mdel_def distinct_delete)

lemma mwf_mmap [simp]: "mwf (mmap f m) = mwf m"
  by (simp add: mwf_def mmap_def comp_def case_prod_unfold)

lemma mwf_del_if [simp, intro]: "mwf m \<Longrightarrow> mwf (mdel_if p m)"
  by (induction m) (auto simp: mwf_def mdel_if_def)

lemma mget_del_if [go_map_simps]:
  "mwf m \<Longrightarrow> mget (mdel_if p m) k =
     (case mget m k of None \<Rightarrow> None | Some v \<Rightarrow> if p k v then None else Some v)"
proof (induction m)
  case (Cons e m)
  obtain l w where e: "e = (l, w)" by (cases e)
  show ?case
  proof (cases "k = l")
    case True
    with Cons.prems e have "map_of m k = None"
      by (auto simp: mwf_def map_of_eq_None_iff)
    then have "mget (mdel_if p m) k = None"
      by (auto simp: mget_def mdel_if_def map_of_eq_None_iff dest!: map_of_SomeD)
    with True e show ?thesis
      by (simp add: mdel_if_def)
  next
    case False
    with Cons e show ?thesis
      by (simp add: mdel_if_def mwf_def)
  qed
qed (simp add: mdel_if_def)

lemma in_mput: "mwf m \<Longrightarrow> (l, w) \<in> set (mput k v m) \<longleftrightarrow> (if l = k then w = v else (l, w) \<in> set m)"
  by (simp flip: mget_Some_iff) auto

lemma mput_same: "mget m k = Some v \<Longrightarrow> mput k v m = m"
  by (simp add: mget_def mput_def update_triv)

lemma mput_twice [simp]: "mput k v (mput k w m) = mput k v m"
  unfolding mput_def by (induction m) auto

lemma mget_zero_put [simp, go_map_simps]:
  "mget_zero z (mput k v m) k' = (if k' = k then v else mget_zero z m k')"
  by (simp add: mget_zero_def)

section \<open>Strings\<close>

definition byte :: "char \<Rightarrow> nat" where
  "byte c = of_char c"

text \<open>The number of bytes of the white-space code point at the front of a string (0 for none).\<close>

definition ascii_space :: "char \<Rightarrow> bool" where
  "ascii_space c = (byte c \<in> {9, 10, 11, 12, 13, 32})"

definition wide_space :: "char \<Rightarrow> char \<Rightarrow> char \<Rightarrow> bool" where
  "wide_space a b c =
     (let x = byte a; y = byte b; z = byte c in
        (x = 0xE1 \<and> y = 0x9A \<and> z = 0x80) \<or>
        (x = 0xE2 \<and> y = 0x80 \<and> (0x80 \<le> z \<and> z \<le> 0x8A \<or> z = 0xA8 \<or> z = 0xA9 \<or> z = 0xAF)) \<or>
        (x = 0xE2 \<and> y = 0x81 \<and> z = 0x9F) \<or>
        (x = 0xE3 \<and> y = 0x80 \<and> z = 0x80))"

definition latin_space :: "char \<Rightarrow> char \<Rightarrow> bool" where
  "latin_space a b = (byte a = 0xC2 \<and> (byte b = 0x85 \<or> byte b = 0xA0))"

fun space_front :: "string \<Rightarrow> nat" where
  "space_front [] = 0"
| "space_front [a] = (if ascii_space a then 1 else 0)"
| "space_front [a, b] = (if ascii_space a then 1 else if latin_space a b then 2 else 0)"
| "space_front (a # b # c # s) =
     (if ascii_space a then 1 else if latin_space a b then 2 else if wide_space a b c then 3 else 0)"

text \<open>The same for the last code point, on the reversed string.\<close>

fun space_back :: "string \<Rightarrow> nat" where
  "space_back [] = 0"
| "space_back [a] = (if ascii_space a then 1 else 0)"
| "space_back [a, b] = (if ascii_space a then 1 else if latin_space b a then 2 else 0)"
| "space_back (a # b # c # s) =
     (if ascii_space a then 1 else if latin_space b a then 2 else if wide_space c b a then 3 else 0)"

function trim_by :: "(string \<Rightarrow> nat) \<Rightarrow> string \<Rightarrow> string" where
  "trim_by f s = (if s = [] \<or> f s = 0 then s else trim_by f (drop (f s) s))"
  by pat_completeness auto
termination
  by (relation "measure (\<lambda>(f, s). length s)") auto

declare trim_by.simps [simp del]

definition TrimSpace :: "string \<Rightarrow> string" where
  "TrimSpace s = rev (trim_by space_back (rev (trim_by space_front s)))"

lemma trim_by_fixed: "f (trim_by f s) = 0 \<or> trim_by f s = []"
proof (induction f s rule: trim_by.induct)
  case (1 f s)
  then show ?case
    by (cases "s = [] \<or> f s = 0") (auto simp: trim_by.simps [of f s])
qed

lemma trim_by_Nil [simp]: "trim_by f [] = []"
  by (simp add: trim_by.simps)

lemma trim_by_idem: "f s = 0 \<Longrightarrow> trim_by f s = s"
  by (simp add: trim_by.simps)

lemma trim_by_suffix: "\<exists>p. s = p @ trim_by f s"
proof (induction f s rule: trim_by.induct)
  case (1 f s)
  show ?case
  proof (cases "s = [] \<or> f s = 0")
    case True
    then show ?thesis by (simp add: trim_by.simps [of f s])
  next
    case False
    with "1" obtain p where "drop (f s) s = p @ trim_by f (drop (f s) s)" by blast
    then have "s = (take (f s) s @ p) @ trim_by f (drop (f s) s)"
      by (metis append.assoc append_take_drop_id)
    with False show ?thesis by (metis trim_by.simps [of f s])
  qed
qed

text \<open>Decoding UTF-8: the number of bytes the decoder consumes for the next code point.\<close>

definition cont :: "char \<Rightarrow> bool" where
  "cont c = (0x80 \<le> byte c \<and> byte c \<le> 0xBF)"

fun rune_len :: "string \<Rightarrow> nat" where
  "rune_len [] = 0"
| "rune_len (a # s) =
     (let x = byte a;
          second = (case s of [] \<Rightarrow> False | b # _ \<Rightarrow>
             if x = 0xE0 then 0xA0 \<le> byte b \<and> byte b \<le> 0xBF
             else if x = 0xED then 0x80 \<le> byte b \<and> byte b \<le> 0x9F
             else if x = 0xF0 then 0x90 \<le> byte b \<and> byte b \<le> 0xBF
             else if x = 0xF4 then 0x80 \<le> byte b \<and> byte b \<le> 0x8F
             else cont b);
          third = (length s \<ge> 2 \<and> cont (s ! 1));
          fourth = (length s \<ge> 3 \<and> cont (s ! 2))
      in if 0xC2 \<le> x \<and> x \<le> 0xDF \<and> second then 2
         else if 0xE0 \<le> x \<and> x \<le> 0xEF \<and> second \<and> third then 3
         else if 0xF0 \<le> x \<and> x \<le> 0xF4 \<and> second \<and> third \<and> fourth then 4
         else 1)"

lemma rune_len_pos: "s \<noteq> [] \<Longrightarrow> 0 < rune_len s"
  by (cases s) (auto simp: Let_def)

function rune_count :: "string \<Rightarrow> nat" where
  "rune_count s = (if s = [] then 0 else Suc (rune_count (drop (rune_len s) s)))"
  by pat_completeness auto
termination
  by (relation "measure length") (simp_all add: rune_len_pos)

declare rune_count.simps [simp del]

lemma rune_count_le: "rune_count s \<le> length s"
proof (induction s rule: rune_count.induct)
  case (1 s)
  show ?case
  proof (cases "s = []")
    case False
    with "1" have "rune_count (drop (rune_len s) s) \<le> length s - rune_len s" by simp
    moreover from False have "0 < rune_len s" "0 < length s" by (auto dest: rune_len_pos)
    ultimately have "rune_count (drop (rune_len s) s) < length s" by linarith
    with False show ?thesis by (simp add: rune_count.simps [of s])
  qed (simp add: rune_count.simps)
qed

lemma rune_count_eq_0 [simp]: "rune_count s = 0 \<longleftrightarrow> s = []"
  by (subst rune_count.simps) simp

definition is_ascii :: "char \<Rightarrow> bool" where
  "is_ascii c = (byte c < 0x80)"

lemma rune_count_ascii: "list_all is_ascii s \<Longrightarrow> rune_count s = length s"
proof (induction s)
  case (Cons a s)
  then have "rune_len (a # s) = 1" by (simp add: is_ascii_def Let_def)
  with Cons show ?case by (simp add: rune_count.simps [of "a # s"])
qed simp

definition ascii_lower :: "char \<Rightarrow> char" where
  "ascii_lower c = (if 65 \<le> byte c \<and> byte c \<le> 90 then char_of (byte c + 32) else c)"

text \<open>
  \<^verbatim>\<open>strings.ToLower\<close>: the ASCII fast path is written out; for a string with a byte above 127 the
  Unicode case tables decide, and they are the parameter \<open>uni\<close>.
\<close>

definition ToLower :: "(string \<Rightarrow> string) \<Rightarrow> string \<Rightarrow> string" where
  "ToLower uni s = (if list_all is_ascii s then map ascii_lower s else uni s)"

definition HasPrefix :: "string \<Rightarrow> string \<Rightarrow> bool" where
  "HasPrefix s p = (take (length p) s = p)"

definition HasSuffix :: "string \<Rightarrow> string \<Rightarrow> bool" where
  "HasSuffix s p = (length p \<le> length s \<and> drop (length s - length p) s = p)"

definition TrimPrefix :: "string \<Rightarrow> string \<Rightarrow> string" where
  "TrimPrefix s p = (if HasPrefix s p then drop (length p) s else s)"

fun Contains :: "string \<Rightarrow> string \<Rightarrow> bool" where
  "Contains [] p = (p = [])"
| "Contains (c # s) p = (HasPrefix (c # s) p \<or> Contains s p)"

definition ContainsAny :: "string \<Rightarrow> string \<Rightarrow> bool" where
  "ContainsAny s chars = list_ex (\<lambda>c. c \<in> set chars) s"

text \<open>\<^verbatim>\<open>strings.LastIndex\<close> for a non-empty pattern.\<close>

fun last_index_from :: "nat \<Rightarrow> string \<Rightarrow> string \<Rightarrow> nat option" where
  "last_index_from i [] p = None"
| "last_index_from i (c # s) p =
     (case last_index_from (Suc i) s p of
        Some j \<Rightarrow> Some j
      | None \<Rightarrow> if HasPrefix (c # s) p then Some i else None)"

definition LastIndex :: "string \<Rightarrow> string \<Rightarrow> nat option" where
  "LastIndex s p = last_index_from 0 s p"

text \<open>\<^verbatim>\<open>strings.Split\<close> on a one-byte separator, and \<^verbatim>\<open>strings.Join\<close>.\<close>

fun Split :: "char \<Rightarrow> string \<Rightarrow> string list" where
  "Split sep [] = [[]]"
| "Split sep (c # s) =
     (if c = sep then [] # Split sep s
      else (case Split sep s of [] \<Rightarrow> [[c]] | p # ps \<Rightarrow> (c # p) # ps))"

fun Join :: "string list \<Rightarrow> string \<Rightarrow> string" where
  "Join [] sep = []"
| "Join [p] sep = p"
| "Join (p # q # ps) sep = p @ sep @ Join (q # ps) sep"

lemma Split_not_Nil [simp]: "Split sep s \<noteq> []"
  by (induction s) (auto split: list.splits)

lemma Join_Cons: "ps \<noteq> [] \<Longrightarrow> Join (p # ps) sep = p @ sep @ Join ps sep"
  by (cases ps) simp_all

lemma Join_Split: "Join (Split sep s) [sep] = s"
proof (induction s)
  case (Cons c s)
  obtain p ps where sp: "Split sep s = p # ps"
    by (cases "Split sep s") auto
  show ?case
  proof (cases "c = sep")
    case True
    with Cons show ?thesis by (simp add: Join_Cons)
  next
    case False
    with Cons sp show ?thesis by (cases ps) simp_all
  qed
qed simp

lemma Split_no_sep: "x \<in> set (Split sep s) \<Longrightarrow> sep \<notin> set x"
proof (induction s arbitrary: x)
  case (Cons c s)
  then show ?case
    by (cases "Split sep s") (auto split: if_splits)
qed simp

text \<open>\<^verbatim>\<open>strings.ReplaceAll\<close> for a non-empty pattern.\<close>

function ReplaceAll :: "string \<Rightarrow> string \<Rightarrow> string \<Rightarrow> string" where
  "ReplaceAll s old new =
     (case s of [] \<Rightarrow> []
      | c # r \<Rightarrow> if old \<noteq> [] \<and> HasPrefix s old then new @ ReplaceAll (drop (length old) s) old new
                else c # ReplaceAll r old new)"
  by pat_completeness auto
termination
  by (relation "measure (\<lambda>(s, old, new). length s)") auto

declare ReplaceAll.simps [simp del]

definition containsString :: "string list \<Rightarrow> string \<Rightarrow> bool" where
  "containsString values target = (target \<in> set values)"

text \<open>\<^verbatim>\<open>sort.Strings\<close> orders byte-wise, which is the lexicographic order on characters.\<close>

definition sort_strings :: "string list \<Rightarrow> string list" where
  "sort_strings xs = sort xs"

lemma set_sort_strings [simp]: "set (sort_strings xs) = set xs"
  by (simp add: sort_strings_def)

lemma distinct_sort_strings [simp]: "distinct (sort_strings xs) = distinct xs"
  by (simp add: sort_strings_def)

lemma sorted_sort_strings [simp]: "sorted (sort_strings xs)"
  by (simp add: sort_strings_def)

text \<open>The loop that keeps the first occurrence of every element, with a \<^verbatim>\<open>seen\<close> set.\<close>

fun dedupe :: "'a list \<Rightarrow> 'a list \<Rightarrow> 'a list" where
  "dedupe seen [] = []"
| "dedupe seen (x # xs) =
     (if x \<in> set seen then dedupe seen xs else x # dedupe (x # seen) xs)"

lemma set_dedupe: "set (dedupe seen xs) = set xs - set seen"
  by (induction xs arbitrary: seen) auto

lemma distinct_dedupe: "distinct (dedupe seen xs)"
  by (induction xs arbitrary: seen) (auto simp: set_dedupe)

lemma dedupe_fixed: "distinct xs \<Longrightarrow> set xs \<inter> set seen = {} \<Longrightarrow> dedupe seen xs = xs"
  by (induction xs arbitrary: seen) auto

section \<open>Times and durations\<close>

type_synonym gotime = int
type_synonym duration = int

abbreviation (input) zero_time :: gotime where
  "zero_time \<equiv> 0"

definition is_zero_time :: "gotime \<Rightarrow> bool" where
  "is_zero_time t = (t = zero_time)"

definition millisecond :: duration where
  "millisecond = 1000000"

definition second :: duration where
  "second = 1000000000"

definition minute :: duration where
  "minute = 60 * second"

definition hour :: duration where
  "hour = 60 * minute"

lemmas duration_defs = millisecond_def second_def minute_def hour_def

text \<open>Two's-complement wrap-around of \<^verbatim>\<open>int64\<close> arithmetic.\<close>

definition max_int64 :: int where
  "max_int64 = 2 ^ 63 - 1"

definition wrap64 :: "int \<Rightarrow> int" where
  "wrap64 n = (n + 2 ^ 63) mod 2 ^ 64 - 2 ^ 63"

lemma wrap64_id: "- (2 ^ 63) \<le> n \<Longrightarrow> n \<le> max_int64 \<Longrightarrow> wrap64 n = n"
  by (simp add: wrap64_def max_int64_def)

lemma wrap64_range: "- (2 ^ 63) \<le> wrap64 n \<and> wrap64 n \<le> max_int64"
proof -
  have "0 \<le> (n + 2 ^ 63) mod 2 ^ 64" and "(n + 2 ^ 63) mod 2 ^ 64 < (2 :: int) ^ 64"
    by simp_all
  then show ?thesis by (simp add: wrap64_def max_int64_def)
qed

section \<open>Dynamic values, problems and results\<close>

text \<open>A finite \<^verbatim>\<open>float64\<close> is an integer times a power of two.\<close>

datatype float64 = NaN | Inf bool | Fin int int

text \<open>The values the program stores in an \<^verbatim>\<open>any\<close>.\<close>

datatype any =
    AnyNil
  | AnyString string
  | AnyInt int
  | AnyUint nat
  | AnyBool bool
  | AnyFloat float64
  | AnyNumber string
  | AnyStrings "string list"

text \<open>
  \<^verbatim>\<open>domain.Problem\<close>: the stable code, the retry hint and the details. The message is display text
  that no code branches on, and is left out.
\<close>

record problem =
  Code :: string
  Retryable :: bool
  Details :: "(string, any) gomap"

definition NewProblem :: "string \<Rightarrow> bool \<Rightarrow> problem" where
  "NewProblem c r = \<lparr>Code = c, Retryable = r, Details = []\<rparr>"

lemma NewProblem_sel [simp]:
  "Code (NewProblem c r) = c" "Retryable (NewProblem c r) = r" "Details (NewProblem c r) = []"
  by (simp_all add: NewProblem_def)

type_synonym 'a result = "problem + 'a"

text \<open>
  What one call draws from its surroundings: the successive readings of \<^verbatim>\<open>time.Now\<close>, the
  successive results of \<^verbatim>\<open>id.New\<close> and of \<^verbatim>\<open>randomToken\<close>.
\<close>

record env =
  clk :: "nat \<Rightarrow> gotime"
  uuid :: "nat \<Rightarrow> string"
  tok :: "nat \<Rightarrow> string"

text \<open>A concrete surrounding, with distinct identifiers, for the worked examples.\<close>

definition sample_env :: env where
  "sample_env = \<lparr>clk = (\<lambda>i. 1000 + int i), uuid = (\<lambda>i. ''id'' @ replicate i (CHR ''x'')),
     tok = (\<lambda>i. ''tok'' @ replicate i (CHR ''x''))\<rparr>"

end
