(* ===== verification/Domain_Model.thy ===== *)
theory Domain_Model
  imports Go_Prelude
begin

text \<open>
  The data model of \<^verbatim>\<open>internal/domain\<close>: one record per struct, in the order of
  \<^verbatim>\<open>models.go\<close>, \<^verbatim>\<open>power.go\<close>, \<^verbatim>\<open>backup.go\<close> and \<^verbatim>\<open>capabilities.go\<close>. A field
  carries a prefix for its struct, since HOL record fields are constants of the theory. Pointers to
  scalars are options. Status fields are strings, as they are in the source.
\<close>

section \<open>Identity (models.go)\<close>

record User =
  u_ID :: string
  u_Email :: string
  u_DisplayName :: string
  u_Roles :: "string list"
  u_Status :: string
  u_CreatedAt :: gotime
  u_UpdatedAt :: gotime

record SetupStatus =
  ss_Required :: bool
  ss_BootstrapExpiresAt :: "gotime option"

record SetupAdminInput =
  sai_BootstrapToken :: string
  sai_Email :: string
  sai_DisplayName :: string
  sai_Password :: string

record CreateUserInput =
  cui_Email :: string
  cui_DisplayName :: string
  cui_Password :: string
  cui_Roles :: "string list"

record UpdateUserInput =
  uui_DisplayName :: "string option"
  uui_Status :: "string option"
  uui_Roles :: "string list option"

record PasswordResetToken =
  prt_Token :: string
  prt_ExpiresAt :: gotime

record ServerMembership =
  sm_ServerID :: string
  sm_UserID :: string
  sm_Permissions :: "string list"
  sm_CreatedAt :: gotime
  sm_UpdatedAt :: gotime

record ServerPermissions =
  sp_ServerID :: string
  sp_Permissions :: "string list"

record SessionView =
  sv_User :: User
  sv_CSRFToken :: string
  sv_Environment :: string

record Session =
  ses_CSRFToken :: string
  ses_UserID :: string
  ses_User :: User
  ses_ExpiresAt :: gotime

record APIToken =
  at_ID :: string
  at_Name :: string
  at_Scopes :: "string list"
  at_ExpiresAt :: "gotime option"
  at_LastUsedAt :: "gotime option"
  at_CreatedAt :: gotime

record CreateAPITokenInput =
  cat_Name :: string
  cat_Scopes :: "string list"
  cat_ExpiresAt :: "gotime option"

record APITokenCredential =
  atc_APIToken :: APIToken
  atc_Token :: string

record APITokenPrincipal =
  atp_User :: User
  atp_Scopes :: "string list"
  atp_APITokenID :: string
  atp_Environment :: string

record ConsoleConnectionCredential =
  ccc_Token :: string
  ccc_ExpiresAt :: gotime

record ConsoleConnectionPrincipal =
  ccp_UserID :: string
  ccp_ServerID :: string
  ccp_ExpiresAt :: gotime

section \<open>Servers, nodes and games (models.go)\<close>

record ResourceMetrics =
  rm_CPUPercent :: float64
  rm_MemoryBytes :: int
  rm_MemoryLimit :: int
  rm_DiskBytes :: int
  rm_DiskLimit :: int
  rm_NetworkRxBytes :: int
  rm_NetworkTxBytes :: int
  rm_PlayersOnline :: int
  rm_PlayersCapacity :: int

record MetricPoint =
  mp_Timestamp :: gotime
  mp_CPUPercent :: float64
  mp_MemoryBytes :: int

record ServerMetrics =
  sme_ServerID :: string
  sme_ObservedGeneration :: int
  sme_CPUPercent :: float64
  sme_MemoryBytes :: int
  sme_MemoryLimitBytes :: int
  sme_DiskBytes :: int
  sme_DiskLimitBytes :: int
  sme_NetworkRxBytes :: int
  sme_NetworkTxBytes :: int
  sme_PlayersOnline :: int
  sme_PlayersMax :: int
  sme_ObservedAt :: gotime

record Server =
  srv_ID :: string
  srv_Name :: string
  srv_Description :: string
  srv_GameID :: string
  srv_GameBundleDigest :: string
  srv_GameDefinitionVersion :: string
  srv_GameName :: string
  srv_GameVersion :: string
  srv_NodeID :: string
  srv_NodeName :: string
  srv_LifecycleState :: string
  srv_DesiredPower :: string
  srv_ObservedPower :: string
  srv_NodeCondition :: string
  srv_HealthCondition :: string
  srv_Generation :: int
  srv_ObservedGeneration :: int
  srv_ObservedAt :: gotime
  srv_Allocation :: string
  srv_OwnerName :: string
  srv_Metrics :: ResourceMetrics
  srv_MetricHistory :: "MetricPoint list"
  srv_Metadata :: "(string, string) gomap"
  srv_UpdatedAt :: gotime

record Node =
  n_ID :: string
  n_Name :: string
  n_Condition :: string
  n_Version :: string
  n_Region :: string
  n_Architecture :: string
  n_Draining :: bool
  n_DrainReason :: string
  n_Address :: string
  n_LastHeartbeatAt :: gotime
  n_CPUCores :: int
  n_MemoryBytes :: int
  n_DiskBytes :: int
  n_AllocatedMemoryBytes :: int
  n_AllocatedDiskBytes :: int
  n_RunningServers :: int
  n_TotalServers :: int
  n_Capabilities :: "string list"

record StartupCommand =
  sc_Executable :: string
  sc_Args :: "string list"

record RuntimeDataMount =
  rdm_Name :: string
  rdm_Target :: string
  rdm_Backup :: bool

record RuntimePort =
  rp_Name :: string
  rp_Protocol :: string
  rp_ContainerPort :: int
  rp_Role :: string

record RuntimeStop =
  rs_Method :: string
  rs_Value :: string
  rs_TimeoutSeconds :: int

record RuntimeHealth =
  rh_Type :: string
  rh_PortRef :: string
  rh_IntervalSeconds :: int
  rh_TimeoutSeconds :: int
  rh_FailureThreshold :: int

record RuntimeConsoleAdapter =
  rca_Adapter :: string
  rca_Port :: int

record GameRuntimeTarget =
  grt_Digest :: string
  grt_Adapter :: string
  grt_Image :: string
  grt_User :: string
  grt_WorkingDir :: string
  grt_Command :: StartupCommand
  grt_Environment :: "(string, string) gomap"
  grt_DataMounts :: "RuntimeDataMount list"
  grt_Ports :: "RuntimePort list"
  grt_Stop :: RuntimeStop
  grt_Health :: RuntimeHealth
  grt_Console :: "RuntimeConsoleAdapter option"

record GameDefinition =
  g_ID :: string
  g_BundleDigest :: string
  g_Name :: string
  g_Summary :: string
  g_Version :: string
  g_GameVersion :: string
  g_Status :: string
  g_Capabilities :: "string list"
  g_Platforms :: "string list"
  g_Servers :: int
  g_Icon :: string
  g_DefaultMemory :: int
  g_DefaultDisk :: int
  g_Signed :: bool
  g_Verified :: bool
  g_Runnable :: bool
  g_Supported :: bool
  g_TrustLevel :: string
  g_Source :: string
  g_SupportReasons :: "string list"
  g_RuntimeTarget :: "GameRuntimeTarget option"
  g_BundleDocument :: string

record AuditEvent =
  ae_ID :: string
  ae_ActorName :: string
  ae_Action :: string
  ae_TargetType :: string
  ae_TargetName :: string
  ae_Result :: string
  ae_OperationID :: string
  ae_CreatedAt :: gotime

record ConsoleLine =
  cl_Sequence :: int
  cl_Timestamp :: gotime
  cl_Stream :: string
  cl_Message :: string

record ConsoleCommandResult =
  ccr_RequestID :: string
  ccr_ServerID :: string
  ccr_Succeeded :: bool
  ccr_ErrorCode :: string
  ccr_Retryable :: bool

section \<open>Allocations, startup and backups (models.go)\<close>

record Allocation =
  al_ID :: string
  al_ServerID :: string
  al_NodeID :: string
  al_BindIP :: string
  al_Port :: int
  al_Protocol :: string
  al_PortRef :: string
  al_ContainerPort :: int
  al_Role :: string
  al_Primary :: bool
  al_CreatedAt :: gotime
  al_UpdatedAt :: gotime

record CreateAllocationInput =
  cai_BindIP :: string
  cai_Port :: int
  cai_Protocol :: string
  cai_PortRef :: string
  cai_ContainerPort :: int
  cai_Role :: string
  cai_Primary :: bool

record StartupVariable =
  var_Key :: string
  var_Type :: string
  var_Secret :: bool
  var_Required :: bool
  var_Default :: any
  var_Value :: any
  var_HasValue :: bool
  var_Minimum :: "int option"
  var_Maximum :: "int option"
  var_MinLength :: "int option"
  var_MaxLength :: "int option"
  var_EnumValues :: "string list"
  var_ConstValue :: any

record StartupBinding =
  bnd_Variable :: string
  bnd_Target :: string
  bnd_Name :: string
  bnd_Path :: string
  bnd_Template :: string

record Startup =
  st_ServerID :: string
  st_Generation :: int
  st_Command :: StartupCommand
  st_Variables :: "StartupVariable list"
  st_Bindings :: "StartupBinding list"

text \<open>
  The display texts of \<^verbatim>\<open>backupFailureDetails\<close>, one constructor per literal: they are stored in
  the backup record.
\<close>

datatype failure_text =
    TextIntegrity | TextLeaseExhausted | TextNodeOffline | TextRuntimeUnavailable
  | TextStale | TextCanceled | TextFailed

record Backup =
  b_ID :: string
  b_Name :: string
  b_Status :: string
  b_SizeBytes :: "int option"
  b_Checksum :: "string option"
  b_ManifestDigest :: "string option"
  b_StorageLocation :: "string option"
  b_RetentionUntil :: "gotime option"
  b_CreatedAt :: gotime
  b_CompletedAt :: "gotime option"
  b_FailureCode :: "string option"
  b_FailureMessage :: "failure_text option"
  b_DeletedAt :: "gotime option"

record CreateServerInput =
  csi_Name :: string
  csi_GameDefinitionID :: string
  csi_GameBundleDigest :: string
  csi_NodeID :: string
  csi_MemoryMB :: int
  csi_DiskGB :: int

section \<open>Operations (power.go)\<close>

type_synonym PowerAction = string

abbreviation PowerStart :: PowerAction where "PowerStart \<equiv> ''start''"
abbreviation PowerStop :: PowerAction where "PowerStop \<equiv> ''stop''"
abbreviation PowerRestart :: PowerAction where "PowerRestart \<equiv> ''restart''"
abbreviation PowerKill :: PowerAction where "PowerKill \<equiv> ''kill''"

record OperationError =
  oe_Code :: string
  oe_Retryable :: bool

record Operation =
  op_ID :: string
  op_ServerID :: string
  op_NodeID :: string
  op_Type :: PowerAction
  op_Status :: string
  op_Progress :: int
  op_Generation :: int
  op_Attempt :: int
  op_MaxAttempts :: int
  op_LeaseOwner :: "string option"
  op_LeaseExpiresAt :: "gotime option"
  op_Checkpoint :: string
  op_Error :: "OperationError option"
  op_IdempotencyKey :: string
  op_CreatedAt :: gotime
  op_UpdatedAt :: gotime

definition NewQueuedOperation ::
  "string \<Rightarrow> string \<Rightarrow> string \<Rightarrow> PowerAction \<Rightarrow> int \<Rightarrow> string \<Rightarrow> gotime \<Rightarrow> Operation" where
  "NewQueuedOperation operationID serverID nodeID operationType generation idempotencyKey now =
     \<lparr>op_ID = operationID, op_ServerID = serverID, op_NodeID = nodeID, op_Type = operationType,
      op_Status = ''queued'', op_Progress = 0, op_Generation = generation,
      op_Attempt = 1, op_MaxAttempts = 1, op_LeaseOwner = None, op_LeaseExpiresAt = None,
      op_Checkpoint = ''queued'', op_Error = None, op_IdempotencyKey = idempotencyKey,
      op_CreatedAt = now, op_UpdatedAt = now\<rparr>"

lemma NewQueuedOperation_sel [simp]:
  "op_ID (NewQueuedOperation i s n t g k now) = i"
  "op_ServerID (NewQueuedOperation i s n t g k now) = s"
  "op_NodeID (NewQueuedOperation i s n t g k now) = n"
  "op_Type (NewQueuedOperation i s n t g k now) = t"
  "op_Status (NewQueuedOperation i s n t g k now) = ''queued''"
  "op_Generation (NewQueuedOperation i s n t g k now) = g"
  "op_IdempotencyKey (NewQueuedOperation i s n t g k now) = k"
  by (simp_all add: NewQueuedOperation_def)

text \<open>The in-memory power coordinator: its state is the list of accepted operations.\<close>

datatype power_error = ErrIdempotencyKeyReused

fun coordinator_find ::
  "Operation list \<Rightarrow> string \<Rightarrow> PowerAction \<Rightarrow> string \<Rightarrow> (power_error + Operation) option" where
  "coordinator_find [] serverID action key = None"
| "coordinator_find (operation # rest) serverID action key =
     (if op_ServerID operation \<noteq> serverID \<or> op_IdempotencyKey operation \<noteq> key
      then coordinator_find rest serverID action key
      else if op_Type operation \<noteq> action then Some (Inl ErrIdempotencyKeyReused)
      else Some (Inr operation))"

definition Request ::
  "env \<Rightarrow> string \<Rightarrow> string \<Rightarrow> PowerAction \<Rightarrow> string \<Rightarrow> Operation list
     \<Rightarrow> (power_error + Operation) \<times> Operation list" where
  "Request e serverID nodeID action key operations =
     (case coordinator_find operations serverID action key of
        Some r \<Rightarrow> (r, operations)
      | None \<Rightarrow>
          (let operation = NewQueuedOperation (uuid e 0) serverID nodeID action 0 key (clk e 0)
           in (Inr operation, operations @ [operation])))"

section \<open>Backup states (backup.go)\<close>

definition BackupStatusTransitionAllowed :: "string \<Rightarrow> string \<Rightarrow> bool" where
  "BackupStatusTransitionAllowed from to =
     (if from = to then True
      else if from = ''creating'' then to = ''ready'' \<or> to = ''failed''
      else if from = ''failed'' then to = ''creating'' \<or> to = ''deleting''
      else if from = ''ready'' then to = ''restoring'' \<or> to = ''deleting''
      else if from = ''restoring'' then to = ''ready''
      else if from = ''deleting'' then to = ''ready'' \<or> to = ''failed'' \<or> to = ''deleted''
      else if from = ''deleted'' then False
      else False)"

section \<open>Node capabilities (capabilities.go)\<close>

abbreviation NodeCapabilityRuntimeContainer :: string where
  "NodeCapabilityRuntimeContainer \<equiv> ''runtime.container/v1''"

abbreviation NodeCapabilityServerReconcile :: string where
  "NodeCapabilityServerReconcile \<equiv> ''server.reconcile/v1''"

definition splitCanonicalCapability :: "string \<Rightarrow> string \<times> string \<times> bool" where
  "splitCanonicalCapability declaration0 =
     (let declaration = TrimSpace declaration0 in
      case LastIndex declaration ''/v'' of
        None \<Rightarrow> (declaration, [], False)
      | Some separator \<Rightarrow>
          if separator = 0 \<or> separator + 2 \<ge> length declaration then (declaration, [], False)
          else (take separator declaration, drop (separator + 2) declaration, True))"

definition blanks :: string where
  "blanks = [CHR 0x20, CHR 0x09, CHR 0x0D, CHR 0x0A]"

text \<open>The switch that rewrites the legacy spellings.\<close>

definition normalize_legacy :: "string \<Rightarrow> string \<Rightarrow> string \<times> string" where
  "normalize_legacy name version =
     (if name \<in> {''container'', ''container/v1'', ''runtime.docker'', ''runtime.docker/v1'',
                 ''runtime.container/v1''}
      then (''runtime.container'', ''1'')
      else if name = ''server.reconcile/v1'' then (''server.reconcile'', ''1'')
      else (name, version))"

definition CanonicalNodeCapability :: "string \<Rightarrow> string \<Rightarrow> string option" where
  "CanonicalNodeCapability name0 version0 =
     (let name1 = TrimSpace name0;
          version1 = TrimPrefix (TrimSpace version0) ''v''
      in if name1 = [] then None
         else
           let (name2, version2) =
                 (if version1 = []
                  then (case splitCanonicalCapability name1 of
                          (n, v, ok) \<Rightarrow> if ok then (n, v) else (n, ''1''))
                  else (name1, version1));
               (name, version) = normalize_legacy name2 version2
           in if version = [] \<or> ContainsAny name blanks \<or> ContainsAny version (blanks @ ''/'')
              then None
              else Some (name @ ''/v'' @ version))"

definition SplitNodeCapability :: "string \<Rightarrow> (string \<times> string) option" where
  "SplitNodeCapability declaration =
     (case CanonicalNodeCapability declaration [] of
        None \<Rightarrow> None
      | Some canonical \<Rightarrow>
          (case splitCanonicalCapability canonical of
             (name, version, ok) \<Rightarrow> if ok then Some (name, version) else None))"

definition NodePlatformCapability :: "(string \<Rightarrow> string) \<Rightarrow> string \<Rightarrow> string" where
  "NodePlatformCapability uni platform0 =
     (let platform = TrimSpace (ToLower uni platform0);
          parts = Split (CHR ''/'') platform
      in if length parts \<noteq> 2 \<or> parts ! 0 = [] \<or> parts ! 1 = [] then []
         else ''platform.'' @ parts ! 0 @ ''.'' @ parts ! 1 @ ''/v1'')"

section \<open>Facts about the coordinator and the capability strings\<close>

lemma coordinator_find_append:
  "coordinator_find ops s a k = None \<Longrightarrow>
   coordinator_find (ops @ [NewQueuedOperation i s n a' g k now]) s a k =
     (if a' = a then Some (Inr (NewQueuedOperation i s n a' g k now))
      else Some (Inl ErrIdempotencyKeyReused))"
  by (induction ops) (auto split: if_splits)

lemma coordinator_find_switch:
  "coordinator_find ops s a k = Some (Inr operation) \<Longrightarrow> a' \<noteq> a \<Longrightarrow>
   coordinator_find ops s a' k = Some (Inl ErrIdempotencyKeyReused)"
  by (induction ops) (auto split: if_splits)

lemma coordinator_find_type:
  "coordinator_find ops s a k = Some (Inr operation) \<Longrightarrow> op_Type operation = a"
  by (induction ops) (auto split: if_splits)

lemma HasPrefix_append [simp]: "HasPrefix (p @ s) p"
  by (simp add: HasPrefix_def)

lemma last_index_from_None:
  "CHR ''/'' \<notin> set s \<Longrightarrow> last_index_from i s (CHR ''/'' # p) = None"
  by (induction s arbitrary: i) (auto simp: HasPrefix_def)

lemma last_index_from_append:
  "CHR ''/'' \<notin> set v \<Longrightarrow> last_index_from i (n @ ''/v'' @ v) ''/v'' = Some (i + length n)"
proof (induction n arbitrary: i)
  case Nil
  then show ?case
    by (simp add: last_index_from_None HasPrefix_def)
qed simp

lemma LastIndex_append: "CHR ''/'' \<notin> set v \<Longrightarrow> LastIndex (n @ ''/v'' @ v) ''/v'' = Some (length n)"
  using last_index_from_append [of v 0 n] by (simp add: LastIndex_def)

lemma byte_slash_v [simp]:
  "byte CHR ''/'' = 47" "byte CHR ''v'' = 118"
  by (simp_all add: byte_def)

lemma space_front_append:
  "n \<noteq> [] \<Longrightarrow> space_front n = 0 \<Longrightarrow> space_front (n @ ''/v'' @ v) = 0"
  by (cases n rule: space_front.cases)
     (auto simp: latin_space_def wide_space_def Let_def split: if_splits)

lemma space_back_append:
  "v \<noteq> [] \<Longrightarrow> space_back v = 0 \<Longrightarrow> space_back (v @ ''v/'' @ n) = 0"
  by (cases v rule: space_back.cases)
     (auto simp: latin_space_def wide_space_def Let_def split: if_splits)

lemma space_front_prefix: "space_front (p @ s) = 0 \<Longrightarrow> space_front p = 0"
  by (cases p rule: space_front.cases; cases s rule: space_front.cases)
     (auto split: if_splits)

lemma space_back_prefix: "space_back (p @ s) = 0 \<Longrightarrow> space_back p = 0"
  by (cases p rule: space_back.cases; cases s rule: space_back.cases)
     (auto split: if_splits)

lemma TrimSpace_front: "TrimSpace s = [] \<or> space_front (TrimSpace s) = 0"
proof -
  let ?t = "trim_by space_front s"
  obtain p where "rev ?t = p @ trim_by space_back (rev ?t)"
    using trim_by_suffix by blast
  then have t: "?t = TrimSpace s @ rev p"
    by (metis TrimSpace_def rev_append rev_rev_ident)
  have "space_front ?t = 0"
    using trim_by_fixed [of space_front s] by auto
  with t show ?thesis by (metis space_front_prefix)
qed

lemma TrimSpace_back: "TrimSpace s = [] \<or> space_back (rev (TrimSpace s)) = 0"
  using trim_by_fixed [of space_back "rev (trim_by space_front s)"]
  by (auto simp: TrimSpace_def)

lemma TrimSpace_id: "space_front s = 0 \<Longrightarrow> space_back (rev s) = 0 \<Longrightarrow> TrimSpace s = s"
  by (simp add: TrimSpace_def trim_by_idem)

lemma TrimSpace_idem [simp]: "TrimSpace (TrimSpace s) = TrimSpace s"
proof (cases "TrimSpace s = []")
  case True
  then show ?thesis by (simp add: TrimSpace_def)
next
  case False
  then show ?thesis
    using TrimSpace_front [of s] TrimSpace_back [of s] by (simp add: TrimSpace_id)
qed

lemma TrimSpace_capability:
  assumes "n \<noteq> []" "space_front n = 0" "v \<noteq> []" "space_back (rev v) = 0"
  shows "TrimSpace (n @ ''/v'' @ v) = n @ ''/v'' @ v"
proof (rule TrimSpace_id)
  show "space_front (n @ ''/v'' @ v) = 0"
    using space_front_append [of n v] assms by simp
  show "space_back (rev (n @ ''/v'' @ v)) = 0"
    using space_back_append [of "rev v" "rev n"] assms by simp
qed

text \<open>The version a declaration ends up with keeps a trimmed end, whichever branch chose it.\<close>

lemma TrimPrefix_v_back:
  assumes "TrimPrefix v ''v'' \<noteq> []" "space_back (rev v) = 0"
  shows "space_back (rev (TrimPrefix v ''v'')) = 0"
proof (cases "HasPrefix v ''v''")
  case True
  then obtain w where v: "v = CHR ''v'' # w"
    by (cases v) (auto simp: HasPrefix_def)
  with True have w: "TrimPrefix v ''v'' = w" by (simp add: TrimPrefix_def)
  have "space_back (rev w @ [CHR ''v'']) = 0" using assms v by simp
  then show ?thesis using w by (simp add: space_back_prefix)
qed (use assms in \<open>simp add: TrimPrefix_def\<close>)

lemma last_index_from_found:
  "last_index_from j s p = Some k \<Longrightarrow> j \<le> k \<and> HasPrefix (drop (k - j) s) p"
proof (induction s arbitrary: j)
  case (Cons c s)
  show ?case
  proof (cases "last_index_from (Suc j) s p")
    case None
    with Cons.prems show ?thesis by (simp split: if_splits)
  next
    case (Some k')
    with Cons.prems have k: "last_index_from (Suc j) s p = Some k" by simp
    from Cons.IH [OF this] have "Suc j \<le> k" "HasPrefix (drop (k - Suc j) s) p" by simp_all
    moreover from this have "drop (k - j) (c # s) = drop (k - Suc j) s"
      by (simp add: drop_Cons')
    ultimately show ?thesis by simp
  qed
qed simp

lemma HasPrefix_split: "HasPrefix (drop i s) p \<Longrightarrow> s = take i s @ p @ drop (i + length p) s"
  unfolding HasPrefix_def
  by (metis append_take_drop_id drop_drop add.commute)

lemma split_ok:
  assumes "splitCanonicalCapability d = (n, v, True)"
  shows "TrimSpace d = n @ ''/v'' @ v \<and> n \<noteq> [] \<and> v \<noteq> []"
proof -
  from assms obtain i where i: "LastIndex (TrimSpace d) ''/v'' = Some i" "i \<noteq> 0"
      "i + 2 < length (TrimSpace d)"
    and nv: "n = take i (TrimSpace d)" "v = drop (i + 2) (TrimSpace d)"
    by (auto simp: splitCanonicalCapability_def Let_def split: option.splits if_splits)
  have ne: "n \<noteq> []" "v \<noteq> []"
    unfolding nv using i(2,3) by (auto simp: take_eq_Nil)
  from i(1) last_index_from_found [of 0 "TrimSpace d" "''/v''" i]
  have "HasPrefix (drop i (TrimSpace d)) ''/v''" by (simp add: LastIndex_def)
  from HasPrefix_split [OF this] have "TrimSpace d = n @ ''/v'' @ v"
    unfolding nv by (simp add: numeral_2_eq_2)
  with ne show ?thesis by blast
qed

lemma split_not_ok: "splitCanonicalCapability d = (n, v, False) \<Longrightarrow> n = TrimSpace d"
  by (auto simp: splitCanonicalCapability_def Let_def split: option.splits if_splits)

lemma normalize_legacy_idem:
  "normalize_legacy n v = (n', v') \<Longrightarrow> normalize_legacy n' v' = (n', v')"
  by (auto simp: normalize_legacy_def split: if_splits)

lemma CanonicalNodeCapability_shape:
  assumes "CanonicalNodeCapability n v = Some c"
  obtains n' v' where "c = n' @ ''/v'' @ v'" "n' \<noteq> []" "space_front n' = 0" "v' \<noteq> []"
    "space_back (rev v') = 0" "\<not> ContainsAny n' blanks" "\<not> ContainsAny v' (blanks @ ''/'')"
    "normalize_legacy n' v' = (n', v')"
proof -
  let ?n = "TrimSpace n" and ?v = "TrimPrefix (TrimSpace v) ''v''"
  from assms have ne: "?n \<noteq> []"
    by (auto simp: CanonicalNodeCapability_def Let_def)
  obtain n2 v2 where p: "(if ?v = [] then (case splitCanonicalCapability ?n of
        (n, v, ok) \<Rightarrow> if ok then (n, v) else (n, ''1'')) else (?n, ?v)) = (n2, v2)"
    by (meson surj_pair)
  obtain n3 v3 where l: "normalize_legacy n2 v2 = (n3, v3)" by (meson surj_pair)
  from assms ne p l have c: "c = n3 @ ''/v'' @ v3" "v3 \<noteq> []" "\<not> ContainsAny n3 blanks"
      "\<not> ContainsAny v3 (blanks @ ''/'')"
    by (auto simp: CanonicalNodeCapability_def Let_def split: if_splits)
  have "n2 \<noteq> [] \<and> space_front n2 = 0 \<and> (v2 \<noteq> [] \<longrightarrow> space_back (rev v2) = 0)"
  proof (cases "?v = []")
    case False
    with p have nv: "n2 = ?n" "v2 = ?v" by simp_all
    have "space_back (rev (TrimSpace v)) = 0"
      using False TrimSpace_back [of v] by (auto simp: TrimPrefix_def HasPrefix_def)
    with False nv ne TrimSpace_front [of n] show ?thesis by (auto intro: TrimPrefix_v_back)
  next
    case True
    obtain n' v' ok where sp: "splitCanonicalCapability ?n = (n', v', ok)"
      by (metis surj_pair)
    show ?thesis
    proof (cases ok)
      case True
      with sp \<open>?v = []\<close> p have nv: "n2 = n'" "v2 = v'" by simp_all
      from sp True have d: "?n = n' @ ''/v'' @ v'" "n' \<noteq> []" "v' \<noteq> []"
        using split_ok [of ?n n' v'] by simp_all
      have "space_front n' = 0"
        using d(1) ne TrimSpace_front [of n] space_front_prefix by metis
      moreover have "space_back (rev v') = 0"
        using d(1) ne TrimSpace_back [of n] space_back_prefix [of "rev v'" "''v/'' @ rev n'"] by simp
      ultimately show ?thesis using nv d by simp
    next
      case False
      with sp \<open>?v = []\<close> p have "n2 = n'" "v2 = ''1''" by simp_all
      moreover from sp False have "n' = ?n" using split_not_ok [of ?n n' v'] by simp
      ultimately show ?thesis
        using ne TrimSpace_front [of n] by (simp add: ascii_space_def byte_def)
    qed
  qed
  with l c(2) have "n3 \<noteq> []" "space_front n3 = 0" "space_back (rev v3) = 0"
    by (auto simp: normalize_legacy_def ascii_space_def latin_space_def wide_space_def byte_def
        split: if_splits)
  with c normalize_legacy_idem [OF l] show ?thesis by (intro that)
qed

lemma split_canonical:
  assumes "n \<noteq> []" "space_front n = 0" "v \<noteq> []" "space_back (rev v) = 0"
    "\<not> ContainsAny v (blanks @ ''/'')"
  shows "splitCanonicalCapability (n @ ''/v'' @ v) = (n, v, True)"
proof -
  have "CHR ''/'' \<notin> set v"
    using assms(5) by (auto simp: ContainsAny_def list_ex_iff)
  then have "LastIndex (n @ ''/v'' @ v) ''/v'' = Some (length n)"
    by (rule LastIndex_append)
  with TrimSpace_capability [OF assms(1-4)] assms(1,3) show ?thesis
    by (simp add: splitCanonicalCapability_def)
qed

section \<open>Properties\<close>

text \<open>the power coordinator is idempotent. Once a request was accepted under a server and an
  idempotency key, repeating it (from any call environment) returns the very same operation and
  queues nothing, and reusing the key for another action is refused without a change.\<close>

theorem Request_idempotent:
  assumes "Request e s n a k ops = (Inr operation, ops')"
  shows "Request e2 s n2 a k ops' = (Inr operation, ops') \<and>
         (\<forall>a2. a2 \<noteq> a \<longrightarrow> Request e3 s n3 a2 k ops' = (Inl ErrIdempotencyKeyReused, ops'))"
proof (cases "coordinator_find ops s a k")
  case None
  with assms have "ops' = ops @ [operation]"
    and "operation = NewQueuedOperation (uuid e 0) s n a 0 k (clk e 0)"
    by (auto simp: Request_def Let_def)
  with None have found: "coordinator_find ops' s a k = Some (Inr operation)"
    by (simp add: coordinator_find_append)
  with coordinator_find_switch [OF found] show ?thesis
    by (simp add: Request_def)
next
  case (Some r)
  with assms have "coordinator_find ops' s a k = Some (Inr operation)"
    by (simp add: Request_def)
  with coordinator_find_switch [OF this] show ?thesis
    by (simp add: Request_def)
qed

theorem Request_idempotent_witness:
  "\<exists>operation. Request sample_env ''s'' ''n'' PowerStart ''k'' [] = (Inr operation, [operation]) \<and>
     Request sample_env ''s'' ''n'' PowerStop ''k'' [operation] =
       (Inl ErrIdempotencyKeyReused, [operation])"
proof -
  let ?op = "NewQueuedOperation (uuid sample_env 0) ''s'' ''n'' PowerStart 0 ''k'' (clk sample_env 0)"
  have "Request sample_env ''s'' ''n'' PowerStart ''k'' [] = (Inr ?op, [?op])"
    by (simp add: Request_def Let_def)
  moreover from Request_idempotent [OF this, of sample_env "''n''" sample_env "''n''"]
  have "Request sample_env ''s'' ''n'' PowerStop ''k'' [?op] = (Inl ErrIdempotencyKeyReused, [?op])"
    by simp
  ultimately show ?thesis by blast
qed

text \<open>canonical node capabilities are a normal form. Whatever name and version an agent
  declares, the canonical string is its own canonical form, and it splits into a non-empty name and
  version that rebuild it: what is written to the store reads back unchanged.\<close>

theorem CanonicalNodeCapability_roundtrip:
  assumes "CanonicalNodeCapability name version = Some canonical"
  shows "CanonicalNodeCapability canonical [] = Some canonical \<and>
         (\<exists>n v. SplitNodeCapability canonical = Some (n, v) \<and> n \<noteq> [] \<and> v \<noteq> [] \<and>
            canonical = n @ ''/v'' @ v)"
proof -
  obtain n v where nv: "canonical = n @ ''/v'' @ v" "n \<noteq> []" "space_front n = 0" "v \<noteq> []"
      "space_back (rev v) = 0" "\<not> ContainsAny n blanks" "\<not> ContainsAny v (blanks @ ''/'')"
      "normalize_legacy n v = (n, v)"
    using CanonicalNodeCapability_shape [OF assms] .
  have sp: "splitCanonicalCapability canonical = (n, v, True)"
    unfolding nv(1) using nv by (intro split_canonical)
  have tr: "TrimSpace canonical = canonical"
    unfolding nv(1) using nv by (intro TrimSpace_capability)
  have "TrimPrefix (TrimSpace []) ''v'' = []"
    by (simp add: TrimPrefix_def TrimSpace_def HasPrefix_def)
  with nv sp tr have "CanonicalNodeCapability canonical [] = Some canonical"
    by (simp add: CanonicalNodeCapability_def)
  with sp nv show ?thesis by (simp add: SplitNodeCapability_def)
qed

theorem CanonicalNodeCapability_roundtrip_witness:
  "CanonicalNodeCapability '' container '' ''v7'' = Some ''runtime.container/v1'' \<and>
   CanonicalNodeCapability ''runtime.container/v1'' [] = Some ''runtime.container/v1''"
proof -
  have "CanonicalNodeCapability '' container '' ''v7'' = Some ''runtime.container/v1''"
    by code_simp
  with CanonicalNodeCapability_roundtrip [OF this] show ?thesis by blast
qed

end
