(* ===== verification/Path_Safety.thy ===== *)
theory Path_Safety
  imports Domain_Model
begin

text \<open>
  The confinement of requested paths to a server's data root
  (\<^verbatim>\<open>internal/files/path.go\<close>), on a Unix host: \<^verbatim>\<open>filepath.IsAbs\<close> tests for a leading
  slash and \<^verbatim>\<open>filepath.VolumeName\<close> is empty. The functions \<open>Clean\<close>, \<open>join_path\<close> and
  \<open>Rel\<close> are the standard library's \<^verbatim>\<open>path.Clean\<close>, \<^verbatim>\<open>filepath.Join\<close> of two
  elements and \<^verbatim>\<open>filepath.Rel\<close> (for a target other than \<^verbatim>\<open>.\<close>, the only ones
  the code passes), written over the slash-separated components.
\<close>

section \<open>Lexical paths\<close>

definition rooted :: "string \<Rightarrow> bool" where
  "rooted p = HasPrefix p ''/''"

text \<open>One component of the input applied to the stack of output components.\<close>

fun clean_step :: "bool \<Rightarrow> string list \<Rightarrow> string \<Rightarrow> string list" where
  "clean_step r stack c =
     (if c = [] \<or> c = ''.'' then stack
      else if c = ''..'' then
        (if stack \<noteq> [] \<and> last stack \<noteq> ''..'' then butlast stack
         else if r then stack
         else stack @ [''..''])
      else stack @ [c])"

definition clean_components :: "string \<Rightarrow> string list" where
  "clean_components p = foldl (clean_step (rooted p)) [] (Split (CHR ''/'') p)"

definition render_path :: "bool \<Rightarrow> string list \<Rightarrow> string" where
  "render_path r cs = (if r then ''/'' @ Join cs ''/'' else if cs = [] then ''.'' else Join cs ''/'')"

definition Clean :: "string \<Rightarrow> string" where
  "Clean p = render_path (rooted p) (clean_components p)"

definition join_path :: "string \<Rightarrow> string \<Rightarrow> string" where
  "join_path a b =
     (if a = [] \<and> b = [] then [] else if a = [] then Clean b else if b = [] then Clean a
      else Clean (a @ ''/'' @ b))"

fun drop_common :: "string list \<Rightarrow> string list \<Rightarrow> string list \<times> string list" where
  "drop_common (a # as) (b # bs) = (if a = b then drop_common as bs else (a # as, b # bs))"
| "drop_common as bs = (as, bs)"

definition Rel :: "string \<Rightarrow> string \<Rightarrow> string option" where
  "Rel base target =
     (if Clean target = Clean base then Some ''.''
      else if rooted base \<noteq> rooted target then None
      else
        (case drop_common (clean_components base) (clean_components target) of
           (bs, ts) \<Rightarrow>
             if bs \<noteq> [] \<and> hd bs = ''..'' then None
             else Some (Join (replicate (length bs) ''..'' @ ts) ''/'')))"

section \<open>path.go\<close>

datatype path_error = ErrPathEscape | ErrPathLimit

definition hasWindowsDrivePrefix :: "string \<Rightarrow> bool" where
  "hasWindowsDrivePrefix value =
     (case value of
        a # b # _ \<Rightarrow>
          b = CHR '':'' \<and> (65 \<le> byte a \<and> byte a \<le> 90 \<or> 97 \<le> byte a \<and> byte a \<le> 122)
      | _ \<Rightarrow> False)"

text \<open>The loop over the components: the first offending component decides the error.\<close>

fun check_components :: "string list \<Rightarrow> path_error option" where
  "check_components [] = None"
| "check_components (c # cs) =
     (if rune_count c > 255 then Some ErrPathLimit
      else if c = ''..'' then Some ErrPathEscape
      else check_components cs)"

definition NormalizeRelative :: "string \<Rightarrow> path_error + string" where
  "NormalizeRelative requested =
     (if CHR 0x00 \<in> set requested \<or> rooted requested then Inl ErrPathEscape
      else
        let portable = ReplaceAll requested [CHR 0x5C] ''/'' in
        if rune_count portable > 1024 then Inl ErrPathLimit
        else if HasPrefix portable ''/'' \<or> hasWindowsDrivePrefix portable then Inl ErrPathEscape
        else
          (case check_components (Split (CHR ''/'') portable) of
             Some err \<Rightarrow> Inl err
           | None \<Rightarrow>
               let clean = Clean portable in
               if clean = ''..'' \<or> HasPrefix clean ''../'' then Inl ErrPathEscape
               else if clean = ''.'' then Inr []
               else Inr clean))"

definition ResolveWithinRoot :: "string \<Rightarrow> string \<Rightarrow> path_error + string" where
  "ResolveWithinRoot root requested =
     (case NormalizeRelative requested of
        Inl err \<Rightarrow> Inl err
      | Inr clean \<Rightarrow>
          if clean = [] then Inr (Clean root)
          else
            let resolved = join_path root clean in
            (case Rel root resolved of
               None \<Rightarrow> Inl ErrPathEscape
             | Some relative \<Rightarrow>
                 if relative = ''..'' \<or> HasPrefix relative ''../'' then Inl ErrPathEscape
                 else Inr resolved))"

section \<open>Components\<close>

abbreviation slash :: char where "slash \<equiv> CHR ''/''"

definition plain :: "string \<Rightarrow> bool" where
  "plain c \<longleftrightarrow> c \<noteq> [] \<and> c \<noteq> ''.'' \<and> c \<noteq> ''..'' \<and> slash \<notin> set c"

text \<open>Normal forms of component stacks: a run of parent steps, then plain components.\<close>

definition normal_stack :: "bool \<Rightarrow> string list \<Rightarrow> bool" where
  "normal_stack r cs \<longleftrightarrow> (\<exists>k ds. cs = replicate k ''..'' @ ds \<and> list_all plain ds \<and> (r \<longrightarrow> k = 0))"

lemma Split_append: "Split sep (a @ sep # b) = Split sep a @ Split sep b"
proof (induction a)
  case (Cons c a)
  then show ?case by (cases "Split sep a") auto
qed simp

lemma Split_single: "sep \<notin> set a \<Longrightarrow> Split sep a = [a]"
  by (induction a) auto

lemma Split_Join: "cs \<noteq> [] \<Longrightarrow> \<forall>c \<in> set cs. sep \<notin> set c \<Longrightarrow> Split sep (Join cs [sep]) = cs"
proof (induction cs)
  case (Cons c cs)
  show ?case
  proof (cases cs)
    case Nil
    with Cons.prems show ?thesis by (simp add: Split_single)
  next
    case (Cons d ds)
    with Cons.prems Cons.IH show ?thesis
      by (simp add: Split_append [of sep c] Split_single)
  qed
qed simp

lemma clean_step_plain: "plain c \<Longrightarrow> clean_step r st c = st @ [c]"
  by (simp add: plain_def)

lemma foldl_clean_plain: "list_all plain cs \<Longrightarrow> foldl (clean_step r) st cs = st @ cs"
  by (induction cs arbitrary: st) (simp_all add: clean_step_plain del: clean_step.simps)

lemma foldl_clean_filter:
  "''..'' \<notin> set cs \<Longrightarrow>
   foldl (clean_step r) st cs = st @ filter (\<lambda>c. c \<noteq> [] \<and> c \<noteq> ''.'') cs"
  by (induction cs arbitrary: st) auto

lemma foldl_clean_parents: "foldl (clean_step False) (replicate k ''..'') (replicate j ''..'') = replicate (k + j) ''..''"
proof (induction j arbitrary: k)
  case (Suc j)
  have "clean_step False (replicate k ''..'') ''..'' = replicate (Suc k) ''..''"
    by (cases k) (auto simp: replicate_append_same)
  with Suc [of "Suc k"] show ?case by (simp del: clean_step.simps)
qed simp

lemma foldl_clean_normal: "normal_stack r cs \<Longrightarrow> foldl (clean_step r) [] cs = cs"
  unfolding normal_stack_def
  using foldl_clean_parents [of 0] by (auto simp: foldl_clean_plain simp del: clean_step.simps)

lemma clean_step_normal:
  assumes "normal_stack r st" "slash \<notin> set c"
  shows "normal_stack r (clean_step r st c)"
proof -
  obtain k ds where st: "st = replicate k ''..'' @ ds" "list_all plain ds" "r \<longrightarrow> k = 0"
    using assms(1) unfolding normal_stack_def by blast
  show ?thesis
  proof (cases "c = ''..''")
    case True
    show ?thesis
    proof (cases "ds = []")
      case dn: True
      then have "clean_step r st c = (if r then st else replicate (Suc k) ''..'')"
        using True st by (cases k) (auto simp: replicate_append_same)
      moreover have "normal_stack r (replicate (Suc k) ''..'')" if "\<not> r"
        unfolding normal_stack_def using that by (intro exI [of _ "Suc k"] exI [of _ "[]"]) simp
      ultimately show ?thesis using assms(1) by (metis (full_types))
    next
      case False
      with st(2) have "last ds \<noteq> ''..''" "list_all plain (butlast ds)"
        by (auto simp: list_all_iff plain_def dest: in_set_butlastD)
      moreover have "last st = last ds" "st \<noteq> []" "butlast st = replicate k ''..'' @ butlast ds"
        using st False by (simp_all add: butlast_append)
      ultimately have "clean_step r st c = replicate k ''..'' @ butlast ds"
        using True by simp
      with st \<open>list_all plain (butlast ds)\<close> show ?thesis unfolding normal_stack_def by blast
    qed
  next
    case False
    show ?thesis
    proof (cases "c = [] \<or> c = ''.''")
      case True
      with assms(1) show ?thesis by auto
    next
      case np: False
      with False assms(2) have "plain c" by (simp add: plain_def)
      then have "clean_step r st c = replicate k ''..'' @ (ds @ [c])"
        using st by (simp add: clean_step_plain del: clean_step.simps)
      moreover have "list_all plain (ds @ [c])" using st \<open>plain c\<close> by simp
      ultimately show ?thesis unfolding normal_stack_def using st(3) by blast
    qed
  qed
qed

lemma foldl_clean_keeps:
  "normal_stack r st \<Longrightarrow> \<forall>c \<in> set cs. slash \<notin> set c \<Longrightarrow> normal_stack r (foldl (clean_step r) st cs)"
  by (induction cs arbitrary: st) (simp_all add: clean_step_normal del: clean_step.simps)

lemma normal_clean_components: "normal_stack (rooted p) (clean_components p)"
  unfolding clean_components_def
  by (rule foldl_clean_keeps) (auto simp: normal_stack_def dest: Split_no_sep)

lemma normal_no_slash: "normal_stack r cs \<Longrightarrow> c \<in> set cs \<Longrightarrow> c \<noteq> [] \<and> slash \<notin> set c"
proof -
  assume "normal_stack r cs" "c \<in> set cs"
  then obtain k ds where "c \<in> set (replicate k ''..'') \<or> c \<in> set ds" "list_all plain ds"
    unfolding normal_stack_def by (metis Un_iff set_append)
  then consider "c = ''..''" | "plain c" by (auto simp: list_all_iff)
  then show ?thesis by cases (simp_all add: plain_def)
qed

lemma Join_not_rooted:
  assumes "cs \<noteq> []" "\<forall>c \<in> set cs. c \<noteq> [] \<and> slash \<notin> set c"
  shows "\<not> rooted (Join cs ''/'')"
proof -
  obtain c ds where cs: "cs = c # ds" using assms(1) by (cases cs) auto
  with assms(2) obtain x xs where "c = x # xs" "x \<noteq> slash" by (cases c) auto
  with cs show ?thesis by (cases ds) (simp_all add: rooted_def HasPrefix_def)
qed

lemma rooted_render: "normal_stack r cs \<Longrightarrow> rooted (render_path r cs) = r"
  using Join_not_rooted [of cs] normal_no_slash [of r cs]
  by (cases r) (auto simp: render_path_def rooted_def HasPrefix_def)

lemma components_render:
  assumes "normal_stack r cs"
  shows "clean_components (render_path r cs) = cs"
proof (cases "cs = []")
  case True
  then show ?thesis
    by (cases r) (simp_all add: render_path_def clean_components_def rooted_def HasPrefix_def)
next
  case False
  have sp: "Split slash (Join cs ''/'') = cs"
    using Split_Join [OF False, of slash] assms normal_no_slash by blast
  have "foldl (clean_step r) [] (Split slash (render_path r cs)) = cs"
    using sp False foldl_clean_normal [OF assms] by (cases r) (simp_all add: render_path_def)
  with rooted_render [OF assms] show ?thesis by (simp add: clean_components_def)
qed

lemma drop_common_append: "drop_common as (as @ bs) = ([], bs)"
  by (induction as) (cases bs; simp)+

lemma check_components_None:
  "check_components cs = None \<longleftrightarrow> ''..'' \<notin> set cs \<and> (\<forall>c \<in> set cs. rune_count c \<le> 255)"
  by (induction cs) auto

lemma set_ReplaceAll_single: "set (ReplaceAll s [a] [b]) \<subseteq> (set s - {a}) \<union> {b}"
proof (induction s)
  case (Cons c s)
  then show ?case
    by (subst ReplaceAll.simps) (auto simp: HasPrefix_def)
qed (simp add: ReplaceAll.simps)

section \<open>Confinement\<close>

lemma Split_subset: "x \<in> set (Split sep s) \<Longrightarrow> set x \<subseteq> set s"
proof (induction s arbitrary: x)
  case (Cons c s)
  from Cons.IH have IH: "\<forall>y \<in> set (Split sep s). set y \<subseteq> set s" by blast
  obtain p ps where "Split sep s = p # ps" by (cases "Split sep s") auto
  with Cons.prems IH have "x = [] \<or> (x = c # p \<and> p \<in> set (Split sep s)) \<or> x \<in> set (Split sep s)"
    by (auto split: if_splits)
  with IH show ?case by fastforce
qed simp

lemma HasPrefix_in: "HasPrefix s p \<Longrightarrow> set p \<subseteq> set s"
  unfolding HasPrefix_def by (metis set_take_subset)

lemma Join_no_parent:
  assumes "list_all plain cs" "cs \<noteq> []"
  shows "Join cs ''/'' \<noteq> ''..'' \<and> \<not> HasPrefix (Join cs ''/'') ''../''"
proof -
  have sp: "Split slash (Join cs ''/'') = cs"
    using Split_Join [OF assms(2), of slash] assms(1) by (auto simp: list_all_iff plain_def)
  have "Split slash s \<noteq> cs" if "hd (Split slash s) = ''..''" for s
    using assms that by (cases cs) (auto simp: plain_def)
  moreover have "hd (Split slash s) = ''..''" if "s = ''..'' \<or> HasPrefix s ''../''" for s
  proof -
    from that consider "s = ''..''" | t where "s = ''..'' @ slash # t"
      by (auto simp: HasPrefix_def) (metis append_Cons append_Nil append_take_drop_id)
    then show ?thesis by cases (simp_all add: Split_append [of slash "''..''"])
  qed
  ultimately show ?thesis using sp by blast
qed

lemma Join_plain_Nil: "list_all plain cs \<Longrightarrow> Join cs ''/'' = [] \<longleftrightarrow> cs = []"
  by (induction cs "''/''" rule: Join.induct) (auto simp: plain_def)

lemma Join_eq_dot:
  assumes "list_all plain cs" "cs \<noteq> []"
  shows "Join cs ''/'' \<noteq> ''.''"
proof
  assume "Join cs ''/'' = ''.''"
  then have "cs = Split slash ''.''"
    using Split_Join [OF assms(2), of slash] assms(1) by (auto simp: list_all_iff plain_def)
  with assms show False by (simp add: plain_def)
qed

lemma normal_append: "normal_stack r cs \<Longrightarrow> list_all plain ds \<Longrightarrow> normal_stack r (cs @ ds)"
proof -
  assume "normal_stack r cs" "list_all plain ds"
  then obtain k es where "cs @ ds = replicate k ''..'' @ (es @ ds)" "list_all plain (es @ ds)" "r \<longrightarrow> k = 0"
    unfolding normal_stack_def by auto
  then show ?thesis unfolding normal_stack_def by blast
qed

lemma join_plain:
  assumes "list_all plain cs" "cs \<noteq> []" "c = Join cs ''/''"
  shows "join_path root c = render_path (rooted root) (clean_components root @ cs)"
proof -
  have sp: "Split slash c = cs"
    unfolding assms(3) using Split_Join [OF assms(2), of slash] assms(1)
    by (auto simp: list_all_iff plain_def)
  have ne: "c \<noteq> []" using assms Join_plain_Nil by auto
  have nr: "\<not> rooted c"
    unfolding assms(3) using Join_not_rooted [OF assms(2)] assms(1) by (auto simp: list_all_iff plain_def)
  show ?thesis
  proof (cases "root = []")
    case True
    with ne nr sp assms(1) show ?thesis
      by (simp add: join_path_def Clean_def clean_components_def foldl_clean_plain rooted_def HasPrefix_def)
  next
    case False
    then have "rooted (root @ ''/'' @ c) = rooted root" by (cases root) (simp_all add: rooted_def HasPrefix_def)
    with False ne sp assms(1) show ?thesis
      by (simp add: join_path_def Clean_def clean_components_def Split_append foldl_clean_plain)
  qed
qed

text \<open>What an accepted path looks like.\<close>

lemma NormalizeRelative_shape:
  assumes "NormalizeRelative requested = Inr c"
  obtains cs where "list_all plain cs" "c = Join cs ''/''" "c = [] \<longleftrightarrow> cs = []"
    "\<forall>x \<in> set cs. rune_count x \<le> 255 \<and> CHR 0x5C \<notin> set x \<and> CHR 0x00 \<notin> set x"
proof -
  let ?p = "ReplaceAll requested [CHR 0x5C] ''/''"
  let ?cs = "filter (\<lambda>c. c \<noteq> [] \<and> c \<noteq> ''.'') (Split slash ?p)"
  from assms have nul: "CHR 0x00 \<notin> set requested" and nr: "\<not> rooted ?p"
    and chk: "''..'' \<notin> set (Split slash ?p)" "\<forall>c \<in> set (Split slash ?p). rune_count c \<le> 255"
    and c: "c = (if Clean ?p = ''.'' then [] else Clean ?p)"
    by (auto simp: NormalizeRelative_def rooted_def Let_def check_components_None
        split: if_splits option.splits)
  have pl: "list_all plain ?cs"
    using chk(1) Split_no_sep [of _ slash ?p] by (auto simp: list_all_iff plain_def)
  have "clean_components ?p = ?cs"
    using nr chk(1) by (simp add: clean_components_def foldl_clean_filter)
  with nr have cl: "Clean ?p = (if ?cs = [] then ''.'' else Join ?cs ''/'')"
    by (simp add: Clean_def render_path_def)
  have sub: "set x \<subseteq> set ?p" if "x \<in> set (Split slash ?p)" for x
    using that by (rule Split_subset)
  have "c = Join ?cs ''/''" "c = [] \<longleftrightarrow> ?cs = []"
    using c cl pl Join_eq_dot [OF pl] Join_plain_Nil [OF pl] by (auto split: if_splits)
  moreover have "set ?p \<subseteq> (set requested - {CHR 0x5C}) \<union> {slash}"
    by (rule set_ReplaceAll_single)
  with nul have "CHR 0x5C \<notin> set ?p" "CHR 0x00 \<notin> set ?p" by auto
  with sub chk(2) have "\<forall>x \<in> set ?cs. rune_count x \<le> 255 \<and> CHR 0x5C \<notin> set x \<and> CHR 0x00 \<notin> set x"
    by auto
  ultimately show ?thesis using pl that by blast
qed

text \<open>C35: confinement. Resolving a requested path succeeds exactly when it normalises, and the
  result is the cleaned root followed by the components of the normalised path, none of which is
  empty, a dot, a parent step, or contains a separator of either platform or a NUL byte: no request
  reaches outside the root, whatever the root is.\<close>

theorem ResolveWithinRoot_confined:
  "(\<exists>e. NormalizeRelative requested = Inl e \<and> ResolveWithinRoot root requested = Inl e) \<or>
   (\<exists>c cs. NormalizeRelative requested = Inr c \<and> c = Join cs ''/'' \<and>
      list_all (\<lambda>x. plain x \<and> rune_count x \<le> 255 \<and> CHR 0x5C \<notin> set x \<and> CHR 0x00 \<notin> set x) cs \<and>
      ResolveWithinRoot root requested = Inr (render_path (rooted root) (clean_components root @ cs)))"
proof (cases "NormalizeRelative requested")
  case (Inl e)
  then show ?thesis by (simp add: ResolveWithinRoot_def)
next
  case (Inr c)
  obtain cs where cs: "list_all plain cs" "c = Join cs ''/''" "c = [] \<longleftrightarrow> cs = []"
    "\<forall>x \<in> set cs. rune_count x \<le> 255 \<and> CHR 0x5C \<notin> set x \<and> CHR 0x00 \<notin> set x"
    using NormalizeRelative_shape [OF Inr] .
  have "ResolveWithinRoot root requested = Inr (render_path (rooted root) (clean_components root @ cs))"
  proof (cases "cs = []")
    case True
    with cs Inr show ?thesis by (simp add: ResolveWithinRoot_def Clean_def)
  next
    case False
    let ?t = "render_path (rooted root) (clean_components root @ cs)"
    have j: "join_path root c = ?t" by (rule join_plain) (use cs False in simp_all)
    have rel: "Rel root ?t = Some ''.'' \<or> Rel root ?t = Some (Join cs ''/'')"
      using cs(1) normal_clean_components [of root]
      by (simp add: Rel_def normal_append components_render rooted_render drop_common_append)
    from Join_no_parent [OF cs(1) False] rel Inr cs(3) False show ?thesis
      by (auto simp: ResolveWithinRoot_def j Let_def HasPrefix_def)
  qed
  with Inr cs show ?thesis by (auto simp: list_all_iff)
qed

text \<open>the drive-letter test runs before the path is cleaned, so it can be sidestepped: a dot
  component in front hides the drive prefix, and the accepted result is itself a path the function
  refuses. Normalisation is therefore not idempotent.\<close>

theorem NormalizeRelative_drive_prefix:
  "NormalizeRelative ''./C:/x'' = Inr ''C:/x'' \<and> NormalizeRelative ''C:/x'' = Inl ErrPathEscape"
  by code_simp

end
