(* ===== verification/Attempt_Limiter.thy ===== *)
theory Attempt_Limiter
  imports Domain_Model "HOL-Library.Multiset"
begin

text \<open>
  The attempt limiter of \<^verbatim>\<open>internal/identity/login_limiter.go\<close>: admission of login, setup and
  password-reset attempts over several dimensions (account, source address), with reservations that
  are counted while they are in flight. A method of \<^verbatim>\<open>*AttemptLimiter\<close> is a function on
  the limiter record; \<open>None\<close> is the nil limiter. The clock reading of a call is its argument
  \<open>now\<close>.
\<close>

record AttemptLimit =
  Maximum :: int
  Window :: duration
  BlockFor :: duration
  Capacity :: int

record attemptState =
  failures :: "gotime list"
  blockedUntil :: gotime
  lastFailure :: gotime
  lastActivity :: gotime
  inFlight :: int

definition zero_attempt :: attemptState where
  "zero_attempt = \<lparr>failures = [], blockedUntil = 0, lastFailure = 0, lastActivity = 0, inFlight = 0\<rparr>"

datatype completionKind = completionCancel | completionFailure | completionSuccess

record AttemptLimiter =
  config :: AttemptLimit
  entries :: "(string, attemptState) gomap"

text \<open>A reservation: the reserved keys and whether its \<^verbatim>\<open>sync.Once\<close> has run.\<close>

record AttemptReservation =
  res_keys :: "string list"
  res_done :: bool

definition defaultAttemptLimitCapacity :: int where
  "defaultAttemptLimitCapacity = 4096"

definition NewAttemptLimiter :: "AttemptLimit \<Rightarrow> AttemptLimiter option" where
  "NewAttemptLimiter cfg0 =
     (let cfg = (if Capacity cfg0 = 0 then cfg0\<lparr>Capacity := defaultAttemptLimitCapacity\<rparr> else cfg0) in
      if Maximum cfg < 1 \<or> Window cfg \<le> 0 \<or> BlockFor cfg \<le> 0 \<or> Capacity cfg < 1 then None
      else Some \<lparr>config = cfg, entries = []\<rparr>)"

text \<open>\<^verbatim>\<open>Time.Sub\<close> saturates at the bounds of a duration.\<close>

definition time_sub :: "gotime \<Rightarrow> gotime \<Rightarrow> duration" where
  "time_sub t u = max (- (2 ^ 63)) (min max_int64 (t - u))"

definition idle :: "attemptState \<Rightarrow> bool" where
  "idle st = (failures st = [] \<and> blockedUntil st = 0 \<and> inFlight st = 0)"

definition prune :: "AttemptLimit \<Rightarrow> attemptState \<Rightarrow> gotime \<Rightarrow> attemptState" where
  "prune cfg st now =
     (if blockedUntil st \<noteq> 0 \<and> now < blockedUntil st then st
      else
        let st1 = (if blockedUntil st \<noteq> 0 then st\<lparr>blockedUntil := 0, failures := []\<rparr> else st);
            cutoff = now - Window cfg
        in st1\<lparr>failures := dropWhile (\<lambda>t. t < cutoff) (failures st1)\<rparr>)"

definition retryAfter :: "AttemptLimit \<Rightarrow> attemptState \<Rightarrow> gotime \<Rightarrow> duration" where
  "retryAfter cfg st now =
     (if now < blockedUntil st then time_sub (blockedUntil st) now
      else if int (length (failures st)) + inFlight st < Maximum cfg then 0
      else if inFlight st > 0 \<and> failures st = [] then second
      else (case failures st of
              [] \<Rightarrow> second
            | f # _ \<Rightarrow> (let r = time_sub (f + Window cfg) now in if r > 0 then r else second)))"

definition storeOrDelete ::
  "string \<Rightarrow> attemptState \<Rightarrow> (string, attemptState) gomap \<Rightarrow> (string, attemptState) gomap" where
  "storeOrDelete key st m = (if idle st then mdel key m else mput key st m)"

definition normalizedLimitKeys :: "string list \<Rightarrow> string list" where
  "normalizedLimitKeys keys = dedupe [] (filter (\<lambda>k. k \<noteq> []) (map TrimSpace keys))"

text \<open>The first loop of \<^verbatim>\<open>Reserve\<close>: prune the requested entries and find the longest wait.\<close>

fun reserve_scan ::
  "AttemptLimit \<Rightarrow> gotime \<Rightarrow> string list \<Rightarrow> (string, attemptState) gomap \<Rightarrow> duration
     \<Rightarrow> (string, attemptState) gomap \<times> duration" where
  "reserve_scan cfg now [] m maxRetryAfter = (m, maxRetryAfter)"
| "reserve_scan cfg now (key # keys) m maxRetryAfter =
     (case mget m key of
        None \<Rightarrow> reserve_scan cfg now keys m maxRetryAfter
      | Some st0 \<Rightarrow>
          let st = prune cfg st0 now in
          if idle st then reserve_scan cfg now keys (mdel key m) maxRetryAfter
          else
            let r = retryAfter cfg st now
            in reserve_scan cfg now keys (mput key st m) (if r > maxRetryAfter then r else maxRetryAfter))"

definition prune_all :: "AttemptLimit \<Rightarrow> gotime \<Rightarrow> (string, attemptState) gomap \<Rightarrow> (string, attemptState) gomap" where
  "prune_all cfg now m = mdel_if (\<lambda>_ st. idle st) (mmap (\<lambda>_ st. prune cfg st now) m)"

definition candidate :: "string list \<Rightarrow> string \<times> attemptState \<Rightarrow> bool" where
  "candidate requested e =
     (case e of (key, st) \<Rightarrow> \<not> (key \<in> set requested \<or> inFlight st > 0 \<or> blockedUntil st \<noteq> 0))"

definition candidate_at :: "attemptState \<Rightarrow> gotime" where
  "candidate_at st = (if lastActivity st = 0 then lastFailure st else lastActivity st)"

text \<open>The eviction order: the oldest activity first, ties in the order of the entries (the code's map
  order, and so the choice among ties, is random).\<close>

definition candidates :: "string list \<Rightarrow> (string, attemptState) gomap \<Rightarrow> string list" where
  "candidates requested m =
     map fst (sort_key (\<lambda>e. candidate_at (snd e)) (filter (candidate requested) m))"

definition ensureCapacity ::
  "AttemptLimit \<Rightarrow> gotime \<Rightarrow> string list \<Rightarrow> (string, attemptState) gomap
     \<Rightarrow> bool \<times> (string, attemptState) gomap" where
  "ensureCapacity cfg now requested m0 =
     (let m = prune_all cfg now m0;
          missing = int (length (filter (\<lambda>k. \<not> mhas m k) requested));
          need = int (length m) + missing - Capacity cfg;
          cs = candidates requested m
      in if int (length m) + missing \<le> Capacity cfg then (True, m)
         else if int (length cs) < need then (False, m)
         else (True, foldl (\<lambda>m k. mdel k m) m (take (nat need) cs)))"

text \<open>The last loop of \<^verbatim>\<open>Reserve\<close>: count the attempt in every dimension.\<close>

definition admit :: "gotime \<Rightarrow> (string, attemptState) gomap \<Rightarrow> string \<Rightarrow> (string, attemptState) gomap" where
  "admit now m key =
     (let st = mget_zero zero_attempt m key
      in mput key (st\<lparr>inFlight := inFlight st + 1, lastActivity := now\<rparr>) m)"

definition Reserve ::
  "gotime \<Rightarrow> string list \<Rightarrow> AttemptLimiter option
     \<Rightarrow> (AttemptReservation option \<times> bool \<times> duration) \<times> AttemptLimiter option" where
  "Reserve now keys limiter =
     (let ks = normalizedLimitKeys keys;
          reservation = \<lparr>res_keys = ks, res_done = False\<rparr>
      in case limiter of
           None \<Rightarrow> ((Some reservation, True, 0), None)
         | Some l \<Rightarrow>
             if ks = [] then ((Some reservation, True, 0), Some l)
             else
               let (m1, maxRetryAfter) = reserve_scan (config l) now ks (entries l) 0
               in if maxRetryAfter > 0 then ((None, False, maxRetryAfter), Some (l\<lparr>entries := m1\<rparr>))
                  else
                    let (ok, m2) = ensureCapacity (config l) now ks m1
                    in if \<not> ok then ((None, False, second), Some (l\<lparr>entries := m2\<rparr>))
                       else ((Some reservation, True, 0),
                             Some (l\<lparr>entries := foldl (admit now) m2 ks\<rparr>)))"

text \<open>The state one iteration of \<^verbatim>\<open>complete\<close> computes for a key, and the iteration.\<close>

definition completed_state ::
  "AttemptLimit \<Rightarrow> gotime \<Rightarrow> completionKind \<Rightarrow> bool \<Rightarrow> attemptState \<Rightarrow> attemptState" where
  "completed_state cfg now kind reset st0 =
     (let st1 = prune cfg st0 now;
          st2 = (if inFlight st1 > 0 then st1\<lparr>inFlight := inFlight st1 - 1\<rparr> else st1);
          st3 = (case kind of
                   completionFailure \<Rightarrow>
                     if \<not> now < blockedUntil st2 then
                       let st = st2\<lparr>failures := failures st2 @ [now], lastFailure := now\<rparr>
                       in if int (length (failures st)) \<ge> Maximum cfg
                          then st\<lparr>failures := [], blockedUntil := now + BlockFor cfg\<rparr> else st
                     else st2
                 | completionSuccess \<Rightarrow> if reset then st2\<lparr>failures := [], blockedUntil := 0\<rparr> else st2
                 | completionCancel \<Rightarrow> st2)
      in st3\<lparr>lastActivity := now\<rparr>)"

definition complete_key ::
  "AttemptLimit \<Rightarrow> gotime \<Rightarrow> completionKind \<Rightarrow> string list
     \<Rightarrow> (string, attemptState) gomap \<Rightarrow> string \<Rightarrow> (string, attemptState) gomap" where
  "complete_key cfg now kind resetKeys m key =
     (case mget m key of
        None \<Rightarrow> m
      | Some st \<Rightarrow> storeOrDelete key (completed_state cfg now kind (key \<in> set resetKeys) st) m)"

definition limiter_complete ::
  "gotime \<Rightarrow> string list \<Rightarrow> completionKind \<Rightarrow> string list \<Rightarrow> AttemptLimiter option \<Rightarrow> AttemptLimiter option" where
  "limiter_complete now keys kind resetKeys limiter =
     map_option (\<lambda>l. l\<lparr>entries :=
        foldl (complete_key (config l) now kind resetKeys) (entries l) (normalizedLimitKeys keys)\<rparr>) limiter"

text \<open>Completing a reservation: the \<^verbatim>\<open>sync.Once\<close> lets only the first completion through.\<close>

definition reservation_complete ::
  "gotime \<Rightarrow> completionKind \<Rightarrow> string list \<Rightarrow> AttemptReservation \<Rightarrow> AttemptLimiter option
     \<Rightarrow> AttemptReservation \<times> AttemptLimiter option" where
  "reservation_complete now kind resetKeys r limiter =
     (if res_done r then (r, limiter)
      else (r\<lparr>res_done := True\<rparr>, limiter_complete now (res_keys r) kind resetKeys limiter))"

definition CompleteFailure ::
  "gotime \<Rightarrow> AttemptReservation \<Rightarrow> AttemptLimiter option \<Rightarrow> AttemptReservation \<times> AttemptLimiter option" where
  "CompleteFailure now r limiter = reservation_complete now completionFailure [] r limiter"

definition CompleteSuccess ::
  "gotime \<Rightarrow> string list \<Rightarrow> AttemptReservation \<Rightarrow> AttemptLimiter option
     \<Rightarrow> AttemptReservation \<times> AttemptLimiter option" where
  "CompleteSuccess now resetKeys r limiter =
     reservation_complete now completionSuccess (normalizedLimitKeys resetKeys) r limiter"

definition Cancel ::
  "gotime \<Rightarrow> AttemptReservation \<Rightarrow> AttemptLimiter option \<Rightarrow> AttemptReservation \<times> AttemptLimiter option" where
  "Cancel now r limiter = reservation_complete now completionCancel [] r limiter"

definition Allow ::
  "gotime \<Rightarrow> gotime \<Rightarrow> string list \<Rightarrow> AttemptLimiter option \<Rightarrow> (bool \<times> duration) \<times> AttemptLimiter option" where
  "Allow now now2 keys limiter =
     (case Reserve now keys limiter of
        ((reservation, allowed, retry), l) \<Rightarrow>
          ((allowed, retry),
           case reservation of
             Some r \<Rightarrow> if allowed then snd (Cancel now2 r l) else l
           | None \<Rightarrow> l))"

definition RecordFailure ::
  "gotime \<Rightarrow> gotime \<Rightarrow> string list \<Rightarrow> AttemptLimiter option \<Rightarrow> AttemptLimiter option" where
  "RecordFailure now now2 keys limiter =
     (case Reserve now keys limiter of
        ((reservation, allowed, retry), l) \<Rightarrow>
          (case reservation of
             Some r \<Rightarrow> if allowed then snd (CompleteFailure now2 r l) else l
           | None \<Rightarrow> l))"

definition reset_key ::
  "AttemptLimit \<Rightarrow> gotime \<Rightarrow> (string, attemptState) gomap \<Rightarrow> string \<Rightarrow> (string, attemptState) gomap" where
  "reset_key cfg now m key =
     (case mget m key of
        None \<Rightarrow> m
      | Some st0 \<Rightarrow> storeOrDelete key ((prune cfg st0 now)\<lparr>failures := [], blockedUntil := 0\<rparr>) m)"

definition Reset :: "gotime \<Rightarrow> string list \<Rightarrow> AttemptLimiter option \<Rightarrow> AttemptLimiter option" where
  "Reset now keys limiter =
     map_option (\<lambda>l. l\<lparr>entries :=
        foldl (reset_key (config l) now) (entries l) (normalizedLimitKeys keys)\<rparr>) limiter"

section \<open>Properties of the limiter\<close>

text \<open>Invariant of one entry and of the map.\<close>

definition state_ok :: "AttemptLimit \<Rightarrow> attemptState \<Rightarrow> bool" where
  "state_ok cfg st \<longleftrightarrow>
     0 \<le> inFlight st \<and> int (length (failures st)) < Maximum cfg \<and>
     int (length (failures st)) + inFlight st \<le> Maximum cfg \<and>
     (blockedUntil st \<noteq> 0 \<longrightarrow> failures st = [])"

definition entries_ok :: "AttemptLimit \<Rightarrow> (string, attemptState) gomap \<Rightarrow> bool" where
  "entries_ok cfg m \<longleftrightarrow> mwf m \<and> (\<forall>k st. mget m k = Some st \<longrightarrow> state_ok cfg st \<and> \<not> idle st)"

definition inFlightOf :: "(string, attemptState) gomap \<Rightarrow> string \<Rightarrow> int" where
  "inFlightOf m k = inFlight (mget_zero zero_attempt m k)"

lemma prune_sel [simp]: "inFlight (prune cfg st now) = inFlight st"
  by (simp add: prune_def Let_def)

lemma length_dropWhile: "length (dropWhile P xs) \<le> length xs"
  by (induction xs) auto

lemma length_failures_prune: "length (failures (prune cfg st now)) \<le> length (failures st)"
  by (simp add: prune_def Let_def length_dropWhile)

lemma state_ok_prune: "state_ok cfg st \<Longrightarrow> state_ok cfg (prune cfg st now)"
  using length_dropWhile [of "\<lambda>t. t < now - Window cfg" "failures st"]
  by (auto simp: state_ok_def prune_def Let_def)

lemma inFlightOf_put [simp]:
  "inFlightOf (mput k st m) k' = (if k' = k then inFlight st else inFlightOf m k')"
  by (simp add: inFlightOf_def)

lemma inFlightOf_del: "inFlightOf (mdel k m) k' = (if k' = k then 0 else inFlightOf m k')"
  by (simp add: inFlightOf_def mget_zero_def zero_attempt_def)

lemma inFlightOf_Some: "mget m k = Some st \<Longrightarrow> inFlightOf m k = inFlight st"
  by (simp add: inFlightOf_def mget_zero_def)

lemma inFlightOf_None: "mget m k = None \<Longrightarrow> inFlightOf m k = 0"
  by (simp add: inFlightOf_def mget_zero_def zero_attempt_def)

lemma inFlightOf_storeOrDelete [simp]:
  "inFlightOf (storeOrDelete k st m) k' = (if k' = k then inFlight st else inFlightOf m k')"
  by (simp add: storeOrDelete_def inFlightOf_del idle_def)

lemma entries_ok_put:
  "entries_ok cfg m \<Longrightarrow> state_ok cfg st \<Longrightarrow> \<not> idle st \<Longrightarrow> entries_ok cfg (mput k st m)"
  by (auto simp: entries_ok_def)

lemma entries_ok_del: "entries_ok cfg m \<Longrightarrow> entries_ok cfg (mdel k m)"
  by (auto simp: entries_ok_def)

lemma entries_ok_storeOrDelete:
  "entries_ok cfg m \<Longrightarrow> state_ok cfg st \<Longrightarrow> entries_ok cfg (storeOrDelete k st m)"
  by (simp add: storeOrDelete_def entries_ok_put entries_ok_del)

lemma reserve_scan_keeps:
  "entries_ok cfg m \<Longrightarrow> reserve_scan cfg now keys m r = (m', r') \<Longrightarrow>
   entries_ok cfg m' \<and> (\<forall>k. inFlightOf m' k = inFlightOf m k)"
proof (induction keys arbitrary: m r)
  case (Cons key keys)
  show ?case
  proof (cases "mget m key")
    case None
    with Cons show ?thesis by simp
  next
    case (Some st)
    let ?st = "prune cfg st now"
    have ok: "state_ok cfg ?st"
      using Cons.prems(1) Some by (simp add: entries_ok_def state_ok_prune)
    have same: "inFlightOf m key = inFlight ?st"
      using Some by (simp add: inFlightOf_Some)
    show ?thesis
    proof (cases "idle ?st")
      case True
      from True Some Cons.prems Cons.IH [OF entries_ok_del [OF Cons.prems(1)], of key]
      have "entries_ok cfg m' \<and> (\<forall>k. inFlightOf m' k = inFlightOf (mdel key m) k)"
        by (simp add: Let_def)
      with True same show ?thesis by (auto simp: inFlightOf_del idle_def)
    next
      case False
      from False Some Cons.prems Cons.IH [OF entries_ok_put [OF Cons.prems(1) ok False], of key]
      have "entries_ok cfg m' \<and> (\<forall>k. inFlightOf m' k = inFlightOf (mput key ?st m) k)"
        by (simp add: Let_def)
      with same show ?thesis by auto
    qed
  qed
qed simp

lemma prune_all_keeps:
  assumes "entries_ok cfg m"
  shows "entries_ok cfg (prune_all cfg now m) \<and> (\<forall>k. inFlightOf (prune_all cfg now m) k = inFlightOf m k)"
proof -
  have wf: "mwf (mmap (\<lambda>_ st. prune cfg st now) m)"
    using assms by (simp add: entries_ok_def)
  then have get: "mget (prune_all cfg now m) k =
      (case mget m k of None \<Rightarrow> None
       | Some st \<Rightarrow> if idle (prune cfg st now) then None else Some (prune cfg st now))" for k
    by (simp add: prune_all_def mget_del_if split: option.splits)
  have "mwf (prune_all cfg now m)"
    unfolding prune_all_def by (rule mwf_del_if) (rule wf)
  with assms have "entries_ok cfg (prune_all cfg now m)"
    by (auto simp: entries_ok_def get state_ok_prune split: option.splits if_splits)
  moreover have "inFlightOf (prune_all cfg now m) k = inFlightOf m k" for k
    using get [of k] by (cases "mget m k")
       (auto simp: inFlightOf_def mget_zero_def zero_attempt_def idle_def split: if_splits)
  ultimately show ?thesis by blast
qed

lemma length_prune_all: "length (prune_all cfg now m) \<le> length m"
  by (simp add: prune_all_def mdel_if_def mmap_def del: filter_map)

text \<open>Deleting candidates: no entry with an attempt in flight, and no requested key, is evicted.\<close>

lemma foldl_mdel_get: "mget (foldl (\<lambda>m k. mdel k m) m ks) k = (if k \<in> set ks then None else mget m k)"
  by (induction ks arbitrary: m) auto

lemma foldl_mdel_ok: "entries_ok cfg m \<Longrightarrow> entries_ok cfg (foldl (\<lambda>m k. mdel k m) m ks)"
  by (induction ks arbitrary: m) (auto simp: entries_ok_del)

lemma length_mdel: "mwf m \<Longrightarrow> mhas m k \<Longrightarrow> length (mdel k m) + 1 = length m"
proof (induction m)
  case (Cons e m)
  obtain l w where e: "e = (l, w)" by (cases e)
  show ?case
  proof (cases "k = l")
    case True
    with Cons.prems e have "k \<notin> fst ` set m" by (auto simp: mwf_def)
    then have "filter (\<lambda>(k', _). k \<noteq> k') m = m" by (intro filter_True) force
    with True e show ?thesis by (simp add: mdel_def AList.delete_eq)
  next
    case False
    with Cons e show ?thesis by (simp add: mdel_def mwf_def mhas_def)
  qed
qed (simp add: mhas_def)

lemma length_foldl_mdel:
  "mwf m \<Longrightarrow> distinct ks \<Longrightarrow> \<forall>k \<in> set ks. mhas m k \<Longrightarrow>
   length (foldl (\<lambda>m k. mdel k m) m ks) + length ks = length m"
proof (induction ks arbitrary: m)
  case (Cons k ks)
  have "\<forall>l \<in> set ks. mhas (mdel k m) l"
    using Cons.prems by (auto simp: mhas_def)
  with Cons have "length (foldl (\<lambda>m k. mdel k m) (mdel k m) ks) + length ks = length (mdel k m)"
    by simp
  with Cons.prems length_mdel [of m k] show ?case by simp
qed simp

lemma set_candidates: "set (candidates req m) = fst ` set (filter (candidate req) m)"
  by (simp add: candidates_def)

lemma distinct_candidates: "mwf m \<Longrightarrow> distinct (candidates req m)"
proof -
  assume "mwf m"
  then have "distinct (map fst (filter (candidate req) m))"
    unfolding mwf_def by (rule distinct_map_filter)
  moreover have "mset (candidates req m) = mset (map fst (filter (candidate req) m))"
    by (simp add: candidates_def)
  ultimately show ?thesis by (metis mset_eq_imp_distinct_iff)
qed

lemma candidate_get:
  assumes "mwf m" "k \<in> set (candidates req m)"
  shows "\<exists>st. mget m k = Some st \<and> k \<notin> set req \<and> \<not> inFlight st > 0"
  using assms
  by (auto simp: set_candidates candidate_def mget_Some_iff)

lemma ensureCapacity_keeps:
  assumes ok: "entries_ok cfg m" and ens: "ensureCapacity cfg now req m = (b, m')"
  shows "entries_ok cfg m' \<and> (\<forall>k. inFlightOf m' k = inFlightOf m k)"
proof -
  let ?m = "prune_all cfg now m"
  have p: "entries_ok cfg ?m" "\<forall>k. inFlightOf ?m k = inFlightOf m k"
    using prune_all_keeps [OF ok] by blast+
  have zero: "k \<in> set (candidates req ?m) \<Longrightarrow> inFlightOf ?m k = 0" for k
    using candidate_get [of ?m k req] p(1)
    by (force simp: entries_ok_def state_ok_def inFlightOf_Some)
  have "inFlightOf (foldl (\<lambda>m k. mdel k m) ?m (take n (candidates req ?m))) k = inFlightOf ?m k" for n k
    using zero [of k] in_set_takeD [of k n "candidates req ?m"]
    by (auto simp: inFlightOf_def mget_zero_def foldl_mdel_get zero_attempt_def)
  with ens p foldl_mdel_ok [OF p(1)] show ?thesis
    by (auto simp: ensureCapacity_def Let_def split: if_splits)
qed

lemma length_mput: "length (mput k v m) = (if mhas m k then length m else Suc (length m))"
  by (induction m) (auto simp: mput_def mhas_def)

lemma ensureCapacity_room:
  assumes ok: "entries_ok cfg m" and ens: "ensureCapacity cfg now req m = (True, m')"
  shows "int (length m') + int (length (filter (\<lambda>k. \<not> mhas m' k) req)) \<le> Capacity cfg"
proof -
  let ?m = "prune_all cfg now m"
  let ?cs = "candidates req ?m"
  let ?need = "int (length ?m) + int (length (filter (\<lambda>k. \<not> mhas ?m k) req)) - Capacity cfg"
  have wf: "mwf ?m" using prune_all_keeps [OF ok] by (auto simp: entries_ok_def)
  show ?thesis
  proof (cases "?need \<le> 0")
    case True
    with ens show ?thesis by (simp add: ensureCapacity_def Let_def)
  next
    case False
    let ?d = "take (nat ?need) ?cs"
    from False ens have "m' = foldl (\<lambda>m k. mdel k m) ?m ?d \<and> ?need \<le> int (length ?cs)"
      unfolding ensureCapacity_def Let_def by (simp split: if_splits)
    then have m': "m' = foldl (\<lambda>m k. mdel k m) ?m ?d" and len: "?need \<le> int (length ?cs)" by blast+
    have "distinct ?d" using distinct_candidates [OF wf] by (rule distinct_take)
    moreover have has: "\<forall>k \<in> set ?d. mhas ?m k \<and> k \<notin> set req"
      using candidate_get [OF wf, of _ req] by (metis in_set_takeD mhas_Some)
    ultimately have l: "length m' + length ?d = length ?m"
      unfolding m' using length_foldl_mdel [OF wf] by blast
    have d: "int (length ?d) = ?need" using len False by simp
    have "mget m' k = mget ?m k" if "k \<in> set req" for k
    proof -
      have "k \<notin> set ?d" using has that by blast
      then show ?thesis unfolding m' by (simp only: foldl_mdel_get if_False)
    qed
    then have f: "filter (\<lambda>k. \<not> mhas m' k) req = filter (\<lambda>k. \<not> mhas ?m k) req"
      by (intro filter_cong) (simp_all add: mhas_def)
    from l d show ?thesis unfolding f by linarith
  qed
qed


text \<open>Admission of the reserved keys.\<close>

lemma admit_keeps:
  assumes "entries_ok cfg m" "state_ok cfg (mget_zero zero_attempt m k)"
    "int (length (failures (mget_zero zero_attempt m k))) + inFlightOf m k < Maximum cfg"
  shows "entries_ok cfg (admit now m k)"
  using assms unfolding admit_def Let_def
  by (intro entries_ok_put) (auto simp: state_ok_def idle_def inFlightOf_def)

lemma inFlightOf_admit: "inFlightOf (admit now m k) k' = inFlightOf m k' + (if k' = k then 1 else 0)"
  by (simp add: admit_def inFlightOf_def Let_def)

lemma mget_admit_other: "k' \<noteq> k \<Longrightarrow> mget (admit now m k) k' = mget m k'"
  by (simp add: admit_def Let_def)

definition roomy :: "AttemptLimit \<Rightarrow> (string, attemptState) gomap \<Rightarrow> string \<Rightarrow> bool" where
  "roomy cfg m k \<longleftrightarrow> (\<forall>st. mget m k = Some st \<longrightarrow> int (length (failures st)) + inFlight st < Maximum cfg)"

lemma state_ok_zero: "0 < Maximum cfg \<Longrightarrow> state_ok cfg zero_attempt"
  by (simp add: state_ok_def zero_attempt_def)

lemma foldl_admit_keeps:
  assumes "entries_ok cfg m" "distinct ks" "\<forall>k \<in> set ks. roomy cfg m k" "0 < Maximum cfg"
  shows "entries_ok cfg (foldl (admit now) m ks) \<and>
    (\<forall>k. inFlightOf (foldl (admit now) m ks) k = inFlightOf m k + (if k \<in> set ks then 1 else 0)) \<and>
    length (foldl (admit now) m ks) = length m + length (filter (\<lambda>k. \<not> mhas m k) ks)"
  using assms
proof (induction ks arbitrary: m)
  case (Cons k ks)
  have "entries_ok cfg (admit now m k)"
  proof (rule admit_keeps [OF Cons.prems(1)])
    show "state_ok cfg (mget_zero zero_attempt m k)"
      using Cons.prems by (auto simp: mget_zero_def entries_ok_def state_ok_zero split: option.splits)
    show "int (length (failures (mget_zero zero_attempt m k))) + inFlightOf m k < Maximum cfg"
      using Cons.prems
      by (auto simp: roomy_def inFlightOf_def mget_zero_def zero_attempt_def split: option.splits)
  qed
  moreover have "\<forall>l \<in> set ks. roomy cfg (admit now m k) l"
    using Cons.prems(2,3) by (auto simp: roomy_def) (metis mget_admit_other)
  ultimately have IH: "entries_ok cfg (foldl (admit now) (admit now m k) ks) \<and>
      (\<forall>l. inFlightOf (foldl (admit now) (admit now m k) ks) l =
         inFlightOf (admit now m k) l + (if l \<in> set ks then 1 else 0)) \<and>
      length (foldl (admit now) (admit now m k) ks) =
        length (admit now m k) + length (filter (\<lambda>l. \<not> mhas (admit now m k) l) ks)"
    using Cons.IH Cons.prems by simp
  have "filter (\<lambda>l. \<not> mhas (admit now m k) l) ks = filter (\<lambda>l. \<not> mhas m l) ks"
    using Cons.prems(2)
    by (intro filter_cong refl) (metis distinct.simps(2) mget_admit_other mhas_def)
  moreover have "length (admit now m k) = length m + (if mhas m k then 0 else 1)"
    by (simp add: admit_def Let_def length_mput)
  ultimately show ?case
    using IH Cons.prems(2) by (simp add: inFlightOf_admit)
qed simp

text \<open>A scan that found no waiting time left room in every requested dimension.\<close>

lemma time_sub_pos: "u < t \<Longrightarrow> 0 < time_sub t u"
  by (simp add: time_sub_def max_int64_def)

lemma retryAfter_zero:
  assumes "retryAfter cfg st now \<le> 0"
  shows "\<not> now < blockedUntil st \<and> int (length (failures st)) + inFlight st < Maximum cfg"
  using assms time_sub_pos [of now "blockedUntil st"]
  by (auto simp: retryAfter_def Let_def second_def split: if_splits list.splits)

lemma reserve_scan_mono: "reserve_scan cfg now keys m r = (m', r') \<Longrightarrow> r \<le> r'"
  by (induction keys arbitrary: m r) (fastforce simp: Let_def split: option.splits if_splits)+

lemma reserve_scan_other:
  "reserve_scan cfg now keys m r = (m', r') \<Longrightarrow> k \<notin> set keys \<Longrightarrow> mget m' k = mget m k"
  by (induction keys arbitrary: m r) (auto simp: Let_def split: option.splits if_splits)

lemma reserve_scan_get:
  "reserve_scan cfg now keys m r = (m', r') \<Longrightarrow> distinct keys \<Longrightarrow> k \<in> set keys \<Longrightarrow>
   mget m k = Some st \<Longrightarrow> \<not> idle (prune cfg st now) \<Longrightarrow>
   mget m' k = Some (prune cfg st now) \<and> retryAfter cfg (prune cfg st now) now \<le> r'"
proof (induction keys arbitrary: m r)
  case (Cons key keys)
  show ?case
  proof (cases "k = key")
    case True
    let ?st = "prune cfg st now"
    let ?r = "if retryAfter cfg ?st now > r then retryAfter cfg ?st now else r"
    from True Cons.prems have sc: "reserve_scan cfg now keys (mput k ?st m) ?r = (m', r')"
      by (simp add: Let_def)
    with True Cons.prems(2) reserve_scan_other [OF sc, of k] reserve_scan_mono [OF sc] show ?thesis
      by (auto split: if_splits)
  next
    case False
    with Cons.prems Cons.IH show ?thesis
      by (auto simp: Let_def split: option.splits if_splits)
  qed
qed simp

lemma reserve_scan_gone:
  "reserve_scan cfg now keys m r = (m', r') \<Longrightarrow> distinct keys \<Longrightarrow> k \<in> set keys \<Longrightarrow>
   (mget m k = None \<or> (\<exists>st. mget m k = Some st \<and> idle (prune cfg st now))) \<Longrightarrow> mget m' k = None"
proof (induction keys arbitrary: m r)
  case (Cons key keys)
  show ?case
  proof (cases "k = key")
    case True
    with Cons.prems show ?thesis
      by (auto simp: Let_def reserve_scan_other split: option.splits if_splits)
  next
    case False
    with Cons.prems Cons.IH show ?thesis
      by (auto simp: Let_def split: option.splits if_splits)
  qed
qed simp

lemma reserve_scan_roomy:
  assumes sc: "reserve_scan cfg now keys m 0 = (m', r')" and "distinct keys" "r' \<le> 0" "k \<in> set keys"
  shows "roomy cfg m' k"
proof (cases "mget m k")
  case None
  with reserve_scan_gone [OF sc] assms show ?thesis by (simp add: roomy_def)
next
  case (Some st)
  show ?thesis
  proof (cases "idle (prune cfg st now)")
    case True
    with reserve_scan_gone [OF sc, of k] Some assms show ?thesis by (simp add: roomy_def)
  next
    case False
    with reserve_scan_get [OF sc, of k st] Some assms
    have "mget m' k = Some (prune cfg st now)" "retryAfter cfg (prune cfg st now) now \<le> 0" by auto
    with retryAfter_zero [OF this(2)] show ?thesis by (simp add: roomy_def)
  qed
qed

lemma ensureCapacity_roomy:
  assumes "k \<in> set req" "entries_ok cfg m" "ensureCapacity cfg now req m = (b, m')" "roomy cfg m k"
  shows "roomy cfg m' k"
proof -
  let ?m = "prune_all cfg now m"
  have wf: "mwf (mmap (\<lambda>_ st. prune cfg st now) m)" "mwf ?m"
    using assms(2) prune_all_keeps [OF assms(2)] by (simp_all add: entries_ok_def)
  have "k \<notin> set (take n (candidates req ?m))" for n
    using candidate_get [OF wf(2), of k req] assms(1) in_set_takeD [of k] by blast
  then have "mget m' k = mget ?m k"
    using assms(3) by (auto simp: ensureCapacity_def Let_def foldl_mdel_get split: if_splits)
  moreover have "mget ?m k = Some st \<Longrightarrow> \<exists>st0. mget m k = Some st0 \<and> st = prune cfg st0 now" for st
    using wf(1) by (auto simp: prune_all_def mget_del_if split: option.splits if_splits)
  moreover have "int (length (failures (prune cfg st now))) + inFlight (prune cfg st now)
      \<le> int (length (failures st)) + inFlight st" for st
    by (simp add: length_failures_prune)
  ultimately show ?thesis
    using assms(4) unfolding roomy_def by (metis (no_types, lifting) le_less_trans)
qed

text \<open>Sizes: only an admission of a new key makes the map longer.\<close>

lemma length_mdel_le: "length (mdel k m) \<le> length m"
  by (simp add: mdel_def AList.delete_eq)

lemma length_storeOrDelete_le: "mhas m k \<Longrightarrow> length (storeOrDelete k st m) \<le> length m"
  by (simp add: storeOrDelete_def length_mput length_mdel_le)

lemma length_reserve_scan: "reserve_scan cfg now keys m r = (m', r') \<Longrightarrow> length m' \<le> length m"
proof (induction keys arbitrary: m r)
  case (Cons key keys)
  show ?case
  proof (cases "mget m key")
    case None
    with Cons show ?thesis by simp
  next
    case (Some st)
    let ?st = "prune cfg st now"
    have "length (if idle ?st then mdel key m else mput key ?st m) \<le> length m"
      using Some length_storeOrDelete_le [of m key ?st] by (simp add: storeOrDelete_def mhas_def)
    moreover obtain r2 where
      "reserve_scan cfg now keys (if idle ?st then mdel key m else mput key ?st m) r2 = (m', r')"
      using Some Cons.prems by (auto simp: Let_def split: if_splits)
    ultimately show ?thesis using Cons.IH le_trans by blast
  qed
qed simp

lemma length_ensureCapacity: "ensureCapacity cfg now req m = (b, m') \<Longrightarrow> length m' \<le> length m"
proof -
  have "length (foldl (\<lambda>m k. mdel k m) m ks) \<le> length m" for ks and m :: "(string, attemptState) gomap"
    by (induction ks arbitrary: m) (auto intro: le_trans [OF _ length_mdel_le])
  then show "ensureCapacity cfg now req m = (b, m') \<Longrightarrow> length m' \<le> length m"
    using length_prune_all [of cfg now m]
    by (auto simp: ensureCapacity_def Let_def split: if_splits intro: le_trans)
qed

text \<open>Completion of one key.\<close>

lemma inFlight_completed_state:
  "inFlight (completed_state cfg now kind b st) = (if inFlight st > 0 then inFlight st - 1 else inFlight st)"
  by (simp add: completed_state_def Let_def split: completionKind.splits)

lemma prune_unblocked: "\<not> now < blockedUntil (prune cfg st now) \<Longrightarrow> blockedUntil (prune cfg st now) = 0"
  by (auto simp: prune_def Let_def split: if_splits)

lemma state_ok_completed:
  assumes "state_ok cfg st" "0 < Maximum cfg"
  shows "state_ok cfg (completed_state cfg now kind b st)"
proof -
  from assms have "state_ok cfg (prune cfg st now)" by (simp add: state_ok_prune)
  with assms(2) prune_unblocked [of now cfg st] show ?thesis
    by (auto simp: completed_state_def state_ok_def Let_def split: completionKind.splits)
qed

lemma foldl_complete_keeps:
  assumes "entries_ok cfg m" "distinct ks" "0 < Maximum cfg" "\<forall>k \<in> set ks. 0 < inFlightOf m k"
  shows "entries_ok cfg (foldl (complete_key cfg now kind rk) m ks) \<and>
    (\<forall>k. inFlightOf (foldl (complete_key cfg now kind rk) m ks) k =
       inFlightOf m k - (if k \<in> set ks then 1 else 0)) \<and>
    length (foldl (complete_key cfg now kind rk) m ks) \<le> length m"
  using assms
proof (induction ks arbitrary: m)
  case (Cons k ks)
  from Cons.prems(4) obtain st where st: "mget m k = Some st" "0 < inFlight st"
    by (cases "mget m k") (auto simp: inFlightOf_None inFlightOf_Some)
  let ?m = "complete_key cfg now kind rk m k"
  have m: "?m = storeOrDelete k (completed_state cfg now kind (k \<in> set rk) st) m"
    using st by (simp add: complete_key_def)
  have "state_ok cfg st" using Cons.prems(1) st by (auto simp: entries_ok_def)
  then have ok: "entries_ok cfg ?m"
    unfolding m using Cons.prems(1,3) by (simp add: entries_ok_storeOrDelete state_ok_completed)
  have fl: "inFlightOf ?m l = inFlightOf m l - (if l = k then 1 else 0)" for l
    unfolding m using st by (simp add: inFlight_completed_state inFlightOf_Some)
  have "length ?m \<le> length m"
    unfolding m using st by (simp add: length_storeOrDelete_le mhas_def)
  moreover have "\<forall>l \<in> set ks. 0 < inFlightOf ?m l"
    using Cons.prems(2,4) by (auto simp: fl)
  ultimately show ?case
    using Cons.IH [OF ok] Cons.prems(2,3) by (auto simp: fl)
qed simp

lemma foldl_reset_keeps:
  assumes "entries_ok cfg m" "0 < Maximum cfg"
  shows "entries_ok cfg (foldl (reset_key cfg now) m ks) \<and>
    (\<forall>k. inFlightOf (foldl (reset_key cfg now) m ks) k = inFlightOf m k) \<and>
    length (foldl (reset_key cfg now) m ks) \<le> length m"
  using assms
proof (induction ks arbitrary: m)
  case (Cons k ks)
  have "entries_ok cfg (reset_key cfg now m k) \<and>
      (\<forall>l. inFlightOf (reset_key cfg now m k) l = inFlightOf m l) \<and>
      length (reset_key cfg now m k) \<le> length m"
  proof (cases "mget m k")
    case (Some st)
    then have "state_ok cfg ((prune cfg st now)\<lparr>failures := [], blockedUntil := 0\<rparr>)"
      using Cons.prems unfolding entries_ok_def state_ok_def by fastforce
    with Some Cons.prems(1) show ?thesis
      by (simp add: reset_key_def entries_ok_storeOrDelete inFlightOf_Some length_storeOrDelete_le mhas_def)
  qed (use Cons.prems in \<open>simp add: reset_key_def\<close>)
  with Cons show ?case by (force intro: le_trans)
qed simp

lemma distinct_normalizedLimitKeys [simp]: "distinct (normalizedLimitKeys ks)"
  by (simp add: normalizedLimitKeys_def distinct_dedupe)

lemma normalizedLimitKeys_trimmed:
  "k \<in> set (normalizedLimitKeys ks) \<Longrightarrow> TrimSpace k = k \<and> k \<noteq> []"
  by (auto simp: normalizedLimitKeys_def set_dedupe)

lemma normalizedLimitKeys_idem [simp]:
  "normalizedLimitKeys (normalizedLimitKeys ks) = normalizedLimitKeys ks"
proof -
  let ?n = "normalizedLimitKeys ks"
  have "map TrimSpace ?n = ?n" by (rule map_idI) (simp add: normalizedLimitKeys_trimmed)
  moreover have "filter (\<lambda>k. k \<noteq> []) ?n = ?n"
    by (rule filter_True) (simp add: normalizedLimitKeys_trimmed)
  ultimately show ?thesis
    by (metis normalizedLimitKeys_def dedupe_fixed distinct_normalizedLimitKeys empty_set inf_bot_right)
qed

section \<open>The admission contract\<close>

text \<open>
  What a client of an admission controller relies on: an admission raises the in-flight count of
  exactly the reserved dimensions, a completion lowers them again, anything else leaves them alone,
  and the invariant bounds every count. The lemmas relate the counts to the list of reservations
  that have not been completed.
\<close>

definition holding :: "'k \<Rightarrow> 'k list list \<Rightarrow> int" where
  "holding k out = int (length (filter (\<lambda>ks. k \<in> set ks) out))"

locale admission_control =
  fixes inv :: "'s \<Rightarrow> bool"
    and count :: "'s \<Rightarrow> 'k \<Rightarrow> int"
    and bound :: "'s \<Rightarrow> int"
    and admitted :: "'s \<Rightarrow> 'k list \<Rightarrow> 's \<Rightarrow> bool"
    and finished :: "'s \<Rightarrow> 'k list \<Rightarrow> 's \<Rightarrow> bool"
    and silent :: "'s \<Rightarrow> 's \<Rightarrow> bool"
  assumes count_bound: "inv s \<Longrightarrow> count s k \<le> bound s"
    and admitted_step: "inv s \<Longrightarrow> admitted s ks s' \<Longrightarrow>
      inv s' \<and> bound s' = bound s \<and> count s' k = count s k + (if k \<in> set ks then 1 else 0)"
    and finished_step: "inv s \<Longrightarrow> finished s ks s' \<Longrightarrow> \<forall>k \<in> set ks. 0 < count s k \<Longrightarrow>
      inv s' \<and> bound s' = bound s \<and> count s' k = count s k - (if k \<in> set ks then 1 else 0)"
    and silent_step: "inv s \<Longrightarrow> silent s s' \<Longrightarrow> inv s' \<and> bound s' = bound s \<and> count s' k = count s k"
begin

lemma account_admitted:
  "inv s \<Longrightarrow> \<forall>k. count s k = holding k out \<Longrightarrow> admitted s ks s' \<Longrightarrow>
   inv s' \<and> bound s' = bound s \<and> (\<forall>k. count s' k = holding k (ks # out))"
  using admitted_step by (simp add: holding_def)

lemma account_finished:
  assumes "inv s" "\<forall>k. count s k = holding k (out1 @ ks # out2)" "finished s ks s'"
  shows "inv s' \<and> bound s' = bound s \<and> (\<forall>k. count s' k = holding k (out1 @ out2))"
proof -
  have "\<forall>k \<in> set ks. 0 < count s k"
    using assms(2) by (simp add: holding_def)
  then show ?thesis
    using finished_step [OF assms(1,3)] assms(2) by (simp add: holding_def)
qed

lemma account_silent:
  "inv s \<Longrightarrow> \<forall>k. count s k = holding k out \<Longrightarrow> silent s s' \<Longrightarrow>
   inv s' \<and> bound s' = bound s \<and> (\<forall>k. count s' k = holding k out)"
  using silent_step by simp

lemma holding_bound: "inv s \<Longrightarrow> \<forall>k. count s k = holding k out \<Longrightarrow> holding k out \<le> bound s"
  using count_bound [of s k] by simp

end

definition limiter_ok :: "AttemptLimiter \<Rightarrow> bool" where
  "limiter_ok l \<longleftrightarrow> 0 < Maximum (config l) \<and> entries_ok (config l) (entries l) \<and>
     int (length (entries l)) \<le> Capacity (config l)"

definition admission :: "AttemptLimiter \<Rightarrow> string list \<Rightarrow> AttemptLimiter \<Rightarrow> bool" where
  "admission l ks l' \<longleftrightarrow>
     (\<exists>now keys r d. Reserve now keys (Some l) = ((Some r, True, d), Some l') \<and> ks = res_keys r)"

definition completion :: "AttemptLimiter \<Rightarrow> string list \<Rightarrow> AttemptLimiter \<Rightarrow> bool" where
  "completion l ks l' \<longleftrightarrow> normalizedLimitKeys ks = ks \<and>
     (\<exists>now kind rk. limiter_complete now ks kind rk (Some l) = Some l')"

definition other_call :: "AttemptLimiter \<Rightarrow> AttemptLimiter \<Rightarrow> bool" where
  "other_call l l' \<longleftrightarrow>
     (\<exists>now keys d. Reserve now keys (Some l) = ((None, False, d), Some l')) \<or>
     (\<exists>now keys. Reset now keys (Some l) = Some l')"

lemma Reserve_admitted:
  assumes ok: "limiter_ok l" and res: "Reserve now keys (Some l) = ((Some r, True, d), Some l')"
  shows "limiter_ok l' \<and> config l' = config l \<and> res_keys r = normalizedLimitKeys keys \<and>
    (\<forall>k. inFlightOf (entries l') k = inFlightOf (entries l) k + (if k \<in> set (res_keys r) then 1 else 0))"
proof (cases "normalizedLimitKeys keys = []")
  case True
  with res have "l' = l" "res_keys r = []" by (auto simp: Reserve_def Let_def)
  with ok True show ?thesis by simp
next
  case False
  let ?ks = "normalizedLimitKeys keys" and ?cfg = "config l"
  obtain m1 w where sc: "reserve_scan ?cfg now ?ks (entries l) 0 = (m1, w)" by fastforce
  obtain b m2 where en: "ensureCapacity ?cfg now ?ks m1 = (b, m2)" by fastforce
  from res False sc en have w: "w \<le> 0" and b: "b" and r: "res_keys r = ?ks"
    and l': "l' = l\<lparr>entries := foldl (admit now) m2 ?ks\<rparr>"
    by (auto simp: Reserve_def Let_def split: if_splits)
  from ok have m: "entries_ok ?cfg (entries l)" "0 < Maximum ?cfg" by (simp_all add: limiter_ok_def)
  from reserve_scan_keeps [OF m(1) sc] have m1: "entries_ok ?cfg m1"
    "\<forall>k. inFlightOf m1 k = inFlightOf (entries l) k" by simp_all
  from ensureCapacity_keeps [OF m1(1) en] have m2: "entries_ok ?cfg m2"
    "\<forall>k. inFlightOf m2 k = inFlightOf m1 k" by simp_all
  have "\<forall>k \<in> set ?ks. roomy ?cfg m2 k"
  proof
    fix k assume k: "k \<in> set ?ks"
    have "roomy ?cfg m1 k" using reserve_scan_roomy [OF sc _ w k] by simp
    with k m1(1) en show "roomy ?cfg m2 k" by (rule ensureCapacity_roomy)
  qed
  from foldl_admit_keeps [OF m2(1) _ this m(2), of now]
    ensureCapacity_room [OF m1(1) en [unfolded b [THEN eqTrueI]]] m m1(2) m2(2) l' r
  show ?thesis by (simp add: limiter_ok_def)
qed

lemma completion_step:
  assumes ok: "limiter_ok l" and c: "completion l ks l'"
    and fl: "\<forall>k \<in> set ks. 0 < inFlightOf (entries l) k"
  shows "limiter_ok l' \<and> config l' = config l \<and>
    (\<forall>k. inFlightOf (entries l') k = inFlightOf (entries l) k - (if k \<in> set ks then 1 else 0))"
proof -
  from c obtain now kind rk where n: "normalizedLimitKeys ks = ks"
    and l': "l' = l\<lparr>entries := foldl (complete_key (config l) now kind rk) (entries l) ks\<rparr>"
    by (auto simp: completion_def limiter_complete_def)
  from n have "distinct ks" by (metis distinct_normalizedLimitKeys)
  with foldl_complete_keeps [OF _ this _ fl] ok l' show ?thesis
    by (fastforce simp: limiter_ok_def)
qed

lemma other_step:
  assumes ok: "limiter_ok l" and c: "other_call l l'"
  shows "limiter_ok l' \<and> config l' = config l \<and> (\<forall>k. inFlightOf (entries l') k = inFlightOf (entries l) k)"
proof -
  from c consider (refused) now keys d where "Reserve now keys (Some l) = ((None, False, d), Some l')"
    | (reset) now keys where "Reset now keys (Some l) = Some l'"
    by (auto simp: other_call_def)
  then show ?thesis
  proof cases
    case reset
    then have l': "l' = l\<lparr>entries := foldl (reset_key (config l) now) (entries l) (normalizedLimitKeys keys)\<rparr>"
      by (simp add: Reset_def)
    have "entries_ok (config l) (entries l)" "0 < Maximum (config l)"
      using ok by (simp_all add: limiter_ok_def)
    from foldl_reset_keeps [OF this, of now "normalizedLimitKeys keys"] ok l' show ?thesis
      by (fastforce simp: limiter_ok_def)
  next
    case refused
    let ?ks = "normalizedLimitKeys keys" and ?cfg = "config l"
    obtain m1 w where sc: "reserve_scan ?cfg now ?ks (entries l) 0 = (m1, w)" by fastforce
    obtain b m2 where en: "ensureCapacity ?cfg now ?ks m1 = (b, m2)" by fastforce
    from refused sc en have l': "l' = l\<lparr>entries := m1\<rparr> \<or> l' = l\<lparr>entries := m2\<rparr>"
      by (auto simp: Reserve_def Let_def split: if_splits)
    from ok have m: "entries_ok ?cfg (entries l)" by (simp add: limiter_ok_def)
    note m1 = reserve_scan_keeps [OF m sc] length_reserve_scan [OF sc]
    note m2 = ensureCapacity_keeps [OF conjunct1 [OF m1(1)] en] length_ensureCapacity [OF en]
    from m1 m2 l' ok show ?thesis by (fastforce simp: limiter_ok_def)
  qed
qed

lemma limiter_count_bound: "limiter_ok l \<Longrightarrow> inFlightOf (entries l) k \<le> Maximum (config l)"
  by (cases "mget (entries l) k")
     (force simp: limiter_ok_def entries_ok_def state_ok_def inFlightOf_Some inFlightOf_None)+

interpretation lim: admission_control limiter_ok "\<lambda>l. inFlightOf (entries l)"
  "\<lambda>l. Maximum (config l)" admission completion other_call
proof unfold_locales
  show "limiter_ok l' \<and> Maximum (config l') = Maximum (config l) \<and>
      inFlightOf (entries l') k = inFlightOf (entries l) k + (if k \<in> set ks then 1 else 0)"
    if "limiter_ok l" "admission l ks l'" for l l' ks k
    using that Reserve_admitted [OF that(1)] by (auto simp: admission_def)
  show "limiter_ok l' \<and> Maximum (config l') = Maximum (config l) \<and>
      inFlightOf (entries l') k = inFlightOf (entries l) k - (if k \<in> set ks then 1 else 0)"
    if "limiter_ok l" "completion l ks l'" "\<forall>k \<in> set ks. 0 < inFlightOf (entries l) k" for l l' ks k
    using completion_step [OF that] by simp
qed (use limiter_count_bound other_step in auto)

section \<open>Runs of the limiter\<close>

text \<open>
  A run: the limiter starts empty and every call (by any goroutine; each holds the mutex) is one
  step. \<open>out\<close> lists the key sets of the reservations that were admitted and not yet completed.
\<close>

inductive limiter_run :: "AttemptLimit \<Rightarrow> AttemptLimiter \<Rightarrow> string list list \<Rightarrow> bool" for cfg where
  start: "NewAttemptLimiter cfg = Some l \<Longrightarrow> limiter_run cfg l []"
| admit: "limiter_run cfg l out \<Longrightarrow> Reserve now keys (Some l) = ((Some r, True, d), Some l') \<Longrightarrow>
    limiter_run cfg l' (res_keys r # out)"
| refuse: "limiter_run cfg l out \<Longrightarrow> Reserve now keys (Some l) = ((None, False, d), Some l') \<Longrightarrow>
    limiter_run cfg l' out"
| complete: "limiter_run cfg l (out1 @ ks # out2) \<Longrightarrow>
    limiter_complete now ks kind resetKeys (Some l) = Some l' \<Longrightarrow> limiter_run cfg l' (out1 @ out2)"
| reset: "limiter_run cfg l out \<Longrightarrow> Reset now keys (Some l) = Some l' \<Longrightarrow> limiter_run cfg l' out"

definition effective :: "AttemptLimit \<Rightarrow> AttemptLimit" where
  "effective cfg = (if Capacity cfg = 0 then cfg\<lparr>Capacity := defaultAttemptLimitCapacity\<rparr> else cfg)"

lemma limiter_run_inv:
  "limiter_run cfg l out \<Longrightarrow>
   limiter_ok l \<and> (\<forall>k. inFlightOf (entries l) k = holding k out) \<and> config l = effective cfg \<and>
   (\<forall>ks \<in> set out. normalizedLimitKeys ks = ks)"
proof (induction rule: limiter_run.induct)
  case (start l)
  then have "limiter_ok l" "entries l = []" "config l = effective cfg"
    by (auto simp: NewAttemptLimiter_def Let_def limiter_ok_def entries_ok_def effective_def split: if_splits)
  then show ?case by (simp add: holding_def inFlightOf_None)
next
  case (admit l out now keys r d l')
  then have "admission l (res_keys r) l'" by (auto simp: admission_def)
  with admit lim.account_admitted [of l out "res_keys r" l'] Reserve_admitted [of l now keys r d l']
  show ?case by auto
next
  case (refuse l out now keys d l')
  then have "other_call l l'" by (auto simp: other_call_def)
  with refuse lim.account_silent [of l out l'] other_step [of l l'] show ?case by simp
next
  case (complete l out1 ks out2 now kind resetKeys l')
  then have "completion l ks l'" by (auto simp: completion_def)
  with complete lim.account_finished [of l out1 ks out2 l'] show ?case
    by (auto simp: limiter_complete_def)
next
  case (reset l out now keys l')
  then have "other_call l l'" by (auto simp: other_call_def)
  with reset lim.account_silent [of l out l'] other_step [of l l'] show ?case by simp
qed

lemma complete_key_other: "k \<noteq> k' \<Longrightarrow> mget (complete_key cfg now kind rk m k) k' = mget m k'"
  by (simp add: complete_key_def storeOrDelete_def split: option.splits)

lemma foldl_complete_get:
  assumes "distinct ks" "k \<in> set ks" "mget m k = Some st"
    "\<not> idle (completed_state cfg now kind (k \<in> set rk) st)"
  shows "mget (foldl (complete_key cfg now kind rk) m ks) k =
    Some (completed_state cfg now kind (k \<in> set rk) st)"
proof -
  have other: "k \<notin> set xs \<Longrightarrow> mget (foldl (complete_key cfg now kind rk) m' xs) k = mget m' k" for xs m'
    by (induction xs arbitrary: m') (auto simp: complete_key_other)
  obtain xs ys where ks: "ks = xs @ k # ys" using assms(2) by (meson split_list)
  with assms other [of ys] other [of xs m] show ?thesis
    by (simp add: complete_key_def storeOrDelete_def)
qed

lemma holding_pos: "ks \<in> set out \<Longrightarrow> k \<in> set ks \<Longrightarrow> 0 < holding k out"
  by (auto simp: holding_def filter_empty_conv)

lemma limiter_run_config: "limiter_run cfg l out \<Longrightarrow> 0 < BlockFor cfg"
  by (induction rule: limiter_run.induct) (auto simp: NewAttemptLimiter_def Let_def split: if_splits)

abbreviation record_of :: "AttemptLimiter \<Rightarrow> string \<Rightarrow> attemptState" where
  "record_of l k \<equiv> mget_zero zero_attempt (entries l) k"

lemma limiter_record_bound:
  assumes "limiter_ok l"
  shows "int (length (failures (record_of l k))) + inFlightOf (entries l) k \<le> Maximum (config l)
    \<and> int (length (failures (record_of l k))) < Maximum (config l)"
proof (cases "mget (entries l) k")
  case None
  then show ?thesis using assms by (simp add: limiter_ok_def mget_zero_def zero_attempt_def inFlightOf_None)
next
  case (Some st)
  then have "state_ok (config l) st" using assms by (simp add: limiter_ok_def entries_ok_def)
  then show ?thesis using Some by (simp add: mget_zero_def inFlightOf_Some state_ok_def)
qed

lemma completed_failure_record:
  assumes "limiter_ok l" "0 < inFlightOf (entries l) k" "k \<in> set ks" "distinct ks" "normalizedLimitKeys ks = ks"
    and "0 \<le> now" "0 < BlockFor (config l)" "\<not> now < blockedUntil (record_of l k)"
    and "limiter_complete now ks completionFailure rk (Some l) = Some l'"
  shows "let fs = failures (prune (config l) (record_of l k) now) @ [now] in
    if int (length fs) < Maximum (config l) then failures (record_of l' k) = fs
    else blockedUntil (record_of l' k) = now + BlockFor (config l)"
proof -
  obtain st where st: "mget (entries l) k = Some st"
    using assms(2) inFlightOf_None [of "entries l" k] by (cases "mget (entries l) k") auto
  let ?new = "completed_state (config l) now completionFailure (k \<in> set rk) st"
  have rec: "record_of l k = st" using st by (simp add: mget_zero_def)
  have free: "\<not> now < blockedUntil (prune (config l) st now)" using assms(6,8) rec by (simp add: prune_def Let_def)
  then have "\<not> idle ?new" using assms(6,7) by (simp add: completed_state_def Let_def idle_def)
  from foldl_complete_get [OF assms(4,3) st this]
  have "record_of l' k = ?new" using assms(5,9) by (auto simp: limiter_complete_def mget_zero_def)
  then show ?thesis using free by (simp add: completed_state_def Let_def rec)
qed

text \<open>C34: whatever goroutines reserve, complete, cancel and reset, on every dimension the failures on
  record and the unfinished attempts together never exceed \<open>Maximum\<close>. The in-flight counters are exactly
  the numbers of reservations not yet completed (no eviction forgets one), and the table never outgrows
  its configured capacity. An attempt that ends in failure, on a dimension that is not blocked, goes on
  record; when it is the \<open>Maximum\<close>-th of the failures inside the window, the dimension is blocked for
  \<open>BlockFor\<close> instead.\<close>

theorem limiter_admission_bound:
  assumes "limiter_run cfg l out"
  shows "int (length (failures (record_of l k))) + holding k out \<le> Maximum cfg \<and>
         int (length (failures (record_of l k))) < Maximum cfg \<and>
         inFlightOf (entries l) k = holding k out \<and> int (length (entries l)) \<le> Capacity (effective cfg) \<and>
         (\<forall>ks resetKeys now l'. ks \<in> set out \<longrightarrow> k \<in> set ks \<longrightarrow> 0 \<le> now \<longrightarrow> \<not> now < blockedUntil (record_of l k) \<longrightarrow>
            limiter_complete now ks completionFailure resetKeys (Some l) = Some l' \<longrightarrow>
            (let fs = failures (prune (effective cfg) (record_of l k) now) @ [now] in
             if int (length fs) < Maximum cfg then failures (record_of l' k) = fs
             else blockedUntil (record_of l' k) = now + BlockFor cfg))"
proof -
  from limiter_run_inv [OF assms] have inv: "limiter_ok l" "\<forall>k. inFlightOf (entries l) k = holding k out"
    and cfg: "config l = effective cfg" and norm: "\<forall>ks \<in> set out. normalizedLimitKeys ks = ks" by blast+
  have same: "Maximum (config l) = Maximum cfg" "BlockFor (config l) = BlockFor cfg" by (simp_all add: cfg effective_def)
  have "0 < BlockFor cfg" using limiter_run_config [OF assms] .
  moreover have "0 < inFlightOf (entries l) k \<and> distinct ks" if "ks \<in> set out" "k \<in> set ks" for ks
    using inv(2) holding_pos [OF that] norm that(1) distinct_normalizedLimitKeys by metis
  ultimately show ?thesis
    using completed_failure_record [OF inv(1)] limiter_record_bound [OF inv(1), of k] inv norm
    by (simp add: same cfg [symmetric] limiter_ok_def)
qed

definition sample_limit :: AttemptLimit where
  "sample_limit = \<lparr>Maximum = 2, Window = 100, BlockFor = 50, Capacity = 3\<rparr>"

lemma sample_reserve:
  "Reserve 7 [''acct'', '' ip''] (Some \<lparr>config = sample_limit, entries = []\<rparr>) =
     ((Some \<lparr>res_keys = [''acct'', ''ip''], res_done = False\<rparr>, True, 0),
      Some \<lparr>config = sample_limit, entries =
        [(''acct'', \<lparr>failures = [], blockedUntil = 0, lastFailure = 0, lastActivity = 7, inFlight = 1\<rparr>),
         (''ip'', \<lparr>failures = [], blockedUntil = 0, lastFailure = 0, lastActivity = 7, inFlight = 1\<rparr>)]\<rparr>)"
  by code_simp

theorem limiter_admission_bound_witness:
  "\<exists>l out l'. limiter_run sample_limit l out \<and> holding ''ip'' out = 1 \<and> inFlightOf (entries l) ''ip'' = 1 \<and>
     limiter_complete 9 [''acct'', ''ip''] completionFailure [] (Some l) = Some l' \<and> failures (record_of l' ''ip'') = [9]"
proof -
  have "NewAttemptLimiter sample_limit = Some \<lparr>config = sample_limit, entries = []\<rparr>" by code_simp
  from limiter_run.admit [OF limiter_run.start [OF this] sample_reserve]
  obtain l where run: "limiter_run sample_limit l [[''acct'', ''ip'']]"
    and l: "entries l = [(''acct'', \<lparr>failures = [], blockedUntil = 0, lastFailure = 0, lastActivity = 7, inFlight = 1\<rparr>),
         (''ip'', \<lparr>failures = [], blockedUntil = 0, lastFailure = 0, lastActivity = 7, inFlight = 1\<rparr>)]" by auto
  obtain l' where l': "limiter_complete 9 [''acct'', ''ip''] completionFailure [] (Some l) = Some l'"
    by (simp add: limiter_complete_def)
  have none: "failures (record_of l ''ip'') = []" "blockedUntil (record_of l ''ip'') = 0"
    by (simp_all add: l mget_zero_def mget_def)
  from limiter_admission_bound [OF run, of "''ip''"] l' have "inFlightOf (entries l) ''ip'' = 1 \<and> failures (record_of l' ''ip'') = [9]"
    using none by (auto simp: holding_def sample_limit_def prune_def Let_def)
  with run l' show ?thesis by (intro exI [of _ l] exI [of _ "[[''acct'', ''ip'']]"] exI [of _ l']) (simp add: holding_def)
qed

subsection \<open>Lockout\<close>

lemma completed_state_lockout:
  assumes "0 \<le> now" "\<not> now < blockedUntil st"
    "int (length (failures (prune cfg st now))) + 1 \<ge> Maximum cfg"
  shows "blockedUntil (completed_state cfg now completionFailure b st) = now + BlockFor cfg"
proof -
  have "\<not> now < blockedUntil (prune cfg st now)" using assms(1,2) by (simp add: prune_def Let_def)
  with assms(3) show ?thesis by (simp add: completed_state_def Let_def)
qed

lemma Reserve_blocked:
  assumes "k \<in> set (normalizedLimitKeys keys)" "mget (entries l) k = Some st"
    "t < blockedUntil st" "0 < blockedUntil st"
  shows "\<exists>w > 0. fst (Reserve t keys (Some l)) = (None, False, w)"
proof -
  obtain m r where sc: "reserve_scan (config l) t (normalizedLimitKeys keys) (entries l) 0 = (m, r)"
    by fastforce
  have pr: "prune (config l) st t = st" using assms(3,4) by (simp add: prune_def)
  have "\<not> idle st" using assms(4) by (simp add: idle_def)
  with reserve_scan_get [OF sc _ assms(1,2)] pr have "retryAfter (config l) st t \<le> r" by simp
  moreover have "0 < retryAfter (config l) st t"
    using assms(3) time_sub_pos by (simp add: retryAfter_def)
  moreover have "normalizedLimitKeys keys \<noteq> []" using assms(1) by auto
  ultimately show ?thesis using sc by (auto simp: Reserve_def Let_def)
qed

text \<open>the lockout. When an unblocked dimension already has \<open>Maximum - 1\<close> failures inside the
  window, one more failed attempt locks it: until the block expires, every attempt that names the
  dimension (alone or among others) is refused with a positive wait, whatever else it names.\<close>

theorem failure_locks_out:
  assumes "k \<in> set (normalizedLimitKeys (res_keys r))" "\<not> res_done r"
    and "mget (entries l) k = Some st" "\<not> now < blockedUntil st"
    and "int (length (failures (prune (config l) st now))) \<ge> Maximum (config l) - 1"
    and "0 \<le> now" "0 < BlockFor (config l)"
    and "k \<in> set (normalizedLimitKeys keys)" "t < now + BlockFor (config l)"
  shows "\<exists>w > 0. fst (Reserve t keys (snd (CompleteFailure now r (Some l)))) = (None, False, w)"
proof -
  let ?st = "completed_state (config l) now completionFailure False st"
  have blk: "blockedUntil ?st = now + BlockFor (config l)"
    using assms(4,5,6) by (intro completed_state_lockout) simp_all
  then have "\<not> idle ?st" using assms(6,7) by (simp add: idle_def)
  then have "mget (foldl (complete_key (config l) now completionFailure []) (entries l)
      (normalizedLimitKeys (res_keys r))) k = Some ?st"
    using foldl_complete_get [OF _ assms(1,3), of "config l" now completionFailure "[]"] by simp
  with blk assms(2,6,7,8,9) show ?thesis
    by (auto simp: CompleteFailure_def reservation_complete_def limiter_complete_def
        intro!: Reserve_blocked [where k = k and st = ?st])
qed

theorem failure_locks_out_witness:
  "\<exists>l. mget (entries l) ''ip'' \<noteq> None \<and>
     (\<exists>w > 0. fst (Reserve 59 ['' ip'', ''other'']
        (snd (CompleteFailure 10 \<lparr>res_keys = [''ip''], res_done = False\<rparr> (Some l)))) = (None, False, w))"
proof -
  let ?st = "\<lparr>failures = [5], blockedUntil = 0, lastFailure = 5, lastActivity = 7, inFlight = 1\<rparr>"
  let ?l = "\<lparr>config = sample_limit, entries = [(''ip'', ?st)]\<rparr>"
  have n: "''ip'' \<in> set (normalizedLimitKeys [''ip''])" "''ip'' \<in> set (normalizedLimitKeys ['' ip'', ''other''])"
    by code_simp+
  have "\<exists>w > 0. fst (Reserve 59 ['' ip'', ''other'']
        (snd (CompleteFailure 10 \<lparr>res_keys = [''ip''], res_done = False\<rparr> (Some ?l)))) = (None, False, w)"
    by (rule failure_locks_out [where k = "''ip''" and st = ?st])
      (use n in \<open>simp_all add: sample_limit_def prune_def\<close>)
  then show ?thesis by (intro exI [of _ ?l]) simp
qed

end
