(* ===== verification/Startup_Variables.thy ===== *)
theory Startup_Variables
  imports Path_Safety
begin

text \<open>
  Startup variables: the closed schema of \<^verbatim>\<open>spec/game-definition/variables.go\<close>, the exact
  conversion of JSON numbers to \<^verbatim>\<open>int64\<close>, the value normalisation of
  \<^verbatim>\<open>internal/store/network_startup.go\<close>, the materialisation of a fixed bundle of
  \<^verbatim>\<open>internal/store/game_bundles.go\<close>, and the renderer of \<^verbatim>\<open>spec/game-definition/render.go\<close>.

  A raw JSON value of a property is its decoded value, \<open>None\<close> for an absent member. The JSON
  decoders and the canonical digest of a bundle document are the fields of the record
  \<open>bundle_codec\<close>: they rest on the JSON-Schema library and on \<^verbatim>\<open>encoding/json\<close>.
\<close>

section \<open>Numbers\<close>

definition isDecimalDigit :: "char \<Rightarrow> bool" where
  "isDecimalDigit c = (48 \<le> byte c \<and> byte c \<le> 57)"

definition digit_value :: "char \<Rightarrow> int" where
  "digit_value c = int (byte c) - 48"

definition decimal :: "string \<Rightarrow> int" where
  "decimal ds = foldl (\<lambda>n c. n * 10 + digit_value c) 0 ds"

definition MaxSafeStartupInteger :: int where
  "MaxSafeStartupInteger = 2 ^ 53 - 1"

definition safeStartupInteger :: "int \<Rightarrow> bool" where
  "safeStartupInteger value = (- MaxSafeStartupInteger \<le> value \<and> value \<le> MaxSafeStartupInteger)"

text \<open>The saturating loop over the digits of an exponent.\<close>

fun exponent_loop :: "int \<Rightarrow> int \<Rightarrow> string \<Rightarrow> int" where
  "exponent_loop limit e [] = e"
| "exponent_loop limit e (c # cs) =
     exponent_loop limit
       (if e \<le> limit
        then (if e > (limit - digit_value c) div 10 then limit + 1 else e * 10 + digit_value c)
        else e) cs"

text \<open>The three lexical parts of a JSON number, each with the rest of the text.\<close>

definition integer_part :: "string \<Rightarrow> (string \<times> string) option" where
  "integer_part text =
     (case text of
        [] \<Rightarrow> None
      | c # r \<Rightarrow>
          if c = CHR ''0'' then
            (case r of d # _ \<Rightarrow> if isDecimalDigit d then None else Some ([c], r) | [] \<Rightarrow> Some ([c], r))
          else if 49 \<le> byte c \<and> byte c \<le> 57
          then Some (takeWhile isDecimalDigit text, dropWhile isDecimalDigit text)
          else None)"

definition fraction_part :: "string \<Rightarrow> (string \<times> string) option" where
  "fraction_part text =
     (case text of
        c # r \<Rightarrow>
          if c = CHR ''.'' then
            (let f = takeWhile isDecimalDigit r in if f = [] then None else Some (f, dropWhile isDecimalDigit r))
          else Some ([], text)
      | [] \<Rightarrow> Some ([], []))"

definition exponent_sign :: "string \<Rightarrow> bool \<times> string" where
  "exponent_sign text =
     (case text of
        c # r \<Rightarrow> if c = CHR ''+'' \<or> c = CHR ''-'' then (c = CHR ''-'', r) else (False, text)
      | [] \<Rightarrow> (False, []))"

definition exponent_part :: "int \<Rightarrow> string \<Rightarrow> (int \<times> string) option" where
  "exponent_part limit text =
     (case text of
        c # r \<Rightarrow>
          if c = CHR ''e'' \<or> c = CHR ''E'' then
            (case exponent_sign r of
               (negative, ds) \<Rightarrow>
                 let digits = takeWhile isDecimalDigit ds;
                     e = exponent_loop limit 0 digits
                 in if digits = [] then None
                    else Some (if negative then - e else e, dropWhile isDecimalDigit ds))
          else Some (0, text)
      | [] \<Rightarrow> Some (0, []))"

text \<open>\<^verbatim>\<open>strconv.ParseInt(digits, 10, 64)\<close> on a non-empty string of digits with its sign.\<close>

definition ParseInt64 :: "bool \<Rightarrow> string \<Rightarrow> int option" where
  "ParseInt64 negative digits =
     (let n = (if negative then - decimal digits else decimal digits)
      in if - (2 ^ 63) \<le> n \<and> n \<le> max_int64 then Some n else None)"

definition trailing_zeros :: "string \<Rightarrow> nat" where
  "trailing_zeros ds = length (takeWhile (\<lambda>c. c = CHR ''0'') (rev ds))"

text \<open>The last part: scale the significant digits by a power of ten and convert.\<close>

definition scaled_integer :: "bool \<Rightarrow> string \<Rightarrow> int \<Rightarrow> int option" where
  "scaled_integer negative ds scale =
     (let digits = dropWhile (\<lambda>c. c = CHR ''0'') ds in
      if digits = [] then Some 0
      else if scale < 0 then
        (let remove = nat (- scale) in
         if remove > trailing_zeros digits then None
         else
           let digits' = take (length digits - remove) digits
           in if length digits' > 19 then None else ParseInt64 negative digits')
      else if scale > 0 then
        (if scale > 19 \<or> int (length digits) > 19 - scale then None
         else
           let digits' = digits @ replicate (nat scale) (CHR ''0'')
           in if length digits' > 19 then None else ParseInt64 negative digits')
      else if length digits > 19 then None
      else ParseInt64 negative digits)"

definition ParseStartupInteger :: "string \<Rightarrow> int option" where
  "ParseStartupInteger text =
     (let (negative, rest) =
            (case text of c # r \<Rightarrow> if c = CHR ''-'' then (True, r) else (False, text) | [] \<Rightarrow> (False, []))
      in case integer_part rest of
           None \<Rightarrow> None
         | Some (integerPart, rest1) \<Rightarrow>
             (case fraction_part rest1 of
                None \<Rightarrow> None
              | Some (fractionPart, rest2) \<Rightarrow>
                  (case exponent_part (int (length integerPart) + int (length fractionPart) + 20) rest2 of
                     None \<Rightarrow> None
                   | Some (exponent, rest3) \<Rightarrow>
                       if rest3 \<noteq> [] then None
                       else scaled_integer negative (integerPart @ fractionPart)
                              (exponent - int (length fractionPart)))))"

text \<open>\<^verbatim>\<open>strconv.FormatInt(n, 10)\<close>.\<close>

fun digits_of_nat :: "nat \<Rightarrow> string" where
  "digits_of_nat n =
     (if n < 10 then [char_of (48 + n)] else digits_of_nat (n div 10) @ [char_of (48 + n mod 10)])"

declare digits_of_nat.simps [simp del]

definition FormatInt :: "int \<Rightarrow> string" where
  "FormatInt n = (if n < 0 then ''-'' @ digits_of_nat (nat (- n)) else digits_of_nat (nat n))"

section \<open>The schema (variables.go)\<close>

record StartupVariableProperty =
  svp_Type :: string
  svp_Default :: "any option"
  svp_Const :: "any option"
  svp_Enum :: "string list option"
  svp_Minimum :: "int option"
  svp_Maximum :: "int option"
  svp_MinLength :: "int option"
  svp_MaxLength :: "int option"

record StartupVariableSchema =
  svs_Type :: string
  svs_AdditionalProperties :: "bool option"
  svs_Required :: "string list"
  svs_Properties :: "(string, StartupVariableProperty) gomap option"

text \<open>One constructor per diagnostic of the source.\<close>

datatype schema_error =
    SchemaType | PropertiesRequired | AdditionalPropertiesTrue
  | RequiredIdentifier | RequiredDuplicate | RequiredUndeclared
  | PropertyIdentifier
  | SecretIdentifier | SecretDuplicate | SecretUndeclared | SecretDefault | SecretConst | SecretEnum
  | StringRange | MinLengthNegative | MinLengthUnsafe | MaxLengthNegative | MaxLengthUnsafe | LengthOrder
  | EnumEmpty | EnumDuplicate | TooShort | TooLong | NotInEnum
  | IntegerLength | MinimumUnsafe | MaximumUnsafe | RangeOrder
  | BooleanConstraint | UnsupportedType
  | NotString | NotInteger | UnsafeInteger | BelowMinimum | AboveMaximum | NotBoolean
  | DefaultNotConst

definition letter :: "char \<Rightarrow> bool" where
  "letter c = (65 \<le> byte c \<and> byte c \<le> 90 \<or> 97 \<le> byte c \<and> byte c \<le> 122 \<or> c = CHR ''_'')"

text \<open>The regular expression \<^verbatim>\<open>^[A-Za-z_][A-Za-z0-9_]*$\<close>.\<close>

definition startupVariableIdentifier :: "string \<Rightarrow> bool" where
  "startupVariableIdentifier s =
     (case s of [] \<Rightarrow> False | c # r \<Rightarrow> letter c \<and> list_all (\<lambda>d. letter d \<or> isDecimalDigit d) r)"

definition validateStringConstraints :: "StartupVariableProperty \<Rightarrow> string \<Rightarrow> schema_error option" where
  "validateStringConstraints property value =
     (let length = int (rune_count value) in
      if (case svp_MinLength property of None \<Rightarrow> False | Some n \<Rightarrow> length < n) then Some TooShort
      else if (case svp_MaxLength property of None \<Rightarrow> False | Some n \<Rightarrow> length > n) then Some TooLong
      else (case svp_Enum property of
              None \<Rightarrow> None
            | Some enum \<Rightarrow> if value \<in> set enum then None else Some NotInEnum))"

definition validateRawValue ::
  "StartupVariableProperty \<Rightarrow> any option \<Rightarrow> schema_error + any option" where
  "validateRawValue property raw =
     (case raw of
        None \<Rightarrow> Inr None
      | Some value \<Rightarrow>
          if svp_Type property = ''string'' then
            (case value of
               AnyString text \<Rightarrow>
                 (case validateStringConstraints property text of
                    Some err \<Rightarrow> Inl err | None \<Rightarrow> Inr (Some (AnyString text)))
             | _ \<Rightarrow> Inl NotString)
          else if svp_Type property = ''integer'' then
            (case value of
               AnyNumber number \<Rightarrow>
                 (case ParseStartupInteger number of
                    None \<Rightarrow> Inl NotInteger
                  | Some integer \<Rightarrow>
                      if \<not> safeStartupInteger integer then Inl UnsafeInteger
                      else if (case svp_Minimum property of None \<Rightarrow> False | Some n \<Rightarrow> integer < n) then Inl BelowMinimum
                      else if (case svp_Maximum property of None \<Rightarrow> False | Some n \<Rightarrow> integer > n) then Inl AboveMaximum
                      else Inr (Some (AnyInt integer)))
             | _ \<Rightarrow> Inl NotInteger)
          else if svp_Type property = ''boolean'' then
            (case value of AnyBool b \<Rightarrow> Inr (Some (AnyBool b)) | _ \<Rightarrow> Inl NotBoolean)
          else Inl UnsupportedType)"

text \<open>The loop over the enumeration.\<close>

fun validate_enum :: "StartupVariableProperty \<Rightarrow> string list \<Rightarrow> string list \<Rightarrow> schema_error option" where
  "validate_enum property seen [] = None"
| "validate_enum property seen (value # rest) =
     (if value \<in> set seen then Some EnumDuplicate
      else (case validateStringConstraints property value of
              Some err \<Rightarrow> Some err
            | None \<Rightarrow> validate_enum property (value # seen) rest))"

text \<open>The switch over the property type.\<close>

definition validate_type :: "StartupVariableProperty \<Rightarrow> schema_error option" where
  "validate_type p =
     (let below = (\<lambda>n x. case x of None \<Rightarrow> False | Some v \<Rightarrow> v < (n::int));
          above = (\<lambda>n x. case x of None \<Rightarrow> False | Some v \<Rightarrow> v > (n::int));
          unsafe = (\<lambda>x. case x of None \<Rightarrow> False | Some v \<Rightarrow> \<not> safeStartupInteger v);
          crossed = (\<lambda>x y. case (x, y) of (Some a, Some b) \<Rightarrow> (a::int) > b | _ \<Rightarrow> False)
      in
      if svp_Type p = ''string'' then
        if svp_Minimum p \<noteq> None \<or> svp_Maximum p \<noteq> None then Some StringRange
        else if below 0 (svp_MinLength p) then Some MinLengthNegative
        else if above MaxSafeStartupInteger (svp_MinLength p) then Some MinLengthUnsafe
        else if below 0 (svp_MaxLength p) then Some MaxLengthNegative
        else if above MaxSafeStartupInteger (svp_MaxLength p) then Some MaxLengthUnsafe
        else if crossed (svp_MinLength p) (svp_MaxLength p) then Some LengthOrder
        else (case svp_Enum p of
                None \<Rightarrow> None
              | Some enum \<Rightarrow> if enum = [] then Some EnumEmpty else validate_enum p [] enum)
      else if svp_Type p = ''integer'' then
        if svp_MinLength p \<noteq> None \<or> svp_MaxLength p \<noteq> None \<or> svp_Enum p \<noteq> None then Some IntegerLength
        else if unsafe (svp_Minimum p) then Some MinimumUnsafe
        else if unsafe (svp_Maximum p) then Some MaximumUnsafe
        else if crossed (svp_Minimum p) (svp_Maximum p) then Some RangeOrder
        else None
      else if svp_Type p = ''boolean'' then
        if svp_Minimum p \<noteq> None \<or> svp_Maximum p \<noteq> None \<or> svp_MinLength p \<noteq> None \<or>
           svp_MaxLength p \<noteq> None \<or> svp_Enum p \<noteq> None then Some BooleanConstraint
        else None
      else Some UnsupportedType)"

definition validate_property :: "StartupVariableProperty \<Rightarrow> schema_error option" where
  "validate_property p =
     (case validate_type p of
        Some err \<Rightarrow> Some err
      | None \<Rightarrow>
          (case validateRawValue p (svp_Default p) of
             Inl err \<Rightarrow> Some err
           | Inr defaultValue \<Rightarrow>
               (case validateRawValue p (svp_Const p) of
                  Inl err \<Rightarrow> Some err
                | Inr constValue \<Rightarrow>
                    if defaultValue \<noteq> None \<and> constValue \<noteq> None \<and> defaultValue \<noteq> constValue
                    then Some DefaultNotConst else None)))"

fun validate_required ::
  "(string, StartupVariableProperty) gomap \<Rightarrow> string list \<Rightarrow> string list \<Rightarrow> schema_error option" where
  "validate_required properties seen [] = None"
| "validate_required properties seen (key # rest) =
     (if \<not> startupVariableIdentifier key then Some RequiredIdentifier
      else if key \<in> set seen then Some RequiredDuplicate
      else if \<not> mhas properties key then Some RequiredUndeclared
      else validate_required properties (key # seen) rest)"

fun validate_properties :: "(string, StartupVariableProperty) gomap \<Rightarrow> schema_error option" where
  "validate_properties [] = None"
| "validate_properties ((key, property) # rest) =
     (if \<not> startupVariableIdentifier key then Some PropertyIdentifier
      else (case validate_property property of Some err \<Rightarrow> Some err | None \<Rightarrow> validate_properties rest))"

fun validate_secrets ::
  "(string, StartupVariableProperty) gomap \<Rightarrow> string list \<Rightarrow> string list \<Rightarrow> schema_error option" where
  "validate_secrets properties seen [] = None"
| "validate_secrets properties seen (key # rest) =
     (if \<not> startupVariableIdentifier key then Some SecretIdentifier
      else if key \<in> set seen then Some SecretDuplicate
      else (case mget properties key of
              None \<Rightarrow> Some SecretUndeclared
            | Some property \<Rightarrow>
                if svp_Default property \<noteq> None then Some SecretDefault
                else if svp_Const property \<noteq> None then Some SecretConst
                else if svp_Enum property \<noteq> None then Some SecretEnum
                else validate_secrets properties (key # seen) rest))"

definition Validate :: "StartupVariableSchema \<Rightarrow> string list \<Rightarrow> schema_error option" where
  "Validate schema secrets =
     (if svs_Type schema \<noteq> ''object'' then Some SchemaType
      else (case svs_Properties schema of
              None \<Rightarrow> Some PropertiesRequired
            | Some properties \<Rightarrow>
                if svs_AdditionalProperties schema = Some True then Some AdditionalPropertiesTrue
                else (case validate_required properties [] (svs_Required schema) of
                        Some err \<Rightarrow> Some err
                      | None \<Rightarrow>
                          (case validate_properties properties of
                             Some err \<Rightarrow> Some err
                           | None \<Rightarrow> validate_secrets properties [] secrets))))"

section \<open>Decimal digit strings\<close>

abbreviation all_digits :: "string \<Rightarrow> bool" where
  "all_digits \<equiv> list_all isDecimalDigit"

lemma decimal_Nil [simp]: "decimal [] = 0"
  by (simp add: decimal_def)

lemma decimal_foldl: "foldl (\<lambda>n c. n * 10 + digit_value c) a ds = a * 10 ^ length ds + decimal ds"
proof (induction ds rule: rev_induct)
  case (snoc c ds)
  then show ?case by (simp add: decimal_def algebra_simps)
qed simp

lemma decimal_append: "decimal (xs @ ys) = decimal xs * 10 ^ length ys + decimal ys"
proof -
  have "decimal (xs @ ys) = foldl (\<lambda>n c. n * 10 + digit_value c) (decimal xs) ys"
    by (simp add: decimal_def)
  then show ?thesis by (simp only: decimal_foldl)
qed

lemma decimal_single [simp]: "decimal [c] = digit_value c"
  by (simp add: decimal_def)

lemma decimal_Cons: "decimal (c # cs) = digit_value c * 10 ^ length cs + decimal cs"
  using decimal_append [of "[c]" cs] by simp

lemma digit_range: "isDecimalDigit c \<Longrightarrow> 0 \<le> digit_value c \<and> digit_value c \<le> 9"
  by (auto simp: isDecimalDigit_def digit_value_def)

lemma digit_zero: "digit_value c = 0 \<longleftrightarrow> c = CHR ''0''"
proof
  assume "digit_value c = 0"
  then have "of_char c = (of_char (CHR ''0'') :: nat)" by (simp add: digit_value_def byte_def)
  then show "c = CHR ''0''" by (metis char_of_char)
qed (simp add: digit_value_def byte_def)

lemma decimal_range: "all_digits ds \<Longrightarrow> 0 \<le> decimal ds \<and> decimal ds < 10 ^ length ds"
proof (induction ds rule: rev_induct)
  case (snoc c ds)
  then have "0 \<le> decimal ds" "decimal ds < 10 ^ length ds" "0 \<le> digit_value c" "digit_value c \<le> 9"
    using digit_range [of c] by auto
  then show ?case by (simp add: decimal_append)
qed simp

lemma decimal_lower:
  assumes "all_digits (c # ds)" "c \<noteq> CHR ''0''"
  shows "10 ^ length ds \<le> decimal (c # ds)"
proof -
  from assms have "1 \<le> digit_value c" using digit_range [of c] digit_zero [of c] by auto
  then have "1 * 10 ^ length ds \<le> digit_value c * 10 ^ length ds"
    by (intro mult_right_mono) simp_all
  moreover have "0 \<le> decimal ds" using assms decimal_range [of ds] by simp
  ultimately show ?thesis unfolding decimal_Cons by linarith
qed

lemma decimal_zeros [simp]: "decimal (replicate k (CHR ''0'')) = 0"
  by (induction k) (simp_all add: decimal_Cons digit_value_def byte_def)

lemma decimal_strip: "decimal (dropWhile (\<lambda>c. c = CHR ''0'') ds) = decimal ds"
  by (induction ds) (simp_all add: decimal_Cons digit_value_def byte_def)

lemma all_digits_dropWhile: "all_digits ds \<Longrightarrow> all_digits (dropWhile P ds)"
  by (induction ds) auto

lemma trailing_split:
  obtains xs where "ds = xs @ replicate (trailing_zeros ds) (CHR ''0'')"
    "xs = [] \<or> last xs \<noteq> CHR ''0''"
proof -
  let ?z = "takeWhile (\<lambda>c. c = CHR ''0'') (rev ds)" and ?r = "dropWhile (\<lambda>c. c = CHR ''0'') (rev ds)"
  have z: "replicate (trailing_zeros ds) (CHR ''0'') = ?z"
    unfolding trailing_zeros_def by (rule replicate_length_same) (auto dest: set_takeWhileD)
  have "ds = rev ?r @ rev ?z" by (simp flip: rev_append)
  moreover have "rev ?z = ?z" unfolding z [symmetric] by simp
  moreover have "rev ?r = [] \<or> last (rev ?r) \<noteq> CHR ''0''"
    using hd_dropWhile [of "\<lambda>c. c = CHR ''0''" "rev ds"] by (cases "?r = []") (simp_all add: last_rev)
  ultimately show ?thesis using that [of "rev ?r"] z by simp
qed

lemma trailing_dvd:
  assumes "all_digits ds" "decimal ds \<noteq> 0"
  shows "10 ^ r dvd decimal ds \<longleftrightarrow> r \<le> trailing_zeros ds"
proof
  assume "r \<le> trailing_zeros ds"
  moreover obtain xs where "ds = xs @ replicate (trailing_zeros ds) (CHR ''0'')"
    using trailing_split [of ds] by blast
  then have "decimal ds = decimal xs * 10 ^ trailing_zeros ds"
    by (metis decimal_append decimal_zeros add.right_neutral length_replicate)
  ultimately show "10 ^ r dvd decimal ds"
    by (simp add: dvd_mult le_imp_power_dvd)
next
  assume dvd: "10 ^ r dvd decimal ds"
  let ?t = "trailing_zeros ds"
  obtain xs where xs: "ds = xs @ replicate ?t (CHR ''0'')" "xs = [] \<or> last xs \<noteq> CHR ''0''"
    using trailing_split [of ds] by blast
  then have dec: "decimal ds = decimal xs * 10 ^ ?t"
    by (metis decimal_append decimal_zeros add.right_neutral length_replicate)
  with assms(2) have "xs \<noteq> []" by auto
  then obtain ys c where ys: "xs = ys @ [c]" by (metis rev_exhaust)
  have "isDecimalDigit c" using assms(1) xs(1) ys by (metis in_set_conv_decomp list_all_iff append_assoc append_Cons)
  then have c: "0 < digit_value c" "digit_value c \<le> 9"
    using xs(2) ys digit_range [of c] digit_zero [of c] by auto
  show "r \<le> ?t"
  proof (rule ccontr)
    assume "\<not> r \<le> ?t"
    then have "(10::int) ^ Suc ?t dvd 10 ^ r" by (intro le_imp_power_dvd) simp
    with dvd have "10 ^ Suc ?t dvd decimal xs * 10 ^ ?t" using dec by (metis dvd_trans)
    then have "(10::int) dvd decimal xs" by simp
    then have "10 dvd digit_value c" using ys by (simp add: decimal_append dvd_add_right_iff)
    with c show False by (auto dest: zdvd_imp_le)
  qed
qed

lemma drop_zeros:
  assumes "all_digits ds" "decimal ds \<noteq> 0" "r \<le> trailing_zeros ds"
  shows "drop (length ds - r) ds = replicate r (CHR ''0'') \<and> 0 < length ds - r"
proof -
  let ?t = "trailing_zeros ds"
  obtain xs where xs: "ds = xs @ replicate ?t (CHR ''0'')"
    using trailing_split [of ds] by blast
  then have "xs \<noteq> []" using assms(2) by (metis append_Nil decimal_zeros)
  have len: "length ds = length xs + ?t" using arg_cong [OF xs, of length] by simp
  have "drop (length ds - r) ds = drop (length ds - r) (xs @ replicate ?t (CHR ''0''))" using xs by simp
  also have "\<dots> = replicate r (CHR ''0'')" using len assms(3) by (simp add: drop_append)
  finally show ?thesis using len assms(3) \<open>xs \<noteq> []\<close> by (cases xs) simp_all
qed

section \<open>Scaling\<close>

text \<open>The integer that a number with significand \<open>d\<close> and decimal scale \<open>s\<close> denotes, if any.\<close>

definition denotes :: "int \<Rightarrow> int \<Rightarrow> int \<Rightarrow> bool" where
  "denotes d s n \<longleftrightarrow> n * 10 ^ nat (- s) = d * 10 ^ nat s"

definition in_int64 :: "int \<Rightarrow> bool" where
  "in_int64 n \<longleftrightarrow> - (2 ^ 63) \<le> n \<and> n \<le> max_int64"

definition signed :: "bool \<Rightarrow> int \<Rightarrow> int" where
  "signed negative n = (if negative then - n else n)"

lemma ParseInt64_eq: "ParseInt64 neg ds = Some n \<longleftrightarrow> in_int64 n \<and> n = signed neg (decimal ds)"
  by (auto simp: ParseInt64_def in_int64_def signed_def Let_def)

lemma too_long:
  assumes "(10::int) ^ 19 \<le> m"
  shows "\<not> in_int64 (signed neg m)"
  using assms by (auto simp: in_int64_def signed_def max_int64_def)

lemma pow10_mono: "19 \<le> k \<Longrightarrow> (10::int) ^ 19 \<le> 10 ^ k"
  by (rule power_increasing) simp_all

lemma limited_ParseInt64:
  assumes "all_digits (c # ds)" "c \<noteq> CHR ''0''"
  shows "(if length (c # ds) > 19 then None else ParseInt64 neg (c # ds)) = Some n \<longleftrightarrow>
    in_int64 n \<and> n = signed neg (decimal (c # ds))"
proof (cases "length (c # ds) > 19")
  case True
  then have "(10::int) ^ 19 \<le> decimal (c # ds)"
    using decimal_lower [OF assms] pow10_mono [of "length ds"] by simp
  with True too_long show ?thesis by auto
qed (simp add: ParseInt64_eq)

lemma denotes_signed: "denotes (signed neg d) s n \<longleftrightarrow> denotes d s (signed neg n)"
  by (auto simp: denotes_def signed_def)

lemma denotes_scaled: "s < 0 \<Longrightarrow> denotes (signed neg (m * 10 ^ nat (- s))) s n \<longleftrightarrow> n = signed neg m"
proof -
  have "signed neg (m * 10 ^ nat (- s)) = signed neg m * 10 ^ nat (- s)" by (simp add: signed_def)
  then show "s < 0 \<Longrightarrow> ?thesis" by (simp add: denotes_def)
qed

lemma signed_signed [simp]: "signed neg (signed neg n) = n"
  by (simp add: signed_def)

text \<open>The three directions of scaling, on a significand without leading zeros.\<close>

abbreviation stripped :: "string \<Rightarrow> string" where
  "stripped ds \<equiv> dropWhile (\<lambda>c. c = CHR ''0'') ds"

lemma scaled_down:
  assumes "all_digits (c # cs)" "c \<noteq> CHR ''0''" "stripped ds = c # cs" "s < 0"
  shows "scaled_integer neg ds s = Some n \<longleftrightarrow> in_int64 n \<and> denotes (signed neg (decimal (c # cs))) s n"
proof (cases "nat (- s) > trailing_zeros (c # cs)")
  case True
  have "decimal (c # cs) \<noteq> 0"
    using decimal_lower [OF assms(1,2)] zero_less_power [of "10::int" "length cs"] by linarith
  with True have "\<not> 10 ^ nat (- s) dvd decimal (c # cs)"
    using trailing_dvd [OF assms(1)] by simp
  then have "\<not> denotes (signed neg (decimal (c # cs))) s n"
    using assms(4) unfolding denotes_signed unfolding denotes_def by (metis dvd_triv_right mult.right_neutral nat_0_iff order_less_imp_le power_0)
  with True assms(3,4) show ?thesis by (simp add: scaled_integer_def Let_def)
next
  case False
  let ?k = "length (c # cs) - nat (- s)"
  have "decimal (c # cs) \<noteq> 0"
    using decimal_lower [OF assms(1,2)] zero_less_power [of "10::int" "length cs"] by linarith
  then have z: "drop ?k (c # cs) = replicate (nat (- s)) (CHR ''0'')" and kpos: "0 < ?k"
    using drop_zeros [OF assms(1), of "nat (- s)"] False by simp_all
  obtain j where tk: "take ?k (c # cs) = c # take j cs" using kpos by (cases ?k) auto
  have "decimal (c # cs) = decimal (c # take j cs) * 10 ^ nat (- s)"
    using decimal_append [of "c # take j cs" "replicate (nat (- s)) (CHR ''0'')"] z tk
    by (metis add.right_neutral append_take_drop_id decimal_zeros length_replicate)
  then have "denotes (signed neg (decimal (c # cs))) s n \<longleftrightarrow> n = signed neg (decimal (c # take j cs))"
    using assms(4) by (simp add: denotes_scaled)
  moreover have "scaled_integer neg ds s =
      (if length (c # take j cs) > 19 then None else ParseInt64 neg (c # take j cs))"
    using False assms(3,4) tk by (simp add: scaled_integer_def Let_def)
  moreover have "all_digits (c # take j cs)" using assms(1) by (auto simp: list_all_iff dest: in_set_takeD)
  ultimately show ?thesis using limited_ParseInt64 [of c "take j cs"] assms(2) by simp
qed

lemma scaled_up:
  assumes "all_digits (c # cs)" "c \<noteq> CHR ''0''" "stripped ds = c # cs" "s > 0"
  shows "scaled_integer neg ds s = Some n \<longleftrightarrow> in_int64 n \<and> denotes (signed neg (decimal (c # cs))) s n"
proof -
  let ?d = "decimal (c # cs)"
  have den: "denotes (signed neg ?d) s n \<longleftrightarrow> n = signed neg (?d * 10 ^ nat s)"
    using assms(4) by (auto simp: denotes_def signed_def)
  show ?thesis
  proof (cases "s > 19 \<or> int (length (c # cs)) > 19 - s")
    case True
    have "(10::int) ^ 19 \<le> 10 ^ (length cs + nat s)" using True assms(4) by (intro pow10_mono) auto
    also have "\<dots> \<le> ?d * 10 ^ nat s" using decimal_lower [OF assms(1,2)] by (simp add: power_add)
    finally have "\<not> in_int64 (signed neg (?d * 10 ^ nat s))" by (rule too_long)
    with True assms(3,4) den show ?thesis by (auto simp: scaled_integer_def Let_def)
  next
    case False
    let ?e = "replicate (nat s) (CHR ''0'')"
    have "all_digits (c # cs @ ?e)"
      using assms(1) by (auto simp: list_all_iff isDecimalDigit_def byte_def)
    moreover have "decimal (c # cs @ ?e) = ?d * 10 ^ nat s"
      using decimal_append [of "c # cs" ?e] by simp
    moreover have "scaled_integer neg ds s =
        (if length (c # cs @ ?e) > 19 then None else ParseInt64 neg (c # cs @ ?e))"
      using False assms(3,4) by (auto simp: scaled_integer_def Let_def)
    ultimately show ?thesis using limited_ParseInt64 [of c "cs @ ?e" neg n] assms(2) den by simp
  qed
qed

lemma scaled_integer_exact:
  assumes "all_digits ds"
  shows "scaled_integer neg ds s = Some n \<longleftrightarrow> in_int64 n \<and> denotes (signed neg (decimal ds)) s n"
proof (cases "stripped ds")
  case Nil
  then have "decimal ds = 0" using decimal_strip [of ds] by (simp only: decimal_Nil)
  moreover have "scaled_integer neg ds s = Some 0" using Nil by (simp only: scaled_integer_def Let_def) simp
  moreover have "in_int64 0" by (simp add: in_int64_def max_int64_def)
  moreover have "denotes (signed neg 0) s n \<longleftrightarrow> n = 0" by (simp add: denotes_def signed_def)
  ultimately show ?thesis by auto
next
  case (Cons c cs)
  then have c: "c \<noteq> CHR ''0''" using hd_dropWhile [of "\<lambda>c. c = CHR ''0''" ds] by simp
  have dig: "all_digits (c # cs)"
    using all_digits_dropWhile [OF assms, of "\<lambda>c. c = CHR ''0''"] unfolding Cons .
  have dec: "decimal ds = decimal (c # cs)" using decimal_strip [of ds] unfolding Cons by simp
  consider "s < 0" | "s = 0" | "s > 0" by linarith
  then show ?thesis
  proof cases
    case 2
    then have "scaled_integer neg ds s = (if length (c # cs) > 19 then None else ParseInt64 neg (c # cs))"
      unfolding scaled_integer_def Cons by simp
    with 2 dec limited_ParseInt64 [OF dig c] show ?thesis by (simp add: denotes_def)
  qed (use dec scaled_down [OF dig c Cons] scaled_up [OF dig c Cons] in simp_all)
qed

section \<open>Exponents\<close>

lemma exponent_loop_saturates:
  assumes "all_digits ds" "9 \<le> limit" "0 \<le> e" "e \<le> limit + 1"
  shows "exponent_loop limit e ds =
    min (limit + 1) (if e > limit then limit + 1 else e * 10 ^ length ds + decimal ds)"
  using assms
proof (induction ds arbitrary: e)
  case (Cons c cs)
  have c: "0 \<le> digit_value c" "digit_value c \<le> 9" and cs: "all_digits cs"
    using Cons.prems(1) digit_range [of c] by auto
  have dcs: "0 \<le> decimal cs" using decimal_range [OF cs] by simp
  consider "e > limit" | "e \<le> limit" "e > (limit - digit_value c) div 10"
    | "e \<le> limit" "e \<le> (limit - digit_value c) div 10" by linarith
  then show ?case
  proof cases
    case 1
    with Cons cs show ?thesis by simp
  next
    case 2
    then have big: "limit < e * 10 + digit_value c" using c by linarith
    have "limit + 1 \<le> (e * 10 + digit_value c) * 10 ^ length cs"
    proof -
      have "(limit + 1) * 1 \<le> (e * 10 + digit_value c) * 10 ^ length cs"
        using big Cons.prems(2) by (intro mult_mono) auto
      then show ?thesis by simp
    qed
    moreover have "exponent_loop limit e (c # cs) = limit + 1"
      using 2 Cons.IH [OF cs Cons.prems(2), of "limit + 1"] Cons.prems(2) by simp
    moreover have "e * 10 ^ length (c # cs) + decimal (c # cs) =
        (e * 10 + digit_value c) * 10 ^ length cs + decimal cs"
      by (simp add: decimal_Cons algebra_simps)
    ultimately show ?thesis using 2(1) dcs by simp
  next
    case 3
    then have le: "e * 10 + digit_value c \<le> limit" by linarith
    have "exponent_loop limit e (c # cs) = exponent_loop limit (e * 10 + digit_value c) cs"
      using 3 by simp
    also have "\<dots> = min (limit + 1) ((e * 10 + digit_value c) * 10 ^ length cs + decimal cs)"
      using Cons.IH [OF cs Cons.prems(2), of "e * 10 + digit_value c"] Cons.prems(3) c le by simp
    finally show ?thesis using 3(1) by (simp add: decimal_Cons algebra_simps)
  qed
qed auto

text \<open>A saturated exponent and the true one denote the same integers of 64 bits.\<close>

lemma saturated_denotes:
  assumes "all_digits ds" "limit = int (length ds) + 20" "int f \<le> int (length ds)" "limit < e"
    "in_int64 n" "x = e \<or> x = limit + 1"
  shows "denotes (signed neg (decimal ds)) (x - int f) n \<longleftrightarrow> decimal ds = 0 \<and> n = 0"
    and "denotes (signed neg (decimal ds)) (- x - int f) n \<longleftrightarrow> decimal ds = 0 \<and> n = 0"
proof -
  have up: "20 \<le> x - int f" and x: "int (length ds) + 20 < x" using assms by auto
  have d: "0 \<le> decimal ds" "decimal ds < 10 ^ length ds" using decimal_range [OF assms(1)] by auto
  show "denotes (signed neg (decimal ds)) (x - int f) n \<longleftrightarrow> decimal ds = 0 \<and> n = 0"
  proof (cases "decimal ds = 0")
    case False
    have "(10::int) ^ 19 \<le> 1 * 10 ^ nat (x - int f)" unfolding mult_1 using up by (intro pow10_mono) linarith
    also have "\<dots> \<le> decimal ds * 10 ^ nat (x - int f)" using d False by (intro mult_right_mono) auto
    finally have "\<not> in_int64 (signed neg (decimal ds * 10 ^ nat (x - int f)))" by (rule too_long)
    with False up assms(5) show ?thesis by (auto simp: denotes_def signed_def)
  qed (use up in \<open>auto simp: denotes_def signed_def\<close>)
  show "denotes (signed neg (decimal ds)) (- x - int f) n \<longleftrightarrow> decimal ds = 0 \<and> n = 0"
  proof (cases "n = 0")
    case False
    have "(10::int) ^ length ds \<le> 10 ^ nat (x + int f)" using x by (intro power_increasing) auto
    also have "\<dots> \<le> \<bar>n\<bar> * 10 ^ nat (x + int f)"
      using False mult_right_mono [of 1 "\<bar>n\<bar>" "10 ^ nat (x + int f)"] by simp
    finally have "decimal ds < \<bar>n * 10 ^ nat (x + int f)\<bar>" using d by (simp add: abs_mult)
    then have "n * 10 ^ nat (x + int f) \<noteq> signed neg (decimal ds)" using d by (auto simp: signed_def)
    moreover have "- (- x - int f) = x + int f" "nat (- x - int f) = 0" using x by auto
    ultimately show ?thesis using False by (simp only: denotes_def) simp
  qed (use x in \<open>auto simp: denotes_def signed_def\<close>)
qed

section \<open>JSON numbers\<close>

text \<open>The parts of a JSON number: sign, integer digits, fraction digits, and the exponent with its
  letter, sign text and digits.\<close>

record json_number =
  jn_negative :: bool
  jn_integer :: string
  jn_fraction :: string
  jn_exponent :: "(char \<times> string \<times> string) option"

definition number_text :: "json_number \<Rightarrow> string" where
  "number_text j =
     (if jn_negative j then ''-'' else []) @ jn_integer j @
     (if jn_fraction j = [] then [] else ''.'' @ jn_fraction j) @
     (case jn_exponent j of None \<Rightarrow> [] | Some (e, sign, ds) \<Rightarrow> [e] @ sign @ ds)"

definition exponent_value :: "json_number \<Rightarrow> int" where
  "exponent_value j =
     (case jn_exponent j of None \<Rightarrow> 0 | Some (_, sign, ds) \<Rightarrow> signed (sign = ''-'') (decimal ds))"

definition number_ok :: "json_number \<Rightarrow> bool" where
  "number_ok j \<longleftrightarrow>
     jn_integer j \<noteq> [] \<and> all_digits (jn_integer j) \<and> all_digits (jn_fraction j) \<and>
     (hd (jn_integer j) = CHR ''0'' \<longrightarrow> jn_integer j = ''0'') \<and>
     (case jn_exponent j of None \<Rightarrow> True
      | Some (e, sign, ds) \<Rightarrow> (e = CHR ''e'' \<or> e = CHR ''E'') \<and> (sign = [] \<or> sign = ''+'' \<or> sign = ''-'') \<and>
          ds \<noteq> [] \<and> all_digits ds)"

text \<open>The mathematical value: significand times a power of ten.\<close>

definition number_is :: "json_number \<Rightarrow> int \<Rightarrow> bool" where
  "number_is j n \<longleftrightarrow>
     denotes (signed (jn_negative j) (decimal (jn_integer j @ jn_fraction j)))
       (exponent_value j - int (length (jn_fraction j))) n"

definition no_digit_front :: "string \<Rightarrow> bool" where
  "no_digit_front s \<longleftrightarrow> (case s of [] \<Rightarrow> True | c # _ \<Rightarrow> \<not> isDecimalDigit c)"

lemma span_digits:
  assumes "all_digits ds" "no_digit_front r"
  shows "takeWhile isDecimalDigit (ds @ r) = ds \<and> dropWhile isDecimalDigit (ds @ r) = r"
  using assms by (induction ds) (auto simp: no_digit_front_def split: list.splits)

lemma integer_part_ok:
  assumes "ip \<noteq> []" "all_digits ip" "hd ip = CHR ''0'' \<longrightarrow> ip = ''0''" "no_digit_front r"
  shows "integer_part (ip @ r) = Some (ip, r)"
proof (cases "ip = ''0''")
  case True
  with assms(4) show ?thesis by (auto simp: integer_part_def no_digit_front_def split: list.splits)
next
  case False
  obtain c cs where ip: "ip = c # cs" using assms(1) by (cases ip) auto
  with False assms have "c \<noteq> CHR ''0''" "isDecimalDigit c" by auto
  moreover from this have "byte c \<noteq> 48" using digit_zero [of c] by (auto simp: digit_value_def)
  ultimately show ?thesis
    using ip span_digits [OF assms(2,4)] by (auto simp: integer_part_def isDecimalDigit_def)
qed

lemma fraction_part_ok:
  assumes "all_digits fp" "no_digit_front r" "\<not> HasPrefix r ''.''"
  shows "fraction_part ((if fp = [] then [] else ''.'' @ fp) @ r) = Some (fp, r)"
  using assms span_digits [OF assms(1,2)]
  by (auto simp: fraction_part_def HasPrefix_def split: list.splits)

lemma exponent_sign_ok:
  assumes "sign = [] \<or> sign = ''+'' \<or> sign = ''-''" "all_digits ds" "ds \<noteq> []"
  shows "exponent_sign (sign @ ds) = (sign = ''-'', ds)"
proof -
  obtain d es where ds: "ds = d # es" using assms(3) by (cases ds) auto
  with assms(2) have "d \<noteq> CHR ''+''" "d \<noteq> CHR ''-''" by (auto simp: isDecimalDigit_def byte_def)
  with ds assms(1) show ?thesis by (auto simp: exponent_sign_def)
qed

text \<open>The exponent the code computes: the true one, saturated in magnitude.\<close>

definition saturated :: "json_number \<Rightarrow> int" where
  "saturated j =
     (case jn_exponent j of None \<Rightarrow> 0
      | Some (_, sign, ds) \<Rightarrow>
          signed (sign = ''-'') (min (int (length (jn_integer j @ jn_fraction j)) + 21) (decimal ds)))"

lemma exponent_part_ok:
  assumes "number_ok j" "limit = int (length (jn_integer j @ jn_fraction j)) + 20"
  shows "exponent_part limit (case jn_exponent j of None \<Rightarrow> [] | Some (e, sign, ds) \<Rightarrow> [e] @ sign @ ds) =
    Some (saturated j, [])"
proof (cases "jn_exponent j")
  case None
  then show ?thesis by (simp add: exponent_part_def saturated_def)
next
  case (Some x)
  then obtain e sign ds where x: "jn_exponent j = Some (e, sign, ds)" by (metis prod_cases3)
  with assms(1) have e: "e = CHR ''e'' \<or> e = CHR ''E''" "sign = [] \<or> sign = ''+'' \<or> sign = ''-''"
    "ds \<noteq> []" "all_digits ds" by (auto simp: number_ok_def)
  have "exponent_loop limit 0 ds = min (limit + 1) (decimal ds)"
    using exponent_loop_saturates [OF e(4), of limit 0] assms(2) by simp
  then have sat: "signed (sign = ''-'') (exponent_loop limit 0 ds) = saturated j"
    using x assms(2) by (simp add: saturated_def add.commute add.left_commute)
  have tw: "takeWhile isDecimalDigit ds = ds" "dropWhile isDecimalDigit ds = []"
    using span_digits [OF e(4), of "[]"] by (simp_all add: no_digit_front_def)
  have "exponent_part limit (e # sign @ ds) = Some (signed (sign = ''-'') (exponent_loop limit 0 ds), [])"
    using e(1,3) exponent_sign_ok [OF e(2,4,3)]
    by (simp only: exponent_part_def list.case prod.case tw Let_def signed_def) simp
  with x sat show ?thesis by simp
qed

lemma ParseStartupInteger_scaled:
  assumes "number_ok j"
  shows "ParseStartupInteger (number_text j) =
    scaled_integer (jn_negative j) (jn_integer j @ jn_fraction j) (saturated j - int (length (jn_fraction j)))"
proof -
  let ?ex = "case jn_exponent j of None \<Rightarrow> [] | Some (e, sign, ds) \<Rightarrow> [e] @ sign @ ds"
  let ?fr = "(if jn_fraction j = [] then [] else ''.'' @ jn_fraction j) @ ?ex"
  have ok: "jn_integer j \<noteq> []" "all_digits (jn_integer j)" "all_digits (jn_fraction j)"
    "hd (jn_integer j) = CHR ''0'' \<longrightarrow> jn_integer j = ''0''" using assms by (auto simp: number_ok_def)
  have ex: "no_digit_front ?ex" "\<not> HasPrefix ?ex ''.''"
    using assms by (auto simp: number_ok_def no_digit_front_def isDecimalDigit_def byte_def HasPrefix_def
        split: option.splits)
  have fr: "no_digit_front ?fr" using ex(1) by (auto simp: no_digit_front_def isDecimalDigit_def byte_def)
  obtain c cs where ip: "jn_integer j = c # cs" using ok(1) by (cases "jn_integer j") auto
  then have "c \<noteq> CHR ''-''" using ok(2) by (auto simp: isDecimalDigit_def byte_def)
  then have sign: "(case number_text j of c # r \<Rightarrow> if c = CHR ''-'' then (True, r) else (False, number_text j)
      | [] \<Rightarrow> (False, [])) = (jn_negative j, jn_integer j @ ?fr)"
    using ip by (auto simp: number_text_def)
  show ?thesis
    unfolding ParseStartupInteger_def sign
    using integer_part_ok [OF ok(1,2,4) fr] fraction_part_ok [OF ok(3) ex]
      exponent_part_ok [OF assms refl]
    by (simp add: add.commute add.left_commute)
qed

lemma saturated_is:
  assumes "number_ok j" "in_int64 n"
  shows "denotes (signed neg (decimal (jn_integer j @ jn_fraction j))) (saturated j - int (length (jn_fraction j))) n
    \<longleftrightarrow> denotes (signed neg (decimal (jn_integer j @ jn_fraction j))) (exponent_value j - int (length (jn_fraction j))) n"
proof (cases "jn_exponent j")
  case None
  then show ?thesis by (simp add: saturated_def exponent_value_def)
next
  case (Some x)
  then obtain e sign ds where x: "jn_exponent j = Some (e, sign, ds)" by (metis prod_cases3)
  let ?limit = "int (length (jn_integer j @ jn_fraction j)) + 20"
  have dig: "all_digits (jn_integer j @ jn_fraction j)" using assms(1) by (simp add: number_ok_def)
  show ?thesis
  proof (cases "decimal ds \<le> ?limit + 1")
    case True
    with x have "saturated j = exponent_value j" by (simp add: saturated_def exponent_value_def)
    then show ?thesis by simp
  next
    case False
    then have "saturated j = signed (sign = ''-'') (?limit + 1)" "exponent_value j = signed (sign = ''-'') (decimal ds)"
      using x by (simp_all add: saturated_def exponent_value_def min_def add.commute add.left_commute)
    with False saturated_denotes [OF dig refl, of "length (jn_fraction j)" "decimal ds" n "decimal ds" neg]
      saturated_denotes [OF dig refl, of "length (jn_fraction j)" "decimal ds" n "?limit + 1" neg] assms(2)
    show ?thesis by (cases "sign = ''-''") (simp_all add: signed_def)
  qed
qed

lemma integer_part_inv:
  assumes "integer_part inp = Some (ip, r)"
  shows "inp = ip @ r \<and> ip \<noteq> [] \<and> all_digits ip \<and> (hd ip = CHR ''0'' \<longrightarrow> ip = ''0'')"
proof (cases inp)
  case (Cons c cs)
  show ?thesis
  proof (cases "c = CHR ''0''")
    case True
    with assms Cons show ?thesis
      by (auto simp: integer_part_def isDecimalDigit_def byte_def split: list.splits if_splits)
  next
    case False
    with assms Cons have "isDecimalDigit c" "ip = takeWhile isDecimalDigit inp" "r = dropWhile isDecimalDigit inp"
      by (auto simp: integer_part_def isDecimalDigit_def split: if_splits)
    with Cons False show ?thesis by (auto simp: list_all_iff dest: set_takeWhileD)
  qed
qed (use assms in \<open>simp add: integer_part_def\<close>)

lemma fraction_part_inv:
  assumes "fraction_part inp = Some (fp, r)"
  shows "inp = (if fp = [] then [] else ''.'' @ fp) @ r \<and> all_digits fp"
  using assms
  by (auto simp: fraction_part_def list_all_iff Let_def split: list.splits if_splits dest: set_takeWhileD)

lemma exponent_part_inv:
  assumes "exponent_part limit inp = Some (e, [])"
  shows "\<exists>x. inp = (case x of None \<Rightarrow> [] | Some (e, sign, ds) \<Rightarrow> [e] @ sign @ ds) \<and>
    (case x of None \<Rightarrow> True
     | Some (e, sign, ds) \<Rightarrow> (e = CHR ''e'' \<or> e = CHR ''E'') \<and> (sign = [] \<or> sign = ''+'' \<or> sign = ''-'') \<and>
         ds \<noteq> [] \<and> all_digits ds)"
proof (cases inp)
  case (Cons c r)
  obtain neg ds where es: "exponent_sign r = (neg, ds)" by fastforce
  with assms Cons have c: "c = CHR ''e'' \<or> c = CHR ''E''" and ds: "ds \<noteq> []" "dropWhile isDecimalDigit ds = []"
    by (auto simp: exponent_part_def Let_def split: if_splits)
  have "all_digits ds" using ds(2) by (auto simp: list_all_iff dropWhile_eq_Nil_conv)
  moreover obtain sign where "r = sign @ ds" "sign = [] \<or> sign = ''+'' \<or> sign = ''-''"
    using es by (auto simp: exponent_sign_def split: list.splits if_splits)
  ultimately show ?thesis using Cons c ds by (intro exI [of _ "Some (c, sign, ds)"]) simp
qed (auto intro: exI [of _ None])

text \<open>C36: the conversion of JSON numbers to integers is exact. A text is accepted only if it is a
  JSON number, and a JSON number (sign, fraction and exponent of any size included) is converted to
  \<open>n\<close> exactly when its mathematical value is the integer \<open>n\<close> and \<open>n\<close> fits \<^verbatim>\<open>int64\<close>: no
  rounding, and no integral value in range is rejected.\<close>

theorem ParseStartupInteger_exact:
  "ParseStartupInteger text = Some n \<longleftrightarrow>
     in_int64 n \<and> (\<exists>j. number_ok j \<and> text = number_text j \<and> number_is j n)"
proof -
  have conv: "ParseStartupInteger (number_text j) = Some n \<longleftrightarrow> in_int64 n \<and> number_is j n" if "number_ok j" for j
  proof -
    have "all_digits (jn_integer j @ jn_fraction j)" using that by (simp add: number_ok_def)
    then show ?thesis
      using scaled_integer_exact ParseStartupInteger_scaled [OF that] saturated_is [OF that]
      by (auto simp: number_is_def)
  qed
  have "\<exists>j. number_ok j \<and> text = number_text j" if parsed: "ParseStartupInteger text = Some n"
  proof -
    obtain neg rest where s: "(case text of c # r \<Rightarrow> if c = CHR ''-'' then (True, r) else (False, text)
        | [] \<Rightarrow> (False, [])) = (neg, rest)" by fastforce
    then have inp: "text = (if neg then ''-'' else []) @ rest" by (auto split: list.splits if_splits)
    obtain ip r1 fp r2 e where p: "integer_part rest = Some (ip, r1)" "fraction_part r1 = Some (fp, r2)"
        "exponent_part (int (length ip) + int (length fp) + 20) r2 = Some (e, [])"
      using parsed unfolding ParseStartupInteger_def s by (auto split: option.splits if_splits)
    from exponent_part_inv [OF p(3)] obtain x where x:
      "r2 = (case x of None \<Rightarrow> [] | Some (e, sign, ds) \<Rightarrow> [e] @ sign @ ds)"
      "case x of None \<Rightarrow> True
       | Some (e, sign, ds) \<Rightarrow> (e = CHR ''e'' \<or> e = CHR ''E'') \<and> (sign = [] \<or> sign = ''+'' \<or> sign = ''-'') \<and>
           ds \<noteq> [] \<and> all_digits ds" by blast
    let ?j = "\<lparr>jn_negative = neg, jn_integer = ip, jn_fraction = fp, jn_exponent = x\<rparr>"
    have "number_ok ?j" "text = number_text ?j"
      using inp integer_part_inv [OF p(1)] fraction_part_inv [OF p(2)] x
      by (simp_all add: number_ok_def number_text_def)
    then show ?thesis by blast
  qed
  with conv show ?thesis by blast
qed

end
