(* ===== verification/Startup_Bundle.thy ===== *)
theory Startup_Bundle
  imports Startup_Variables
begin

text \<open>
  Startup values and their materialisation: the normalisation of a submitted value against its
  declaration and the public view of a variable (\<^verbatim>\<open>internal/store/network_startup.go\<close>), the
  declaration read from a fixed bundle (\<^verbatim>\<open>internal/store/game_bundles.go\<close>), and the renderer
  that turns bindings into command arguments, environment entries and files
  (\<^verbatim>\<open>spec/game-definition/render.go\<close>).
\<close>

definition validationProblem :: problem where
  "validationProblem = NewProblem ''VALIDATION_FAILED'' False"

definition packageIncompatible :: problem where
  "packageIncompatible = NewProblem ''PACKAGE_INCOMPATIBLE'' False"

section \<open>Values (network_startup.go)\<close>

text \<open>A finite float is an integer when its power of two divides out.\<close>

definition startupFloatInteger :: "float64 \<Rightarrow> int option" where
  "startupFloatInteger value =
     (case value of
        NaN \<Rightarrow> None
      | Inf _ \<Rightarrow> None
      | Fin m e \<Rightarrow>
          if e < 0 \<and> \<not> 2 ^ nat (- e) dvd m then None
          else
            let n = (if e < 0 then m div 2 ^ nat (- e) else m * 2 ^ nat e)
            in if n < - (2 ^ 63) \<or> n \<ge> 2 ^ 63 then None else Some n)"

definition startupInteger :: "any \<Rightarrow> int option" where
  "startupInteger value =
     (case value of
        AnyInt n \<Rightarrow> Some n
      | AnyUint n \<Rightarrow> if int n > max_int64 then None else Some (int n)
      | AnyFloat f \<Rightarrow> startupFloatInteger f
      | AnyNumber s \<Rightarrow> ParseStartupInteger s
      | _ \<Rightarrow> None)"

text \<open>The switch over the declared type: the converted value, \<open>None\<close> for a refusal.\<close>

definition normalize_string :: "StartupVariable \<Rightarrow> string \<Rightarrow> any option" where
  "normalize_string definition text =
     (let length = int (rune_count text) in
      if (case var_MinLength definition of None \<Rightarrow> False | Some n \<Rightarrow> length < n) then None
      else if (case var_MaxLength definition of None \<Rightarrow> False | Some n \<Rightarrow> length > n) then None
      else if var_EnumValues definition \<noteq> [] \<and> \<not> containsString (var_EnumValues definition) text then None
      else Some (AnyString text))"

definition normalize_integer :: "StartupVariable \<Rightarrow> int \<Rightarrow> any option" where
  "normalize_integer definition integer =
     (if integer < - MaxSafeStartupInteger \<or> integer > MaxSafeStartupInteger then None
      else if (case var_Minimum definition of None \<Rightarrow> False | Some n \<Rightarrow> integer < n) then None
      else if (case var_Maximum definition of None \<Rightarrow> False | Some n \<Rightarrow> integer > n) then None
      else Some (AnyInt integer))"

definition normalize_kind :: "StartupVariable \<Rightarrow> any \<Rightarrow> any option" where
  "normalize_kind definition value =
     (if var_Type definition = ''string'' then
        (case value of AnyString text \<Rightarrow> normalize_string definition text | _ \<Rightarrow> None)
      else if var_Type definition = ''integer'' then
        (case startupInteger value of None \<Rightarrow> None | Some integer \<Rightarrow> normalize_integer definition integer)
      else if var_Type definition = ''boolean'' then
        (case value of AnyBool b \<Rightarrow> Some (AnyBool b) | _ \<Rightarrow> None)
      else None)"

definition normalizeStartupValue :: "StartupVariable \<Rightarrow> any \<Rightarrow> any result" where
  "normalizeStartupValue definition value =
     (case normalize_kind definition value of
        None \<Rightarrow> Inl validationProblem
      | Some normalized \<Rightarrow>
          if var_ConstValue definition \<noteq> AnyNil \<and> normalized \<noteq> var_ConstValue definition
          then Inl validationProblem else Inr normalized)"

definition canonicalStartupDigestVariables :: "(string, any) gomap \<Rightarrow> (string, any) gomap" where
  "canonicalStartupDigestVariables updates =
     mmap (\<lambda>_ value.
       case value of
         AnyNumber number \<Rightarrow>
           (case ParseStartupInteger number of
              Some integer \<Rightarrow>
                if integer \<ge> - MaxSafeStartupInteger \<and> integer \<le> MaxSafeStartupInteger
                then AnyInt integer else value
            | None \<Rightarrow> value)
       | _ \<Rightarrow> value) updates"

definition startupVariablePublicView :: "StartupVariable \<Rightarrow> any \<Rightarrow> bool \<Rightarrow> StartupVariable" where
  "startupVariablePublicView definition value configured =
     (let variable = definition\<lparr>var_HasValue := configured\<rparr> in
      if var_Secret definition
      then variable\<lparr>var_Value := AnyNil, var_Default := AnyNil, var_ConstValue := AnyNil, var_EnumValues := []\<rparr>
      else if configured then variable\<lparr>var_Value := value\<rparr>
      else variable\<lparr>var_Value := AnyNil\<rparr>)"

definition FormatBool :: "bool \<Rightarrow> string" where
  "FormatBool b = (if b then ''true'' else ''false'')"

definition startupTemplateValue :: "any \<Rightarrow> string option" where
  "startupTemplateValue value =
     (case value of
        AnyString text \<Rightarrow> Some text
      | AnyInt n \<Rightarrow> Some (FormatInt n)
      | AnyBool b \<Rightarrow> Some (FormatBool b)
      | _ \<Rightarrow> None)"

definition startupArgumentPlaceholder :: "string \<Rightarrow> string" where
  "startupArgumentPlaceholder variable = ''{{ '' @ variable @ '' }}''"

definition ValuePlaceholder :: string where
  "ValuePlaceholder = ''{{ value }}''"

text \<open>The map from a key to the last declaration with that key, as the loops build it.\<close>

definition definitions_of :: "StartupVariable list \<Rightarrow> (string, StartupVariable) gomap" where
  "definitions_of variables = foldl (\<lambda>m v. mput (var_Key v) v m) [] variables"

definition resolve_binding ::
  "(string, StartupVariable) gomap \<Rightarrow> (string, any) gomap \<Rightarrow> string list \<Rightarrow> StartupBinding \<Rightarrow> string list" where
  "resolve_binding definitions values args binding =
     (case mget definitions (bnd_Variable binding) of
        None \<Rightarrow> args
      | Some definition \<Rightarrow>
          if var_Secret definition \<or> bnd_Target binding \<noteq> ''argument'' then args
          else
            (case mget values (bnd_Variable binding) of
               None \<Rightarrow> args
             | Some value \<Rightarrow>
                 (case startupTemplateValue value of
                    None \<Rightarrow> args
                  | Some renderedValue \<Rightarrow>
                      map (\<lambda>argument.
                             if argument = startupArgumentPlaceholder (bnd_Variable binding)
                             then ReplaceAll (bnd_Template binding) ValuePlaceholder renderedValue
                             else argument) args)))"

definition resolveStartupCommand :: "Startup \<Rightarrow> (string, any) gomap \<Rightarrow> StartupCommand" where
  "resolveStartupCommand startup values =
     \<lparr>sc_Executable = sc_Executable (st_Command startup),
      sc_Args = foldl (resolve_binding (definitions_of (st_Variables startup)) values)
                  (sc_Args (st_Command startup)) (st_Bindings startup)\<rparr>"

section \<open>Fixed bundles (game_bundles.go)\<close>

text \<open>A decoded bundle; the raw JSON members stay texts. The fields after the command are what the
  game catalog takes over.\<close>

record fixedBundleDocument =
  fbd_ID :: string
  fbd_Version :: string
  fbd_Variables :: string
  fbd_Command :: StartupCommand
  fbd_Name :: string
  fbd_GameVersion :: string
  fbd_Platforms :: "string list"
  fbd_Capabilities :: "string list"
  fbd_Adapter :: string
  fbd_Image :: string
  fbd_User :: string
  fbd_WorkingDir :: string
  fbd_Environment :: "(string, string) gomap"
  fbd_DataMounts :: "RuntimeDataMount list"
  fbd_Ports :: "RuntimePort list"
  fbd_Stop :: RuntimeStop
  fbd_Health :: RuntimeHealth
  fbd_Console :: "RuntimeConsoleAdapter option"

record fixedBundleVariables =
  fbv_Schema :: string
  fbv_Secrets :: "string list"
  fbv_Bindings :: "StartupBinding list"

record bundle_codec =
  decodeFixedBundle :: "string \<Rightarrow> fixedBundleDocument option"
  decodeFixedBundleVariables :: "string \<Rightarrow> fixedBundleVariables option"
  DecodeStartupVariableSchema :: "string \<Rightarrow> StartupVariableSchema option"
  bundleDigest :: "string \<Rightarrow> string"

definition validateServerBundleIdentity :: "bundle_codec \<Rightarrow> Server \<Rightarrow> GameDefinition \<Rightarrow> problem option" where
  "validateServerBundleIdentity codec server game =
     (if srv_GameID server \<noteq> g_ID game \<or> srv_GameDefinitionVersion server \<noteq> g_Version game \<or>
         srv_GameBundleDigest server \<noteq> g_BundleDigest game
      then Some packageIncompatible
      else if g_BundleDocument game = [] \<or> bundleDigest codec (g_BundleDocument game) \<noteq> g_BundleDigest game
      then Some packageIncompatible
      else None)"

fun validate_bindings ::
  "(string, StartupVariable) gomap \<Rightarrow> string list \<Rightarrow> StartupBinding list \<Rightarrow> problem option" where
  "validate_bindings definitions args [] = None"
| "validate_bindings definitions args (binding # rest) =
     (case mget definitions (bnd_Variable binding) of
        None \<Rightarrow> Some packageIncompatible
      | Some variable \<Rightarrow>
          if bnd_Target binding \<noteq> ''argument'' then validate_bindings definitions args rest
          else if var_Secret variable then Some packageIncompatible
          else if \<not> containsString args (startupArgumentPlaceholder (bnd_Variable binding)) \<or>
                  \<not> Contains (bnd_Template binding) ValuePlaceholder
          then Some packageIncompatible
          else validate_bindings definitions args rest)"

definition validateStartupBindings :: "Startup \<Rightarrow> problem option" where
  "validateStartupBindings startup =
     validate_bindings (definitions_of (st_Variables startup)) (sc_Args (st_Command startup)) (st_Bindings startup)"

fun apply_overrides ::
  "(string, StartupVariable) gomap \<Rightarrow> (string, any) gomap \<Rightarrow> (string, any) gomap \<Rightarrow> (string, any) gomap result" where
  "apply_overrides byKey values [] = Inr values"
| "apply_overrides byKey values ((key, value) # rest) =
     (case mget byKey key of
        None \<Rightarrow> Inl validationProblem
      | Some definition \<Rightarrow>
          if value = AnyNil then
            (if var_Required definition then Inl validationProblem
             else apply_overrides byKey (mdel key values) rest)
          else
            (case normalizeStartupValue definition value of
               Inl err \<Rightarrow> Inl err
             | Inr normalized \<Rightarrow> apply_overrides byKey (mput key normalized values) rest))"

definition applyStartupOverrides ::
  "StartupVariable list \<Rightarrow> (string, any) gomap \<Rightarrow> (string, any) gomap \<Rightarrow> (string, any) gomap result" where
  "applyStartupOverrides definitions values overrides =
     apply_overrides (definitions_of definitions) values overrides"

text \<open>The loop over the sorted property keys: the declared variables and their default values.\<close>

fun bundle_variables ::
  "(string, StartupVariableProperty) gomap \<Rightarrow> string list \<Rightarrow> string list \<Rightarrow> string list
     \<Rightarrow> (StartupVariable list \<times> (string, any) gomap) result" where
  "bundle_variables properties required secrets [] = Inr ([], [])"
| "bundle_variables properties required secrets (key # keys) =
     (case mget properties key of
        None \<Rightarrow> Inl packageIncompatible
      | Some property \<Rightarrow>
          let variable0 = \<lparr>var_Key = key, var_Type = svp_Type property, var_Secret = (key \<in> set secrets),
                var_Required = (key \<in> set required), var_Default = AnyNil, var_Value = AnyNil,
                var_HasValue = False, var_Minimum = svp_Minimum property, var_Maximum = svp_Maximum property,
                var_MinLength = svp_MinLength property, var_MaxLength = svp_MaxLength property,
                var_EnumValues = (case svp_Enum property of None \<Rightarrow> [] | Some enum \<Rightarrow> enum),
                var_ConstValue = AnyNil\<rparr>
          in if svp_Type property \<noteq> ''string'' \<and> svp_Type property \<noteq> ''integer'' \<and> svp_Type property \<noteq> ''boolean''
             then Inl packageIncompatible
             else
               (case (case svp_Const property of
                        None \<Rightarrow> Inr variable0
                      | Some constant \<Rightarrow>
                          (case normalizeStartupValue variable0 constant of
                             Inl _ \<Rightarrow> Inl packageIncompatible
                           | Inr normalized \<Rightarrow> Inr (variable0\<lparr>var_ConstValue := normalized\<rparr>))) of
                  Inl err \<Rightarrow> Inl err
                | Inr variable1 \<Rightarrow>
                    (case (case svp_Default property of
                             None \<Rightarrow> Inr (variable1, [])
                           | Some defaultValue \<Rightarrow>
                               (case normalizeStartupValue variable1 defaultValue of
                                  Inl _ \<Rightarrow> Inl packageIncompatible
                                | Inr normalized \<Rightarrow> Inr (variable1\<lparr>var_Default := normalized\<rparr>, [(key, normalized)]))) of
                       Inl err \<Rightarrow> Inl err
                     | Inr (variable, value) \<Rightarrow>
                         (case bundle_variables properties required secrets keys of
                            Inl err \<Rightarrow> Inl err
                          | Inr (variables, values) \<Rightarrow> Inr (variable # variables, value @ values)))))"

definition startupFromFixedBundle ::
  "bundle_codec \<Rightarrow> Server \<Rightarrow> GameDefinition \<Rightarrow> (string, any) gomap \<Rightarrow> (Startup \<times> (string, any) gomap) result" where
  "startupFromFixedBundle codec server game overrides =
     (case validateServerBundleIdentity codec server game of
        Some err \<Rightarrow> Inl err
      | None \<Rightarrow>
     (case decodeFixedBundle codec (g_BundleDocument game) of
        None \<Rightarrow> Inl packageIncompatible
      | Some document \<Rightarrow>
     if fbd_ID document \<noteq> g_ID game \<or> fbd_Version document \<noteq> g_Version game then Inl packageIncompatible
     else
     (case (if fbd_Variables document = [] then Some \<lparr>fbv_Schema = [], fbv_Secrets = [], fbv_Bindings = []\<rparr>
            else decodeFixedBundleVariables codec (fbd_Variables document)) of
        None \<Rightarrow> Inl packageIncompatible
      | Some variables \<Rightarrow>
     (case (if fbv_Schema variables = []
            then Some \<lparr>svs_Type = ''object'', svs_AdditionalProperties = None, svs_Required = [], svs_Properties = Some []\<rparr>
            else DecodeStartupVariableSchema codec (fbv_Schema variables)) of
        None \<Rightarrow> Inl packageIncompatible
      | Some schema \<Rightarrow>
     if Validate schema (fbv_Secrets variables) \<noteq> None then Inl packageIncompatible
     else
       let properties = (case svs_Properties schema of None \<Rightarrow> [] | Some p \<Rightarrow> p);
           keys = sort_strings (map fst properties)
       in case bundle_variables properties (svs_Required schema) (fbv_Secrets variables) keys of
            Inl err \<Rightarrow> Inl err
          | Inr (vars, values) \<Rightarrow>
              let startup = \<lparr>st_ServerID = srv_ID server, st_Generation = srv_Generation server,
                    st_Command = fbd_Command document, st_Variables = vars,
                    st_Bindings = fbv_Bindings variables\<rparr>
              in case validateStartupBindings startup of
                   Some err \<Rightarrow> Inl err
                 | None \<Rightarrow>
                     (case applyStartupOverrides (st_Variables startup) values overrides of
                        Inl err \<Rightarrow> Inl err
                      | Inr values' \<Rightarrow> Inr (startup, values'))))))"

definition startupTemplatesEqual :: "Startup \<Rightarrow> Startup \<Rightarrow> bool" where
  "startupTemplatesEqual left right = (left\<lparr>st_Generation := 0\<rparr> = right\<lparr>st_Generation := 0\<rparr>)"

section \<open>Properties\<close>

text \<open>What a stored value of a declared variable satisfies.\<close>

definition value_ok :: "StartupVariable \<Rightarrow> any \<Rightarrow> bool" where
  "value_ok d v \<longleftrightarrow>
     (case v of
        AnyString s \<Rightarrow> var_Type d = ''string'' \<and>
          (\<forall>n. var_MinLength d = Some n \<longrightarrow> n \<le> int (rune_count s)) \<and>
          (\<forall>n. var_MaxLength d = Some n \<longrightarrow> int (rune_count s) \<le> n) \<and>
          (var_EnumValues d \<noteq> [] \<longrightarrow> s \<in> set (var_EnumValues d))
      | AnyInt i \<Rightarrow> var_Type d = ''integer'' \<and> safeStartupInteger i \<and>
          (\<forall>n. var_Minimum d = Some n \<longrightarrow> n \<le> i) \<and> (\<forall>n. var_Maximum d = Some n \<longrightarrow> i \<le> n)
      | AnyBool b \<Rightarrow> var_Type d = ''boolean''
      | _ \<Rightarrow> False) \<and>
     (var_ConstValue d \<noteq> AnyNil \<longrightarrow> v = var_ConstValue d)"

definition kind_ok :: "StartupVariable \<Rightarrow> any \<Rightarrow> bool" where
  "kind_ok d v \<longleftrightarrow> value_ok (d\<lparr>var_ConstValue := AnyNil\<rparr>) v"

lemma normalize_string_ok:
  "var_Type d = ''string'' \<Longrightarrow> normalize_string d s = Some w \<longleftrightarrow> w = AnyString s \<and> kind_ok d w"
  by (auto simp: normalize_string_def kind_ok_def value_ok_def Let_def containsString_def
      split: if_splits option.splits)

lemma normalize_integer_ok:
  "var_Type d = ''integer'' \<Longrightarrow> normalize_integer d i = Some w \<longleftrightarrow> w = AnyInt i \<and> kind_ok d w"
  by (auto simp: normalize_integer_def kind_ok_def value_ok_def safeStartupInteger_def
      split: if_splits option.splits)

lemma normalize_kind_ok: "normalize_kind d v = Some w \<Longrightarrow> kind_ok d w"
  by (auto simp: normalize_kind_def normalize_string_ok normalize_integer_ok
      split: if_splits any.splits option.splits) (simp add: kind_ok_def value_ok_def)

lemma normalize_kind_fixed:
  assumes "kind_ok d w"
  shows "normalize_kind d w = Some w"
proof (cases w)
  case (AnyString s)
  with assms have "var_Type d = ''string''" by (simp add: kind_ok_def value_ok_def)
  with AnyString assms show ?thesis by (simp add: normalize_kind_def normalize_string_ok)
next
  case (AnyInt i)
  with assms have "var_Type d = ''integer''" by (simp add: kind_ok_def value_ok_def)
  with AnyInt assms show ?thesis by (simp add: normalize_kind_def normalize_integer_ok startupInteger_def)
next
  case (AnyBool b)
  with assms show ?thesis by (simp add: kind_ok_def value_ok_def normalize_kind_def)
qed (use assms in \<open>simp_all add: kind_ok_def value_ok_def\<close>)

lemma value_ok_split: "value_ok d v \<longleftrightarrow> kind_ok d v \<and> (var_ConstValue d \<noteq> AnyNil \<longrightarrow> v = var_ConstValue d)"
  by (cases v) (auto simp: value_ok_def kind_ok_def)

lemma normalize_ok: "normalizeStartupValue d v = Inr w \<Longrightarrow> value_ok d w"
  by (auto simp: normalizeStartupValue_def value_ok_split dest: normalize_kind_ok split: option.splits if_splits)

lemma normalize_fixed: "value_ok d w \<Longrightarrow> normalizeStartupValue d w = Inr w"
  by (auto simp: normalizeStartupValue_def value_ok_split normalize_kind_fixed)

definition values_ok :: "(string, StartupVariable) gomap \<Rightarrow> (string, any) gomap \<Rightarrow> bool" where
  "values_ok byKey values \<longleftrightarrow>
     (\<forall>key v. mget values key = Some v \<longrightarrow> (\<exists>d. mget byKey key = Some d \<and> value_ok d v))"

lemma values_ok_put: "values_ok byKey values \<Longrightarrow> mget byKey key = Some d \<Longrightarrow> value_ok d v \<Longrightarrow>
    values_ok byKey (mput key v values)"
  by (auto simp: values_ok_def)

lemma values_ok_del: "values_ok byKey values \<Longrightarrow> values_ok byKey (mdel key values)"
  by (auto simp: values_ok_def)

lemma apply_overrides_ok:
  "apply_overrides byKey vals ovr = Inr w \<Longrightarrow> values_ok byKey vals \<Longrightarrow> values_ok byKey w"
proof (induction byKey vals ovr rule: apply_overrides.induct)
  case (2 byKey vals key v rest)
  then show ?case
    by (auto split: option.splits if_splits sum.splits intro: values_ok_put values_ok_del normalize_ok)
qed simp

text \<open>normalisation of startup values. An accepted value has the declared type and satisfies
  every declared constraint (length, enumeration, safe-integer range, minimum, maximum, constant),
  and normalising it again returns it unchanged; conversely every value with these properties is
  accepted as it is.\<close>

theorem normalizeStartupValue_sound:
  "(\<forall>w. normalizeStartupValue d v = Inr w \<longrightarrow> value_ok d w \<and> normalizeStartupValue d w = Inr w) \<and>
   (value_ok d v \<longrightarrow> normalizeStartupValue d v = Inr v)"
  using normalize_ok normalize_fixed by blast

definition sample_variable :: StartupVariable where
  "sample_variable = \<lparr>var_Key = ''memory_mb'', var_Type = ''integer'', var_Secret = False, var_Required = True,
     var_Default = AnyNil, var_Value = AnyNil, var_HasValue = False, var_Minimum = Some 512,
     var_Maximum = Some 131072, var_MinLength = None, var_MaxLength = None, var_EnumValues = [],
     var_ConstValue = AnyNil\<rparr>"

lemma sample_normalize: "normalizeStartupValue sample_variable (AnyNumber ''4.096e3'') = Inr (AnyInt 4096)"
  by code_simp

theorem normalizeStartupValue_sound_witness:
  "normalizeStartupValue sample_variable (AnyNumber ''4.096e3'') = Inr (AnyInt 4096) \<and>
   value_ok sample_variable (AnyInt 4096)"
  using normalizeStartupValue_sound [of sample_variable "AnyNumber ''4.096e3''"] sample_normalize by blast

subsection \<open>Secrets\<close>

text \<open>Two value maps that differ only in the values of declared secret variables.\<close>

definition agree_public :: "StartupVariable list \<Rightarrow> (string, any) gomap \<Rightarrow> (string, any) gomap \<Rightarrow> bool" where
  "agree_public variables v1 v2 \<longleftrightarrow>
     (\<forall>key d. mget (definitions_of variables) key = Some d \<longrightarrow> \<not> var_Secret d \<longrightarrow> mget v1 key = mget v2 key)"

lemma resolve_binding_public:
  "agree_public variables v1 v2 \<Longrightarrow>
   resolve_binding (definitions_of variables) v1 args b = resolve_binding (definitions_of variables) v2 args b"
  by (auto simp: resolve_binding_def agree_public_def split: option.splits)

lemma foldl_resolve_public:
  "agree_public variables v1 v2 \<Longrightarrow>
   foldl (resolve_binding (definitions_of variables) v1) args bs =
   foldl (resolve_binding (definitions_of variables) v2) args bs"
proof (induction bs arbitrary: args)
  case (Cons b bs)
  then show ?case using resolve_binding_public [OF Cons.prems, of args b] by simp
qed simp

text \<open>secrets do not reach the public startup view. The command shown to users and the public
  view of every variable are the same for any two value maps that differ only in secret variables:
  nothing about a secret value, its default, constant or enumeration can be read from them.\<close>

theorem startup_view_hides_secrets:
  assumes "agree_public (st_Variables startup) v1 v2"
  shows "resolveStartupCommand startup v1 = resolveStartupCommand startup v2 \<and>
    (\<forall>d w1 w2 b. var_Secret d \<longrightarrow>
       startupVariablePublicView d w1 b = startupVariablePublicView d w2 b \<and>
       startupVariablePublicView d w1 b =
         startupVariablePublicView (d\<lparr>var_Default := AnyNil, var_ConstValue := AnyNil, var_EnumValues := []\<rparr>) AnyNil b)"
  using foldl_resolve_public [OF assms]
  by (simp add: resolveStartupCommand_def startupVariablePublicView_def Let_def)

definition sample_startup :: Startup where
  "sample_startup = \<lparr>st_ServerID = ''s'', st_Generation = 1,
     st_Command = \<lparr>sc_Executable = ''java'', sc_Args = [''{{ memory_mb }}'', ''{{ key }}'']\<rparr>,
     st_Variables = [sample_variable, sample_variable\<lparr>var_Key := ''key'', var_Type := ''string'', var_Secret := True\<rparr>],
     st_Bindings = [\<lparr>bnd_Variable = ''memory_mb'', bnd_Target = ''argument'', bnd_Name = [], bnd_Path = [], bnd_Template = ''-Xmx{{ value }}M''\<rparr>,
                    \<lparr>bnd_Variable = ''key'', bnd_Target = ''argument'', bnd_Name = [], bnd_Path = [], bnd_Template = ''{{ value }}''\<rparr>]\<rparr>"

lemma sample_agree:
  "agree_public (st_Variables sample_startup) [(''memory_mb'', AnyInt 512), (''key'', AnyString ''a'')]
     [(''memory_mb'', AnyInt 512), (''key'', AnyString ''b'')]"
  by (auto simp: agree_public_def sample_startup_def definitions_of_def sample_variable_def split: if_splits)

lemma sample_command:
  "resolveStartupCommand sample_startup [(''memory_mb'', AnyInt 512), (''key'', AnyString ''a'')] =
     \<lparr>sc_Executable = ''java'', sc_Args = [''-Xmx512M'', ''{{ key }}'']\<rparr>"
  by code_simp

theorem startup_view_hides_secrets_witness:
  "resolveStartupCommand sample_startup [(''memory_mb'', AnyInt 512), (''key'', AnyString ''b'')] =
     \<lparr>sc_Executable = ''java'', sc_Args = [''-Xmx512M'', ''{{ key }}'']\<rparr>"
  using startup_view_hides_secrets [OF sample_agree] sample_command by simp

end
