(* ===== verification/Startup_Render.thy ===== *)
theory Startup_Render
  imports Startup_Bundle
begin

text \<open>
  The renderer of \<^verbatim>\<open>spec/game-definition/render.go\<close>: command arguments, environment entries and
  configuration files from bindings and resolved values. A result is \<open>None\<close> when the code
  panics (an invalid slice), \<open>Some (Inl e)\<close> for a returned error, \<open>Some (Inr r)\<close> otherwise.
\<close>

datatype render_error =
    BindingVariable | TemplateMissing | TemplateUnsupported | SecretArgument | ArgumentWithoutValue
  | UnsupportedScalar | ControlCharacter | DuplicateArgument | EnvironmentName | DuplicateEnvironment
  | BindingPath | DuplicatePath | UnsupportedTarget
  | UnboundPlaceholder | UnresolvedPlaceholder | UnusedArgument

record EnvironmentVariable =
  ev_Name :: string
  ev_Value :: string
  ev_Secret :: bool

record ConfigurationFile =
  cf_Path :: string
  cf_Content :: string
  cf_Secret :: bool

record RenderedStartup =
  ren_Executable :: string
  ren_Args :: "string list"
  ren_Environment :: "EnvironmentVariable list"
  ren_Files :: "ConfigurationFile list"

text \<open>The length of a match of \<^verbatim>\<open>\{\{[^{}]*\}\}\<close> at the front of a string, and the matches
  from left to right.\<close>

definition placeholder_front :: "string \<Rightarrow> nat option" where
  "placeholder_front s =
     (if HasPrefix s ''{{'' then
        (let body = takeWhile (\<lambda>c. c \<noteq> CHR ''{'' \<and> c \<noteq> CHR ''}'') (drop 2 s)
         in if HasPrefix (drop (2 + length body) s) ''}}'' then Some (4 + length body) else None)
      else None)"

function any_placeholders :: "string \<Rightarrow> string list" where
  "any_placeholders s =
     (if s = [] then []
      else case placeholder_front s of
             Some n \<Rightarrow> take n s # any_placeholders (drop n s)
           | None \<Rightarrow> any_placeholders (tl s))"
  by pat_completeness auto
termination
  by (relation "measure length") (auto simp: placeholder_front_def Let_def split: if_splits)

declare any_placeholders.simps [simp del]

definition validateBindingTemplate :: "string \<Rightarrow> render_error option" where
  "validateBindingTemplate template =
     (if \<not> Contains template ValuePlaceholder then Some TemplateMissing
      else if list_ex (\<lambda>match. match \<noteq> ValuePlaceholder) (any_placeholders template) then Some TemplateUnsupported
      else None)"

definition RenderScalar :: "any \<Rightarrow> string option" where
  "RenderScalar value =
     (case value of
        AnyString s \<Rightarrow> Some s | AnyInt n \<Rightarrow> Some (FormatInt n) | AnyBool b \<Rightarrow> Some (FormatBool b) | _ \<Rightarrow> None)"

text \<open>\<^verbatim>\<open>strings.IndexFunc(text, isRejectedControlRune) >= 0\<close>: the code points below 32, 127, and
  128 to 159, which UTF-8 encodes in two bytes.\<close>

definition isRejectedControlRune :: "string \<Rightarrow> bool" where
  "isRejectedControlRune s =
     (case s of
        [] \<Rightarrow> False
      | a # r \<Rightarrow>
          byte a < 0x20 \<or> byte a = 0x7F \<or>
          (byte a = 0xC2 \<and> (case r of [] \<Rightarrow> False | b # _ \<Rightarrow> 0x80 \<le> byte b \<and> byte b \<le> 0x9F)))"

function has_control :: "string \<Rightarrow> bool" where
  "has_control s = (if s = [] then False else isRejectedControlRune s \<or> has_control (drop (rune_len s) s))"
  by pat_completeness auto
termination
  by (relation "measure length") (simp_all add: rune_len_pos)

declare has_control.simps [simp del]

definition renderBinding :: "string \<Rightarrow> any \<Rightarrow> render_error + string" where
  "renderBinding template value =
     (case RenderScalar value of
        None \<Rightarrow> Inl UnsupportedScalar
      | Some text \<Rightarrow>
          if has_control text then Inl ControlCharacter
          else Inr (ReplaceAll template ValuePlaceholder text))"

definition NormalizeBindingPath :: "string \<Rightarrow> string option" where
  "NormalizeBindingPath value =
     (if Contains value [CHR 0x5C] then None
      else (case NormalizeRelative value of
              Inl _ \<Rightarrow> None
            | Inr normalized \<Rightarrow> if normalized = [] \<or> normalized \<noteq> value then None else Some normalized))"

text \<open>The slice \<^verbatim>\<open>argument[3:len-3]\<close> panics when its bounds cross: \<open>None\<close>.\<close>

definition parseArgumentPlaceholder :: "string \<Rightarrow> string option option" where
  "parseArgumentPlaceholder argument =
     (if \<not> HasPrefix argument ''{{ '' \<or> \<not> HasSuffix argument '' }}'' then Some None
      else if length argument < 6 then None
      else
        let variable = take (length argument - 6) (drop 3 argument)
        in if startupVariableIdentifier variable then Some (Some variable) else Some None)"

definition render_cons ::
  "string \<Rightarrow> string list \<Rightarrow> (render_error + (string list \<times> string list)) option
     \<Rightarrow> (render_error + (string list \<times> string list)) option" where
  "render_cons txt vars rest =
     (case rest of
        None \<Rightarrow> None
      | Some (Inl err) \<Rightarrow> Some (Inl err)
      | Some (Inr (resolved, used)) \<Rightarrow> Some (Inr (txt # resolved, vars @ used)))"

fun render_args ::
  "(string, string) gomap \<Rightarrow> string list \<Rightarrow> (render_error + (string list \<times> string list)) option" where
  "render_args arguments [] = Some (Inr ([], []))"
| "render_args arguments (argument # rest) =
     (case parseArgumentPlaceholder argument of
        None \<Rightarrow> None
      | Some (Some variable) \<Rightarrow>
          (case mget arguments variable of
             None \<Rightarrow> Some (Inl UnboundPlaceholder)
           | Some txt \<Rightarrow>
               render_cons txt [variable] (render_args arguments rest))
      | Some None \<Rightarrow>
          if any_placeholders argument \<noteq> [] then Some (Inl UnresolvedPlaceholder)
          else render_cons argument [] (render_args arguments rest))"

definition renderArguments :: "string list \<Rightarrow> (string, string) gomap \<Rightarrow> (render_error + string list) option" where
  "renderArguments args arguments =
     (case render_args arguments args of
        None \<Rightarrow> None
      | Some (Inl err) \<Rightarrow> Some (Inl err)
      | Some (Inr (resolved, used)) \<Rightarrow>
          if list_ex (\<lambda>(variable, _). variable \<notin> set used) arguments then Some (Inl UnusedArgument)
          else Some (Inr resolved))"

text \<open>The state of the loop over the bindings: argument texts, environment and files.\<close>

record render_state =
  rst_arguments :: "(string, string) gomap"
  rst_environment :: "EnvironmentVariable list"
  rst_files :: "ConfigurationFile list"

definition render_target ::
  "bool \<Rightarrow> string \<Rightarrow> StartupBinding \<Rightarrow> render_state \<Rightarrow> render_error + render_state" where
  "render_target isSecret txt binding st =
     (if bnd_Target binding = ''argument'' then
        (if mhas (rst_arguments st) (bnd_Variable binding) then Inl DuplicateArgument
         else Inr (st\<lparr>rst_arguments := mput (bnd_Variable binding) txt (rst_arguments st)\<rparr>))
      else if bnd_Target binding = ''environment'' then
        (if \<not> startupVariableIdentifier (bnd_Name binding) then Inl EnvironmentName
         else if bnd_Name binding \<in> set (map ev_Name (rst_environment st)) then Inl DuplicateEnvironment
         else Inr (st\<lparr>rst_environment :=
           rst_environment st @ [\<lparr>ev_Name = bnd_Name binding, ev_Value = txt, ev_Secret = isSecret\<rparr>]\<rparr>))
      else if bnd_Target binding = ''file'' then
        (case NormalizeBindingPath (bnd_Path binding) of
           None \<Rightarrow> Inl BindingPath
         | Some path \<Rightarrow>
             if path \<in> set (map cf_Path (rst_files st)) then Inl DuplicatePath
             else Inr (st\<lparr>rst_files :=
               rst_files st @ [\<lparr>cf_Path = path, cf_Content = txt, cf_Secret = isSecret\<rparr>]\<rparr>))
      else Inl UnsupportedTarget)"

definition render_one ::
  "(string, any) gomap \<Rightarrow> string list \<Rightarrow> StartupBinding \<Rightarrow> render_state \<Rightarrow> render_error + render_state" where
  "render_one vals secrets binding st =
     (if \<not> startupVariableIdentifier (bnd_Variable binding) then Inl BindingVariable
      else case validateBindingTemplate (bnd_Template binding) of
        Some err \<Rightarrow> Inl err
      | None \<Rightarrow>
          let isSecret = (bnd_Variable binding \<in> set secrets) in
          if bnd_Target binding = ''argument'' \<and> isSecret then Inl SecretArgument
          else (case mget vals (bnd_Variable binding) of
                  None \<Rightarrow> if bnd_Target binding = ''argument'' then Inl ArgumentWithoutValue else Inr st
                | Some value \<Rightarrow>
                    (case renderBinding (bnd_Template binding) value of
                       Inl err \<Rightarrow> Inl err
                     | Inr txt \<Rightarrow> render_target isSecret txt binding st)))"

fun render_bindings ::
  "(string, any) gomap \<Rightarrow> string list \<Rightarrow> StartupBinding list \<Rightarrow> render_state \<Rightarrow> render_error + render_state" where
  "render_bindings vals secrets [] st = Inr st"
| "render_bindings vals secrets (b # bs) st =
     (case render_one vals secrets b st of Inl err \<Rightarrow> Inl err | Inr st' \<Rightarrow> render_bindings vals secrets bs st')"

definition RenderStartup ::
  "string \<Rightarrow> string list \<Rightarrow> StartupBinding list \<Rightarrow> (string, any) gomap \<Rightarrow> string list
     \<Rightarrow> (render_error + RenderedStartup) option" where
  "RenderStartup executable args bindings vals secrets =
     (case render_bindings vals secrets bindings \<lparr>rst_arguments = [], rst_environment = [], rst_files = []\<rparr> of
        Inl err \<Rightarrow> Some (Inl err)
      | Inr st \<Rightarrow>
          (case renderArguments args (rst_arguments st) of
             None \<Rightarrow> None
           | Some (Inl err) \<Rightarrow> Some (Inl err)
           | Some (Inr resolved) \<Rightarrow>
               Some (Inr \<lparr>ren_Executable = executable, ren_Args = resolved,
                 ren_Environment = rst_environment st, ren_Files = rst_files st\<rparr>)))"

section \<open>Properties\<close>

lemma five_letters: "length s < 6 \<Longrightarrow> HasPrefix s ''{{ '' \<Longrightarrow> HasSuffix s '' }}'' \<Longrightarrow> s = ''{{ }}''"
proof -
  assume len: "length s < 6" and pre: "HasPrefix s ''{{ ''" and suf: "HasSuffix s '' }}''"
  from pre obtain r where s: "s = ''{{ '' @ r" by (metis HasPrefix_def append_take_drop_id)
  with len have "length r < 3" by simp
  then consider "length r = 0" | "length r = Suc 0" | "length r = Suc (Suc 0)" by linarith
  then show ?thesis using s suf by cases (auto simp: length_Suc_conv HasSuffix_def)
qed

lemma parse_panics: "parseArgumentPlaceholder a = None \<longleftrightarrow> a = ''{{ }}''"
proof
  assume "parseArgumentPlaceholder a = None"
  then show "a = ''{{ }}''"
    using five_letters [of a] by (auto simp: parseArgumentPlaceholder_def Let_def split: if_splits)
qed (simp add: parseArgumentPlaceholder_def HasPrefix_def HasSuffix_def)

lemma parse_variable:
  "parseArgumentPlaceholder a = Some (Some v) \<Longrightarrow> startupVariableIdentifier v"
  by (auto simp: parseArgumentPlaceholder_def Let_def split: if_splits)

text \<open>One argument of the template and the argument it became.\<close>

definition resolves :: "(string, string) gomap \<Rightarrow> string \<Rightarrow> string \<Rightarrow> bool" where
  "resolves arguments a r \<longleftrightarrow>
     (parseArgumentPlaceholder a = Some None \<and> any_placeholders a = [] \<and> r = a) \<or>
     (\<exists>v. parseArgumentPlaceholder a = Some (Some v) \<and> mget arguments v = Some r)"

lemma render_args_resolves:
  "render_args arguments as = Some (Inr (rs, used)) \<Longrightarrow> list_all2 (resolves arguments) as rs"
proof (induction as arbitrary: rs used)
  case (Cons a as)
  obtain rs' used' r where "render_args arguments as = Some (Inr (rs', used'))" "rs = r # rs'"
      "resolves arguments a r"
    using Cons.prems
    by (auto simp: resolves_def render_cons_def split: option.splits if_splits sum.splits prod.splits)
  with Cons.IH show ?case by simp
qed simp

lemma render_args_panic: "render_args arguments as = None \<Longrightarrow> ''{{ }}'' \<in> set as"
  by (induction as) (auto simp: parse_panics render_cons_def split: option.splits if_splits sum.splits)

text \<open>A template that passes the check is literal text around the value: \<open>pieces\<close> without any
  placeholder, joined by the placeholder of the value, which occurs.\<close>

definition template_pieces :: "string \<Rightarrow> string list \<Rightarrow> bool" where
  "template_pieces template pieces \<longleftrightarrow>
     template = Join pieces ValuePlaceholder \<and> 2 \<le> length pieces \<and> list_all (\<lambda>p. any_placeholders p = []) pieces"

lemma takeWhile_stops: "drop (length (takeWhile P xs)) xs \<noteq> [] \<Longrightarrow> takeWhile P (xs @ ys) = takeWhile P xs"
  by (induction xs) auto

lemma placeholder_front_append:
  assumes "placeholder_front a = Some n"
  shows "placeholder_front (a @ b) = Some n"
proof -
  let ?P = "\<lambda>c. c \<noteq> CHR ''{'' \<and> c \<noteq> CHR ''}''"
  let ?body = "takeWhile ?P (drop 2 a)"
  have a: "HasPrefix a ''{{''" "HasPrefix (drop (2 + length ?body) a) ''}}''" "n = 4 + length ?body"
    using assms by (auto simp: placeholder_front_def Let_def split: if_splits)
  have two: "2 \<le> length a" using a(1) by (auto simp: HasPrefix_def dest!: arg_cong [where f = length])
  have rest: "2 + length ?body + 2 \<le> length a" using a(2) by (auto simp: HasPrefix_def dest!: arg_cong [where f = length])
  have "takeWhile ?P (drop 2 a @ b) = ?body"
    by (rule takeWhile_stops) (use rest in simp)
  moreover have "HasPrefix (a @ b) ''{{''" using a(1) two by (simp add: HasPrefix_def)
  moreover have "HasPrefix (drop (2 + length ?body) (a @ b)) ''}}''" using a(2) rest by (simp add: HasPrefix_def)
  ultimately show ?thesis using a(3) two by (simp add: placeholder_front_def)
qed

lemma value_front: "HasPrefix s ValuePlaceholder \<Longrightarrow> placeholder_front s = Some (length ValuePlaceholder)"
proof -
  assume "HasPrefix s ValuePlaceholder"
  then have "s = ValuePlaceholder @ drop (length ValuePlaceholder) s" by (metis HasPrefix_def append_take_drop_id)
  moreover have "placeholder_front ValuePlaceholder = Some (length ValuePlaceholder)" by code_simp
  ultimately show ?thesis using placeholder_front_append by metis
qed

lemma none_free: "any_placeholders s = [] \<Longrightarrow> \<not> Contains s ValuePlaceholder"
proof (induction s)
  case (Cons c s)
  then have "placeholder_front (c # s) = None" "any_placeholders s = []"
    by (simp_all add: any_placeholders.simps [of "c # s"] split: option.splits)
  then show ?case using Cons.IH value_front [of "c # s"] by auto
qed (simp add: ValuePlaceholder_def)

lemma pieces_exist:
  assumes "list_all (\<lambda>m. m = ValuePlaceholder) (any_placeholders s)"
  shows "\<exists>ps. ps \<noteq> [] \<and> s = Join ps ValuePlaceholder \<and> list_all (\<lambda>p. any_placeholders p = []) ps
    \<and> (\<forall>t. ReplaceAll s ValuePlaceholder t = Join ps t)"
  using assms
proof (induction "length s" arbitrary: s rule: less_induct)
  case less
  have nonempty: "ValuePlaceholder \<noteq> []" by (simp add: ValuePlaceholder_def)
  show ?case
  proof (cases s)
    case Nil
    then show ?thesis
      by (intro exI [of _ "[[]]"]) (simp add: any_placeholders.simps [of "[]"] ReplaceAll.simps [of "[]"])
  next
    case (Cons c r)
    show ?thesis
    proof (cases "HasPrefix s ValuePlaceholder")
      case True
      let ?r = "drop (length ValuePlaceholder) s"
      have s: "s = ValuePlaceholder @ ?r" using True by (metis HasPrefix_def append_take_drop_id)
      have "any_placeholders s = take (length ValuePlaceholder) s # any_placeholders ?r"
        using Cons value_front [OF True] by (simp add: any_placeholders.simps [of "c # r"])
      then have "list_all (\<lambda>m. m = ValuePlaceholder) (any_placeholders ?r)" using less.prems by simp
      moreover have "length ?r < length s" using Cons nonempty by simp
      ultimately obtain ps where ps: "ps \<noteq> []" "?r = Join ps ValuePlaceholder" "list_all (\<lambda>p. any_placeholders p = []) ps"
        "\<forall>t. ReplaceAll ?r ValuePlaceholder t = Join ps t" using less.hyps by blast
      have "ReplaceAll s ValuePlaceholder t = Join ([] # ps) t" for t
        using ps(1,4) True Cons nonempty by (simp add: ReplaceAll.simps [of "c # r"] Join_Cons)
      moreover have "s = Join ([] # ps) ValuePlaceholder" using s ps(1,2) by (simp add: Join_Cons)
      moreover have "list_all (\<lambda>p. any_placeholders p = []) ([] # ps)" using ps(3) by (simp add: any_placeholders.simps [of "[]"])
      ultimately show ?thesis by blast
    next
      case False
      have front: "placeholder_front s = None"
      proof (rule ccontr)
        assume "placeholder_front s \<noteq> None"
        then obtain n where "placeholder_front s = Some n" by blast
        then have "any_placeholders s = take n s # any_placeholders (drop n s)" using Cons by (simp add: any_placeholders.simps [of "c # r"])
        then have "take n s = ValuePlaceholder" using less.prems by simp
        then have "HasPrefix s ValuePlaceholder" unfolding HasPrefix_def by (metis append_take_drop_id append_eq_conv_conj)
        then show False using False by simp
      qed
      then have "any_placeholders s = any_placeholders r" using Cons by (simp add: any_placeholders.simps [of "c # r"])
      then have "list_all (\<lambda>m. m = ValuePlaceholder) (any_placeholders r)" using less.prems by simp
      moreover have "length r < length s" using Cons by simp
      ultimately obtain ps where ps: "ps \<noteq> []" "r = Join ps ValuePlaceholder" "list_all (\<lambda>p. any_placeholders p = []) ps"
        "\<forall>t. ReplaceAll r ValuePlaceholder t = Join ps t" using less.hyps by blast
      obtain q qs where q: "ps = q # qs" using ps(1) by (cases ps) auto
      have join: "Join ((c # q) # qs) sep = c # Join (q # qs) sep" for sep by (cases qs) simp_all
      have "\<exists>rest. s = (c # q) @ rest" using Cons ps(2) q by (cases qs) auto
      then obtain rest where "s = (c # q) @ rest" by blast
      then have "placeholder_front (c # q) = None"
        using front placeholder_front_append [of "c # q" _ rest] by (cases "placeholder_front (c # q)") auto
      then have "any_placeholders (c # q) = []" using ps(3) q by (simp add: any_placeholders.simps [of "c # q"])
      moreover have "ReplaceAll s ValuePlaceholder t = Join ((c # q) # qs) t" for t
        using ps(4) q False Cons join by (simp add: ReplaceAll.simps [of "c # r"])
      moreover have "s = Join ((c # q) # qs) ValuePlaceholder" using Cons ps(2) q join by simp
      ultimately show ?thesis using ps(3) q by (intro exI [of _ "(c # q) # qs"]) simp
    qed
  qed
qed

lemma valid_template:
  assumes "validateBindingTemplate template = None"
  obtains ps where "template_pieces template ps" "\<And>t. ReplaceAll template ValuePlaceholder t = Join ps t"
proof -
  have has: "Contains template ValuePlaceholder" and "list_all (\<lambda>m. m = ValuePlaceholder) (any_placeholders template)"
    using assms by (auto simp: validateBindingTemplate_def list_all_iff list_ex_iff split: if_splits)
  then obtain ps where ps: "ps \<noteq> []" "template = Join ps ValuePlaceholder" "list_all (\<lambda>p. any_placeholders p = []) ps"
    "\<forall>t. ReplaceAll template ValuePlaceholder t = Join ps t" using pieces_exist by blast
  have "2 \<le> length ps"
  proof (rule ccontr)
    assume "\<not> 2 \<le> length ps"
    then obtain p where "ps = [p]" using ps(1) by (cases ps; cases "tl ps") auto
    then show False using none_free has ps(2,3) by simp
  qed
  then show thesis using that ps unfolding template_pieces_def by blast
qed

text \<open>The text a binding stands for, and the invariant of the loop over the bindings.\<close>

definition bound_text :: "(string, any) gomap \<Rightarrow> StartupBinding \<Rightarrow> string \<Rightarrow> bool" where
  "bound_text vals b r \<longleftrightarrow>
     (\<exists>x s pieces. mget vals (bnd_Variable b) = Some x \<and> RenderScalar x = Some s \<and> \<not> has_control s
        \<and> template_pieces (bnd_Template b) pieces \<and> r = Join pieces s)"

definition argument_source ::
  "(string, any) gomap \<Rightarrow> string list \<Rightarrow> StartupBinding list \<Rightarrow> string \<Rightarrow> string \<Rightarrow> bool" where
  "argument_source vals secrets bs v r \<longleftrightarrow>
     v \<notin> set secrets \<and> (\<exists>b \<in> set bs. bnd_Target b = ''argument'' \<and> bnd_Variable b = v \<and> bound_text vals b r)"

definition environment_source ::
  "(string, any) gomap \<Rightarrow> string list \<Rightarrow> StartupBinding list \<Rightarrow> EnvironmentVariable \<Rightarrow> bool" where
  "environment_source vals secrets bs ev \<longleftrightarrow> startupVariableIdentifier (ev_Name ev) \<and>
     (\<exists>b \<in> set bs. bnd_Target b = ''environment'' \<and> bnd_Name b = ev_Name ev \<and> bound_text vals b (ev_Value ev)
        \<and> (ev_Secret ev \<longleftrightarrow> bnd_Variable b \<in> set secrets))"

definition file_source ::
  "(string, any) gomap \<Rightarrow> string list \<Rightarrow> StartupBinding list \<Rightarrow> ConfigurationFile \<Rightarrow> bool" where
  "file_source vals secrets bs f \<longleftrightarrow> NormalizeRelative (cf_Path f) = Inr (cf_Path f) \<and> cf_Path f \<noteq> [] \<and>
     (\<exists>b \<in> set bs. bnd_Target b = ''file'' \<and> bnd_Path b = cf_Path f \<and> bound_text vals b (cf_Content f)
        \<and> (cf_Secret f \<longleftrightarrow> bnd_Variable b \<in> set secrets))"

definition render_inv ::
  "(string, any) gomap \<Rightarrow> string list \<Rightarrow> StartupBinding list \<Rightarrow> render_state \<Rightarrow> bool" where
  "render_inv vals secrets bs st \<longleftrightarrow>
     (\<forall>v r. mget (rst_arguments st) v = Some r \<longrightarrow> argument_source vals secrets bs v r) \<and>
     distinct (map ev_Name (rst_environment st)) \<and> distinct (map cf_Path (rst_files st)) \<and>
     list_all (environment_source vals secrets bs) (rst_environment st) \<and>
     list_all (file_source vals secrets bs) (rst_files st)"

lemma binding_path_canonical: "NormalizeBindingPath p = Some q \<Longrightarrow> q = p \<and> NormalizeRelative q = Inr q \<and> q \<noteq> []"
  by (auto simp: NormalizeBindingPath_def split: if_splits sum.splits)

lemma renderBinding_text:
  assumes "validateBindingTemplate (bnd_Template b) = None" "mget vals (bnd_Variable b) = Some x"
    and "renderBinding (bnd_Template b) x = Inr r"
  shows "bound_text vals b r"
proof -
  obtain s where s: "RenderScalar x = Some s" "\<not> has_control s" "r = ReplaceAll (bnd_Template b) ValuePlaceholder s"
    using assms(3) by (auto simp: renderBinding_def split: option.splits if_splits)
  from assms(1) obtain ps where "template_pieces (bnd_Template b) ps" "ReplaceAll (bnd_Template b) ValuePlaceholder s = Join ps s"
    by (rule valid_template) blast
  then show ?thesis unfolding bound_text_def using assms(2) s by metis
qed

lemma render_one_inv:
  assumes "render_one vals secrets b st = Inr st'" "b \<in> set bs" "render_inv vals secrets bs st"
  shows "render_inv vals secrets bs st'"
proof (cases "mget vals (bnd_Variable b)")
  case None
  with assms(1) have "st' = st"
    by (auto simp: render_one_def Let_def split: if_splits option.splits)
  with assms(3) show ?thesis by simp
next
  case (Some x)
  with assms(1) obtain r where r: "renderBinding (bnd_Template b) x = Inr r" and valid: "validateBindingTemplate (bnd_Template b) = None"
    and t: "render_target (bnd_Variable b \<in> set secrets) r b st = Inr st'"
    and sec: "bnd_Target b = ''argument'' \<longrightarrow> bnd_Variable b \<notin> set secrets"
    by (auto simp: render_one_def Let_def split: if_splits option.splits sum.splits)
  note bound = renderBinding_text [OF valid Some r]
  consider "bnd_Target b = ''argument''" | "bnd_Target b = ''environment''" | "bnd_Target b = ''file''"
    using t by (auto simp: render_target_def split: if_splits)
  then show ?thesis
  proof cases
    case 1
    with t have "st' = st\<lparr>rst_arguments := mput (bnd_Variable b) r (rst_arguments st)\<rparr>"
      by (auto simp: render_target_def split: if_splits)
    moreover have "argument_source vals secrets bs (bnd_Variable b) r"
      unfolding argument_source_def using 1 sec assms(2) bound by blast
    ultimately show ?thesis using assms(3) by (auto simp: render_inv_def)
  next
    case 2
    let ?ev = "\<lparr>ev_Name = bnd_Name b, ev_Value = r, ev_Secret = bnd_Variable b \<in> set secrets\<rparr>"
    from 2 t have st': "st' = st\<lparr>rst_environment := rst_environment st @ [?ev]\<rparr>" "startupVariableIdentifier (bnd_Name b)"
      "bnd_Name b \<notin> set (map ev_Name (rst_environment st))"
      by (auto simp: render_target_def split: if_splits)
    have "environment_source vals secrets bs ?ev"
      unfolding environment_source_def using 2 st'(2) assms(2) bound by auto
    then show ?thesis using st' assms(3) by (simp add: render_inv_def)
  next
    case 3
    with t obtain p where p: "NormalizeBindingPath (bnd_Path b) = Some p" "p \<notin> set (map cf_Path (rst_files st))"
        "st' = st\<lparr>rst_files := rst_files st @ [\<lparr>cf_Path = p, cf_Content = r, cf_Secret = bnd_Variable b \<in> set secrets\<rparr>]\<rparr>"
      by (auto simp: render_target_def split: if_splits option.splits)
    have "file_source vals secrets bs \<lparr>cf_Path = p, cf_Content = r, cf_Secret = bnd_Variable b \<in> set secrets\<rparr>"
      unfolding file_source_def using 3 binding_path_canonical [OF p(1)] assms(2) bound by auto
    then show ?thesis using p assms(3) by (simp add: render_inv_def)
  qed
qed

lemma render_bindings_inv:
  "render_bindings vals secrets cs st = Inr st' \<Longrightarrow> set cs \<subseteq> set bs \<Longrightarrow> render_inv vals secrets bs st \<Longrightarrow>
   render_inv vals secrets bs st'"
  by (induction cs arbitrary: st) (auto split: sum.splits intro: render_one_inv)

text \<open>C40: a rendered startup has exactly one argument for every argument of the template; each is
  the template's own argument without any placeholder, or the text of an argument binding of a
  variable that is not secret. Every environment entry and every file is the text of a binding of its
  name or path, and marked secret exactly when the variable of the binding is. The text of a binding is
  its template with every placeholder replaced by the variable's value: literal pieces without any
  placeholder around one or more copies of the value, which contains no control character. The
  environment names and the file paths are distinct, the names are identifiers, and every file path is
  a canonical relative path below the data root.\<close>

theorem RenderStartup_sound:
  assumes "RenderStartup executable args bindings vals secrets = Some (Inr rendered)"
  shows "list_all2 (\<lambda>a r. (any_placeholders a = [] \<and> r = a) \<or>
             (\<exists>v. parseArgumentPlaceholder a = Some (Some v) \<and> argument_source vals secrets bindings v r))
           args (ren_Args rendered) \<and>
    list_all (environment_source vals secrets bindings) (ren_Environment rendered) \<and>
    list_all (file_source vals secrets bindings) (ren_Files rendered) \<and>
    distinct (map ev_Name (ren_Environment rendered)) \<and> distinct (map cf_Path (ren_Files rendered))"
proof -
  let ?st0 = "\<lparr>rst_arguments = [], rst_environment = [], rst_files = []\<rparr>"
  from assms obtain st rs used where st: "render_bindings vals secrets bindings ?st0 = Inr st"
      and ra: "render_args (rst_arguments st) args = Some (Inr (rs, used))"
      and r: "ren_Args rendered = rs" "ren_Environment rendered = rst_environment st"
        "ren_Files rendered = rst_files st"
    by (auto simp: RenderStartup_def renderArguments_def split: sum.splits option.splits if_splits prod.splits)
  have "render_inv vals secrets bindings ?st0" by (simp add: render_inv_def)
  from render_bindings_inv [OF st subset_refl this] have inv: "render_inv vals secrets bindings st" .
  then have "list_all2 (\<lambda>a r. (any_placeholders a = [] \<and> r = a) \<or>
             (\<exists>v. parseArgumentPlaceholder a = Some (Some v) \<and> argument_source vals secrets bindings v r)) args rs"
    using render_args_resolves [OF ra]
    by (auto simp: resolves_def render_inv_def elim!: list_all2_mono)
  with inv r show ?thesis by (simp add: render_inv_def)
qed

definition sample_bindings :: "StartupBinding list" where
  "sample_bindings =
     [\<lparr>bnd_Variable = ''memory_mb'', bnd_Target = ''argument'', bnd_Name = [], bnd_Path = [], bnd_Template = ''-Xmx{{ value }}M''\<rparr>,
      \<lparr>bnd_Variable = ''key'', bnd_Target = ''environment'', bnd_Name = ''KEY'', bnd_Path = [], bnd_Template = ''{{ value }}''\<rparr>]"

lemma sample_render:
  "RenderStartup ''java'' [''{{ memory_mb }}'', ''nogui''] sample_bindings
     [(''memory_mb'', AnyInt 512), (''key'', AnyString ''x'')] [''key''] =
   Some (Inr \<lparr>ren_Executable = ''java'', ren_Args = [''-Xmx512M'', ''nogui''],
     ren_Environment = [\<lparr>ev_Name = ''KEY'', ev_Value = ''x'', ev_Secret = True\<rparr>], ren_Files = []\<rparr>)"
  by code_simp

theorem RenderStartup_sound_witness:
  "\<exists>rendered. RenderStartup ''java'' [''{{ memory_mb }}'', ''nogui''] sample_bindings
     [(''memory_mb'', AnyInt 512), (''key'', AnyString ''x'')] [''key''] = Some (Inr rendered) \<and>
     distinct (map ev_Name (ren_Environment rendered)) \<and> ren_Args rendered = [''-Xmx512M'', ''nogui'']"
  using RenderStartup_sound [OF sample_render] sample_render by simp

text \<open>the renderer panics exactly on the argument \<^verbatim>\<open>{{ }}\<close>: the prefix and the suffix of
  the placeholder syntax overlap there and the slice between them is inverted. A bundle with this
  argument and no binding takes the process down instead of being refused.\<close>

theorem RenderStartup_panics:
  "(RenderStartup executable args bindings vals secrets = None \<longrightarrow> ''{{ }}'' \<in> set args) \<and>
   RenderStartup executable (''{{ }}'' # args) [] vals secrets = None"
proof -
  have "parseArgumentPlaceholder ''{{ }}'' = None" by (simp only: parse_panics)
  then have "RenderStartup executable (''{{ }}'' # args) [] vals secrets = None"
    by (simp add: RenderStartup_def renderArguments_def)
  moreover have "''{{ }}'' \<in> set args" if "RenderStartup executable args bindings vals secrets = None"
    using that render_args_panic
    by (auto simp: RenderStartup_def renderArguments_def split: sum.splits option.splits if_splits)
  ultimately show ?thesis by blast
qed

theorem RenderStartup_panics_witness:
  "RenderStartup ''java'' [''nogui'', ''{{ }}''] [] [] [] = None \<and> ''{{ }}'' \<in> set [''nogui'', ''{{ }}'']"
proof -
  have "RenderStartup ''java'' [''nogui'', ''{{ }}''] [] [] [] = None" by code_simp
  with RenderStartup_panics [of "''java''" "[''nogui'', ''{{ }}'']" "[]" "[]" "[]"] show ?thesis by blast
qed

end
