(* ===== verification/Console_Hub.thy ===== *)
theory Console_Hub
  imports Domain_Model
begin

text \<open>
  The in-process subscription hub for live console lines
  (\<^verbatim>\<open>internal/store/console_hub.go\<close>). A buffered channel is the list of the lines a subscriber
  has not received yet; sending to a full channel drops the oldest line first. The cancel function
  that \<open>Subscribe\<close> returns is \<open>cancel_subscription\<close> at the subscription's identifier.
\<close>

record consoleHub =
  subs :: "(string, (nat, ConsoleLine list) gomap) gomap"
  nextID :: nat
  buffered :: nat

definition consoleHubBuffer :: nat where
  "consoleHubBuffer = 256"

definition newConsoleHub :: consoleHub where
  "newConsoleHub = \<lparr>subs = [], nextID = 0, buffered = consoleHubBuffer\<rparr>"

definition server_subs :: "consoleHub \<Rightarrow> string \<Rightarrow> (nat, ConsoleLine list) gomap" where
  "server_subs h serverID = mget_zero [] (subs h) serverID"

text \<open>The identifier is a \<^verbatim>\<open>uint64\<close> counter.\<close>

definition Subscribe :: "string \<Rightarrow> consoleHub \<Rightarrow> nat \<times> consoleHub" where
  "Subscribe serverID h =
     (let i = (nextID h + 1) mod 2 ^ 64
      in (i, h\<lparr>nextID := i, subs := mput serverID (mput i [] (server_subs h serverID)) (subs h)\<rparr>))"

definition cancel_subscription :: "string \<Rightarrow> nat \<Rightarrow> consoleHub \<Rightarrow> consoleHub" where
  "cancel_subscription serverID i h =
     (if \<not> mhas (server_subs h serverID) i then h
      else
        let rest = mdel i (server_subs h serverID)
        in h\<lparr>subs := (if rest = [] then mdel serverID (subs h) else mput serverID rest (subs h))\<rparr>)"

text \<open>The three nested \<^verbatim>\<open>select\<close> statements: send, or drop the oldest line and send again.\<close>

definition hub_send :: "nat \<Rightarrow> ConsoleLine list \<Rightarrow> ConsoleLine \<Rightarrow> ConsoleLine list" where
  "hub_send cap ch line =
     (if length ch < cap then ch @ [line]
      else
        let ch' = (case ch of [] \<Rightarrow> [] | _ # rest \<Rightarrow> rest)
        in if length ch' < cap then ch' @ [line] else ch')"

definition Publish :: "string \<Rightarrow> ConsoleLine list \<Rightarrow> consoleHub \<Rightarrow> consoleHub" where
  "Publish serverID lines h =
     (if lines = [] then h
      else
        (case mget (subs h) serverID of
           None \<Rightarrow> h
         | Some m \<Rightarrow>
             h\<lparr>subs := mput serverID (mmap (\<lambda>_ ch. foldl (hub_send (buffered h)) ch lines) m) (subs h)\<rparr>))"

text \<open>The buffer of a subscription, and the consumer taking one line out of it.\<close>

definition buffer_of :: "consoleHub \<Rightarrow> string \<Rightarrow> nat \<Rightarrow> ConsoleLine list option" where
  "buffer_of h serverID i = mget (server_subs h serverID) i"

definition hub_receive :: "string \<Rightarrow> nat \<Rightarrow> consoleHub \<Rightarrow> consoleHub" where
  "hub_receive serverID i h =
     (case buffer_of h serverID i of
        Some (_ # rest) \<Rightarrow> h\<lparr>subs := mput serverID (mput i rest (server_subs h serverID)) (subs h)\<rparr>
      | _ \<Rightarrow> h)"

section \<open>The bounded window\<close>

definition window :: "nat \<Rightarrow> 'a list \<Rightarrow> 'a list" where
  "window n xs = drop (length xs - n) xs"

lemma length_window [simp]: "length (window n xs) = min (length xs) n"
  by (simp add: window_def)

lemma window_short: "length xs \<le> n \<Longrightarrow> window n xs = xs"
  by (simp add: window_def)

lemma window_append: "window n (window n xs @ ys) = window n (xs @ ys)"
proof (cases "length xs \<le> n")
  case False
  then show ?thesis
    by (cases "length ys \<le> n") (simp_all add: window_def drop_append add.commute)
qed (simp add: window_short)

lemma hub_send_window:
  assumes "0 < cap" "length ch \<le> cap"
  shows "hub_send cap ch line = window cap (ch @ [line])"
  using assms by (cases ch) (auto simp: hub_send_def window_def Suc_diff_le)

lemma foldl_hub_send:
  assumes "0 < cap" "length ch \<le> cap"
  shows "foldl (hub_send cap) ch lines = window cap (ch @ lines)"
  using assms(2)
proof (induction lines arbitrary: ch)
  case (Cons l lines)
  with assms(1) window_append [of cap "ch @ [l]" lines] show ?case
    by (simp add: hub_send_window)
qed (simp add: window_short)

text \<open>The state of a hub: the capacity it was created with, full buffers at most.\<close>

definition hub_ok :: "consoleHub \<Rightarrow> bool" where
  "hub_ok h \<longleftrightarrow> buffered h = consoleHubBuffer \<and>
     (\<forall>s i ch. buffer_of h s i = Some ch \<longrightarrow> length ch \<le> consoleHubBuffer \<and> i \<le> nextID h)"

lemma server_subs_put [simp]:
  "server_subs (h\<lparr>subs := mput s m (subs h)\<rparr>) s' = (if s' = s then m else server_subs h s')"
  "server_subs (h\<lparr>nextID := i, subs := mput s m (subs h)\<rparr>) s' = (if s' = s then m else server_subs h s')"
  by (simp_all add: server_subs_def)

lemma server_subs_del [simp]:
  "server_subs (h\<lparr>subs := mdel s (subs h)\<rparr>) s' = (if s' = s then [] else server_subs h s')"
  by (simp add: server_subs_def mget_zero_def)

lemma buffer_of_Subscribe:
  "Subscribe s h = (i, h') \<Longrightarrow> buffer_of h' s' j = (if s' = s \<and> j = i then Some [] else buffer_of h s' j)"
  by (auto simp: Subscribe_def Let_def buffer_of_def)

lemma buffer_of_cancel:
  "buffer_of (cancel_subscription s i h) s' j = (if s' = s \<and> j = i then None else buffer_of h s' j)"
proof (cases "mhas (server_subs h s) i")
  case True
  let ?rest = "mdel i (server_subs h s)"
  have rest: "mget ?rest j = (if j = i then None else buffer_of h s j)"
    by (simp add: buffer_of_def)
  show ?thesis
  proof (cases "?rest = []")
    case nil: True
    with rest have "j \<noteq> i \<Longrightarrow> buffer_of h s j = None" by (metis mget_Nil)
    with True nil show ?thesis by (auto simp: cancel_subscription_def buffer_of_def)
  next
    case False
    with True rest show ?thesis by (auto simp: cancel_subscription_def buffer_of_def Let_def)
  qed
next
  case False
  then show ?thesis by (auto simp: cancel_subscription_def buffer_of_def mhas_def)
qed

lemma buffer_of_Publish:
  assumes "hub_ok h"
  shows "buffer_of (Publish s lines h) s' j =
     (if s' = s then map_option (\<lambda>ch. window consoleHubBuffer (ch @ lines)) (buffer_of h s' j)
      else buffer_of h s' j)"
proof -
  have w: "foldl (hub_send (buffered h)) ch lines = window consoleHubBuffer (ch @ lines)"
    if "buffer_of h s j = Some ch" for ch
    using assms that foldl_hub_send [of consoleHubBuffer ch lines]
    by (auto simp: hub_ok_def consoleHubBuffer_def)
  show ?thesis
  proof (cases "lines = []")
    case True
    then show ?thesis using assms
      by (cases "buffer_of h s' j") (auto simp: Publish_def hub_ok_def window_short)
  next
    case False
    show ?thesis
    proof (cases "mget (subs h) s")
      case None
      then show ?thesis by (simp add: Publish_def buffer_of_def server_subs_def mget_zero_def)
    next
      case (Some m)
      then have "buffer_of h s j = mget m j" by (simp add: buffer_of_def server_subs_def mget_zero_def)
      with w Some False show ?thesis
        by (cases "mget m j") (simp_all add: Publish_def buffer_of_def)
    qed
  qed
qed

lemma buffer_of_receive:
  "buffer_of (hub_receive s i h) s' j = (if s' = s \<and> j = i then map_option tl (buffer_of h s i) else buffer_of h s' j)"
  by (auto simp: hub_receive_def buffer_of_def split: option.splits list.splits)

lemma hub_frame [simp]:
  "buffered (Publish s l h) = buffered h" "nextID (Publish s l h) = nextID h"
  "buffered (cancel_subscription s i h) = buffered h" "nextID (cancel_subscription s i h) = nextID h"
  "buffered (hub_receive s i h) = buffered h" "nextID (hub_receive s i h) = nextID h"
  "buffered (snd (Subscribe s h)) = buffered h"
  by (simp_all add: Publish_def Subscribe_def cancel_subscription_def hub_receive_def Let_def
      split: option.splits list.splits)

text \<open>Every call sequence of a hub whose identifier counter has not wrapped.\<close>

inductive hub_reach :: "consoleHub \<Rightarrow> bool" where
  new: "hub_reach newConsoleHub"
| subscribe: "hub_reach h \<Longrightarrow> nextID h < 2 ^ 64 - 1 \<Longrightarrow> Subscribe s h = (i, h') \<Longrightarrow> hub_reach h'"
| cancel: "hub_reach h \<Longrightarrow> hub_reach (cancel_subscription s i h)"
| publish: "hub_reach h \<Longrightarrow> hub_reach (Publish s lines h)"
| receive: "hub_reach h \<Longrightarrow> hub_reach (hub_receive s i h)"

lemma hub_reach_ok: "hub_reach h \<Longrightarrow> hub_ok h"
proof (induction rule: hub_reach.induct)
  case new
  show ?case by (simp add: hub_ok_def newConsoleHub_def buffer_of_def server_subs_def mget_zero_def)
next
  case (subscribe h s i h')
  from subscribe.hyps have "nextID h' = nextID h + 1" "i = nextID h + 1" "buffered h' = buffered h"
    by (auto simp: Subscribe_def Let_def)
  with subscribe.IH buffer_of_Subscribe [OF subscribe.hyps(3)] show ?case
    by (fastforce simp: hub_ok_def split: if_splits)
next
  case (cancel h s i)
  then show ?case by (auto simp: hub_ok_def buffer_of_cancel split: if_splits)
next
  case (publish h s lines)
  then show ?case
    by (auto simp: hub_ok_def buffer_of_Publish [OF publish.IH] split: if_splits)
next
  case (receive h s i)
  then show ?case by (fastforce simp: hub_ok_def buffer_of_receive split: if_splits)
qed

section \<open>Properties\<close>

text \<open>in every reachable state of the hub a publication gives each subscriber of that server
  exactly the newest 256 lines of what it had not received followed by the published lines, in
  order; subscribers of other servers see nothing, nobody is subscribed or dropped, and a new
  subscription starts empty without disturbing another one.\<close>

theorem Publish_newest_window:
  assumes "hub_reach h" "nextID h < 2 ^ 64 - 1" "Subscribe s h = (i, h')"
  shows "buffer_of (Publish s lines h') s i = Some (window 256 lines) \<and>
    (\<forall>j ch. buffer_of h s j = Some ch \<longrightarrow>
       j \<noteq> i \<and> buffer_of (Publish s lines h') s j = Some (window 256 (ch @ lines))) \<and>
    (\<forall>s2 j. s2 \<noteq> s \<longrightarrow> buffer_of (Publish s lines h') s2 j = buffer_of h s2 j)"
proof -
  have ok: "hub_ok h" "hub_ok h'" using assms hub_reach.subscribe hub_reach_ok by blast+
  have "i = nextID h + 1" using assms(2,3) by (auto simp: Subscribe_def Let_def)
  then have "j \<noteq> i" if "buffer_of h s j = Some ch" for j ch
    using that ok(1) by (fastforce simp: hub_ok_def)
  with buffer_of_Publish [OF ok(2), of s lines] buffer_of_Subscribe [OF assms(3)]
  show ?thesis by (auto simp: consoleHubBuffer_def)
qed

theorem Publish_newest_window_witness:
  "\<exists>h'. Subscribe ''s'' newConsoleHub = (1, h') \<and>
     buffer_of (Publish ''s'' [\<lparr>cl_Sequence = 7, cl_Timestamp = 0, cl_Stream = ''stdout'', cl_Message = ''hi''\<rparr>] h') ''s'' 1
       = Some [\<lparr>cl_Sequence = 7, cl_Timestamp = 0, cl_Stream = ''stdout'', cl_Message = ''hi''\<rparr>]"
proof -
  obtain h' where h: "Subscribe ''s'' newConsoleHub = (1, h')"
    by (simp add: Subscribe_def newConsoleHub_def Let_def)
  have "nextID newConsoleHub < 2 ^ 64 - 1" by (simp add: newConsoleHub_def)
  from Publish_newest_window [OF hub_reach.new this h] h show ?thesis by (auto simp: window_def)
qed

end
