(* ===== verification/Memory_Store.thy ===== *)
theory Memory_Store
  imports Startup_Bundle Console_Hub
begin

text \<open>
  The state of the in-memory store (\<^verbatim>\<open>internal/store/memory.go\<close>) and the parts every component
  uses: the audit log, node liveness, idempotency records, operation metadata and the exclusive
  operation of a server (\<^verbatim>\<open>node_liveness.go\<close>, \<^verbatim>\<open>operations.go\<close>).

  A method of \<^verbatim>\<open>*Memory\<close> is a function on the record \<open>Memory\<close>. The code between
  \<^verbatim>\<open>m.mu.Lock()\<close> and \<^verbatim>\<open>m.mu.Unlock()\<close> is one definition, a method with several critical
  sections is their composition; the mutex itself, the sleeping times and the file gates have no
  counterpart. The record \<open>lib\<close> holds the cryptographic and parsing functions the store calls;
  \<open>env\<close> holds the clock readings and the random identifiers and tokens of one call.
\<close>

section \<open>Libraries the store calls\<close>

text \<open>The values that are digested for idempotency.\<close>

datatype request =
    ReqCreateServer CreateServerInput
  | ReqPower PowerAction
  | ReqEmpty
  | ReqBackup string
  | ReqAllocationCreate int CreateAllocationInput
  | ReqAllocation int string
  | ReqStartup int "(string, any) gomap"

record lib =
  sha256 :: "string \<Rightarrow> string"
  hmac_sha256 :: "string \<Rightarrow> string \<Rightarrow> string"
  json_marshal :: "request \<Rightarrow> string"
  verify_password :: "string \<Rightarrow> string \<Rightarrow> bool option"
  hash_password :: "string \<Rightarrow> string option"
  parse_address :: "string \<Rightarrow> string option"
  parse_ip :: "string \<Rightarrow> (string \<times> bool) option"
  format_stamp :: "gotime \<Rightarrow> string"
  uni_lower :: "string \<Rightarrow> string"
  codec :: bundle_codec

section \<open>The state (memory.go)\<close>

record idempotencyRecord =
  ir_OperationID :: string
  ir_RequestDigest :: string

record storedUser =
  su_User :: User
  su_PasswordPHC :: string

record passwordResetRecord =
  prr_UserID :: string
  prr_ExpiresAt :: gotime

record memoryAPITokenRecord =
  mat_Token :: APIToken
  mat_UserID :: string

record Memory =
  m_environment :: string
  m_adminPasswordPHC :: string
  m_agentToken :: string
  m_requestDigestKey :: string
  m_runtimeAdapter :: bool
  m_users :: "(string, storedUser) gomap"
  m_userOrder :: "string list"
  m_userByEmail :: "(string, string) gomap"
  m_sessions :: "(string, Session) gomap"
  m_memberships :: "(string, (string, ServerMembership) gomap) gomap"
  m_passwordResetTokens :: "(string, passwordResetRecord) gomap"
  m_apiTokens :: "(string, memoryAPITokenRecord) gomap"
  m_apiTokenByDigest :: "(string, string) gomap"
  m_consoleTokens :: "(string, ConsoleConnectionPrincipal) gomap"
  m_setupRequired :: bool
  m_bootstrapToken :: string
  m_bootstrapExpiresAt :: gotime
  m_servers :: "(string, Server) gomap"
  m_serverOrder :: "string list"
  m_allocations :: "(string, Allocation) gomap"
  m_allocationOrder :: "(string, string list) gomap"
  m_startups :: "(string, Startup) gomap"
  m_startupValues :: "(string, (string, any) gomap) gomap"
  m_nodes :: "(string, Node) gomap"
  m_nodeOrder :: "string list"
  m_revokedNodes :: "(string, bool) gomap"
  m_enrollmentTokens :: "(string, gotime) gomap"
  m_games :: "(string, GameDefinition) gomap"
  m_gameOrder :: "string list"
  m_operations :: "(string, Operation) gomap"
  m_idempotency :: "(string, idempotencyRecord) gomap"
  m_audit :: "AuditEvent list"
  m_console :: "(string, ConsoleLine list) gomap"
  m_consoleHub :: consoleHub
  m_fileSystems :: "string list"
  m_backups :: "(string, Backup list) gomap"
  m_backupChecksums :: "(string, string) gomap"
  m_backupOperations :: "(string, string) gomap"
  m_backupDeleteFrom :: "(string, string) gomap"

definition tokenDigest :: "lib \<Rightarrow> string \<Rightarrow> string" where
  "tokenDigest L token = sha256 L token"

definition sessionTokenDigest :: "lib \<Rightarrow> string \<Rightarrow> string" where
  "sessionTokenDigest L token = sha256 L (''gugumanager:session:v2:'' @ [CHR 0x00] @ token)"

definition recordAuditLocked ::
  "string \<Rightarrow> gotime \<Rightarrow> string \<Rightarrow> string \<Rightarrow> string \<Rightarrow> string \<Rightarrow> string \<Rightarrow> string \<Rightarrow> Memory \<Rightarrow> Memory" where
  "recordAuditLocked eventID now actor action targetType targetName res operationID m =
     m\<lparr>m_audit := \<lparr>ae_ID = eventID, ae_ActorName = actor, ae_Action = action, ae_TargetType = targetType,
         ae_TargetName = targetName, ae_Result = res, ae_OperationID = operationID, ae_CreatedAt = now\<rparr> # m_audit m\<rparr>"

section \<open>Node liveness (node_liveness.go)\<close>

definition nodeOfflineAfter :: duration where
  "nodeOfflineAfter = 30 * second"

text \<open>The test of one node, and what the loop does to the nodes and their servers. The node map is
  keyed by the node identifier, so a node is visited once.\<close>

definition node_expired :: "gotime \<Rightarrow> Node \<Rightarrow> bool" where
  "node_expired now node =
     (n_Condition node \<noteq> ''maintenance'' \<and>
      \<not> (n_LastHeartbeatAt node \<noteq> 0 \<and> now < n_LastHeartbeatAt node + nodeOfflineAfter))"

definition reconcileNodeLivenessLocked :: "gotime \<Rightarrow> Memory \<Rightarrow> Memory" where
  "reconcileNodeLivenessLocked now m =
     m\<lparr>m_nodes := mmap (\<lambda>_ node. if node_expired now node then node\<lparr>n_Condition := ''offline''\<rparr> else node) (m_nodes m),
       m_servers := mmap (\<lambda>_ server.
          if (case mget (m_nodes m) (srv_NodeID server) of None \<Rightarrow> False | Some node \<Rightarrow> node_expired now node)
          then server\<lparr>srv_NodeCondition := ''offline''\<rparr> else server) (m_servers m)\<rparr>"

section \<open>Reads (memory.go)\<close>

text \<open>The zero values an index expression yields for an absent key.\<close>

definition zero_metrics :: ResourceMetrics where
  "zero_metrics = \<lparr>rm_CPUPercent = Fin 0 0, rm_MemoryBytes = 0, rm_MemoryLimit = 0, rm_DiskBytes = 0,
     rm_DiskLimit = 0, rm_NetworkRxBytes = 0, rm_NetworkTxBytes = 0, rm_PlayersOnline = 0, rm_PlayersCapacity = 0\<rparr>"

definition zero_server :: Server where
  "zero_server = \<lparr>srv_ID = [], srv_Name = [], srv_Description = [], srv_GameID = [], srv_GameBundleDigest = [],
     srv_GameDefinitionVersion = [], srv_GameName = [], srv_GameVersion = [], srv_NodeID = [], srv_NodeName = [],
     srv_LifecycleState = [], srv_DesiredPower = [], srv_ObservedPower = [], srv_NodeCondition = [],
     srv_HealthCondition = [], srv_Generation = 0, srv_ObservedGeneration = 0, srv_ObservedAt = 0,
     srv_Allocation = [], srv_OwnerName = [], srv_Metrics = zero_metrics, srv_MetricHistory = [],
     srv_Metadata = [], srv_UpdatedAt = 0\<rparr>"

definition zero_node :: Node where
  "zero_node = \<lparr>n_ID = [], n_Name = [], n_Condition = [], n_Version = [], n_Region = [], n_Architecture = [],
     n_Draining = False, n_DrainReason = [], n_Address = [], n_LastHeartbeatAt = 0, n_CPUCores = 0,
     n_MemoryBytes = 0, n_DiskBytes = 0, n_AllocatedMemoryBytes = 0, n_AllocatedDiskBytes = 0,
     n_RunningServers = 0, n_TotalServers = 0, n_Capabilities = []\<rparr>"

definition server_matches :: "lib \<Rightarrow> string \<Rightarrow> Server \<Rightarrow> bool" where
  "server_matches L query server =
     (query = [] \<or>
      Contains (ToLower (uni_lower L) (srv_Name server @ '' '' @ srv_GameName server @ '' '' @ srv_NodeName server)) query)"

definition Servers :: "lib \<Rightarrow> gotime \<Rightarrow> string \<Rightarrow> Memory \<Rightarrow> Server list \<times> Memory" where
  "Servers L now query m0 =
     (let m = reconcileNodeLivenessLocked now m0;
          q = ToLower (uni_lower L) (TrimSpace query)
      in (filter (server_matches L q) (map (mget_zero zero_server (m_servers m)) (m_serverOrder m)), m))"

definition get_server :: "gotime \<Rightarrow> string \<Rightarrow> Memory \<Rightarrow> Server result \<times> Memory" where
  "get_server now serverID m0 =
     (let m = reconcileNodeLivenessLocked now m0
      in (case mget (m_servers m) serverID of
            None \<Rightarrow> Inl (NewProblem ''NOT_FOUND'' False) | Some server \<Rightarrow> Inr server, m))"

definition Nodes :: "gotime \<Rightarrow> Memory \<Rightarrow> Node list \<times> Memory" where
  "Nodes now m0 =
     (let m = reconcileNodeLivenessLocked now m0
      in (map (mget_zero zero_node (m_nodes m))
            (filter (\<lambda>i. \<not> mget_zero False (m_revokedNodes m) i) (m_nodeOrder m)), m))"

definition Console :: "gotime \<Rightarrow> string \<Rightarrow> Memory \<Rightarrow> ConsoleLine list result \<times> Memory" where
  "Console now serverID m0 =
     (case get_server now serverID m0 of
        (Inl err, m) \<Rightarrow> (Inl err, m)
      | (Inr _, m) \<Rightarrow> (Inr (mget_zero [] (m_console m) serverID), m))"

definition Backups :: "gotime \<Rightarrow> string \<Rightarrow> Memory \<Rightarrow> Backup list result \<times> Memory" where
  "Backups now serverID m0 =
     (case get_server now serverID m0 of
        (Inl err, m) \<Rightarrow> (Inl err, m)
      | (Inr _, m) \<Rightarrow> (Inr (filter (\<lambda>b. b_Status b \<noteq> ''deleted'') (mget_zero [] (m_backups m) serverID)), m))"

section \<open>Idempotency (operations.go)\<close>

definition validateIdempotencyKey :: "string \<Rightarrow> problem option" where
  "validateIdempotencyKey key =
     (if length key < 16 \<or> length key > 128 then Some (NewProblem ''VALIDATION_FAILED'' False)
      else if list_ex (\<lambda>c. byte c < 0x20 \<or> byte c > 0x7E) key then Some (NewProblem ''VALIDATION_FAILED'' False)
      else None)"

definition requestDigest :: "lib \<Rightarrow> request \<Rightarrow> string" where
  "requestDigest L value = sha256 L (json_marshal L value)"

definition keyedRequestDigest :: "lib \<Rightarrow> string \<Rightarrow> request \<Rightarrow> string" where
  "keyedRequestDigest L key value = hmac_sha256 L key (json_marshal L value)"

definition idempotencyScope :: "string \<Rightarrow> string \<Rightarrow> string \<Rightarrow> string \<Rightarrow> string" where
  "idempotencyScope operation actor target key = Join [operation, actor, target, key] [CHR 0x00]"

definition idempotentOperationLocked :: "Memory \<Rightarrow> string \<Rightarrow> string \<Rightarrow> Operation option result" where
  "idempotentOperationLocked m scope digest =
     (case mget (m_idempotency m) scope of
        None \<Rightarrow> Inr None
      | Some rec \<Rightarrow>
          if ir_RequestDigest rec \<noteq> digest then Inl (NewProblem ''IDEMPOTENCY_KEY_REUSED'' False)
          else (case mget (m_operations m) (ir_OperationID rec) of
                  None \<Rightarrow> Inl (NewProblem ''INTERNAL_ERROR'' True)
                | Some operation \<Rightarrow> Inr (Some operation)))"

section \<open>Operations (operations.go)\<close>

definition isTerminalOperation :: "string \<Rightarrow> bool" where
  "isTerminalOperation status = (status = ''succeeded'' \<or> status = ''failed'')"

definition isExclusiveOperation :: "PowerAction \<Rightarrow> bool" where
  "isExclusiveOperation operationType =
     (operationType \<in> {''provision'', ''start'', ''stop'', ''restart'', ''kill'', ''backup'', ''restore'',
                       ''backup-delete'', ''delete'', ''reconcile''})"

definition blocks_server :: "string \<Rightarrow> Operation \<Rightarrow> bool" where
  "blocks_server serverID operation =
     (op_ServerID operation = serverID \<and> \<not> isTerminalOperation (op_Status operation) \<and>
      isExclusiveOperation (op_Type operation))"

definition activeExclusiveOperationLocked :: "Memory \<Rightarrow> string \<Rightarrow> Operation option" where
  "activeExclusiveOperationLocked m serverID = find (blocks_server serverID) (map snd (m_operations m))"

definition runningCheckpoint :: "PowerAction \<Rightarrow> string" where
  "runningCheckpoint operationType =
     (if operationType = ''provision'' then ''provisioning''
      else if operationType \<in> {''start'', ''stop'', ''restart'', ''kill''} then ''applying-power-state''
      else if operationType = ''backup'' then ''creating-backup''
      else if operationType = ''restore'' then ''restoring-backup''
      else if operationType = ''backup-delete'' then ''deleting-backup''
      else if operationType = ''reconcile'' then ''reconciling''
      else ''running'')"

definition normalizeOperationMetadata :: "Operation \<Rightarrow> Operation" where
  "normalizeOperationMetadata op0 =
     (let op1 = (if op_Attempt op0 < 1 then op0\<lparr>op_Attempt := 1\<rparr> else op0);
          op2 = (if op_MaxAttempts op1 < op_Attempt op1 then op1\<lparr>op_MaxAttempts := op_Attempt op1\<rparr> else op1);
          op3 = (if op_Checkpoint op2 = []
                 then op2\<lparr>op_Checkpoint :=
                   (if op_Status op2 = ''succeeded'' then ''completed''
                    else if op_Status op2 = ''failed'' then ''failed''
                    else if op_Status op2 = ''running'' then runningCheckpoint (op_Type op2)
                    else op_Status op2)\<rparr>
                 else op2);
          op4 = (if isTerminalOperation (op_Status op3)
                 then op3\<lparr>op_LeaseOwner := None, op_LeaseExpiresAt := None\<rparr> else op3)
      in if op_Status op4 = ''failed'' \<and> op_Error op4 = None
         then op4\<lparr>op_Error := Some \<lparr>oe_Code = ''OPERATION_FAILED'', oe_Retryable = False\<rparr>\<rparr> else op4)"

definition memoryOperationLeaseOwner :: string where
  "memoryOperationLeaseOwner = ''development-memory-worker''"

definition memoryOperationLeaseDuration :: duration where
  "memoryOperationLeaseDuration = 30 * second"

definition get_operation :: "string \<Rightarrow> Memory \<Rightarrow> Operation result \<times> Memory" where
  "get_operation operationID m =
     (case mget (m_operations m) operationID of
        None \<Rightarrow> (Inl (NewProblem ''NOT_FOUND'' False), m)
      | Some op0 \<Rightarrow>
          let operation = normalizeOperationMetadata op0
          in (Inr operation, m\<lparr>m_operations := mput operationID operation (m_operations m)\<rparr>))"

definition beginOperation :: "gotime \<Rightarrow> string \<Rightarrow> Memory \<Rightarrow> bool \<times> Memory" where
  "beginOperation now operationID m =
     (case mget (m_operations m) operationID of
        None \<Rightarrow> (False, m)
      | Some op0 \<Rightarrow>
          if isTerminalOperation (op_Status op0) then (False, m)
          else
            let op1 = normalizeOperationMetadata op0;
                operation = op1\<lparr>op_Status := ''running'',
                  op_Progress := (if op_Progress op1 < 5 then 5 else op_Progress op1),
                  op_Checkpoint := runningCheckpoint (op_Type op1),
                  op_LeaseOwner := Some memoryOperationLeaseOwner,
                  op_LeaseExpiresAt := Some (now + memoryOperationLeaseDuration),
                  op_Error := None, op_UpdatedAt := now\<rparr>
            in (True, m\<lparr>m_operations := mput operationID operation (m_operations m)\<rparr>))"

text \<open>The functions that finish an operation through a pointer return whether they did and the
  operation afterwards.\<close>

definition completeOperationLocked :: "gotime \<Rightarrow> Operation \<Rightarrow> bool \<times> Operation" where
  "completeOperationLocked now op0 =
     (let operation = normalizeOperationMetadata op0 in
      if isTerminalOperation (op_Status operation) then (False, operation)
      else (True, operation\<lparr>op_Status := ''succeeded'', op_Progress := 100, op_Checkpoint := ''completed'',
              op_LeaseOwner := None, op_LeaseExpiresAt := None, op_Error := None, op_UpdatedAt := now\<rparr>))"

definition failOperationLocked :: "OperationError \<Rightarrow> gotime \<Rightarrow> Operation \<Rightarrow> bool \<times> Operation" where
  "failOperationLocked failure now op0 =
     (let operation = normalizeOperationMetadata op0 in
      if isTerminalOperation (op_Status operation) then (False, operation)
      else (True, operation\<lparr>op_Status := ''failed'', op_Progress := 100, op_Checkpoint := ''failed'',
              op_LeaseOwner := None, op_LeaseExpiresAt := None, op_Error := Some failure, op_UpdatedAt := now\<rparr>))"

definition operationTargetsCurrentServer :: "Operation \<Rightarrow> Server option \<Rightarrow> bool" where
  "operationTargetsCurrentServer operation server =
     (case server of
        None \<Rightarrow> False
      | Some s \<Rightarrow> srv_Generation s = op_Generation operation \<and> srv_NodeID s = op_NodeID operation)"

definition staleError :: OperationError where
  "staleError = \<lparr>oe_Code = ''OPERATION_STALE'', oe_Retryable = False\<rparr>"

definition completeOperationForGenerationLocked ::
  "Server option \<Rightarrow> gotime \<Rightarrow> Operation \<Rightarrow> bool \<times> Operation" where
  "completeOperationForGenerationLocked server now operation =
     (if \<not> operationTargetsCurrentServer operation server then failOperationLocked staleError now operation
      else completeOperationLocked now operation)"

definition operationInProgress :: "Operation \<Rightarrow> problem" where
  "operationInProgress operation =
     (NewProblem ''OPERATION_IN_PROGRESS'' True)\<lparr>Details :=
        mput ''operationType'' (AnyString (op_Type operation))
          (mput ''operationId'' (AnyString (op_ID operation)) [])\<rparr>"

section \<open>Heartbeats (operations.go)\<close>

text \<open>The loop over the nodes stops at the first one with the name.\<close>

definition Heartbeat :: "gotime \<Rightarrow> string \<Rightarrow> string \<Rightarrow> Memory \<Rightarrow> problem option \<times> Memory" where
  "Heartbeat now nodeName agentVersion m =
     (case find (\<lambda>(_, node). n_Name node = nodeName) (m_nodes m) of
        None \<Rightarrow> (Some (NewProblem ''NOT_FOUND'' False), m)
      | Some (nodeID, node) \<Rightarrow>
          if mget_zero False (m_revokedNodes m) nodeID then (Some (NewProblem ''NOT_FOUND'' False), m)
          else
            (None,
             m\<lparr>m_nodes := mput nodeID (node\<lparr>n_Condition := ''available'', n_Version := agentVersion,
                  n_LastHeartbeatAt := now\<rparr>) (m_nodes m),
               m_servers := mmap (\<lambda>_ server. if srv_NodeID server = nodeID
                  then server\<lparr>srv_NodeCondition := ''available''\<rparr> else server) (m_servers m)\<rparr>))"

section \<open>Construction (memory.go)\<close>

text \<open>The store \<^verbatim>\<open>newMemoryAt\<close> builds before it loads the development catalog; \<open>None\<close> when
  the administrator password cannot be hashed. The two random values of the constructor are
  \<open>tok e 0\<close> (the stand-in password) and \<open>tok e 1\<close> (the digest key).\<close>

definition newMemoryAt :: "lib \<Rightarrow> env \<Rightarrow> string \<Rightarrow> string \<Rightarrow> string \<Rightarrow> string \<Rightarrow> Memory option" where
  "newMemoryAt L e environment adminEmail adminPassword agentToken =
     (case hash_password L (if adminPassword = [] then tok e 0 else adminPassword) of
        None \<Rightarrow> None
      | Some adminHash \<Rightarrow>
          let email = ToLower (uni_lower L) (TrimSpace adminEmail);
              now = clk e 0;
              admin = \<lparr>u_ID = ''00000000-0000-4000-8000-000000000001'', u_Email = email, u_DisplayName = ''GuGu Admin'',
                u_Roles = [''platform_admin''], u_Status = ''active'', u_CreatedAt = now, u_UpdatedAt = now\<rparr>;
              present = (email \<noteq> [] \<and> adminPassword \<noteq> [])
          in Some \<lparr>m_environment = environment, m_adminPasswordPHC = adminHash, m_agentToken = sha256 L agentToken,
               m_requestDigestKey = tok e 1, m_runtimeAdapter = False,
               m_users = (if present then [(u_ID admin, \<lparr>su_User = admin, su_PasswordPHC = adminHash\<rparr>)] else []),
               m_userOrder = (if present then [u_ID admin] else []),
               m_userByEmail = (if present then [(email, u_ID admin)] else []),
               m_sessions = [], m_memberships = [], m_passwordResetTokens = [], m_apiTokens = [],
               m_apiTokenByDigest = [], m_consoleTokens = [], m_setupRequired = False, m_bootstrapToken = replicate 32 (CHR 0x00),
               m_bootstrapExpiresAt = 0, m_servers = [], m_serverOrder = [], m_allocations = [], m_allocationOrder = [],
               m_startups = [], m_startupValues = [], m_nodes = [], m_nodeOrder = [], m_revokedNodes = [],
               m_enrollmentTokens = [], m_games = [], m_gameOrder = [], m_operations = [], m_idempotency = [],
               m_audit = [], m_console = [], m_consoleHub = newConsoleHub, m_fileSystems = [], m_backups = [],
               m_backupChecksums = [], m_backupOperations = [], m_backupDeleteFrom = []\<rparr>)"

definition newMemoryForSetupAt :: "lib \<Rightarrow> env \<Rightarrow> string \<Rightarrow> string \<Rightarrow> gotime \<Rightarrow> string \<Rightarrow> Memory option" where
  "newMemoryForSetupAt L e environment bootstrapToken bootstrapExpiresAt agentToken =
     map_option (\<lambda>m. m\<lparr>m_setupRequired := True, m_bootstrapToken := tokenDigest L bootstrapToken,
        m_bootstrapExpiresAt := bootstrapExpiresAt\<rparr>)
       (newMemoryAt L e environment [] [] agentToken)"

text \<open>Concrete libraries and a concrete store for the worked examples: digests and hashes are the
  identity, every document decodes to an empty bundle.\<close>

definition sample_document :: fixedBundleDocument where
  "sample_document = \<lparr>fbd_ID = ''game'', fbd_Version = ''1'', fbd_Variables = [],
     fbd_Command = \<lparr>sc_Executable = ''run'', sc_Args = []\<rparr>, fbd_Name = ''Game'', fbd_GameVersion = ''1.0'', fbd_Platforms = [],
     fbd_Capabilities = [], fbd_Adapter = ''container/v1'', fbd_Image = [], fbd_User = [], fbd_WorkingDir = [], fbd_Environment = [],
     fbd_DataMounts = [], fbd_Ports = [], fbd_Stop = \<lparr>rs_Method = [], rs_Value = [], rs_TimeoutSeconds = 0\<rparr>,
     fbd_Health = \<lparr>rh_Type = [], rh_PortRef = [], rh_IntervalSeconds = 0, rh_TimeoutSeconds = 0, rh_FailureThreshold = 0\<rparr>,
     fbd_Console = None\<rparr>"

definition sample_codec :: bundle_codec where
  "sample_codec = \<lparr>decodeFixedBundle = (\<lambda>_. Some sample_document),
     decodeFixedBundleVariables = (\<lambda>_. None), DecodeStartupVariableSchema = (\<lambda>_. None), bundleDigest = (\<lambda>s. s)\<rparr>"

fun sample_json :: "request \<Rightarrow> string" where
  "sample_json (ReqCreateServer i) = ''server '' @ csi_Name i"
| "sample_json (ReqPower a) = ''power '' @ a"
| "sample_json ReqEmpty = []"
| "sample_json (ReqBackup b) = ''backup '' @ b"
| "sample_json (ReqAllocationCreate g i) = ''alloc '' @ FormatInt g @ cai_BindIP i @ FormatInt (cai_Port i)"
| "sample_json (ReqAllocation g i) = ''allocation '' @ FormatInt g @ i"
| "sample_json (ReqStartup g vs) = ''startup '' @ FormatInt g @ concat (map fst vs)"

definition sample_lib :: lib where
  "sample_lib = \<lparr>sha256 = (\<lambda>s. s), hmac_sha256 = (\<lambda>k s. k @ s), json_marshal = sample_json,
     verify_password = (\<lambda>h p. Some (h = p)), hash_password = Some, parse_address = Some,
     parse_ip = (\<lambda>s. Some (s, False)), format_stamp = (\<lambda>_. ''stamp''), uni_lower = (\<lambda>s. s), codec = sample_codec\<rparr>"

definition sample_store :: Memory where
  "sample_store = the (newMemoryAt sample_lib sample_env ''dev'' ''admin@example.com'' ''password'' ''agent'')"

definition sample_admin :: User where
  "sample_admin = \<lparr>u_ID = ''00000000-0000-4000-8000-000000000001'', u_Email = ''admin@example.com'',
     u_DisplayName = ''GuGu Admin'', u_Roles = [''platform_admin''], u_Status = ''active'', u_CreatedAt = 1000,
     u_UpdatedAt = 1000\<rparr>"

section \<open>Operation metadata\<close>

lemma normalizeOperationMetadata_sel [simp, store_simps]:
  "op_ID (normalizeOperationMetadata p) = op_ID p"
  "op_ServerID (normalizeOperationMetadata p) = op_ServerID p"
  "op_NodeID (normalizeOperationMetadata p) = op_NodeID p"
  "op_Type (normalizeOperationMetadata p) = op_Type p"
  "op_Status (normalizeOperationMetadata p) = op_Status p"
  "op_Generation (normalizeOperationMetadata p) = op_Generation p"
  "op_IdempotencyKey (normalizeOperationMetadata p) = op_IdempotencyKey p"
  by (simp_all add: normalizeOperationMetadata_def Let_def)

text \<open>The shape every stored operation has; normalisation is the identity on it.\<close>

definition op_ok :: "Operation \<Rightarrow> bool" where
  "op_ok p \<longleftrightarrow> normalizeOperationMetadata p = p \<and>
     op_Status p \<in> {''queued'', ''running'', ''succeeded'', ''failed''} \<and>
     (op_LeaseOwner p \<noteq> None \<longleftrightarrow> op_Status p = ''running'') \<and>
     (op_Error p \<noteq> None \<longleftrightarrow> op_Status p = ''failed'') \<and>
     (isTerminalOperation (op_Status p) \<longleftrightarrow> op_Progress p = 100) \<and> 0 \<le> op_Progress p \<and> op_Progress p \<le> 100"

lemma normal_attempts:
  "normalizeOperationMetadata p = p \<Longrightarrow> 1 \<le> op_Attempt p \<and> op_Attempt p \<le> op_MaxAttempts p"
proof -
  have "1 \<le> op_Attempt (normalizeOperationMetadata p) \<and>
      op_Attempt (normalizeOperationMetadata p) \<le> op_MaxAttempts (normalizeOperationMetadata p)"
    by (simp add: normalizeOperationMetadata_def Let_def)
  then show "normalizeOperationMetadata p = p \<Longrightarrow> ?thesis" by simp
qed

lemma normalI:
  "1 \<le> op_Attempt p \<Longrightarrow> op_Attempt p \<le> op_MaxAttempts p \<Longrightarrow> op_Checkpoint p \<noteq> [] \<Longrightarrow>
   (isTerminalOperation (op_Status p) \<Longrightarrow> op_LeaseOwner p = None \<and> op_LeaseExpiresAt p = None) \<Longrightarrow>
   (op_Status p = ''failed'' \<Longrightarrow> op_Error p \<noteq> None) \<Longrightarrow> normalizeOperationMetadata p = p"
  by (auto simp: normalizeOperationMetadata_def Let_def)

lemma op_ok_NewQueued [simp]: "op_ok (NewQueuedOperation i s n t g k now)"
  by (simp add: op_ok_def normalizeOperationMetadata_def NewQueuedOperation_def isTerminalOperation_def)

lemma runningCheckpoint_ne [simp]: "runningCheckpoint t \<noteq> []"
  by (simp add: runningCheckpoint_def)

text \<open>The effect of the operation methods on well-formed operations.\<close>

lemma op_ok_normal: "op_ok p \<Longrightarrow> normalizeOperationMetadata p = p"
  by (simp add: op_ok_def)

lemma op_ok_succeeded:
  assumes "op_ok p"
  shows "op_ok (p\<lparr>op_Status := ''succeeded'', op_Progress := 100, op_Checkpoint := ''completed'',
    op_LeaseOwner := None, op_LeaseExpiresAt := None, op_Error := None, op_UpdatedAt := now\<rparr>)"
  using normal_attempts [OF op_ok_normal [OF assms]]
  unfolding op_ok_def by (intro conjI normalI) (simp_all add: isTerminalOperation_def)

lemma op_ok_failed:
  assumes "op_ok p"
  shows "op_ok (p\<lparr>op_Status := ''failed'', op_Progress := 100, op_Checkpoint := ''failed'',
    op_LeaseOwner := None, op_LeaseExpiresAt := None, op_Error := Some f, op_UpdatedAt := now\<rparr>)"
  using normal_attempts [OF op_ok_normal [OF assms]]
  unfolding op_ok_def by (intro conjI normalI) (simp_all add: isTerminalOperation_def)

lemma op_ok_progress: "op_ok p \<Longrightarrow> \<not> isTerminalOperation (op_Status p) \<Longrightarrow> 0 \<le> op_Progress p \<and> op_Progress p < 100"
  unfolding op_ok_def by auto

lemma op_ok_running:
  assumes "op_ok p" "x < 100" "0 \<le> x"
  shows "op_ok (p\<lparr>op_Status := ''running'', op_Progress := x, op_Checkpoint := runningCheckpoint c,
    op_LeaseOwner := Some w, op_LeaseExpiresAt := l, op_Error := None, op_UpdatedAt := now\<rparr>)"
  using normal_attempts [OF op_ok_normal [OF assms(1)]] assms(2,3)
  unfolding op_ok_def by (intro conjI normalI) (simp_all add: isTerminalOperation_def)

lemma completeOperationLocked_ok:
  assumes "op_ok p" "completeOperationLocked now p = (b, q)"
  shows "op_ok q \<and> b = (\<not> isTerminalOperation (op_Status p)) \<and> (b \<longrightarrow> op_Status q = ''succeeded'') \<and> (\<not> b \<longrightarrow> q = p)"
proof (cases "isTerminalOperation (op_Status p)")
  case False
  with assms have "b \<and> q = p\<lparr>op_Status := ''succeeded'', op_Progress := 100, op_Checkpoint := ''completed'',
    op_LeaseOwner := None, op_LeaseExpiresAt := None, op_Error := None, op_UpdatedAt := now\<rparr>"
    by (simp add: completeOperationLocked_def Let_def op_ok_normal)
  with op_ok_succeeded [OF assms(1), of now] False show ?thesis by simp
qed (use assms in \<open>auto simp: completeOperationLocked_def Let_def op_ok_normal\<close>)

lemma failOperationLocked_ok:
  assumes "op_ok p" "failOperationLocked f now p = (b, q)"
  shows "op_ok q \<and> b = (\<not> isTerminalOperation (op_Status p)) \<and> (b \<longrightarrow> op_Status q = ''failed'') \<and> (\<not> b \<longrightarrow> q = p)"
proof (cases "isTerminalOperation (op_Status p)")
  case False
  with assms have "b \<and> q = p\<lparr>op_Status := ''failed'', op_Progress := 100, op_Checkpoint := ''failed'',
    op_LeaseOwner := None, op_LeaseExpiresAt := None, op_Error := Some f, op_UpdatedAt := now\<rparr>"
    by (simp add: failOperationLocked_def Let_def op_ok_normal)
  with op_ok_failed [OF assms(1), where f = f and now = now] False show ?thesis by simp
qed (use assms in \<open>auto simp: failOperationLocked_def Let_def op_ok_normal\<close>)

lemma finish_identity:
  "completeOperationLocked now p = (b, q) \<Longrightarrow> op_ID q = op_ID p \<and> op_ServerID q = op_ServerID p \<and>
     op_NodeID q = op_NodeID p \<and> op_Type q = op_Type p \<and> op_Generation q = op_Generation p"
  "failOperationLocked f now p = (b, q) \<Longrightarrow> op_ID q = op_ID p \<and> op_ServerID q = op_ServerID p \<and>
     op_NodeID q = op_NodeID p \<and> op_Type q = op_Type p \<and> op_Generation q = op_Generation p"
  by (auto simp: completeOperationLocked_def failOperationLocked_def Let_def split: if_splits)

lemma completeForGeneration_ok:
  assumes "op_ok p" "completeOperationForGenerationLocked srv now p = (b, q)"
  shows "op_ok q \<and> b = (\<not> isTerminalOperation (op_Status p)) \<and> (\<not> b \<longrightarrow> q = p) \<and>
    (b \<longrightarrow> op_Status q = (if operationTargetsCurrentServer p srv then ''succeeded'' else ''failed'')) \<and>
    op_ID q = op_ID p \<and> op_ServerID q = op_ServerID p \<and> op_NodeID q = op_NodeID p \<and>
    op_Type q = op_Type p \<and> op_Generation q = op_Generation p"
  using assms completeOperationLocked_ok [OF assms(1)] failOperationLocked_ok [OF assms(1)] finish_identity
  by (auto simp: completeOperationForGenerationLocked_def split: if_splits)

section \<open>The operation ledger\<close>

text \<open>
  The invariant of the operations and idempotency records: operations are stored under their own
  identifier and are well formed, at most one unfinished exclusive operation exists per server, and
  idempotency records point to existing operations.
\<close>

definition ledger_ok :: "Memory \<Rightarrow> bool" where
  "ledger_ok m \<longleftrightarrow>
     mwf (m_operations m) \<and>
     (\<forall>i p. mget (m_operations m) i = Some p \<longrightarrow> op_ID p = i \<and> op_ok p) \<and>
     (\<forall>i j p q s. mget (m_operations m) i = Some p \<longrightarrow> mget (m_operations m) j = Some q \<longrightarrow>
        blocks_server s p \<longrightarrow> blocks_server s q \<longrightarrow> i = j) \<and>
     (\<forall>scope r. mget (m_idempotency m) scope = Some r \<longrightarrow> mhas (m_operations m) (ir_OperationID r))"

text \<open>What a transition may do to operations: they keep their identity, and finished ones do not
  change at all.\<close>

definition ledger_le :: "Memory \<Rightarrow> Memory \<Rightarrow> bool" where
  "ledger_le m m' \<longleftrightarrow>
     (\<forall>i p. mget (m_operations m) i = Some p \<longrightarrow>
        (\<exists>q. mget (m_operations m') i = Some q \<and> op_ServerID q = op_ServerID p \<and> op_NodeID q = op_NodeID p \<and>
           op_Type q = op_Type p \<and> op_Generation q = op_Generation p \<and>
           (isTerminalOperation (op_Status p) \<longrightarrow> q = p)))"

lemma ledger_le_refl [simp]: "ledger_le m m"
  by (simp add: ledger_le_def)

lemma ledger_le_trans:
  assumes "ledger_le a b" "ledger_le b c"
  shows "ledger_le a c"
  unfolding ledger_le_def
proof (intro allI impI)
  fix i p
  assume "mget (m_operations a) i = Some p"
  with assms(1) obtain q where q: "mget (m_operations b) i = Some q" "op_ServerID q = op_ServerID p"
      "op_NodeID q = op_NodeID p" "op_Type q = op_Type p" "op_Generation q = op_Generation p"
      "isTerminalOperation (op_Status p) \<longrightarrow> q = p"
    unfolding ledger_le_def by blast
  moreover from q(1) assms(2) obtain r where "mget (m_operations c) i = Some r" "op_ServerID r = op_ServerID q"
      "op_NodeID r = op_NodeID q" "op_Type r = op_Type q" "op_Generation r = op_Generation q"
      "isTerminalOperation (op_Status q) \<longrightarrow> r = q"
    unfolding ledger_le_def by blast
  ultimately show "\<exists>q. mget (m_operations c) i = Some q \<and> op_ServerID q = op_ServerID p \<and>
      op_NodeID q = op_NodeID p \<and> op_Type q = op_Type p \<and> op_Generation q = op_Generation p \<and>
      (isTerminalOperation (op_Status p) \<longrightarrow> q = p)" by auto
qed

lemma ledger_same:
  "m_operations m' = m_operations m \<Longrightarrow> m_idempotency m' = m_idempotency m \<Longrightarrow>
   ledger_ok m' = ledger_ok m \<and> ledger_le m m'"
  by (simp add: ledger_ok_def ledger_le_def)

lemma active_None: "activeExclusiveOperationLocked m s = None \<Longrightarrow> mget (m_operations m) i = Some p \<Longrightarrow> \<not> blocks_server s p"
  by (drule mget_in_set) (fastforce simp: activeExclusiveOperationLocked_def find_None_iff)

lemma active_Some:
  assumes "activeExclusiveOperationLocked m s = Some p" "ledger_ok m"
  shows "mget (m_operations m) (op_ID p) = Some p \<and> blocks_server s p"
proof -
  from assms(1) obtain i where "(i, p) \<in> set (m_operations m)" "blocks_server s p"
    by (auto simp: activeExclusiveOperationLocked_def find_Some_iff) (metis nth_mem prod.collapse)
  with assms(2) show ?thesis by (metis ledger_ok_def mget_Some_iff)
qed

lemma blocks_queued [simp]:
  "blocks_server s (NewQueuedOperation i s' n t g k now) = (s = s' \<and> isExclusiveOperation t)"
  by (auto simp: blocks_server_def isTerminalOperation_def)

text \<open>Queueing a fresh operation on a server with no unfinished exclusive one.\<close>

lemma ledger_queue:
  assumes "ledger_ok m" "\<not> mhas (m_operations m) (op_ID p)" "op_ok p"
    "\<forall>s. blocks_server s p \<longrightarrow> activeExclusiveOperationLocked m s = None"
    "m_operations m' = mput (op_ID p) p (m_operations m)"
    "m_idempotency m' = mput scope r (m_idempotency m)" "ir_OperationID r = op_ID p"
  shows "ledger_ok m' \<and> ledger_le m m'"
proof -
  have "\<not> blocks_server s q" if "blocks_server s p" "mget (m_operations m) j = Some q" for s j q
    using that assms(4) active_None by blast
  with assms show ?thesis by (auto simp: ledger_ok_def ledger_le_def mhas_def)
qed

lemma ledger_join:
  assumes "ledger_ok m" "mhas (m_operations m) (ir_OperationID r)"
    "m_operations m' = m_operations m" "m_idempotency m' = mput scope r (m_idempotency m)"
  shows "ledger_ok m' \<and> ledger_le m m'"
  using assms by (auto simp: ledger_ok_def ledger_le_def)

text \<open>Advancing an unfinished operation.\<close>

lemma ledger_advance:
  assumes "ledger_ok m" "mget (m_operations m) i = Some p" "\<not> isTerminalOperation (op_Status p)" "op_ok q"
    "op_ID q = op_ID p" "op_ServerID q = op_ServerID p" "op_NodeID q = op_NodeID p"
    "op_Type q = op_Type p" "op_Generation q = op_Generation p"
    "m_operations m' = mput i q (m_operations m)" "m_idempotency m' = m_idempotency m"
  shows "ledger_ok m' \<and> ledger_le m m'"
proof -
  have "blocks_server s p" if "blocks_server s q" for s using that assms by (simp add: blocks_server_def)
  with assms show ?thesis by (auto simp: ledger_ok_def ledger_le_def mhas_def split: if_splits)
qed

lemma beginOperation_ledger:
  assumes "ledger_ok m" "beginOperation now i m = (b, m')"
  shows "ledger_ok m' \<and> ledger_le m m'"
proof (cases "mget (m_operations m) i")
  case None
  with assms show ?thesis by (simp add: beginOperation_def)
next
  case (Some p)
  show ?thesis
  proof (cases "isTerminalOperation (op_Status p)")
    case True
    with Some assms show ?thesis by (simp add: beginOperation_def)
  next
    case False
    from assms(1) Some have ok: "op_ok p" by (simp add: ledger_ok_def)
    let ?q = "p\<lparr>op_Status := ''running'', op_Progress := (if op_Progress p < 5 then 5 else op_Progress p),
      op_Checkpoint := runningCheckpoint (op_Type p), op_LeaseOwner := Some memoryOperationLeaseOwner,
      op_LeaseExpiresAt := Some (now + memoryOperationLeaseDuration), op_Error := None, op_UpdatedAt := now\<rparr>"
    have "op_ok ?q" using op_ok_progress [OF ok False] by (intro op_ok_running ok) auto
    moreover have "m' = m\<lparr>m_operations := mput i ?q (m_operations m)\<rparr>"
      using assms(2) Some False ok by (simp add: beginOperation_def Let_def op_ok_normal)
    ultimately show ?thesis using assms(1) Some False by (intro ledger_advance [of m i p ?q]) simp_all
  qed
qed

lemma get_operation_ledger:
  assumes "ledger_ok m" "get_operation i m = (r, m')"
  shows "ledger_ok m' \<and> ledger_le m m'"
proof (cases "mget (m_operations m) i")
  case (Some p)
  with assms(1) have "normalizeOperationMetadata p = p" by (simp add: ledger_ok_def op_ok_def)
  with Some assms(2) have "m' = m\<lparr>m_operations := mput i p (m_operations m)\<rparr>"
    by (auto simp: get_operation_def Let_def)
  with Some assms(1) show ?thesis by (auto simp: ledger_ok_def ledger_le_def mhas_def split: if_splits)
qed (use assms in \<open>simp add: get_operation_def\<close>)

section \<open>Frame facts\<close>

lemma recordAudit_frame [simp, store_simps]:
  "m_operations (recordAuditLocked i t a b c d r o' m) = m_operations m"
  "m_idempotency (recordAuditLocked i t a b c d r o' m) = m_idempotency m"
  "m_servers (recordAuditLocked i t a b c d r o' m) = m_servers m"
  "m_nodes (recordAuditLocked i t a b c d r o' m) = m_nodes m"
  "m_users (recordAuditLocked i t a b c d r o' m) = m_users m"
  "m_userByEmail (recordAuditLocked i t a b c d r o' m) = m_userByEmail m"
  "m_userOrder (recordAuditLocked i t a b c d r o' m) = m_userOrder m"
  "m_sessions (recordAuditLocked i t a b c d r o' m) = m_sessions m"
  "m_memberships (recordAuditLocked i t a b c d r o' m) = m_memberships m"
  "m_passwordResetTokens (recordAuditLocked i t a b c d r o' m) = m_passwordResetTokens m"
  "m_apiTokens (recordAuditLocked i t a b c d r o' m) = m_apiTokens m"
  "m_apiTokenByDigest (recordAuditLocked i t a b c d r o' m) = m_apiTokenByDigest m"
  "m_consoleTokens (recordAuditLocked i t a b c d r o' m) = m_consoleTokens m"
  "m_setupRequired (recordAuditLocked i t a b c d r o' m) = m_setupRequired m"
  "m_allocations (recordAuditLocked i t a b c d r o' m) = m_allocations m"
  "m_allocationOrder (recordAuditLocked i t a b c d r o' m) = m_allocationOrder m"
  "m_backups (recordAuditLocked i t a b c d r o' m) = m_backups m"
  "m_backupChecksums (recordAuditLocked i t a b c d r o' m) = m_backupChecksums m"
  "m_backupOperations (recordAuditLocked i t a b c d r o' m) = m_backupOperations m"
  "m_backupDeleteFrom (recordAuditLocked i t a b c d r o' m) = m_backupDeleteFrom m"
  "m_startups (recordAuditLocked i t a b c d r o' m) = m_startups m"
  "m_startupValues (recordAuditLocked i t a b c d r o' m) = m_startupValues m"
  "m_games (recordAuditLocked i t a b c d r o' m) = m_games m"
  "m_console (recordAuditLocked i t a b c d r o' m) = m_console m"
  "m_runtimeAdapter (recordAuditLocked i t a b c d r o' m) = m_runtimeAdapter m"
  by (simp_all add: recordAuditLocked_def)

lemma reconcile_frame [simp, store_simps]:
  "m_operations (reconcileNodeLivenessLocked now m) = m_operations m"
  "m_idempotency (reconcileNodeLivenessLocked now m) = m_idempotency m"
  "m_users (reconcileNodeLivenessLocked now m) = m_users m"
  "m_memberships (reconcileNodeLivenessLocked now m) = m_memberships m"
  "m_allocations (reconcileNodeLivenessLocked now m) = m_allocations m"
  "m_allocationOrder (reconcileNodeLivenessLocked now m) = m_allocationOrder m"
  "m_backups (reconcileNodeLivenessLocked now m) = m_backups m"
  "m_backupChecksums (reconcileNodeLivenessLocked now m) = m_backupChecksums m"
  "m_backupOperations (reconcileNodeLivenessLocked now m) = m_backupOperations m"
  "m_backupDeleteFrom (reconcileNodeLivenessLocked now m) = m_backupDeleteFrom m"
  "m_startups (reconcileNodeLivenessLocked now m) = m_startups m"
  "m_startupValues (reconcileNodeLivenessLocked now m) = m_startupValues m"
  "m_games (reconcileNodeLivenessLocked now m) = m_games m"
  "m_audit (reconcileNodeLivenessLocked now m) = m_audit m"
  by (simp_all add: reconcileNodeLivenessLocked_def)

lemma active_same: "m_operations m' = m_operations m \<Longrightarrow> activeExclusiveOperationLocked m' = activeExclusiveOperationLocked m"
  by (rule ext) (simp add: activeExclusiveOperationLocked_def)

lemma idempotent_same:
  "m_operations m' = m_operations m \<Longrightarrow> m_idempotency m' = m_idempotency m \<Longrightarrow>
   idempotentOperationLocked m' = idempotentOperationLocked m"
  by (intro ext) (simp add: idempotentOperationLocked_def cong: option.case_cong if_cong)

lemma reconcile_active [simp]:
  "activeExclusiveOperationLocked (reconcileNodeLivenessLocked now m) = activeExclusiveOperationLocked m"
  "idempotentOperationLocked (reconcileNodeLivenessLocked now m) = idempotentOperationLocked m"
  by (rule active_same idempotent_same; simp)+

lemma reconcile_server:
  "mget (m_servers (reconcileNodeLivenessLocked now m)) s = Some srv \<Longrightarrow>
   \<exists>old. mget (m_servers m) s = Some old \<and> srv\<lparr>srv_NodeCondition := srv_NodeCondition old\<rparr> = old"
  by (auto simp: reconcileNodeLivenessLocked_def split: if_splits)

lemma reconcile_has_server [simp]: "mhas (m_servers (reconcileNodeLivenessLocked now m)) s = mhas (m_servers m) s"
  by (simp add: reconcileNodeLivenessLocked_def)

end
