(* ===== verification/Identity_Store.thy ===== *)
theory Identity_Store
  imports Memory_Store
begin

text \<open>
  Users, sessions, memberships and authorization of the in-memory store
  (\<^verbatim>\<open>internal/store/identity.go\<close> and the session methods of \<^verbatim>\<open>memory.go\<close>). \<open>Login\<close>,
  \<open>SetupAdmin\<close> and \<open>ResetPassword\<close> release the lock while they hash a password; their
  second critical section is a definition of its own (\<open>login_commit\<close>, \<open>setup_commit\<close>,
  \<open>reset_commit\<close>), which other calls may precede.
\<close>

section \<open>Helpers\<close>

definition passwordResetTTL :: duration where
  "passwordResetTTL = 15 * minute"

definition allowedGlobalRoles :: "string list" where
  "allowedGlobalRoles = [''platform_admin'', ''server_owner'']"

definition allowedServerPermissions :: "string list" where
  "allowedServerPermissions =
     [''servers.read'', ''servers.power'', ''servers.console'', ''servers.files.read'', ''servers.files.write'',
      ''servers.backups.read'', ''servers.backups.create'', ''servers.backups.restore'', ''servers.backups.delete'',
      ''servers.network.read'', ''servers.network.write'', ''servers.startup.read'', ''servers.startup.write'']"

definition zero_user :: User where
  "zero_user = \<lparr>u_ID = [], u_Email = [], u_DisplayName = [], u_Roles = [], u_Status = [], u_CreatedAt = 0, u_UpdatedAt = 0\<rparr>"

definition zero_stored_user :: storedUser where
  "zero_stored_user = \<lparr>su_User = zero_user, su_PasswordPHC = []\<rparr>"

definition hasRole :: "User \<Rightarrow> string \<Rightarrow> bool" where
  "hasRole user role = containsString (u_Roles user) role"

definition normalizeEmail :: "lib \<Rightarrow> string \<Rightarrow> string result" where
  "normalizeEmail L value =
     (let normalized = ToLower (uni_lower L) (TrimSpace value) in
      if parse_address L normalized \<noteq> Some normalized \<or> rune_count normalized > 254
      then Inl (NewProblem ''VALIDATION_FAILED'' False) else Inr normalized)"

definition validateDisplayName :: "string \<Rightarrow> string result" where
  "validateDisplayName value =
     (let trimmed = TrimSpace value; length = rune_count trimmed in
      if length < 1 \<or> length > 64 then Inl (NewProblem ''VALIDATION_FAILED'' False) else Inr trimmed)"

definition validatePassword :: "string \<Rightarrow> problem option" where
  "validatePassword value =
     (let length = rune_count value in
      if length < 8 \<or> length > 1024 then Some (NewProblem ''VALIDATION_FAILED'' False) else None)"

text \<open>The loop that normalises a list of names against the allowed ones.\<close>

definition normalize_names :: "string list \<Rightarrow> string list \<Rightarrow> string list option" where
  "normalize_names allowed vals =
     (let trimmed = map TrimSpace vals in
      if list_all (\<lambda>v. v \<in> set allowed) trimmed then Some (sort_strings (dedupe [] trimmed)) else None)"

definition normalizeRoles :: "string list \<Rightarrow> string list result" where
  "normalizeRoles vals =
     (if vals = [] then Inl (NewProblem ''VALIDATION_FAILED'' False)
      else case normalize_names allowedGlobalRoles vals of
             None \<Rightarrow> Inl (NewProblem ''VALIDATION_FAILED'' False)
           | Some roles \<Rightarrow> Inr roles)"

definition normalizePermissions :: "string list \<Rightarrow> string list result" where
  "normalizePermissions vals =
     (if vals = [] then Inl (NewProblem ''VALIDATION_FAILED'' False)
      else case normalize_names allowedServerPermissions vals of
             None \<Rightarrow> Inl (NewProblem ''VALIDATION_FAILED'' False)
           | Some permissions \<Rightarrow>
               if ''servers.read'' \<notin> set permissions then Inl (NewProblem ''VALIDATION_FAILED'' False)
               else Inr permissions)"

definition allServerPermissions :: "string list" where
  "allServerPermissions = sort_strings allowedServerPermissions"

definition requirePlatformAdminLocked :: "Memory \<Rightarrow> string \<Rightarrow> problem option" where
  "requirePlatformAdminLocked m userID =
     (case mget (m_users m) userID of
        None \<Rightarrow> Some (NewProblem ''FORBIDDEN'' False)
      | Some r \<Rightarrow>
          if u_Status (su_User r) \<noteq> ''active'' \<or> \<not> hasRole (su_User r) ''platform_admin''
          then Some (NewProblem ''FORBIDDEN'' False) else None)"

definition currentActorLocked :: "Memory \<Rightarrow> string \<Rightarrow> User result" where
  "currentActorLocked m userID =
     (case mget (m_users m) userID of
        None \<Rightarrow> Inl (NewProblem ''FORBIDDEN'' False)
      | Some r \<Rightarrow>
          if u_Status (su_User r) \<noteq> ''active'' then Inl (NewProblem ''FORBIDDEN'' False) else Inr (su_User r))"

definition membership_of :: "Memory \<Rightarrow> string \<Rightarrow> string \<Rightarrow> ServerMembership option" where
  "membership_of m serverID userID = mget (mget_zero [] (m_memberships m) serverID) userID"

definition authorizeServerLocked :: "Memory \<Rightarrow> string \<Rightarrow> string \<Rightarrow> string \<Rightarrow> User result" where
  "authorizeServerLocked m actorID serverID permission =
     (case currentActorLocked m actorID of
        Inl err \<Rightarrow> Inl err
      | Inr actor \<Rightarrow>
          if \<not> mhas (m_servers m) serverID then Inl (NewProblem ''NOT_FOUND'' False)
          else if hasRole actor ''platform_admin'' then Inr actor
          else (case membership_of m serverID actorID of
                  None \<Rightarrow> Inl (NewProblem ''NOT_FOUND'' False)
                | Some membership \<Rightarrow>
                    if \<not> containsString (sm_Permissions membership) permission
                    then Inl (NewProblem ''FORBIDDEN'' False) else Inr actor))"

definition activeAdminCountLocked :: "Memory \<Rightarrow> nat" where
  "activeAdminCountLocked m =
     length (filter (\<lambda>(_, r). u_Status (su_User r) = ''active'' \<and> hasRole (su_User r) ''platform_admin'') (m_users m))"

definition revokeUserSessionsLocked :: "string \<Rightarrow> Memory \<Rightarrow> Memory" where
  "revokeUserSessionsLocked userID m =
     (let revoked = map fst (filter (\<lambda>(_, r). mat_UserID r = userID) (m_apiTokens m)) in
      m\<lparr>m_sessions := mdel_if (\<lambda>_ s. ses_UserID s = userID) (m_sessions m),
        m_apiTokens := mdel_if (\<lambda>_ r. mat_UserID r = userID) (m_apiTokens m),
        m_apiTokenByDigest := mdel_if (\<lambda>_ tokenID. tokenID \<in> set revoked) (m_apiTokenByDigest m),
        m_consoleTokens := mdel_if (\<lambda>_ c. ccp_UserID c = userID) (m_consoleTokens m)\<rparr>)"

definition revokePasswordResetTokensLocked :: "string \<Rightarrow> Memory \<Rightarrow> Memory" where
  "revokePasswordResetTokensLocked userID m =
     m\<lparr>m_passwordResetTokens := mdel_if (\<lambda>_ r. prr_UserID r = userID) (m_passwordResetTokens m)\<rparr>"

section \<open>Sessions (memory.go)\<close>

definition login_lookup :: "lib \<Rightarrow> string \<Rightarrow> Memory \<Rightarrow> bool \<times> storedUser \<times> string" where
  "login_lookup L email m =
     (let normalizedEmail = ToLower (uni_lower L) (TrimSpace email) in
      case mget (m_userByEmail m) normalizedEmail of
        None \<Rightarrow> (False, mget_zero zero_stored_user (m_users m) [], m_adminPasswordPHC m)
      | Some userID \<Rightarrow>
          let r = mget_zero zero_stored_user (m_users m) userID in (True, r, su_PasswordPHC r))"

definition login_refused :: "env \<Rightarrow> Memory \<Rightarrow> (SessionView \<times> string) result \<times> Memory" where
  "login_refused e m =
     (Inl (NewProblem ''AUTH_INVALID_CREDENTIALS'' False),
      recordAuditLocked (uuid e 1) (clk e 1) ''Unknown actor'' ''auth.login'' ''session'' ''Control Plane'' ''failure'' (uuid e 0) m)"

text \<open>The second critical section: the user is looked up again before the session is stored.\<close>

definition login_commit ::
  "lib \<Rightarrow> env \<Rightarrow> User \<Rightarrow> string \<Rightarrow> Memory \<Rightarrow> (SessionView \<times> string) result \<times> Memory" where
  "login_commit L e user passwordHash m =
     (case mget (m_users m) (u_ID user) of
        None \<Rightarrow> login_refused e m
      | Some current \<Rightarrow>
          if u_Status (su_User current) \<noteq> ''active'' \<or> su_PasswordPHC current \<noteq> passwordHash
          then login_refused e m
          else
            let session = \<lparr>ses_CSRFToken = tok e 1, ses_UserID = u_ID user, ses_User = su_User current,
                  ses_ExpiresAt = clk e 0 + 12 * hour\<rparr>;
                m1 = m\<lparr>m_sessions := mput (sessionTokenDigest L (tok e 0)) session (m_sessions m)\<rparr>
            in (Inr (\<lparr>sv_User = su_User current, sv_CSRFToken = tok e 1, sv_Environment = m_environment m\<rparr>, tok e 0),
                recordAuditLocked (uuid e 1) (clk e 1) (u_DisplayName (su_User current)) ''auth.login'' ''session''
                  ''Control Plane'' ''success'' (uuid e 0) m1))"

definition Login :: "lib \<Rightarrow> env \<Rightarrow> string \<Rightarrow> string \<Rightarrow> Memory \<Rightarrow> (SessionView \<times> string) result \<times> Memory" where
  "Login L e email password m =
     (case login_lookup L email m of
        (found, r, passwordHash) \<Rightarrow>
          if \<not> found \<or> u_Status (su_User r) \<noteq> ''active'' \<or> verify_password L passwordHash password \<noteq> Some True
          then login_refused e m
          else login_commit L e (su_User r) passwordHash m)"

text \<open>The session behind a token, when it is still good.\<close>

definition live_session :: "gotime \<Rightarrow> string \<Rightarrow> Memory \<Rightarrow> (Session \<times> storedUser) option" where
  "live_session now digest m =
     (case mget (m_sessions m) digest of
        None \<Rightarrow> None
      | Some session \<Rightarrow>
          (case mget (m_users m) (ses_UserID session) of
             None \<Rightarrow> None
           | Some r \<Rightarrow>
               if u_Status (su_User r) \<noteq> ''active'' \<or> now > ses_ExpiresAt session then None else Some (session, r)))"

definition AuthenticateSession :: "lib \<Rightarrow> env \<Rightarrow> string \<Rightarrow> Memory \<Rightarrow> SessionView result \<times> Memory" where
  "AuthenticateSession L e token m =
     (let digest = sessionTokenDigest L token in
      case live_session (clk e 0) digest m of
        None \<Rightarrow> (Inl (NewProblem ''AUTH_REQUIRED'' False), m\<lparr>m_sessions := mdel digest (m_sessions m)\<rparr>)
      | Some (session, r) \<Rightarrow>
          (Inr \<lparr>sv_User = su_User r, sv_CSRFToken = [], sv_Environment = m_environment m\<rparr>, m))"

definition RecoverSession :: "lib \<Rightarrow> env \<Rightarrow> string \<Rightarrow> Memory \<Rightarrow> (SessionView \<times> string) result \<times> Memory" where
  "RecoverSession L e token m =
     (let oldDigest = sessionTokenDigest L token;
          newDigest = sessionTokenDigest L (tok e 0)
      in case live_session (clk e 0) oldDigest m of
           None \<Rightarrow> (Inl (NewProblem ''AUTH_REQUIRED'' False), m\<lparr>m_sessions := mdel oldDigest (m_sessions m)\<rparr>)
         | Some (session, r) \<Rightarrow>
             let s = session\<lparr>ses_User := su_User r, ses_CSRFToken := tok e 1\<rparr>
             in (Inr (\<lparr>sv_User = su_User r, sv_CSRFToken = tok e 1, sv_Environment = m_environment m\<rparr>, tok e 0),
                 m\<lparr>m_sessions := mput newDigest s (mdel oldDigest (m_sessions m))\<rparr>))"

definition Logout :: "lib \<Rightarrow> env \<Rightarrow> string \<Rightarrow> Memory \<Rightarrow> Memory" where
  "Logout L e token m =
     (let digest = sessionTokenDigest L token;
          m1 = m\<lparr>m_sessions := mdel digest (m_sessions m)\<rparr>
      in case mget (m_sessions m) digest of
           None \<Rightarrow> m1
         | Some session \<Rightarrow>
             recordAuditLocked (uuid e 1) (clk e 0) (u_DisplayName (ses_User session)) ''auth.logout'' ''session''
               ''Control Plane'' ''success'' (uuid e 0) m1)"

definition ValidateCSRF :: "lib \<Rightarrow> env \<Rightarrow> string \<Rightarrow> string \<Rightarrow> Memory \<Rightarrow> bool" where
  "ValidateCSRF L e token csrf m =
     (case mget (m_sessions m) (sessionTokenDigest L token) of
        None \<Rightarrow> False
      | Some session \<Rightarrow>
          (case mget (m_users m) (ses_UserID session) of
             None \<Rightarrow> False
           | Some r \<Rightarrow>
               u_Status (su_User r) = ''active'' \<and> clk e 0 < ses_ExpiresAt session \<and> ses_CSRFToken session = csrf))"

definition ValidateAgentToken :: "lib \<Rightarrow> string \<Rightarrow> Memory \<Rightarrow> bool" where
  "ValidateAgentToken L token m = (sha256 L token = m_agentToken m)"

section \<open>Users (identity.go)\<close>

definition get_setup_status :: "Memory \<Rightarrow> SetupStatus" where
  "get_setup_status m =
     \<lparr>ss_Required = m_setupRequired m,
      ss_BootstrapExpiresAt = (if m_setupRequired m then Some (m_bootstrapExpiresAt m) else None)\<rparr>"

definition validateSetupLocked :: "string \<Rightarrow> gotime \<Rightarrow> Memory \<Rightarrow> problem option" where
  "validateSetupLocked providedDigest now m =
     (if \<not> m_setupRequired m \<or> length (m_users m) > 0 then Some (NewProblem ''SETUP_ALREADY_COMPLETE'' False)
      else if \<not> now < m_bootstrapExpiresAt m \<or> providedDigest \<noteq> m_bootstrapToken m
      then Some (NewProblem ''BOOTSTRAP_TOKEN_INVALID'' False)
      else None)"

definition add_user :: "User \<Rightarrow> string \<Rightarrow> Memory \<Rightarrow> Memory" where
  "add_user user passwordHash m =
     m\<lparr>m_users := mput (u_ID user) \<lparr>su_User = user, su_PasswordPHC = passwordHash\<rparr> (m_users m),
       m_userOrder := m_userOrder m @ [u_ID user],
       m_userByEmail := mput (u_Email user) (u_ID user) (m_userByEmail m)\<rparr>"

definition setup_commit ::
  "env \<Rightarrow> string \<Rightarrow> string \<Rightarrow> string \<Rightarrow> string \<Rightarrow> Memory \<Rightarrow> User result \<times> Memory" where
  "setup_commit e providedDigest email displayName passwordHash m =
     (let now = clk e 1 in
      case validateSetupLocked providedDigest now m of
        Some err \<Rightarrow> (Inl err, m)
      | None \<Rightarrow>
          let user = \<lparr>u_ID = uuid e 0, u_Email = email, u_DisplayName = displayName,
                u_Roles = [''platform_admin''], u_Status = ''active'', u_CreatedAt = now, u_UpdatedAt = now\<rparr>;
              m1 = (add_user user passwordHash m)\<lparr>m_setupRequired := False,
                m_bootstrapToken := replicate 32 (CHR 0x00), m_bootstrapExpiresAt := 0\<rparr>
          in (Inr user,
              recordAuditLocked (uuid e 1) (clk e 2) displayName ''setup.admin.create'' ''user'' (u_ID user) ''success'' [] m1))"

definition SetupAdmin :: "lib \<Rightarrow> env \<Rightarrow> SetupAdminInput \<Rightarrow> Memory \<Rightarrow> User result \<times> Memory" where
  "SetupAdmin L e inp m =
     (case normalizeEmail L (sai_Email inp) of
        Inl err \<Rightarrow> (Inl err, m)
      | Inr email \<Rightarrow>
     (case validateDisplayName (sai_DisplayName inp) of
        Inl err \<Rightarrow> (Inl err, m)
      | Inr displayName \<Rightarrow>
     (case validatePassword (sai_Password inp) of
        Some err \<Rightarrow> (Inl err, m)
      | None \<Rightarrow>
          let providedDigest = tokenDigest L (sai_BootstrapToken inp) in
          case validateSetupLocked providedDigest (clk e 0) m of
            Some err \<Rightarrow> (Inl err, m)
          | None \<Rightarrow>
              (case hash_password L (sai_Password inp) of
                 None \<Rightarrow> (Inl (NewProblem ''INTERNAL_ERROR'' True), m)
               | Some passwordHash \<Rightarrow> setup_commit e providedDigest email displayName passwordHash m))))"

definition Users :: "Memory \<Rightarrow> User list" where
  "Users m = List.map_filter (\<lambda>i. map_option su_User (mget (m_users m) i)) (m_userOrder m)"

definition UserByID :: "string \<Rightarrow> Memory \<Rightarrow> User result" where
  "UserByID userID m =
     (case mget (m_users m) userID of
        None \<Rightarrow> Inl (NewProblem ''NOT_FOUND'' False) | Some r \<Rightarrow> Inr (su_User r))"

definition create_user_commit ::
  "env \<Rightarrow> string \<Rightarrow> string \<Rightarrow> string list \<Rightarrow> string \<Rightarrow> User \<Rightarrow> Memory \<Rightarrow> User result \<times> Memory" where
  "create_user_commit e email displayName roles passwordHash actor m =
     (case requirePlatformAdminLocked m (u_ID actor) of
        Some err \<Rightarrow> (Inl err, m)
      | None \<Rightarrow>
          if mhas (m_userByEmail m) email then (Inl (NewProblem ''EMAIL_CONFLICT'' False), m)
          else
            let now = clk e 0;
                user = \<lparr>u_ID = uuid e 0, u_Email = email, u_DisplayName = displayName, u_Roles = roles,
                  u_Status = ''active'', u_CreatedAt = now, u_UpdatedAt = now\<rparr>
            in (Inr user,
                recordAuditLocked (uuid e 1) (clk e 1) (u_DisplayName actor) ''user.create'' ''user'' (u_ID user) ''success'' []
                  (add_user user passwordHash m)))"

definition CreateUser :: "lib \<Rightarrow> env \<Rightarrow> CreateUserInput \<Rightarrow> User \<Rightarrow> Memory \<Rightarrow> User result \<times> Memory" where
  "CreateUser L e inp actor m =
     (case normalizeEmail L (cui_Email inp) of
        Inl err \<Rightarrow> (Inl err, m)
      | Inr email \<Rightarrow>
     (case validateDisplayName (cui_DisplayName inp) of
        Inl err \<Rightarrow> (Inl err, m)
      | Inr displayName \<Rightarrow>
     (case validatePassword (cui_Password inp) of
        Some err \<Rightarrow> (Inl err, m)
      | None \<Rightarrow>
     (case normalizeRoles (cui_Roles inp) of
        Inl err \<Rightarrow> (Inl err, m)
      | Inr roles \<Rightarrow>
     (case hash_password L (cui_Password inp) of
        None \<Rightarrow> (Inl (NewProblem ''INTERNAL_ERROR'' True), m)
      | Some passwordHash \<Rightarrow> create_user_commit e email displayName roles passwordHash actor m)))))"

text \<open>The checked input of \<open>UpdateUser\<close>: the new display name, status and roles.\<close>

definition validate_update :: "UpdateUserInput \<Rightarrow> (string option \<times> string option \<times> string list option) result" where
  "validate_update inp =
     (if uui_DisplayName inp = None \<and> uui_Status inp = None \<and> uui_Roles inp = None
      then Inl (NewProblem ''VALIDATION_FAILED'' False)
      else
        case (case uui_DisplayName inp of None \<Rightarrow> Inr None | Some v \<Rightarrow> map_sum id Some (validateDisplayName v)) of
          Inl err \<Rightarrow> Inl err
        | Inr displayName \<Rightarrow>
            (case (case uui_Roles inp of None \<Rightarrow> Inr None | Some v \<Rightarrow> map_sum id Some (normalizeRoles v)) of
               Inl err \<Rightarrow> Inl err
             | Inr roles \<Rightarrow>
                 if uui_Status inp \<noteq> None \<and> uui_Status inp \<noteq> Some ''active'' \<and> uui_Status inp \<noteq> Some ''disabled''
                 then Inl (NewProblem ''VALIDATION_FAILED'' False)
                 else Inr (displayName, uui_Status inp, roles)))"

definition updated_user ::
  "gotime \<Rightarrow> string option \<Rightarrow> string option \<Rightarrow> string list option \<Rightarrow> User \<Rightarrow> User" where
  "updated_user now displayName status roles user =
     user\<lparr>u_DisplayName := (case displayName of None \<Rightarrow> u_DisplayName user | Some v \<Rightarrow> v),
          u_Status := (case status of None \<Rightarrow> u_Status user | Some v \<Rightarrow> v),
          u_Roles := (case roles of None \<Rightarrow> u_Roles user | Some v \<Rightarrow> v),
          u_UpdatedAt := now\<rparr>"

definition UpdateUser :: "env \<Rightarrow> string \<Rightarrow> UpdateUserInput \<Rightarrow> User \<Rightarrow> Memory \<Rightarrow> User result \<times> Memory" where
  "UpdateUser e userID inp actor m =
     (case validate_update inp of
        Inl err \<Rightarrow> (Inl err, m)
      | Inr (displayName, status, roles) \<Rightarrow>
     (case requirePlatformAdminLocked m (u_ID actor) of
        Some err \<Rightarrow> (Inl err, m)
      | None \<Rightarrow>
     (case mget (m_users m) userID of
        None \<Rightarrow> (Inl (NewProblem ''NOT_FOUND'' False), m)
      | Some r \<Rightarrow>
          let user = su_User r;
              futureStatus = (case status of None \<Rightarrow> u_Status user | Some v \<Rightarrow> v);
              futureRoles = (case roles of None \<Rightarrow> u_Roles user | Some v \<Rightarrow> v);
              removesActiveAdmin = (hasRole user ''platform_admin'' \<and> u_Status user = ''active'' \<and>
                (futureStatus \<noteq> ''active'' \<or> \<not> containsString futureRoles ''platform_admin''))
          in if removesActiveAdmin \<and> activeAdminCountLocked m \<le> 1
             then (Inl (NewProblem ''OPERATION_CONFLICT'' False), m)
             else
               let user' = updated_user (clk e 0) displayName status roles user;
                   m1 = m\<lparr>m_users := mput userID (r\<lparr>su_User := user'\<rparr>) (m_users m)\<rparr>;
                   m2 = (if u_Status user' \<noteq> ''active''
                         then revokePasswordResetTokensLocked userID (revokeUserSessionsLocked userID m1) else m1)
               in (Inr user',
                   recordAuditLocked (uuid e 0) (clk e 1) (u_DisplayName actor) ''user.update'' ''user'' userID ''success'' [] m2))))"

section \<open>Password resets (identity.go)\<close>

definition IssuePasswordResetToken ::
  "lib \<Rightarrow> env \<Rightarrow> string \<Rightarrow> User \<Rightarrow> Memory \<Rightarrow> PasswordResetToken result \<times> Memory" where
  "IssuePasswordResetToken L e userID actor m =
     (let audit = (\<lambda>res. recordAuditLocked (uuid e 0) (clk e 1) (u_DisplayName actor) ''auth.password_reset.issue''
                      ''user'' userID res [])
      in case requirePlatformAdminLocked m (u_ID actor) of
           Some err \<Rightarrow> (Inl err, m)
         | None \<Rightarrow>
             (case mget (m_users m) userID of
                None \<Rightarrow> (Inl (NewProblem ''NOT_FOUND'' False), audit ''failure'' m)
              | Some r \<Rightarrow>
                  if u_Status (su_User r) \<noteq> ''active''
                  then (Inl (NewProblem ''OPERATION_CONFLICT'' False), audit ''failure'' m)
                  else
                    let expiresAt = clk e 0 + passwordResetTTL
                    in (Inr \<lparr>prt_Token = tok e 0, prt_ExpiresAt = expiresAt\<rparr>,
                        audit ''success''
                          (m\<lparr>m_passwordResetTokens := mput (tokenDigest L (tok e 0))
                               \<lparr>prr_UserID = userID, prr_ExpiresAt = expiresAt\<rparr> (m_passwordResetTokens m)\<rparr>))))"

text \<open>The pending reset and its user, when the token is valid.\<close>

definition validateResetTokenLocked :: "string \<Rightarrow> gotime \<Rightarrow> Memory \<Rightarrow> problem option" where
  "validateResetTokenLocked digest now m =
     (case mget (m_passwordResetTokens m) digest of
        None \<Rightarrow> Some (NewProblem ''AUTH_INVALID_RESET_TOKEN'' False)
      | Some reset \<Rightarrow>
          (case mget (m_users m) (prr_UserID reset) of
             None \<Rightarrow> Some (NewProblem ''AUTH_INVALID_RESET_TOKEN'' False)
           | Some r \<Rightarrow>
               if u_Status (su_User r) \<noteq> ''active'' \<or> \<not> now < prr_ExpiresAt reset
               then Some (NewProblem ''AUTH_INVALID_RESET_TOKEN'' False) else None))"

definition reset_commit :: "env \<Rightarrow> string \<Rightarrow> string \<Rightarrow> Memory \<Rightarrow> problem option \<times> Memory" where
  "reset_commit e digest passwordHash m =
     (let now = clk e 1 in
      case validateResetTokenLocked digest now m of
        Some err \<Rightarrow> (Some err, m\<lparr>m_passwordResetTokens := mdel digest (m_passwordResetTokens m)\<rparr>)
      | None \<Rightarrow>
          (case mget (m_passwordResetTokens m) digest of
             None \<Rightarrow> (None, m)
           | Some reset \<Rightarrow>
               let r = mget_zero zero_stored_user (m_users m) (prr_UserID reset);
                   user = (su_User r)\<lparr>u_UpdatedAt := now\<rparr>;
                   m1 = m\<lparr>m_users := mput (u_ID user) \<lparr>su_User = user, su_PasswordPHC = passwordHash\<rparr> (m_users m),
                          m_passwordResetTokens :=
                            mdel_if (\<lambda>_ pending. prr_UserID pending = u_ID user) (m_passwordResetTokens m)\<rparr>
               in (None,
                   recordAuditLocked (uuid e 0) (clk e 2) (u_DisplayName user) ''auth.password_reset.consume'' ''user''
                     (u_ID user) ''success'' [] (revokeUserSessionsLocked (u_ID user) m1))))"

definition ResetPassword :: "lib \<Rightarrow> env \<Rightarrow> string \<Rightarrow> string \<Rightarrow> Memory \<Rightarrow> problem option \<times> Memory" where
  "ResetPassword L e token password m =
     (case validatePassword password of
        Some err \<Rightarrow> (Some err, m)
      | None \<Rightarrow>
          let digest = tokenDigest L token in
          case validateResetTokenLocked digest (clk e 0) m of
            Some err \<Rightarrow> (Some err, m\<lparr>m_passwordResetTokens := mdel digest (m_passwordResetTokens m)\<rparr>)
          | None \<Rightarrow>
              (case hash_password L password of
                 None \<Rightarrow> (Some (NewProblem ''INTERNAL_ERROR'' True), m)
               | Some passwordHash \<Rightarrow> reset_commit e digest passwordHash m))"

section \<open>Memberships and authorization (identity.go)\<close>

definition get_server_membership :: "string \<Rightarrow> string \<Rightarrow> Memory \<Rightarrow> ServerMembership result" where
  "get_server_membership serverID userID m =
     (case membership_of m serverID userID of
        None \<Rightarrow> Inl (NewProblem ''NOT_FOUND'' False) | Some membership \<Rightarrow> Inr membership)"

definition PutServerMembership ::
  "env \<Rightarrow> string \<Rightarrow> string \<Rightarrow> string list \<Rightarrow> User \<Rightarrow> Memory \<Rightarrow> ServerMembership result \<times> Memory" where
  "PutServerMembership e serverID userID permissions0 actor m =
     (case normalizePermissions permissions0 of
        Inl err \<Rightarrow> (Inl err, m)
      | Inr permissions \<Rightarrow>
     (case requirePlatformAdminLocked m (u_ID actor) of
        Some err \<Rightarrow> (Inl err, m)
      | None \<Rightarrow>
          if \<not> mhas (m_servers m) serverID then (Inl (NewProblem ''NOT_FOUND'' False), m)
          else
            (case mget (m_users m) userID of
               None \<Rightarrow> (Inl (NewProblem ''NOT_FOUND'' False), m)
             | Some user \<Rightarrow>
                 if u_Status (su_User user) \<noteq> ''active'' then (Inl (NewProblem ''NOT_FOUND'' False), m)
                 else
                   let now = clk e 0;
                       base = (case membership_of m serverID userID of
                                 Some membership \<Rightarrow> membership
                               | None \<Rightarrow> \<lparr>sm_ServerID = serverID, sm_UserID = userID, sm_Permissions = [],
                                          sm_CreatedAt = now, sm_UpdatedAt = 0\<rparr>);
                       membership = base\<lparr>sm_Permissions := permissions, sm_UpdatedAt := now\<rparr>;
                       members = mput userID membership (mget_zero [] (m_memberships m) serverID)
                   in (Inr membership,
                       recordAuditLocked (uuid e 0) (clk e 1) (u_DisplayName actor) ''server.membership.put'' ''server''
                         serverID ''success'' [] (m\<lparr>m_memberships := mput serverID members (m_memberships m)\<rparr>)))))"

definition DeleteServerMembership ::
  "env \<Rightarrow> string \<Rightarrow> string \<Rightarrow> User \<Rightarrow> Memory \<Rightarrow> problem option \<times> Memory" where
  "DeleteServerMembership e serverID userID actor m =
     (case requirePlatformAdminLocked m (u_ID actor) of
        Some err \<Rightarrow> (Some err, m)
      | None \<Rightarrow>
          if \<not> mhas (m_servers m) serverID then (Some (NewProblem ''NOT_FOUND'' False), m)
          else if membership_of m serverID userID = None then (Some (NewProblem ''NOT_FOUND'' False), m)
          else
            (None,
             recordAuditLocked (uuid e 0) (clk e 0) (u_DisplayName actor) ''server.membership.delete'' ''server'' serverID
               ''success'' []
               (m\<lparr>m_memberships := mput serverID (mdel userID (mget_zero [] (m_memberships m) serverID)) (m_memberships m)\<rparr>)))"

definition AuthorizeServer :: "string \<Rightarrow> string \<Rightarrow> string \<Rightarrow> Memory \<Rightarrow> problem option" where
  "AuthorizeServer userID serverID permission m =
     (case mget (m_users m) userID of
        None \<Rightarrow> Some (NewProblem ''AUTH_REQUIRED'' False)
      | Some user \<Rightarrow>
          if u_Status (su_User user) \<noteq> ''active'' then Some (NewProblem ''AUTH_REQUIRED'' False)
          else if \<not> mhas (m_servers m) serverID then Some (NewProblem ''NOT_FOUND'' False)
          else if hasRole (su_User user) ''platform_admin'' then None
          else (case membership_of m serverID userID of
                  None \<Rightarrow> Some (NewProblem ''NOT_FOUND'' False)
                | Some membership \<Rightarrow>
                    if \<not> containsString (sm_Permissions membership) permission
                    then Some (NewProblem ''FORBIDDEN'' False) else None))"

definition EffectiveServerPermissions :: "string \<Rightarrow> string \<Rightarrow> Memory \<Rightarrow> ServerPermissions result" where
  "EffectiveServerPermissions userID serverID m =
     (case mget (m_users m) userID of
        None \<Rightarrow> Inl (NewProblem ''AUTH_REQUIRED'' False)
      | Some user \<Rightarrow>
          if u_Status (su_User user) \<noteq> ''active'' then Inl (NewProblem ''AUTH_REQUIRED'' False)
          else if \<not> mhas (m_servers m) serverID then Inl (NewProblem ''NOT_FOUND'' False)
          else if hasRole (su_User user) ''platform_admin''
          then Inr \<lparr>sp_ServerID = serverID, sp_Permissions = allServerPermissions\<rparr>
          else (case membership_of m serverID userID of
                  None \<Rightarrow> Inl (NewProblem ''NOT_FOUND'' False)
                | Some membership \<Rightarrow>
                    if \<not> containsString (sm_Permissions membership) ''servers.read''
                    then Inl (NewProblem ''NOT_FOUND'' False)
                    else Inr \<lparr>sp_ServerID = serverID, sp_Permissions = sort_strings (sm_Permissions membership)\<rparr>))"

text \<open>The membership test of the listing methods.\<close>

definition can_read :: "Memory \<Rightarrow> bool \<Rightarrow> string \<Rightarrow> string \<Rightarrow> bool" where
  "can_read m admin userID serverID =
     (admin \<or> (case membership_of m serverID userID of
                 None \<Rightarrow> False | Some membership \<Rightarrow> containsString (sm_Permissions membership) ''servers.read''))"

definition VisibleServers :: "lib \<Rightarrow> gotime \<Rightarrow> string \<Rightarrow> string \<Rightarrow> Memory \<Rightarrow> Server list \<times> Memory" where
  "VisibleServers L now userID query m0 =
     (let m = reconcileNodeLivenessLocked now m0 in
      case mget (m_users m) userID of
        None \<Rightarrow> ([], m)
      | Some user \<Rightarrow>
          if u_Status (su_User user) \<noteq> ''active'' then ([], m)
          else
            let admin = hasRole (su_User user) ''platform_admin'';
                q = ToLower (uni_lower L) (TrimSpace query)
            in (filter (server_matches L q)
                  (map (mget_zero zero_server (m_servers m)) (filter (can_read m admin userID) (m_serverOrder m))), m))"

end
