(* ===== verification/Access_Tokens.thy ===== *)
theory Access_Tokens
  imports Identity_Store
begin

text \<open>
  API tokens, console connection tokens (\<^verbatim>\<open>internal/store/access_tokens.go\<close>), enrollment tokens and
  node revocation (\<^verbatim>\<open>internal/store/enrollment_tokens.go\<close>) of the in-memory store. Stores keep
  digests; a plain token is \<open>tok e 0\<close> of the issuing call.
\<close>

section \<open>API tokens\<close>

definition consoleConnectionTTL :: duration where
  "consoleConnectionTTL = minute"

definition allowedAPITokenScopes :: "string list" where
  "allowedAPITokenScopes =
     [''platform.admin'', ''audit.read'', ''nodes.manage'', ''catalog.manage'', ''automation.manage'',
      ''notifications.manage'', ''storage.manage'', ''quotas.manage''] @ allowedServerPermissions"

definition normalizeAPITokenInput :: "CreateAPITokenInput \<Rightarrow> gotime \<Rightarrow> CreateAPITokenInput result" where
  "normalizeAPITokenInput inp now =
     (let name = TrimSpace (cat_Name inp) in
      if rune_count name < 1 \<or> rune_count name > 64 then Inl (NewProblem ''VALIDATION_FAILED'' False)
      else if cat_Scopes inp = [] then Inl (NewProblem ''VALIDATION_FAILED'' False)
      else case normalize_names allowedAPITokenScopes (cat_Scopes inp) of
             None \<Rightarrow> Inl (NewProblem ''VALIDATION_FAILED'' False)
           | Some scopes \<Rightarrow>
               (case cat_ExpiresAt inp of
                  None \<Rightarrow> Inr \<lparr>cat_Name = name, cat_Scopes = scopes, cat_ExpiresAt = None\<rparr>
                | Some expires \<Rightarrow>
                    if \<not> expires > now + minute \<or> expires > now + 366 * 24 * hour
                    then Inl (NewProblem ''VALIDATION_FAILED'' False)
                    else Inr \<lparr>cat_Name = name, cat_Scopes = scopes, cat_ExpiresAt = Some expires\<rparr>))"

definition CreateAPIToken ::
  "lib \<Rightarrow> env \<Rightarrow> CreateAPITokenInput \<Rightarrow> User \<Rightarrow> Memory \<Rightarrow> APITokenCredential result \<times> Memory" where
  "CreateAPIToken L e inp actor m =
     (let now = clk e 0 in
      case normalizeAPITokenInput inp now of
        Inl err \<Rightarrow> (Inl err, m)
      | Inr normalized \<Rightarrow>
          (case currentActorLocked m (u_ID actor) of
             Inl err \<Rightarrow> (Inl err, m)
           | Inr current \<Rightarrow>
               let token = \<lparr>at_ID = uuid e 0, at_Name = cat_Name normalized, at_Scopes = cat_Scopes normalized,
                     at_ExpiresAt = cat_ExpiresAt normalized, at_LastUsedAt = None, at_CreatedAt = now\<rparr>;
                   m1 = m\<lparr>m_apiTokens := mput (at_ID token) \<lparr>mat_Token = token, mat_UserID = u_ID current\<rparr> (m_apiTokens m),
                          m_apiTokenByDigest := mput (tokenDigest L (tok e 0)) (at_ID token) (m_apiTokenByDigest m)\<rparr>
               in (Inr \<lparr>atc_APIToken = token, atc_Token = tok e 0\<rparr>,
                   recordAuditLocked (uuid e 2) (clk e 1) (u_DisplayName current) ''api_token.create'' ''api_token''
                     (at_Name token) ''success'' (uuid e 1) m1)))"

text \<open>\<^verbatim>\<open>sort.Slice\<close> by descending creation time.\<close>

definition APITokens :: "string \<Rightarrow> Memory \<Rightarrow> APIToken list" where
  "APITokens userID m =
     sort_key (\<lambda>t. - at_CreatedAt t)
       (map (\<lambda>(_, r). mat_Token r) (filter (\<lambda>(_, r). mat_UserID r = userID) (m_apiTokens m)))"

definition RevokeAPIToken :: "env \<Rightarrow> string \<Rightarrow> User \<Rightarrow> Memory \<Rightarrow> problem option \<times> Memory" where
  "RevokeAPIToken e tokenID actor m =
     (case currentActorLocked m (u_ID actor) of
        Inl err \<Rightarrow> (Some err, m)
      | Inr current \<Rightarrow>
          (case mget (m_apiTokens m) tokenID of
             None \<Rightarrow> (Some (NewProblem ''NOT_FOUND'' False), m)
           | Some r \<Rightarrow>
               if mat_UserID r \<noteq> u_ID current then (Some (NewProblem ''NOT_FOUND'' False), m)
               else
                 (None,
                  recordAuditLocked (uuid e 1) (clk e 0) (u_DisplayName current) ''api_token.revoke'' ''api_token''
                    (at_Name (mat_Token r)) ''success'' (uuid e 0)
                    (m\<lparr>m_apiTokens := mdel tokenID (m_apiTokens m),
                       m_apiTokenByDigest := mdel_if (\<lambda>_ i. i = tokenID) (m_apiTokenByDigest m)\<rparr>))))"

definition AuthenticateAPIToken :: "lib \<Rightarrow> env \<Rightarrow> string \<Rightarrow> Memory \<Rightarrow> APITokenPrincipal result \<times> Memory" where
  "AuthenticateAPIToken L e raw m =
     (let now = clk e 0 in
      case mget (m_apiTokenByDigest m) (tokenDigest L raw) of
        None \<Rightarrow> (Inl (NewProblem ''AUTH_REQUIRED'' False), m)
      | Some tokenID \<Rightarrow>
          (case mget (m_apiTokens m) tokenID of
             None \<Rightarrow> (Inl (NewProblem ''AUTH_REQUIRED'' False), m)
           | Some r \<Rightarrow>
               if (case at_ExpiresAt (mat_Token r) of None \<Rightarrow> False | Some expires \<Rightarrow> \<not> expires > now)
               then (Inl (NewProblem ''AUTH_REQUIRED'' False), m)
               else
                 (case currentActorLocked m (mat_UserID r) of
                    Inl _ \<Rightarrow> (Inl (NewProblem ''AUTH_REQUIRED'' False), m)
                  | Inr user \<Rightarrow>
                      let r' = r\<lparr>mat_Token := (mat_Token r)\<lparr>at_LastUsedAt := Some now\<rparr>\<rparr>
                      in (Inr \<lparr>atp_User = user, atp_Scopes = at_Scopes (mat_Token r), atp_APITokenID = tokenID,
                             atp_Environment = m_environment m\<rparr>,
                          m\<lparr>m_apiTokens := mput tokenID r' (m_apiTokens m)\<rparr>))))"

section \<open>Console connection tokens\<close>

definition IssueConsoleConnectionToken ::
  "lib \<Rightarrow> env \<Rightarrow> string \<Rightarrow> string \<Rightarrow> Memory \<Rightarrow> ConsoleConnectionCredential result \<times> Memory" where
  "IssueConsoleConnectionToken L e serverID userID m =
     (case authorizeServerLocked m userID serverID ''servers.console'' of
        Inl err \<Rightarrow> (Inl err, m)
      | Inr _ \<Rightarrow>
          let expires = clk e 0 + consoleConnectionTTL
          in (Inr \<lparr>ccc_Token = tok e 0, ccc_ExpiresAt = expires\<rparr>,
              m\<lparr>m_consoleTokens := mput (tokenDigest L (tok e 0))
                   \<lparr>ccp_UserID = userID, ccp_ServerID = serverID, ccp_ExpiresAt = expires\<rparr> (m_consoleTokens m)\<rparr>))"

definition ConsumeConsoleConnectionToken ::
  "lib \<Rightarrow> env \<Rightarrow> string \<Rightarrow> Memory \<Rightarrow> ConsoleConnectionPrincipal result \<times> Memory" where
  "ConsumeConsoleConnectionToken L e raw m =
     (let digest = tokenDigest L raw;
          m1 = m\<lparr>m_consoleTokens := mdel digest (m_consoleTokens m)\<rparr>
      in case mget (m_consoleTokens m) digest of
           None \<Rightarrow> (Inl (NewProblem ''AUTH_REQUIRED'' False), m1)
         | Some found \<Rightarrow>
             if \<not> ccp_ExpiresAt found > clk e 0 then (Inl (NewProblem ''AUTH_REQUIRED'' False), m1)
             else (case authorizeServerLocked m1 (ccp_UserID found) (ccp_ServerID found) ''servers.console'' of
                     Inl _ \<Rightarrow> (Inl (NewProblem ''FORBIDDEN'' False), m1)
                   | Inr _ \<Rightarrow> (Inr found, m1)))"

section \<open>Enrollment tokens (enrollment_tokens.go)\<close>

definition enrollmentTokenDefaultTTL :: duration where
  "enrollmentTokenDefaultTTL = 24 * hour"

definition enrollmentTokenMaxTTL :: duration where
  "enrollmentTokenMaxTTL = 7 * 24 * hour"

definition normalizeEnrollmentTokenInput :: "string \<Rightarrow> duration \<Rightarrow> (string \<times> duration) result" where
  "normalizeEnrollmentTokenInput nodeNameHint ttl =
     (let hint = TrimSpace nodeNameHint in
      if rune_count hint > 100 then Inl (NewProblem ''VALIDATION_FAILED'' False)
      else if ttl < 0 \<or> ttl > enrollmentTokenMaxTTL then Inl (NewProblem ''VALIDATION_FAILED'' False)
      else Inr (hint, if ttl = 0 then enrollmentTokenDefaultTTL else ttl))"

definition enrollmentTokenDigest :: "lib \<Rightarrow> string \<Rightarrow> string" where
  "enrollmentTokenDigest L token = sha256 L token"

definition IssueEnrollmentToken ::
  "lib \<Rightarrow> env \<Rightarrow> string \<Rightarrow> duration \<Rightarrow> Memory \<Rightarrow> (string \<times> gotime) result \<times> Memory" where
  "IssueEnrollmentToken L e nodeNameHint ttl m =
     (case normalizeEnrollmentTokenInput nodeNameHint ttl of
        Inl err \<Rightarrow> (Inl err, m)
      | Inr (_, ttl') \<Rightarrow>
          let expiresAt = clk e 0 + ttl'
          in (Inr (tok e 0, expiresAt),
              m\<lparr>m_enrollmentTokens := mput (enrollmentTokenDigest L (tok e 0)) expiresAt (m_enrollmentTokens m)\<rparr>))"

definition ConsumeEnrollmentToken :: "lib \<Rightarrow> env \<Rightarrow> string \<Rightarrow> Memory \<Rightarrow> problem option \<times> Memory" where
  "ConsumeEnrollmentToken L e rawToken m =
     (if rawToken = [] then (Some (NewProblem ''ENROLLMENT_TOKEN_INVALID'' False), m)
      else
        let digest = enrollmentTokenDigest L rawToken in
        case mget (m_enrollmentTokens m) digest of
          None \<Rightarrow> (Some (NewProblem ''ENROLLMENT_TOKEN_INVALID'' False), m)
        | Some expiresAt \<Rightarrow>
            (if \<not> clk e 0 < expiresAt then Some (NewProblem ''ENROLLMENT_TOKEN_INVALID'' False) else None,
             m\<lparr>m_enrollmentTokens := mdel digest (m_enrollmentTokens m)\<rparr>))"

text \<open>The administrator test shared by the two methods below.\<close>

definition is_current_admin :: "Memory \<Rightarrow> string \<Rightarrow> bool" where
  "is_current_admin m userID =
     (case currentActorLocked m userID of Inl _ \<Rightarrow> False | Inr current \<Rightarrow> hasRole current ''platform_admin'')"

definition IssueAgentEnrollmentToken ::
  "lib \<Rightarrow> env \<Rightarrow> string \<Rightarrow> duration \<Rightarrow> User \<Rightarrow> Memory \<Rightarrow> (string \<times> gotime) result \<times> Memory" where
  "IssueAgentEnrollmentToken L e nodeNameHint ttl actor m =
     (if \<not> is_current_admin m (u_ID actor) then (Inl (NewProblem ''FORBIDDEN'' False), m)
      else IssueEnrollmentToken L e nodeNameHint ttl m)"

definition RevokeNode :: "string \<Rightarrow> User \<Rightarrow> Memory \<Rightarrow> problem option \<times> Memory" where
  "RevokeNode nodeID actor m =
     (if \<not> is_current_admin m (u_ID actor) then (Some (NewProblem ''FORBIDDEN'' False), m)
      else if \<not> mhas (m_nodes m) nodeID then (Some (NewProblem ''NOT_FOUND'' False), m)
      else if mget_zero False (m_revokedNodes m) nodeID then (Some (NewProblem ''NOT_FOUND'' False), m)
      else (None, m\<lparr>m_revokedNodes := mput nodeID True (m_revokedNodes m)\<rparr>))"

end
