(* ===== verification/Single_Use.thy ===== *)
theory Single_Use
  imports Access_Tokens
begin

text \<open>
  One-time credentials. The contract of a store that consumes a credential is the locale
  \<open>single_use\<close>; enrollment tokens, console connection tokens and password reset tokens are
  instances of it.
\<close>

section \<open>The contract\<close>

text \<open>A sequence of consumption calls, with the results in order.\<close>

fun consume_all ::
  "('c \<Rightarrow> 't \<Rightarrow> 's \<Rightarrow> bool \<times> 's) \<Rightarrow> ('c \<times> 't) list \<Rightarrow> 's \<Rightarrow> ('t \<times> bool) list \<times> 's" where
  "consume_all f [] s = ([], s)"
| "consume_all f ((c, t) # calls) s =
     (case f c t s of (b, s1) \<Rightarrow>
        (case consume_all f calls s1 of (rs, s2) \<Rightarrow> ((t, b) # rs, s2)))"

locale single_use =
  fixes consume :: "'c \<Rightarrow> 't \<Rightarrow> 's \<Rightarrow> bool \<times> 's"
    and live :: "'t \<Rightarrow> 's \<Rightarrow> bool"
    and inv :: "'s \<Rightarrow> bool"
  assumes inv_kept: "inv s \<Longrightarrow> consume c t s = (b, s') \<Longrightarrow> inv s'"
    and success_live: "inv s \<Longrightarrow> consume c t s = (True, s') \<Longrightarrow> live t s"
    and consumed: "inv s \<Longrightarrow> consume c t s = (b, s') \<Longrightarrow> \<not> live t s'"
    and keeps_dead: "inv s \<Longrightarrow> consume c t s = (b, s') \<Longrightarrow> \<not> live u s \<Longrightarrow> \<not> live u s'"
begin

lemma dead_never:
  "inv s \<Longrightarrow> \<not> live t s \<Longrightarrow> count_list (fst (consume_all consume calls s)) (t, True) = 0"
proof (induction calls arbitrary: s)
  case (Cons call calls)
  obtain c u b s1 where call: "call = (c, u)" and r: "consume c u s = (b, s1)" by (metis prod.exhaust)
  from r Cons.prems success_live have "\<not> (u = t \<and> b)" by metis
  with Cons.IH [OF inv_kept [OF Cons.prems(1) r] keeps_dead [OF Cons.prems(1) r Cons.prems(2)]] call r
  show ?case by (auto split: prod.splits)
qed simp

lemma at_most_once: "inv s \<Longrightarrow> count_list (fst (consume_all consume calls s)) (t, True) \<le> 1"
proof (induction calls arbitrary: s)
  case (Cons call calls)
  obtain c u b s1 where call: "call = (c, u)" and r: "consume c u s = (b, s1)" by (metis prod.exhaust)
  have inv1: "inv s1" using inv_kept Cons.prems r .
  show ?case
  proof (cases "u = t \<and> b")
    case True
    with consumed [OF Cons.prems r] inv1
    have "count_list (fst (consume_all consume calls s1)) (t, True) = 0"
      by (intro dead_never) simp_all
    with call r True show ?thesis by (auto split: prod.splits)
  next
    case False
    with Cons.IH [OF inv1] call r show ?thesis by (auto split: prod.splits)
  qed
qed simp

end

section \<open>The stores\<close>

definition enrollment_call :: "lib \<Rightarrow> env \<Rightarrow> string \<Rightarrow> Memory \<Rightarrow> bool \<times> Memory" where
  "enrollment_call L e t m = (case ConsumeEnrollmentToken L e t m of (r, m') \<Rightarrow> (r = None, m'))"

definition enrollment_live :: "lib \<Rightarrow> string \<Rightarrow> Memory \<Rightarrow> bool" where
  "enrollment_live L t m \<longleftrightarrow> t \<noteq> [] \<and> mhas (m_enrollmentTokens m) (enrollmentTokenDigest L t)"

interpretation enroll: single_use "enrollment_call L" "enrollment_live L" "\<lambda>_. True" for L
  by unfold_locales
    (auto simp: enrollment_call_def enrollment_live_def ConsumeEnrollmentToken_def Let_def mhas_def
      split: if_splits option.splits)

definition console_call :: "lib \<Rightarrow> env \<Rightarrow> string \<Rightarrow> Memory \<Rightarrow> bool \<times> Memory" where
  "console_call L e t m = (case ConsumeConsoleConnectionToken L e t m of (r, m') \<Rightarrow> (\<not> isl r, m'))"

definition console_live :: "lib \<Rightarrow> string \<Rightarrow> Memory \<Rightarrow> bool" where
  "console_live L t m \<longleftrightarrow> mhas (m_consoleTokens m) (tokenDigest L t)"

interpretation console: single_use "console_call L" "console_live L" "\<lambda>_. True" for L
  by unfold_locales
    (auto simp: console_call_def console_live_def ConsumeConsoleConnectionToken_def Let_def mhas_def
      split: if_splits option.splits sum.splits)

section \<open>Properties\<close>

text \<open>an enrollment token registers at most one agent and a console token opens at most one
  connection: in any sequence of consumption calls, in any order and at any times, at most one call
  with a given token succeeds.\<close>

theorem tokens_single_use:
  "count_list (fst (consume_all (enrollment_call L) calls m)) (t, True) \<le> 1 \<and>
   count_list (fst (consume_all (console_call L) calls m)) (t, True) \<le> 1"
  using enroll.at_most_once console.at_most_once by blast

text \<open>issuing works: a freshly issued enrollment token with time to live at most seven days is
  accepted by the first consumption before it expires, and refused from its expiry on.\<close>

theorem enrollment_roundtrip:
  assumes "IssueEnrollmentToken L e hint ttl m = (Inr (token, expiresAt), m')" "token \<noteq> []"
  shows "(ConsumeEnrollmentToken L e2 token m' =
           (if clk e2 0 < expiresAt then None else Some (NewProblem ''ENROLLMENT_TOKEN_INVALID'' False),
            m'\<lparr>m_enrollmentTokens := mdel (enrollmentTokenDigest L token) (m_enrollmentTokens m')\<rparr>)) \<and>
         clk e 0 < expiresAt \<and> expiresAt \<le> clk e 0 + enrollmentTokenMaxTTL"
  using assms
  by (auto simp: IssueEnrollmentToken_def ConsumeEnrollmentToken_def normalizeEnrollmentTokenInput_def Let_def
      enrollmentTokenDefaultTTL_def enrollmentTokenMaxTTL_def duration_defs split: if_splits)

lemma sample_issue:
  "fst (IssueEnrollmentToken sample_lib sample_env '' node '' 0 sample_store) = Inr (''tok'', 86400000001000)"
  by code_simp

theorem enrollment_roundtrip_witness:
  "\<exists>m'. IssueEnrollmentToken sample_lib sample_env '' node '' 0 sample_store = (Inr (''tok'', 86400000001000), m') \<and>
     fst (ConsumeEnrollmentToken sample_lib sample_env ''tok'' m') = None"
proof -
  obtain m' where i: "IssueEnrollmentToken sample_lib sample_env '' node '' 0 sample_store = (Inr (''tok'', 86400000001000), m')"
    using sample_issue by (metis prod.collapse)
  from enrollment_roundtrip [OF i, of sample_env] have "fst (ConsumeEnrollmentToken sample_lib sample_env ''tok'' m') = None"
    by (simp add: sample_env_def)
  with i show ?thesis by blast
qed

end
