(* ===== verification/Identity_Invariants.thy ===== *)
theory Identity_Invariants
  imports Single_Use
begin

text \<open>
  The invariants of the identity component over every interleaving of its critical sections: the
  e-mail index is exact, every session, API token, console token and reset token belongs to an
  active user, the store never loses its last administrator, and the setup entry point closes.
\<close>

section \<open>Invariants\<close>

definition active_user :: "Memory \<Rightarrow> string \<Rightarrow> bool" where
  "active_user m i \<longleftrightarrow> (\<exists>r. mget (m_users m) i = Some r \<and> u_Status (su_User r) = ''active'')"

definition users_ok :: "Memory \<Rightarrow> bool" where
  "users_ok m \<longleftrightarrow>
     mwf (m_users m) \<and>
     (\<forall>i r. mget (m_users m) i = Some r \<longrightarrow> u_ID (su_User r) = i \<and> mget (m_userByEmail m) (u_Email (su_User r)) = Some i) \<and>
     (\<forall>em i. mget (m_userByEmail m) em = Some i \<longrightarrow> (\<exists>r. mget (m_users m) i = Some r \<and> u_Email (su_User r) = em))"

definition credentials_ok :: "Memory \<Rightarrow> bool" where
  "credentials_ok m \<longleftrightarrow>
     mwf (m_sessions m) \<and> mwf (m_apiTokens m) \<and> mwf (m_apiTokenByDigest m) \<and> mwf (m_consoleTokens m) \<and>
     mwf (m_passwordResetTokens m) \<and>
     (\<forall>d s. mget (m_sessions m) d = Some s \<longrightarrow> active_user m (ses_UserID s)) \<and>
     (\<forall>i r. mget (m_apiTokens m) i = Some r \<longrightarrow> active_user m (mat_UserID r)) \<and>
     (\<forall>d i. mget (m_apiTokenByDigest m) d = Some i \<longrightarrow> mhas (m_apiTokens m) i) \<and>
     (\<forall>d c. mget (m_consoleTokens m) d = Some c \<longrightarrow> active_user m (ccp_UserID c)) \<and>
     (\<forall>d r. mget (m_passwordResetTokens m) d = Some r \<longrightarrow> active_user m (prr_UserID r))"

definition setup_ok :: "Memory \<Rightarrow> bool" where
  "setup_ok m \<longleftrightarrow> (m_setupRequired m \<longrightarrow> m_users m = [])"

definition identity_ok :: "Memory \<Rightarrow> bool" where
  "identity_ok m \<longleftrightarrow> users_ok m \<and> credentials_ok m \<and> setup_ok m"

section \<open>Steps\<close>

text \<open>
  One step is one critical section of one call, at any time, with any captured arguments. The
  guards say that an identifier drawn at random is not in use.
\<close>

inductive identity_step :: "lib \<Rightarrow> Memory \<Rightarrow> Memory \<Rightarrow> bool" for L where
  login: "login_commit L e user passwordHash m = (r, m') \<Longrightarrow> identity_step L m m'"
| authenticate: "AuthenticateSession L e token m = (r2, m') \<Longrightarrow> identity_step L m m'"
| recover: "RecoverSession L e token m = (r, m') \<Longrightarrow> identity_step L m m'"
| logout: "identity_step L m (Logout L e token m)"
| first_admin: "setup_commit e d em n h m = (r3, m') \<Longrightarrow> \<not> mhas (m_users m) (uuid e 0) \<Longrightarrow> identity_step L m m'"
| create_user: "create_user_commit e em n rs h actor m = (r3, m') \<Longrightarrow> \<not> mhas (m_users m) (uuid e 0) \<Longrightarrow>
    identity_step L m m'"
| update_user: "UpdateUser e i inp actor m = (r3, m') \<Longrightarrow> identity_step L m m'"
| issue_reset: "IssuePasswordResetToken L e i actor m = (r4, m') \<Longrightarrow> identity_step L m m'"
| drop_reset: "identity_step L m (m\<lparr>m_passwordResetTokens := mdel d (m_passwordResetTokens m)\<rparr>)"
| reset: "reset_commit e d h m = (r5, m') \<Longrightarrow> identity_step L m m'"
| create_token: "CreateAPIToken L e inp2 actor m = (r6, m') \<Longrightarrow> \<not> mhas (m_apiTokens m) (uuid e 0) \<Longrightarrow>
    identity_step L m m'"
| revoke_token: "RevokeAPIToken e t actor m = (r5, m') \<Longrightarrow> identity_step L m m'"
| use_token: "AuthenticateAPIToken L e t m = (r7, m') \<Longrightarrow> identity_step L m m'"
| issue_console: "IssueConsoleConnectionToken L e s i m = (r8, m') \<Longrightarrow> identity_step L m m'"
| use_console: "ConsumeConsoleConnectionToken L e t m = (r9, m') \<Longrightarrow> identity_step L m m'"

section \<open>Preservation\<close>

lemma active_user_same: "m_users m' = m_users m \<Longrightarrow> active_user m' = active_user m"
  by (rule ext) (simp add: active_user_def)

lemma identity_ok_audit [simp]: "identity_ok (recordAuditLocked a b c d f g h i m) = identity_ok m"
  by (simp add: identity_ok_def users_ok_def credentials_ok_def setup_ok_def active_user_def)

lemma active_frame [simp]:
  "active_user (m\<lparr>m_sessions := x1\<rparr>) = active_user m"
  "active_user (m\<lparr>m_passwordResetTokens := x2\<rparr>) = active_user m"
  "active_user (m\<lparr>m_consoleTokens := x3\<rparr>) = active_user m"
  "active_user (m\<lparr>m_apiTokens := x4\<rparr>) = active_user m"
  "active_user (m\<lparr>m_apiTokens := x4, m_apiTokenByDigest := x5\<rparr>) = active_user m"
  by (rule active_user_same; simp)+

lemma users_frame [simp]:
  "users_ok (m\<lparr>m_sessions := x1\<rparr>) = users_ok m" "setup_ok (m\<lparr>m_sessions := x1\<rparr>) = setup_ok m"
  "users_ok (m\<lparr>m_passwordResetTokens := x2\<rparr>) = users_ok m" "setup_ok (m\<lparr>m_passwordResetTokens := x2\<rparr>) = setup_ok m"
  "users_ok (m\<lparr>m_consoleTokens := x3\<rparr>) = users_ok m" "setup_ok (m\<lparr>m_consoleTokens := x3\<rparr>) = setup_ok m"
  "users_ok (m\<lparr>m_apiTokens := x4\<rparr>) = users_ok m" "setup_ok (m\<lparr>m_apiTokens := x4\<rparr>) = setup_ok m"
  "users_ok (m\<lparr>m_apiTokens := x4, m_apiTokenByDigest := x5\<rparr>) = users_ok m"
  "setup_ok (m\<lparr>m_apiTokens := x4, m_apiTokenByDigest := x5\<rparr>) = setup_ok m"
  by (simp_all add: users_ok_def setup_ok_def)

text \<open>Storing and removing credentials.\<close>

lemma session_del [inv_intros]: "identity_ok m \<Longrightarrow> identity_ok (m\<lparr>m_sessions := mdel d (m_sessions m)\<rparr>)"
  by (auto simp: identity_ok_def credentials_ok_def)

lemma session_put [inv_intros]:
  "identity_ok m \<Longrightarrow> active_user m (ses_UserID s) \<Longrightarrow> identity_ok (m\<lparr>m_sessions := mput d s (m_sessions m)\<rparr>)"
  by (auto simp: identity_ok_def credentials_ok_def)

lemma reset_del [inv_intros]:
  "identity_ok m \<Longrightarrow> identity_ok (m\<lparr>m_passwordResetTokens := mdel d (m_passwordResetTokens m)\<rparr>)"
  by (auto simp: identity_ok_def credentials_ok_def)

lemma reset_put [inv_intros]:
  "identity_ok m \<Longrightarrow> active_user m (prr_UserID s) \<Longrightarrow>
   identity_ok (m\<lparr>m_passwordResetTokens := mput d s (m_passwordResetTokens m)\<rparr>)"
  by (auto simp: identity_ok_def credentials_ok_def)

lemma console_del [inv_intros]: "identity_ok m \<Longrightarrow> identity_ok (m\<lparr>m_consoleTokens := mdel d (m_consoleTokens m)\<rparr>)"
  by (auto simp: identity_ok_def credentials_ok_def)

lemma console_put [inv_intros]:
  "identity_ok m \<Longrightarrow> active_user m (ccp_UserID s) \<Longrightarrow>
   identity_ok (m\<lparr>m_consoleTokens := mput d s (m_consoleTokens m)\<rparr>)"
  by (auto simp: identity_ok_def credentials_ok_def)

lemma token_put [inv_intros]:
  "identity_ok m \<Longrightarrow> active_user m (mat_UserID s) \<Longrightarrow>
   identity_ok (m\<lparr>m_apiTokens := mput i s (m_apiTokens m), m_apiTokenByDigest := mput d i (m_apiTokenByDigest m)\<rparr>)"
  by (auto simp: identity_ok_def credentials_ok_def)

lemma token_touch [inv_intros]:
  "identity_ok m \<Longrightarrow> active_user m (mat_UserID s) \<Longrightarrow> identity_ok (m\<lparr>m_apiTokens := mput i s (m_apiTokens m)\<rparr>)"
  by (auto simp: identity_ok_def credentials_ok_def)

lemma token_del [inv_intros]:
  "identity_ok m \<Longrightarrow>
   identity_ok (m\<lparr>m_apiTokens := mdel i (m_apiTokens m), m_apiTokenByDigest := mdel_if (\<lambda>_ j. j = i) (m_apiTokenByDigest m)\<rparr>)"
  by (auto simp: identity_ok_def credentials_ok_def mget_del_if mhas_def split: option.splits if_splits)

text \<open>Who the checks admit.\<close>

lemma currentActor_active: "currentActorLocked m i = Inr u \<Longrightarrow> active_user m i \<and> (\<exists>r. mget (m_users m) i = Some r \<and> u = su_User r)"
  by (auto simp: currentActorLocked_def active_user_def split: option.splits if_splits)

lemma authorize_active: "authorizeServerLocked m i s p = Inr u \<Longrightarrow> active_user m i"
  by (auto simp: authorizeServerLocked_def split: sum.splits if_splits option.splits dest: currentActor_active)

lemma live_active: "live_session now d m = Some (s, r) \<Longrightarrow>
    mget (m_sessions m) d = Some s \<and> mget (m_users m) (ses_UserID s) = Some r \<and> active_user m (ses_UserID s)"
  by (auto simp: live_session_def active_user_def split: option.splits if_splits)

lemma user_id: "identity_ok m \<Longrightarrow> mget (m_users m) i = Some r \<Longrightarrow> u_ID (su_User r) = i"
  by (simp add: identity_ok_def users_ok_def)

section \<open>Revocation\<close>

lemma revoke_sel [simp]:
  "m_users (revokeUserSessionsLocked i m) = m_users m"
  "m_userByEmail (revokeUserSessionsLocked i m) = m_userByEmail m"
  "m_setupRequired (revokeUserSessionsLocked i m) = m_setupRequired m"
  "m_passwordResetTokens (revokeUserSessionsLocked i m) = m_passwordResetTokens m"
  "m_servers (revokeUserSessionsLocked i m) = m_servers m"
  "m_users (revokePasswordResetTokensLocked i m) = m_users m"
  "m_userByEmail (revokePasswordResetTokensLocked i m) = m_userByEmail m"
  "m_setupRequired (revokePasswordResetTokensLocked i m) = m_setupRequired m"
  "m_sessions (revokePasswordResetTokensLocked i m) = m_sessions m"
  "m_apiTokens (revokePasswordResetTokensLocked i m) = m_apiTokens m"
  "m_apiTokenByDigest (revokePasswordResetTokensLocked i m) = m_apiTokenByDigest m"
  "m_consoleTokens (revokePasswordResetTokensLocked i m) = m_consoleTokens m"
  by (simp_all add: revokeUserSessionsLocked_def revokePasswordResetTokensLocked_def Let_def)

lemma revoked_sessions:
  assumes "mwf (m_sessions m)" "mwf (m_apiTokens m)" "mwf (m_apiTokenByDigest m)" "mwf (m_consoleTokens m)"
  shows "mget (m_sessions (revokeUserSessionsLocked i m)) d =
      (case mget (m_sessions m) d of None \<Rightarrow> None | Some s \<Rightarrow> if ses_UserID s = i then None else Some s)"
    and "mget (m_apiTokens (revokeUserSessionsLocked i m)) t =
      (case mget (m_apiTokens m) t of None \<Rightarrow> None | Some r \<Rightarrow> if mat_UserID r = i then None else Some r)"
    and "mget (m_consoleTokens (revokeUserSessionsLocked i m)) d =
      (case mget (m_consoleTokens m) d of None \<Rightarrow> None | Some c \<Rightarrow> if ccp_UserID c = i then None else Some c)"
  using assms by (auto simp: revokeUserSessionsLocked_def Let_def mget_del_if split: option.splits)

lemma revoked_digests:
  assumes "mwf (m_apiTokenByDigest m)" "mget (m_apiTokenByDigest (revokeUserSessionsLocked i m)) d = Some t"
  shows "mget (m_apiTokenByDigest m) d = Some t \<and> (\<forall>r. mget (m_apiTokens m) t = Some r \<longrightarrow> mat_UserID r \<noteq> i)"
proof -
  let ?revoked = "map fst (filter (\<lambda>(_, r). mat_UserID r = i) (m_apiTokens m))"
  have "mget (m_apiTokenByDigest m) d = Some t" "t \<notin> set ?revoked"
    using assms by (auto simp: revokeUserSessionsLocked_def Let_def mget_del_if split: option.splits if_splits)
  moreover have "t \<in> set ?revoked" if "mget (m_apiTokens m) t = Some r" "mat_UserID r = i" for r
    using mget_in_set [OF that(1)] that(2) by force
  ultimately show ?thesis by blast
qed

text \<open>Replacing a user record, with revocation when the user may no longer be active.\<close>

lemma user_put_users:
  assumes "users_ok m" "mget (m_users m) i = Some r" "u_ID (su_User q) = i" "u_Email (su_User q) = u_Email (su_User r)"
    "m_users m' = mput i q (m_users m)" "m_userByEmail m' = m_userByEmail m"
  shows "users_ok m'"
  using assms by (fastforce simp: users_ok_def split: if_splits)

lemma user_put_revoked:
  assumes ok: "identity_ok m" and r: "mget (m_users m) i = Some r"
    and q: "u_ID (su_User q) = i" "u_Email (su_User q) = u_Email (su_User r)"
  shows "identity_ok (revokePasswordResetTokensLocked i (revokeUserSessionsLocked i (m\<lparr>m_users := mput i q (m_users m)\<rparr>)))"
    (is "identity_ok ?m")
proof -
  let ?m1 = "m\<lparr>m_users := mput i q (m_users m)\<rparr>"
  have cred: "credentials_ok m" and us: "users_ok m" and st: "setup_ok m" using ok by (auto simp: identity_ok_def)
  have wf: "mwf (m_sessions ?m1)" "mwf (m_apiTokens ?m1)" "mwf (m_apiTokenByDigest ?m1)" "mwf (m_consoleTokens ?m1)"
    "mwf (m_passwordResetTokens ?m1)" using cred by (simp_all add: credentials_ok_def)
  have keep: "active_user ?m j" if "active_user m j" "j \<noteq> i" for j
    using that by (simp add: active_user_def)
  have "credentials_ok ?m"
    unfolding credentials_ok_def
  proof (intro conjI allI impI)
    show "mwf (m_sessions ?m)" "mwf (m_apiTokens ?m)" "mwf (m_apiTokenByDigest ?m)" "mwf (m_consoleTokens ?m)"
      "mwf (m_passwordResetTokens ?m)"
      using wf by (simp_all add: revokeUserSessionsLocked_def revokePasswordResetTokensLocked_def Let_def)
  next
    fix d s assume "mget (m_sessions ?m) d = Some s"
    then show "active_user ?m (ses_UserID s)"
      using revoked_sessions(1) [OF wf(1-4), of i d] cred keep
      by (auto simp: credentials_ok_def split: option.splits if_splits)
  next
    fix d s assume "mget (m_apiTokens ?m) d = Some s"
    then show "active_user ?m (mat_UserID s)"
      using revoked_sessions(2) [OF wf(1-4), of i d] cred keep
      by (auto simp: credentials_ok_def split: option.splits if_splits)
  next
    fix d t assume "mget (m_apiTokenByDigest ?m) d = Some t"
    then have "mget (m_apiTokenByDigest m) d = Some t" "\<forall>r. mget (m_apiTokens m) t = Some r \<longrightarrow> mat_UserID r \<noteq> i"
      using revoked_digests [OF wf(3), of i d t] by auto
    moreover from this(1) cred obtain x where "mget (m_apiTokens m) t = Some x"
      unfolding credentials_ok_def mhas_def by (metis not_None_eq)
    ultimately show "mhas (m_apiTokens ?m) t"
      using revoked_sessions(2) [OF wf(1-4), of i t] by (simp add: mhas_def)
  next
    fix d s assume "mget (m_consoleTokens ?m) d = Some s"
    then show "active_user ?m (ccp_UserID s)"
      using revoked_sessions(3) [OF wf(1-4), of i d] cred keep
      by (auto simp: credentials_ok_def split: option.splits if_splits)
  next
    fix d s assume "mget (m_passwordResetTokens ?m) d = Some s"
    then show "active_user ?m (prr_UserID s)"
      using wf(5) cred keep
      by (auto simp: credentials_ok_def revokePasswordResetTokensLocked_def mget_del_if split: option.splits if_splits)
  qed
  moreover have "users_ok ?m" using us r q by (rule user_put_users) simp_all
  moreover have "setup_ok ?m" using st r by (auto simp: setup_ok_def)
  ultimately show ?thesis by (simp add: identity_ok_def)
qed

lemma credentials_mono:
  assumes "credentials_ok m" "\<And>j. active_user m j \<Longrightarrow> active_user m' j"
    "m_sessions m' = m_sessions m" "m_apiTokens m' = m_apiTokens m" "m_apiTokenByDigest m' = m_apiTokenByDigest m"
    "m_consoleTokens m' = m_consoleTokens m" "m_passwordResetTokens m' = m_passwordResetTokens m"
  shows "credentials_ok m'"
  using assms(1) unfolding credentials_ok_def assms(3-7) by (meson assms(2))

lemma user_put_active:
  assumes "identity_ok m" "mget (m_users m) i = Some r"
    and "u_ID (su_User q) = i" "u_Email (su_User q) = u_Email (su_User r)" "u_Status (su_User q) = ''active''"
  shows "identity_ok (m\<lparr>m_users := mput i q (m_users m)\<rparr>)"
proof -
  define m' where "m' = m\<lparr>m_users := mput i q (m_users m)\<rparr>"
  have sel: "m_users m' = mput i q (m_users m)" "m_userByEmail m' = m_userByEmail m" "m_setupRequired m' = m_setupRequired m"
    by (simp_all add: m'_def)
  have parts: "credentials_ok m" "users_ok m" "setup_ok m" using assms(1) by (simp_all add: identity_ok_def)
  have act: "active_user m' j" if "active_user m j" for j
    using that assms(5) unfolding active_user_def sel by auto
  have "credentials_ok m'"
    by (rule credentials_mono [OF parts(1) act]) (simp_all add: m'_def)
  moreover have "users_ok m'" using parts(2) assms(2-4) sel(1,2) by (rule user_put_users)
  moreover have "setup_ok m'" using parts(3) assms(2) unfolding setup_ok_def sel by auto
  ultimately have "identity_ok m'" by (simp add: identity_ok_def)
  then show ?thesis by (simp add: m'_def)
qed

lemma add_user_ok:
  assumes "identity_ok m" "\<not> mhas (m_users m) (u_ID u)" "\<not> mhas (m_userByEmail m) (u_Email u)" "u_Status u = ''active''"
    "m' = (add_user u h m)\<lparr>m_setupRequired := False, m_bootstrapToken := b, m_bootstrapExpiresAt := x\<rparr> \<or>
     (m' = add_user u h m \<and> \<not> m_setupRequired m)"
  shows "identity_ok m'"
proof -
  have sel: "m_users m' = mput (u_ID u) \<lparr>su_User = u, su_PasswordPHC = h\<rparr> (m_users m)"
    "m_userByEmail m' = mput (u_Email u) (u_ID u) (m_userByEmail m)" "\<not> m_setupRequired m'"
    "m_sessions m' = m_sessions m" "m_apiTokens m' = m_apiTokens m" "m_apiTokenByDigest m' = m_apiTokenByDigest m"
    "m_consoleTokens m' = m_consoleTokens m" "m_passwordResetTokens m' = m_passwordResetTokens m"
    using assms(5) by (auto simp: add_user_def)
  have "active_user m' j" if "active_user m j" for j
    using that assms(2) by (auto simp: active_user_def sel mhas_def)
  note act = this
  have "credentials_ok m'"
    using assms(1) sel by (intro credentials_mono [OF _ act]) (simp_all add: identity_ok_def)
  moreover have "users_ok m'"
    using assms(1-3) by (fastforce simp: identity_ok_def users_ok_def sel mhas_def split: if_splits)
  ultimately show ?thesis using sel by (simp add: identity_ok_def setup_ok_def)
qed

lemmas add_user_setup = add_user_ok [OF _ _ _ _ disjI1 [OF refl]]
lemmas add_user_plain = add_user_ok [OF _ _ _ _ disjI2 [OF conjI [OF refl]]]

section \<open>The steps keep the invariant\<close>

lemma login_ok: "identity_ok m \<Longrightarrow> login_commit L e user h m = (r, m') \<Longrightarrow> identity_ok m'"
  by (auto simp: login_commit_def login_refused_def Let_def active_user_def split: option.splits if_splits intro!: session_put)

lemma recover_ok: "identity_ok m \<Longrightarrow> RecoverSession L e token m = (r, m') \<Longrightarrow> identity_ok m'"
proof (cases "live_session (clk e 0) (sessionTokenDigest L token) m")
  case (Some x)
  assume ok: "identity_ok m" and rec: "RecoverSession L e token m = (r, m')"
  obtain s u where x: "x = (s, u)" by (cases x)
  let ?s = "s\<lparr>ses_User := su_User u, ses_CSRFToken := tok e 1\<rparr>"
  let ?m = "m\<lparr>m_sessions := mdel (sessionTokenDigest L token) (m_sessions m)\<rparr>"
  have "m' = ?m\<lparr>m_sessions := mput (sessionTokenDigest L (tok e 0)) ?s (m_sessions ?m)\<rparr>"
    using rec Some x by (simp add: RecoverSession_def Let_def)
  moreover have "active_user ?m (ses_UserID ?s)" using live_active [of _ _ m s u] Some x
    by (fastforce simp: active_user_def)
  ultimately show "identity_ok m'" using session_put [OF session_del [OF ok]] by blast
qed (auto simp: RecoverSession_def Let_def intro: session_del)

lemma authenticate_ok: "identity_ok m \<Longrightarrow> AuthenticateSession L e token m = (r, m') \<Longrightarrow> identity_ok m'"
  by (auto simp: AuthenticateSession_def Let_def split: option.splits intro: session_del)

lemma logout_ok: "identity_ok m \<Longrightarrow> identity_ok (Logout L e token m)"
  by (auto simp: Logout_def Let_def split: option.splits intro: session_del)

lemma setup_ok_step:
  assumes "identity_ok m" "setup_commit e d em n h m = (r, m')" "\<not> mhas (m_users m) (uuid e 0)"
  shows "identity_ok m'"
proof (cases "validateSetupLocked d (clk e 1) m")
  case None
  then have "m_users m = []" by (auto simp: validateSetupLocked_def split: if_splits)
  then have "\<not> mhas (m_userByEmail m) em"
    using assms(1) by (fastforce simp: identity_ok_def users_ok_def mhas_def)
  with None assms show ?thesis
    by (auto simp: setup_commit_def Let_def intro!: add_user_setup [OF assms(1)])
qed (use assms in \<open>simp add: setup_commit_def Let_def\<close>)

lemma admin_exists: "requirePlatformAdminLocked m i = None \<Longrightarrow> m_users m \<noteq> []"
  by (auto simp: requirePlatformAdminLocked_def split: option.splits)

lemma create_user_ok:
  assumes "identity_ok m" "create_user_commit e em n rs h actor m = (r, m')" "\<not> mhas (m_users m) (uuid e 0)"
  shows "identity_ok m'"
proof (cases "requirePlatformAdminLocked m (u_ID actor) = None \<and> \<not> mhas (m_userByEmail m) em")
  case True
  then have "\<not> m_setupRequired m" using assms(1) admin_exists by (auto simp: identity_ok_def setup_ok_def)
  with True assms show ?thesis
    by (auto simp: create_user_commit_def Let_def intro!: add_user_plain [OF assms(1)])
next
  case False
  with assms show ?thesis by (auto simp: create_user_commit_def split: option.splits if_splits)
qed

lemma updated_user_sel [simp]:
  "u_ID (updated_user t n s rs u) = u_ID u" "u_Email (updated_user t n s rs u) = u_Email u"
  "u_Status (updated_user t n s rs u) = (case s of None \<Rightarrow> u_Status u | Some v \<Rightarrow> v)"
  "u_Roles (updated_user t n s rs u) = (case rs of None \<Rightarrow> u_Roles u | Some v \<Rightarrow> v)"
  by (simp_all add: updated_user_def)

lemma UpdateUser_cases:
  assumes "UpdateUser e i inp actor m = (r, m')"
  obtains (refused) "m' = m" "isl r"
  | (updated) u n s rs a where "mget (m_users m) i = Some u" "r = Inr (updated_user (clk e 0) n s rs (su_User u))"
      "m' = recordAuditLocked (uuid e 0) (clk e 1) a ''user.update'' ''user'' i ''success'' []
        (if u_Status (updated_user (clk e 0) n s rs (su_User u)) \<noteq> ''active''
         then revokePasswordResetTokensLocked i (revokeUserSessionsLocked i
           (m\<lparr>m_users := mput i (u\<lparr>su_User := updated_user (clk e 0) n s rs (su_User u)\<rparr>) (m_users m)\<rparr>))
         else m\<lparr>m_users := mput i (u\<lparr>su_User := updated_user (clk e 0) n s rs (su_User u)\<rparr>) (m_users m)\<rparr>)"
      "\<not> (hasRole (su_User u) ''platform_admin'' \<and> u_Status (su_User u) = ''active'' \<and>
          (u_Status (updated_user (clk e 0) n s rs (su_User u)) \<noteq> ''active'' \<or>
           \<not> hasRole (updated_user (clk e 0) n s rs (su_User u)) ''platform_admin'') \<and> activeAdminCountLocked m \<le> 1)"
      "validate_update inp = Inr (n, s, rs)"
proof -
  show ?thesis
  proof (cases "isl r")
    case True
    with assms have "m' = m" by (auto simp: UpdateUser_def Let_def split: sum.splits option.splits if_splits)
    with True refused show ?thesis by blast
  next
    case False
    with assms obtain n s rs u where v: "validate_update inp = Inr (n, s, rs)"
        "requirePlatformAdminLocked m (u_ID actor) = None" "mget (m_users m) i = Some u"
      by (auto simp: UpdateUser_def split: sum.splits option.splits)
    with False assms show ?thesis
      by (intro updated [of u n s rs "u_DisplayName actor"])
        (auto simp: UpdateUser_def Let_def hasRole_def split: if_splits)
  qed
qed

lemma update_user_ok:
  assumes "identity_ok m" "UpdateUser e i inp actor m = (r, m')"
  shows "identity_ok m'"
  using assms(2)
proof (cases rule: UpdateUser_cases)
  case (updated u n s rs a)
  let ?q = "u\<lparr>su_User := updated_user (clk e 0) n s rs (su_User u)\<rparr>"
  have q: "u_ID (su_User ?q) = i" "u_Email (su_User ?q) = u_Email (su_User u)"
    using user_id [OF assms(1) updated(1)] by simp_all
  show ?thesis
  proof (cases "u_Status (updated_user (clk e 0) n s rs (su_User u)) = ''active''")
    case True
    then have "identity_ok (m\<lparr>m_users := mput i ?q (m_users m)\<rparr>)"
      using user_put_active [OF assms(1) updated(1) q] by simp
    with True updated(3) show ?thesis by simp
  next
    case False
    with user_put_revoked [OF assms(1) updated(1) q] updated(3) show ?thesis by simp
  qed
qed (use assms in simp)

lemma issue_reset_ok: "identity_ok m \<Longrightarrow> IssuePasswordResetToken L e i actor m = (r, m') \<Longrightarrow> identity_ok m'"
  by (auto simp: IssuePasswordResetToken_def Let_def active_user_def split: option.splits if_splits intro!: reset_put)

lemma create_token_ok: "identity_ok m \<Longrightarrow> CreateAPIToken L e inp actor m = (r, m') \<Longrightarrow> identity_ok m'"
  by (auto simp: CreateAPIToken_def Let_def split: sum.splits intro!: token_put dest!: currentActor_active)
    (auto simp: identity_ok_def users_ok_def)

lemma revoke_token_ok: "identity_ok m \<Longrightarrow> RevokeAPIToken e t actor m = (r, m') \<Longrightarrow> identity_ok m'"
  by (auto simp: RevokeAPIToken_def split: sum.splits option.splits if_splits intro: token_del)

lemma use_token_ok: "identity_ok m \<Longrightarrow> AuthenticateAPIToken L e t m = (r, m') \<Longrightarrow> identity_ok m'"
  by (auto simp: AuthenticateAPIToken_def Let_def split: sum.splits option.splits if_splits
      intro!: token_touch dest: currentActor_active)

lemma issue_console_ok: "identity_ok m \<Longrightarrow> IssueConsoleConnectionToken L e s i m = (r, m') \<Longrightarrow> identity_ok m'"
  by (auto simp: IssueConsoleConnectionToken_def Let_def split: sum.splits intro!: console_put dest: authorize_active)

lemma use_console_ok: "identity_ok m \<Longrightarrow> ConsumeConsoleConnectionToken L e t m = (r, m') \<Longrightarrow> identity_ok m'"
  by (auto simp: ConsumeConsoleConnectionToken_def Let_def split: sum.splits option.splits if_splits intro: console_del)

lemma reset_commit_cases:
  assumes "identity_ok m" "reset_commit e d h m = (r, m')"
  obtains (refused) "r \<noteq> None" "m' = m\<lparr>m_passwordResetTokens := mdel d (m_passwordResetTokens m)\<rparr>"
  | (changed) p u where "r = None" "mget (m_passwordResetTokens m) d = Some p" "mget (m_users m) (prr_UserID p) = Some u"
      "u_Status (su_User u) = ''active''" "clk e 1 < prr_ExpiresAt p"
      "m' = recordAuditLocked (uuid e 0) (clk e 2) (u_DisplayName (su_User u)) ''auth.password_reset.consume'' ''user''
         (prr_UserID p) ''success'' []
         (revokePasswordResetTokensLocked (prr_UserID p) (revokeUserSessionsLocked (prr_UserID p)
           (m\<lparr>m_users := mput (prr_UserID p)
              \<lparr>su_User = (su_User u)\<lparr>u_UpdatedAt := clk e 1\<rparr>, su_PasswordPHC = h\<rparr> (m_users m)\<rparr>)))"
proof (cases "validateResetTokenLocked d (clk e 1) m")
  case None
  then obtain p u where pu: "mget (m_passwordResetTokens m) d = Some p" "mget (m_users m) (prr_UserID p) = Some u"
      "u_Status (su_User u) = ''active''" "clk e 1 < prr_ExpiresAt p"
    by (auto simp: validateResetTokenLocked_def split: option.splits if_splits)
  moreover have "u_ID (su_User u) = prr_UserID p" using user_id [OF assms(1) pu(2)] .
  ultimately show ?thesis
    using None assms(2)
    by (intro changed [of p u])
      (auto simp: reset_commit_def Let_def mget_zero_def revokePasswordResetTokensLocked_def
        revokeUserSessionsLocked_def recordAuditLocked_def)
next
  case (Some err)
  then have "reset_commit e d h m = (Some err, m\<lparr>m_passwordResetTokens := mdel d (m_passwordResetTokens m)\<rparr>)"
    by (simp add: reset_commit_def Let_def)
  with assms(2) show ?thesis by (intro refused) auto
qed

lemma reset_commit_ok:
  assumes "identity_ok m" "reset_commit e d h m = (r, m')"
  shows "identity_ok m'"
  using assms
proof (cases rule: reset_commit_cases)
  case (changed p u)
  let ?q = "\<lparr>su_User = (su_User u)\<lparr>u_UpdatedAt := clk e 1\<rparr>, su_PasswordPHC = h\<rparr>"
  have "identity_ok (revokePasswordResetTokensLocked (prr_UserID p) (revokeUserSessionsLocked (prr_UserID p)
           (m\<lparr>m_users := mput (prr_UserID p) ?q (m_users m)\<rparr>)))"
    by (rule user_put_revoked [OF assms(1) changed(3)]) (use user_id [OF assms(1) changed(3)] in simp_all)
  with changed(6) show ?thesis by simp
qed (use assms in \<open>auto intro: reset_del\<close>)

lemma identity_step_ok: "identity_step L m m' \<Longrightarrow> identity_ok m \<Longrightarrow> identity_ok m'"
  by (induction rule: identity_step.induct)
    (blast intro: login_ok authenticate_ok recover_ok logout_ok setup_ok_step create_user_ok update_user_ok
      issue_reset_ok reset_del reset_commit_ok create_token_ok revoke_token_ok use_token_ok issue_console_ok
      use_console_ok)+

section \<open>The last administrator\<close>

lemma mput_ne: "mput k v m \<noteq> []"
  by (metis gm.get_put_same mget_Nil option.distinct(1))

definition is_active_admin :: "storedUser \<Rightarrow> bool" where
  "is_active_admin r \<longleftrightarrow> u_Status (su_User r) = ''active'' \<and> hasRole (su_User r) ''platform_admin''"

definition has_admin :: "Memory \<Rightarrow> bool" where
  "has_admin m \<longleftrightarrow> (\<exists>i r. mget (m_users m) i = Some r \<and> is_active_admin r)"

lemma admin_count: "activeAdminCountLocked m = length (filter (\<lambda>(_, r). is_active_admin r) (m_users m))"
  by (simp add: activeAdminCountLocked_def is_active_admin_def)

lemma count_one:
  assumes "mwf xs" "mget xs i = Some r" "P r" "length (filter (\<lambda>(_, r). P r) xs) > 1"
  shows "\<exists>j q. j \<noteq> i \<and> mget xs j = Some q \<and> P q"
proof -
  let ?f = "filter (\<lambda>(_, r). P r) xs"
  have "(i, r) \<in> set ?f" using mget_in_set [OF assms(2)] assms(3) by simp
  moreover have "distinct ?f" using assms(1) by (simp add: mwf_def distinct_map)
  then have "\<not> card (set ?f) \<le> Suc 0" using assms(4) distinct_card [of ?f] by simp
  then have "\<exists>x \<in> set ?f. \<exists>y \<in> set ?f. x \<noteq> y" using card_le_Suc0_iff_eq [of "set ?f"] by auto
  ultimately obtain x where "x \<in> set ?f" "x \<noteq> (i, r)" by metis
  moreover obtain j q where "x = (j, q)" by fastforce
  ultimately have jq: "(j, q) \<in> set xs" "P q" "(j, q) \<noteq> (i, r)" by auto
  then have "mget xs j = Some q" using assms(1) by (simp add: mget_Some_iff)
  moreover from this jq(3) assms(2) have "j \<noteq> i" by auto
  ultimately show ?thesis using jq(2) by blast
qed

lemma put_admin: "has_admin m \<Longrightarrow> mget (m_users m) i = Some u \<Longrightarrow> (is_active_admin u \<Longrightarrow> is_active_admin q) \<Longrightarrow>
    m_users m' = mput i q (m_users m) \<Longrightarrow> has_admin m'"
  unfolding has_admin_def by (metis gm.get_put option.inject)

lemma update_admin:
  assumes "identity_ok m" "has_admin m" "UpdateUser e i inp actor m = (r, m')"
  shows "has_admin m'"
  using assms(3)
proof (cases rule: UpdateUser_cases)
  case (updated u n s rs a)
  let ?q = "u\<lparr>su_User := updated_user (clk e 0) n s rs (su_User u)\<rparr>"
  have us: "m_users m' = mput i ?q (m_users m)" using updated(3) by (auto split: if_splits)
  show ?thesis
  proof (cases "is_active_admin u \<and> \<not> is_active_admin ?q")
    case True
    with updated(4) have "1 < activeAdminCountLocked m" by (auto simp: is_active_admin_def)
    with assms(1) updated(1) True count_one [of "m_users m" i u is_active_admin]
    obtain j q where "j \<noteq> i" "mget (m_users m) j = Some q" "is_active_admin q"
      by (auto simp: admin_count identity_ok_def users_ok_def)
    with us show ?thesis unfolding has_admin_def by (metis gm.get_put)
  next
    case False
    with put_admin [OF assms(2) updated(1) _ us] show ?thesis by blast
  qed
qed (use assms in simp)

lemma users_unchanged_admin: "m_users m' = m_users m \<Longrightarrow> has_admin m \<Longrightarrow> has_admin m'"
  by (simp add: has_admin_def)

lemma add_user_admin: "has_admin m \<Longrightarrow> \<not> mhas (m_users m) (u_ID u) \<Longrightarrow> m_users m' = m_users (add_user u h m) \<Longrightarrow> has_admin m'"
  unfolding has_admin_def mhas_def by (simp add: add_user_def) (metis option.distinct(1))

lemma reset_admin:
  assumes "identity_ok m" "has_admin m" "reset_commit e d h m = (r, m')"
  shows "has_admin m'"
  using assms(1,3)
proof (cases rule: reset_commit_cases)
  case refused
  with assms(2) show ?thesis by (simp add: has_admin_def)
next
  case (changed p u)
  then have "m_users m' = mput (prr_UserID p) \<lparr>su_User = (su_User u)\<lparr>u_UpdatedAt := clk e 1\<rparr>, su_PasswordPHC = h\<rparr> (m_users m)"
    by simp
  from put_admin [OF assms(2) changed(3) _ this] show ?thesis by (simp add: is_active_admin_def hasRole_def)
qed

text \<open>The steps that leave the users alone.\<close>

lemma users_kept:
  "login_commit L e user h m = (r1, m') \<Longrightarrow> m_users m' = m_users m"
  "AuthenticateSession L e token m = (r2, m') \<Longrightarrow> m_users m' = m_users m"
  "RecoverSession L e token m = (r1, m') \<Longrightarrow> m_users m' = m_users m"
  "Logout L e token m = m' \<Longrightarrow> m_users m' = m_users m"
  "IssuePasswordResetToken L e i actor m = (r4, m') \<Longrightarrow> m_users m' = m_users m"
  "CreateAPIToken L e inp2 actor m = (r6, m') \<Longrightarrow> m_users m' = m_users m"
  "RevokeAPIToken e t actor m = (r5, m') \<Longrightarrow> m_users m' = m_users m"
  "AuthenticateAPIToken L e t m = (r7, m') \<Longrightarrow> m_users m' = m_users m"
  "IssueConsoleConnectionToken L e s i m = (r8, m') \<Longrightarrow> m_users m' = m_users m"
  "ConsumeConsoleConnectionToken L e t m = (r9, m') \<Longrightarrow> m_users m' = m_users m"
  by (auto simp: login_commit_def login_refused_def AuthenticateSession_def RecoverSession_def Logout_def
      IssuePasswordResetToken_def CreateAPIToken_def RevokeAPIToken_def AuthenticateAPIToken_def
      IssueConsoleConnectionToken_def ConsumeConsoleConnectionToken_def Let_def
      split: option.splits if_splits sum.splits prod.splits)

lemma setup_users:
  "setup_commit e d em n h m = (r, m') \<Longrightarrow> m' = m \<or> (\<exists>u. u_ID u = uuid e 0 \<and> m_users m' = m_users (add_user u h m))"
  by (auto simp: setup_commit_def Let_def split: option.splits
      intro!: exI [of _ "\<lparr>u_ID = uuid e 0, u_Email = em, u_DisplayName = n, u_Roles = [''platform_admin''],
        u_Status = ''active'', u_CreatedAt = clk e 1, u_UpdatedAt = clk e 1\<rparr>"])

lemma create_users:
  "create_user_commit e em n rs h actor m = (r2, m') \<Longrightarrow>
     m' = m \<or> (\<exists>u. u_ID u = uuid e 0 \<and> m_users m' = m_users (add_user u h m))"
  by (auto simp: create_user_commit_def Let_def split: option.splits if_splits
      intro!: exI [of _ "\<lparr>u_ID = uuid e 0, u_Email = em, u_DisplayName = n, u_Roles = rs,
        u_Status = ''active'', u_CreatedAt = clk e 0, u_UpdatedAt = clk e 0\<rparr>"])

lemma identity_step_admin: "identity_step L m m' \<Longrightarrow> identity_ok m \<Longrightarrow> has_admin m \<Longrightarrow> has_admin m'"
proof (induction rule: identity_step.induct)
  case (first_admin e d em n h m r3 m')
  then show ?case using setup_users [of e d em n h m r3 m'] add_user_admin by metis
next
  case (create_user e em n rs h actor m r3 m')
  then show ?case using create_users [of e em n rs h actor m r3 m'] add_user_admin by metis
next
  case (update_user e i inp actor m r3 m')
  then show ?case using update_admin by blast
next
  case (reset e d h m r5 m')
  then show ?case using reset_admin by blast
next
  case (drop_reset m d)
  then show ?case by (simp add: has_admin_def)
qed (blast intro: users_unchanged_admin [OF users_kept(4) [OF refl]] users_unchanged_admin dest: users_kept)+

definition has_users :: "Memory \<Rightarrow> bool" where
  "has_users m \<longleftrightarrow> m_users m \<noteq> []"

lemma users_ne_same: "m_users m' = m_users m \<Longrightarrow> has_users m \<Longrightarrow> has_users m'"
  by (simp add: has_users_def)

lemma identity_step_users: "identity_step L m m' \<Longrightarrow> identity_ok m \<Longrightarrow> has_users m \<Longrightarrow> has_users m'"
proof (induction rule: identity_step.induct)
  case (first_admin e d em n h m r3 m')
  then show ?case using setup_users [of e d em n h m r3 m'] by (auto simp: add_user_def mput_ne has_users_def)
next
  case (create_user e em n rs h actor m r3 m')
  then show ?case using create_users [of e em n rs h actor m r3 m'] by (auto simp: add_user_def mput_ne has_users_def)
next
  case (update_user e i inp actor m r3 m')
  from update_user.hyps show ?case
    by (cases rule: UpdateUser_cases) (use update_user.prems in \<open>simp_all add: mput_ne has_users_def\<close>)
next
  case (reset e d h m r5 m')
  from reset.prems(1) reset.hyps show ?case
    by (cases rule: reset_commit_cases) (use reset.prems in \<open>simp_all add: mput_ne has_users_def\<close>)
next
  case (drop_reset m d)
  then show ?case by (simp add: has_users_def)
qed (blast intro: users_ne_same [OF users_kept(4) [OF refl]] users_ne_same dest: users_kept)+

section \<open>Password resets are single-use\<close>

definition reset_call :: "lib \<Rightarrow> env \<times> string \<Rightarrow> string \<Rightarrow> Memory \<Rightarrow> bool \<times> Memory" where
  "reset_call L c t m = (case reset_commit (fst c) (tokenDigest L t) (snd c) m of (r, m') \<Rightarrow> (r = None, m'))"

definition reset_live :: "lib \<Rightarrow> string \<Rightarrow> Memory \<Rightarrow> bool" where
  "reset_live L t m \<longleftrightarrow> mhas (m_passwordResetTokens m) (tokenDigest L t)"

lemma reset_tokens_after:
  assumes "identity_ok m" "reset_commit e d h m = (r, m')"
  shows "mget (m_passwordResetTokens m') d = None \<and>
    (\<forall>x. mget (m_passwordResetTokens m) x = None \<longrightarrow> mget (m_passwordResetTokens m') x = None)"
proof -
  have wf: "mwf (m_passwordResetTokens m)" using assms(1) by (simp add: identity_ok_def credentials_ok_def)
  from assms show ?thesis
  proof (cases rule: reset_commit_cases)
    case (changed p u)
    then have "m_passwordResetTokens m' = mdel_if (\<lambda>_ x. prr_UserID x = prr_UserID p) (m_passwordResetTokens m)"
      by (simp add: revokePasswordResetTokensLocked_def)
    with wf changed(2) show ?thesis by (simp add: mget_del_if)
  qed simp
qed

interpretation reset: single_use "reset_call L" "reset_live L" identity_ok for L
proof unfold_locales
  fix s c t b s'
  assume ok: "identity_ok s" and call: "reset_call L c t s = (b, s')"
  then obtain r where r: "reset_commit (fst c) (tokenDigest L t) (snd c) s = (r, s')" "b = (r = None)"
    by (auto simp: reset_call_def split: prod.splits)
  from reset_commit_ok [OF ok r(1)] show "identity_ok s'" .
  from reset_tokens_after [OF ok r(1)] show "\<not> reset_live L t s'" by (simp add: reset_live_def mhas_def)
  fix u
  assume "\<not> reset_live L u s"
  with reset_tokens_after [OF ok r(1)] show "\<not> reset_live L u s'" by (simp add: reset_live_def mhas_def)
next
  fix s c t s'
  assume ok: "identity_ok s" and call: "reset_call L c t s = (True, s')"
  then have r: "reset_commit (fst c) (tokenDigest L t) (snd c) s = (None, s')"
    by (auto simp: reset_call_def split: prod.splits)
  from ok r show "reset_live L t s"
    by (cases rule: reset_commit_cases) (auto simp: reset_live_def mhas_def)
qed

section \<open>Properties\<close>

lemma identity_steps_ok: "(identity_step L)\<^sup>*\<^sup>* m m' \<Longrightarrow> identity_ok m \<Longrightarrow> identity_ok m'"
  by (induction rule: rtranclp_induct) (auto intro: identity_step_ok)

lemma identity_steps_admin: "(identity_step L)\<^sup>*\<^sup>* m m' \<Longrightarrow> identity_ok m \<Longrightarrow> has_admin m \<Longrightarrow> has_admin m'"
  by (induction rule: rtranclp_induct) (auto intro: identity_step_admin dest: identity_steps_ok)

lemma identity_steps_users: "(identity_step L)\<^sup>*\<^sup>* m m' \<Longrightarrow> identity_ok m \<Longrightarrow> has_users m \<Longrightarrow> has_users m'"
  by (induction rule: rtranclp_induct) (auto intro: identity_step_users dest: identity_steps_ok)

lemma newMemoryAt_shape:
  assumes "newMemoryAt L e en em pw ag = Some m"
  shows "m_sessions m = []" "m_apiTokens m = []" "m_apiTokenByDigest m = []" "m_consoleTokens m = []"
    "m_passwordResetTokens m = []" "\<not> m_setupRequired m"
    "(m_users m = [] \<and> m_userByEmail m = []) \<or>
     (\<exists>i r. m_users m = [(i, r)] \<and> u_ID (su_User r) = i \<and> m_userByEmail m = [(u_Email (su_User r), i)])"
    "pw = [] \<Longrightarrow> m_users m = [] \<and> m_userByEmail m = []"
  using assms by (auto simp: newMemoryAt_def Let_def split: option.splits if_splits)

lemma identity_ok_fresh:
  assumes "m_sessions m = []" "m_apiTokens m = []" "m_apiTokenByDigest m = []" "m_consoleTokens m = []"
    "m_passwordResetTokens m = []" "m_setupRequired m \<longrightarrow> m_users m = []"
    "(m_users m = [] \<and> m_userByEmail m = []) \<or>
     (\<exists>i r. m_users m = [(i, r)] \<and> u_ID (su_User r) = i \<and> m_userByEmail m = [(u_Email (su_User r), i)])"
  shows "identity_ok m"
  using assms by (auto simp: identity_ok_def users_ok_def credentials_ok_def setup_ok_def mwf_def split: if_splits)

lemma newMemory_ok: "newMemoryAt L e en em pw ag = Some m \<Longrightarrow> identity_ok m"
proof -
  assume "newMemoryAt L e en em pw ag = Some m"
  note s = newMemoryAt_shape [OF this]
  show "identity_ok m" by (rule identity_ok_fresh [OF s(1-5) _ s(7)]) (simp add: s(6))
qed

lemma newMemoryForSetup_ok: "newMemoryForSetupAt L e en bt bx ag = Some m \<Longrightarrow> identity_ok m"
proof -
  assume "newMemoryForSetupAt L e en bt bx ag = Some m"
  then obtain m0 where m0: "newMemoryAt L e en [] [] ag = Some m0"
      and m: "m = m0\<lparr>m_setupRequired := True, m_bootstrapToken := tokenDigest L bt, m_bootstrapExpiresAt := bx\<rparr>"
    by (auto simp: newMemoryForSetupAt_def)
  from newMemoryAt_shape [OF m0] m show "identity_ok m" by (intro identity_ok_fresh) simp_all
qed

lemma sample_store_new:
  "newMemoryAt sample_lib sample_env ''dev'' ''admin@example.com'' ''password'' ''agent'' = Some sample_store"
proof -
  have "newMemoryAt sample_lib sample_env ''dev'' ''admin@example.com'' ''password'' ''agent'' \<noteq> None"
    by (simp add: newMemoryAt_def sample_lib_def Let_def)
  then show ?thesis unfolding sample_store_def by simp
qed

text \<open>C38: the last administrator. From any state with an active platform administrator, no sequence
  of identity calls reaches a state without one, whoever is disabled or demoted in which order.\<close>

theorem last_admin_stays:
  assumes "identity_ok m" "has_admin m" "(identity_step L)\<^sup>*\<^sup>* m m'"
  shows "1 \<le> activeAdminCountLocked m'"
proof -
  obtain i r where ir: "mget (m_users m') i = Some r" "is_active_admin r"
    using identity_steps_admin [OF assms(3,1,2)] by (auto simp: has_admin_def)
  then have "(i, r) \<in> set (filter (\<lambda>(_, r). is_active_admin r) (m_users m'))" using mget_in_set by fastforce
  then show ?thesis unfolding admin_count by (cases "filter (\<lambda>(_, r). is_active_admin r) (m_users m')") auto
qed

lemma sample_has_admin: "has_admin sample_store"
proof -
  have "mget (m_users sample_store) ''00000000-0000-4000-8000-000000000001'' =
      Some \<lparr>su_User = sample_admin, su_PasswordPHC = ''password''\<rparr>" by code_simp
  moreover have "is_active_admin \<lparr>su_User = sample_admin, su_PasswordPHC = ''password''\<rparr>" by code_simp
  ultimately show ?thesis unfolding has_admin_def by blast
qed

theorem last_admin_stays_witness: "1 \<le> activeAdminCountLocked (Logout sample_lib sample_env ''t'' sample_store)"
  by (rule last_admin_stays [OF newMemory_ok [OF sample_store_new] sample_has_admin])
    (blast intro: identity_step.logout)

text \<open>setup happens once. After a first administrator was created through setup, every later
  setup attempt is refused as already complete and changes nothing, whatever happens in between.\<close>

theorem setup_only_once:
  assumes "identity_ok m" "setup_commit e d em n h m = (Inr u, m1)" "\<not> mhas (m_users m) (uuid e 0)"
    and "(identity_step L)\<^sup>*\<^sup>* m1 m2"
  shows "setup_commit e2 d2 em2 n2 h2 m2 = (Inl (NewProblem ''SETUP_ALREADY_COMPLETE'' False), m2)"
proof -
  have "m_users m1 \<noteq> []"
    using assms(2) by (auto simp: setup_commit_def Let_def add_user_def mput_ne split: option.splits)
  moreover have "identity_ok m1" using assms(1-3) setup_ok_step by blast
  ultimately have "has_users m2" using identity_steps_users assms(4) unfolding has_users_def by blast
  then show ?thesis by (simp add: setup_commit_def validateSetupLocked_def has_users_def Let_def)
qed

definition sample_setup :: Memory where
  "sample_setup = the (newMemoryForSetupAt sample_lib sample_env ''dev'' ''boot'' 5000 ''agent'')"

lemma sample_setup_new: "newMemoryForSetupAt sample_lib sample_env ''dev'' ''boot'' 5000 ''agent'' = Some sample_setup"
proof -
  have "newMemoryForSetupAt sample_lib sample_env ''dev'' ''boot'' 5000 ''agent'' \<noteq> None"
    by (simp add: newMemoryForSetupAt_def newMemoryAt_def sample_lib_def Let_def)
  then show ?thesis unfolding sample_setup_def by simp
qed

lemma sample_setup_commit:
  "fst (setup_commit sample_env ''boot'' ''a@b.c'' ''A'' ''h'' sample_setup) =
     Inr \<lparr>u_ID = ''id'', u_Email = ''a@b.c'', u_DisplayName = ''A'', u_Roles = [''platform_admin''],
       u_Status = ''active'', u_CreatedAt = 1001, u_UpdatedAt = 1001\<rparr>"
  by code_simp

theorem setup_only_once_witness:
  "\<exists>m1. setup_commit sample_env ''boot'' ''a@b.c'' ''A'' ''h'' sample_setup =
       (Inr \<lparr>u_ID = ''id'', u_Email = ''a@b.c'', u_DisplayName = ''A'', u_Roles = [''platform_admin''],
         u_Status = ''active'', u_CreatedAt = 1001, u_UpdatedAt = 1001\<rparr>, m1) \<and>
     setup_commit sample_env ''boot'' ''x@b.c'' ''X'' ''h'' m1 = (Inl (NewProblem ''SETUP_ALREADY_COMPLETE'' False), m1)"
proof -
  obtain m1 where m1: "setup_commit sample_env ''boot'' ''a@b.c'' ''A'' ''h'' sample_setup =
       (Inr \<lparr>u_ID = ''id'', u_Email = ''a@b.c'', u_DisplayName = ''A'', u_Roles = [''platform_admin''],
         u_Status = ''active'', u_CreatedAt = 1001, u_UpdatedAt = 1001\<rparr>, m1)"
    using sample_setup_commit by (metis prod.collapse)
  have "\<not> mhas (m_users sample_setup) (uuid sample_env 0)" by code_simp
  from setup_only_once [OF newMemoryForSetup_ok [OF sample_setup_new] m1 this rtranclp.rtrancl_refl] m1
  show ?thesis by blast
qed

text \<open>C39: disabling a user takes effect at once. After an update that leaves the user inactive no
  credential of the user remains in the store: no session or API token authenticates as the user, no
  reset token is pending, and every call that asks for the current actor refuses the user.\<close>

theorem disable_revokes_everything:
  assumes "identity_ok m" "UpdateUser e i inp actor m = (Inr u, m')" "u_Status u \<noteq> ''active''"
  shows "(\<forall>d s. mget (m_sessions m') d = Some s \<longrightarrow> ses_UserID s \<noteq> i) \<and>
    (\<forall>t r. mget (m_apiTokens m') t = Some r \<longrightarrow> mat_UserID r \<noteq> i) \<and>
    (\<forall>d c. mget (m_consoleTokens m') d = Some c \<longrightarrow> ccp_UserID c \<noteq> i) \<and>
    (\<forall>d r. mget (m_passwordResetTokens m') d = Some r \<longrightarrow> prr_UserID r \<noteq> i) \<and>
    (\<forall>v t. fst (AuthenticateSession L e2 t m') = Inr v \<longrightarrow> u_ID (sv_User v) \<noteq> i) \<and>
    (\<forall>v t. fst (AuthenticateAPIToken L e2 t m') = Inr v \<longrightarrow> u_ID (atp_User v) \<noteq> i) \<and>
    currentActorLocked m' i = Inl (NewProblem ''FORBIDDEN'' False)"
proof -
  have ok: "identity_ok m'" using update_user_ok [OF assms(1,2)] .
  have i: "mget (m_users m') i = Some q \<longrightarrow> u_Status (su_User q) \<noteq> ''active''" for q
    using assms(2)
  proof (cases rule: UpdateUser_cases)
    case (updated w n s rs a)
    with assms(3) show ?thesis by (auto split: if_splits)
  qed (use assms(2) in simp)
  then have no: "\<not> active_user m' i" by (auto simp: active_user_def)
  have auth: "u_ID (sv_User v) \<noteq> i" if "fst (AuthenticateSession L e2 t m') = Inr v" for v t
  proof -
    from that obtain s r where sr: "live_session (clk e2 0) (sessionTokenDigest L t) m' = Some (s, r)" "sv_User v = su_User r"
      by (auto simp: AuthenticateSession_def Let_def split: option.splits)
    with live_active [OF sr(1)] user_id [OF ok] no show ?thesis by auto
  qed
  have api: "u_ID (atp_User v) \<noteq> i" if "fst (AuthenticateAPIToken L e2 t m') = Inr v" for v t
  proof -
    from that obtain j where "currentActorLocked m' j = Inr (atp_User v)"
      by (auto simp: AuthenticateAPIToken_def Let_def split: option.splits sum.splits if_splits)
    with currentActor_active [OF this] user_id [OF ok] no show ?thesis by auto
  qed
  have "currentActorLocked m' i = Inl (NewProblem ''FORBIDDEN'' False)"
    using i by (auto simp: currentActorLocked_def split: option.splits)
  with ok no auth api show ?thesis unfolding identity_ok_def credentials_ok_def by blast
qed

lemma sample_disable:
  "fst (UpdateUser sample_env ''id'' \<lparr>uui_DisplayName = None, uui_Status = Some ''disabled'', uui_Roles = None\<rparr> sample_admin
     (snd (create_user_commit sample_env ''u@b.c'' ''U'' [''server_owner''] ''h'' sample_admin sample_store))) =
   Inr \<lparr>u_ID = ''id'', u_Email = ''u@b.c'', u_DisplayName = ''U'', u_Roles = [''server_owner''], u_Status = ''disabled'',
     u_CreatedAt = 1000, u_UpdatedAt = 1000\<rparr>"
  by code_simp

theorem disable_revokes_everything_witness:
  "\<exists>m m' u. UpdateUser sample_env ''id'' \<lparr>uui_DisplayName = None, uui_Status = Some ''disabled'', uui_Roles = None\<rparr>
       sample_admin m = (Inr u, m') \<and> u_Status u = ''disabled'' \<and>
     currentActorLocked m' ''id'' = Inl (NewProblem ''FORBIDDEN'' False)"
proof -
  let ?m = "snd (create_user_commit sample_env ''u@b.c'' ''U'' [''server_owner''] ''h'' sample_admin sample_store)"
  obtain r where c: "create_user_commit sample_env ''u@b.c'' ''U'' [''server_owner''] ''h'' sample_admin sample_store = (r, ?m)"
    by (metis prod.collapse)
  have "\<not> mhas (m_users sample_store) (uuid sample_env 0)" by code_simp
  with create_user_ok [OF newMemory_ok [OF sample_store_new] c] have ok: "identity_ok ?m" by blast
  obtain m' where "UpdateUser sample_env ''id'' \<lparr>uui_DisplayName = None, uui_Status = Some ''disabled'', uui_Roles = None\<rparr>
      sample_admin ?m = (Inr \<lparr>u_ID = ''id'', u_Email = ''u@b.c'', u_DisplayName = ''U'', u_Roles = [''server_owner''],
        u_Status = ''disabled'', u_CreatedAt = 1000, u_UpdatedAt = 1000\<rparr>, m')"
    using sample_disable by (metis prod.collapse)
  with disable_revokes_everything [OF ok this] show ?thesis by (intro exI [of _ ?m] exI [of _ m'] exI) auto
qed

text \<open>a password reset. A successful reset installs the new hash, ends every session of the
  user, uses up the token and every other pending one of the user (in any sequence of resets a token
  works at most once), and a login that had verified the old password before the reset is refused
  when it tries to store its session.\<close>

theorem reset_password_effect:
  assumes "identity_ok m" "reset_commit e d h m = (None, m')"
  shows "\<exists>p r. mget (m_passwordResetTokens m) d = Some p \<and> mget (m_users m') (prr_UserID p) = Some r \<and>
      su_PasswordPHC r = h \<and>
      (\<forall>x s. mget (m_sessions m') x = Some s \<longrightarrow> ses_UserID s \<noteq> prr_UserID p) \<and>
      (\<forall>x q. mget (m_passwordResetTokens m') x = Some q \<longrightarrow> prr_UserID q \<noteq> prr_UserID p) \<and>
      (\<forall>user old. u_ID user = prr_UserID p \<longrightarrow> old \<noteq> h \<longrightarrow>
         fst (login_commit L e2 user old m') = Inl (NewProblem ''AUTH_INVALID_CREDENTIALS'' False)) \<and>
      (\<forall>calls t. count_list (fst (consume_all (reset_call L) calls m)) (t, True) \<le> 1)"
  using assms
proof (cases rule: reset_commit_cases)
  case (changed p u)
  let ?q = "\<lparr>su_User = (su_User u)\<lparr>u_UpdatedAt := clk e 1\<rparr>, su_PasswordPHC = h\<rparr>"
  let ?m = "m\<lparr>m_users := mput (prr_UserID p) ?q (m_users m)\<rparr>"
  have wf: "mwf (m_sessions ?m)" "mwf (m_apiTokens ?m)" "mwf (m_apiTokenByDigest ?m)" "mwf (m_consoleTokens ?m)"
    "mwf (m_passwordResetTokens ?m)" using assms(1) by (simp_all add: identity_ok_def credentials_ok_def)
  have user: "mget (m_users m') (prr_UserID p) = Some ?q" using changed(6) by simp
  have ses: "ses_UserID s \<noteq> prr_UserID p" if "mget (m_sessions m') x = Some s" for x s
    using that revoked_sessions(1) [OF wf(1-4), of "prr_UserID p" x] changed(6) by (auto split: option.splits if_splits)
  have res: "prr_UserID q \<noteq> prr_UserID p" if "mget (m_passwordResetTokens m') x = Some q" for x q
    using that wf(5) changed(6)
    by (auto simp: revokePasswordResetTokensLocked_def mget_del_if split: option.splits if_splits)
  have log: "fst (login_commit L e2 v old m') = Inl (NewProblem ''AUTH_INVALID_CREDENTIALS'' False)"
    if "u_ID v = prr_UserID p" "old \<noteq> h" for v old
    using that user by (auto simp: login_commit_def login_refused_def)
  show ?thesis
    using changed(2) user ses res log reset.at_most_once [OF assms(1)]
    by (intro exI [of _ p] exI [of _ ?q]) auto
qed simp

definition sample_reset_store :: Memory where
  "sample_reset_store = snd (IssuePasswordResetToken sample_lib sample_env ''00000000-0000-4000-8000-000000000001'' sample_admin sample_store)"

lemma sample_reset_ok: "identity_ok sample_reset_store"
proof -
  obtain r where "IssuePasswordResetToken sample_lib sample_env ''00000000-0000-4000-8000-000000000001'' sample_admin sample_store
      = (r, sample_reset_store)" unfolding sample_reset_store_def by (metis prod.collapse)
  from issue_reset_ok [OF newMemory_ok [OF sample_store_new] this] show ?thesis .
qed

lemma sample_reset: "fst (reset_commit sample_env ''tok'' ''new'' sample_reset_store) = None"
  by code_simp

theorem reset_password_effect_witness:
  "\<exists>m'. reset_commit sample_env ''tok'' ''new'' sample_reset_store = (None, m') \<and>
     (\<exists>(p :: passwordResetRecord) r. mget (m_users m') (prr_UserID p) = Some r \<and> su_PasswordPHC r = ''new'')"
proof -
  obtain m' where r: "reset_commit sample_env ''tok'' ''new'' sample_reset_store = (None, m')"
    using sample_reset by (metis prod.collapse)
  from reset_password_effect [OF sample_reset_ok r, of sample_lib sample_env] r
  show ?thesis by blast
qed

text \<open>session recovery. Recovering a live session replaces it: the old token authenticates and
  recovers nothing any more (so of two concurrent recoveries one wins), and the new token is a
  session of the same user with the same expiry whose CSRF token is the one returned.\<close>

theorem recover_single_winner:
  assumes "RecoverSession L e t m = (Inr (v, t'), m')" "sessionTokenDigest L t' \<noteq> sessionTokenDigest L t"
  shows "fst (RecoverSession L e2 t m') = Inl (NewProblem ''AUTH_REQUIRED'' False) \<and>
    fst (AuthenticateSession L e2 t m') = Inl (NewProblem ''AUTH_REQUIRED'' False) \<and>
    (\<exists>s s'. mget (m_sessions m) (sessionTokenDigest L t) = Some s \<and> ses_ExpiresAt s' = ses_ExpiresAt s \<and>
       ses_UserID s' = ses_UserID s \<and> mget (m_sessions m') (sessionTokenDigest L t') = Some s' \<and>
       (clk e2 0 < ses_ExpiresAt s \<longrightarrow> ValidateCSRF L e2 t' (sv_CSRFToken v) m' \<and>
          fst (AuthenticateSession L e2 t' m') = Inr \<lparr>sv_User = sv_User v, sv_CSRFToken = [], sv_Environment = m_environment m\<rparr>))"
proof -
  from assms(1) obtain s r where live: "live_session (clk e 0) (sessionTokenDigest L t) m = Some (s, r)"
    by (auto simp: RecoverSession_def Let_def split: option.splits)
  with assms(1) have v: "v = \<lparr>sv_User = su_User r, sv_CSRFToken = tok e 1, sv_Environment = m_environment m\<rparr>" "t' = tok e 0"
    and m': "m' = m\<lparr>m_sessions := mput (sessionTokenDigest L t') (s\<lparr>ses_User := su_User r, ses_CSRFToken := tok e 1\<rparr>)
      (mdel (sessionTokenDigest L t) (m_sessions m))\<rparr>"
    by (auto simp: RecoverSession_def Let_def)
  from live have s: "mget (m_sessions m) (sessionTokenDigest L t) = Some s" "mget (m_users m) (ses_UserID s) = Some r"
    "u_Status (su_User r) = ''active''"
    by (auto simp: live_session_def split: option.splits if_splits)
  have dead: "live_session x (sessionTokenDigest L t) m' = None" for x
    using m' assms(2) by (auto simp: live_session_def)
  have "live_session (clk e2 0) (sessionTokenDigest L t') m' =
      Some (s\<lparr>ses_User := su_User r, ses_CSRFToken := tok e 1\<rparr>, r)" if "clk e2 0 < ses_ExpiresAt s"
    using that m' s by (simp add: live_session_def)
  with dead s v m' show ?thesis
    by (auto simp: RecoverSession_def AuthenticateSession_def ValidateCSRF_def Let_def)
qed

definition sample_login_store :: Memory where
  "sample_login_store = snd (Login sample_lib sample_env '' Admin@example.com'' ''password'' sample_store)"

definition sample_env2 :: env where
  "sample_env2 = sample_env\<lparr>tok := (\<lambda>i. ''new'' @ replicate i (CHR ''y''))\<rparr>"

lemma sample_recover:
  "fst (RecoverSession sample_lib sample_env2 ''tok'' sample_login_store) =
     Inr (\<lparr>sv_User = sample_admin, sv_CSRFToken = ''newy'', sv_Environment = ''dev''\<rparr>, ''new'')"
  by code_simp

lemma sample_digests: "sessionTokenDigest sample_lib ''new'' \<noteq> sessionTokenDigest sample_lib ''tok''"
  by code_simp

theorem recover_single_winner_witness:
  "\<exists>m'. RecoverSession sample_lib sample_env2 ''tok'' sample_login_store =
       (Inr (\<lparr>sv_User = sample_admin, sv_CSRFToken = ''newy'', sv_Environment = ''dev''\<rparr>, ''new''), m') \<and>
     fst (RecoverSession sample_lib sample_env ''tok'' m') = Inl (NewProblem ''AUTH_REQUIRED'' False)"
proof -
  obtain m' where r: "RecoverSession sample_lib sample_env2 ''tok'' sample_login_store =
       (Inr (\<lparr>sv_User = sample_admin, sv_CSRFToken = ''newy'', sv_Environment = ''dev''\<rparr>, ''new''), m')"
    using sample_recover by (metis prod.collapse)
  from recover_single_winner [OF r sample_digests] r show ?thesis by blast
qed

lemma reconcile_users [simp]: "m_users (reconcileNodeLivenessLocked now m) = m_users m"
  "membership_of (reconcileNodeLivenessLocked now m) = membership_of m"
  "m_serverOrder (reconcileNodeLivenessLocked now m) = m_serverOrder m"
  by (simp_all add: reconcileNodeLivenessLocked_def membership_of_def fun_eq_iff)

lemma reconcile_can_read [simp]: "can_read (reconcileNodeLivenessLocked now m) = can_read m"
  by (simp add: can_read_def fun_eq_iff)

text \<open>authorization is consistent. The check before a call and the check inside the store agree;
  for a membership whose permissions are supported ones, the permissions reported to a user are
  exactly the ones the check grants; and the servers a user can list are exactly those the check lets
  the user read.\<close>

theorem authorization_consistent:
  assumes "\<forall>s u p. membership_of m s u = Some p \<longrightarrow> set (sm_Permissions p) \<subseteq> set allowedServerPermissions"
    and "\<forall>s \<in> set (m_serverOrder m). mhas (m_servers m) s"
  shows "(AuthorizeServer u s p m = None \<longleftrightarrow> \<not> isl (authorizeServerLocked m u s p)) \<and>
    (\<forall>ps. EffectiveServerPermissions u s m = Inr ps \<longrightarrow> p \<in> set allowedServerPermissions \<longrightarrow>
       (AuthorizeServer u s p m = None \<longleftrightarrow> p \<in> set (sp_Permissions ps))) \<and>
    fst (VisibleServers L now u [] m) =
      map (mget_zero zero_server (m_servers (reconcileNodeLivenessLocked now m)))
        (filter (\<lambda>x. AuthorizeServer u x ''servers.read'' m = None) (m_serverOrder m))"
proof -
  have "AuthorizeServer u s p m = None \<longleftrightarrow> \<not> isl (authorizeServerLocked m u s p)"
    by (auto simp: AuthorizeServer_def authorizeServerLocked_def currentActorLocked_def split: option.splits)
  moreover have "AuthorizeServer u s p m = None \<longleftrightarrow> p \<in> set (sp_Permissions ps)"
    if "EffectiveServerPermissions u s m = Inr ps" "p \<in> set allowedServerPermissions" for ps
    using that by (auto simp: EffectiveServerPermissions_def AuthorizeServer_def allServerPermissions_def
        containsString_def split: option.splits if_splits)
  moreover have "fst (VisibleServers L now u [] m) =
      map (mget_zero zero_server (m_servers (reconcileNodeLivenessLocked now m)))
        (filter (\<lambda>x. AuthorizeServer u x ''servers.read'' m = None) (m_serverOrder m))"
  proof -
    have match: "server_matches L (ToLower (uni_lower L) (TrimSpace [])) = (\<lambda>_. True)"
      by (auto simp: server_matches_def ToLower_def TrimSpace_def)
    have "filter (\<lambda>x. AuthorizeServer u x ''servers.read'' m = None) (m_serverOrder m) =
        (case mget (m_users m) u of None \<Rightarrow> []
         | Some r \<Rightarrow> if u_Status (su_User r) \<noteq> ''active'' then []
             else filter (can_read m (hasRole (su_User r) ''platform_admin'') u) (m_serverOrder m))"
      using assms(2) by (auto simp: AuthorizeServer_def can_read_def split: option.splits intro!: filter_cong)
    then show ?thesis
      by (auto simp: VisibleServers_def Let_def match can_read_def split: option.splits)
  qed
  ultimately show ?thesis by blast
qed

lemma sample_no_members: "m_memberships sample_store = []"
  by code_simp

lemma sample_memberships:
  "\<forall>s u p. membership_of sample_store s u = Some p \<longrightarrow> set (sm_Permissions p) \<subseteq> set allowedServerPermissions"
  by (simp add: membership_of_def sample_no_members mget_zero_def)

lemma sample_order: "m_serverOrder sample_store = []"
  by code_simp

theorem authorization_consistent_witness:
  "AuthorizeServer ''00000000-0000-4000-8000-000000000001'' ''s1'' ''servers.read'' sample_store = None \<longleftrightarrow>
    \<not> isl (authorizeServerLocked sample_store ''00000000-0000-4000-8000-000000000001'' ''s1'' ''servers.read'')"
  using authorization_consistent [OF sample_memberships, of "''00000000-0000-4000-8000-000000000001''" "''s1''" "''servers.read''" sample_lib 0]
    sample_order by simp

end
