(* ===== verification/Server_Operations.thy ===== *)
theory Server_Operations
  imports Identity_Store "HOL-Library.Product_Lexorder"
begin

text \<open>
  Servers and their power state (\<^verbatim>\<open>internal/store/operations.go\<close>): creating a server, power
  requests, console commands, the operation list, and the background work that finishes an
  operation. A handler that starts a goroutine returns the goroutine as a \<open>task\<close> value; the
  sections the goroutine runs under the store lock are definitions of their own
  (\<open>finishProvision_end\<close>, \<open>finishPower_progress\<close>, ...), because other calls run between
  them. The audit entry a handler writes right after it releases the lock is part of the handler's
  step.
\<close>

section \<open>Goroutines\<close>

datatype job =
    JobProvision
  | JobPower PowerAction
  | JobReconcile string string
  | JobBackup string
  | JobRestoreBackup string string
  | JobDeleteBackup string string

text \<open>Where a goroutine stands: not started, after \<^verbatim>\<open>beginOperation\<close>, after the progress report of
  a power operation, and on the container path after \<^verbatim>\<open>beginOperation\<close> and after the snapshot
  was read.\<close>

datatype phase =
    Spawned
  | Began
  | Halfway
  | RuntimeBegan
  | RuntimeRead "Operation option" "Server option" "Startup option"

record task =
  tk_operationID :: string
  tk_serverID :: string
  tk_job :: job
  tk_phase :: phase

section \<open>Ports for a new server\<close>

definition allocation_taken :: "string \<Rightarrow> string \<Rightarrow> string \<Rightarrow> int \<Rightarrow> Memory \<Rightarrow> bool" where
  "allocation_taken nodeID bindIP protocol port m =
     list_ex (\<lambda>(_, a). al_NodeID a = nodeID \<and> al_BindIP a = bindIP \<and> al_Port a = port \<and> al_Protocol a = protocol)
       (m_allocations m)"

function nextAllocationPortLocked :: "string \<Rightarrow> string \<Rightarrow> string \<Rightarrow> int \<Rightarrow> Memory \<Rightarrow> int option" where
  "nextAllocationPortLocked nodeID bindIP protocol port m =
     (if port > 65535 then None
      else if \<not> allocation_taken nodeID bindIP protocol port m then Some port
      else nextAllocationPortLocked nodeID bindIP protocol (port + 1) m)"
  by pat_completeness auto
termination
  by (relation "measure (\<lambda>(_, _, _, port, _). nat (65536 - port))") auto

declare nextAllocationPortLocked.simps [simp del]

definition defaultAllocationSettings :: "string \<Rightarrow> string \<times> int" where
  "defaultAllocationSettings gameID =
     (if gameID = ''io.gugumanager.factorio'' then (''udp'', 34197)
      else if gameID = ''io.gugumanager.vintagestory'' then (''tcp'', 42420)
      else (''tcp'', 25565))"

text \<open>The result is port reference, protocol, first port, container port and role; the loop stops
  at the first primary port, usable or not.\<close>

definition allocationSettingsForGame :: "lib \<Rightarrow> GameDefinition \<Rightarrow> string \<times> string \<times> int \<times> int \<times> string" where
  "allocationSettingsForGame L game =
     (let fallback = (let (protocol, firstPort) = defaultAllocationSettings (g_ID game)
                      in ([], protocol, firstPort, firstPort, ''primary''))
      in case g_RuntimeTarget game of
           None \<Rightarrow> fallback
         | Some target \<Rightarrow>
             (case find (\<lambda>p. rp_Role p = ''primary'') (grt_Ports target) of
                None \<Rightarrow> fallback
              | Some p \<Rightarrow>
                  let protocol = ToLower (uni_lower L) (rp_Protocol p)
                  in if protocol \<noteq> ''tcp'' \<and> protocol \<noteq> ''udp'' then fallback
                     else (rp_Name p, protocol, rp_ContainerPort p, rp_ContainerPort p, ''primary'')))"

text \<open>\<^verbatim>\<open>net.JoinHostPort\<close> and \<^verbatim>\<open>strconv.Itoa\<close>.\<close>

definition JoinHostPort :: "string \<Rightarrow> string \<Rightarrow> string" where
  "JoinHostPort host port = (if CHR '':'' \<in> set host then ''['' @ host @ '']:'' @ port else host @ '':'' @ port)"

definition allocationAddress :: "Allocation \<Rightarrow> string" where
  "allocationAddress a = JoinHostPort (al_BindIP a) (FormatInt (al_Port a))"

definition packageRuntimeTargetUnavailable :: "GameDefinition \<Rightarrow> problem" where
  "packageRuntimeTargetUnavailable game =
     (NewProblem ''PACKAGE_INCOMPATIBLE'' False)\<lparr>Details :=
        mput ''supportReasons'' (AnyStrings (g_SupportReasons game))
          (mput ''source'' (AnyString (g_Source game))
            (mput ''trustLevel'' (AnyString (g_TrustLevel game))
              (mput ''bundleDigest'' (AnyString (g_BundleDigest game))
                (mput ''gameDefinitionId'' (AnyString (g_ID game)) []))))\<rparr>"

section \<open>Creating a server\<close>

text \<open>The request body that passed the checks at the top of \<open>CreateServer\<close>.\<close>

definition validate_create :: "CreateServerInput \<Rightarrow> string \<Rightarrow> CreateServerInput result" where
  "validate_create inp0 idempotencyKey =
     (let inp = inp0\<lparr>csi_Name := TrimSpace (csi_Name inp0)\<rparr> in
      if rune_count (csi_Name inp) < 1 \<or> rune_count (csi_Name inp) > 64 then Inl (NewProblem ''VALIDATION_FAILED'' False)
      else case validateIdempotencyKey idempotencyKey of
        Some err \<Rightarrow> Inl err
      | None \<Rightarrow>
          if csi_MemoryMB inp < 512 \<or> csi_MemoryMB inp > 131072 \<or> csi_DiskGB inp < 1 \<or> csi_DiskGB inp > 2048
          then Inl (NewProblem ''VALIDATION_FAILED'' False) else Inr inp)"

text \<open>The byte quotas; the checked ranges keep the products within \<^verbatim>\<open>int64\<close>.\<close>

definition memory_bytes :: "CreateServerInput \<Rightarrow> int" where
  "memory_bytes inp = csi_MemoryMB inp * 1024 * 1024"

definition disk_bytes :: "CreateServerInput \<Rightarrow> int" where
  "disk_bytes inp = csi_DiskGB inp * 1024 * 1024 * 1024"

text \<open>The node and the game a new server may use.\<close>

definition placement :: "CreateServerInput \<Rightarrow> Memory \<Rightarrow> (Node \<times> GameDefinition) result" where
  "placement inp m =
     (case (mget (m_nodes m) (csi_NodeID inp), mget (m_games m) (csi_GameDefinitionID inp)) of
        (Some node, Some game) \<Rightarrow>
          if g_Status game \<noteq> ''approved'' then Inl (NewProblem ''GAME_DEFINITION_NOT_APPROVED'' False)
          else if csi_GameBundleDigest inp \<noteq> g_BundleDigest game then Inl (NewProblem ''PACKAGE_INCOMPATIBLE'' False)
          else if \<not> g_Runnable game then Inl (packageRuntimeTargetUnavailable game)
          else if n_Condition node \<noteq> ''available'' then Inl (NewProblem ''NODE_OFFLINE'' True)
          else if memory_bytes inp > n_MemoryBytes node - n_AllocatedMemoryBytes node \<or>
                  disk_bytes inp > n_DiskBytes node - n_AllocatedDiskBytes node
          then Inl (NewProblem ''INSUFFICIENT_RESOURCE'' False)
          else Inr (node, game)
      | _ \<Rightarrow> Inl (NewProblem ''VALIDATION_FAILED'' False))"

text \<open>The UTF-8 bytes of the fixed description.\<close>

definition development_description :: string where
  "development_description =
     [CHR 0xE6, CHR 0x96, CHR 0xB0, CHR 0xE5, CHR 0xBB, CHR 0xBA, 
      CHR 0xE5, CHR 0xBC, CHR 0x80, CHR 0xE5, CHR 0x8F, CHR 0x91, CHR 0xE6, CHR 0x9C, CHR 0x8D, CHR 0xE5, CHR 0x8A, CHR 0xA1, CHR 0xE5, CHR 0x99, CHR 0xA8]"

definition new_server :: "gotime \<Rightarrow> string \<Rightarrow> CreateServerInput \<Rightarrow> Node \<Rightarrow> GameDefinition \<Rightarrow> string \<Rightarrow> string \<Rightarrow> Server" where
  "new_server now serverID inp node game address owner =
     \<lparr>srv_ID = serverID, srv_Name = TrimSpace (csi_Name inp), srv_Description = development_description, srv_GameID = g_ID game,
      srv_GameBundleDigest = g_BundleDigest game, srv_GameDefinitionVersion = g_Version game, srv_GameName = g_Name game,
      srv_GameVersion = g_GameVersion game, srv_NodeID = n_ID node, srv_NodeName = n_Name node,
      srv_LifecycleState = ''provisioning'', srv_DesiredPower = ''stopped'', srv_ObservedPower = ''unknown'',
      srv_NodeCondition = n_Condition node, srv_HealthCondition = ''unknown'', srv_Generation = 1,
      srv_ObservedGeneration = 0, srv_ObservedAt = now, srv_Allocation = address, srv_OwnerName = owner,
      srv_Metrics = zero_metrics\<lparr>rm_MemoryLimit := memory_bytes inp, rm_DiskLimit := disk_bytes inp\<rparr>,
      srv_MetricHistory = [], srv_Metadata = [], srv_UpdatedAt = now\<rparr>"

text \<open>The startup declaration and values of a new server; a declared variable \<^verbatim>\<open>memory_mb\<close> takes
  the requested memory.\<close>

definition initial_startup ::
  "lib \<Rightarrow> CreateServerInput \<Rightarrow> Server \<Rightarrow> GameDefinition \<Rightarrow> (Startup \<times> (string, any) gomap) result" where
  "initial_startup L inp server game =
     (case startupFromFixedBundle (codec L) server game [] of
        Inl err \<Rightarrow> Inl err
      | Inr (startup, startupValues) \<Rightarrow>
          if list_ex (\<lambda>v. var_Key v = ''memory_mb'') (st_Variables startup)
          then (case applyStartupOverrides (st_Variables startup) startupValues [(''memory_mb'', AnyInt (csi_MemoryMB inp))] of
                  Inl err \<Rightarrow> Inl err | Inr startupValues' \<Rightarrow> Inr (startup, startupValues'))
          else Inr (startup, startupValues))"

text \<open>Recording a queued operation and the idempotency record that leads to it.\<close>

definition queue_operation :: "string \<Rightarrow> string \<Rightarrow> Operation \<Rightarrow> Memory \<Rightarrow> Memory" where
  "queue_operation scope digest operation m =
     m\<lparr>m_operations := mput (op_ID operation) operation (m_operations m),
       m_idempotency := mput scope \<lparr>ir_OperationID = op_ID operation, ir_RequestDigest = digest\<rparr> (m_idempotency m)\<rparr>"

definition install_server ::
  "Server \<Rightarrow> Allocation \<Rightarrow> Startup \<Rightarrow> (string, any) gomap \<Rightarrow> CreateServerInput \<Rightarrow> Node \<Rightarrow> GameDefinition \<Rightarrow> Memory \<Rightarrow> Memory" where
  "install_server server allocation startup startupValues inp node game m =
     m\<lparr>m_fileSystems := srv_ID server # m_fileSystems m,
       m_servers := mput (srv_ID server) server (m_servers m),
       m_serverOrder := m_serverOrder m @ [srv_ID server],
       m_allocations := mput (al_ID allocation) allocation (m_allocations m),
       m_allocationOrder := mput (srv_ID server) [al_ID allocation] (m_allocationOrder m),
       m_startups := mput (srv_ID server) startup (m_startups m),
       m_startupValues := mput (srv_ID server) startupValues (m_startupValues m),
       m_nodes := mput (n_ID node) (node\<lparr>n_AllocatedMemoryBytes := n_AllocatedMemoryBytes node + memory_bytes inp,
          n_AllocatedDiskBytes := n_AllocatedDiskBytes node + disk_bytes inp,
          n_TotalServers := n_TotalServers node + 1\<rparr>) (m_nodes m),
       m_games := mput (g_ID game) (game\<lparr>g_Servers := g_Servers game + 1\<rparr>) (m_games m)\<rparr>"

text \<open>What a handler yields: the operation or a problem, the goroutine it started, the store. The
  argument \<open>disk\<close> tells whether the data directory could be created.\<close>

type_synonym handled = "Operation result \<times> task option \<times> Memory"

definition CreateServer :: "lib \<Rightarrow> env \<Rightarrow> bool \<Rightarrow> CreateServerInput \<Rightarrow> string \<Rightarrow> User \<Rightarrow> Memory \<Rightarrow> handled" where
  "CreateServer L e disk inp0 idempotencyKey actor m =
     (case validate_create inp0 idempotencyKey of
        Inl err \<Rightarrow> (Inl err, None, m)
      | Inr inp \<Rightarrow>
     let digest = requestDigest L (ReqCreateServer inp);
         scope = idempotencyScope ''server:create'' (u_ID actor) [] idempotencyKey;
         now = clk e 0
     in case currentActorLocked m (u_ID actor) of
        Inl err \<Rightarrow> (Inl err, None, m)
      | Inr currentActor \<Rightarrow>
     if \<not> hasRole currentActor ''platform_admin'' then (Inl (NewProblem ''FORBIDDEN'' False), None, m)
     else let m1 = reconcileNodeLivenessLocked now m in
     (case idempotentOperationLocked m1 scope digest of
        Inl err \<Rightarrow> (Inl err, None, m1)
      | Inr (Some existing) \<Rightarrow> (Inr existing, None, m1)
      | Inr None \<Rightarrow>
     (case placement inp m1 of
        Inl err \<Rightarrow> (Inl err, None, m1)
      | Inr (node, game) \<Rightarrow>
     let (portRef, protocol, firstPort, containerPort, role) = allocationSettingsForGame L game in
     (case nextAllocationPortLocked (n_ID node) (n_Address node) protocol firstPort m1 of
        None \<Rightarrow> (Inl (NewProblem ''PORT_CONFLICT'' False), None, m1)
      | Some port \<Rightarrow>
     let serverID = uuid e 0;
         operation = NewQueuedOperation (uuid e 1) serverID (n_ID node) ''provision'' 1 idempotencyKey now;
         allocation = \<lparr>al_ID = uuid e 2, al_ServerID = serverID, al_NodeID = n_ID node, al_BindIP = n_Address node,
           al_Port = port, al_Protocol = protocol, al_PortRef = portRef, al_ContainerPort = containerPort,
           al_Role = role, al_Primary = True, al_CreatedAt = now, al_UpdatedAt = now\<rparr>;
         server = new_server now serverID inp node game (allocationAddress allocation) (u_DisplayName currentActor)
     in (case initial_startup L inp server game of
           Inl err \<Rightarrow> (Inl err, None, m1)
         | Inr (startup, startupValues) \<Rightarrow>
             if \<not> disk then (Inl (NewProblem ''INTERNAL_ERROR'' True), None, m1)
             else
               (Inr operation,
                Some \<lparr>tk_operationID = op_ID operation, tk_serverID = serverID, tk_job = JobProvision, tk_phase = Spawned\<rparr>,
                recordAuditLocked (uuid e 3) (clk e 1) (u_DisplayName currentActor) ''server.create'' ''server''
                  (srv_Name server) ''accepted'' (op_ID operation)
                  (queue_operation scope digest operation
                    (install_server server allocation startup startupValues inp node game m1))))))))"

section \<open>Power requests\<close>

definition startupTemplateForServerLocked :: "lib \<Rightarrow> Memory \<Rightarrow> Server \<Rightarrow> Startup result" where
  "startupTemplateForServerLocked L m server =
     (case mget (m_games m) (srv_GameID server) of
        None \<Rightarrow> Inl packageIncompatible
      | Some game \<Rightarrow>
          (case startupFromFixedBundle (codec L) server game [] of
             Inl err \<Rightarrow> Inl err
           | Inr (fixed, _) \<Rightarrow>
               (case mget (m_startups m) (srv_ID server) of
                  None \<Rightarrow> Inl packageIncompatible
                | Some cached \<Rightarrow> if startupTemplatesEqual cached fixed then Inr fixed else Inl packageIncompatible)))"

definition missing_variables :: "Startup \<Rightarrow> (string, any) gomap \<Rightarrow> string list" where
  "missing_variables startup vals =
     map var_Key (filter (\<lambda>v. var_Required v \<and> (case mget vals (var_Key v) of None \<Rightarrow> True | Some x \<Rightarrow> x = AnyNil))
       (st_Variables startup))"

text \<open>The check a start or restart makes before it is queued.\<close>

definition startup_complete :: "lib \<Rightarrow> PowerAction \<Rightarrow> string \<Rightarrow> Server \<Rightarrow> Memory \<Rightarrow> problem option" where
  "startup_complete L action serverID server m =
     (if action = PowerStart \<or> action = PowerRestart then
        (case startupTemplateForServerLocked L m server of
           Inl err \<Rightarrow> Some err
         | Inr startup \<Rightarrow>
             if missing_variables startup (mget_zero [] (m_startupValues m) serverID) \<noteq> []
             then Some validationProblem else None)
      else None)"

definition power_requested :: "PowerAction \<Rightarrow> Server \<Rightarrow> Server" where
  "power_requested action server =
     (if action = PowerStart then server\<lparr>srv_DesiredPower := ''running'', srv_ObservedPower := ''starting''\<rparr>
      else if action = PowerStop \<or> action = PowerKill
      then server\<lparr>srv_DesiredPower := ''stopped'', srv_ObservedPower := ''stopping''\<rparr>
      else server\<lparr>srv_ObservedPower := ''stopping''\<rparr>)"

definition join_operation :: "string \<Rightarrow> string \<Rightarrow> Operation \<Rightarrow> Memory \<Rightarrow> Memory" where
  "join_operation scope digest active m =
     m\<lparr>m_idempotency := mput scope \<lparr>ir_OperationID = op_ID active, ir_RequestDigest = digest\<rparr> (m_idempotency m)\<rparr>"

definition RequestPower :: "lib \<Rightarrow> env \<Rightarrow> string \<Rightarrow> PowerAction \<Rightarrow> string \<Rightarrow> User \<Rightarrow> Memory \<Rightarrow> handled" where
  "RequestPower L e serverID action idempotencyKey actor m =
     (case validateIdempotencyKey idempotencyKey of
        Some err \<Rightarrow> (Inl err, None, m)
      | None \<Rightarrow>
     if action \<notin> {PowerStart, PowerStop, PowerRestart, PowerKill}
     then (Inl (NewProblem ''VALIDATION_FAILED'' False), None, m)
     else
     let digest = requestDigest L (ReqPower action);
         scope = idempotencyScope ''server:power'' (u_ID actor) serverID idempotencyKey;
         now = clk e 0
     in case authorizeServerLocked m (u_ID actor) serverID ''servers.power'' of
        Inl err \<Rightarrow> (Inl err, None, m)
      | Inr currentActor \<Rightarrow>
     let m1 = reconcileNodeLivenessLocked now m in
     (case idempotentOperationLocked m1 scope digest of
        Inl err \<Rightarrow> (Inl err, None, m1)
      | Inr (Some existing) \<Rightarrow> (Inr existing, None, m1)
      | Inr None \<Rightarrow>
     (case mget (m_servers m1) serverID of
        None \<Rightarrow> (Inl (NewProblem ''NOT_FOUND'' False), None, m1)
      | Some server \<Rightarrow>
     let node = mget_zero zero_node (m_nodes m1) (srv_NodeID server) in
     if n_Condition node \<noteq> ''available'' then (Inl (NewProblem ''NODE_OFFLINE'' True), None, m1)
     else
     (case activeExclusiveOperationLocked m1 serverID of
        Some active \<Rightarrow>
          if op_Type active = action then (Inr active, None, join_operation scope digest active m1)
          else (Inl (operationInProgress active), None, m1)
      | None \<Rightarrow>
     if srv_LifecycleState server \<noteq> ''ready'' then (Inl (NewProblem ''OPERATION_IN_PROGRESS'' True), None, m1)
     else
     (case startup_complete L action serverID server m1 of
        Some err \<Rightarrow> (Inl err, None, m1)
      | None \<Rightarrow>
          let generation = wrap64 (srv_Generation server + 1);
              operation = NewQueuedOperation (uuid e 0) serverID (srv_NodeID server) action generation idempotencyKey now;
              server1 = (power_requested action (server\<lparr>srv_Generation := generation\<rparr>))
                \<lparr>srv_NodeCondition := n_Condition node, srv_UpdatedAt := now\<rparr>
          in (Inr operation,
              Some \<lparr>tk_operationID = op_ID operation, tk_serverID = serverID, tk_job = JobPower action, tk_phase = Spawned\<rparr>,
              recordAuditLocked (uuid e 1) (clk e 1) (u_DisplayName currentActor) (''server.power.'' @ action) ''server''
                (srv_Name server1) ''accepted'' (op_ID operation)
                ((queue_operation scope digest operation m1)\<lparr>m_servers := mput serverID server1 (m_servers m1)\<rparr>)))))))"

section \<open>Finishing an operation\<close>

text \<open>The lines every finishing goroutine shares: complete the operation for the current generation
  of its server and store it. The result is the operation when this call finished it.\<close>

definition complete_section :: "gotime \<Rightarrow> string \<Rightarrow> string \<Rightarrow> Memory \<Rightarrow> Operation option \<times> Memory" where
  "complete_section now operationID serverID m =
     (case mget (m_operations m) operationID of
        None \<Rightarrow> (None, m)
      | Some operation0 \<Rightarrow>
          (case completeOperationForGenerationLocked (mget (m_servers m) serverID) now operation0 of
             (False, _) \<Rightarrow> (None, m)
           | (True, operation) \<Rightarrow>
               (Some operation, m\<lparr>m_operations := mput operationID operation (m_operations m)\<rparr>)))"

definition observe_server :: "string \<Rightarrow> (Server \<Rightarrow> Server) \<Rightarrow> Memory \<Rightarrow> Memory" where
  "observe_server serverID f m =
     m\<lparr>m_servers := mput serverID (f (mget_zero zero_server (m_servers m) serverID)) (m_servers m)\<rparr>"

definition provisioned :: "gotime \<Rightarrow> Server \<Rightarrow> Server" where
  "provisioned now server =
     server\<lparr>srv_LifecycleState := ''ready'', srv_ObservedPower := ''stopped'',
       srv_ObservedGeneration := srv_Generation server, srv_ObservedAt := now, srv_UpdatedAt := now\<rparr>"

definition powered :: "PowerAction \<Rightarrow> gotime \<Rightarrow> Server \<Rightarrow> Server" where
  "powered action now server =
     (if action = PowerStart \<or> (action = PowerRestart \<and> srv_DesiredPower server = ''running'')
      then server\<lparr>srv_ObservedPower := ''running'', srv_HealthCondition := ''healthy''\<rparr>
      else server\<lparr>srv_ObservedPower := ''stopped'', srv_HealthCondition := ''unknown''\<rparr>)
       \<lparr>srv_ObservedGeneration := srv_Generation server, srv_ObservedAt := now, srv_UpdatedAt := now\<rparr>"

definition finishProvision_end :: "gotime \<Rightarrow> string \<Rightarrow> string \<Rightarrow> Memory \<Rightarrow> Memory" where
  "finishProvision_end now operationID serverID m =
     (case complete_section now operationID serverID m of
        (None, m1) \<Rightarrow> m1
      | (Some operation, m1) \<Rightarrow>
          if op_Status operation = ''succeeded'' then observe_server serverID (provisioned now) m1 else m1)"

definition finishPower_progress :: "gotime \<Rightarrow> string \<Rightarrow> Memory \<Rightarrow> Memory" where
  "finishPower_progress now operationID m =
     (case mget (m_operations m) operationID of
        None \<Rightarrow> m
      | Some operation \<Rightarrow>
          if isTerminalOperation (op_Status operation) then m
          else m\<lparr>m_operations := mput operationID
                   ((normalizeOperationMetadata operation)\<lparr>op_Status := ''running'', op_Progress := 55,
                      op_Checkpoint := runningCheckpoint (op_Type operation), op_UpdatedAt := now\<rparr>) (m_operations m)\<rparr>)"

definition finishPower_end :: "gotime \<Rightarrow> PowerAction \<Rightarrow> string \<Rightarrow> string \<Rightarrow> Memory \<Rightarrow> Memory" where
  "finishPower_end now action operationID serverID m =
     (case complete_section now operationID serverID m of
        (None, m1) \<Rightarrow> m1
      | (Some operation, m1) \<Rightarrow>
          if op_Status operation = ''succeeded'' then observe_server serverID (powered action now) m1 else m1)"

section \<open>Console commands\<close>

definition SendConsoleCommand :: "env \<Rightarrow> string \<Rightarrow> string \<Rightarrow> User \<Rightarrow> Memory \<Rightarrow> problem option \<times> Memory" where
  "SendConsoleCommand e serverID command0 actor m =
     (let command = TrimSpace command0 in
      if command = [] \<or> rune_count command > 512 then (Some (NewProblem ''VALIDATION_FAILED'' False), m)
      else case authorizeServerLocked m (u_ID actor) serverID ''servers.console'' of
        Inl err \<Rightarrow> (Some err, m)
      | Inr currentActor \<Rightarrow>
     (case mget (m_servers m) serverID of
        None \<Rightarrow> (Some (NewProblem ''NOT_FOUND'' False), m)
      | Some server \<Rightarrow>
     if srv_ObservedPower server \<noteq> ''running'' then (Some (NewProblem ''OPERATION_CONFLICT'' False), m)
     else
       let previous = mget_zero [] (m_console m) serverID;
           sequence = (if previous = [] then 1 else wrap64 (cl_Sequence (last previous) + 1));
           now = clk e 0;
           commandLines =
             [\<lparr>cl_Sequence = sequence, cl_Timestamp = now, cl_Stream = ''command'', cl_Message = ''> '' @ command\<rparr>,
              \<lparr>cl_Sequence = wrap64 (sequence + 1), cl_Timestamp = now + 20 * millisecond, cl_Stream = ''stdout'',
                cl_Message = ''[panel] command accepted by development adapter''\<rparr>]
       in (None,
           recordAuditLocked (uuid e 1) (clk e 1) (u_DisplayName currentActor) ''console.command'' ''server''
             (srv_Name server) ''accepted'' (uuid e 0)
             (m\<lparr>m_console := mput serverID (previous @ commandLines) (m_console m),
                m_consoleHub := Publish serverID commandLines (m_consoleHub m)\<rparr>))))"

definition RecordConsoleCommandResult ::
  "env \<Rightarrow> string \<Rightarrow> User \<Rightarrow> ConsoleCommandResult \<Rightarrow> Memory \<Rightarrow> problem option \<times> Memory" where
  "RecordConsoleCommandResult e serverID actor res m =
     (case authorizeServerLocked m (u_ID actor) serverID ''servers.console'' of
        Inl err \<Rightarrow> (Some err, m)
      | Inr currentActor \<Rightarrow>
     (case mget (m_servers m) serverID of
        None \<Rightarrow> (Some (NewProblem ''NOT_FOUND'' False), m)
      | Some server \<Rightarrow>
          (None, recordAuditLocked (uuid e 0) (clk e 0) (u_DisplayName currentActor) ''console.command.result'' ''server''
             (srv_Name server) (if ccr_Succeeded res then ''success'' else ''failure'') (ccr_RequestID res) m)))"

section \<open>Listing operations\<close>

definition operation_visible :: "bool \<Rightarrow> string \<Rightarrow> Memory \<Rightarrow> Operation \<Rightarrow> bool" where
  "operation_visible admin userID m operation =
     (admin \<or> (case membership_of m (op_ServerID operation) userID of
                 None \<Rightarrow> False | Some membership \<Rightarrow> containsString (sm_Permissions membership) ''servers.read''))"

text \<open>The newest operation first, operations of the same instant by identifier.\<close>

definition VisibleOperations :: "string \<Rightarrow> Memory \<Rightarrow> Operation list \<times> Memory" where
  "VisibleOperations userID m =
     (case mget (m_users m) userID of
        None \<Rightarrow> ([], m)
      | Some user \<Rightarrow>
          if u_Status (su_User user) \<noteq> ''active'' then ([], m)
          else
            let admin = hasRole (su_User user) ''platform_admin'';
                visible = operation_visible admin userID m
            in (sort_key (\<lambda>p. (- op_CreatedAt p, op_ID p))
                  (map normalizeOperationMetadata (filter visible (map snd (m_operations m)))),
                m\<lparr>m_operations := mmap (\<lambda>_ p. if visible p then normalizeOperationMetadata p else p) (m_operations m)\<rparr>))"

end
