(* ===== verification/Network_Startup.thy ===== *)
theory Network_Startup
  imports Server_Operations
begin

text \<open>
  Network allocations and startup settings of a server
  (\<^verbatim>\<open>internal/store/network_startup.go\<close>). The four mutating methods share
  \<open>requestReconcile\<close>, which checks the generation the caller saw, runs the mutation under the
  lock and queues a reconcile operation. A mutation returns the changed server and store, or a
  problem; every mutation reports its problems before it writes.
\<close>

section \<open>Allocation input\<close>

definition normalizeAllocationInput :: "lib \<Rightarrow> CreateAllocationInput \<Rightarrow> CreateAllocationInput result" where
  "normalizeAllocationInput L inp =
     (case parse_ip L (TrimSpace (cai_BindIP inp)) of
        None \<Rightarrow> Inl validationProblem
      | Some (address, unspecified) \<Rightarrow>
     if unspecified then Inl validationProblem
     else if cai_Port inp < 1 \<or> cai_Port inp > 65535 then Inl validationProblem
     else
     let protocol = ToLower (uni_lower L) (TrimSpace (cai_Protocol inp)) in
     if protocol \<noteq> ''tcp'' \<and> protocol \<noteq> ''udp'' then Inl validationProblem
     else
     let containerPort = (if cai_ContainerPort inp = 0 then cai_Port inp else cai_ContainerPort inp) in
     if containerPort < 1 \<or> containerPort > 65535 then Inl validationProblem
     else
     let role0 = ToLower (uni_lower L) (TrimSpace (cai_Role inp));
         role = (if role0 = [] then (if cai_Primary inp then ''primary'' else ''additional'') else role0)
     in if role \<notin> {''primary'', ''query'', ''rcon'', ''additional''} then Inl validationProblem
        else Inr (inp\<lparr>cai_BindIP := address, cai_Protocol := protocol, cai_ContainerPort := containerPort,
                       cai_PortRef := TrimSpace (cai_PortRef inp), cai_Role := role\<rparr>))"

definition Allocations :: "gotime \<Rightarrow> string \<Rightarrow> Memory \<Rightarrow> Allocation list result \<times> Memory" where
  "Allocations now serverID m0 =
     (let m = reconcileNodeLivenessLocked now m0 in
      if \<not> mhas (m_servers m) serverID then (Inl (NewProblem ''NOT_FOUND'' False), m)
      else (Inr (List.map_filter (mget (m_allocations m)) (mget_zero [] (m_allocationOrder m) serverID)), m))"

section \<open>Reconcile requests\<close>

type_synonym reconcileMutation = "gotime \<Rightarrow> Server \<Rightarrow> Memory \<Rightarrow> (Server \<times> Memory) result"

definition capabilityUnsupported :: "Node \<Rightarrow> string \<Rightarrow> problem" where
  "capabilityUnsupported node required =
     (let base = mput ''nodeVersion'' (AnyString (n_Version node)) (mput ''nodeId'' (AnyString (n_ID node)) []);
          split = (case SplitNodeCapability required of
                     Some (capability, version) \<Rightarrow>
                       mput ''requiredVersion'' (AnyString version) (mput ''requiredCapability'' (AnyString capability) base)
                   | None \<Rightarrow> mput ''requiredCapability'' (AnyString required) base)
      in (NewProblem ''CAPABILITY_UNSUPPORTED'' False)\<lparr>Details :=
            mput ''declaredCapabilities'' (AnyStrings (n_Capabilities node)) split\<rparr>)"

definition preconditionFailed :: "Server \<Rightarrow> int \<Rightarrow> problem" where
  "preconditionFailed server expectedGeneration =
     (NewProblem ''PRECONDITION_FAILED'' False)\<lparr>Details :=
        mput ''providedGeneration'' (AnyInt expectedGeneration)
          (mput ''currentGeneration'' (AnyInt (srv_Generation server)) [])\<rparr>"

text \<open>The checks between the idempotency lookup and the mutation.\<close>

definition reconcile_refused :: "string \<Rightarrow> int \<Rightarrow> Server \<Rightarrow> Memory \<Rightarrow> problem option" where
  "reconcile_refused serverID expectedGeneration server m =
     (case mget (m_nodes m) (srv_NodeID server) of
        None \<Rightarrow> Some (NewProblem ''NODE_OFFLINE'' True)
      | Some node \<Rightarrow>
     if n_Condition node \<noteq> ''available'' then Some (NewProblem ''NODE_OFFLINE'' True)
     else if \<not> containsString (n_Capabilities node) NodeCapabilityServerReconcile
     then Some (capabilityUnsupported node NodeCapabilityServerReconcile)
     else if srv_Generation server \<noteq> expectedGeneration then Some (preconditionFailed server expectedGeneration)
     else case activeExclusiveOperationLocked m serverID of
        Some active \<Rightarrow> Some (operationInProgress active)
      | None \<Rightarrow>
          if srv_LifecycleState server \<noteq> ''ready'' then Some (NewProblem ''OPERATION_IN_PROGRESS'' True) else None)"

definition requestReconcile ::
  "env \<Rightarrow> string \<Rightarrow> int \<Rightarrow> string \<Rightarrow> string \<Rightarrow> string \<Rightarrow> User \<Rightarrow> string \<Rightarrow> string \<Rightarrow> reconcileMutation \<Rightarrow> Memory \<Rightarrow> handled" where
  "requestReconcile e serverID expectedGeneration idempotencyKey scope digest actor permission auditAction mutate m =
     (case validateIdempotencyKey idempotencyKey of
        Some err \<Rightarrow> (Inl err, None, m)
      | None \<Rightarrow>
     let now = clk e 0 in
     case authorizeServerLocked m (u_ID actor) serverID permission of
        Inl err \<Rightarrow> (Inl err, None, m)
      | Inr currentActor \<Rightarrow>
     let m1 = reconcileNodeLivenessLocked now m in
     (case idempotentOperationLocked m1 scope digest of
        Inl err \<Rightarrow> (Inl err, None, m1)
      | Inr (Some existing) \<Rightarrow> (Inr existing, None, m1)
      | Inr None \<Rightarrow>
     (case mget (m_servers m1) serverID of
        None \<Rightarrow> (Inl (NewProblem ''NOT_FOUND'' False), None, m1)
      | Some server0 \<Rightarrow>
     (case reconcile_refused serverID expectedGeneration server0 m1 of
        Some err \<Rightarrow> (Inl err, None, m1)
      | None \<Rightarrow>
     (case mutate now server0 m1 of
        Inl err \<Rightarrow> (Inl err, None, m1)
      | Inr (server1, m2) \<Rightarrow>
          let node = mget_zero zero_node (m_nodes m1) (srv_NodeID server0);
              generation = wrap64 (srv_Generation server1 + 1);
              server = server1\<lparr>srv_Generation := generation, srv_NodeCondition := n_Condition node, srv_UpdatedAt := now\<rparr>;
              operation = NewQueuedOperation (uuid e 0) serverID (n_ID node) ''reconcile'' generation idempotencyKey now
          in (Inr operation,
              Some \<lparr>tk_operationID = op_ID operation, tk_serverID = serverID,
                tk_job = JobReconcile (u_DisplayName currentActor) auditAction, tk_phase = Spawned\<rparr>,
              recordAuditLocked (uuid e 1) (clk e 1) (u_DisplayName currentActor) auditAction ''server''
                (srv_Name server) ''accepted'' (op_ID operation)
                (queue_operation scope digest operation (m2\<lparr>m_servers := mput serverID server (m_servers m2)\<rparr>))))))))"

definition audit_result :: "bool \<Rightarrow> string" where
  "audit_result succeeded = (if succeeded then ''success'' else ''failure'')"

definition target_name :: "string \<Rightarrow> Server option \<Rightarrow> string" where
  "target_name serverID server = (case server of None \<Rightarrow> serverID | Some s \<Rightarrow> srv_Name s)"

definition finishReconcile_end :: "env \<Rightarrow> string \<Rightarrow> string \<Rightarrow> string \<Rightarrow> string \<Rightarrow> Memory \<Rightarrow> Memory" where
  "finishReconcile_end e operationID serverID actorName auditAction m =
     (let now = clk e 0; server = mget (m_servers m) serverID in
      case complete_section now operationID serverID m of
        (None, m1) \<Rightarrow> m1
      | (Some operation, m1) \<Rightarrow>
          let succeeded = (op_Status operation = ''succeeded'');
              m2 = (if succeeded
                    then observe_server serverID (\<lambda>s. s\<lparr>srv_ObservedGeneration := op_Generation operation,
                           srv_ObservedAt := now, srv_UpdatedAt := now\<rparr>) m1
                    else m1)
          in recordAuditLocked (uuid e 0) (clk e 1) actorName auditAction ''server'' (target_name serverID server)
               (audit_result succeeded) operationID m2)"

section \<open>Allocations\<close>

definition zero_allocation :: Allocation where
  "zero_allocation = \<lparr>al_ID = [], al_ServerID = [], al_NodeID = [], al_BindIP = [], al_Port = 0, al_Protocol = [],
     al_PortRef = [], al_ContainerPort = 0, al_Role = [], al_Primary = False, al_CreatedAt = 0, al_UpdatedAt = 0\<rparr>"

text \<open>The loops that rewrite the allocations of a server, in the order of its list.\<close>

definition rewrite_allocations ::
  "(string \<Rightarrow> Allocation \<Rightarrow> Allocation) \<Rightarrow> string list \<Rightarrow> (string, Allocation) gomap \<Rightarrow> (string, Allocation) gomap" where
  "rewrite_allocations f order allocations =
     foldl (\<lambda>as i. mput i (f i (mget_zero zero_allocation as i)) as) allocations order"

definition demote_all :: "gotime \<Rightarrow> string list \<Rightarrow> (string, Allocation) gomap \<Rightarrow> (string, Allocation) gomap" where
  "demote_all now = rewrite_allocations (\<lambda>_ a. a\<lparr>al_Primary := False, al_UpdatedAt := now\<rparr>)"

definition add_allocation :: "string \<Rightarrow> string \<Rightarrow> CreateAllocationInput \<Rightarrow> reconcileMutation" where
  "add_allocation allocationID serverID inp now server m =
     (if allocation_taken (srv_NodeID server) (cai_BindIP inp) (cai_Protocol inp) (cai_Port inp) m
      then Inl (NewProblem ''PORT_CONFLICT'' False)
      else
        let order = mget_zero [] (m_allocationOrder m) serverID;
            makePrimary = (cai_Primary inp \<or> order = []);
            allocations = (if makePrimary then demote_all now order (m_allocations m) else m_allocations m);
            allocation = \<lparr>al_ID = allocationID, al_ServerID = serverID, al_NodeID = srv_NodeID server,
              al_BindIP = cai_BindIP inp, al_Port = cai_Port inp, al_Protocol = cai_Protocol inp,
              al_PortRef = cai_PortRef inp, al_ContainerPort = cai_ContainerPort inp, al_Role = cai_Role inp,
              al_Primary = makePrimary, al_CreatedAt = now, al_UpdatedAt = now\<rparr>
        in Inr (if makePrimary then server\<lparr>srv_Allocation := allocationAddress allocation\<rparr> else server,
                m\<lparr>m_allocations := mput allocationID allocation allocations,
                  m_allocationOrder := mput serverID (order @ [allocationID]) (m_allocationOrder m)\<rparr>))"

definition CreateAllocation ::
  "lib \<Rightarrow> env \<Rightarrow> string \<Rightarrow> CreateAllocationInput \<Rightarrow> int \<Rightarrow> string \<Rightarrow> User \<Rightarrow> Memory \<Rightarrow> handled" where
  "CreateAllocation L e serverID inp expectedGeneration idempotencyKey actor m =
     (case normalizeAllocationInput L inp of
        Inl err \<Rightarrow> (Inl err, None, m)
      | Inr normalized \<Rightarrow>
          requestReconcile e serverID expectedGeneration idempotencyKey
            (idempotencyScope ''server:allocation:create'' (u_ID actor) serverID idempotencyKey)
            (requestDigest L (ReqAllocationCreate expectedGeneration normalized)) actor ''servers.network.write''
            ''network.allocation.create'' (add_allocation (uuid e 2) serverID normalized) m)"

definition choose_primary :: "gotime \<Rightarrow> string \<Rightarrow> string list \<Rightarrow> (string, Allocation) gomap \<Rightarrow> (string, Allocation) gomap" where
  "choose_primary now allocationID =
     rewrite_allocations (\<lambda>i a. a\<lparr>al_Primary := (i = allocationID), al_UpdatedAt := now\<rparr>)"

definition make_primary :: "string \<Rightarrow> string \<Rightarrow> reconcileMutation" where
  "make_primary allocationID serverID now server m =
     (case mget (m_allocations m) allocationID of
        None \<Rightarrow> Inl (NewProblem ''NOT_FOUND'' False)
      | Some target0 \<Rightarrow>
          if al_ServerID target0 \<noteq> serverID then Inl (NewProblem ''NOT_FOUND'' False)
          else
            let target = target0\<lparr>al_Primary := True, al_UpdatedAt := now\<rparr>
            in Inr (server\<lparr>srv_Allocation := allocationAddress target\<rparr>,
                    m\<lparr>m_allocations := mput allocationID target
                        (choose_primary now allocationID (mget_zero [] (m_allocationOrder m) serverID) (m_allocations m))\<rparr>))"

definition SetPrimaryAllocation ::
  "lib \<Rightarrow> env \<Rightarrow> string \<Rightarrow> string \<Rightarrow> int \<Rightarrow> string \<Rightarrow> User \<Rightarrow> Memory \<Rightarrow> handled" where
  "SetPrimaryAllocation L e serverID allocationID0 expectedGeneration idempotencyKey actor m =
     (let allocationID = TrimSpace allocationID0 in
      if allocationID = [] then (Inl (NewProblem ''VALIDATION_FAILED'' False), None, m)
      else requestReconcile e serverID expectedGeneration idempotencyKey
             (idempotencyScope ''server:allocation:primary'' (u_ID actor) (serverID @ [CHR 0x00] @ allocationID) idempotencyKey)
             (requestDigest L (ReqAllocation expectedGeneration allocationID)) actor ''servers.network.write''
             ''network.allocation.primary'' (make_primary allocationID serverID) m)"

definition remove_allocation :: "string \<Rightarrow> string \<Rightarrow> reconcileMutation" where
  "remove_allocation allocationID serverID now server m =
     (case mget (m_allocations m) allocationID of
        None \<Rightarrow> Inl (NewProblem ''NOT_FOUND'' False)
      | Some allocation \<Rightarrow>
          if al_ServerID allocation \<noteq> serverID then Inl (NewProblem ''NOT_FOUND'' False)
          else
            let order = mget_zero [] (m_allocationOrder m) serverID in
            if length order \<le> 1 then Inl (NewProblem ''OPERATION_CONFLICT'' False)
            else if al_Primary allocation then Inl (NewProblem ''OPERATION_CONFLICT'' False)
            else Inr (server, m\<lparr>m_allocations := mdel allocationID (m_allocations m),
                    m_allocationOrder := mput serverID (filter (\<lambda>i. i \<noteq> allocationID) order) (m_allocationOrder m)\<rparr>))"

definition DeleteAllocation ::
  "lib \<Rightarrow> env \<Rightarrow> string \<Rightarrow> string \<Rightarrow> int \<Rightarrow> string \<Rightarrow> User \<Rightarrow> Memory \<Rightarrow> handled" where
  "DeleteAllocation L e serverID allocationID0 expectedGeneration idempotencyKey actor m =
     (let allocationID = TrimSpace allocationID0 in
      if allocationID = [] then (Inl (NewProblem ''VALIDATION_FAILED'' False), None, m)
      else requestReconcile e serverID expectedGeneration idempotencyKey
             (idempotencyScope ''server:allocation:delete'' (u_ID actor) (serverID @ [CHR 0x00] @ allocationID) idempotencyKey)
             (requestDigest L (ReqAllocation expectedGeneration allocationID)) actor ''servers.network.write''
             ''network.allocation.delete'' (remove_allocation allocationID serverID) m)"

section \<open>Startup settings\<close>

definition get_startup :: "lib \<Rightarrow> gotime \<Rightarrow> string \<Rightarrow> Memory \<Rightarrow> Startup result \<times> Memory" where
  "get_startup L now serverID m0 =
     (let m = reconcileNodeLivenessLocked now m0 in
      (case mget (m_servers m) serverID of
         None \<Rightarrow> Inl (NewProblem ''NOT_FOUND'' False)
       | Some server \<Rightarrow>
           (case startupTemplateForServerLocked L m server of
              Inl err \<Rightarrow> Inl err
            | Inr startup \<Rightarrow>
                let vals = mget_zero [] (m_startupValues m) serverID
                in Inr \<lparr>st_ServerID = serverID, st_Generation = srv_Generation server,
                     st_Command = resolveStartupCommand startup vals,
                     st_Variables = map (\<lambda>d. startupVariablePublicView d (mget_zero AnyNil vals (var_Key d)) (mhas vals (var_Key d)))
                       (st_Variables startup),
                     st_Bindings = st_Bindings startup\<rparr>), m))"

text \<open>The loop over the requested updates: the cleared keys and the normalised values.\<close>

fun check_updates ::
  "(string, StartupVariable) gomap \<Rightarrow> (string, any) gomap \<Rightarrow> (string list \<times> (string, any) gomap) result" where
  "check_updates definitions [] = Inr ([], [])"
| "check_updates definitions ((key, value) # rest) =
     (case mget definitions key of
        None \<Rightarrow> Inl validationProblem
      | Some definition \<Rightarrow>
          if value = AnyNil then
            (if var_Required definition then Inl validationProblem
             else map_sum id (apfst (Cons key)) (check_updates definitions rest))
          else
            (case normalizeStartupValue definition value of
               Inl err \<Rightarrow> Inl err
             | Inr normalized \<Rightarrow> map_sum id (apsnd (Cons (key, normalized))) (check_updates definitions rest)))"

definition change_startup :: "lib \<Rightarrow> string \<Rightarrow> (string, any) gomap \<Rightarrow> reconcileMutation" where
  "change_startup L serverID updates now server m =
     (case startupTemplateForServerLocked L m server of
        Inl err \<Rightarrow> Inl err
      | Inr startup \<Rightarrow>
          (case check_updates (definitions_of (st_Variables startup)) updates of
             Inl err \<Rightarrow> Inl err
           | Inr (cleared, normalized) \<Rightarrow>
               let values0 = mget_zero [] (m_startupValues m) serverID;
                   values1 = foldl (\<lambda>vs key. mdel key vs) values0 cleared;
                   values2 = foldl (\<lambda>vs (key, value). mput key value vs) values1 normalized
               in Inr (server, m\<lparr>m_startupValues := mput serverID values2 (m_startupValues m)\<rparr>)))"

definition UpdateStartup ::
  "lib \<Rightarrow> env \<Rightarrow> string \<Rightarrow> (string, any) gomap \<Rightarrow> int \<Rightarrow> string \<Rightarrow> User \<Rightarrow> Memory \<Rightarrow> handled" where
  "UpdateStartup L e serverID updates expectedGeneration idempotencyKey actor m =
     (if updates = [] then (Inl (NewProblem ''VALIDATION_FAILED'' False), None, m)
      else requestReconcile e serverID expectedGeneration idempotencyKey
             (idempotencyScope ''server:startup:update'' (u_ID actor) serverID idempotencyKey)
             (keyedRequestDigest L (m_requestDigestKey m)
                (ReqStartup expectedGeneration (canonicalStartupDigestVariables updates))) actor ''servers.startup.write''
             ''server.startup.update'' (change_startup L serverID updates) m)"

end
