(* ===== verification/Backup_Store.thy ===== *)
theory Backup_Store
  imports Network_Startup
begin

text \<open>
  Backups of the in-memory store (\<^verbatim>\<open>internal/store/backups.go\<close>): creating, restoring and
  deleting a backup, the goroutines that finish these operations, and the integrity check of a
  backup. The text the failure messages show is a constructor of \<open>failure_text\<close>.
\<close>

section \<open>Lookup and integrity\<close>

text \<open>The index of the first backup with the identifier, and the backup.\<close>

definition backupLocked :: "string \<Rightarrow> string \<Rightarrow> Memory \<Rightarrow> (nat \<times> Backup) option" where
  "backupLocked serverID backupID m =
     find (\<lambda>(_, b). b_ID b = backupID) (enumerate 0 (mget_zero [] (m_backups m) serverID))"

definition hex_value :: "char \<Rightarrow> nat option" where
  "hex_value c =
     (let x = byte c in
      if 0x30 \<le> x \<and> x \<le> 0x39 then Some (x - 0x30)
      else if 0x61 \<le> x \<and> x \<le> 0x66 then Some (x - 0x61 + 10)
      else if 0x41 \<le> x \<and> x \<le> 0x46 then Some (x - 0x41 + 10)
      else None)"

text \<open>\<^verbatim>\<open>hex.DecodeString\<close> and \<^verbatim>\<open>hex.EncodeToString\<close>.\<close>

fun hex_decode :: "string \<Rightarrow> string option" where
  "hex_decode [] = Some []"
| "hex_decode [c] = None"
| "hex_decode (a # b # rest) =
     (case (hex_value a, hex_value b, hex_decode rest) of
        (Some x, Some y, Some bytes) \<Rightarrow> Some (char_of (16 * x + y) # bytes)
      | _ \<Rightarrow> None)"

definition hex_digit :: "nat \<Rightarrow> char" where
  "hex_digit x = (if x < 10 then char_of (0x30 + x) else char_of (0x61 + x - 10))"

definition hex_encode :: "string \<Rightarrow> string" where
  "hex_encode bytes = concat (map (\<lambda>c. [hex_digit (byte c div 16), hex_digit (byte c mod 16)]) bytes)"

definition backupChecksumValidLocked :: "Memory \<Rightarrow> Backup \<Rightarrow> bool" where
  "backupChecksumValidLocked m backup =
     (case b_Checksum backup of
        None \<Rightarrow> False
      | Some checksum \<Rightarrow>
          (case mget (m_backupChecksums m) (b_ID backup) of
             None \<Rightarrow> False
           | Some expected \<Rightarrow>
               if expected \<noteq> checksum \<or> \<not> HasPrefix checksum ''sha256:'' then False
               else (case hex_decode (TrimPrefix checksum ''sha256:'') of
                       None \<Rightarrow> False | Some digest \<Rightarrow> length digest = 32)))"

definition backupFailureDetails :: "string \<Rightarrow> string \<times> failure_text" where
  "backupFailureDetails code =
     (if code = ''BACKUP_INTEGRITY_FAILED'' then (code, TextIntegrity)
      else if code = ''MAX_ATTEMPTS'' then (code, TextLeaseExhausted)
      else if code = ''NODE_OFFLINE'' then (code, TextNodeOffline)
      else if code = ''RUNTIME_UNAVAILABLE'' then (code, TextRuntimeUnavailable)
      else if code = ''OPERATION_STALE'' then (code, TextStale)
      else if code = ''TASK_CANCELED'' then (code, TextCanceled)
      else (''BACKUP_FAILED'', TextFailed))"

definition backupFailureMetadata :: "OperationError option \<Rightarrow> string \<times> failure_text" where
  "backupFailureMetadata operationError =
     backupFailureDetails
       (case operationError of Some err \<Rightarrow> if oe_Code err \<noteq> [] then oe_Code err else ''BACKUP_FAILED''
        | None \<Rightarrow> ''BACKUP_FAILED'')"

definition initializeBackupChecksums :: "Memory \<Rightarrow> Memory" where
  "initializeBackupChecksums m =
     m\<lparr>m_backupChecksums :=
        foldl (\<lambda>sums b. case b_Checksum b of None \<Rightarrow> sums | Some c \<Rightarrow> mput (b_ID b) c sums)
          (m_backupChecksums m) (concat (map snd (m_backups m)))\<rparr>"

definition set_backup :: "string \<Rightarrow> nat \<Rightarrow> Backup \<Rightarrow> Memory \<Rightarrow> Memory" where
  "set_backup serverID i backup m =
     m\<lparr>m_backups := mput serverID ((mget_zero [] (m_backups m) serverID)[i := backup]) (m_backups m)\<rparr>"

section \<open>Requests\<close>

definition new_backup :: "string \<Rightarrow> string \<Rightarrow> gotime \<Rightarrow> Backup" where
  "new_backup backupID name now =
     \<lparr>b_ID = backupID, b_Name = name, b_Status = ''creating'', b_SizeBytes = None, b_Checksum = None,
      b_ManifestDigest = None, b_StorageLocation = None, b_RetentionUntil = None, b_CreatedAt = now,
      b_CompletedAt = None, b_FailureCode = None, b_FailureMessage = None, b_DeletedAt = None\<rparr>"

definition CreateBackup :: "lib \<Rightarrow> env \<Rightarrow> string \<Rightarrow> string \<Rightarrow> User \<Rightarrow> Memory \<Rightarrow> handled" where
  "CreateBackup L e serverID idempotencyKey actor m =
     (case validateIdempotencyKey idempotencyKey of
        Some err \<Rightarrow> (Inl err, None, m)
      | None \<Rightarrow>
     let digest = requestDigest L ReqEmpty;
         scope = idempotencyScope ''backup:create'' (u_ID actor) serverID idempotencyKey
     in case authorizeServerLocked m (u_ID actor) serverID ''servers.backups.create'' of
        Inl err \<Rightarrow> (Inl err, None, m)
      | Inr currentActor \<Rightarrow>
     let m1 = reconcileNodeLivenessLocked (clk e 0) m in
     (case idempotentOperationLocked m1 scope digest of
        Inl err \<Rightarrow> (Inl err, None, m1)
      | Inr (Some existing) \<Rightarrow> (Inr existing, None, m1)
      | Inr None \<Rightarrow>
     (case mget (m_servers m1) serverID of
        None \<Rightarrow> (Inl (NewProblem ''NOT_FOUND'' False), None, m1)
      | Some server \<Rightarrow>
     if n_Condition (mget_zero zero_node (m_nodes m1) (srv_NodeID server)) \<noteq> ''available''
     then (Inl (NewProblem ''NODE_OFFLINE'' True), None, m1)
     else if srv_LifecycleState server \<noteq> ''ready'' then (Inl (NewProblem ''RESTORE_LOCKED'' False), None, m1)
     else
     (case activeExclusiveOperationLocked m1 serverID of
        Some active \<Rightarrow>
          if op_Type active = ''backup'' then (Inr active, None, join_operation scope digest active m1)
          else (Inl (operationInProgress active), None, m1)
      | None \<Rightarrow>
          let now = clk e 1;
              operation = NewQueuedOperation (uuid e 0) serverID (srv_NodeID server) ''backup'' (srv_Generation server)
                idempotencyKey now;
              backup = new_backup (uuid e 1) (''manual-'' @ format_stamp L now) now;
              m2 = m1\<lparr>m_backups := mput serverID (backup # mget_zero [] (m_backups m1) serverID) (m_backups m1),
                       m_backupOperations := mput (op_ID operation) (b_ID backup) (m_backupOperations m1)\<rparr>
          in (Inr operation,
              Some \<lparr>tk_operationID = op_ID operation, tk_serverID = serverID,
                tk_job = JobBackup (u_DisplayName currentActor), tk_phase = Spawned\<rparr>,
              recordAuditLocked (uuid e 2) (clk e 2) (u_DisplayName currentActor) ''backup.create'' ''server''
                (srv_Name server) ''accepted'' (op_ID operation) (queue_operation scope digest operation m2))))))"

text \<open>The checks of a restore request after the idempotency lookup; the value is the server, the
  index of the backup and the backup.\<close>

definition restore_target :: "string \<Rightarrow> string \<Rightarrow> Memory \<Rightarrow> (Server \<times> nat \<times> Backup) result" where
  "restore_target serverID backupID m =
     (case mget (m_servers m) serverID of
        None \<Rightarrow> Inl (NewProblem ''NOT_FOUND'' False)
      | Some server \<Rightarrow>
     if n_Condition (mget_zero zero_node (m_nodes m) (srv_NodeID server)) \<noteq> ''available''
     then Inl (NewProblem ''NODE_OFFLINE'' True)
     else
     (case backupLocked serverID backupID m of
        None \<Rightarrow> Inl (NewProblem ''NOT_FOUND'' False)
      | Some (i, backup) \<Rightarrow>
     if b_Status backup = ''deleted'' then Inl (NewProblem ''NOT_FOUND'' False)
     else if srv_LifecycleState server \<noteq> ''ready'' \<or> srv_ObservedPower server \<noteq> ''stopped''
     then Inl (NewProblem ''RESTORE_LOCKED'' False)
     else if b_Status backup \<noteq> ''ready'' then Inl (NewProblem ''RESTORE_LOCKED'' False)
     else if \<not> backupChecksumValidLocked m backup then Inl (NewProblem ''BACKUP_INTEGRITY_FAILED'' False)
     else
     (case activeExclusiveOperationLocked m serverID of
        Some active \<Rightarrow> Inl (operationInProgress active)
      | None \<Rightarrow> Inr (server, i, backup))))"

definition RestoreBackup :: "lib \<Rightarrow> env \<Rightarrow> string \<Rightarrow> string \<Rightarrow> string \<Rightarrow> User \<Rightarrow> Memory \<Rightarrow> handled" where
  "RestoreBackup L e serverID backupID idempotencyKey actor m =
     (case validateIdempotencyKey idempotencyKey of
        Some err \<Rightarrow> (Inl err, None, m)
      | None \<Rightarrow>
     let digest = requestDigest L (ReqBackup backupID);
         scope = idempotencyScope ''backup:restore'' (u_ID actor) (serverID @ ''/'' @ backupID) idempotencyKey
     in case authorizeServerLocked m (u_ID actor) serverID ''servers.backups.restore'' of
        Inl err \<Rightarrow> (Inl err, None, m)
      | Inr currentActor \<Rightarrow>
     let m1 = reconcileNodeLivenessLocked (clk e 0) m in
     (case idempotentOperationLocked m1 scope digest of
        Inl err \<Rightarrow> (Inl err, None, m1)
      | Inr (Some existing) \<Rightarrow> (Inr existing, None, m1)
      | Inr None \<Rightarrow>
     (case restore_target serverID backupID m1 of
        Inl err \<Rightarrow> (Inl err, None, m1)
      | Inr (server0, i, backup) \<Rightarrow>
          let now = clk e 1;
              server = server0\<lparr>srv_Generation := wrap64 (srv_Generation server0 + 1), srv_DesiredPower := ''stopped'',
                srv_UpdatedAt := now\<rparr>;
              operation = NewQueuedOperation (uuid e 0) serverID (srv_NodeID server) ''restore'' (srv_Generation server)
                idempotencyKey now;
              m2 = set_backup serverID i (backup\<lparr>b_Status := ''restoring''\<rparr>)
                (m1\<lparr>m_servers := mput serverID server (m_servers m1)\<rparr>)
          in (Inr operation,
              Some \<lparr>tk_operationID = op_ID operation, tk_serverID = serverID,
                tk_job = JobRestoreBackup backupID (u_DisplayName currentActor), tk_phase = Spawned\<rparr>,
              recordAuditLocked (uuid e 1) (clk e 2) (u_DisplayName currentActor) ''backup.restore'' ''server''
                (srv_Name server) ''accepted'' (op_ID operation) (queue_operation scope digest operation m2)))))"

definition delete_target :: "string \<Rightarrow> string \<Rightarrow> Memory \<Rightarrow> (Server \<times> nat \<times> Backup) result" where
  "delete_target serverID backupID m =
     (case mget (m_servers m) serverID of
        None \<Rightarrow> Inl (NewProblem ''NOT_FOUND'' False)
      | Some server \<Rightarrow>
     (case backupLocked serverID backupID m of
        None \<Rightarrow> Inl (NewProblem ''NOT_FOUND'' False)
      | Some (i, backup) \<Rightarrow>
     if b_Status backup = ''deleted'' then Inl (NewProblem ''NOT_FOUND'' False)
     else if \<not> BackupStatusTransitionAllowed (b_Status backup) ''deleting'' then Inl (NewProblem ''RESTORE_LOCKED'' False)
     else
     (case activeExclusiveOperationLocked m serverID of
        Some active \<Rightarrow> Inl (operationInProgress active)
      | None \<Rightarrow> Inr (server, i, backup))))"

definition DeleteBackup :: "lib \<Rightarrow> env \<Rightarrow> string \<Rightarrow> string \<Rightarrow> string \<Rightarrow> User \<Rightarrow> Memory \<Rightarrow> handled" where
  "DeleteBackup L e serverID backupID idempotencyKey actor m =
     (case validateIdempotencyKey idempotencyKey of
        Some err \<Rightarrow> (Inl err, None, m)
      | None \<Rightarrow>
     let digest = requestDigest L (ReqBackup backupID);
         scope = idempotencyScope ''backup:delete'' (u_ID actor) (serverID @ ''/'' @ backupID) idempotencyKey
     in case authorizeServerLocked m (u_ID actor) serverID ''servers.backups.delete'' of
        Inl err \<Rightarrow> (Inl err, None, m)
      | Inr currentActor \<Rightarrow>
     (case idempotentOperationLocked m scope digest of
        Inl err \<Rightarrow> (Inl err, None, m)
      | Inr (Some existing) \<Rightarrow> (Inr existing, None, m)
      | Inr None \<Rightarrow>
     (case delete_target serverID backupID m of
        Inl err \<Rightarrow> (Inl err, None, m)
      | Inr (server, i, backup) \<Rightarrow>
          let now = clk e 0;
              operation = NewQueuedOperation (uuid e 0) serverID (srv_NodeID server) ''backup-delete'' (srv_Generation server)
                idempotencyKey now;
              m2 = set_backup serverID i (backup\<lparr>b_Status := ''deleting''\<rparr>)
                (m\<lparr>m_backupDeleteFrom := mput (op_ID operation) (b_Status backup) (m_backupDeleteFrom m)\<rparr>)
          in (Inr operation,
              Some \<lparr>tk_operationID = op_ID operation, tk_serverID = serverID,
                tk_job = JobDeleteBackup backupID (u_DisplayName currentActor), tk_phase = Spawned\<rparr>,
              recordAuditLocked (uuid e 1) (clk e 1) (u_DisplayName currentActor) ''backup.delete'' ''server''
                (srv_Name server) ''accepted'' (op_ID operation) (queue_operation scope digest operation m2)))))"

section \<open>Finishing\<close>

definition backup_failed :: "OperationError option \<Rightarrow> Backup \<Rightarrow> Backup" where
  "backup_failed err backup =
     (let (code, message) = backupFailureMetadata err
      in backup\<lparr>b_FailureCode := Some code, b_FailureMessage := Some message\<rparr>)"

definition backup_cleared :: "Backup \<Rightarrow> Backup" where
  "backup_cleared backup = backup\<lparr>b_FailureCode := None, b_FailureMessage := None\<rparr>"

definition audit_backup :: "env \<Rightarrow> string \<Rightarrow> string \<Rightarrow> string \<Rightarrow> Server option \<Rightarrow> bool \<Rightarrow> string \<Rightarrow> Memory \<Rightarrow> Memory" where
  "audit_backup e actor action serverID server succeeded operationID =
     recordAuditLocked (uuid e 0) (clk e 1) actor action ''server'' (target_name serverID server) (audit_result succeeded)
       operationID"

text \<open>The text \<^verbatim>\<open>backupID:bundleDigest:diskBytes:now\<close> that is hashed; the clock reading is printed in
  nanoseconds of the Unix epoch.\<close>

definition unix_epoch :: gotime where
  "unix_epoch = 62135596800 * second"

definition backup_checksum :: "lib \<Rightarrow> string \<Rightarrow> Server \<Rightarrow> gotime \<Rightarrow> string" where
  "backup_checksum L backupID server now =
     ''sha256:'' @ hex_encode (sha256 L (Join [backupID, srv_GameBundleDigest server,
        FormatInt (rm_DiskBytes (srv_Metrics server)), FormatInt (now - unix_epoch)] '':''))"

definition backup_ready :: "lib \<Rightarrow> string \<Rightarrow> Server \<Rightarrow> gotime \<Rightarrow> Backup \<Rightarrow> Backup" where
  "backup_ready L backupID server now backup =
     (let checksum = backup_checksum L backupID server now in
      (backup_cleared backup)\<lparr>b_Status := ''ready'', b_SizeBytes := Some (rm_DiskBytes (srv_Metrics server)),
        b_Checksum := Some checksum,
        b_ManifestDigest := Some (''sha256:'' @ hex_encode (sha256 L (''manifest:'' @ checksum))),
        b_CompletedAt := Some now\<rparr>)"

definition backupLost :: OperationError where
  "backupLost = \<lparr>oe_Code = ''BACKUP_FAILED'', oe_Retryable = False\<rparr>"

definition finishBackup_end :: "lib \<Rightarrow> env \<Rightarrow> string \<Rightarrow> string \<Rightarrow> string \<Rightarrow> Memory \<Rightarrow> Memory" where
  "finishBackup_end L e operationID serverID actor m =
     (let now = clk e 0;
          server = mget (m_servers m) serverID;
          backupID = mget_zero [] (m_backupOperations m) operationID;
          forget = (\<lambda>m. m\<lparr>m_backupOperations := mdel operationID (m_backupOperations m)\<rparr>)
      in case complete_section now operationID serverID m of
           (None, m1) \<Rightarrow> forget m1
         | (Some operation, m1) \<Rightarrow>
             let succeeded = (op_Status operation = ''succeeded'') in
             if backupID = [] then audit_backup e actor ''backup.create'' serverID server succeeded operationID (forget m1)
             else
               (case backupLocked serverID backupID m1 of
                  None \<Rightarrow>
                    forget (m1\<lparr>m_operations := mput operationID
                      (operation\<lparr>op_Status := ''failed'', op_Checkpoint := ''failed'', op_Error := Some backupLost\<rparr>)
                      (m_operations m1)\<rparr>)
                | Some (i, backup) \<Rightarrow>
                    let m2 = (if succeeded
                              then let ready = backup_ready L backupID (mget_zero zero_server (m_servers m1) serverID) now backup
                                   in (set_backup serverID i ready m1)\<lparr>m_backupChecksums :=
                                        mput (b_ID ready) (the (b_Checksum ready)) (m_backupChecksums m1)\<rparr>
                              else set_backup serverID i
                                     ((backup_failed (op_Error operation) backup)\<lparr>b_Status := ''failed'', b_CompletedAt := None\<rparr>) m1)
                    in audit_backup e actor ''backup.create'' serverID server succeeded operationID (forget m2)))"

text \<open>How a restore or a deletion ends its operation: whether it did, whether it succeeded, and the
  operation. The \<open>failure\<close> is the reason not to complete it, if there is one.\<close>

definition finish_checked ::
  "OperationError option \<Rightarrow> gotime \<Rightarrow> Server option \<Rightarrow> Operation \<Rightarrow> bool \<times> bool \<times> Operation" where
  "finish_checked failure now server operation =
     (if \<not> operationTargetsCurrentServer operation server then
        (let (completed, p) = failOperationLocked staleError now operation in (completed, False, p))
      else case failure of
        Some err \<Rightarrow> (let (completed, p) = failOperationLocked err now operation in (completed, False, p))
      | None \<Rightarrow> (let (completed, p) = completeOperationLocked now operation in (completed, completed, p)))"

definition integrityError :: OperationError where
  "integrityError = \<lparr>oe_Code = ''BACKUP_INTEGRITY_FAILED'', oe_Retryable = False\<rparr>"

definition restored :: "gotime \<Rightarrow> Server \<Rightarrow> Server" where
  "restored now server =
     server\<lparr>srv_DesiredPower := ''stopped'', srv_ObservedPower := ''stopped'', srv_HealthCondition := ''unknown'',
       srv_ObservedGeneration := srv_Generation server, srv_ObservedAt := now, srv_UpdatedAt := now\<rparr>"

definition finishRestoreBackup_end :: "env \<Rightarrow> string \<Rightarrow> string \<Rightarrow> string \<Rightarrow> string \<Rightarrow> Memory \<Rightarrow> Memory" where
  "finishRestoreBackup_end e operationID serverID backupID actor m =
     (let now = clk e 0;
          server = mget (m_servers m) serverID;
          found = backupLocked serverID backupID m;
          failure = (case found of None \<Rightarrow> Some integrityError
                     | Some (_, backup) \<Rightarrow> if backupChecksumValidLocked m backup then None else Some integrityError)
      in case mget (m_operations m) operationID of
           None \<Rightarrow> m
         | Some operation0 \<Rightarrow>
             (case finish_checked failure now server operation0 of
                (completed, succeeded, operation) \<Rightarrow>
                  if \<not> completed then m
                  else
                    let m1 = m\<lparr>m_operations := mput operationID operation (m_operations m)\<rparr>;
                        m2 = (case found of
                                None \<Rightarrow> m1
                              | Some (i, backup) \<Rightarrow>
                                  set_backup serverID i
                                    ((if succeeded then backup_cleared backup else backup_failed (op_Error operation) backup)
                                       \<lparr>b_Status := ''ready''\<rparr>) m1);
                        m3 = (if succeeded then observe_server serverID (restored now) m2 else m2)
                    in audit_backup e actor ''backup.restore'' serverID server succeeded operationID m3))"

definition backupGone :: OperationError where
  "backupGone = \<lparr>oe_Code = ''OPERATION_FAILED'', oe_Retryable = False\<rparr>"

definition finishDeleteBackup_end :: "env \<Rightarrow> string \<Rightarrow> string \<Rightarrow> string \<Rightarrow> string \<Rightarrow> Memory \<Rightarrow> Memory" where
  "finishDeleteBackup_end e operationID serverID backupID actor m =
     (let now = clk e 0;
          server = mget (m_servers m) serverID;
          found = backupLocked serverID backupID m;
          failure = (case found of None \<Rightarrow> Some backupGone | Some _ \<Rightarrow> None);
          deleteFrom = mget_zero [] (m_backupDeleteFrom m) operationID;
          forget = (\<lambda>m. m\<lparr>m_backupDeleteFrom := mdel operationID (m_backupDeleteFrom m)\<rparr>)
      in case mget (m_operations m) operationID of
           None \<Rightarrow> forget m
         | Some operation0 \<Rightarrow>
             (case finish_checked failure now server operation0 of
                (completed, succeeded, operation) \<Rightarrow>
                  if \<not> completed then forget m
                  else
                    let m1 = m\<lparr>m_operations := mput operationID operation (m_operations m)\<rparr>;
                        m2 = (case found of
                                None \<Rightarrow> m1
                              | Some (i, backup) \<Rightarrow>
                                  if succeeded
                                  then (set_backup serverID i ((backup_cleared backup)\<lparr>b_Status := ''deleted'',
                                          b_DeletedAt := Some now\<rparr>) m1)\<lparr>m_backupChecksums := mdel backupID (m_backupChecksums m1)\<rparr>
                                  else set_backup serverID i ((backup_failed (op_Error operation) backup)\<lparr>b_Status :=
                                         (if deleteFrom = ''failed'' then ''failed'' else ''ready'')\<rparr>) m1)
                    in audit_backup e actor ''backup.delete'' serverID server succeeded operationID (forget m2)))"

definition DownloadBackup :: "string \<Rightarrow> string \<Rightarrow> User \<Rightarrow> Memory \<Rightarrow> problem" where
  "DownloadBackup serverID backupID actor m =
     (case AuthorizeServer (u_ID actor) serverID ''servers.backups.read'' m of
        Some err \<Rightarrow> err | None \<Rightarrow> NewProblem ''NOT_FOUND'' False)"

section \<open>File mutations (files.go)\<close>

text \<open>A file mutation holds the store lock for its whole duration, so it is refused while a restore
  of its server is unfinished and none can start during it. The value is the server and the actor;
  the file system itself is not modelled.\<close>

definition activeRestoreOperationLocked :: "string \<Rightarrow> Memory \<Rightarrow> Operation option" where
  "activeRestoreOperationLocked serverID m =
     find (\<lambda>p. op_ServerID p = serverID \<and> op_Type p = ''restore'' \<and> \<not> isTerminalOperation (op_Status p))
       (map snd (m_operations m))"

definition beginFileMutation :: "gotime \<Rightarrow> string \<Rightarrow> string \<Rightarrow> Memory \<Rightarrow> (Server \<times> User) result \<times> Memory" where
  "beginFileMutation now serverID actorID m =
     (case authorizeServerLocked m actorID serverID ''servers.files.write'' of
        Inl err \<Rightarrow> (Inl err, m)
      | Inr actor \<Rightarrow>
     let m1 = reconcileNodeLivenessLocked now m in
     (case mget (m_servers m1) serverID of
        None \<Rightarrow> (Inl (NewProblem ''NOT_FOUND'' False), m1)
      | Some server \<Rightarrow>
     (case activeRestoreOperationLocked serverID m1 of
        Some operation \<Rightarrow> (Inl (operationInProgress operation), m1)
      | None \<Rightarrow>
          if serverID \<notin> set (m_fileSystems m1) then (Inl (NewProblem ''NOT_FOUND'' False), m1)
          else (Inr (server, actor), m1))))"

end
