(* ===== verification/Runtime_Adapter.thy ===== *)
theory Runtime_Adapter
  imports Server_Operations
begin

text \<open>
  The container path of the in-memory store (\<^verbatim>\<open>internal/store/runtime_adapter.go\<close>,
  \<^verbatim>\<open>runtime_toggle.go\<close>). The goroutine reads a snapshot under the lock, talks to the container
  runtime without it and then writes the outcome: a failure is written from the snapshot, a success
  from a fresh read. The runtime itself is an argument: the container identifier or the error it
  returned, and the state it reports.
\<close>

section \<open>The adapter\<close>

definition EnableRealRuntime :: "bool \<Rightarrow> Memory \<Rightarrow> bool \<times> Memory" where
  "EnableRealRuntime docker m = (if docker then (True, m\<lparr>m_runtimeAdapter := True\<rparr>) else (False, m))"

definition DisableRealRuntime :: "Memory \<Rightarrow> Memory" where
  "DisableRealRuntime m = m\<lparr>m_runtimeAdapter := False\<rparr>"

definition UseRealRuntime :: "Memory \<Rightarrow> bool" where
  "UseRealRuntime m = m_runtimeAdapter m"

definition getDockerImageForGame :: "string \<Rightarrow> string \<Rightarrow> string" where
  "getDockerImageForGame gameID gameVersion =
     (if gameID = ''papermc'' then ''itzg/minecraft-server:latest''
      else if gameID = ''factorio'' then ''factoriotools/factorio:latest''
      else if gameID = ''vintagestory'' then ''copygirl/vintagestory:latest''
      else ''itzg/minecraft-server:latest'')"

text \<open>The state a container inspection reports: its state name and whether it is healthy; \<open>None\<close>
  when the inspection failed.\<close>

definition GetServerStatus :: "(string \<times> bool) option \<Rightarrow> string \<times> string" where
  "GetServerStatus inspected =
     (case inspected of
        None \<Rightarrow> (''unknown'', ''unknown'')
      | Some (state, healthy) \<Rightarrow>
          let power = (if state = ''running'' then ''running''
                       else if state = ''exited'' \<or> state = ''dead'' then ''stopped''
                       else if state = ''created'' then ''stopped''
                       else if state = ''restarting'' then ''starting''
                       else ''unknown'')
          in (power, if healthy then ''healthy'' else if power = ''running'' then ''unhealthy'' else ''unknown''))"

section \<open>The sections of the goroutines\<close>

definition zero_operation :: Operation where
  "zero_operation = \<lparr>op_ID = [], op_ServerID = [], op_NodeID = [], op_Type = [], op_Status = [], op_Progress = 0,
     op_Generation = 0, op_Attempt = 0, op_MaxAttempts = 0, op_LeaseOwner = None, op_LeaseExpiresAt = None,
     op_Checkpoint = [], op_Error = None, op_IdempotencyKey = [], op_CreatedAt = 0, op_UpdatedAt = 0\<rparr>"

text \<open>The snapshot: operation, server and startup declaration.\<close>

definition runtime_read :: "string \<Rightarrow> string \<Rightarrow> Memory \<Rightarrow> phase" where
  "runtime_read operationID serverID m =
     RuntimeRead (mget (m_operations m) operationID) (mget (m_servers m) serverID) (mget (m_startups m) serverID)"

text \<open>The failure writes the operation of the snapshot back, whatever happened to it meanwhile.\<close>

definition runtime_fail :: "OperationError \<Rightarrow> gotime \<Rightarrow> string \<Rightarrow> Operation option \<Rightarrow> Memory \<Rightarrow> Memory" where
  "runtime_fail failure now operationID snapshot m =
     m\<lparr>m_operations := mput operationID
         (snd (failOperationLocked failure now (case snapshot of None \<Rightarrow> zero_operation | Some p \<Rightarrow> p))) (m_operations m)\<rparr>"

definition missingError :: OperationError where
  "missingError = \<lparr>oe_Code = ''INTERNAL_ERROR'', oe_Retryable = False\<rparr>"

definition provisionError :: OperationError where
  "provisionError = \<lparr>oe_Code = ''PROVISION_FAILED'', oe_Retryable = True\<rparr>"

definition powerError :: OperationError where
  "powerError = \<lparr>oe_Code = ''POWER_OPERATION_FAILED'', oe_Retryable = True\<rparr>"

definition container_of :: "Server option \<Rightarrow> string" where
  "container_of server = (case server of None \<Rightarrow> [] | Some s \<Rightarrow> mget_zero [] (srv_Metadata s) ''containerID'')"

definition finishProvisionWithRuntime_end ::
  "gotime \<Rightarrow> string option \<Rightarrow> string \<Rightarrow> string \<Rightarrow> Operation option \<Rightarrow> Server option \<Rightarrow> Startup option \<Rightarrow> Memory \<Rightarrow> Memory" where
  "finishProvisionWithRuntime_end now container operationID serverID operation0 server0 startup m =
     (if operation0 = None \<or> server0 = None \<or> startup = None then runtime_fail missingError now operationID operation0 m
      else case container of
        None \<Rightarrow> runtime_fail provisionError now operationID operation0 m
      | Some containerID \<Rightarrow>
     (case complete_section now operationID serverID m of
        (None, m1) \<Rightarrow> m1
      | (Some operation, m1) \<Rightarrow>
          if op_Status operation = ''succeeded''
          then observe_server serverID (\<lambda>server. (provisioned now server)
                 \<lparr>srv_Metadata := mput ''containerID'' containerID (srv_Metadata server)\<rparr>) m1
          else m1))"

text \<open>The runtime call succeeds for no other action than the four power actions.\<close>

definition finishPowerWithRuntime_end ::
  "gotime \<Rightarrow> PowerAction \<Rightarrow> bool \<Rightarrow> (string \<times> bool) option \<Rightarrow> string \<Rightarrow> string \<Rightarrow> Operation option \<Rightarrow> Server option
     \<Rightarrow> Memory \<Rightarrow> Memory" where
  "finishPowerWithRuntime_end now action docker inspected operationID serverID operation0 server0 m =
     (if operation0 = None \<or> server0 = None \<or> container_of server0 = []
      then runtime_fail missingError now operationID operation0 m
      else if \<not> docker \<or> action \<notin> {PowerStart, PowerStop, PowerRestart, PowerKill}
      then runtime_fail powerError now operationID operation0 m
      else
     (case complete_section now operationID serverID m of
        (None, m1) \<Rightarrow> m1
      | (Some operation, m1) \<Rightarrow>
          if op_Status operation = ''succeeded''
          then observe_server serverID (\<lambda>server.
                 let (power, health) = GetServerStatus inspected
                 in server\<lparr>srv_ObservedPower := power, srv_HealthCondition := health,
                      srv_ObservedGeneration := srv_Generation server, srv_ObservedAt := now, srv_UpdatedAt := now\<rparr>) m1
          else m1))"

end
