(* ===== verification/Handler_Outcomes.thy ===== *)
theory Handler_Outcomes
  imports Backup_Store Runtime_Adapter
begin

text \<open>
  What the request handlers do to the operation ledger. Every handler of
  \<^verbatim>\<open>operations.go\<close>, \<^verbatim>\<open>network_startup.go\<close> and \<^verbatim>\<open>backups.go\<close> either leaves the operations alone
  (\<open>quiet\<close>) or queues exactly one fresh operation for a server that has none unfinished and starts
  the goroutine that will finish it (\<open>queued\<close>). The locale \<open>operation_handler\<close> states this
  contract together with idempotency; it is interpreted for all nine handlers.
\<close>

section \<open>What the background work depends on\<close>

text \<open>The generation and the node of every server; an operation is stale when they differ from its
  own.\<close>

definition sviews :: "(string, Server) gomap \<Rightarrow> string \<Rightarrow> (int \<times> string) option" where
  "sviews servers s = map_option (\<lambda>v. (srv_Generation v, srv_NodeID v)) (mget servers s)"

definition nodes_named :: "Memory \<Rightarrow> bool" where
  "nodes_named m \<longleftrightarrow> (\<forall>i n. mget (m_nodes m) i = Some n \<longrightarrow> n_ID n = i)"

definition quiet :: "Memory \<Rightarrow> Memory \<Rightarrow> bool" where
  "quiet m m' \<longleftrightarrow> m_operations m' = m_operations m \<and> sviews (m_servers m') = sviews (m_servers m) \<and>
     (m_idempotency m' = m_idempotency m \<or>
      (\<exists>scope r. m_idempotency m' = mput scope r (m_idempotency m) \<and> mhas (m_operations m) (ir_OperationID r)))"

fun job_type :: "job \<Rightarrow> PowerAction" where
  "job_type JobProvision = ''provision''"
| "job_type (JobPower a) = a"
| "job_type (JobReconcile _ _) = ''reconcile''"
| "job_type (JobBackup _) = ''backup''"
| "job_type (JobRestoreBackup _ _) = ''restore''"
| "job_type (JobDeleteBackup _ _) = ''backup-delete''"

definition queued :: "string \<Rightarrow> string \<Rightarrow> Operation \<Rightarrow> task \<Rightarrow> Memory \<Rightarrow> Memory \<Rightarrow> bool" where
  "queued scope digest p tk m m' \<longleftrightarrow>
     m_operations m' = mput (op_ID p) p (m_operations m) \<and>
     m_idempotency m' = mput scope \<lparr>ir_OperationID = op_ID p, ir_RequestDigest = digest\<rparr> (m_idempotency m) \<and>
     sviews (m_servers m') = (sviews (m_servers m))(op_ServerID p \<mapsto> (op_Generation p, op_NodeID p)) \<and>
     activeExclusiveOperationLocked m (op_ServerID p) = None \<and>
     op_ok p \<and> op_Status p = ''queued'' \<and> isExclusiveOperation (op_Type p) \<and>
     tk_operationID tk = op_ID p \<and> tk_serverID tk = op_ServerID p \<and> job_type (tk_job tk) = op_Type p \<and> tk_phase tk = Spawned"

lemma sviews_put [simp]: "sviews (mput s v servers) = (sviews servers)(s \<mapsto> (srv_Generation v, srv_NodeID v))"
  by (simp add: sviews_def fun_eq_iff)

lemma sviews_reconcile [simp]: "sviews (m_servers (reconcileNodeLivenessLocked now m)) = sviews (m_servers m)"
  by (auto simp: sviews_def reconcileNodeLivenessLocked_def option.map_comp fun_eq_iff intro!: option.map_cong)

lemma sviews_Some: "mget servers s = Some v \<Longrightarrow> sviews servers s = Some (srv_Generation v, srv_NodeID v)"
  by (simp add: sviews_def)

lemma map_upd_same: "f s = Some x \<Longrightarrow> f = f(s \<mapsto> x)"
  by (simp add: fun_eq_iff)

lemma quiet_refl [simp]: "quiet m m"
  by (simp add: quiet_def)

lemma quiet_reconcile [simp]: "quiet m (reconcileNodeLivenessLocked now m)"
  by (simp add: quiet_def)

lemma queue_sel [simp, store_simps]:
  "m_operations (queue_operation scope digest p m) = mput (op_ID p) p (m_operations m)"
  "m_idempotency (queue_operation scope digest p m) =
     mput scope \<lparr>ir_OperationID = op_ID p, ir_RequestDigest = digest\<rparr> (m_idempotency m)"
  "m_servers (queue_operation scope digest p m) = m_servers m"
  "m_nodes (queue_operation scope digest p m) = m_nodes m"
  "m_allocations (queue_operation scope digest p m) = m_allocations m"
  "m_allocationOrder (queue_operation scope digest p m) = m_allocationOrder m"
  "m_backups (queue_operation scope digest p m) = m_backups m"
  "m_backupChecksums (queue_operation scope digest p m) = m_backupChecksums m"
  "m_backupOperations (queue_operation scope digest p m) = m_backupOperations m"
  "m_backupDeleteFrom (queue_operation scope digest p m) = m_backupDeleteFrom m"
  "m_startups (queue_operation scope digest p m) = m_startups m"
  "m_startupValues (queue_operation scope digest p m) = m_startupValues m"
  "m_games (queue_operation scope digest p m) = m_games m"
  by (simp_all add: queue_operation_def)

lemma join_sel [simp, store_simps]:
  "m_operations (join_operation scope digest p m) = m_operations m"
  "m_idempotency (join_operation scope digest p m) =
     mput scope \<lparr>ir_OperationID = op_ID p, ir_RequestDigest = digest\<rparr> (m_idempotency m)"
  "m_servers (join_operation scope digest p m) = m_servers m"
  "m_nodes (join_operation scope digest p m) = m_nodes m"
  "m_allocations (join_operation scope digest p m) = m_allocations m"
  "m_allocationOrder (join_operation scope digest p m) = m_allocationOrder m"
  "m_backups (join_operation scope digest p m) = m_backups m"
  "m_backupChecksums (join_operation scope digest p m) = m_backupChecksums m"
  "m_backupOperations (join_operation scope digest p m) = m_backupOperations m"
  "m_backupDeleteFrom (join_operation scope digest p m) = m_backupDeleteFrom m"
  by (simp_all add: join_operation_def)

lemma set_backup_sel [simp, store_simps]:
  "m_operations (set_backup s i b m) = m_operations m"
  "m_idempotency (set_backup s i b m) = m_idempotency m"
  "m_servers (set_backup s i b m) = m_servers m"
  "m_nodes (set_backup s i b m) = m_nodes m"
  "m_allocations (set_backup s i b m) = m_allocations m"
  "m_allocationOrder (set_backup s i b m) = m_allocationOrder m"
  "m_backups (set_backup s i b m) = mput s ((mget_zero [] (m_backups m) s)[i := b]) (m_backups m)"
  "m_backupChecksums (set_backup s i b m) = m_backupChecksums m"
  "m_backupOperations (set_backup s i b m) = m_backupOperations m"
  "m_backupDeleteFrom (set_backup s i b m) = m_backupDeleteFrom m"
  by (simp_all add: set_backup_def)

lemma install_sel [simp, store_simps]:
  "m_operations (install_server v a st vs inp n g m) = m_operations m"
  "m_idempotency (install_server v a st vs inp n g m) = m_idempotency m"
  "m_servers (install_server v a st vs inp n g m) = mput (srv_ID v) v (m_servers m)"
  "m_allocations (install_server v a st vs inp n g m) = mput (al_ID a) a (m_allocations m)"
  "m_allocationOrder (install_server v a st vs inp n g m) = mput (srv_ID v) [al_ID a] (m_allocationOrder m)"
  "m_backups (install_server v a st vs inp n g m) = m_backups m"
  "m_backupChecksums (install_server v a st vs inp n g m) = m_backupChecksums m"
  "m_backupOperations (install_server v a st vs inp n g m) = m_backupOperations m"
  "m_backupDeleteFrom (install_server v a st vs inp n g m) = m_backupDeleteFrom m"
  by (simp_all add: install_server_def)

definition outcome :: "string \<Rightarrow> string \<Rightarrow> string \<Rightarrow> Memory \<Rightarrow> handled \<Rightarrow> bool" where
  "outcome scope digest opid m h \<longleftrightarrow>
     (case h of (r, None, m') \<Rightarrow> quiet m m'
      | (r, Some tk, m') \<Rightarrow> \<exists>p. r = Inr p \<and> op_ID p = opid \<and> queued scope digest p tk m m')"

lemma outcome_simps [simp]:
  "outcome scope digest opid m (r, None, m') = quiet m m'"
  "outcome scope digest opid m (Inr p, Some tk, m') = (op_ID p = opid \<and> queued scope digest p tk m m')"
  by (auto simp: outcome_def)

lemma quiet_joinI:
  "m_operations m' = m_operations m \<Longrightarrow> sviews (m_servers m') = sviews (m_servers m) \<Longrightarrow>
   m_idempotency m' = mput scope r (m_idempotency m) \<Longrightarrow> mhas (m_operations m) (ir_OperationID r) \<Longrightarrow> quiet m m'"
  unfolding quiet_def by blast

lemma quiet_join:
  assumes "ledger_ok m" "activeExclusiveOperationLocked m s = Some p"
  shows "quiet m (join_operation scope digest p (reconcileNodeLivenessLocked now m))"
  by (rule quiet_joinI [of _ _ scope "\<lparr>ir_OperationID = op_ID p, ir_RequestDigest = digest\<rparr>"])
    (use active_Some [OF assms(2,1)] in \<open>auto intro: mhas_Some\<close>)

lemma queuedI:
  "m_operations m' = mput i (NewQueuedOperation i s n t g k now) (m_operations m) \<Longrightarrow>
   m_idempotency m' = mput scope \<lparr>ir_OperationID = i, ir_RequestDigest = digest\<rparr> (m_idempotency m) \<Longrightarrow>
   sviews (m_servers m') = (sviews (m_servers m))(s \<mapsto> (g, n)) \<Longrightarrow>
   activeExclusiveOperationLocked m s = None \<Longrightarrow> isExclusiveOperation t \<Longrightarrow> job_type j = t \<Longrightarrow>
   queued scope digest (NewQueuedOperation i s n t g k now)
     \<lparr>tk_operationID = i, tk_serverID = s, tk_job = j, tk_phase = Spawned\<rparr> m m'"
  by (simp add: queued_def)

text \<open>The control structure of the handlers, one rule per construct, for any predicate on the
  result.\<close>

lemma handled_if: "(c \<Longrightarrow> P x) \<Longrightarrow> (\<not> c \<Longrightarrow> P y) \<Longrightarrow> P (if c then x else y)"
  by simp

lemma handled_option:
  "(v = None \<Longrightarrow> P x) \<Longrightarrow> (\<And>y. v = Some y \<Longrightarrow> P (f y)) \<Longrightarrow> P (case v of None \<Rightarrow> x | Some y \<Rightarrow> f y)"
  by (cases v) simp_all

lemma handled_sum:
  "(\<And>x. v = Inl x \<Longrightarrow> P (f x)) \<Longrightarrow> (\<And>y. v = Inr y \<Longrightarrow> P (g y)) \<Longrightarrow> P (case v of Inl x \<Rightarrow> f x | Inr y \<Rightarrow> g y)"
  by (cases v) simp_all

lemma handled_prod: "(\<And>x y. v = (x, y) \<Longrightarrow> P (f x y)) \<Longrightarrow> P (case v of (x, y) \<Rightarrow> f x y)"
  by (cases v) simp

lemma handled_Let: "(\<And>x. x = t \<Longrightarrow> P (f x)) \<Longrightarrow> P (let x = t in f x)"
  by simp

lemmas handled_intros = handled_if handled_option handled_sum handled_prod handled_Let

lemmas outcome_intros = handled_intros [where P = "outcome sc d i m" for sc d i m]

section \<open>Power and server creation\<close>

lemma power_requested_view [simp]:
  "srv_Generation (power_requested a v) = srv_Generation v" "srv_NodeID (power_requested a v) = srv_NodeID v"
  by (simp_all add: power_requested_def)

lemma reconcile_server_view:
  "mget (m_servers (reconcileNodeLivenessLocked now m)) s = Some v \<Longrightarrow>
   sviews (m_servers m) s = Some (srv_Generation v, srv_NodeID v)"
  by (metis sviews_Some sviews_reconcile)

lemma RequestPower_outcome:
  assumes "ledger_ok m"
  shows "outcome (idempotencyScope ''server:power'' (u_ID actor) s key) (requestDigest L (ReqPower a)) (uuid e 0) m
     (RequestPower L e s a key actor m)"
proof -
  have "isExclusiveOperation a" if "a \<in> {PowerStart, PowerStop, PowerRestart, PowerKill}"
    using that by (auto simp: isExclusiveOperation_def)
  then show ?thesis
    unfolding RequestPower_def
    by (intro outcome_intros) (simp_all add: quiet_join [OF assms] queuedI)
qed

lemma new_server_view [simp]:
  "srv_Generation (new_server now s inp n g a w) = 1" "srv_NodeID (new_server now s inp n g a w) = n_ID n"
  "srv_ID (new_server now s inp n g a w) = s"
  by (simp_all add: new_server_def)

lemma validate_create_trims: "validate_create inp key = Inr inp' \<Longrightarrow> inp' = inp\<lparr>csi_Name := TrimSpace (csi_Name inp)\<rparr>"
  by (auto simp: validate_create_def Let_def split: if_splits option.splits)

lemma CreateServer_outcome:
  assumes "activeExclusiveOperationLocked m (uuid e 0) = None"
  shows "outcome (idempotencyScope ''server:create'' (u_ID actor) [] key)
     (requestDigest L (ReqCreateServer (inp\<lparr>csi_Name := TrimSpace (csi_Name inp)\<rparr>))) (uuid e 1) m
     (CreateServer L e disk inp key actor m)"
proof (cases "validate_create inp key")
  case (Inr inp')
  show ?thesis
    unfolding CreateServer_def Inr sum.case validate_create_trims [OF Inr, symmetric]
    using assms by (intro outcome_intros) (simp_all add: queuedI isExclusiveOperation_def)
qed (simp add: CreateServer_def)

section \<open>Reconcile requests\<close>

text \<open>What \<open>requestReconcile\<close> relies on: a mutation touches neither the operations, nor the
  idempotency records, nor the servers, and returns a server of the same generation on the same
  node. The handlers below get their contract from this one.\<close>

locale reconcile_mutation =
  fixes mutate :: reconcileMutation
  assumes mutate_frame: "mutate now v m = Inr (v', m') \<Longrightarrow>
      m_operations m' = m_operations m \<and> m_idempotency m' = m_idempotency m \<and> m_servers m' = m_servers m"
    and mutate_server: "mutate now v m = Inr (v', m') \<Longrightarrow>
      srv_NodeID v' = srv_NodeID v \<and> srv_Generation v' = srv_Generation v \<and> srv_ID v' = srv_ID v"
begin

lemma request_outcome:
  assumes "nodes_named m"
  shows "outcome scope digest (uuid e 0) m (requestReconcile e s g key scope digest actor permission action mutate m)"
proof -
  have node: "n_ID (mget_zero zero_node (m_nodes (reconcileNodeLivenessLocked now m)) i) = i"
    if "reconcile_refused s g v (reconcileNodeLivenessLocked now m) = None" "i = srv_NodeID v" for now v i
    using that assms
    by (auto simp: reconcile_refused_def nodes_named_def mget_zero_def reconcileNodeLivenessLocked_def
        split: option.splits if_splits)
  have active: "activeExclusiveOperationLocked m s = None"
    if "reconcile_refused s g v (reconcileNodeLivenessLocked now m) = None" for now v
    using that by (auto simp: reconcile_refused_def split: option.splits if_splits)
  have view: "m_operations m' = m_operations m \<and> m_idempotency m' = m_idempotency m \<and>
      sviews (m_servers m') = sviews (m_servers m) \<and> srv_NodeID v' = srv_NodeID v"
    if "mutate now v (reconcileNodeLivenessLocked now m) = Inr (v', m')" for now v v' m'
    using mutate_frame [OF that] mutate_server [OF that] by simp
  show ?thesis
    unfolding requestReconcile_def
    by (intro outcome_intros) (auto simp: isExclusiveOperation_def node active dest: view intro!: queuedI)
qed

end

interpretation add_alloc: reconcile_mutation "add_allocation i s inp" for i s inp
  by unfold_locales (auto simp: add_allocation_def Let_def split: if_splits)

interpretation make_prim: reconcile_mutation "make_primary i s" for i s
  by unfold_locales (auto simp: make_primary_def Let_def split: if_splits option.splits)

interpretation remove_alloc: reconcile_mutation "remove_allocation i s" for i s
  by unfold_locales (auto simp: remove_allocation_def Let_def split: if_splits option.splits)

interpretation change_start: reconcile_mutation "change_startup L s updates" for L s updates
  by unfold_locales (auto simp: change_startup_def Let_def split: sum.splits prod.splits)

lemma CreateAllocation_outcome:
  assumes "nodes_named m"
  shows "outcome (idempotencyScope ''server:allocation:create'' (u_ID actor) s key)
     (requestDigest L (ReqAllocationCreate g (case normalizeAllocationInput L inp of Inl _ \<Rightarrow> inp | Inr n \<Rightarrow> n))) (uuid e 0) m
     (CreateAllocation L e s inp g key actor m)"
  using add_alloc.request_outcome [OF assms]
  by (cases "normalizeAllocationInput L inp") (simp_all add: CreateAllocation_def)

lemma SetPrimaryAllocation_outcome:
  assumes "nodes_named m"
  shows "outcome (idempotencyScope ''server:allocation:primary'' (u_ID actor) (s @ [CHR 0x00] @ TrimSpace i) key)
     (requestDigest L (ReqAllocation g (TrimSpace i))) (uuid e 0) m (SetPrimaryAllocation L e s i g key actor m)"
  using make_prim.request_outcome [OF assms] by (simp add: SetPrimaryAllocation_def Let_def)

lemma DeleteAllocation_outcome:
  assumes "nodes_named m"
  shows "outcome (idempotencyScope ''server:allocation:delete'' (u_ID actor) (s @ [CHR 0x00] @ TrimSpace i) key)
     (requestDigest L (ReqAllocation g (TrimSpace i))) (uuid e 0) m (DeleteAllocation L e s i g key actor m)"
  using remove_alloc.request_outcome [OF assms] by (simp add: DeleteAllocation_def Let_def)

lemma UpdateStartup_outcome:
  assumes "nodes_named m"
  shows "outcome (idempotencyScope ''server:startup:update'' (u_ID actor) s key)
     (keyedRequestDigest L (m_requestDigestKey m) (ReqStartup g (canonicalStartupDigestVariables updates))) (uuid e 0) m
     (UpdateStartup L e s updates g key actor m)"
  using change_start.request_outcome [OF assms] by (simp add: UpdateStartup_def)

section \<open>Backup requests\<close>

lemma CreateBackup_outcome:
  assumes "ledger_ok m"
  shows "outcome (idempotencyScope ''backup:create'' (u_ID actor) s key) (requestDigest L ReqEmpty) (uuid e 0) m
     (CreateBackup L e s key actor m)"
  unfolding CreateBackup_def
  by (intro outcome_intros)
    (auto simp: quiet_join [OF assms] isExclusiveOperation_def intro!: queuedI map_upd_same intro: reconcile_server_view)

lemma RestoreBackup_outcome:
  shows "outcome (idempotencyScope ''backup:restore'' (u_ID actor) (s @ ''/'' @ i) key) (requestDigest L (ReqBackup i)) (uuid e 0) m
     (RestoreBackup L e s i key actor m)"
  unfolding RestoreBackup_def
  by (intro outcome_intros)
    (auto simp: isExclusiveOperation_def restore_target_def intro!: queuedI split: option.splits if_splits)

lemma DeleteBackup_outcome:
  shows "outcome (idempotencyScope ''backup:delete'' (u_ID actor) (s @ ''/'' @ i) key) (requestDigest L (ReqBackup i)) (uuid e 0) m
     (DeleteBackup L e s i key actor m)"
  unfolding DeleteBackup_def
  by (intro outcome_intros)
    (auto simp: isExclusiveOperation_def delete_target_def intro!: queuedI map_upd_same sviews_Some split: option.splits if_splits)

section \<open>Idempotent handlers\<close>

text \<open>The contract of a handler whose requests carry an idempotency key: \<open>admitted\<close> is validation
  and authorization, \<open>pre\<close> what the handler needs of the store besides the ledger.\<close>

lemma idempotent_known:
  "ledger_ok m \<Longrightarrow> idempotentOperationLocked m scope digest = Inr (Some p) \<Longrightarrow>
   mget (m_idempotency m) scope = Some \<lparr>ir_OperationID = op_ID p, ir_RequestDigest = digest\<rparr> \<and>
   mget (m_operations m) (op_ID p) = Some p"
  by (auto simp: idempotentOperationLocked_def ledger_ok_def split: option.splits if_splits)

lemma idempotent_found:
  "mget (m_idempotency m) scope = Some \<lparr>ir_OperationID = i, ir_RequestDigest = digest\<rparr> \<Longrightarrow>
   mget (m_operations m) i = Some p \<Longrightarrow> idempotentOperationLocked m scope digest = Inr (Some p)"
  by (simp add: idempotentOperationLocked_def)

lemma idempotent_reused:
  "mget (m_idempotency m) scope = Some \<lparr>ir_OperationID = i, ir_RequestDigest = d\<rparr> \<Longrightarrow> d \<noteq> digest \<Longrightarrow>
   idempotentOperationLocked m scope digest = Inl (NewProblem ''IDEMPOTENCY_KEY_REUSED'' False)"
  by (simp add: idempotentOperationLocked_def)

definition answered :: "string \<Rightarrow> string \<Rightarrow> handled \<Rightarrow> bool" where
  "answered scope digest h \<longleftrightarrow>
     (case h of (Inr p, None, m') \<Rightarrow>
        mget (m_idempotency m') scope = Some \<lparr>ir_OperationID = op_ID p, ir_RequestDigest = digest\<rparr> \<and>
        mget (m_operations m') (op_ID p) = Some p
      | _ \<Rightarrow> True)"

locale operation_handler =
  fixes handle :: "env \<Rightarrow> Memory \<Rightarrow> handled"
    and opid :: "env \<Rightarrow> string"
    and pre :: "env \<Rightarrow> Memory \<Rightarrow> bool"
    and admitted :: "Memory \<Rightarrow> bool"
    and scope :: string
    and digest :: "Memory \<Rightarrow> string"
  assumes outcome: "ledger_ok m \<Longrightarrow> pre e m \<Longrightarrow> outcome scope (digest m) (opid e) m (handle e m)"
    and answers: "ledger_ok m \<Longrightarrow> answered scope (digest m) (handle e m)"
    and rejects: "\<not> admitted m \<Longrightarrow> \<exists>err. handle e m = (Inl err, None, m)"
    and looks_up: "admitted m \<Longrightarrow> idempotentOperationLocked m scope (digest m) = Inr (Some p) \<Longrightarrow>
      \<exists>m'. handle e m = (Inr p, None, m')"
    and refuses: "admitted m \<Longrightarrow> idempotentOperationLocked m scope (digest m) = Inl err \<Longrightarrow>
      \<exists>m'. handle e m = (Inl err, None, m')"
begin

lemma accepts: "handle e m = (Inr p, t, m') \<Longrightarrow> admitted m"
  using rejects [of m e] by auto

lemma handled_cases:
  assumes "ledger_ok m" "pre e m" "handle e m = (r, t, m')"
  obtains (quiet) "t = None" "quiet m m'"
  | (queued) p tk where "t = Some tk" "r = Inr p" "op_ID p = opid e" "queued scope (digest m) p tk m m'"
proof (cases t)
  case None
  with outcome [OF assms(1,2)] assms(3) show thesis by (auto intro: quiet)
next
  case (Some tk)
  with outcome [OF assms(1,2)] assms(3) show thesis by (auto simp: outcome_def intro: queued)
qed

lemma keeps_ledger:
  assumes "ledger_ok m" "pre e m" "\<not> mhas (m_operations m) (opid e)" "handle e m = (r, t, m')"
  shows "ledger_ok m' \<and> ledger_le m m'"
  using assms(1,2,4)
proof (cases rule: handled_cases)
  case quiet
  then show ?thesis
    using ledger_same [of m' m] ledger_join [OF assms(1)] assms(1) unfolding quiet_def by blast
next
  case (queued p tk)
  then show ?thesis
    using assms by (intro ledger_queue [of m p m' scope "\<lparr>ir_OperationID = op_ID p, ir_RequestDigest = digest m\<rparr>"])
      (auto simp: queued_def blocks_server_def)
qed

lemma recorded:
  assumes "ledger_ok m" "pre e m" "handle e m = (Inr p, t, m')"
  shows "mget (m_idempotency m') scope = Some \<lparr>ir_OperationID = op_ID p, ir_RequestDigest = digest m\<rparr> \<and>
    mget (m_operations m') (op_ID p) = Some p"
  using assms
proof (cases rule: handled_cases)
  case quiet
  with answers [OF assms(1), of e] assms(3) show ?thesis by (simp add: answered_def)
qed (simp add: queued_def)

lemma replayed:
  assumes "ledger_ok m" "pre e m" "handle e m = (Inr p, t, m')"
    and "ledger_le m' m2" "mget (m_idempotency m2) scope = mget (m_idempotency m') scope"
    and "digest m2 = digest m" "admitted m2" "ledger_ok m2" "pre e2 m2"
  shows "\<exists>q m3. handle e2 m2 = (Inr q, None, m3) \<and> op_ID q = op_ID p \<and> mget (m_operations m2) (op_ID p) = Some q \<and>
    m_operations m3 = m_operations m2"
proof -
  note rec = recorded [OF assms(1-3)]
  then obtain q where q: "mget (m_operations m2) (op_ID p) = Some q"
    using assms(4) unfolding ledger_le_def by blast
  with rec assms(5,6) have "idempotentOperationLocked m2 scope (digest m2) = Inr (Some q)"
    by (intro idempotent_found [of _ _ "op_ID p"]) simp_all
  from looks_up [OF assms(7) this] obtain m3 where h: "handle e2 m2 = (Inr q, None, m3)" by blast
  moreover from q assms(8) have "op_ID q = op_ID p" by (simp add: ledger_ok_def)
  moreover from outcome [OF assms(8,9)] h have "m_operations m3 = m_operations m2" by (simp add: quiet_def)
  ultimately show ?thesis using q by blast
qed

lemma reused:
  assumes "mget (m_idempotency m) scope = Some \<lparr>ir_OperationID = i, ir_RequestDigest = d\<rparr>" "d \<noteq> digest m" "admitted m"
  shows "fst (handle e m) = Inl (NewProblem ''IDEMPOTENCY_KEY_REUSED'' False)"
  using refuses [OF assms(3) idempotent_reused [OF assms(1,2)], of e] by force

end

lemma answered_simps [simp]:
  "answered sc d (Inl err, t, m)" "answered sc d (r, Some tk, m)"
  "answered sc d (Inr p, None, m) =
     (mget (m_idempotency m) sc = Some \<lparr>ir_OperationID = op_ID p, ir_RequestDigest = d\<rparr> \<and> mget (m_operations m) (op_ID p) = Some p)"
  by (simp_all add: answered_def split: sum.splits)

lemmas answered_intros = handled_intros [where P = "answered sc d" for sc d]

lemma answered_known:
  "ledger_ok m \<Longrightarrow> idempotentOperationLocked m sc d = Inr (Some p) \<Longrightarrow> m_idempotency m' = m_idempotency m \<Longrightarrow>
   m_operations m' = m_operations m \<Longrightarrow> answered sc d (Inr p, None, m')"
  using idempotent_known [of m sc d p] by simp

lemma answered_joined:
  "ledger_ok m \<Longrightarrow> activeExclusiveOperationLocked m s = Some p \<Longrightarrow> m_operations m' = m_operations m \<Longrightarrow>
   answered sc d (Inr p, None, join_operation sc d p m')"
  using active_Some [of m s p] by simp

lemma RequestPower_answered:
  "ledger_ok m \<Longrightarrow> answered (idempotencyScope ''server:power'' (u_ID actor) s key) (requestDigest L (ReqPower a))
     (RequestPower L e s a key actor m)"
  unfolding RequestPower_def
  by (intro answered_intros) (simp_all add: answered_known answered_joined del: answered_simps(3))

definition power_admitted :: "string \<Rightarrow> PowerAction \<Rightarrow> string \<Rightarrow> User \<Rightarrow> Memory \<Rightarrow> bool" where
  "power_admitted s a key actor m \<longleftrightarrow> validateIdempotencyKey key = None \<and> a \<in> {PowerStart, PowerStop, PowerRestart, PowerKill} \<and>
     \<not> isl (authorizeServerLocked m (u_ID actor) s ''servers.power'')"

interpretation power: operation_handler "\<lambda>e. RequestPower L e s a key actor" "\<lambda>e. uuid e 0" "\<lambda>_ _. True"
  "power_admitted s a key actor" "idempotencyScope ''server:power'' (u_ID actor) s key" "\<lambda>_. requestDigest L (ReqPower a)"
  for L s a key actor
proof (unfold_locales, goal_cases)
  case 1 then show ?case by (simp add: RequestPower_outcome)
next
  case 2 then show ?case by (rule RequestPower_answered)
next
  case 3 then show ?case by (auto simp: RequestPower_def power_admitted_def Let_def isl_def split: option.splits)
next
  case 4 then show ?case by (auto simp: RequestPower_def power_admitted_def Let_def isl_def split: sum.splits)
next
  case 5 then show ?case by (auto simp: RequestPower_def power_admitted_def Let_def isl_def split: sum.splits)
qed

definition create_admitted :: "CreateServerInput \<Rightarrow> string \<Rightarrow> User \<Rightarrow> Memory \<Rightarrow> bool" where
  "create_admitted inp key actor m \<longleftrightarrow> \<not> isl (validate_create inp key) \<and>
     (case currentActorLocked m (u_ID actor) of Inl _ \<Rightarrow> False | Inr u \<Rightarrow> hasRole u ''platform_admin'')"

lemma create_admittedE:
  assumes "create_admitted inp key actor m"
  obtains u where "validate_create inp key = Inr (inp\<lparr>csi_Name := TrimSpace (csi_Name inp)\<rparr>)"
    "currentActorLocked m (u_ID actor) = Inr u" "hasRole u ''platform_admin''"
proof -
  from assms obtain u inp' where "validate_create inp key = Inr inp'" "currentActorLocked m (u_ID actor) = Inr u"
      "hasRole u ''platform_admin''"
    by (cases "validate_create inp key") (auto simp: create_admitted_def split: sum.splits)
  with that [of u] validate_create_trims [of inp key inp'] show thesis by simp
qed

lemma CreateServer_answered:
  assumes "ledger_ok m"
  shows "answered (idempotencyScope ''server:create'' (u_ID actor) [] key)
     (requestDigest L (ReqCreateServer (inp\<lparr>csi_Name := TrimSpace (csi_Name inp)\<rparr>))) (CreateServer L e disk inp key actor m)"
proof (cases "validate_create inp key")
  case (Inr inp')
  show ?thesis
    unfolding CreateServer_def Inr sum.case validate_create_trims [OF Inr, symmetric]
    using assms by (intro answered_intros) (simp_all add: answered_known del: answered_simps(3))
qed (simp add: CreateServer_def)

interpretation create: operation_handler "\<lambda>e. CreateServer L e disk inp key actor" "\<lambda>e. uuid e 1"
  "\<lambda>e m. activeExclusiveOperationLocked m (uuid e 0) = None"
  "create_admitted inp key actor" "idempotencyScope ''server:create'' (u_ID actor) [] key"
  "\<lambda>_. requestDigest L (ReqCreateServer (inp\<lparr>csi_Name := TrimSpace (csi_Name inp)\<rparr>))"
  for L disk inp key actor
proof (unfold_locales, goal_cases)
  case 1 then show ?case by (intro CreateServer_outcome)
next
  case 2 then show ?case by (rule CreateServer_answered)
next
  case 3 then show ?case by (auto simp: CreateServer_def create_admitted_def Let_def isl_def split: sum.splits)
next
  case (4 m)
  from 4(1) obtain u where "validate_create inp key = Inr (inp\<lparr>csi_Name := TrimSpace (csi_Name inp)\<rparr>)"
    "currentActorLocked m (u_ID actor) = Inr u" "hasRole u ''platform_admin''" by (rule create_admittedE)
  with 4(2) show ?case by (simp add: CreateServer_def Let_def)
next
  case (5 m)
  from 5(1) obtain u where "validate_create inp key = Inr (inp\<lparr>csi_Name := TrimSpace (csi_Name inp)\<rparr>)"
    "currentActorLocked m (u_ID actor) = Inr u" "hasRole u ''platform_admin''" by (rule create_admittedE)
  with 5(2) show ?case by (simp add: CreateServer_def Let_def)
qed

definition reconcile_admitted :: "string \<Rightarrow> string \<Rightarrow> string \<Rightarrow> User \<Rightarrow> Memory \<Rightarrow> bool" where
  "reconcile_admitted s permission key actor m \<longleftrightarrow> validateIdempotencyKey key = None \<and>
     \<not> isl (authorizeServerLocked m (u_ID actor) s permission)"

lemma requestReconcile_contract:
  "ledger_ok m \<Longrightarrow> answered scope digest (requestReconcile e s g key scope digest actor permission action mutate m)"
  "\<not> reconcile_admitted s permission key actor m \<Longrightarrow>
     \<exists>err. requestReconcile e s g key scope digest actor permission action mutate m = (Inl err, None, m)"
  "reconcile_admitted s permission key actor m \<Longrightarrow> idempotentOperationLocked m scope digest = Inr (Some p) \<Longrightarrow>
     \<exists>m'. requestReconcile e s g key scope digest actor permission action mutate m = (Inr p, None, m')"
  "reconcile_admitted s permission key actor m \<Longrightarrow> idempotentOperationLocked m scope digest = Inl err \<Longrightarrow>
     \<exists>m'. requestReconcile e s g key scope digest actor permission action mutate m = (Inl err, None, m')"
proof goal_cases
  case 1 then show ?case
    unfolding requestReconcile_def by (intro answered_intros) (simp_all add: answered_known del: answered_simps(3))
qed (auto simp: requestReconcile_def reconcile_admitted_def Let_def isl_def split: option.splits sum.splits)

interpretation allocate: operation_handler "\<lambda>e. CreateAllocation L e s inp g key actor" "\<lambda>e. uuid e 0" "\<lambda>_. nodes_named"
  "\<lambda>m. \<not> isl (normalizeAllocationInput L inp) \<and> reconcile_admitted s ''servers.network.write'' key actor m"
  "idempotencyScope ''server:allocation:create'' (u_ID actor) s key"
  "\<lambda>_. requestDigest L (ReqAllocationCreate g (case normalizeAllocationInput L inp of Inl _ \<Rightarrow> inp | Inr n \<Rightarrow> n))"
  for L s inp g key actor
  by unfold_locales (use CreateAllocation_outcome in \<open>auto simp: CreateAllocation_def requestReconcile_contract split: sum.splits\<close>)

interpretation primary: operation_handler "\<lambda>e. SetPrimaryAllocation L e s i g key actor" "\<lambda>e. uuid e 0" "\<lambda>_. nodes_named"
  "\<lambda>m. TrimSpace i \<noteq> [] \<and> reconcile_admitted s ''servers.network.write'' key actor m"
  "idempotencyScope ''server:allocation:primary'' (u_ID actor) (s @ [CHR 0x00] @ TrimSpace i) key"
  "\<lambda>_. requestDigest L (ReqAllocation g (TrimSpace i))"
  for L s i g key actor
  by unfold_locales
    (use SetPrimaryAllocation_outcome in \<open>auto simp: SetPrimaryAllocation_def Let_def requestReconcile_contract\<close>)

interpretation deallocate: operation_handler "\<lambda>e. DeleteAllocation L e s i g key actor" "\<lambda>e. uuid e 0" "\<lambda>_. nodes_named"
  "\<lambda>m. TrimSpace i \<noteq> [] \<and> reconcile_admitted s ''servers.network.write'' key actor m"
  "idempotencyScope ''server:allocation:delete'' (u_ID actor) (s @ [CHR 0x00] @ TrimSpace i) key"
  "\<lambda>_. requestDigest L (ReqAllocation g (TrimSpace i))"
  for L s i g key actor
  by unfold_locales
    (use DeleteAllocation_outcome in \<open>auto simp: DeleteAllocation_def Let_def requestReconcile_contract\<close>)

interpretation startup: operation_handler "\<lambda>e. UpdateStartup L e s updates g key actor" "\<lambda>e. uuid e 0" "\<lambda>_. nodes_named"
  "\<lambda>m. updates \<noteq> [] \<and> reconcile_admitted s ''servers.startup.write'' key actor m"
  "idempotencyScope ''server:startup:update'' (u_ID actor) s key"
  "\<lambda>m. keyedRequestDigest L (m_requestDigestKey m) (ReqStartup g (canonicalStartupDigestVariables updates))"
  for L s updates g key actor
  by unfold_locales
    (use UpdateStartup_outcome in \<open>auto simp: UpdateStartup_def requestReconcile_contract\<close>)

lemma CreateBackup_answered:
  "ledger_ok m \<Longrightarrow> answered (idempotencyScope ''backup:create'' (u_ID actor) s key) (requestDigest L ReqEmpty) (CreateBackup L e s key actor m)"
  unfolding CreateBackup_def
  by (intro answered_intros) (simp_all add: answered_known answered_joined del: answered_simps(3))

interpretation backup: operation_handler "\<lambda>e. CreateBackup L e s key actor" "\<lambda>e. uuid e 0" "\<lambda>_ _. True"
  "reconcile_admitted s ''servers.backups.create'' key actor" "idempotencyScope ''backup:create'' (u_ID actor) s key" "\<lambda>_. requestDigest L ReqEmpty"
  for L s key actor
proof (unfold_locales, goal_cases)
  case 1 then show ?case by (simp add: CreateBackup_outcome del: append.simps)
next
  case 2 then show ?case by (rule CreateBackup_answered)
next
  case 3 then show ?case by (auto simp: CreateBackup_def reconcile_admitted_def Let_def isl_def split: option.splits)
next
  case 4 then show ?case by (auto simp: CreateBackup_def reconcile_admitted_def Let_def isl_def split: sum.splits)
next
  case 5 then show ?case by (auto simp: CreateBackup_def reconcile_admitted_def Let_def isl_def split: sum.splits)
qed

lemma RestoreBackup_answered:
  "ledger_ok m \<Longrightarrow> answered (idempotencyScope ''backup:restore'' (u_ID actor) (s @ ''/'' @ i) key) (requestDigest L (ReqBackup i)) (RestoreBackup L e s i key actor m)"
  unfolding RestoreBackup_def
  by (intro answered_intros) (simp_all add: answered_known answered_joined del: answered_simps(3))

interpretation restore: operation_handler "\<lambda>e. RestoreBackup L e s i key actor" "\<lambda>e. uuid e 0" "\<lambda>_ _. True"
  "reconcile_admitted s ''servers.backups.restore'' key actor" "idempotencyScope ''backup:restore'' (u_ID actor) (s @ ''/'' @ i) key" "\<lambda>_. requestDigest L (ReqBackup i)"
  for L s i key actor
proof (unfold_locales, goal_cases)
  case 1 then show ?case by (simp add: RestoreBackup_outcome del: append.simps)
next
  case 2 then show ?case by (rule RestoreBackup_answered)
next
  case 3 then show ?case by (auto simp: RestoreBackup_def reconcile_admitted_def Let_def isl_def split: option.splits)
next
  case 4 then show ?case by (auto simp: RestoreBackup_def reconcile_admitted_def Let_def isl_def split: sum.splits)
next
  case 5 then show ?case by (auto simp: RestoreBackup_def reconcile_admitted_def Let_def isl_def split: sum.splits)
qed

lemma DeleteBackup_answered:
  "ledger_ok m \<Longrightarrow> answered (idempotencyScope ''backup:delete'' (u_ID actor) (s @ ''/'' @ i) key) (requestDigest L (ReqBackup i)) (DeleteBackup L e s i key actor m)"
  unfolding DeleteBackup_def
  by (intro answered_intros) (simp_all add: answered_known answered_joined del: answered_simps(3))

interpretation discard: operation_handler "\<lambda>e. DeleteBackup L e s i key actor" "\<lambda>e. uuid e 0" "\<lambda>_ _. True"
  "reconcile_admitted s ''servers.backups.delete'' key actor" "idempotencyScope ''backup:delete'' (u_ID actor) (s @ ''/'' @ i) key" "\<lambda>_. requestDigest L (ReqBackup i)"
  for L s i key actor
proof (unfold_locales, goal_cases)
  case 1 then show ?case by (simp add: DeleteBackup_outcome del: append.simps)
next
  case 2 then show ?case by (rule DeleteBackup_answered)
next
  case 3 then show ?case by (auto simp: DeleteBackup_def reconcile_admitted_def Let_def isl_def split: option.splits)
next
  case 4 then show ?case by (auto simp: DeleteBackup_def reconcile_admitted_def Let_def isl_def split: sum.splits)
next
  case 5 then show ?case by (auto simp: DeleteBackup_def reconcile_admitted_def Let_def isl_def split: sum.splits)
qed

end
