(* ===== verification/Operation_World.thy ===== *)
theory Operation_World
  imports Handler_Outcomes Identity_Invariants
begin

text \<open>
  The store together with its goroutines. A step of the \<open>world\<close> is one call of a handler, which may
  start a goroutine, one other call that changes the store, or one locked section of one goroutine;
  steps interleave in any order. The invariant \<open>world_ok\<close> ties every unfinished operation to
  exactly one goroutine and to the current generation of its server.
\<close>

section \<open>The sections of a goroutine\<close>

record world =
  w_store :: Memory
  w_tasks :: "task list"

text \<open>What the container runtime answers to one goroutine: the identifier of a created container,
  whether a power call succeeded, and the inspected state.\<close>

record docker =
  dk_container :: "string option"
  dk_power :: bool
  dk_inspect :: "(string \<times> bool) option"

text \<open>Whether the goroutine takes the container path; only provisioning and power operations ask for
  the adapter.\<close>

definition uses_runtime :: "job \<Rightarrow> Memory \<Rightarrow> bool" where
  "uses_runtime j m = (case j of JobProvision \<Rightarrow> m_runtimeAdapter m | JobPower _ \<Rightarrow> m_runtimeAdapter m | _ \<Rightarrow> False)"

definition end_section :: "lib \<Rightarrow> env \<Rightarrow> task \<Rightarrow> Memory \<Rightarrow> Memory" where
  "end_section L e tk m =
     (case tk_job tk of
        JobProvision \<Rightarrow> finishProvision_end (clk e 0) (tk_operationID tk) (tk_serverID tk) m
      | JobPower a \<Rightarrow> finishPower_end (clk e 0) a (tk_operationID tk) (tk_serverID tk) m
      | JobReconcile actor action \<Rightarrow> finishReconcile_end e (tk_operationID tk) (tk_serverID tk) actor action m
      | JobBackup actor \<Rightarrow> finishBackup_end L e (tk_operationID tk) (tk_serverID tk) actor m
      | JobRestoreBackup b actor \<Rightarrow> finishRestoreBackup_end e (tk_operationID tk) (tk_serverID tk) b actor m
      | JobDeleteBackup b actor \<Rightarrow> finishDeleteBackup_end e (tk_operationID tk) (tk_serverID tk) b actor m)"

definition is_power :: "job \<Rightarrow> bool" where
  "is_power j = (case j of JobPower _ \<Rightarrow> True | _ \<Rightarrow> False)"

definition runtime_section ::
  "env \<Rightarrow> docker \<Rightarrow> task \<Rightarrow> Operation option \<Rightarrow> Server option \<Rightarrow> Startup option \<Rightarrow> Memory \<Rightarrow> Memory" where
  "runtime_section e d tk operation server startup m =
     (case tk_job tk of
        JobProvision \<Rightarrow> finishProvisionWithRuntime_end (clk e 0) (dk_container d) (tk_operationID tk) (tk_serverID tk)
          operation server startup m
      | JobPower a \<Rightarrow> finishPowerWithRuntime_end (clk e 0) a (dk_power d) (dk_inspect d) (tk_operationID tk) (tk_serverID tk)
          operation server m
      | _ \<Rightarrow> m)"

text \<open>One section: the goroutine afterwards (\<open>None\<close> when it has returned) and the store.\<close>

definition run_section :: "lib \<Rightarrow> env \<Rightarrow> docker \<Rightarrow> task \<Rightarrow> Memory \<Rightarrow> task option \<times> Memory" where
  "run_section L e d tk m =
     (case tk_phase tk of
        Spawned \<Rightarrow>
          (case beginOperation (clk e 0) (tk_operationID tk) m of
             (False, m') \<Rightarrow> (None, m')
           | (True, m') \<Rightarrow> (Some (tk\<lparr>tk_phase := (if uses_runtime (tk_job tk) m then RuntimeBegan else Began)\<rparr>), m'))
      | Began \<Rightarrow>
          if is_power (tk_job tk)
          then (Some (tk\<lparr>tk_phase := Halfway\<rparr>), finishPower_progress (clk e 0) (tk_operationID tk) m)
          else (None, end_section L e tk m)
      | Halfway \<Rightarrow> (None, end_section L e tk m)
      | RuntimeBegan \<Rightarrow> (Some (tk\<lparr>tk_phase := runtime_read (tk_operationID tk) (tk_serverID tk) m\<rparr>), m)
      | RuntimeRead operation server startup \<Rightarrow> (None, runtime_section e d tk operation server startup m))"

section \<open>The effect of the sections on the ledger\<close>

text \<open>A section advances the operation of its goroutine and nothing else the other goroutines depend
  on.\<close>

definition advances :: "string \<Rightarrow> Operation \<Rightarrow> Operation \<Rightarrow> Memory \<Rightarrow> Memory \<Rightarrow> bool" where
  "advances i p q m m' \<longleftrightarrow>
     m_operations m' = mput i q (m_operations m) \<and> m_idempotency m' = m_idempotency m \<and>
     sviews (m_servers m') = sviews (m_servers m) \<and> op_ok q \<and> op_ID q = op_ID p \<and> op_ServerID q = op_ServerID p \<and>
     op_NodeID q = op_NodeID p \<and> op_Type q = op_Type p \<and> op_Generation q = op_Generation p"

lemma advances_ledger:
  assumes "ledger_ok m" "mget (m_operations m) i = Some p" "\<not> isTerminalOperation (op_Status p)" "advances i p q m m'"
  shows "ledger_ok m' \<and> ledger_le m m'"
  using assms by (intro ledger_advance [of m i p q m']) (simp_all add: advances_def)

lemma observe_sel [simp, store_simps]:
  "m_operations (observe_server s f m) = m_operations m"
  "m_idempotency (observe_server s f m) = m_idempotency m"
  "m_nodes (observe_server s f m) = m_nodes m"
  "m_allocations (observe_server s f m) = m_allocations m"
  "m_allocationOrder (observe_server s f m) = m_allocationOrder m"
  "m_backups (observe_server s f m) = m_backups m"
  "m_backupChecksums (observe_server s f m) = m_backupChecksums m"
  "m_backupOperations (observe_server s f m) = m_backupOperations m"
  "m_backupDeleteFrom (observe_server s f m) = m_backupDeleteFrom m"
  by (simp_all add: observe_server_def)

lemma observe_view:
  assumes "mget V s = Some v" "m_servers m = V" "srv_Generation (f v) = srv_Generation v" "srv_NodeID (f v) = srv_NodeID v"
  shows "sviews (m_servers (observe_server s f m)) = sviews V"
  using assms sviews_Some [OF assms(1)] by (simp add: observe_server_def mget_zero_def fun_upd_idem)

lemma targets_server: "operationTargetsCurrentServer p srv \<Longrightarrow> \<exists>v. srv = Some v"
  by (auto simp: operationTargetsCurrentServer_def split: option.splits)

text \<open>A goroutine that finishes an operation on the current generation of its server.\<close>

lemma complete_section_ends:
  assumes "op_ok p" "mget (m_operations m) i = Some p" "\<not> isTerminalOperation (op_Status p)"
    and "operationTargetsCurrentServer p (mget (m_servers m) s)"
  obtains q where "complete_section now i s m = (Some q, m\<lparr>m_operations := mput i q (m_operations m)\<rparr>)"
    "op_Status q = ''succeeded''" "advances i p q m (m\<lparr>m_operations := mput i q (m_operations m)\<rparr>)"
proof -
  obtain b q where c: "completeOperationForGenerationLocked (mget (m_servers m) s) now p = (b, q)" by force
  note ok = completeForGeneration_ok [OF assms(1) c]
  with assms(3) have "b" by simp
  with c ok assms show thesis by (intro that [of q]) (simp_all add: complete_section_def advances_def)
qed

lemma targets_view:
  "sviews (m_servers m) (op_ServerID p) = Some (op_Generation p, op_NodeID p) \<Longrightarrow>
   operationTargetsCurrentServer p (mget (m_servers m) (op_ServerID p))"
  by (auto simp: sviews_def operationTargetsCurrentServer_def)

lemma advances_refl: "mget (m_operations m) i = Some p \<Longrightarrow> op_ok p \<Longrightarrow> advances i p p m m"
  by (simp add: advances_def mput_same)

lemma advances_frame:
  "advances i p q m m' \<Longrightarrow> m_operations m2 = m_operations m' \<Longrightarrow> m_idempotency m2 = m_idempotency m' \<Longrightarrow>
   sviews (m_servers m2) = sviews (m_servers m') \<Longrightarrow> advances i p q m m2"
  by (simp add: advances_def)

lemma op_ok_terminal: "op_ok p \<Longrightarrow> isTerminalOperation (op_Status p) \<Longrightarrow> op_LeaseExpiresAt p = None"
proof -
  have "isTerminalOperation (op_Status p) \<Longrightarrow> op_LeaseExpiresAt (normalizeOperationMetadata p) = None"
    by (simp add: normalizeOperationMetadata_def Let_def)
  then show "op_ok p \<Longrightarrow> isTerminalOperation (op_Status p) \<Longrightarrow> ?thesis" by (simp add: op_ok_def)
qed

section \<open>Finishing sections\<close>

text \<open>In each lemma the goroutine's operation is unfinished and meant for the current generation of
  its server; then the section finishes it, successfully.\<close>

definition current_op :: "string \<Rightarrow> string \<Rightarrow> Operation \<Rightarrow> Memory \<Rightarrow> bool" where
  "current_op i s p m \<longleftrightarrow> ledger_ok m \<and> mget (m_operations m) i = Some p \<and> \<not> isTerminalOperation (op_Status p) \<and>
     operationTargetsCurrentServer p (mget (m_servers m) s)"

lemma current_op_ok: "current_op i s p m \<Longrightarrow> op_ok p"
  by (auto simp: current_op_def ledger_ok_def)

lemma current_server: "current_op i s p m \<Longrightarrow> \<exists>v. mget (m_servers m) s = Some v"
  using targets_server by (auto simp: current_op_def)

lemma current_complete:
  assumes "current_op i s p m"
  obtains q v where "complete_section now i s m = (Some q, m\<lparr>m_operations := mput i q (m_operations m)\<rparr>)"
    "op_Status q = ''succeeded''" "advances i p q m (m\<lparr>m_operations := mput i q (m_operations m)\<rparr>)"
    "mget (m_servers m) s = Some v"
proof -
  obtain v where "mget (m_servers m) s = Some v" using current_server [OF assms] by blast
  moreover obtain q where "complete_section now i s m = (Some q, m\<lparr>m_operations := mput i q (m_operations m)\<rparr>)"
    "op_Status q = ''succeeded''" "advances i p q m (m\<lparr>m_operations := mput i q (m_operations m)\<rparr>)"
    using assms by (auto simp: current_op_def intro: complete_section_ends [OF current_op_ok [OF assms], of m i s now])
  ultimately show thesis by (intro that)
qed

definition finishes :: "string \<Rightarrow> Operation \<Rightarrow> Memory \<Rightarrow> Memory \<Rightarrow> bool" where
  "finishes i p m m' \<longleftrightarrow> (\<exists>q. advances i p q m m' \<and> op_Status q = ''succeeded'')"

lemma finishes_ends: "finishes i p m m' \<Longrightarrow> \<exists>q. advances i p q m m' \<and> isTerminalOperation (op_Status q)"
  by (auto simp: finishes_def isTerminalOperation_def)

lemma complete_observe:
  assumes "current_op i s p m" "\<And>v. srv_Generation (f v) = srv_Generation v" "\<And>v. srv_NodeID (f v) = srv_NodeID v"
  shows "finishes i p m
     (case complete_section now i s m of (None, m1) \<Rightarrow> m1
      | (Some operation, m1) \<Rightarrow> if op_Status operation = ''succeeded'' then observe_server s f m1 else m1)"
proof -
  obtain q v where c: "complete_section now i s m = (Some q, m\<lparr>m_operations := mput i q (m_operations m)\<rparr>)"
    "op_Status q = ''succeeded''" "advances i p q m (m\<lparr>m_operations := mput i q (m_operations m)\<rparr>)"
    "mget (m_servers m) s = Some v" using current_complete [OF assms(1)] .
  then show ?thesis
    unfolding finishes_def by (intro exI [of _ q]) (auto intro!: advances_frame [OF c(3)] observe_view simp: assms(2,3))
qed

lemma provision_finishes: "current_op i s p m \<Longrightarrow> finishes i p m (finishProvision_end now i s m)"
  unfolding finishProvision_end_def by (rule complete_observe) (simp_all add: provisioned_def)

lemma power_finishes: "current_op i s p m \<Longrightarrow> finishes i p m (finishPower_end now a i s m)"
  unfolding finishPower_end_def by (rule complete_observe) (simp_all add: powered_def)

lemma reconcile_finishes:
  assumes "current_op i s p m"
  shows "finishes i p m (finishReconcile_end e i s actor action m)"
proof -
  obtain q v where c: "complete_section (clk e 0) i s m = (Some q, m\<lparr>m_operations := mput i q (m_operations m)\<rparr>)"
    "op_Status q = ''succeeded''" "advances i p q m (m\<lparr>m_operations := mput i q (m_operations m)\<rparr>)"
    "mget (m_servers m) s = Some v" using current_complete [OF assms] .
  then show ?thesis
    unfolding finishes_def finishReconcile_end_def Let_def
    by (intro exI [of _ q]) (auto intro!: advances_frame [OF c(3)] observe_view)
qed

lemma finish_checked_ends:
  assumes "op_ok p" "\<not> isTerminalOperation (op_Status p)" "operationTargetsCurrentServer p srv"
  obtains q where "finish_checked failure now srv p = (True, failure = None, q)" "op_ok q"
    "op_Status q = (if failure = None then ''succeeded'' else ''failed'')"
    "op_ID q = op_ID p" "op_ServerID q = op_ServerID p" "op_NodeID q = op_NodeID p" "op_Type q = op_Type p"
    "op_Generation q = op_Generation p"
proof (cases failure)
  case None
  obtain b q where c: "completeOperationLocked now p = (b, q)" by force
  with completeOperationLocked_ok [OF assms(1) c] finish_identity(1) [OF c] assms None show thesis
    by (intro that [of q]) (simp_all add: finish_checked_def)
next
  case (Some err)
  obtain b q where c: "failOperationLocked err now p = (b, q)" by force
  with failOperationLocked_ok [OF assms(1) c] finish_identity(2) [OF c] assms Some show thesis
    by (intro that [of q]) (simp_all add: finish_checked_def)
qed

lemma backup_ends:
  assumes "current_op i s p m"
  shows "\<exists>q. advances i p q m (finishBackup_end L e i s actor m) \<and> isTerminalOperation (op_Status q)"
proof -
  let ?put = "\<lambda>q. m\<lparr>m_operations := mput i q (m_operations m)\<rparr>"
  obtain q v where c: "complete_section (clk e 0) i s m = (Some q, ?put q)" "op_Status q = ''succeeded''"
    "advances i p q m (?put q)" "mget (m_servers m) s = Some v" using current_complete [OF assms] .
  have ok: "op_ok q" "op_ID q = op_ID p" using c(3) by (simp_all add: advances_def)
  let ?b = "mget_zero [] (m_backupOperations m) i"
  show ?thesis
  proof (cases "?b \<noteq> [] \<and> backupLocked s ?b (?put q) = None")
    case True
    let ?f = "q\<lparr>op_Status := ''failed'', op_Checkpoint := ''failed'', op_Error := Some backupLost\<rparr>"
    have "op_ok ?f"
      using ok normal_attempts [OF op_ok_normal [OF ok(1)]] op_ok_terminal [OF ok(1)] c(2)
      unfolding op_ok_def by (intro conjI normalI) (auto simp: isTerminalOperation_def)
    then have "advances i p ?f m (finishBackup_end L e i s actor m)"
      using True c by (auto simp: finishBackup_end_def Let_def advances_def)
    then show ?thesis by (intro exI [of _ ?f]) (simp add: isTerminalOperation_def)
  next
    case False
    then have "advances i p q m (finishBackup_end L e i s actor m)"
      using c by (auto simp: finishBackup_end_def Let_def audit_backup_def intro!: advances_frame [OF c(3)] split: option.split)
    with c(2) show ?thesis by (intro exI [of _ q]) (simp add: isTerminalOperation_def)
  qed
qed

lemma restore_ends:
  assumes "current_op i s p m"
  shows "\<exists>q. advances i p q m (finishRestoreBackup_end e i s b actor m) \<and> isTerminalOperation (op_Status q)"
proof -
  let ?found = "backupLocked s b m"
  let ?failure = "case ?found of None \<Rightarrow> Some integrityError
    | Some (_, backup) \<Rightarrow> if backupChecksumValidLocked m backup then None else Some integrityError"
  from assms have t: "mget (m_operations m) i = Some p" "\<not> isTerminalOperation (op_Status p)"
    "operationTargetsCurrentServer p (mget (m_servers m) s)" by (simp_all add: current_op_def)
  obtain q where q: "finish_checked ?failure (clk e 0) (mget (m_servers m) s) p = (True, ?failure = None, q)" "op_ok q"
    "op_Status q = (if ?failure = None then ''succeeded'' else ''failed'')"
    "op_ID q = op_ID p" "op_ServerID q = op_ServerID p" "op_NodeID q = op_NodeID p" "op_Type q = op_Type p"
    "op_Generation q = op_Generation p" by (rule finish_checked_ends [OF current_op_ok [OF assms] t(2,3)])
  obtain v where v: "mget (m_servers m) s = Some v" using current_server [OF assms] by blast
  have "advances i p q m (finishRestoreBackup_end e i s b actor m)"
    using t(1) q v
    by (auto simp: finishRestoreBackup_end_def Let_def advances_def audit_backup_def restored_def intro!: observe_view
        split: option.splits prod.splits)
  with q(3) show ?thesis by (intro exI [of _ q]) (simp add: isTerminalOperation_def)
qed

lemma delete_ends:
  assumes "current_op i s p m"
  shows "\<exists>q. advances i p q m (finishDeleteBackup_end e i s b actor m) \<and> isTerminalOperation (op_Status q)"
proof -
  let ?found = "backupLocked s b m"
  let ?failure = "case ?found of None \<Rightarrow> Some backupGone | Some _ \<Rightarrow> None"
  from assms have t: "mget (m_operations m) i = Some p" "\<not> isTerminalOperation (op_Status p)"
    "operationTargetsCurrentServer p (mget (m_servers m) s)" by (simp_all add: current_op_def)
  obtain q where q: "finish_checked ?failure (clk e 0) (mget (m_servers m) s) p = (True, ?failure = None, q)" "op_ok q"
    "op_Status q = (if ?failure = None then ''succeeded'' else ''failed'')"
    "op_ID q = op_ID p" "op_ServerID q = op_ServerID p" "op_NodeID q = op_NodeID p" "op_Type q = op_Type p"
    "op_Generation q = op_Generation p" by (rule finish_checked_ends [OF current_op_ok [OF assms] t(2,3)])
  have "advances i p q m (finishDeleteBackup_end e i s b actor m)"
    using t(1) q
    by (auto simp: finishDeleteBackup_end_def Let_def advances_def audit_backup_def split: option.splits prod.splits)
  with q(3) show ?thesis by (intro exI [of _ q]) (simp add: isTerminalOperation_def)
qed

lemma end_section_ends:
  assumes "current_op (tk_operationID tk) (tk_serverID tk) p m"
  shows "\<exists>q. advances (tk_operationID tk) p q m (end_section L e tk m) \<and> isTerminalOperation (op_Status q)"
  using finishes_ends [OF provision_finishes [OF assms]] finishes_ends [OF power_finishes [OF assms]]
    finishes_ends [OF reconcile_finishes [OF assms]] backup_ends [OF assms] restore_ends [OF assms] delete_ends [OF assms]
  by (simp add: end_section_def split: job.split)

section \<open>Sections of the container path\<close>

lemma runtime_fail_ends:
  assumes "current_op i s p m"
  shows "\<exists>q. advances i p q m (runtime_fail err now i (Some p) m) \<and> isTerminalOperation (op_Status q)"
proof -
  obtain b q where c: "failOperationLocked err now p = (b, q)" by force
  from failOperationLocked_ok [OF current_op_ok [OF assms] c] finish_identity(2) [OF c] assms c show ?thesis
    by (intro exI [of _ q]) (auto simp: current_op_def advances_def runtime_fail_def isTerminalOperation_def)
qed

lemma runtime_section_ends:
  assumes "current_op (tk_operationID tk) (tk_serverID tk) p m" "tk_job tk = JobProvision \<or> (\<exists>a. tk_job tk = JobPower a)"
  shows "\<exists>q. advances (tk_operationID tk) p q m (runtime_section e d tk (Some p) server startup m) \<and>
    isTerminalOperation (op_Status q)"
  using assms(2) runtime_fail_ends [OF assms(1)] finishes_ends [OF complete_observe [OF assms(1)]]
  by (auto simp: runtime_section_def finishProvisionWithRuntime_end_def finishPowerWithRuntime_end_def provisioned_def
      split: option.split prod.split)

section \<open>The invariant\<close>

definition task_ok :: "Memory \<Rightarrow> task \<Rightarrow> bool" where
  "task_ok m tk \<longleftrightarrow>
     (\<exists>p. mget (m_operations m) (tk_operationID tk) = Some p \<and> op_ServerID p = tk_serverID tk \<and> op_Type p = job_type (tk_job tk) \<and>
        (case tk_phase tk of
           Spawned \<Rightarrow> op_Status p = ''queued''
         | RuntimeBegan \<Rightarrow> op_Status p = ''running'' \<and> (tk_job tk = JobProvision \<or> is_power (tk_job tk))
         | RuntimeRead snapshot _ _ \<Rightarrow> snapshot = Some p \<and> op_Status p = ''running'' \<and> (tk_job tk = JobProvision \<or> is_power (tk_job tk))
         | _ \<Rightarrow> op_Status p = ''running''))"

definition nodes_ok :: "Memory \<Rightarrow> bool" where
  "nodes_ok m \<longleftrightarrow> nodes_named m \<and> mwf (m_nodes m)"

text \<open>Every goroutine serves an unfinished operation of its own, every unfinished operation has a
  goroutine and is meant for the current generation and node of its server.\<close>

definition world_ok :: "world \<Rightarrow> bool" where
  "world_ok w \<longleftrightarrow> (let m = w_store w; ts = w_tasks w in
     ledger_ok m \<and> nodes_ok m \<and> distinct (map tk_operationID ts) \<and> list_all (task_ok m) ts \<and>
     (\<forall>i p. mget (m_operations m) i = Some p \<longrightarrow> isExclusiveOperation (op_Type p) \<and>
        (isTerminalOperation (op_Status p) \<or>
         i \<in> tk_operationID ` set ts \<and> sviews (m_servers m) (op_ServerID p) = Some (op_Generation p, op_NodeID p))))"

lemma task_ok_unfinished: "task_ok m tk \<Longrightarrow> \<exists>p. mget (m_operations m) (tk_operationID tk) = Some p \<and> \<not> isTerminalOperation (op_Status p)"
  by (cases "tk_phase tk") (auto simp: task_ok_def isTerminalOperation_def)

lemma beginOperation_advances:
  assumes "ledger_ok m" "mget (m_operations m) i = Some p" "\<not> isTerminalOperation (op_Status p)"
  obtains q m' where "beginOperation now i m = (True, m')" "advances i p q m m'" "op_Status q = ''running''"
proof -
  from assms have ok: "op_ok p" by (simp add: ledger_ok_def)
  let ?q = "p\<lparr>op_Status := ''running'', op_Progress := (if op_Progress p < 5 then 5 else op_Progress p),
    op_Checkpoint := runningCheckpoint (op_Type p), op_LeaseOwner := Some memoryOperationLeaseOwner,
    op_LeaseExpiresAt := Some (now + memoryOperationLeaseDuration), op_Error := None, op_UpdatedAt := now\<rparr>"
  have "op_ok ?q" using op_ok_progress [OF ok assms(3)] by (intro op_ok_running ok) auto
  with assms ok show thesis
    by (intro that [of "m\<lparr>m_operations := mput i ?q (m_operations m)\<rparr>" ?q])
      (simp_all add: beginOperation_def Let_def op_ok_normal advances_def split del: if_split)
qed

lemma progress_advances:
  assumes "ledger_ok m" "mget (m_operations m) i = Some p" "op_Status p = ''running''"
  obtains q where "advances i p q m (finishPower_progress now i m)" "op_Status q = ''running''"
proof -
  from assms have ok: "op_ok p" by (simp add: ledger_ok_def)
  have nt: "\<not> isTerminalOperation (op_Status p)" using assms(3) by (simp add: isTerminalOperation_def)
  from ok assms(3) obtain w where lease: "op_LeaseOwner p = Some w" "op_Error p = None" by (auto simp: op_ok_def)
  let ?q = "p\<lparr>op_Status := ''running'', op_Progress := 55, op_Checkpoint := runningCheckpoint (op_Type p), op_UpdatedAt := now\<rparr>"
  have eq: "?q = p\<lparr>op_Status := ''running'', op_Progress := 55, op_Checkpoint := runningCheckpoint (op_Type p),
      op_LeaseOwner := Some w, op_LeaseExpiresAt := op_LeaseExpiresAt p, op_Error := None, op_UpdatedAt := now\<rparr>"
    using lease by (cases p) simp
  have "op_ok ?q" by (subst eq) (rule op_ok_running [OF ok]; simp)
  with assms ok nt show thesis
    by (intro that [of ?q]) (simp_all add: finishPower_progress_def op_ok_normal advances_def)
qed

text \<open>One section of one goroutine.\<close>

lemma run_section_step:
  assumes "ledger_ok m" "task_ok m tk" "mget (m_operations m) (tk_operationID tk) = Some p"
    and "sviews (m_servers m) (op_ServerID p) = Some (op_Generation p, op_NodeID p)"
    and "run_section L e d tk m = (t', m')"
  shows "\<exists>q. advances (tk_operationID tk) p q m m' \<and>
    (case t' of None \<Rightarrow> isTerminalOperation (op_Status q)
     | Some tk' \<Rightarrow> tk_operationID tk' = tk_operationID tk \<and> task_ok m' tk')"
proof -
  have s: "op_ServerID p = tk_serverID tk" "op_Type p = job_type (tk_job tk)" "\<not> isTerminalOperation (op_Status p)" "op_ok p"
    using assms(1-3) by (auto simp: task_ok_def isTerminalOperation_def ledger_ok_def split: phase.splits)
  then have cur: "current_op (tk_operationID tk) (tk_serverID tk) p m"
    using assms targets_view [of m p] by (simp add: current_op_def)
  show ?thesis
  proof (cases "tk_phase tk")
    case Spawned
    obtain q m1 where b: "beginOperation (clk e 0) (tk_operationID tk) m = (True, m1)"
      "advances (tk_operationID tk) p q m m1" "op_Status q = ''running''"
      using beginOperation_advances [OF assms(1,3) s(3)] .
    with Spawned assms(5) s show ?thesis
      by (auto simp: run_section_def task_ok_def advances_def uses_runtime_def is_power_def split: job.splits)
  next
    case Began
    then have "op_Status p = ''running''" using assms(2,3) by (simp add: task_ok_def)
    from progress_advances [OF assms(1,3) this]
    obtain q where "advances (tk_operationID tk) p q m (finishPower_progress (clk e 0) (tk_operationID tk) m)"
      "op_Status q = ''running''" .
    with Began assms(5) s end_section_ends [OF cur] show ?thesis
      by (auto simp: run_section_def task_ok_def advances_def split: if_splits)
  next
    case Halfway
    with assms(5) end_section_ends [OF cur] show ?thesis by (auto simp: run_section_def)
  next
    case RuntimeBegan
    with assms(2,3,5) s advances_refl [OF assms(3) s(4)] show ?thesis
      by (auto simp: run_section_def task_ok_def runtime_read_def)
  next
    case (RuntimeRead o' sv st)
    with assms(2,3) have o: "o' = Some p" "tk_job tk = JobProvision \<or> (\<exists>a. tk_job tk = JobPower a)"
      by (auto simp: task_ok_def is_power_def split: job.splits)
    with RuntimeRead assms(5) runtime_section_ends [OF cur o(2)] show ?thesis by (auto simp: run_section_def)
  qed
qed

end
