(* ===== verification/World_Steps.thy ===== *)
theory World_Steps
  imports Operation_World
begin

text \<open>
  The steps of the \<open>world\<close>: handler calls that may start a goroutine (\<open>store_call\<close>), the other
  calls of the store (\<open>other_call\<close>) and the locked sections of the goroutines. The theory describes
  what every step keeps and the shape of the store after each handler, which the invariants of the
  following theories are proved from.
\<close>


section \<open>The steps\<close>

text \<open>The identifiers of a call are new: \<^verbatim>\<open>id.New\<close> returns random UUIDs.\<close>

definition fresh_ids :: "env \<Rightarrow> Memory \<Rightarrow> bool" where
  "fresh_ids e m \<longleftrightarrow> inj (uuid e) \<and>
     (\<forall>j. uuid e j \<noteq> [] \<and> \<not> mhas (m_operations m) (uuid e j) \<and> \<not> mhas (m_servers m) (uuid e j) \<and>
        \<not> mhas (m_allocations m) (uuid e j) \<and> \<not> mhas (m_allocationOrder m) (uuid e j) \<and>
        (\<forall>s b. b \<in> set (mget_zero [] (m_backups m) s) \<longrightarrow> b_ID b \<noteq> uuid e j))"

inductive store_call :: "lib \<Rightarrow> Memory \<Rightarrow> task option \<Rightarrow> Memory \<Rightarrow> bool" for L where
  create: "CreateServer L e disk inp key actor m = (r, t, m') \<Longrightarrow> fresh_ids e m \<Longrightarrow> store_call L m t m'"
| power: "RequestPower L e s a key actor m = (r, t, m') \<Longrightarrow> fresh_ids e m \<Longrightarrow> store_call L m t m'"
| allocate: "CreateAllocation L e s ai g key actor m = (r, t, m') \<Longrightarrow> fresh_ids e m \<Longrightarrow> store_call L m t m'"
| primary: "SetPrimaryAllocation L e s i g key actor m = (r, t, m') \<Longrightarrow> fresh_ids e m \<Longrightarrow> store_call L m t m'"
| deallocate: "DeleteAllocation L e s i g key actor m = (r, t, m') \<Longrightarrow> fresh_ids e m \<Longrightarrow> store_call L m t m'"
| startup: "UpdateStartup L e s updates g key actor m = (r, t, m') \<Longrightarrow> fresh_ids e m \<Longrightarrow> store_call L m t m'"
| backup: "CreateBackup L e s key actor m = (r, t, m') \<Longrightarrow> fresh_ids e m \<Longrightarrow> store_call L m t m'"
| restore: "RestoreBackup L e s i key actor m = (r, t, m') \<Longrightarrow> fresh_ids e m \<Longrightarrow> store_call L m t m'"
| discard: "DeleteBackup L e s i key actor m = (r, t, m') \<Longrightarrow> fresh_ids e m \<Longrightarrow> store_call L m t m'"

text \<open>The calls that start no goroutine: node heartbeats and timeouts, console commands, operation
  reads (which normalise what they read), the switch of the container runtime, and everything the
  identity component does.\<close>

inductive other_call :: "lib \<Rightarrow> Memory \<Rightarrow> Memory \<Rightarrow> bool" for L where
  liveness: "other_call L m (reconcileNodeLivenessLocked now m)"
| heartbeat: "Heartbeat now name version m = (r, m') \<Longrightarrow> other_call L m m'"
| revoke: "RevokeNode i actor m = (r, m') \<Longrightarrow> other_call L m m'"
| command: "SendConsoleCommand e s c actor m = (r, m') \<Longrightarrow> other_call L m m'"
| command_result: "RecordConsoleCommandResult e s actor res m = (r, m') \<Longrightarrow> other_call L m m'"
| get_op: "get_operation i m = (r1, m') \<Longrightarrow> other_call L m m'"
| list_ops: "VisibleOperations i m = (r2, m') \<Longrightarrow> other_call L m m'"
| enable: "EnableRealRuntime d m = (r3, m') \<Longrightarrow> other_call L m m'"
| disable: "other_call L m (DisableRealRuntime m)"
| file_mutation: "beginFileMutation now s i m = (r4, m') \<Longrightarrow> other_call L m m'"
| membership: "PutServerMembership e s i ps actor m = (r5, m') \<Longrightarrow> other_call L m m'"
| no_membership: "DeleteServerMembership e s i actor m = (r, m') \<Longrightarrow> other_call L m m'"
| enroll: "IssueEnrollmentToken L e hint ttl m = (r6, m') \<Longrightarrow> other_call L m m'"
| enrolled: "ConsumeEnrollmentToken L e raw m = (r, m') \<Longrightarrow> other_call L m m'"
| identity: "identity_step L m m' \<Longrightarrow> other_call L m m'"

inductive world_step :: "lib \<Rightarrow> world \<Rightarrow> world \<Rightarrow> bool" for L where
  call: "store_call L m t m' \<Longrightarrow>
    world_step L \<lparr>w_store = m, w_tasks = ts\<rparr> \<lparr>w_store = m', w_tasks = ts @ (case t of None \<Rightarrow> [] | Some tk \<Rightarrow> [tk])\<rparr>"
| other: "other_call L m m' \<Longrightarrow> world_step L \<lparr>w_store = m, w_tasks = ts\<rparr> \<lparr>w_store = m', w_tasks = ts\<rparr>"
| run: "run_section L e d tk m = (t', m') \<Longrightarrow>
    world_step L \<lparr>w_store = m, w_tasks = ts1 @ tk # ts2\<rparr>
      \<lparr>w_store = m', w_tasks = ts1 @ (case t' of None \<Rightarrow> [] | Some tk' \<Rightarrow> [tk']) @ ts2\<rparr>"

section \<open>What the other calls keep\<close>

definition runtime_same :: "Memory \<Rightarrow> Memory \<Rightarrow> bool" where
  "runtime_same m m' \<longleftrightarrow> m_operations m' = m_operations m \<and> m_idempotency m' = m_idempotency m \<and>
     m_servers m' = m_servers m \<and> m_serverOrder m' = m_serverOrder m \<and> m_nodes m' = m_nodes m \<and>
     m_allocations m' = m_allocations m \<and> m_allocationOrder m' = m_allocationOrder m \<and> m_games m' = m_games m \<and>
     m_startups m' = m_startups m \<and> m_startupValues m' = m_startupValues m \<and> m_backups m' = m_backups m \<and>
     m_backupChecksums m' = m_backupChecksums m \<and> m_backupOperations m' = m_backupOperations m \<and>
     m_backupDeleteFrom m' = m_backupDeleteFrom m \<and> m_requestDigestKey m' = m_requestDigestKey m"

lemma runtime_same_refl [simp]: "runtime_same m m"
  by (simp add: runtime_same_def)

lemma runtime_same_trans: "runtime_same a b \<Longrightarrow> runtime_same b c \<Longrightarrow> runtime_same a c"
  by (simp add: runtime_same_def)

lemma runtime_same_updates [simp]:
  "runtime_same m (n\<lparr>m_users := x1\<rparr>) = runtime_same m n"
  "runtime_same m (n\<lparr>m_userOrder := x2\<rparr>) = runtime_same m n"
  "runtime_same m (n\<lparr>m_userByEmail := x3\<rparr>) = runtime_same m n"
  "runtime_same m (n\<lparr>m_sessions := x4\<rparr>) = runtime_same m n"
  "runtime_same m (n\<lparr>m_memberships := x5\<rparr>) = runtime_same m n"
  "runtime_same m (n\<lparr>m_passwordResetTokens := x6\<rparr>) = runtime_same m n"
  "runtime_same m (n\<lparr>m_apiTokens := x7\<rparr>) = runtime_same m n"
  "runtime_same m (n\<lparr>m_apiTokenByDigest := x8\<rparr>) = runtime_same m n"
  "runtime_same m (n\<lparr>m_consoleTokens := x9\<rparr>) = runtime_same m n"
  "runtime_same m (n\<lparr>m_setupRequired := x10\<rparr>) = runtime_same m n"
  "runtime_same m (n\<lparr>m_bootstrapToken := x11\<rparr>) = runtime_same m n"
  "runtime_same m (n\<lparr>m_bootstrapExpiresAt := x12\<rparr>) = runtime_same m n"
  "runtime_same m (n\<lparr>m_revokedNodes := x13\<rparr>) = runtime_same m n"
  "runtime_same m (n\<lparr>m_enrollmentTokens := x14\<rparr>) = runtime_same m n"
  "runtime_same m (n\<lparr>m_runtimeAdapter := x15\<rparr>) = runtime_same m n"
  "runtime_same m (n\<lparr>m_console := x16\<rparr>) = runtime_same m n"
  "runtime_same m (n\<lparr>m_consoleHub := x17\<rparr>) = runtime_same m n"
  "runtime_same m (n\<lparr>m_audit := x18\<rparr>) = runtime_same m n"
  by (simp_all add: runtime_same_def)

lemma runtime_same_audit [simp]: "runtime_same m (recordAuditLocked i t a b c d r o' n) = runtime_same m n"
  by (simp add: recordAuditLocked_def)

lemma runtime_same_revoke [simp]:
  "runtime_same m (revokeUserSessionsLocked i n) = runtime_same m n"
  "runtime_same m (revokePasswordResetTokensLocked i n) = runtime_same m n"
  by (simp_all add: revokeUserSessionsLocked_def revokePasswordResetTokensLocked_def Let_def)

lemma identity_runtime: "identity_step L m m' \<Longrightarrow> runtime_same m m'"
proof (induction rule: identity_step.induct)
  case login then show ?case by (auto simp: login_commit_def login_refused_def Let_def split: if_splits option.splits)
next
  case authenticate then show ?case by (auto simp: AuthenticateSession_def Let_def split: option.splits)
next
  case recover then show ?case by (auto simp: RecoverSession_def Let_def split: option.splits)
next
  case logout then show ?case by (auto simp: Logout_def Let_def split: option.splits)
next
  case first_admin then show ?case by (auto simp: setup_commit_def add_user_def Let_def split: option.splits)
next
  case create_user then show ?case by (auto simp: create_user_commit_def add_user_def Let_def split: option.splits if_splits)
next
  case update_user then show ?case by (auto simp: UpdateUser_def Let_def split: option.splits sum.splits if_splits prod.splits)
next
  case issue_reset then show ?case by (auto simp: IssuePasswordResetToken_def Let_def split: option.splits if_splits)
next
  case drop_reset then show ?case by simp
next
  case reset then show ?case by (auto simp: reset_commit_def Let_def split: option.splits)
next
  case create_token then show ?case by (auto simp: CreateAPIToken_def Let_def split: option.splits sum.splits if_splits)
next
  case revoke_token then show ?case by (auto simp: RevokeAPIToken_def Let_def split: option.splits sum.splits if_splits)
next
  case use_token then show ?case by (auto simp: AuthenticateAPIToken_def Let_def split: option.splits sum.splits if_splits)
next
  case issue_console then show ?case by (auto simp: IssueConsoleConnectionToken_def Let_def split: option.splits sum.splits if_splits)
next
  case use_console then show ?case by (auto simp: ConsumeConsoleConnectionToken_def Let_def split: option.splits sum.splits if_splits)
qed

lemma normal_everywhere:
  assumes "ledger_ok m" "(i, p) \<in> set (m_operations m)"
  shows "normalizeOperationMetadata p = p"
  using assms mget_Some_iff [of "m_operations m" i p] by (auto simp: ledger_ok_def op_ok_def)

lemma get_operation_same: "ledger_ok m \<Longrightarrow> get_operation i m = (r, m') \<Longrightarrow> m' = m"
  by (auto simp: get_operation_def ledger_ok_def op_ok_def mput_same split: option.splits)

lemma list_operations_same:
  assumes "ledger_ok m" "VisibleOperations i m = (r, m')"
  shows "m' = m"
proof -
  have "mmap (\<lambda>_ p. if visible p then normalizeOperationMetadata p else p) (m_operations m) = m_operations m" for visible
    using normal_everywhere [OF assms(1)] by (auto simp: mmap_def intro!: map_idI)
  with assms(2) show ?thesis by (auto simp: VisibleOperations_def Let_def split: option.splits if_splits)
qed

text \<open>Every other call leaves the whole operational part alone, applies the heartbeat timeout, or is
  a heartbeat.\<close>

lemma other_cases:
  assumes "other_call L m m'" "ledger_ok m"
  shows "runtime_same m m' \<or> (\<exists>now. m' = reconcileNodeLivenessLocked now m) \<or>
    (\<exists>now name version. m' = snd (Heartbeat now name version m))"
  using assms
proof (induction rule: other_call.induct)
  case liveness then show ?case by blast
next
  case heartbeat then show ?case by (metis snd_conv)
next
  case revoke then show ?case by (auto simp: RevokeNode_def split: if_splits)
next
  case command then show ?case by (auto simp: SendConsoleCommand_def Let_def split: if_splits sum.splits option.splits)
next
  case command_result then show ?case by (auto simp: RecordConsoleCommandResult_def split: sum.splits option.splits)
next
  case get_op then show ?case using get_operation_same runtime_same_refl by metis
next
  case list_ops then show ?case using list_operations_same runtime_same_refl by metis
next
  case enable then show ?case by (auto simp: EnableRealRuntime_def split: if_splits)
next
  case disable then show ?case by (simp add: DisableRealRuntime_def)
next
  case (file_mutation now)
  then show ?case
    by (auto simp: beginFileMutation_def Let_def split: sum.splits option.splits if_splits)
next
  case membership then show ?case by (auto simp: PutServerMembership_def Let_def split: sum.splits option.splits if_splits)
next
  case no_membership then show ?case by (auto simp: DeleteServerMembership_def split: option.splits if_splits)
next
  case enroll then show ?case by (auto simp: IssueEnrollmentToken_def Let_def split: sum.splits)
next
  case enrolled then show ?case by (auto simp: ConsumeEnrollmentToken_def Let_def split: option.splits if_splits)
next
  case identity then show ?case by (simp add: identity_runtime)
qed

lemma nodes_ok_reconcile [simp]: "nodes_ok m \<Longrightarrow> nodes_ok (reconcileNodeLivenessLocked now m)"
  by (auto simp: nodes_ok_def nodes_named_def reconcileNodeLivenessLocked_def split: if_splits)

lemma heartbeat_nodes:
  assumes "nodes_ok m"
  shows "nodes_ok (snd (Heartbeat now name version m))"
proof (cases "find (\<lambda>(_, node). n_Name node = name) (m_nodes m)")
  case (Some x)
  obtain i n where x: "x = (i, n)" by (cases x)
  from Some x have "(i, n) \<in> set (m_nodes m)" by (auto simp: find_Some_iff) (metis nth_mem)
  with assms have "n_ID n = i" by (metis mget_Some_iff nodes_named_def nodes_ok_def)
  with assms Some x show ?thesis by (auto simp: Heartbeat_def nodes_ok_def nodes_named_def)
qed (use assms in \<open>simp add: Heartbeat_def\<close>)

lemma heartbeat_frame [simp]:
  "m_operations (snd (Heartbeat now name version m)) = m_operations m"
  "m_idempotency (snd (Heartbeat now name version m)) = m_idempotency m"
  "m_allocations (snd (Heartbeat now name version m)) = m_allocations m"
  "m_allocationOrder (snd (Heartbeat now name version m)) = m_allocationOrder m"
  "m_backups (snd (Heartbeat now name version m)) = m_backups m"
  "m_backupChecksums (snd (Heartbeat now name version m)) = m_backupChecksums m"
  "m_backupOperations (snd (Heartbeat now name version m)) = m_backupOperations m"
  "m_backupDeleteFrom (snd (Heartbeat now name version m)) = m_backupDeleteFrom m"
  "m_startups (snd (Heartbeat now name version m)) = m_startups m"
  "m_startupValues (snd (Heartbeat now name version m)) = m_startupValues m"
  "m_games (snd (Heartbeat now name version m)) = m_games m"
  by (simp_all add: Heartbeat_def split: option.split prod.split)

lemma heartbeat_views [simp]: "sviews (m_servers (snd (Heartbeat now name version m))) = sviews (m_servers m)"
  by (auto simp: Heartbeat_def sviews_def option.map_comp fun_eq_iff intro!: option.map_cong split: option.split prod.split)

lemma nodes_ok_same: "m_nodes m' = m_nodes m \<Longrightarrow> nodes_ok m' = nodes_ok m"
  by (simp add: nodes_ok_def nodes_named_def)

lemma other_quiet:
  assumes "other_call L m m'" "ledger_ok m" "nodes_ok m"
  shows "quiet m m' \<and> nodes_ok m'"
  using other_cases [OF assms(1,2)] assms(3) heartbeat_nodes [OF assms(3)] nodes_ok_same [of m' m]
  by (auto simp: quiet_def runtime_same_def)

section \<open>The shape of the handlers\<close>

text \<open>A call that starts no goroutine has applied the heartbeat timeout at most, and may have recorded
  a key for an operation that was already there.\<close>

definition calm :: "Memory \<Rightarrow> Memory \<Rightarrow> bool" where
  "calm m m' \<longleftrightarrow> (\<exists>m1. (m1 = m \<or> (\<exists>now. m1 = reconcileNodeLivenessLocked now m)) \<and>
     (m' = m1 \<or> (\<exists>scope digest p. m' = join_operation scope digest p m1)))"

lemma calmI [simp]:
  "calm m m" "calm m (reconcileNodeLivenessLocked now m)"
  "calm m (join_operation scope digest p m)" "calm m (join_operation scope digest p (reconcileNodeLivenessLocked now m))"
  unfolding calm_def by blast+

definition shape :: "(task \<Rightarrow> Memory \<Rightarrow> bool) \<Rightarrow> Memory \<Rightarrow> handled \<Rightarrow> bool" where
  "shape P m h \<longleftrightarrow> (case h of (_, None, m') \<Rightarrow> calm m m' | (_, Some tk, m') \<Rightarrow> P tk m')"

lemma shape_simps [simp]: "shape P m (r, None, m') = calm m m'" "shape P m (r, Some tk, m') = P tk m'"
  by (simp_all add: shape_def)

lemmas shape_intros = handled_intros [where P = "shape P m" for P m]

lemma shape_cases:
  assumes "shape P m h" "h = (r, t, m')"
  obtains (calm) "t = None" "calm m m'" | (acted) tk where "t = Some tk" "P tk m'"
  using assms by (cases t) auto

definition created :: "lib \<Rightarrow> env \<Rightarrow> CreateServerInput \<Rightarrow> string \<Rightarrow> Memory \<Rightarrow> task \<Rightarrow> Memory \<Rightarrow> bool" where
  "created L e inp0 key m tk m' \<longleftrightarrow>
     (\<exists>inp node game port portRef protocol firstPort containerPort role owner startup startupValues a v p scope digest m1 name i.
        m1 = reconcileNodeLivenessLocked (clk e 0) m \<and> validate_create inp0 key = Inr inp \<and>
        placement inp m1 = Inr (node, game) \<and>
        nextAllocationPortLocked (n_ID node) (n_Address node) protocol firstPort m1 = Some port \<and>
        a = \<lparr>al_ID = uuid e 2, al_ServerID = uuid e 0, al_NodeID = n_ID node, al_BindIP = n_Address node,
           al_Port = port, al_Protocol = protocol, al_PortRef = portRef, al_ContainerPort = containerPort,
           al_Role = role, al_Primary = True, al_CreatedAt = clk e 0, al_UpdatedAt = clk e 0\<rparr> \<and>
        v = new_server (clk e 0) (uuid e 0) inp node game (allocationAddress a) owner \<and>
        initial_startup L inp v game = Inr (startup, startupValues) \<and>
        m' = recordAuditLocked (uuid e 3) (clk e 1) owner ''server.create'' ''server'' name ''accepted'' i
          (queue_operation scope digest p (install_server v a startup startupValues inp node game m1)) \<and> tk_job tk = JobProvision)"

lemma CreateServer_shape: "shape (created L e inp0 key m) m (CreateServer L e disk inp0 key actor m)"
  unfolding CreateServer_def
  apply (intro shape_intros)
  apply simp_all
  unfolding created_def
  apply (intro exI conjI)
  apply (rule refl | assumption | simp)+
  done

text \<open>The other handlers store a changed server, and the backup handlers a changed backup list.\<close>

definition powered_on :: "string \<Rightarrow> Memory \<Rightarrow> task \<Rightarrow> Memory \<Rightarrow> bool" where
  "powered_on s m tk m' \<longleftrightarrow>
     (\<exists>now v v' p scope digest a1 a2 a3 a4 a5 a6 a7 a8 m1.
        m1 = reconcileNodeLivenessLocked now m \<and> mget (m_servers m1) s = Some v \<and>
        m' = recordAuditLocked a1 a2 a3 a4 a5 a6 a7 a8
          ((queue_operation scope digest p m1)\<lparr>m_servers := mput s v' (m_servers m1)\<rparr>) \<and>
        srv_Allocation v' = srv_Allocation v \<and> srv_NodeID v' = srv_NodeID v \<and> srv_ID v' = srv_ID v \<and> (\<exists>a. tk_job tk = JobPower a))"

lemma power_requested_address [simp]:
  "srv_Allocation (power_requested a v) = srv_Allocation v" "srv_ID (power_requested a v) = srv_ID v"
  by (simp_all add: power_requested_def)

lemma RequestPower_shape: "shape (powered_on s m) m (RequestPower L e s a key actor m)"
  unfolding RequestPower_def
  apply (intro shape_intros)
  apply simp_all
  unfolding powered_on_def
  apply (intro exI conjI)
  apply (rule refl | assumption | simp)+
  done

definition mutated :: "(reconcileMutation \<Rightarrow> bool) \<Rightarrow> string \<Rightarrow> Memory \<Rightarrow> task \<Rightarrow> Memory \<Rightarrow> bool" where
  "mutated M s m tk m' \<longleftrightarrow>
     (\<exists>now v v' m2 g c u p scope digest a1 a2 a3 a4 a5 a6 a7 a8 m1 mutate.
        m1 = reconcileNodeLivenessLocked now m \<and> mget (m_servers m1) s = Some v \<and> M mutate \<and>
        mutate now v m1 = Inr (v', m2) \<and>
        m' = recordAuditLocked a1 a2 a3 a4 a5 a6 a7 a8 (queue_operation scope digest p (m2\<lparr>m_servers := mput s
          (v'\<lparr>srv_Generation := g, srv_NodeCondition := c, srv_UpdatedAt := u\<rparr>) (m_servers m2)\<rparr>)) \<and>
        (\<exists>a b. tk_job tk = JobReconcile a b))"

lemma requestReconcile_shape:
  "M mutate \<Longrightarrow> shape (mutated M s m) m (requestReconcile e s g key scope digest actor permission action mutate m)"
  unfolding requestReconcile_def
  apply (intro shape_intros)
  apply simp_all
  unfolding mutated_def
  apply (intro exI conjI)
  apply (rule refl | assumption)+
  apply simp
  done

definition backed_up :: "lib \<Rightarrow> env \<Rightarrow> string \<Rightarrow> Memory \<Rightarrow> task \<Rightarrow> Memory \<Rightarrow> bool" where
  "backed_up L e s m tk m' \<longleftrightarrow>
     (\<exists>(u :: User) v name p scope digest a1 a2 a3 a4 a5 a6 a7 a8 m1.
        m1 = reconcileNodeLivenessLocked (clk e 0) m \<and> mget (m_servers m1) s = Some v \<and>
        m' = recordAuditLocked a1 a2 a3 a4 a5 a6 a7 a8 (queue_operation scope digest p
          (m1\<lparr>m_backups := mput s (new_backup (uuid e (Suc 0)) name (clk e (Suc 0)) # mget_zero [] (m_backups m) s) (m_backups m),
              m_backupOperations := mput (uuid e 0) (uuid e (Suc 0)) (m_backupOperations m)\<rparr>)) \<and>
        op_ID p = uuid e 0 \<and>
        tk = \<lparr>tk_operationID = uuid e 0, tk_serverID = s, tk_job = JobBackup (u_DisplayName u), tk_phase = Spawned\<rparr>)"

lemma new_backup_sel [simp]:
  "b_ID (new_backup i n now) = i" "b_Status (new_backup i n now) = ''creating''" "b_Checksum (new_backup i n now) = None"
  by (simp_all add: new_backup_def)

lemma CreateBackup_shape: "shape (backed_up L e s m) m (CreateBackup L e s key actor m)"
  unfolding CreateBackup_def
  apply (intro shape_intros)
  apply simp_all
  unfolding backed_up_def
  apply (intro exI conjI)
  apply (rule refl | assumption | simp)+
  done

definition restoring :: "string \<Rightarrow> string \<Rightarrow> Memory \<Rightarrow> task \<Rightarrow> Memory \<Rightarrow> bool" where
  "restoring s b m tk m' \<longleftrightarrow>
     (\<exists>(u :: User) now v v' i backup p scope digest a1 a2 a3 a4 a5 a6 a7 a8 m1.
        m1 = reconcileNodeLivenessLocked now m \<and> restore_target s b m1 = Inr (v, i, backup) \<and>
        m' = recordAuditLocked a1 a2 a3 a4 a5 a6 a7 a8 (queue_operation scope digest p
          (set_backup s i (backup\<lparr>b_Status := ''restoring''\<rparr>) (m1\<lparr>m_servers := mput s v' (m_servers m1)\<rparr>))) \<and>
        srv_Allocation v' = srv_Allocation v \<and> srv_NodeID v' = srv_NodeID v \<and> srv_ID v' = srv_ID v \<and>
        tk = \<lparr>tk_operationID = op_ID p, tk_serverID = s, tk_job = JobRestoreBackup b (u_DisplayName u), tk_phase = Spawned\<rparr>)"

lemma RestoreBackup_shape: "shape (restoring s b m) m (RestoreBackup L e s b key actor m)"
  unfolding RestoreBackup_def
  apply (intro shape_intros)
  apply simp_all
  unfolding restoring_def
  apply (intro exI conjI)
  apply (rule refl | assumption | simp)+
  done

definition discarding :: "string \<Rightarrow> string \<Rightarrow> Memory \<Rightarrow> task \<Rightarrow> Memory \<Rightarrow> bool" where
  "discarding s b m tk m' \<longleftrightarrow>
     (\<exists>(u :: User) v i i0 backup p scope digest a1 a2 a3 a4 a5 a6 a7 a8.
        delete_target s b m = Inr (v, i, backup) \<and>
        m' = recordAuditLocked a1 a2 a3 a4 a5 a6 a7 a8 (queue_operation scope digest p
          (set_backup s i (backup\<lparr>b_Status := ''deleting''\<rparr>)
            (m\<lparr>m_backupDeleteFrom := mput i0 (b_Status backup) (m_backupDeleteFrom m)\<rparr>))) \<and> op_ID p = i0 \<and>
        tk = \<lparr>tk_operationID = i0, tk_serverID = s, tk_job = JobDeleteBackup b (u_DisplayName u), tk_phase = Spawned\<rparr>)"

lemma DeleteBackup_shape: "shape (discarding s b m) m (DeleteBackup L e s b key actor m)"
  unfolding DeleteBackup_def
  apply (intro shape_intros)
  apply simp_all
  unfolding discarding_def
  apply (intro exI conjI)
  apply (rule refl | assumption | simp)+
  done

end
