(* ===== verification/World_Invariant.thy ===== *)
theory World_Invariant
  imports World_Steps
begin

text \<open>
  Every step of the world keeps \<open>world_ok\<close>: unfinished operations and goroutines correspond one to
  one, a server has at most one unfinished operation, and that operation is meant for the current
  generation and node of its server. Goroutine sections always make progress, so the goroutines
  finish and leave only finished operations.
\<close>


section \<open>Handlers\<close>

lemma fresh_not_active:
  assumes "\<not> mhas (m_servers m) s" 
    "\<And>i p. mget (m_operations m) i = Some p \<Longrightarrow> \<not> isTerminalOperation (op_Status p) \<Longrightarrow> sviews (m_servers m) (op_ServerID p) \<noteq> None"
    "ledger_ok m"
  shows "activeExclusiveOperationLocked m s = None"
proof (cases "activeExclusiveOperationLocked m s")
  case (Some p)
  from active_Some [OF this assms(3)] have "mget (m_operations m) (op_ID p) = Some p" "\<not> isTerminalOperation (op_Status p)" "op_ServerID p = s"
    by (auto simp: blocks_server_def)
  with assms(1,2) show ?thesis by (force simp: sviews_def mhas_def)
qed

text \<open>A handler either starts nothing or queues a fresh operation together with its goroutine.\<close>

definition accepted :: "Memory \<Rightarrow> task option \<Rightarrow> Memory \<Rightarrow> bool" where
  "accepted m t m' \<longleftrightarrow> (t = None \<and> quiet m m') \<or>
     (\<exists>tk p scope digest. t = Some tk \<and> \<not> mhas (m_operations m) (op_ID p) \<and> queued scope digest p tk m m')"

context operation_handler
begin

lemma handled_accepted:
  assumes "ledger_ok m" "pre e m" "\<not> mhas (m_operations m) (opid e)" "handle e m = (r, t, m')"
  shows "accepted m t m'"
  using assms(1,2,4)
proof (cases rule: handled_cases)
  case quiet
  then show ?thesis by (simp add: accepted_def)
next
  case (queued p tk)
  with assms(3) show ?thesis unfolding accepted_def by metis
qed

end

lemma store_call_accepted:
  assumes "store_call L m t m'" "ledger_ok m" "nodes_ok m"
    "\<And>i p. mget (m_operations m) i = Some p \<Longrightarrow> \<not> isTerminalOperation (op_Status p) \<Longrightarrow> sviews (m_servers m) (op_ServerID p) \<noteq> None"
  shows "accepted m t m'"
proof -
  have named: "nodes_named m" using assms(3) by (simp add: nodes_ok_def)
  have fresh: "\<not> mhas (m_operations m) (uuid e j)" "\<not> mhas (m_servers m) (uuid e j)" if "fresh_ids e m" for e j
    using that by (simp_all add: fresh_ids_def)
  from assms(1) show ?thesis
  proof cases
    case (create e disk inp key actor r)
    from create.handled_accepted [OF assms(2) fresh_not_active [OF fresh(2) [OF create(2)] assms(4,2)] fresh(1) [OF create(2)] create(1)]
    show ?thesis .
  next
    case (power e s a key actor r)
    from power.handled_accepted [OF assms(2) TrueI fresh(1) [OF power(2)] power(1)] show ?thesis .
  next
    case (allocate e s ai g key actor r)
    from allocate.handled_accepted [OF assms(2) named fresh(1) [OF allocate(2)] allocate(1)] show ?thesis .
  next
    case (primary e s i g key actor r)
    from primary.handled_accepted [OF assms(2) named fresh(1) [OF primary(2)] primary(1)] show ?thesis .
  next
    case (deallocate e s i g key actor r)
    from deallocate.handled_accepted [OF assms(2) named fresh(1) [OF deallocate(2)] deallocate(1)] show ?thesis .
  next
    case (startup e s updates g key actor r)
    from startup.handled_accepted [OF assms(2) named fresh(1) [OF startup(2)] startup(1)] show ?thesis .
  next
    case (backup e s key actor r)
    from backup.handled_accepted [OF assms(2) TrueI fresh(1) [OF backup(2)] backup(1)] show ?thesis .
  next
    case (restore e s i key actor r)
    from restore.handled_accepted [OF assms(2) TrueI fresh(1) [OF restore(2)] restore(1)] show ?thesis .
  next
    case (discard e s i key actor r)
    from discard.handled_accepted [OF assms(2) TrueI fresh(1) [OF discard(2)] discard(1)] show ?thesis .
  qed
qed

section \<open>Nodes\<close>

lemma calm_frame:
  assumes "calm m m'"
  shows "m_allocations m' = m_allocations m \<and> m_allocationOrder m' = m_allocationOrder m \<and> m_backups m' = m_backups m \<and>
     m_backupChecksums m' = m_backupChecksums m \<and> m_backupOperations m' = m_backupOperations m \<and>
     m_backupDeleteFrom m' = m_backupDeleteFrom m \<and>
     (m_nodes m' = m_nodes m \<and> m_servers m' = m_servers m \<or>
      (\<exists>now. m_nodes m' = m_nodes (reconcileNodeLivenessLocked now m) \<and> m_servers m' = m_servers (reconcileNodeLivenessLocked now m)))"
  using assms by (auto simp: calm_def)

lemma nodes_ok_calm:
  assumes "calm m m'" "nodes_ok m"
  shows "nodes_ok m'"
  using calm_frame [OF assms(1)] nodes_ok_same [of m' m] nodes_ok_same [of m' "reconcileNodeLivenessLocked now m" for now] assms(2)
  by auto

lemma placement_node:
  assumes "placement inp m = Inr (node, game)"
  shows "mget (m_nodes m) (csi_NodeID inp) = Some node" "mget (m_games m) (csi_GameDefinitionID inp) = Some game"
    "memory_bytes inp \<le> n_MemoryBytes node - n_AllocatedMemoryBytes node"
    "disk_bytes inp \<le> n_DiskBytes node - n_AllocatedDiskBytes node"
  using assms by (auto simp: placement_def split: option.splits if_splits)

lemma created_nodes:
  assumes "created L e inp0 key m tk m'" "nodes_ok m"
  shows "nodes_ok m'"
proof -
  from assms(1) obtain inp node game now m1 where "m1 = reconcileNodeLivenessLocked now m" "placement inp m1 = Inr (node, game)"
    "m_nodes m' = mput (n_ID node) (node\<lparr>n_AllocatedMemoryBytes := n_AllocatedMemoryBytes node + memory_bytes inp,
          n_AllocatedDiskBytes := n_AllocatedDiskBytes node + disk_bytes inp,
          n_TotalServers := n_TotalServers node + 1\<rparr>) (m_nodes m1)"
    by (auto simp: created_def install_server_def)
  moreover from this assms(2) have "nodes_ok m1" by simp
  ultimately show ?thesis by (auto simp: nodes_ok_def nodes_named_def)
qed


section \<open>The shape of every call\<close>

definition server_mutation :: "lib \<Rightarrow> env \<Rightarrow> string \<Rightarrow> reconcileMutation \<Rightarrow> bool" where
  "server_mutation L e s f \<longleftrightarrow> (\<exists>inp inp0. normalizeAllocationInput L inp0 = Inr inp \<and> f = add_allocation (uuid e 2) s inp) \<or>
     (\<exists>i. f = make_primary i s) \<or> (\<exists>i. f = remove_allocation i s) \<or> (\<exists>updates. f = change_startup L s updates)"

lemma mutation_shapes:
  "shape (mutated (server_mutation L e s) s m) m (CreateAllocation L e s inp g key actor m)"
  "shape (mutated (server_mutation L e s) s m) m (SetPrimaryAllocation L e s i g key actor m)"
  "shape (mutated (server_mutation L e s) s m) m (DeleteAllocation L e s i g key actor m)"
  "shape (mutated (server_mutation L e s) s m) m (UpdateStartup L e s updates g key actor m)"
  unfolding CreateAllocation_def SetPrimaryAllocation_def DeleteAllocation_def UpdateStartup_def
  by (intro shape_intros requestReconcile_shape; auto simp: server_mutation_def)+

lemma store_call_shape:
  assumes "store_call L m t m'"
  obtains (calm) "t = None" "calm m m'"
  | (create) tk e inp key where "t = Some tk" "fresh_ids e m" "created L e inp key m tk m'"
  | (power) tk s where "t = Some tk" "powered_on s m tk m'"
  | (mutate) tk e s where "t = Some tk" "fresh_ids e m" "mutated (server_mutation L e s) s m tk m'"
  | (backup) tk e s where "t = Some tk" "fresh_ids e m" "backed_up L e s m tk m'"
  | (restore) tk s b where "t = Some tk" "restoring s b m tk m'"
  | (discard) tk s b where "t = Some tk" "discarding s b m tk m'"
  using assms
proof cases
  case (create e disk inp key actor r)
  with that show thesis by (metis CreateServer_shape shape_cases)
next
  case (power e s a key actor r)
  with that show thesis by (metis RequestPower_shape shape_cases)
next
  case (allocate e s ai g key actor r)
  with that show thesis by (metis mutation_shapes(1) shape_cases)
next
  case (primary e s i g key actor r)
  with that show thesis by (metis mutation_shapes(2) shape_cases)
next
  case (deallocate e s i g key actor r)
  with that show thesis by (metis mutation_shapes(3) shape_cases)
next
  case (startup e s updates g key actor r)
  with that show thesis by (metis mutation_shapes(4) shape_cases)
next
  case (backup e s key actor r)
  with that show thesis by (metis CreateBackup_shape shape_cases)
next
  case (restore e s i key actor r)
  with that show thesis by (metis RestoreBackup_shape shape_cases)
next
  case (discard e s i key actor r)
  with that show thesis by (metis DeleteBackup_shape shape_cases)
qed

lemma mutation_frame:
  assumes "server_mutation L e s f" "f now v m = Inr (v', m')"
  shows "m_nodes m' = m_nodes m \<and> m_servers m' = m_servers m \<and> m_operations m' = m_operations m \<and> m_backups m' = m_backups m \<and>
    m_backupChecksums m' = m_backupChecksums m \<and> m_backupOperations m' = m_backupOperations m \<and>
    m_backupDeleteFrom m' = m_backupDeleteFrom m \<and> srv_NodeID v' = srv_NodeID v"
  using assms
  by (auto simp: server_mutation_def add_allocation_def make_primary_def remove_allocation_def change_startup_def Let_def
      split: if_splits option.splits sum.splits prod.splits)

lemma mutated_nodes:
  assumes "mutated (server_mutation L e s) s m tk m'"
  shows "\<exists>now. m_nodes m' = m_nodes (reconcileNodeLivenessLocked now m)"
  using assms mutation_frame unfolding mutated_def by (fastforce intro: exI)

lemma nodes_ok_via: "m_nodes m' = m_nodes (reconcileNodeLivenessLocked now m) \<Longrightarrow> nodes_ok m \<Longrightarrow> nodes_ok m'"
  using nodes_ok_same [of m' "reconcileNodeLivenessLocked now m"] by simp

lemma store_call_nodes:
  assumes "store_call L m t m'" "nodes_ok m"
  shows "nodes_ok m'"
  using assms(1)
proof (cases rule: store_call_shape)
  case calm show ?thesis by (rule nodes_ok_calm [OF calm(2) assms(2)])
next
  case create with assms(2) show ?thesis by (simp add: created_nodes)
next
  case (mutate tk e s)
  with assms(2) show ?thesis by (metis mutated_nodes nodes_ok_via)
next
  case power
  then obtain now where "m_nodes m' = m_nodes (reconcileNodeLivenessLocked now m)" by (auto simp: powered_on_def)
  with assms(2) show ?thesis by (rule nodes_ok_via [rotated])
next
  case backup
  then obtain now where "m_nodes m' = m_nodes (reconcileNodeLivenessLocked now m)" by (auto simp: backed_up_def)
  with assms(2) show ?thesis by (rule nodes_ok_via [rotated])
next
  case restore
  then obtain now where "m_nodes m' = m_nodes (reconcileNodeLivenessLocked now m)" by (auto simp: restoring_def)
  with assms(2) show ?thesis by (rule nodes_ok_via [rotated])
next
  case discard
  then have "m_nodes m' = m_nodes m" by (auto simp: discarding_def)
  with assms(2) show ?thesis using nodes_ok_same by blast
qed

section \<open>The invariant is preserved\<close>

lemma world_okI:
  assumes "ledger_ok m" "nodes_ok m" "distinct (map tk_operationID ts)" "list_all (task_ok m) ts"
    "\<And>i p. mget (m_operations m) i = Some p \<Longrightarrow> isExclusiveOperation (op_Type p)"
    "\<And>i p. mget (m_operations m) i = Some p \<Longrightarrow> \<not> isTerminalOperation (op_Status p) \<Longrightarrow> i \<in> tk_operationID ` set ts"
    "\<And>i p. mget (m_operations m) i = Some p \<Longrightarrow> \<not> isTerminalOperation (op_Status p) \<Longrightarrow>
      sviews (m_servers m) (op_ServerID p) = Some (op_Generation p, op_NodeID p)"
  shows "world_ok \<lparr>w_store = m, w_tasks = ts\<rparr>"
  using assms unfolding world_ok_def Let_def by auto

lemma world_okE:
  assumes "world_ok \<lparr>w_store = m, w_tasks = ts\<rparr>"
  shows "ledger_ok m" "nodes_ok m" "distinct (map tk_operationID ts)" "list_all (task_ok m) ts"
    "mget (m_operations m) i = Some p \<Longrightarrow> isExclusiveOperation (op_Type p)"
    "mget (m_operations m) i = Some p \<Longrightarrow> \<not> isTerminalOperation (op_Status p) \<Longrightarrow> i \<in> tk_operationID ` set ts"
    "mget (m_operations m) i = Some p \<Longrightarrow> \<not> isTerminalOperation (op_Status p) \<Longrightarrow>
      sviews (m_servers m) (op_ServerID p) = Some (op_Generation p, op_NodeID p)"
  using assms unfolding world_ok_def Let_def by auto

lemma task_ok_same: "m_operations m' = m_operations m \<Longrightarrow> task_ok m' = task_ok m"
  by (simp add: task_ok_def fun_eq_iff)

lemma quiet_world:
  assumes "world_ok \<lparr>w_store = m, w_tasks = ts\<rparr>" "quiet m m'" "nodes_ok m'"
  shows "world_ok \<lparr>w_store = m', w_tasks = ts\<rparr> \<and> ledger_le m m'"
proof -
  note w = world_okE [OF assms(1)]
  from assms(2) have q: "m_operations m' = m_operations m" "sviews (m_servers m') = sviews (m_servers m)"
    by (simp_all add: quiet_def)
  have l: "ledger_ok m' \<and> ledger_le m m'"
    using ledger_same [of m' m] ledger_join [OF w(1)] w(1) assms(2) unfolding quiet_def by blast
  then show ?thesis
    by (intro conjI world_okI) (use w q task_ok_same [OF q(1)] assms(3) in auto)
qed

lemma task_ok_other:
  "task_ok m tk \<Longrightarrow> m_operations m' = mput i q (m_operations m) \<Longrightarrow> i \<noteq> tk_operationID tk \<Longrightarrow> task_ok m' tk"
  by (auto simp: task_ok_def)

lemma task_ok_in: "task_ok m tk \<Longrightarrow> mhas (m_operations m) (tk_operationID tk)"
  by (auto simp: task_ok_def mhas_def)

lemma queued_world:
  assumes "world_ok \<lparr>w_store = m, w_tasks = ts\<rparr>" "queued scope digest p tk m m'" "\<not> mhas (m_operations m) (op_ID p)" "nodes_ok m'"
  shows "world_ok \<lparr>w_store = m', w_tasks = ts @ [tk]\<rparr> \<and> ledger_le m m'"
proof -
  note w = world_okE [OF assms(1)]
  note q = assms(2) [unfolded queued_def]
  have l: "ledger_ok m' \<and> ledger_le m m'"
    using w(1) assms(3) q
    by (intro ledger_queue [of m p m' scope "\<lparr>ir_OperationID = op_ID p, ir_RequestDigest = digest\<rparr>"]) (auto simp: blocks_server_def)
  have new: "op_ID p \<notin> tk_operationID ` set ts" 
    using w(4) assms(3) task_ok_in [of m] by (force simp: list_all_iff)
  have others: "list_all (task_ok m') ts"
    unfolding list_all_iff
  proof
    fix x assume x: "x \<in> set ts"
    show "task_ok m' x"
      by (rule task_ok_other [of m x m' "op_ID p" p]) (use x w(4) new q in \<open>auto simp: list_all_iff\<close>)
  qed
  have mine: "task_ok m' tk" using q by (simp add: task_ok_def)
  have idle: "op_ServerID p' \<noteq> op_ServerID p" if "mget (m_operations m) i = Some p'" "\<not> isTerminalOperation (op_Status p')" for i p'
    using active_None [OF _ that(1), of "op_ServerID p"] q w(5) [OF that(1)] that(2) by (auto simp: blocks_server_def)
  have views: "sviews (m_servers m') (op_ServerID p') = Some (op_Generation p', op_NodeID p')"
    if "mget (m_operations m') i = Some p'" "\<not> isTerminalOperation (op_Status p')" for i p'
    using that q idle [of i p'] w(7) [of i p'] by (auto split: if_splits)
  show ?thesis
    by (intro conjI world_okI) (use l w q new others mine views assms(4) in \<open>auto split: if_splits\<close>)
qed


text \<open>What no section changes of a server.\<close>

definition srv_face :: "Server \<Rightarrow> string \<times> string" where
  "srv_face v = (srv_ID v, srv_Allocation v)"

lemma srv_face_updates [simp]:
  "srv_face (v\<lparr>srv_ObservedGeneration := x1\<rparr>) = srv_face v" "srv_face (v\<lparr>srv_ObservedAt := x2\<rparr>) = srv_face v"
  "srv_face (v\<lparr>srv_UpdatedAt := x2\<rparr>) = srv_face v" "srv_face (v\<lparr>srv_Metadata := x3\<rparr>) = srv_face v"
  "srv_face (v\<lparr>srv_ObservedPower := x4\<rparr>) = srv_face v" "srv_face (v\<lparr>srv_HealthCondition := x5\<rparr>) = srv_face v"
  by (simp_all add: srv_face_def)

definition store_frame :: "Memory \<Rightarrow> Memory \<Rightarrow> bool" where
  "store_frame m m' \<longleftrightarrow> m_nodes m' = m_nodes m \<and> m_allocations m' = m_allocations m \<and> m_allocationOrder m' = m_allocationOrder m \<and>
     m_games m' = m_games m \<and> m_startups m' = m_startups m \<and> m_startupValues m' = m_startupValues m \<and>
     (\<forall>s. map_option srv_face (mget (m_servers m') s) = map_option srv_face (mget (m_servers m) s))"

lemma store_frame_refl [simp]: "store_frame m m"
  by (simp add: store_frame_def)

lemma store_frame_updates [simp]:
  "store_frame m (n\<lparr>m_operations := x1\<rparr>) = store_frame m n"
  "store_frame m (n\<lparr>m_backups := x2\<rparr>) = store_frame m n"
  "store_frame m (n\<lparr>m_backupChecksums := x3\<rparr>) = store_frame m n"
  "store_frame m (n\<lparr>m_backupOperations := x4\<rparr>) = store_frame m n"
  "store_frame m (n\<lparr>m_backupDeleteFrom := x5\<rparr>) = store_frame m n"
  "store_frame m (n\<lparr>m_audit := x6\<rparr>) = store_frame m n"
  by (simp_all add: store_frame_def)

lemma store_frame_calls [simp]:
  "store_frame m (recordAuditLocked a1 a2 a3 a4 a5 a6 a7 a8 n) = store_frame m n"
  "store_frame m (set_backup s i b n) = store_frame m n"
  by (simp_all add: recordAuditLocked_def set_backup_def)

lemma store_frame_audit [simp]: "store_frame m (audit_backup e a1 a2 s srv b i n) = store_frame m n"
  by (simp add: audit_backup_def)

lemma frame_observe:
  "store_frame m n \<Longrightarrow> mget (m_servers m) s \<noteq> None \<Longrightarrow> (\<And>v. srv_face (f v) = srv_face v) \<Longrightarrow>
   store_frame m (observe_server s f n)"
  unfolding store_frame_def observe_server_def mget_zero_def
  by (auto split: option.split) (metis option.simps(8) option.distinct(1) map_option_eq_Some, metis option.simps(9) option.inject)

lemma complete_section_frame: "complete_section now i s m = (r, m') \<Longrightarrow> store_frame m m'"
  by (auto simp: complete_section_def split: option.splits prod.splits bool.splits)

lemma fail_not_succeeded: "failOperationLocked err now p = (True, q) \<Longrightarrow> op_Status q \<noteq> ''succeeded''"
  by (auto simp: failOperationLocked_def Let_def split: if_splits)

lemma complete_section_server:
  "complete_section now i s m = (Some q, m') \<Longrightarrow> op_Status q = ''succeeded'' \<Longrightarrow> mget (m_servers m) s \<noteq> None"
  by (auto simp: complete_section_def completeOperationForGenerationLocked_def dest: fail_not_succeeded targets_server
      split: option.splits prod.splits bool.splits if_splits)

lemma complete_observe_frame:
  assumes "complete_section now i s m = (Some q, m')" "op_Status q = ''succeeded''" "\<And>v. srv_face (f v) = srv_face v"
  shows "store_frame m (observe_server s f m')"
  using complete_section_server [OF assms(1,2)] complete_section_frame [OF assms(1)] frame_observe assms(3) by blast

lemma finish_checked_server: "finish_checked failure now srv p = (c, True, q) \<Longrightarrow> srv \<noteq> None"
  by (auto simp: finish_checked_def dest: targets_server split: if_splits option.splits prod.splits)

lemmas frame_intros = handled_intros [where P = "store_frame m" for m]

lemma addresses_kept [simp]:
  "srv_face (provisioned now v) = srv_face v" "srv_face (powered a now v) = srv_face v"
  "srv_face (restored now v) = srv_face v"
  by (simp_all add: srv_face_def provisioned_def powered_def restored_def)

lemma complete_frame:
  assumes "\<And>v. srv_face (f v) = srv_face v"
  shows "store_frame m (case complete_section now i s m of (None, m1) \<Rightarrow> m1
      | (Some operation, m1) \<Rightarrow> if op_Status operation = ''succeeded'' then observe_server s f m1 else m1)"
  by (intro frame_intros) (use assms in \<open>auto intro: complete_section_frame complete_observe_frame\<close>)

lemma end_section_frame: "store_frame m (end_section L e tk m)"
proof (cases "tk_job tk")
  case JobProvision
  then show ?thesis by (simp add: end_section_def finishProvision_end_def complete_frame)
next
  case (JobPower a)
  then show ?thesis by (simp add: end_section_def finishPower_end_def complete_frame)
next
  case (JobReconcile actor action)
  show ?thesis
    unfolding end_section_def finishReconcile_end_def JobReconcile job.case
    by (intro frame_intros) (auto intro: complete_section_frame complete_observe_frame)
next
  case (JobBackup actor)
  show ?thesis
    unfolding end_section_def finishBackup_end_def JobBackup job.case
    by (intro frame_intros) (auto simp: Let_def intro: complete_section_frame split: option.split)
next
  case (JobRestoreBackup b actor)
  show ?thesis
    unfolding end_section_def finishRestoreBackup_end_def JobRestoreBackup job.case
    by (intro frame_intros) (auto dest: finish_checked_server intro!: frame_observe split: option.split)
next
  case (JobDeleteBackup b actor)
  show ?thesis
    unfolding end_section_def finishDeleteBackup_end_def JobDeleteBackup job.case
    by (intro frame_intros) (auto split: option.split)
qed

lemma runtime_section_frame: "store_frame m (runtime_section e d tk o' sv st m)"
proof -
  have "store_frame m (runtime_fail err now i o' m)" for err now i
    by (simp add: runtime_fail_def)
  then have "store_frame m (finishProvisionWithRuntime_end now c i s o' sv st m)"
    "store_frame m (finishPowerWithRuntime_end now a pw ins i s o' sv m)" for now c i s a pw ins
    unfolding finishProvisionWithRuntime_end_def finishPowerWithRuntime_end_def
    by (intro frame_intros; auto intro: complete_section_frame complete_observe_frame split: prod.split)+
  then show ?thesis by (simp add: runtime_section_def split: job.split)
qed

lemma run_section_frame:
  assumes "run_section L e d tk m = (t', m')"
  shows "store_frame m m'"
proof -
  have "store_frame m (snd (beginOperation now i m))" "store_frame m (finishPower_progress now i m)" for now i
    unfolding beginOperation_def finishPower_progress_def by (auto simp: Let_def split: option.split)
  then have "store_frame m (snd (run_section L e d tk m))"
    by (auto simp: run_section_def end_section_frame runtime_section_frame split: phase.split prod.split bool.split) (metis snd_conv)+
  with assms show ?thesis by simp
qed

lemma store_frame_address:
  assumes "store_frame m m'"
  shows "map_option srv_Allocation (mget (m_servers m') s) = map_option srv_Allocation (mget (m_servers m) s)"
    "map_option srv_ID (mget (m_servers m') s) = map_option srv_ID (mget (m_servers m) s)"
proof -
  have face: "srv_Allocation = snd \<circ> srv_face" "srv_ID = fst \<circ> srv_face" by (simp_all add: srv_face_def fun_eq_iff)
  from assms have "map_option srv_face (mget (m_servers m') s) = map_option srv_face (mget (m_servers m) s)" by (simp add: store_frame_def)
  then show "map_option srv_Allocation (mget (m_servers m') s) = map_option srv_Allocation (mget (m_servers m) s)"
    "map_option srv_ID (mget (m_servers m') s) = map_option srv_ID (mget (m_servers m) s)"
    unfolding face by (simp_all flip: option.map_comp)
qed

lemma run_world:
  assumes "world_ok \<lparr>w_store = m, w_tasks = ts1 @ tk # ts2\<rparr>" "run_section L e d tk m = (t', m')"
  shows "world_ok \<lparr>w_store = m', w_tasks = ts1 @ (case t' of None \<Rightarrow> [] | Some tk' \<Rightarrow> [tk']) @ ts2\<rparr> \<and> ledger_le m m'"
proof -
  note w = world_okE [OF assms(1)]
  let ?i = "tk_operationID tk"
  have tk: "task_ok m tk" using w(4) by simp
  from task_ok_unfinished [OF tk] obtain p where p: "mget (m_operations m) ?i = Some p" "\<not> isTerminalOperation (op_Status p)" by blast
  from run_section_step [OF w(1) tk p(1) w(7) [OF p] assms(2)]
  obtain q where q: "advances ?i p q m m'" "case t' of None \<Rightarrow> isTerminalOperation (op_Status q)
     | Some tk' \<Rightarrow> tk_operationID tk' = ?i \<and> task_ok m' tk'" by blast
  note a = q(1) [unfolded advances_def]
  have l: "ledger_ok m' \<and> ledger_le m m'" using advances_ledger [OF w(1) p q(1)] .
  have n: "nodes_ok m'" using w(2) run_section_frame [OF assms(2)] nodes_ok_same [of m' m] by (simp add: store_frame_def)
  have others: "list_all (task_ok m') (ts1 @ ts2)"
    unfolding list_all_iff
  proof
    fix x assume x: "x \<in> set (ts1 @ ts2)"
    show "task_ok m' x"
      by (rule task_ok_other [of m x m' ?i q]) (use x w(3,4) a in \<open>auto simp: list_all_iff\<close>)
  qed
  let ?ts = "ts1 @ (case t' of None \<Rightarrow> [] | Some tk' \<Rightarrow> [tk']) @ ts2"
  have all: "list_all (task_ok m') ?ts" using others q(2) by (auto split: option.splits)
  have dist: "distinct (map tk_operationID ?ts)" using w(3) q(2) by (auto split: option.splits)
  have busy: "i \<in> tk_operationID ` set ?ts" if "mget (m_operations m') i = Some p'" "\<not> isTerminalOperation (op_Status p')" for i p'
    using that w(6) [of i p'] q(2) a by (auto split: if_splits option.splits)
  have views: "sviews (m_servers m') (op_ServerID p') = Some (op_Generation p', op_NodeID p')"
    if "mget (m_operations m') i = Some p'" "\<not> isTerminalOperation (op_Status p')" for i p'
    using that a w(7) [of i p'] w(7) [OF p] by (auto split: if_splits)
  have excl: "isExclusiveOperation (op_Type p')" if "mget (m_operations m') i = Some p'" for i p'
    using that a w(5) [of i p'] w(5) [OF p(1)] by (auto split: if_splits)
  show ?thesis using l n all dist busy views excl by (intro conjI world_okI) simp_all
qed

lemma world_step_ok:
  assumes "world_step L w w'" "world_ok w"
  shows "world_ok w' \<and> ledger_le (w_store w) (w_store w')"
  using assms
proof (induction rule: world_step.induct)
  case (call m t m' ts)
  note w = world_okE [OF call(2)]
  have "accepted m t m'" using store_call_accepted [OF call(1) w(1,2)] w(7) by force
  moreover have "nodes_ok m'" using store_call_nodes [OF call(1) w(2)] .
  ultimately show ?case
    using quiet_world [OF call(2)] queued_world [OF call(2)] unfolding accepted_def by (elim disjE exE conjE) simp_all
next
  case (other m m' ts)
  note w = world_okE [OF other(2)]
  from other_quiet [OF other(1) w(1,2)] quiet_world [OF other(2)] show ?case by simp
next
  case (run e d tk m t' m' ts1 ts2)
  from run_world [OF run(2,1)] show ?case by simp
qed

section \<open>Progress\<close>

text \<open>How many sections a goroutine has left at most.\<close>

fun phase_weight :: "phase \<Rightarrow> nat" where
  "phase_weight Spawned = 3"
| "phase_weight Began = 2"
| "phase_weight RuntimeBegan = 2"
| "phase_weight Halfway = 1"
| "phase_weight (RuntimeRead _ _ _) = 1"

definition world_weight :: "world \<Rightarrow> nat" where
  "world_weight w = sum_list (map (phase_weight \<circ> tk_phase) (w_tasks w))"

text \<open>The steps in which no new call arrives.\<close>

inductive run_step :: "lib \<Rightarrow> world \<Rightarrow> world \<Rightarrow> bool" for L where
  "run_section L e d tk m = (t', m') \<Longrightarrow>
    run_step L \<lparr>w_store = m, w_tasks = ts1 @ tk # ts2\<rparr>
      \<lparr>w_store = m', w_tasks = ts1 @ (case t' of None \<Rightarrow> [] | Some tk' \<Rightarrow> [tk']) @ ts2\<rparr>"

lemma run_step_world: "run_step L w w' \<Longrightarrow> world_step L w w'"
  by (auto elim!: run_step.cases intro: world_step.run)

lemma run_section_weight:
  assumes "run_section L e d tk m = (Some tk', m')"
  shows "phase_weight (tk_phase tk') < phase_weight (tk_phase tk)"
  using assms
  by (auto simp: run_section_def runtime_read_def split: phase.splits prod.splits bool.splits if_splits)

lemma run_step_weight: "run_step L w w' \<Longrightarrow> world_weight w' < world_weight w"
proof (induction rule: run_step.induct)
  case (1 e d tk m t' m' ts1 ts2)
  have "0 < phase_weight (tk_phase tk)" by (cases "tk_phase tk") simp_all
  with run_section_weight [of L e d tk m] 1 show ?case
    by (cases t') (auto simp: world_weight_def)
qed

lemma run_steps_weight: "(run_step L ^^ n) w w' \<Longrightarrow> n + world_weight w' \<le> world_weight w"
  by (induction n arbitrary: w') (auto dest!: run_step_weight, fastforce)

lemma run_step_enabled:
  assumes "w_tasks w \<noteq> []"
  shows "\<exists>w'. run_step L w w'"
proof -
  from assms obtain tk ts where ts: "w_tasks w = [] @ tk # ts" by (cases "w_tasks w") auto
  obtain t' m' where "run_section L undefined undefined tk (w_store w) = (t', m')" by force
  from run_step.intros [OF this, of "[]" ts] ts show ?thesis by (cases w) auto
qed

lemma run_steps_end: "\<exists>n w'. (run_step L ^^ n) w w' \<and> w_tasks w' = []"
proof (induction "world_weight w" arbitrary: w rule: less_induct)
  case less
  show ?case
  proof (cases "w_tasks w = []")
    case True
    then have "(run_step L ^^ 0) w w" by simp
    with True show ?thesis by blast
  next
    case False
    then obtain w1 where s: "run_step L w w1" using run_step_enabled by blast
    from less [OF run_step_weight [OF s]] obtain n w' where "(run_step L ^^ n) w1 w'" "w_tasks w' = []" by blast
    with s have "(run_step L ^^ Suc n) w w'" using relpowp_Suc_I2 [of "run_step L" w w1 n w'] by blast
    with \<open>w_tasks w' = []\<close> show ?thesis by blast
  qed
qed

lemma world_steps_ok:
  assumes "(world_step L)\<^sup>*\<^sup>* w w'" "world_ok w"
  shows "world_ok w' \<and> ledger_le (w_store w) (w_store w')"
  using assms(1)
proof (induction rule: rtranclp_induct)
  case base
  with assms(2) show ?case by simp
next
  case (step y z)
  then have "ledger_le (w_store w) (w_store y)" "ledger_le (w_store y) (w_store z)" "world_ok z"
    using world_step_ok [OF step(2)] by simp_all
  then show ?case using ledger_le_trans by blast
qed

lemma run_steps_rtranclp: "(run_step L ^^ n) w w' \<Longrightarrow> (world_step L)\<^sup>*\<^sup>* w w'"
proof (induction n arbitrary: w')
  case (Suc n)
  then obtain y where "(run_step L ^^ n) w y" "run_step L y w'" by auto
  with Suc(1) show ?case using run_step_world by (meson rtranclp.rtrancl_into_rtrancl)
qed simp

lemma idle_terminal:
  "world_ok w \<Longrightarrow> w_tasks w = [] \<Longrightarrow> mget (m_operations (w_store w)) i = Some p \<Longrightarrow> isTerminalOperation (op_Status p)"
  using world_okE(6) [of "w_store w" "w_tasks w" i p] by (cases w) auto

end
