(* ===== verification/Allocation_Invariant.thy ===== *)
theory Allocation_Invariant
  imports World_Invariant
begin

text \<open>
  Network allocations and node capacity. \<open>allocations_ok\<close> says that allocations and the order lists
  of the servers describe each other, that no two allocations share an endpoint, and that every
  server has exactly one primary allocation, whose address it shows; \<open>capacity_ok\<close> that no node is
  overcommitted. Every step of the world keeps both.
\<close>


section \<open>Rewriting the allocations of a server\<close>

lemma mget_rewrite:
  "distinct order \<Longrightarrow> mget (rewrite_allocations f order as) i =
     (if i \<in> set order then Some (f i (mget_zero zero_allocation as i)) else mget as i)"
proof (induction order arbitrary: as)
  case (Cons x xs)
  have "rewrite_allocations f (x # xs) as = rewrite_allocations f xs (mput x (f x (mget_zero zero_allocation as x)) as)"
    by (simp add: rewrite_allocations_def)
  with Cons show ?case by (auto simp: mget_zero_def)
qed (simp add: rewrite_allocations_def)

section \<open>The invariant\<close>

text \<open>The part of a server the network settings concern.\<close>

definition place :: "Memory \<Rightarrow> string \<Rightarrow> (string \<times> string) option" where
  "place m s = map_option (\<lambda>v. (srv_NodeID v, srv_Allocation v)) (mget (m_servers m) s)"

definition endpoint :: "Allocation \<Rightarrow> string \<times> string \<times> int \<times> string" where
  "endpoint a = (al_NodeID a, al_BindIP a, al_Port a, al_Protocol a)"

definition order_of :: "Memory \<Rightarrow> string \<Rightarrow> string list" where
  "order_of m s = mget_zero [] (m_allocationOrder m) s"

text \<open>Allocations are listed exactly once by the server they belong to, live on its node and occupy an
  endpoint of their own.\<close>

definition listed_ok :: "Memory \<Rightarrow> bool" where
  "listed_ok m \<longleftrightarrow>
     (\<forall>i a. mget (m_allocations m) i = Some a \<longrightarrow> al_ID a = i \<and> i \<in> set (order_of m (al_ServerID a)) \<and>
        map_option fst (place m (al_ServerID a)) = Some (al_NodeID a)) \<and>
     (\<forall>i j a b. mget (m_allocations m) i = Some a \<longrightarrow> mget (m_allocations m) j = Some b \<longrightarrow> endpoint a = endpoint b \<longrightarrow> i = j) \<and>
     (\<forall>s. distinct (order_of m s)) \<and>
     (\<forall>s i. i \<in> set (order_of m s) \<longrightarrow> (\<exists>a. mget (m_allocations m) i = Some a \<and> al_ServerID a = s))"

text \<open>Exactly one allocation of the server is primary: the one whose address the server shows.\<close>

definition primary_ok :: "Memory \<Rightarrow> string \<Rightarrow> bool" where
  "primary_ok m s \<longleftrightarrow> (\<forall>n x. place m s = Some (n, x) \<longrightarrow>
     (\<exists>i a. i \<in> set (order_of m s) \<and> mget (m_allocations m) i = Some a \<and> al_Primary a \<and> x = allocationAddress a \<and>
        (\<forall>j b. j \<in> set (order_of m s) \<longrightarrow> mget (m_allocations m) j = Some b \<longrightarrow> al_Primary b \<longrightarrow> j = i)))"

definition allocations_ok :: "Memory \<Rightarrow> bool" where
  "allocations_ok m \<longleftrightarrow> listed_ok m \<and> (\<forall>s. primary_ok m s)"

lemma listed_okD:
  assumes "listed_ok m"
  shows "mget (m_allocations m) i = Some a \<Longrightarrow> al_ID a = i"
    "mget (m_allocations m) i = Some a \<Longrightarrow> i \<in> set (order_of m (al_ServerID a))"
    "mget (m_allocations m) i = Some a \<Longrightarrow> map_option fst (place m (al_ServerID a)) = Some (al_NodeID a)"
    "mget (m_allocations m) i = Some a \<Longrightarrow> mget (m_allocations m) j = Some b \<Longrightarrow> endpoint a = endpoint b \<Longrightarrow> i = j"
    "distinct (order_of m s)"
    "i \<in> set (order_of m s) \<Longrightarrow> \<exists>a. mget (m_allocations m) i = Some a \<and> al_ServerID a = s"
  using assms unfolding listed_ok_def by auto

lemma allocations_same:
  "m_allocations m' = m_allocations m \<Longrightarrow> m_allocationOrder m' = m_allocationOrder m \<Longrightarrow> place m' = place m \<Longrightarrow>
   allocations_ok m' = allocations_ok m"
  by (simp add: allocations_ok_def listed_ok_def primary_ok_def order_of_def)

lemma place_reconcile [simp]: "place (reconcileNodeLivenessLocked now m) = place m"
  by (auto simp: place_def reconcileNodeLivenessLocked_def option.map_comp fun_eq_iff intro!: option.map_cong)

lemma place_put: "m_servers m' = mput s v (m_servers m) \<Longrightarrow> place m' = (place m)(s \<mapsto> (srv_NodeID v, srv_Allocation v))"
  by (simp add: place_def fun_eq_iff)

lemma free_endpoint:
  assumes "\<not> allocation_taken n ip proto port m" "mget (m_allocations m) j = Some b"
  shows "endpoint b \<noteq> (n, ip, port, proto)"
  using assms mget_in_set [OF assms(2)] by (auto simp: allocation_taken_def endpoint_def list_ex_iff)

text \<open>Rewriting the primary flags, adding and removing an allocation.\<close>

definition reflagged :: "(string \<Rightarrow> bool) \<Rightarrow> gotime \<Rightarrow> string list \<Rightarrow> string \<Rightarrow> Allocation \<Rightarrow> Allocation" where
  "reflagged f now order j b = (if j \<in> set order then b\<lparr>al_Primary := f j, al_UpdatedAt := now\<rparr> else b)"

lemma reflagged_sel [simp]:
  "al_ID (reflagged f now order j b) = al_ID b" "al_ServerID (reflagged f now order j b) = al_ServerID b"
  "al_NodeID (reflagged f now order j b) = al_NodeID b" "endpoint (reflagged f now order j b) = endpoint b"
  "allocationAddress (reflagged f now order j b) = allocationAddress b"
  "al_Primary (reflagged f now order j b) = (if j \<in> set order then f j else al_Primary b)"
  by (simp_all add: reflagged_def endpoint_def allocationAddress_def)

lemma mget_reflagged:
  assumes "listed_ok m"
  shows "mget (rewrite_allocations (\<lambda>i a. a\<lparr>al_Primary := f i, al_UpdatedAt := now\<rparr>) (order_of m s) (m_allocations m)) j =
     map_option (reflagged f now (order_of m s) j) (mget (m_allocations m) j)"
  using listed_okD(5) [OF assms, of s] listed_okD(6) [OF assms, of j s]
  by (cases "mget (m_allocations m) j") (auto simp: mget_rewrite reflagged_def mget_zero_def)

lemma listed_reflag:
  assumes "listed_ok m" "\<And>j. mget (m_allocations m') j = map_option (reflagged f now order j) (mget (m_allocations m) j)"
    "m_allocationOrder m' = m_allocationOrder m" "\<And>s. map_option fst (place m' s) = map_option fst (place m s)"
  shows "listed_ok m'"
proof -
  have "order_of m' = order_of m" by (simp add: order_of_def assms(3) fun_eq_iff)
  then show ?thesis using assms(1) unfolding listed_ok_def by (auto simp: assms) (metis reflagged_sel(2))
qed

lemma listed_add:
  assumes "listed_ok m" "mget (m_allocations m) i = None"
    "al_ID a = i" "al_ServerID a = s" "map_option fst (place m' s) = Some (al_NodeID a)"
    "\<And>j b. mget (m_allocations m) j = Some b \<Longrightarrow> endpoint b \<noteq> endpoint a"
    "m_allocations m' = mput i a (m_allocations m)"
    "m_allocationOrder m' = mput s (order_of m s @ [i]) (m_allocationOrder m)"
    "\<And>t. place m t \<noteq> None \<Longrightarrow> map_option fst (place m' t) = map_option fst (place m t)"
  shows "listed_ok m'"
proof -
  have ord: "order_of m' = (order_of m)(s := order_of m s @ [i])" by (simp add: order_of_def assms(8) mget_zero_def fun_eq_iff)
  have fresh: "i \<notin> set (order_of m t)" for t using listed_okD(6) [OF assms(1), of i t] assms(2) by auto
  have pl: "map_option fst (place m' (al_ServerID b)) = Some (al_NodeID b)" if "mget (m_allocations m) j = Some b" for j b
    using listed_okD(3) [OF assms(1) that] assms(9) [of "al_ServerID b"] by auto
  show ?thesis
    unfolding listed_ok_def
  proof (intro conjI allI impI, goal_cases)
    case (1 j b) then show ?case using assms listed_okD(1) by (auto split: if_splits)
  next
    case (2 j b) then show ?case using assms(3,4,7) listed_okD(2) [OF assms(1), of j b] by (auto simp: ord split: if_splits)
  next
    case (3 j b) then show ?case using assms(3,4,5,7) pl by (auto split: if_splits)
  next
    case (4 j k b c) 
    then show ?case using assms(6,7) listed_okD(4) [OF assms(1), of j b k c] by (fastforce split: if_splits)
  next
    case (5 t) then show ?case using listed_okD(5) [OF assms(1)] fresh by (simp add: ord)
  next
    case (6 t j) then show ?case using listed_okD(6) [OF assms(1), of j t] fresh assms(4,7) by (auto simp: ord split: if_splits)
  qed
qed

lemma listed_remove:
  assumes "listed_ok m" "m_allocations m' = mdel i (m_allocations m)" "mget (m_allocations m) i = Some a" "al_ServerID a = s"
    "m_allocationOrder m' = mput s (filter (\<lambda>j. j \<noteq> i) (order_of m s)) (m_allocationOrder m)" "place m' = place m"
  shows "listed_ok m'"
proof -
  have ord: "order_of m' = (order_of m)(s := filter (\<lambda>j. j \<noteq> i) (order_of m s))"
    by (simp add: order_of_def assms(5) mget_zero_def fun_eq_iff)
  show ?thesis
    unfolding listed_ok_def
  proof (intro conjI allI impI, goal_cases)
    case (1 j b) then show ?case using assms listed_okD(1) by (auto split: if_splits)
  next
    case (2 j b) then show ?case using assms(2) listed_okD(2) [OF assms(1), of j b] by (auto simp: ord split: if_splits)
  next
    case (3 j b) then show ?case using assms(2,6) listed_okD(3) [OF assms(1), of j b] by (auto split: if_splits)
  next
    case (4 j k b c) then show ?case using assms(2) listed_okD(4) [OF assms(1), of j b k c] by (auto split: if_splits)
  next
    case (5 t) then show ?case using listed_okD(5) [OF assms(1)] by (simp add: ord)
  next
    case (6 t j) then show ?case using listed_okD(6) [OF assms(1), of j t] assms(2-4) by (auto simp: ord split: if_splits)
  qed
qed

lemma primary_same:
  assumes "primary_ok m t" "order_of m' t = order_of m t" "place m' t = place m t"
    "\<And>j. j \<in> set (order_of m t) \<Longrightarrow> mget (m_allocations m') j = mget (m_allocations m) j"
  shows "primary_ok m' t"
  using assms(1) unfolding primary_ok_def by (simp add: assms(2,3)) (metis assms(4))

lemma primaryI:
  assumes "place m s = Some (n, allocationAddress a)" "i \<in> set (order_of m s)" "mget (m_allocations m) i = Some a" "al_Primary a"
    "\<And>j b. j \<in> set (order_of m s) \<Longrightarrow> mget (m_allocations m) j = Some b \<Longrightarrow> al_Primary b \<Longrightarrow> j = i"
  shows "primary_ok m s"
  using assms unfolding primary_ok_def by auto

lemma orders_disjoint:
  "listed_ok m \<Longrightarrow> j \<in> set (order_of m t) \<Longrightarrow> j \<in> set (order_of m s) \<Longrightarrow> t = s"
  using listed_okD(6) [of m j t] listed_okD(6) [of m j s] by auto

lemma order_fresh: "listed_ok m \<Longrightarrow> mget (m_allocations m) i = None \<Longrightarrow> i \<notin> set (order_of m t)"
  using listed_okD(6) [of m i t] by auto


section \<open>The four changes\<close>

lemma allocations_okD: "allocations_ok m \<Longrightarrow> listed_ok m" "allocations_ok m \<Longrightarrow> primary_ok m s"
  by (simp_all add: allocations_ok_def)

lemma allocations_add_other:
  assumes ok: "allocations_ok m" and i: "mget (m_allocations m) i = None" "al_ID a = i" "al_ServerID a = s" "\<not> al_Primary a"
    and s: "place m s = Some (al_NodeID a, x)" and free: "\<And>j b. mget (m_allocations m) j = Some b \<Longrightarrow> endpoint b \<noteq> endpoint a"
    and m': "m_allocations m' = mput i a (m_allocations m)" "place m' = place m"
      "m_allocationOrder m' = mput s (order_of m s @ [i]) (m_allocationOrder m)"
  shows "allocations_ok m'"
proof -
  note l = allocations_okD(1) [OF ok]
  have ord: "order_of m' t = (if t = s then order_of m s @ [i] else order_of m t)" for t
    by (simp add: order_of_def m' mget_zero_def)
  have "listed_ok m'" by (rule listed_add [OF l i(1-3) _ free m'(1,3)]) (simp_all add: m' s)
  moreover have "primary_ok m' t" for t
  proof (cases "t = s")
    case True
    from allocations_okD(2) [OF ok, of s] s obtain k b where kb:
      "k \<in> set (order_of m s)" "mget (m_allocations m) k = Some b" "al_Primary b" "x = allocationAddress b"
      "\<And>j c. j \<in> set (order_of m s) \<Longrightarrow> mget (m_allocations m) j = Some c \<Longrightarrow> al_Primary c \<Longrightarrow> j = k"
      unfolding primary_ok_def by blast
    from kb(1) order_fresh [OF l i(1)] have k: "k \<noteq> i" by auto
    have uniq: "j = k" if "j \<in> set (order_of m' s)" "mget (m_allocations m') j = Some c" "al_Primary c" for j c
      using that kb(5) [of j c] i(4) by (auto simp: ord m' split: if_splits)
    show ?thesis
      unfolding True by (rule primaryI [where a = b and n = "al_NodeID a", OF _ _ _ _ uniq]) (use k s kb(1-4) in \<open>simp_all add: ord m'\<close>)
  next
    case False
    with order_fresh [OF l i(1)] show ?thesis
      by (intro primary_same [OF allocations_okD(2) [OF ok]]) (auto simp: ord m')
  qed
  ultimately show ?thesis by (simp add: allocations_ok_def)
qed

lemma allocations_add_primary:
  assumes ok: "allocations_ok m" and i: "mget (m_allocations m) i = None" "al_ID a = i" "al_ServerID a = s" "al_Primary a"
    and s: "\<And>n x. place m s = Some (n, x) \<Longrightarrow> n = al_NodeID a"
    and free: "\<And>j b. mget (m_allocations m) j = Some b \<Longrightarrow> endpoint b \<noteq> endpoint a"
    and m': "m_allocations m' = mput i a (demote_all now (order_of m s) (m_allocations m))"
      "place m' = (place m)(s \<mapsto> (al_NodeID a, allocationAddress a))"
      "m_allocationOrder m' = mput s (order_of m s @ [i]) (m_allocationOrder m)"
  shows "allocations_ok m'"
proof -
  note l = allocations_okD(1) [OF ok]
  let ?f = "reflagged (\<lambda>_. False) now (order_of m s)"
  let ?m = "m\<lparr>m_allocations := demote_all now (order_of m s) (m_allocations m)\<rparr>"
  have get: "mget (m_allocations ?m) j = map_option (?f j) (mget (m_allocations m) j)" for j
    using mget_reflagged [OF l, where f = "\<lambda>_. False"] by (simp add: demote_all_def)
  have l1: "listed_ok ?m" by (rule listed_reflag [OF l get]) (simp_all add: place_def)
  have o1: "order_of ?m = order_of m" by (simp add: order_of_def fun_eq_iff)
  have ord: "order_of m' t = (if t = s then order_of m s @ [i] else order_of m t)" for t
    by (simp add: order_of_def m' mget_zero_def)
  have i1: "mget (m_allocations ?m) i = None" using i get by simp
  have free1: "endpoint b \<noteq> endpoint a" if "mget (m_allocations ?m) j = Some b" for j b
  proof -
    from that obtain c where "mget (m_allocations m) j = Some c" "b = ?f j c" unfolding get by blast
    with free show ?thesis by simp
  qed
  have pl: "place ?m = place m" by (simp add: place_def fun_eq_iff)
  have fst: "map_option fst (place m' t) = map_option fst (place ?m t)" if "place ?m t \<noteq> None" for t
    using that s unfolding pl m'(2) by (cases "place m s") auto
  have "listed_ok m'" by (rule listed_add [OF l1 i1 i(2,3) _ free1 _ _ fst]) (simp_all add: m' o1)
  moreover have "primary_ok m' t" for t
  proof (cases "t = s")
    case True
    have uniq: "j = i" if "j \<in> set (order_of m' s)" "mget (m_allocations m') j = Some c" "al_Primary c" for j c
      using that get [of j] by (cases "mget (m_allocations m) j") (auto simp: ord m' split: if_splits)
    show ?thesis
      unfolding True by (rule primaryI [where a = a and n = "al_NodeID a", OF _ _ _ _ uniq]) (use i in \<open>simp_all add: ord m'\<close>)
  next
    case False
    have "mget (m_allocations m') j = mget (m_allocations m) j" if "j \<in> set (order_of m t)" for j
      using that get [of j] False order_fresh [OF l i(1), of t] orders_disjoint [OF l that, of s]
      by (cases "mget (m_allocations m) j") (auto simp: m' reflagged_def)
    with False show ?thesis
      by (intro primary_same [OF allocations_okD(2) [OF ok]]) (simp_all add: ord m'(2))
  qed
  ultimately show ?thesis by (simp add: allocations_ok_def)
qed

lemma allocations_choose:
  assumes ok: "allocations_ok m" and i: "mget (m_allocations m) i = Some a" "al_ServerID a = s" and s: "place m s = Some (n, x0)"
    and m': "m_allocations m' = mput i (a\<lparr>al_Primary := True, al_UpdatedAt := now\<rparr>) (choose_primary now i (order_of m s) (m_allocations m))"
      "m_allocationOrder m' = m_allocationOrder m" "place m' = (place m)(s \<mapsto> (n, allocationAddress a))"
  shows "allocations_ok m'"
proof -
  note l = allocations_okD(1) [OF ok]
  have mem: "i \<in> set (order_of m s)" using listed_okD(2) [OF l i(1)] i(2) by simp
  let ?f = "reflagged (\<lambda>j. j = i) now (order_of m s)"
  have get: "mget (m_allocations m') j = map_option (?f j) (mget (m_allocations m) j)" for j
    using mget_reflagged [OF l, where f = "\<lambda>j. j = i"] i mem by (simp add: choose_primary_def m' reflagged_def)
  have ord: "order_of m' = order_of m" by (simp add: order_of_def m' fun_eq_iff)
  have "listed_ok m'" using s by (intro listed_reflag [OF l get]) (auto simp: m')
  moreover have "primary_ok m' t" for t
  proof (cases "t = s")
    case True
    with i mem get show ?thesis by (intro primaryI [of _ _ n "?f i a" i]) (auto simp: ord m'(3) split: if_splits)
  next
    case False
    with orders_disjoint [OF l] show ?thesis
      using get by (intro primary_same [OF allocations_okD(2) [OF ok]])
        (auto simp: ord m'(3) reflagged_def option.map_ident intro!: option.map_ident_strong)
  qed
  ultimately show ?thesis by (simp add: allocations_ok_def)
qed

lemma allocations_remove:
  assumes ok: "allocations_ok m" and i: "mget (m_allocations m) i = Some a" "al_ServerID a = s" "\<not> al_Primary a"
    and m': "m_allocations m' = mdel i (m_allocations m)"
      "m_allocationOrder m' = mput s (filter (\<lambda>j. j \<noteq> i) (order_of m s)) (m_allocationOrder m)" "place m' = place m"
  shows "allocations_ok m'"
proof -
  note l = allocations_okD(1) [OF ok]
  have ord: "order_of m' t = (if t = s then filter (\<lambda>j. j \<noteq> i) (order_of m s) else order_of m t)" for t
    by (simp add: order_of_def m' mget_zero_def)
  have "listed_ok m'" by (rule listed_remove [OF l m'(1) i(1,2) m'(2,3)])
  moreover have "primary_ok m' t" for t
  proof (cases "place m t")
    case None
    then show ?thesis by (simp add: primary_ok_def m')
  next
    case (Some nx)
    obtain n x where nx: "nx = (n, x)" by (cases nx)
    with Some have pl: "place m t = Some (n, x)" by simp
    with allocations_okD(2) [OF ok, of t] obtain k b where kb:
      "k \<in> set (order_of m t)" "mget (m_allocations m) k = Some b" "al_Primary b" "x = allocationAddress b"
      "\<And>j c. j \<in> set (order_of m t) \<Longrightarrow> mget (m_allocations m) j = Some c \<Longrightarrow> al_Primary c \<Longrightarrow> j = k"
      unfolding primary_ok_def by blast
    have k: "k \<noteq> i" using kb(2,3) i by auto
    have uniq: "j = k" if "j \<in> set (order_of m' t)" "mget (m_allocations m') j = Some c" "al_Primary c" for j c
      using that kb(5) [of j c] by (simp add: ord m' split: if_splits)
    show ?thesis
      by (rule primaryI [where a = b and n = n, OF _ _ _ _ uniq]) (use k pl kb(1-4) in \<open>auto simp: ord m'\<close>)
  qed
  ultimately show ?thesis by (simp add: allocations_ok_def)
qed

section \<open>Steps\<close>

lemma place_servers: "m_servers m' = m_servers n \<Longrightarrow> place m' = place n"
  by (simp add: place_def fun_eq_iff)

lemma allocations_calm: "calm m m' \<Longrightarrow> allocations_ok m \<Longrightarrow> allocations_ok m'"
proof -
  assume "calm m m'" "allocations_ok m"
  moreover from this have "place m' = place m" using calm_frame [of m m'] place_servers place_reconcile by metis
  ultimately show ?thesis using calm_frame [of m m'] allocations_same [of m' m] by blast
qed

lemma nextAllocationPort_free:
  "nextAllocationPortLocked n ip proto port m = Some p \<Longrightarrow> port \<le> p \<and> p \<le> 65535 \<and> \<not> allocation_taken n ip proto p m \<and>
     (\<forall>q. port \<le> q \<longrightarrow> q < p \<longrightarrow> allocation_taken n ip proto q m)"
proof (induction n ip proto port m rule: nextAllocationPortLocked.induct)
  case (1 n ip proto port m)
  show ?case
  proof (cases "port > 65535 \<or> \<not> allocation_taken n ip proto port m")
    case True
    with 1(2) show ?thesis by (subst (asm) nextAllocationPortLocked.simps) (auto split: if_splits)
  next
    case False
    with 1(2) have "nextAllocationPortLocked n ip proto (port + 1) m = Some p"
      by (subst (asm) nextAllocationPortLocked.simps) simp
    with 1(1) False have "port + 1 \<le> p \<and> p \<le> 65535 \<and> \<not> allocation_taken n ip proto p m \<and>
     (\<forall>q. port + 1 \<le> q \<longrightarrow> q < p \<longrightarrow> allocation_taken n ip proto q m)" by simp
    with False show ?thesis by (metis (full_types) add1_zle_eq dual_order.trans linorder_not_less order_less_le zle_add1_eq_le)
  qed
qed

lemma allocations_created:
  assumes "created L e inp0 key m tk m'" "fresh_ids e m" "allocations_ok m" 
  shows "allocations_ok m'"
proof -
  from assms(1) obtain inp node game port portRef protocol firstPort containerPort role owner a v m1 startup startupValues where
    c: "m1 = reconcileNodeLivenessLocked (clk e 0) m"
      "nextAllocationPortLocked (n_ID node) (n_Address node) protocol firstPort m1 = Some port"
      "a = \<lparr>al_ID = uuid e 2, al_ServerID = uuid e 0, al_NodeID = n_ID node, al_BindIP = n_Address node,
           al_Port = port, al_Protocol = protocol, al_PortRef = portRef, al_ContainerPort = containerPort,
           al_Role = role, al_Primary = True, al_CreatedAt = clk e 0, al_UpdatedAt = clk e 0\<rparr>"
      "v = new_server (clk e 0) (uuid e 0) inp node game (allocationAddress a) owner"
      "m_allocations m' = mput (uuid e 2) a (m_allocations m)" "m_allocationOrder m' = mput (uuid e 0) [uuid e 2] (m_allocationOrder m)"
      "m_servers m' = mput (uuid e 0) v (m_servers m1)"
    by (auto simp: created_def)
  from assms(2) have f: "mget (m_allocations m) (uuid e 2) = None" "order_of m (uuid e 0) = []" "place m (uuid e 0) = None"
    by (auto simp: fresh_ids_def mhas_def order_of_def mget_zero_def place_def)
  have "\<not> allocation_taken (n_ID node) (n_Address node) protocol port m"
    using nextAllocationPort_free [OF c(2)] c(1) by (simp add: allocation_taken_def)
  then have free: "endpoint b \<noteq> endpoint a" if "mget (m_allocations m) j = Some b" for j b
    using free_endpoint that c(3) by (simp add: endpoint_def)
  have "place m' = (place m1)(uuid e 0 \<mapsto> (srv_NodeID v, srv_Allocation v))" by (rule place_put [OF c(7)])
  then have "place m' = (place m)(uuid e 0 \<mapsto> (al_NodeID a, allocationAddress a))"
    by (simp add: c(1,3,4) new_server_def)
  with f c show ?thesis
    by (intro allocations_add_primary [OF assms(3) f(1), of a "uuid e 0" m' 0] free) (simp_all add: demote_all_def rewrite_allocations_def)
qed

lemma allocations_mutated:
  assumes "mutated (server_mutation L e s) s m tk m'" "fresh_ids e m" "allocations_ok m" 
  shows "allocations_ok m'"
proof -
  from assms(1) obtain now v v' m2 g c u m1 f where
    M: "m1 = reconcileNodeLivenessLocked now m" "mget (m_servers m1) s = Some v" "server_mutation L e s f" "f now v m1 = Inr (v', m2)"
      "m_allocations m' = m_allocations m2" "m_allocationOrder m' = m_allocationOrder m2"
      "m_servers m' = mput s (v'\<lparr>srv_Generation := g, srv_NodeCondition := c, srv_UpdatedAt := u\<rparr>) (m_servers m2)"
    by (auto simp: mutated_def)
  have ok: "allocations_ok m1" using assms(3) allocations_same [of m1 m] by (simp add: M(1))
  have "m_servers m2 = m_servers m1" "srv_NodeID v' = srv_NodeID v" using mutation_frame [OF M(3,4)] by simp_all
  with M(7) have pl: "place m' = (place m1)(s \<mapsto> (srv_NodeID v, srv_Allocation v'))" using place_put [of m' s _ m1] by simp
  have s: "place m1 s = Some (srv_NodeID v, srv_Allocation v)" using M(2) by (simp add: place_def)
  from assms(2) have fr: "mget (m_allocations m1) (uuid e 2) = None" by (auto simp: fresh_ids_def mhas_def M(1))
  have free: "endpoint b \<noteq> endpoint a" if "\<not> allocation_taken (srv_NodeID v) (cai_BindIP inp) (cai_Protocol inp) (cai_Port inp) m1"
      "mget (m_allocations m1) j = Some b" "endpoint a = (srv_NodeID v, cai_BindIP inp, cai_Port inp, cai_Protocol inp)" for j a b inp
    using free_endpoint [OF that(1,2)] that(3) by simp
  from M(3) consider (add) inp where "f = add_allocation (uuid e 2) s inp" | (primary) i where "f = make_primary i s"
    | (remove) i where "f = remove_allocation i s" | (startup) updates where "f = change_startup L s updates"
    unfolding server_mutation_def by blast
  then show ?thesis
  proof cases
    case (add inp)
    let ?a = "\<lparr>al_ID = uuid e 2, al_ServerID = s, al_NodeID = srv_NodeID v,
              al_BindIP = cai_BindIP inp, al_Port = cai_Port inp, al_Protocol = cai_Protocol inp,
              al_PortRef = cai_PortRef inp, al_ContainerPort = cai_ContainerPort inp, al_Role = cai_Role inp,
              al_Primary = (cai_Primary inp \<or> order_of m1 s = []), al_CreatedAt = now, al_UpdatedAt = now\<rparr>"
    from add M(4) have r: "\<not> allocation_taken (srv_NodeID v) (cai_BindIP inp) (cai_Protocol inp) (cai_Port inp) m1"
      "m_allocations m2 = mput (uuid e 2) ?a (if al_Primary ?a then demote_all now (order_of m1 s) (m_allocations m1) else m_allocations m1)"
      "m_allocationOrder m2 = mput s (order_of m1 s @ [uuid e 2]) (m_allocationOrder m1)"
      "srv_Allocation v' = (if al_Primary ?a then allocationAddress ?a else srv_Allocation v)"
      by (auto simp: add_allocation_def Let_def order_of_def split: if_splits)
    have fa: "endpoint b \<noteq> endpoint ?a" if "mget (m_allocations m1) j = Some b" for j b
      by (rule free [OF r(1) that]) (simp add: endpoint_def)
    show ?thesis
    proof (cases "al_Primary ?a")
      case True
      show ?thesis
        by (rule allocations_add_primary [OF ok fr _ _ True _ fa, where now = now]) (use M(5,6) r(2-4) s pl True in simp_all)
    next
      case False
      have "place m' = place m1" using pl r(4) s False by (simp add: fun_upd_idem)
      then show ?thesis
        by (intro allocations_add_other [OF ok fr _ _ False _ fa]) (use M(5,6) r(2,3) s False in simp_all)
    qed
  next
    case (primary i)
    with M(4) obtain a where "mget (m_allocations m1) i = Some a" "al_ServerID a = s"
      "m_allocations m2 = mput i (a\<lparr>al_Primary := True, al_UpdatedAt := now\<rparr>) (choose_primary now i (order_of m1 s) (m_allocations m1))"
      "m_allocationOrder m2 = m_allocationOrder m1" "srv_Allocation v' = allocationAddress a"
      by (auto simp: make_primary_def Let_def order_of_def allocationAddress_def split: if_splits option.splits)
    with M(5,6) pl s show ?thesis by (intro allocations_choose [OF ok, of i a s]) simp_all
  next
    case (remove i)
    with M(4) obtain a where "mget (m_allocations m1) i = Some a" "al_ServerID a = s" "\<not> al_Primary a"
      "m_allocations m2 = mdel i (m_allocations m1)"
      "m_allocationOrder m2 = mput s (filter (\<lambda>j. j \<noteq> i) (order_of m1 s)) (m_allocationOrder m1)" "v' = v"
      by (auto simp: remove_allocation_def Let_def order_of_def split: if_splits option.splits)
    with M(5,6) pl s show ?thesis by (intro allocations_remove [OF ok, of i a s]) (simp_all add: fun_upd_idem)
  next
    case (startup updates)
    with M(4) have "m_allocations m2 = m_allocations m1" "m_allocationOrder m2 = m_allocationOrder m1" "v' = v"
      by (auto simp: change_startup_def Let_def split: sum.splits prod.splits)
    with M(5,6) pl s ok show ?thesis using allocations_same [of m' m1] by (simp add: fun_upd_idem)
  qed
qed


lemma restore_targetD:
  assumes "restore_target s b m = Inr (v, i, backup)"
  shows "mget (m_servers m) s = Some v" "backupLocked s b m = Some (i, backup)" "b_Status backup = ''ready''"
    "backupChecksumValidLocked m backup" "activeExclusiveOperationLocked m s = None"
  using assms by (auto simp: restore_target_def split: option.splits if_splits)

lemma delete_targetD:
  assumes "delete_target s b m = Inr (v, i, backup)"
  shows "mget (m_servers m) s = Some v" "backupLocked s b m = Some (i, backup)"
    "BackupStatusTransitionAllowed (b_Status backup) ''deleting''" "activeExclusiveOperationLocked m s = None"
  using assms by (auto simp: delete_target_def split: option.splits if_splits)

lemma place_updated:
  assumes "mget (m_servers (reconcileNodeLivenessLocked now m)) s = Some v"
    "m_servers m' = mput s v' (m_servers (reconcileNodeLivenessLocked now m))" "srv_Allocation v' = srv_Allocation v" "srv_NodeID v' = srv_NodeID v"
  shows "place m' = place m"
proof -
  have "place (reconcileNodeLivenessLocked now m) s = Some (srv_NodeID v, srv_Allocation v)" using assms(1) by (simp add: place_def del: place_reconcile)
  with place_put [OF assms(2)] assms(3,4) show ?thesis by (simp add: fun_upd_idem)
qed

lemma allocations_call:
  assumes "store_call L m t m'" "allocations_ok m"
  shows "allocations_ok m'"
  using assms(1)
proof (cases rule: store_call_shape)
  case calm show ?thesis by (rule allocations_calm [OF calm(2) assms(2)])
next
  case create with assms(2) show ?thesis by (simp add: allocations_created)
next
  case mutate with assms(2) show ?thesis by (simp add: allocations_mutated)
next
  case (power tk s)
  then obtain now v v' where "mget (m_servers (reconcileNodeLivenessLocked now m)) s = Some v"
    "m_servers m' = mput s v' (m_servers (reconcileNodeLivenessLocked now m))" "srv_Allocation v' = srv_Allocation v" "srv_NodeID v' = srv_NodeID v"
    "m_allocations m' = m_allocations m" "m_allocationOrder m' = m_allocationOrder m"
    by (auto simp: powered_on_def)
  moreover from this have "place m' = place m" by (intro place_updated)
  ultimately show ?thesis using assms(2) allocations_same [of m' m] by simp
next
  case (backup tk e s)
  then obtain now where "m_servers m' = m_servers (reconcileNodeLivenessLocked now m)"
    "m_allocations m' = m_allocations m" "m_allocationOrder m' = m_allocationOrder m"
    by (auto simp: backed_up_def)
  with assms(2) allocations_same [of m' m] place_servers [of m'] show ?thesis by simp
next
  case (restore tk s b)
  then obtain now v v' where "mget (m_servers (reconcileNodeLivenessLocked now m)) s = Some v"
    "m_servers m' = mput s v' (m_servers (reconcileNodeLivenessLocked now m))" "srv_Allocation v' = srv_Allocation v" "srv_NodeID v' = srv_NodeID v"
    "m_allocations m' = m_allocations m" "m_allocationOrder m' = m_allocationOrder m"
    by (auto simp: restoring_def dest: restore_targetD)
  moreover from this have "place m' = place m" by (intro place_updated)
  ultimately show ?thesis using assms(2) allocations_same [of m' m] by simp
next
  case (discard tk s b)
  then have "m_servers m' = m_servers m" "m_allocations m' = m_allocations m" "m_allocationOrder m' = m_allocationOrder m"
    by (auto simp: discarding_def)
  with assms(2) allocations_same [of m' m] place_servers [of m'] show ?thesis by simp
qed

lemma place_heartbeat [simp]: "place (snd (Heartbeat now name version m)) = place m"
  by (auto simp: Heartbeat_def place_def option.map_comp fun_eq_iff intro!: option.map_cong split: option.split prod.split)

lemma allocations_other:
  assumes "other_call L m m'" "ledger_ok m" "allocations_ok m"
  shows "allocations_ok m'"
  using other_cases [OF assms(1,2)] assms(3) allocations_same [of m' m] place_servers [of m' m]
  by (auto simp: runtime_same_def)

text \<open>The node of a server is part of \<open>sviews\<close>, which a section keeps.\<close>

lemma place_frame:
  assumes "sviews (m_servers m') = sviews (m_servers m)"
    "\<And>s. map_option srv_Allocation (mget (m_servers m') s) = map_option srv_Allocation (mget (m_servers m) s)"
  shows "place m' = place m"
proof
  fix s
  have "sviews (m_servers m') s = sviews (m_servers m) s" by (simp add: assms)
  with assms(2) [of s] show "place m' s = place m s"
    by (cases "mget (m_servers m') s"; cases "mget (m_servers m) s") (simp_all add: place_def sviews_def)
qed

section \<open>Node capacity\<close>

definition node_fits :: "Node \<Rightarrow> bool" where
  "node_fits n \<longleftrightarrow> 0 \<le> n_AllocatedMemoryBytes n \<and> n_AllocatedMemoryBytes n \<le> n_MemoryBytes n \<and> n_MemoryBytes n \<le> max_int64 \<and>
     0 \<le> n_AllocatedDiskBytes n \<and> n_AllocatedDiskBytes n \<le> n_DiskBytes n \<and> n_DiskBytes n \<le> max_int64"

definition capacity_ok :: "Memory \<Rightarrow> bool" where
  "capacity_ok m \<longleftrightarrow> (\<forall>i n. mget (m_nodes m) i = Some n \<longrightarrow> node_fits n)"

lemma capacity_same: "m_nodes m' = m_nodes m \<Longrightarrow> capacity_ok m' = capacity_ok m"
  by (simp add: capacity_ok_def)

lemma capacity_reconcile [simp]: "capacity_ok m \<Longrightarrow> capacity_ok (reconcileNodeLivenessLocked now m)"
  by (auto simp: capacity_ok_def reconcileNodeLivenessLocked_def node_fits_def split: if_splits)

lemma validate_create_bounds:
  "validate_create inp0 key = Inr inp \<Longrightarrow> 512 * 2 ^ 20 \<le> memory_bytes inp \<and> memory_bytes inp \<le> 2 ^ 37 \<and> 2 ^ 30 \<le> disk_bytes inp \<and> disk_bytes inp \<le> 2 ^ 41"
  by (auto simp: validate_create_def Let_def memory_bytes_def disk_bytes_def split: if_splits option.splits)

lemma capacity_created:
  assumes "created L e inp0 key m tk m'" "capacity_ok m"
  shows "capacity_ok m'"
proof -
  from assms(1) obtain inp node game now m1 where c: "m1 = reconcileNodeLivenessLocked now m" "placement inp m1 = Inr (node, game)"
    "validate_create inp0 key = Inr inp"
    "m_nodes m' = mput (n_ID node) (node\<lparr>n_AllocatedMemoryBytes := n_AllocatedMemoryBytes node + memory_bytes inp,
          n_AllocatedDiskBytes := n_AllocatedDiskBytes node + disk_bytes inp,
          n_TotalServers := n_TotalServers node + 1\<rparr>) (m_nodes m1)"
    by (auto simp: created_def install_server_def)
  have ok: "capacity_ok m1" using assms(2) c(1) by simp
  with placement_node(1) [OF c(2)] have "node_fits node" by (simp add: capacity_ok_def)
  with ok placement_node(3,4) [OF c(2)] validate_create_bounds [OF c(3)] c(4) show ?thesis
    by (auto simp: capacity_ok_def node_fits_def)
qed

lemma capacity_call:
  assumes "store_call L m t m'" "capacity_ok m"
  shows "capacity_ok m'"
proof -
  have via: "capacity_ok m'" if "m_nodes m' = m_nodes (reconcileNodeLivenessLocked now m) \<or> m_nodes m' = m_nodes m" for now
    using that assms(2) capacity_same [of m' m] capacity_same [of m' "reconcileNodeLivenessLocked now m"] by auto
  from assms(1) show ?thesis
  proof (cases rule: store_call_shape)
    case calm with via calm_frame show ?thesis by metis
  next
    case create with assms(2) show ?thesis by (simp add: capacity_created)
  next
    case mutate with via mutated_nodes show ?thesis by metis
  next
    case power
    then obtain now where "m_nodes m' = m_nodes (reconcileNodeLivenessLocked now m)" by (auto simp: powered_on_def)
    with via show ?thesis by blast
  next
    case backup
    then obtain now where "m_nodes m' = m_nodes (reconcileNodeLivenessLocked now m)" by (auto simp: backed_up_def)
    with via show ?thesis by blast
  next
    case restore
    then obtain now where "m_nodes m' = m_nodes (reconcileNodeLivenessLocked now m)" by (auto simp: restoring_def)
    with via show ?thesis by blast
  next
    case discard
    then have "m_nodes m' = m_nodes m" by (auto simp: discarding_def)
    with via show ?thesis by blast
  qed
qed

lemma capacity_heartbeat:
  assumes "capacity_ok m" "nodes_ok m"
  shows "capacity_ok (snd (Heartbeat now name version m))"
proof (cases "find (\<lambda>(_, node). n_Name node = name) (m_nodes m)")
  case (Some x)
  obtain i n where x: "x = (i, n)" by (cases x)
  from Some x have "(i, n) \<in> set (m_nodes m)" by (auto simp: find_Some_iff) (metis nth_mem)
  with assms have "node_fits n" by (metis capacity_ok_def mget_Some_iff nodes_ok_def)
  with assms(1) Some x show ?thesis by (auto simp: Heartbeat_def capacity_ok_def node_fits_def)
qed (use assms in \<open>simp add: Heartbeat_def\<close>)


lemma capacity_other:
  assumes "other_call L m m'" "ledger_ok m" "nodes_ok m" "capacity_ok m"
  shows "capacity_ok m'"
  using other_cases [OF assms(1,2)] assms(4) capacity_same [of m' m] capacity_heartbeat [OF assms(4,3)]
  by (auto simp: runtime_same_def)

lemma world_step_network:
  assumes "world_step L w w'" "world_ok w" "allocations_ok (w_store w)" "capacity_ok (w_store w)"
  shows "allocations_ok (w_store w') \<and> capacity_ok (w_store w')"
  using assms
proof (induction rule: world_step.induct)
  case (call m t m' ts)
  then show ?case using allocations_call [OF call(1)] capacity_call [OF call(1)] by simp
next
  case (other m m' ts)
  note w = world_okE [OF other(2)]
  from other show ?case using allocations_other [OF other(1) w(1)] capacity_other [OF other(1) w(1,2)] by simp
next
  case (run e d tk m t' m' ts1 ts2)
  note w = world_okE [OF run(2)]
  have tk: "task_ok m tk" using w(4) by simp
  from task_ok_unfinished [OF tk] obtain p where p: "mget (m_operations m) (tk_operationID tk) = Some p" "\<not> isTerminalOperation (op_Status p)" by blast
  from run_section_step [OF w(1) tk p(1) w(7) [OF p] run(1)] have "sviews (m_servers m') = sviews (m_servers m)"
    by (auto simp: advances_def)
  with run_section_frame [OF run(1)] have "place m' = place m" by (intro place_frame) (simp_all add: store_frame_address)
  with run_section_frame [OF run(1)] run(3,4) show ?case
    using allocations_same [of m' m] capacity_same [of m' m] by (simp add: store_frame_def)
qed

end
