(* ===== verification/Backup_Lifecycle.thy ===== *)
theory Backup_Lifecycle
  imports Allocation_Invariant
begin

text \<open>
  Backups under concurrency. A backup that is being created, restored or deleted has exactly one
  goroutine working on it; every other backup is at rest, and a ready one passes the integrity check
  of a restore. Steps change the status of a backup only along the transition table of
  \<^verbatim>\<open>internal/domain/backup.go\<close>, and the goroutines of backup operations always succeed.
\<close>


section \<open>Backups and the goroutines that work on them\<close>

definition backups_of :: "Memory \<Rightarrow> string \<Rightarrow> Backup list" where
  "backups_of m s = mget_zero [] (m_backups m) s"

definition is_backup_job :: "job \<Rightarrow> bool" where
  "is_backup_job j = (case j of JobBackup _ \<Rightarrow> True | JobRestoreBackup _ _ \<Rightarrow> True | JobDeleteBackup _ _ \<Rightarrow> True | _ \<Rightarrow> False)"

type_synonym work = "string \<times> string \<times> job"

definition work_of :: "task \<Rightarrow> work" where
  "work_of tk = (tk_operationID tk, tk_serverID tk, tk_job tk)"

text \<open>The work on backups that is under way.\<close>

definition backup_work :: "task list \<Rightarrow> work set" where
  "backup_work ts = {work_of tk | tk. tk \<in> set ts \<and> is_backup_job (tk_job tk)}"

definition works_on :: "Memory \<Rightarrow> work \<Rightarrow> string \<Rightarrow> Backup \<Rightarrow> bool" where
  "works_on m x s b = (case x of (operationID, serverID, j) \<Rightarrow> serverID = s \<and>
     (case j of
        JobBackup _ \<Rightarrow> b_Status b = ''creating'' \<and> mget (m_backupOperations m) operationID = Some (b_ID b)
      | JobRestoreBackup i _ \<Rightarrow> b_Status b = ''restoring'' \<and> b_ID b = i
      | JobDeleteBackup i _ \<Rightarrow> b_Status b = ''deleting'' \<and> b_ID b = i
      | _ \<Rightarrow> False))"

definition unique_backups :: "Memory \<Rightarrow> bool" where
  "unique_backups m \<longleftrightarrow> (\<forall>s. distinct (map b_ID (backups_of m s))) \<and>
     (\<forall>s s' b b'. b \<in> set (backups_of m s) \<longrightarrow> b' \<in> set (backups_of m s') \<longrightarrow> b_ID b = b_ID b' \<longrightarrow> s = s') \<and>
     (\<forall>s b. b \<in> set (backups_of m s) \<longrightarrow> b_ID b \<noteq> [])"

text \<open>A backup is at rest (and restorable if it is ready), or exactly the work that its status names is
  under way; every piece of work has its backup.\<close>

definition backup_ok :: "Memory \<Rightarrow> work set \<Rightarrow> string \<Rightarrow> Backup \<Rightarrow> bool" where
  "backup_ok m J s b \<longleftrightarrow>
     b_Status b \<in> {''failed'', ''deleted''} \<or>
     b_Status b = ''ready'' \<and> backupChecksumValidLocked m b \<or>
     (\<exists>x \<in> J. works_on m x s b) \<and> (b_Status b = ''restoring'' \<longrightarrow> backupChecksumValidLocked m b)"

definition backups_ok :: "Memory \<Rightarrow> work set \<Rightarrow> bool" where
  "backups_ok m J \<longleftrightarrow> unique_backups m \<and>
     (\<forall>s b. b \<in> set (backups_of m s) \<longrightarrow> backup_ok m J s b) \<and>
     (\<forall>x \<in> J. \<exists>b \<in> set (backups_of m (fst (snd x))). works_on m x (fst (snd x)) b)"

text \<open>How a step may change the backups: none disappears, statuses follow the transition table, new
  ones are being created.\<close>

definition backups_evolve :: "Memory \<Rightarrow> Memory \<Rightarrow> bool" where
  "backups_evolve m m' \<longleftrightarrow>
     (\<forall>s b. b \<in> set (backups_of m s) \<longrightarrow>
        (\<exists>b' \<in> set (backups_of m' s). b_ID b' = b_ID b \<and> BackupStatusTransitionAllowed (b_Status b) (b_Status b'))) \<and>
     (\<forall>s b'. b' \<in> set (backups_of m' s) \<longrightarrow> b_Status b' = ''creating'' \<or> (\<exists>b \<in> set (backups_of m s). b_ID b = b_ID b'))"

lemma transition_refl [simp]: "BackupStatusTransitionAllowed x x"
  by (simp add: BackupStatusTransitionAllowed_def)

lemma evolve_same: "m_backups m' = m_backups m \<Longrightarrow> backups_evolve m m'"
  by (auto simp: backups_evolve_def backups_of_def)

lemma checksum_valid_same:
  assumes "mget (m_backupChecksums m') (b_ID b) = mget (m_backupChecksums m) (b_ID b)"
  shows "backupChecksumValidLocked m' b = backupChecksumValidLocked m b"
  unfolding backupChecksumValidLocked_def assms ..

lemma works_on_same:
  assumes "mget (m_backupOperations m') (fst x) = mget (m_backupOperations m) (fst x)"
  shows "works_on m' x = works_on m x"
  using assms by (cases x) (auto simp: works_on_def fun_eq_iff split: job.splits)

lemma backups_ok_same:
  assumes "m_backups m' = m_backups m" "m_backupChecksums m' = m_backupChecksums m" "m_backupOperations m' = m_backupOperations m"
  shows "backups_ok m' J = backups_ok m J"
proof -
  have "backups_of m' = backups_of m" "backupChecksumValidLocked m' = backupChecksumValidLocked m" "works_on m' = works_on m"
    using assms checksum_valid_same [of m' _ m] works_on_same [of m' _ m] by (simp_all add: backups_of_def fun_eq_iff)
  then show ?thesis by (simp add: backups_ok_def unique_backups_def backup_ok_def)
qed

section \<open>Lookup\<close>

lemma backupLocked_Some:
  assumes "backupLocked s i m = Some (k, b)"
  shows "k < length (backups_of m s)" "backups_of m s ! k = b" "b_ID b = i"
  using assms by (auto simp: backupLocked_def backups_of_def find_Some_iff nth_enumerate_eq)

lemma backupLocked_found:
  assumes "unique_backups m" "b \<in> set (backups_of m s)" "b_ID b = i"
  shows "\<exists>k. backupLocked s i m = Some (k, b)"
proof (cases "backupLocked s i m")
  case None
  from assms(2) obtain k where "k < length (backups_of m s)" "backups_of m s ! k = b" by (auto simp: in_set_conv_nth)
  then have "(k, b) \<in> set (enumerate 0 (backups_of m s))" by (auto simp: in_set_enumerate_eq)
  with None assms(3) show ?thesis by (auto simp: backupLocked_def backups_of_def find_None_iff)
next
  case (Some kb)
  obtain k c where kb: "kb = (k, c)" by (cases kb)
  with Some backupLocked_Some [of s i m k c] have "k < length (backups_of m s)" "backups_of m s ! k = c" "b_ID c = i" by simp_all
  moreover from this have "c = b"
    using assms unfolding unique_backups_def by (metis distinct_map in_set_conv_nth inj_onD)
  ultimately show ?thesis using Some kb by simp
qed

text \<open>Replacing one backup by another of the same identifier.\<close>

lemma in_replaced:
  assumes "unique_backups m" "backupLocked s i m = Some (k, b)" "b_ID b' = i"
  shows "c \<in> set ((backups_of m s)[k := b']) \<longleftrightarrow> c = b' \<or> c \<in> set (backups_of m s) \<and> b_ID c \<noteq> i"
proof -
  note l = backupLocked_Some [OF assms(2)]
  have d: "distinct (map b_ID (backups_of m s))" using assms(1) by (simp add: unique_backups_def)
  then have "set ((backups_of m s)[k := b']) = insert b' (set (backups_of m s) - {b})"
    using set_update_distinct [OF _ l(1)] l(2) by (simp add: distinct_map)
  moreover have "c = b" if "c \<in> set (backups_of m s)" "b_ID c = i" for c
    using d that l by (metis distinct_map inj_onD nth_mem)
  ultimately show ?thesis using l(3) by auto
qed

lemma replaced_ids: "backupLocked s i m = Some (k, b) \<Longrightarrow> b_ID b' = i \<Longrightarrow> map b_ID ((backups_of m s)[k := b']) = map b_ID (backups_of m s)"
  using backupLocked_Some [of s i m k b] by (simp add: map_update list_update_same_conv)


lemma same_backup:
  assumes "unique_backups m" "b \<in> set (backups_of m s)" "c \<in> set (backups_of m t)" "b_ID b = b_ID c"
  shows "s = t \<and> b = c"
proof -
  have "s = t" using assms unfolding unique_backups_def by blast
  moreover have "b = c" using assms calculation unfolding unique_backups_def by (metis distinct_map inj_onD)
  ultimately show ?thesis by simp
qed

lemma replace_backup:
  assumes ok: "backups_ok m J" and found: "backupLocked s i m = Some (k, b)" and id: "b_ID b' = i"
    and m': "backups_of m' = (backups_of m)(s := (backups_of m s)[k := b'])"
    and sums: "\<And>j. j \<noteq> i \<Longrightarrow> mget (m_backupChecksums m') j = mget (m_backupChecksums m) j"
    and new: "backup_ok m' J' s b'"
    and keep: "\<And>x t c. x \<in> J \<Longrightarrow> works_on m x t c \<Longrightarrow> b_ID c \<noteq> i \<Longrightarrow> x \<in> J' \<and> works_on m' x t c"
    and work: "\<And>x. x \<in> J' \<Longrightarrow> fst (snd x) = s \<and> works_on m' x s b' \<or> x \<in> J \<and> \<not> works_on m x s b"
    and move: "BackupStatusTransitionAllowed (b_Status b) (b_Status b')"
  shows "backups_ok m' J' \<and> backups_evolve m m'"
proof -
  from ok have u: "unique_backups m" by (simp add: backups_ok_def)
  note l = backupLocked_Some [OF found]
  have b: "b \<in> set (backups_of m s)" using l by (metis nth_mem)
  have mem: "c \<in> set (backups_of m' t) \<longleftrightarrow> t = s \<and> c = b' \<or> c \<in> set (backups_of m t) \<and> b_ID c \<noteq> i" for c t
    using in_replaced [OF u found id, of c] same_backup [OF u b, of c t] l(3) by (auto simp: m')
  have ids: "map b_ID (backups_of m' t) = map b_ID (backups_of m t)" for t
    using replaced_ids [OF found id] by (simp add: m')
  have idset: "\<exists>c' \<in> set (backups_of m t). b_ID c' = b_ID c" if "c \<in> set (backups_of m' t)" for c t
  proof -
    from that have "b_ID c \<in> set (map b_ID (backups_of m' t))" by simp
    then show ?thesis unfolding ids by auto
  qed
  have u': "unique_backups m'"
    using u idset unfolding unique_backups_def ids by metis
  have old: "backup_ok m' J' t c" if "c \<in> set (backups_of m t)" "b_ID c \<noteq> i" for t c
  proof -
    have "backup_ok m J t c" using ok that by (simp add: backups_ok_def)
    moreover have "backupChecksumValidLocked m' c = backupChecksumValidLocked m c" by (rule checksum_valid_same [OF sums [OF that(2)]])
    ultimately show ?thesis using keep [OF _ _ that(2)] unfolding backup_ok_def by metis
  qed
  have works: "\<exists>c \<in> set (backups_of m' (fst (snd x))). works_on m' x (fst (snd x)) c" if "x \<in> J'" for x
    using work [OF that]
  proof
    assume "x \<in> J \<and> \<not> works_on m x s b"
    moreover from this ok obtain c where "c \<in> set (backups_of m (fst (snd x)))" "works_on m x (fst (snd x)) c"
      unfolding backups_ok_def by blast
    moreover from calculation have "b_ID c \<noteq> i" using same_backup [OF u b, of c] l(3) by metis
    ultimately show ?thesis using keep mem by blast
  qed (use mem in blast)
  have "backups_evolve m m'"
    unfolding backups_evolve_def
  proof (intro conjI allI impI, goal_cases)
    case (1 t c)
    show ?case
    proof (cases "b_ID c = i")
      case True
      with same_backup [OF u b 1] l(3) have "t = s" "c = b" by auto
      with mem [of b' s] id move l(3) show ?thesis by auto
    next
      case False
      with 1 mem [of c t] show ?thesis by auto
    qed
  next
    case (2 t c)
    then show ?case using idset by blast
  qed
  with u' old works new mem show ?thesis unfolding backups_ok_def by metis
qed


section \<open>Calls\<close>

lemma set_backup_of: "backups_of (set_backup s k b m) = (backups_of m)(s := (backups_of m s)[k := b])"
  by (auto simp: backups_of_def mget_zero_def fun_eq_iff)

lemma backups_of_put:
  "m_backups m' = mput s ((mget_zero [] (m_backups m) s)[k := b]) (m_backups m) \<Longrightarrow> backups_of m' = (backups_of m)(s := (backups_of m s)[k := b])"
  by (auto simp: backups_of_def mget_zero_def fun_eq_iff)

lemma backups_of_cong: "m_backups m' = m_backups m \<Longrightarrow> backups_of m' = backups_of m"
  by (simp add: backups_of_def fun_eq_iff)

lemma works_on_busy: "works_on m x s b \<Longrightarrow> b_Status b \<in> {''creating'', ''restoring'', ''deleting''}"
  by (auto simp: works_on_def split: prod.splits job.splits)

lemma works_on_unique: "works_on m x s b \<Longrightarrow> works_on m x t c \<Longrightarrow> s = t \<and> b_ID b = b_ID c"
  by (auto simp: works_on_def split: prod.splits job.splits)

lemma works_on_server: "works_on m x s b \<Longrightarrow> fst (snd x) = s"
  by (auto simp: works_on_def split: prod.splits)

lemma backups_new:
  assumes ok: "backups_ok m J" and b: "b_ID b = i" "i \<noteq> []" "b_Status b = ''creating''"
    and fresh: "\<And>t c. c \<in> set (backups_of m t) \<Longrightarrow> b_ID c \<noteq> i" "\<And>x. x \<in> J \<Longrightarrow> fst x \<noteq> operation"
    and m': "backups_of m' = (backups_of m)(s := b # backups_of m s)" "m_backupChecksums m' = m_backupChecksums m"
      "m_backupOperations m' = mput operation i (m_backupOperations m)"
  shows "backups_ok m' (insert (operation, s, JobBackup a) J) \<and> backups_evolve m m'"
proof -
  let ?x = "(operation, s, JobBackup a)"
  from ok have u: "unique_backups m" by (simp add: backups_ok_def)
  have mem: "c \<in> set (backups_of m' t) \<longleftrightarrow> t = s \<and> c = b \<or> c \<in> set (backups_of m t)" for c t by (auto simp: m')
  have "i \<notin> b_ID ` set (backups_of m s)" using fresh(1) by blast
  then have "distinct (map b_ID (backups_of m' t))" for t using u b by (simp add: m' unique_backups_def)
  moreover have "t = t'" if "c \<in> set (backups_of m' t)" "c' \<in> set (backups_of m' t')" "b_ID c = b_ID c'" for c c' t t'
    using that u fresh b unfolding mem unique_backups_def by metis
  ultimately have u': "unique_backups m'" using u b unfolding unique_backups_def mem by metis
  have works: "works_on m' x = works_on m x" if "x \<in> J" for x
    using fresh(2) [OF that] by (intro works_on_same) (simp add: m')
  have mine: "works_on m' ?x s b" using b by (simp add: works_on_def m')
  have sums: "backupChecksumValidLocked m' = backupChecksumValidLocked m"
    using checksum_valid_same [of m' _ m] by (simp add: m' fun_eq_iff)
  have "backup_ok m' (insert ?x J) t c" if "c \<in> set (backups_of m' t)" for t c
  proof (cases "c \<in> set (backups_of m t)")
    case True
    with ok have "backup_ok m J t c" by (simp add: backups_ok_def)
    with works show ?thesis unfolding backup_ok_def sums by auto
  next
    case False
    with that mem have "t = s" "c = b" by auto
    with mine b show ?thesis by (auto simp: backup_ok_def)
  qed
  moreover have "\<exists>c \<in> set (backups_of m' (fst (snd x))). works_on m' x (fst (snd x)) c" if "x \<in> insert ?x J" for x
  proof (cases "x = ?x")
    case True
    with mine mem show ?thesis by auto
  next
    case False
    with that have x: "x \<in> J" by simp
    with ok obtain c where "c \<in> set (backups_of m (fst (snd x)))" "works_on m x (fst (snd x)) c" unfolding backups_ok_def by blast
    with works [OF x] mem show ?thesis by auto
  qed
  moreover have "backups_evolve m m'" using b(3) by (fastforce simp: backups_evolve_def mem intro: bexI [OF _ mem [THEN iffD2]])
  ultimately show ?thesis using u' unfolding backups_ok_def by blast
qed

text \<open>Starting to restore or to delete a backup that is at rest.\<close>

lemma backups_begin:
  assumes ok: "backups_ok m J" and found: "backupLocked s i m = Some (k, b)" "b_Status b \<notin> {''creating'', ''restoring'', ''deleting''}"
    and m': "backups_of m' = (backups_of m)(s := (backups_of m s)[k := b\<lparr>b_Status := st\<rparr>])"
      "m_backupChecksums m' = m_backupChecksums m" "m_backupOperations m' = m_backupOperations m"
    and job: "works_on m' (operation, s, j) s (b\<lparr>b_Status := st\<rparr>)" "st = ''restoring'' \<Longrightarrow> backupChecksumValidLocked m b"
    and move: "BackupStatusTransitionAllowed (b_Status b) st"
  shows "backups_ok m' (insert (operation, s, j) J) \<and> backups_evolve m m'"
proof (rule replace_backup [OF ok found(1) _ m'(1)])
  show "b_ID (b\<lparr>b_Status := st\<rparr>) = i" using backupLocked_Some [OF found(1)] by simp
  have "backupChecksumValidLocked m' (b\<lparr>b_Status := st\<rparr>) = backupChecksumValidLocked m b"
    by (simp add: backupChecksumValidLocked_def m'(2) cong: option.case_cong)
  then show "backup_ok m' (insert (operation, s, j) J) s (b\<lparr>b_Status := st\<rparr>)"
    using job unfolding backup_ok_def by auto
  have same: "works_on m' x = works_on m x" for x by (intro works_on_same) (simp add: m')
  then show "x \<in> insert (operation, s, j) J \<and> works_on m' x t c" if "x \<in> J" "works_on m x t c" for x t c using that by simp
  show "fst (snd x) = s \<and> works_on m' x s (b\<lparr>b_Status := st\<rparr>) \<or> x \<in> J \<and> \<not> works_on m x s b" if "x \<in> insert (operation, s, j) J" for x
    using that job(1) works_on_busy [of m x s b] found(2) by auto
qed (use move m' in simp_all)

text \<open>Finishing the work on a backup; no other work is under way for the same server.\<close>

lemma backups_finish:
  assumes ok: "backups_ok m J" and x: "x \<in> J" "works_on m x s b" "backupLocked s i m = Some (k, b)"
    and only: "\<And>y. y \<in> J \<Longrightarrow> y \<noteq> x \<Longrightarrow> fst y \<noteq> fst x \<and> fst (snd y) \<noteq> fst (snd x)"
    and m': "backups_of m' = (backups_of m)(s := (backups_of m s)[k := b'])" "b_ID b' = i"
      "\<And>j. j \<noteq> i \<Longrightarrow> mget (m_backupChecksums m') j = mget (m_backupChecksums m) j"
      "\<And>j. j \<noteq> fst x \<Longrightarrow> mget (m_backupOperations m') j = mget (m_backupOperations m) j"
    and new: "b_Status b' = ''deleted'' \<or> b_Status b' = ''ready'' \<and> backupChecksumValidLocked m' b'"
    and move: "BackupStatusTransitionAllowed (b_Status b) (b_Status b')"
  shows "backups_ok m' (J - {x}) \<and> backups_evolve m m'"
proof (rule replace_backup [OF ok x(3) m'(2,1,3)])
  note l = backupLocked_Some [OF x(3)]
  show "backup_ok m' (J - {x}) s b'" using new by (auto simp: backup_ok_def)
  show "y \<in> J - {x} \<and> works_on m' y t c" if "y \<in> J" "works_on m y t c" "b_ID c \<noteq> i" for y t c
  proof -
    have "y \<noteq> x" using works_on_unique [OF x(2)] that l(3) by auto
    with only [OF that(1)] m'(4) have "works_on m' y = works_on m y" by (intro works_on_same) simp
    with \<open>y \<noteq> x\<close> that show ?thesis by simp
  qed
  show "fst (snd y) = s \<and> works_on m' y s b' \<or> y \<in> J \<and> \<not> works_on m y s b" if "y \<in> J - {x}" for y
    using that only [of y] works_on_server [OF x(2)] works_on_server [of m y s b] by auto
qed (use move m' in simp_all)


section \<open>Handler calls\<close>

lemma backup_work_add:
  "backup_work (ts @ [tk]) = (if is_backup_job (tk_job tk) then insert (work_of tk) (backup_work ts) else backup_work ts)"
  by (auto simp: backup_work_def)

lemma backup_work_ops: "x \<in> backup_work ts \<Longrightarrow> \<exists>tk \<in> set ts. fst x = tk_operationID tk \<and> fst (snd x) = tk_serverID tk"
  by (auto simp: backup_work_def work_of_def)

lemma task_active:
  assumes "world_ok \<lparr>w_store = m, w_tasks = ts\<rparr>" "tk \<in> set ts"
  shows "activeExclusiveOperationLocked m (tk_serverID tk) \<noteq> None"
proof -
  note w = world_okE [OF assms(1)]
  have tk: "task_ok m tk" using w(4) assms(2) by (simp add: list_all_iff)
  then obtain p where p: "mget (m_operations m) (tk_operationID tk) = Some p" "op_ServerID p = tk_serverID tk"
    by (auto simp: task_ok_def)
  with task_ok_unfinished [OF tk] w(5) [OF p(1)] have "blocks_server (tk_serverID tk) p" by (simp add: blocks_server_def)
  with active_None p(1) show ?thesis by blast
qed

text \<open>At most one goroutine per server.\<close>

lemma task_unique:
  assumes "world_ok \<lparr>w_store = m, w_tasks = ts\<rparr>" "tk \<in> set ts" "tk' \<in> set ts"
    "tk_operationID tk = tk_operationID tk' \<or> tk_serverID tk = tk_serverID tk'"
  shows "tk = tk'"
proof -
  note w = world_okE [OF assms(1)]
  have op: "\<exists>p. mget (m_operations m) (tk_operationID t) = Some p \<and> blocks_server (tk_serverID t) p" if "t \<in> set ts" for t
  proof -
    have t: "task_ok m t" using w(4) that by (simp add: list_all_iff)
    then obtain p where p: "mget (m_operations m) (tk_operationID t) = Some p" "op_ServerID p = tk_serverID t"
      by (auto simp: task_ok_def)
    with task_ok_unfinished [OF t] w(5) [OF p(1)] show ?thesis by (simp add: blocks_server_def)
  qed
  have "tk_operationID tk = tk_operationID tk'"
    using assms(4) op [OF assms(2)] op [OF assms(3)] w(1) unfolding ledger_ok_def by metis
  with w(3) assms(2,3) show ?thesis by (auto simp: distinct_map inj_on_def)
qed

lemma call_backups:
  assumes "store_call L m t m'" "world_ok \<lparr>w_store = m, w_tasks = ts\<rparr>" "backups_ok m (backup_work ts)"
  shows "backups_ok m' (backup_work (ts @ (case t of None \<Rightarrow> [] | Some tk \<Rightarrow> [tk]))) \<and> backups_evolve m m'"
proof -
  have frame: ?thesis if "m_backups m' = m_backups m" "m_backupChecksums m' = m_backupChecksums m"
    "m_backupOperations m' = m_backupOperations m" "\<And>tk. t = Some tk \<Longrightarrow> \<not> is_backup_job (tk_job tk)"
    using that assms(3) backups_ok_same [OF that(1-3)] evolve_same [OF that(1)]
    by (auto simp: backup_work_add split: option.split)
  note w = world_okE [OF assms(2)]
  from assms(1) show ?thesis
  proof (cases rule: store_call_shape)
    case calm
    with calm_frame [OF calm(2)] show ?thesis by (intro frame) simp_all
  next
    case (create tk e inp key)
    then show ?thesis by (intro frame) (auto simp: created_def is_backup_job_def)
  next
    case (power tk s)
    then show ?thesis by (intro frame) (auto simp: powered_on_def is_backup_job_def)
  next
    case (mutate tk e s)
    then have "m_backups m' = m_backups m \<and> m_backupChecksums m' = m_backupChecksums m \<and> m_backupOperations m' = m_backupOperations m \<and>
      \<not> is_backup_job (tk_job tk)"
      using mutation_frame [of L e s] by (fastforce simp: mutated_def is_backup_job_def)
    with mutate show ?thesis by (intro frame) auto
  next
    case (backup tk e s)
    then obtain name u where c: "m_backups m' = mput s (new_backup (uuid e (Suc 0)) name (clk e (Suc 0)) # mget_zero [] (m_backups m) s) (m_backups m)"
      "m_backupOperations m' = mput (uuid e 0) (uuid e (Suc 0)) (m_backupOperations m)" "m_backupChecksums m' = m_backupChecksums m"
      "tk = \<lparr>tk_operationID = uuid e 0, tk_serverID = s, tk_job = JobBackup u, tk_phase = Spawned\<rparr>"
      by (auto simp: backed_up_def)
    have "backups_of m' = (backups_of m)(s := new_backup (uuid e (Suc 0)) name (clk e (Suc 0)) # backups_of m s)"
      by (auto simp: backups_of_def c(1) mget_zero_def fun_eq_iff)
    moreover have "fst x \<noteq> uuid e 0" if "x \<in> backup_work ts" for x
    proof -
      from backup_work_ops [OF that] obtain tk' where "tk' \<in> set ts" "fst x = tk_operationID tk'" by blast
      moreover from this w(4) have "mhas (m_operations m) (tk_operationID tk')" by (intro task_ok_in) (simp add: list_all_iff)
      ultimately show ?thesis using backup(2) by (auto simp: fresh_ids_def)
    qed
    moreover have "b_ID b \<noteq> uuid e (Suc 0)" if "b \<in> set (backups_of m t)" for t b
      using that backup(2) by (auto simp: fresh_ids_def backups_of_def)
    moreover have "uuid e (Suc 0) \<noteq> []" using backup(2) by (simp add: fresh_ids_def)
    ultimately show ?thesis
      using backups_new [OF assms(3), of "new_backup (uuid e (Suc 0)) name (clk e (Suc 0))" "uuid e (Suc 0)" "uuid e 0" m' s u] c backup(1)
      by (simp add: backup_work_add is_backup_job_def work_of_def)
  next
    case (restore tk s b)
    from restore(2) obtain m1 now v i backup i0 u where c: "m1 = reconcileNodeLivenessLocked now m" "restore_target s b m1 = Inr (v, i, backup)"
      "m_backups m' = mput s ((mget_zero [] (m_backups m) s)[i := backup\<lparr>b_Status := ''restoring''\<rparr>]) (m_backups m)"
      "m_backupChecksums m' = m_backupChecksums m" "m_backupOperations m' = m_backupOperations m"
      "tk = \<lparr>tk_operationID = i0, tk_serverID = s, tk_job = JobRestoreBackup b u, tk_phase = Spawned\<rparr>"
      unfolding restoring_def by - (elim exE conjE, rule that, (assumption | simp)+)
    note r = restore_targetD [OF c(2)]
    note upd = backups_of_put [OF c(3)]
    have found: "backupLocked s b m = Some (i, backup)" using r(2) c(1) by (simp add: backupLocked_def)
    have valid: "backupChecksumValidLocked m backup" using r(4) checksum_valid_same [of m1 backup m] c(1) by simp
    show ?thesis
      using backups_begin [OF assms(3) found, of m' "''restoring''" i0 "JobRestoreBackup b u"] c(4-6) upd r(3) valid
        backupLocked_Some [OF found] restore(1)
      by (simp add: backup_work_add is_backup_job_def work_of_def works_on_def BackupStatusTransitionAllowed_def)
  next
    case (discard tk s b)
    then obtain u v i backup i0 where c: "delete_target s b m = Inr (v, i, backup)"
      "m_backups m' = mput s ((mget_zero [] (m_backups m) s)[i := backup\<lparr>b_Status := ''deleting''\<rparr>]) (m_backups m)"
      "m_backupChecksums m' = m_backupChecksums m" "m_backupOperations m' = m_backupOperations m"
      "tk = \<lparr>tk_operationID = i0, tk_serverID = s, tk_job = JobDeleteBackup b u, tk_phase = Spawned\<rparr>"
      by (auto simp: discarding_def)
    note r = delete_targetD [OF c(1)]
    note l = backupLocked_Some [OF r(2)]
    note upd = backups_of_put [OF c(2)]
    have "backup_ok m (backup_work ts) s backup" using assms(3) l by (metis backups_ok_def nth_mem)
    moreover have "\<not> works_on m x s backup" if "x \<in> backup_work ts" for x
      using backup_work_ops [OF that] task_active [OF assms(2)] works_on_server [of m x s backup] r(4) by metis
    ultimately have "b_Status backup \<notin> {''creating'', ''restoring'', ''deleting''}"
      unfolding backup_ok_def by auto
    then show ?thesis
      using backups_begin [OF assms(3) r(2), of m' "''deleting''" i0 "JobDeleteBackup b u"] c(3-5) upd r(3) l discard(1)
      by (simp add: backup_work_add is_backup_job_def work_of_def works_on_def)
  qed
qed

section \<open>Checksums\<close>

lemma hex_value_digit:
  assumes "x < 16"
  shows "hex_value (hex_digit x) = Some x"
  using assms by (auto simp: hex_value_def hex_digit_def byte_def Let_def)

lemma byte_range: "byte c < 256"
  by (simp add: byte_def of_char_def)

lemma char_of_byte [simp]: "char_of (byte c) = c"
  by (simp add: byte_def)

lemma hex_decode_encode: "hex_decode (hex_encode bytes) = Some bytes"
proof (induction bytes)
  case (Cons c bytes)
  have "byte c div 16 < 16" using byte_range [of c] by (simp add: less_mult_imp_div_less)
  with Cons show ?case by (simp add: hex_encode_def hex_value_digit)
qed (simp add: hex_encode_def)

text \<open>What is relied on of \<^verbatim>\<open>crypto/sha256\<close>: a digest has 32 bytes.\<close>

definition digests_ok :: "lib \<Rightarrow> bool" where
  "digests_ok L \<longleftrightarrow> (\<forall>s. length (sha256 L s) = 32)"

lemma ready_valid:
  assumes "digests_ok L" "mget (m_backupChecksums m) (b_ID b) = Some (backup_checksum L i v now)"
  shows "backupChecksumValidLocked m (backup_ready L i v now b)"
proof -
  have "b_ID (backup_ready L i v now b) = b_ID b" "b_Checksum (backup_ready L i v now b) = Some (backup_checksum L i v now)"
    by (simp_all add: backup_ready_def backup_cleared_def Let_def)
  with assms show ?thesis
    by (simp add: backupChecksumValidLocked_def backup_checksum_def HasPrefix_def TrimPrefix_def hex_decode_encode digests_ok_def)
qed

section \<open>Finishing\<close>

text \<open>The goroutine of a backup operation finds its operation and its backup.\<close>

lemma finishBackup_effect:
  assumes "current_op i s p m" "digests_ok L" "unique_backups m" "b \<in> set (backups_of m s)" "mget (m_backupOperations m) i = Some (b_ID b)"
  obtains k b' q where "backupLocked s (b_ID b) m = Some (k, b)" "b_ID b' = b_ID b" "b_Status b' = ''ready''"
    "backups_of (finishBackup_end L e i s actor m) = (backups_of m)(s := (backups_of m s)[k := b'])"
    "backupChecksumValidLocked (finishBackup_end L e i s actor m) b'"
    "m_backupChecksums (finishBackup_end L e i s actor m) = mput (b_ID b) (the (b_Checksum b')) (m_backupChecksums m)"
    "m_backupOperations (finishBackup_end L e i s actor m) = mdel i (m_backupOperations m)"
    "m_operations (finishBackup_end L e i s actor m) = mput i q (m_operations m)" "op_Status q = ''succeeded''"
proof -
  let ?put = "\<lambda>q. m\<lparr>m_operations := mput i q (m_operations m)\<rparr>"
  obtain q v where c: "complete_section (clk e 0) i s m = (Some q, ?put q)" "op_Status q = ''succeeded''"
    "advances i p q m (?put q)" "mget (m_servers m) s = Some v" using current_complete [OF assms(1)] .
  obtain k where k: "backupLocked s (b_ID b) m = Some (k, b)" using backupLocked_found [OF assms(3,4)] by blast
  then have k': "backupLocked s (b_ID b) (?put q) = Some (k, b)" by (simp add: backupLocked_def)
  have id: "mget_zero [] (m_backupOperations m) i = b_ID b" "b_ID b \<noteq> []"
    using assms(3-5) by (auto simp: mget_zero_def unique_backups_def)
  let ?b = "backup_ready L (b_ID b) v (clk e 0) b"
  have sel: "b_ID ?b = b_ID b" "b_Status ?b = ''ready''" "b_Checksum ?b = Some (backup_checksum L (b_ID b) v (clk e 0))"
    by (simp_all add: backup_ready_def backup_cleared_def Let_def)
  let ?m = "finishBackup_end L e i s actor m"
  have m: "?m = audit_backup e actor ''backup.create'' s (Some v) True i
     (((set_backup s k ?b (?put q))\<lparr>m_backupChecksums := mput (b_ID b) (the (b_Checksum ?b)) (m_backupChecksums m),
        m_backupOperations := mdel i (m_backupOperations m)\<rparr>))"
    using c k' id sel by (simp add: finishBackup_end_def Let_def mget_zero_def)
  have f: "m_backupChecksums ?m = mput (b_ID b) (the (b_Checksum ?b)) (m_backupChecksums m)"
    "m_backupOperations ?m = mdel i (m_backupOperations m)" "m_operations ?m = mput i q (m_operations m)"
    "m_backups ?m = mput s ((mget_zero [] (m_backups m) s)[k := ?b]) (m_backups m)"
    by (simp_all add: m audit_backup_def)
  show thesis
    by (rule that [OF k sel(1,2) backups_of_put [OF f(4)] _ f(1-3) c(2)]) (rule ready_valid [OF assms(2)], simp add: f sel)
qed


lemma finishRestore_effect:
  assumes "current_op i s p m" "unique_backups m" "b \<in> set (backups_of m s)" "backupChecksumValidLocked m b"
  obtains k b' q where "backupLocked s (b_ID b) m = Some (k, b)" "b_ID b' = b_ID b" "b_Status b' = ''ready''"
    "backups_of (finishRestoreBackup_end e i s (b_ID b) actor m) = (backups_of m)(s := (backups_of m s)[k := b'])"
    "backupChecksumValidLocked (finishRestoreBackup_end e i s (b_ID b) actor m) b'"
    "m_backupChecksums (finishRestoreBackup_end e i s (b_ID b) actor m) = m_backupChecksums m"
    "m_backupOperations (finishRestoreBackup_end e i s (b_ID b) actor m) = m_backupOperations m"
    "m_operations (finishRestoreBackup_end e i s (b_ID b) actor m) = mput i q (m_operations m)" "op_Status q = ''succeeded''"
proof -
  obtain k where k: "backupLocked s (b_ID b) m = Some (k, b)" using backupLocked_found [OF assms(2,3)] by blast
  from assms(1) have t: "mget (m_operations m) i = Some p" "\<not> isTerminalOperation (op_Status p)"
    "operationTargetsCurrentServer p (mget (m_servers m) s)" by (simp_all add: current_op_def)
  obtain q where q: "finish_checked None (clk e 0) (mget (m_servers m) s) p = (True, True, q)" "op_Status q = ''succeeded''"
    using finish_checked_ends [OF current_op_ok [OF assms(1)] t(2,3), where failure = None and now = "clk e 0"] by auto
  let ?b = "(backup_cleared b)\<lparr>b_Status := ''ready''\<rparr>"
  let ?m = "finishRestoreBackup_end e i s (b_ID b) actor m"
  have m: "?m = audit_backup e actor ''backup.restore'' s (mget (m_servers m) s) True i
      (observe_server s (restored (clk e 0)) (set_backup s k ?b (m\<lparr>m_operations := mput i q (m_operations m)\<rparr>)))"
    using k t q assms(4) by (simp add: finishRestoreBackup_end_def Let_def)
  have f: "m_backupChecksums ?m = m_backupChecksums m" "m_backupOperations ?m = m_backupOperations m"
    "m_operations ?m = mput i q (m_operations m)" "m_backups ?m = mput s ((mget_zero [] (m_backups m) s)[k := ?b]) (m_backups m)"
    by (simp_all add: m audit_backup_def)
  have "backupChecksumValidLocked ?m ?b = backupChecksumValidLocked m b"
    by (simp add: backupChecksumValidLocked_def f(1) backup_cleared_def cong: option.case_cong)
  with assms(4) show thesis
    by (intro that [OF k _ _ backups_of_put [OF f(4)] _ f(1-3) q(2)]) (simp_all add: backup_cleared_def)
qed

lemma finishDelete_effect:
  assumes "current_op i s p m" "unique_backups m" "b \<in> set (backups_of m s)"
  obtains k b' q where "backupLocked s (b_ID b) m = Some (k, b)" "b_ID b' = b_ID b" "b_Status b' = ''deleted''"
    "backups_of (finishDeleteBackup_end e i s (b_ID b) actor m) = (backups_of m)(s := (backups_of m s)[k := b'])"
    "m_backupChecksums (finishDeleteBackup_end e i s (b_ID b) actor m) = mdel (b_ID b) (m_backupChecksums m)"
    "m_backupOperations (finishDeleteBackup_end e i s (b_ID b) actor m) = m_backupOperations m"
    "m_operations (finishDeleteBackup_end e i s (b_ID b) actor m) = mput i q (m_operations m)" "op_Status q = ''succeeded''"
proof -
  obtain k where k: "backupLocked s (b_ID b) m = Some (k, b)" using backupLocked_found [OF assms(2,3)] by blast
  from assms(1) have t: "mget (m_operations m) i = Some p" "\<not> isTerminalOperation (op_Status p)"
    "operationTargetsCurrentServer p (mget (m_servers m) s)" by (simp_all add: current_op_def)
  obtain q where q: "finish_checked None (clk e 0) (mget (m_servers m) s) p = (True, True, q)" "op_Status q = ''succeeded''"
    using finish_checked_ends [OF current_op_ok [OF assms(1)] t(2,3), where failure = None and now = "clk e 0"] by auto
  let ?b = "(backup_cleared b)\<lparr>b_Status := ''deleted'', b_DeletedAt := Some (clk e 0)\<rparr>"
  let ?m = "finishDeleteBackup_end e i s (b_ID b) actor m"
  have m: "?m = audit_backup e actor ''backup.delete'' s (mget (m_servers m) s) True i
      ((set_backup s k ?b (m\<lparr>m_operations := mput i q (m_operations m)\<rparr>))\<lparr>m_backupChecksums := mdel (b_ID b) (m_backupChecksums m),
         m_backupDeleteFrom := mdel i (m_backupDeleteFrom m)\<rparr>)"
    using k t q by (simp add: finishDeleteBackup_end_def Let_def)
  have f: "m_backupChecksums ?m = mdel (b_ID b) (m_backupChecksums m)" "m_backupOperations ?m = m_backupOperations m"
    "m_operations ?m = mput i q (m_operations m)" "m_backups ?m = mput s ((mget_zero [] (m_backups m) s)[k := ?b]) (m_backups m)"
    by (simp_all add: m audit_backup_def)
  show thesis by (rule that [OF k _ _ backups_of_put [OF f(4)] f(1-3) q(2)]) (simp_all add: backup_cleared_def)
qed

text \<open>The end of a goroutine's work on a backup.\<close>

lemma backup_job_ends:
  assumes ok: "backups_ok m J" and L: "digests_ok L" and x: "work_of tk \<in> J" "is_backup_job (tk_job tk)"
    and only: "\<And>y. y \<in> J \<Longrightarrow> y \<noteq> work_of tk \<Longrightarrow> fst y \<noteq> fst (work_of tk) \<and> fst (snd y) \<noteq> fst (snd (work_of tk))"
    and op: "current_op (tk_operationID tk) (tk_serverID tk) p m"
  shows "backups_ok (end_section L e tk m) (J - {work_of tk}) \<and> backups_evolve m (end_section L e tk m) \<and>
    (\<exists>q. m_operations (end_section L e tk m) = mput (tk_operationID tk) q (m_operations m) \<and> op_Status q = ''succeeded'')"
proof -
  let ?s = "tk_serverID tk" and ?i = "tk_operationID tk" and ?m = "end_section L e tk m"
  from ok have u: "unique_backups m" by (simp add: backups_ok_def)
  from ok x(1) obtain b where b: "b \<in> set (backups_of m ?s)" "works_on m (work_of tk) ?s b"
    by (auto simp: backups_ok_def work_of_def)
  have bok: "backup_ok m J ?s b" using ok b(1) by (simp add: backups_ok_def)
  from x(2) consider (create) a where "tk_job tk = JobBackup a" | (restore) j a where "tk_job tk = JobRestoreBackup j a"
    | (delete) j a where "tk_job tk = JobDeleteBackup j a" by (auto simp: is_backup_job_def split: job.splits)
  then show ?thesis
  proof cases
    case (create a)
    with b(2) have c: "b_Status b = ''creating''" "mget (m_backupOperations m) ?i = Some (b_ID b)" by (simp_all add: works_on_def work_of_def)
    have m: "?m = finishBackup_end L e ?i ?s a m" by (simp add: end_section_def create)
    show ?thesis
    proof (rule finishBackup_effect [OF op L u b(1) c(2), of e a, folded m], goal_cases)
      case (1 k b' q)
      have "backups_ok ?m (J - {work_of tk}) \<and> backups_evolve m ?m"
        by (rule backups_finish [OF ok x(1) b(2) 1(1) only 1(4) 1(2)]) (use 1(3,5-7) in \<open>simp_all add: work_of_def BackupStatusTransitionAllowed_def c\<close>)
      with 1(8,9) show ?case by blast
    qed
  next
    case (restore j a)
    with b(2) have c: "b_Status b = ''restoring''" "b_ID b = j" by (simp_all add: works_on_def work_of_def)
    with bok have v: "backupChecksumValidLocked m b" by (auto simp: backup_ok_def)
    have m: "?m = finishRestoreBackup_end e ?i ?s (b_ID b) a m" by (simp add: end_section_def restore c)
    show ?thesis
    proof (rule finishRestore_effect [OF op u b(1) v, of e a, folded m], goal_cases)
      case (1 k b' q)
      have "backups_ok ?m (J - {work_of tk}) \<and> backups_evolve m ?m"
        by (rule backups_finish [OF ok x(1) b(2) 1(1) only 1(4) 1(2)]) (use 1(3,5-7) in \<open>simp_all add: work_of_def BackupStatusTransitionAllowed_def c\<close>)
      with 1(8,9) show ?case by blast
    qed
  next
    case (delete j a)
    with b(2) have c: "b_Status b = ''deleting''" "b_ID b = j" by (simp_all add: works_on_def work_of_def)
    have m: "?m = finishDeleteBackup_end e ?i ?s (b_ID b) a m" by (simp add: end_section_def delete c)
    show ?thesis
    proof (rule finishDelete_effect [OF op u b(1), of e a, folded m], goal_cases)
      case (1 k b' q)
      have "backups_ok ?m (J - {work_of tk}) \<and> backups_evolve m ?m"
        by (rule backups_finish [OF ok x(1) b(2) 1(1) only 1(4) 1(2)]) (use 1(3,5,6) in \<open>simp_all add: work_of_def BackupStatusTransitionAllowed_def c\<close>)
      with 1(7,8) show ?case by blast
    qed
  qed
qed


text \<open>Sections that do not end the work on a backup leave the backups alone.\<close>

definition backups_same :: "Memory \<Rightarrow> Memory \<Rightarrow> bool" where
  "backups_same m m' \<longleftrightarrow> m_backups m' = m_backups m \<and> m_backupChecksums m' = m_backupChecksums m \<and>
     m_backupOperations m' = m_backupOperations m"

lemma backups_same_simps [simp]:
  "backups_same m m" "backups_same m (n\<lparr>m_operations := x1\<rparr>) = backups_same m n"
  "backups_same m (observe_server s f n) = backups_same m n"
  "backups_same m (recordAuditLocked a1 a2 a3 a4 a5 a6 a7 a8 n) = backups_same m n"
  by (simp_all add: backups_same_def)

lemma complete_backups_same: "complete_section now i s m = (r, m') \<Longrightarrow> backups_same m m'"
  by (auto simp: complete_section_def split: option.splits prod.splits bool.splits)

lemmas backups_same_intros = handled_intros [where P = "backups_same m" for m]

lemma end_section_backups_same:
  assumes "\<not> is_backup_job (tk_job tk)"
  shows "backups_same m (end_section L e tk m)"
proof -
  have "backups_same m (finishProvision_end now i s m)" "backups_same m (finishPower_end now a i s m)"
    "backups_same m (finishReconcile_end e i s b1 b2 m)" for now a i s b1 b2
    unfolding finishProvision_end_def finishPower_end_def finishReconcile_end_def
    by (intro backups_same_intros; auto dest: complete_backups_same)+
  with assms show ?thesis by (simp add: end_section_def is_backup_job_def split: job.splits)
qed

lemma runtime_section_backups_same: "backups_same m (runtime_section e d tk o' sv st m)"
proof -
  have "backups_same m (runtime_fail err now i o' m)" for err now i by (simp add: runtime_fail_def)
  then have "backups_same m (finishProvisionWithRuntime_end now c i s o' sv st m)"
    "backups_same m (finishPowerWithRuntime_end now a pw ins i s o' sv m)" for now c i s a pw ins
    unfolding finishProvisionWithRuntime_end_def finishPowerWithRuntime_end_def
    by (intro backups_same_intros; auto dest: complete_backups_same)+
  then show ?thesis by (simp add: runtime_section_def split: job.split)
qed


section \<open>Every step\<close>

lemma backup_work_append: "backup_work (ts @ us) = backup_work ts \<union> backup_work us"
  by (auto simp: backup_work_def)

lemma backup_work_Cons:
  "backup_work (tk # ts) = (if is_backup_job (tk_job tk) then insert (work_of tk) (backup_work ts) else backup_work ts)"
  by (auto simp: backup_work_def)

lemma backup_work_replaced: "work_of tk' = work_of tk \<Longrightarrow> backup_work (ts1 @ tk' # ts2) = backup_work (ts1 @ tk # ts2)"
  by (simp add: backup_work_append backup_work_Cons) (simp add: work_of_def)

lemma backup_work_removed:
  assumes "distinct (map tk_operationID (ts1 @ tk # ts2))"
  shows "backup_work (ts1 @ ts2) = backup_work (ts1 @ tk # ts2) - {work_of tk}"
proof -
  have "work_of tk \<notin> backup_work (ts1 @ ts2)"
    using assms backup_work_ops [of "work_of tk" "ts1 @ ts2"] by (auto simp: work_of_def)
  then show ?thesis by (auto simp: backup_work_append backup_work_Cons)
qed

lemma backup_work_other: "\<not> is_backup_job (tk_job tk) \<Longrightarrow> backup_work (ts1 @ tk # ts2) = backup_work (ts1 @ ts2)"
  by (auto simp: backup_work_def)

lemma backups_same_ok: "backups_same m m' \<Longrightarrow> backups_ok m J \<Longrightarrow> backups_ok m' J \<and> backups_evolve m m'"
  using backups_ok_same [of m' m J] evolve_same [of m' m] by (simp add: backups_same_def)

text \<open>What a section does: it goes on with the same work, or ends it.\<close>

lemma run_section_shape:
  assumes "run_section L e d tk m = (t', m')" "task_ok m tk" "ledger_ok m"
  obtains (continues) tk' where "t' = Some tk'" "work_of tk' = work_of tk" "backups_same m m'"
  | (ends) "t' = None" "m' = end_section L e tk m"
  | (runtime) "t' = None" "\<not> is_backup_job (tk_job tk)" "backups_same m m'"
proof (cases "tk_phase tk")
  case Spawned
  from task_ok_unfinished [OF assms(2)] obtain p where p: "mget (m_operations m) (tk_operationID tk) = Some p"
    "\<not> isTerminalOperation (op_Status p)" by blast
  obtain q m1 where b: "beginOperation (clk e 0) (tk_operationID tk) m = (True, m1)"
    using beginOperation_advances [OF assms(3) p] by metis
  moreover have "backups_same m m1" using b p(2) by (auto simp: beginOperation_def Let_def split: option.splits if_splits)
  ultimately show thesis using Spawned assms(1) continues by (auto simp: run_section_def work_of_def)
next
  case Began
  have "backups_same m (finishPower_progress (clk e 0) (tk_operationID tk) m)"
    by (simp add: finishPower_progress_def split: option.split)
  with Began assms(1) continues ends show thesis by (auto simp: run_section_def work_of_def split: if_splits)
next
  case Halfway
  with assms(1) ends show thesis by (auto simp: run_section_def)
next
  case RuntimeBegan
  with assms(1) continues show thesis by (auto simp: run_section_def work_of_def)
next
  case (RuntimeRead o' sv st)
  with assms(2) have "\<not> is_backup_job (tk_job tk)" by (auto simp: task_ok_def is_power_def is_backup_job_def split: job.splits)
  with RuntimeRead assms(1) runtime runtime_section_backups_same show thesis by (auto simp: run_section_def)
qed

lemma run_backups:
  assumes run: "run_section L e d tk m = (t', m')" and w: "world_ok \<lparr>w_store = m, w_tasks = ts1 @ tk # ts2\<rparr>"
    and L: "digests_ok L" and ok: "backups_ok m (backup_work (ts1 @ tk # ts2))"
  shows "backups_ok m' (backup_work (ts1 @ (case t' of None \<Rightarrow> [] | Some tk' \<Rightarrow> [tk']) @ ts2)) \<and> backups_evolve m m' \<and>
    (t' = None \<and> is_backup_job (tk_job tk) \<longrightarrow>
       (\<exists>q. mget (m_operations m') (tk_operationID tk) = Some q \<and> op_Status q = ''succeeded''))"
proof -
  note W = world_okE [OF w]
  have tk: "task_ok m tk" using W(4) by simp
  from run tk W(1) show ?thesis
  proof (cases rule: run_section_shape)
    case (continues tk')
    with backups_same_ok [OF continues(3) ok] backup_work_replaced [OF continues(2)] show ?thesis by simp
  next
    case runtime
    with backups_same_ok [OF runtime(3) ok] backup_work_other [OF runtime(2), of ts1 ts2] runtime(2) show ?thesis by simp
  next
    case ends
    show ?thesis
    proof (cases "is_backup_job (tk_job tk)")
      case True
      from task_ok_unfinished [OF tk] obtain p where p: "mget (m_operations m) (tk_operationID tk) = Some p"
        "\<not> isTerminalOperation (op_Status p)" by blast
      have "op_ServerID p = tk_serverID tk" using tk p(1) by (auto simp: task_ok_def)
      then have cur: "current_op (tk_operationID tk) (tk_serverID tk) p m"
        using W(1) p targets_view [OF W(7) [OF p]] by (simp add: current_op_def)
      have mem: "work_of tk \<in> backup_work (ts1 @ tk # ts2)" using True by (auto simp: backup_work_def)
      have only: "fst y \<noteq> fst (work_of tk) \<and> fst (snd y) \<noteq> fst (snd (work_of tk))"
        if y: "y \<in> backup_work (ts1 @ tk # ts2)" "y \<noteq> work_of tk" for y
      proof -
        from y(1) obtain tk' where tk': "y = work_of tk'" "tk' \<in> set (ts1 @ tk # ts2)" by (auto simp: backup_work_def)
        with y(2) have "tk \<noteq> tk'" by auto
        with task_unique [OF w _ tk'(2), of tk] have "tk_operationID tk \<noteq> tk_operationID tk' \<and> tk_serverID tk \<noteq> tk_serverID tk'" by auto
        with tk'(1) show ?thesis by (auto simp: work_of_def)
      qed
      have ended: "backups_ok (end_section L e tk m) (backup_work (ts1 @ tk # ts2) - {work_of tk}) \<and>
          backups_evolve m (end_section L e tk m) \<and>
          (\<exists>q. m_operations (end_section L e tk m) = mput (tk_operationID tk) q (m_operations m) \<and> op_Status q = ''succeeded'')"
        by (rule backup_job_ends [OF ok L mem True only cur])
      have "\<exists>q. mget (m_operations m') (tk_operationID tk) = Some q \<and> op_Status q = ''succeeded''"
        using ended ends by auto
      with ended backup_work_removed [OF W(3)] ends show ?thesis by simp
    next
      case False
      with backups_same_ok [OF end_section_backups_same [OF False] ok, of L e] ends backup_work_other [OF False, of ts1 ts2]
        False
      show ?thesis by simp
    qed
  qed
qed

lemma other_backups:
  assumes "other_call L m m'" "ledger_ok m" "backups_ok m J"
  shows "backups_ok m' J \<and> backups_evolve m m'"
proof -
  have "backups_same m m'" using other_cases [OF assms(1,2)] by (auto simp: backups_same_def runtime_same_def)
  with assms(3) show ?thesis by (rule backups_same_ok [rotated])
qed

lemma world_step_backups:
  assumes "world_step L w w'" "world_ok w" "digests_ok L" "backups_ok (w_store w) (backup_work (w_tasks w))"
  shows "backups_ok (w_store w') (backup_work (w_tasks w')) \<and> backups_evolve (w_store w) (w_store w')"
  using assms
proof (induction rule: world_step.induct)
  case (call m t m' ts)
  then show ?case using call_backups [OF call(1)] by simp
next
  case (other m m' ts)
  note w = world_okE [OF other(2)]
  from other_backups [OF other(1) w(1)] other(4) show ?case by simp
next
  case (run e d tk m t' m' ts1 ts2)
  from run_backups [OF run(1,2,3)] run(4) show ?case by simp
qed

end
