(* ===== verification/Game_Catalog.thy ===== *)
theory Game_Catalog
  imports Backup_Store
begin

text \<open>
  The development catalog: how the embedded bundles become game definitions
  (\<^verbatim>\<open>internal/store/game_bundles.go\<close>) and the nodes, servers, allocations and backups the
  in-memory store starts with (\<^verbatim>\<open>internal/store/seed.go\<close>). Reading the embedded files, their
  canonical digest and the JSON encoding of a runtime target are the parameters of
  \<open>catalog_source\<close>. Texts outside ASCII are written as their UTF-8 bytes.
\<close>

section \<open>Game definitions (game_bundles.go)\<close>

record developmentGamePresentation =
  dgp_Summary :: string
  dgp_Status :: string
  dgp_Servers :: int
  dgp_Icon :: string
  dgp_DefaultMemory :: int
  dgp_DefaultDisk :: int

definition paper_summary :: string where
  "paper_summary =
     [CHR 0xE9, CHR 0xAB, CHR 0x98, CHR 0xE6, CHR 0x80, CHR 0xA7, CHR 0xE8, CHR 0x83, CHR 0xBD, CHR 0x20, CHR 0x4D, CHR 0x69,
      CHR 0x6E, CHR 0x65, CHR 0x63, CHR 0x72, CHR 0x61, CHR 0x66, CHR 0x74, CHR 0x20, CHR 0x4A, CHR 0x61, CHR 0x76, CHR 0x61,
      CHR 0x20, CHR 0x44, CHR 0x65, CHR 0x64, CHR 0x69, CHR 0x63, CHR 0x61, CHR 0x74, CHR 0x65, CHR 0x64, CHR 0x20, CHR 0x53,
      CHR 0x65, CHR 0x72, CHR 0x76, CHR 0x65, CHR 0x72]"

definition factorio_summary :: string where
  "factorio_summary =
     [CHR 0xE7, CHR 0xA8, CHR 0xB3, CHR 0xE5, CHR 0xAE, CHR 0x9A, CHR 0xE7, CHR 0x9A, CHR 0x84, CHR 0xE5, CHR 0xB7, CHR 0xA5,
      CHR 0xE5, CHR 0x8E, CHR 0x82, CHR 0xE5, CHR 0x8D, CHR 0x8F, CHR 0xE4, CHR 0xBD, CHR 0x9C, CHR 0xE5, CHR 0xAD, CHR 0x98,
      CHR 0xE6, CHR 0xA1, CHR 0xA3, CHR 0xE6, CHR 0x9C, CHR 0x8D, CHR 0xE5, CHR 0x8A, CHR 0xA1, CHR 0xE5, CHR 0x99, CHR 0xA8]"

definition vintagestory_summary :: string where
  "vintagestory_summary =
     [CHR 0xE5, CHR 0xBC, CHR 0xBA, CHR 0xE8, CHR 0xB0, CHR 0x83, CHR 0xE6, CHR 0x8E, CHR 0xA2, CHR 0xE7, CHR 0xB4, CHR 0xA2,
      CHR 0xE4, CHR 0xB8, CHR 0x8E, CHR 0xE6, CHR 0x8C, CHR 0x81, CHR 0xE4, CHR 0xB9, CHR 0x85, CHR 0xE4, CHR 0xB8, CHR 0x96,
      CHR 0xE7, CHR 0x95, CHR 0x8C, CHR 0xE7, CHR 0x9A, CHR 0x84, CHR 0xE7, CHR 0x8B, CHR 0xAC, CHR 0xE7, CHR 0xAB, CHR 0x8B,
      CHR 0xE6, CHR 0x9C, CHR 0x8D, CHR 0xE5, CHR 0x8A, CHR 0xA1, CHR 0xE5, CHR 0x99, CHR 0xA8]"

definition developmentGamePresentations :: "(string, developmentGamePresentation) gomap" where
  "developmentGamePresentations =
     [(''io.gugumanager.papermc'', \<lparr>dgp_Summary = paper_summary, dgp_Status = ''approved'', dgp_Servers = 6,
         dgp_Icon = ''cube'', dgp_DefaultMemory = 4096, dgp_DefaultDisk = 25\<rparr>),
      (''io.gugumanager.factorio'', \<lparr>dgp_Summary = factorio_summary, dgp_Status = ''approved'', dgp_Servers = 3,
         dgp_Icon = ''factory'', dgp_DefaultMemory = 4096, dgp_DefaultDisk = 20\<rparr>),
      (''io.gugumanager.vintagestory'', \<lparr>dgp_Summary = vintagestory_summary, dgp_Status = ''pending'', dgp_Servers = 1,
         dgp_Icon = ''mountain'', dgp_DefaultMemory = 3072, dgp_DefaultDisk = 18\<rparr>)]"

definition developmentGameOrder :: "string list" where
  "developmentGameOrder = [''io.gugumanager.papermc'', ''io.gugumanager.factorio'', ''io.gugumanager.vintagestory'']"

definition paperMCGameID :: string where
  "paperMCGameID = ''io.gugumanager.papermc''"

definition paperMCRuntimeImage :: string where
  "paperMCRuntimeImage =
     ''itzg/minecraft-server@sha256:da92e9d215c159cd53a0e960d9a9cb67b5455ba1a7fca5b35d92be1e0bde857a''"

definition untrustedBundleSupportReasons :: "string list" where
  "untrustedBundleSupportReasons = [''BUNDLE_SIGNATURE_UNVERIFIED'', ''RUNTIME_TARGET_UNAVAILABLE'']"

definition markCatalogBundleUntrusted :: "string \<Rightarrow> GameDefinition \<Rightarrow> GameDefinition" where
  "markCatalogBundleUntrusted source game =
     game\<lparr>g_Signed := False, g_Verified := False, g_Runnable := False, g_Supported := False,
       g_TrustLevel := ''L0_LOCAL'', g_Source := source, g_SupportReasons := untrustedBundleSupportReasons\<rparr>"

text \<open>The embedded files in the order of the directory, the canonical digest of a document, and the
  JSON text of a runtime target.\<close>

record catalog_source =
  FixedBundles :: "(string \<times> string) list option"
  CanonicalBundleDigest :: "string \<Rightarrow> string option"
  marshal_target :: "GameRuntimeTarget \<Rightarrow> string"

definition runtimeTargetDigest :: "lib \<Rightarrow> catalog_source \<Rightarrow> GameRuntimeTarget \<Rightarrow> string" where
  "runtimeTargetDigest L C target = ''sha256:'' @ hex_encode (sha256 L (marshal_target C (target\<lparr>grt_Digest := []\<rparr>)))"

definition bundle_target :: "lib \<Rightarrow> catalog_source \<Rightarrow> fixedBundleDocument \<Rightarrow> GameRuntimeTarget" where
  "bundle_target L C document =
     (let target = \<lparr>grt_Digest = [], grt_Adapter = fbd_Adapter document, grt_Image = fbd_Image document,
            grt_User = fbd_User document, grt_WorkingDir = fbd_WorkingDir document, grt_Command = fbd_Command document,
            grt_Environment = fbd_Environment document, grt_DataMounts = fbd_DataMounts document,
            grt_Ports = fbd_Ports document, grt_Stop = fbd_Stop document, grt_Health = fbd_Health document,
            grt_Console = fbd_Console document\<rparr>
      in target\<lparr>grt_Digest := runtimeTargetDigest L C target\<rparr>)"

text \<open>\<open>None\<close> is the error of a PaperMC target that is not the supported one.\<close>

definition markEmbeddedRuntimeSupport ::
  "lib \<Rightarrow> catalog_source \<Rightarrow> fixedBundleDocument \<Rightarrow> GameDefinition \<Rightarrow> GameDefinition option" where
  "markEmbeddedRuntimeSupport L C document game0 =
     (let target = bundle_target L C document; game = game0\<lparr>g_RuntimeTarget := Some target\<rparr> in
      if g_ID game \<noteq> paperMCGameID then Some game
      else if grt_Adapter target \<noteq> ''container/v1'' \<or> grt_Image target \<noteq> paperMCRuntimeImage \<or>
              map_option rca_Adapter (grt_Console target) \<noteq> Some ''minecraft-rcon/v1''
      then None
      else Some (game\<lparr>g_Runnable := True, g_Supported := False, g_SupportReasons := [''BUNDLE_SIGNATURE_UNVERIFIED'']\<rparr>))"

definition catalog_game ::
  "lib \<Rightarrow> catalog_source \<Rightarrow> string \<Rightarrow> fixedBundleDocument \<Rightarrow> developmentGamePresentation \<Rightarrow> string \<Rightarrow> GameDefinition option" where
  "catalog_game L C content document presentation digest =
     markEmbeddedRuntimeSupport L C document
       (markCatalogBundleUntrusted ''embedded-v1alpha1''
         \<lparr>g_ID = fbd_ID document, g_BundleDigest = digest, g_Name = fbd_Name document, g_Summary = dgp_Summary presentation,
          g_Version = fbd_Version document, g_GameVersion = fbd_GameVersion document, g_Status = dgp_Status presentation,
          g_Capabilities = fbd_Capabilities document, g_Platforms = fbd_Platforms document, g_Servers = dgp_Servers presentation,
          g_Icon = dgp_Icon presentation, g_DefaultMemory = dgp_DefaultMemory presentation,
          g_DefaultDisk = dgp_DefaultDisk presentation, g_Signed = False, g_Verified = False, g_Runnable = False,
          g_Supported = False, g_TrustLevel = [], g_Source = [], g_SupportReasons = [], g_RuntimeTarget = None,
          g_BundleDocument = content\<rparr>)"

text \<open>The loop over the bundles, with the entries collected so far.\<close>

fun catalog_entries ::
  "lib \<Rightarrow> catalog_source \<Rightarrow> (string \<times> string) list \<Rightarrow> (string, GameDefinition) gomap \<Rightarrow> (string, GameDefinition) gomap option" where
  "catalog_entries L C [] byID = Some byID"
| "catalog_entries L C ((filename, content) # rest) byID =
     (case decodeFixedBundle (codec L) content of
        None \<Rightarrow> None
      | Some document \<Rightarrow>
     (case mget developmentGamePresentations (fbd_ID document) of
        None \<Rightarrow> None
      | Some presentation \<Rightarrow>
     if mhas byID (fbd_ID document) then None
     else (case CanonicalBundleDigest C content of
        None \<Rightarrow> None
      | Some digest \<Rightarrow>
     (case catalog_game L C content document presentation digest of
        None \<Rightarrow> None
      | Some game \<Rightarrow> catalog_entries L C rest (mput (fbd_ID document) game byID)))))"

definition loadFixedGameCatalog :: "lib \<Rightarrow> catalog_source \<Rightarrow> GameDefinition list option" where
  "loadFixedGameCatalog L C =
     (case FixedBundles C of
        None \<Rightarrow> None
      | Some bundles \<Rightarrow>
     (case catalog_entries L C bundles [] of
        None \<Rightarrow> None
      | Some byID \<Rightarrow>
          if list_all (mhas byID) developmentGameOrder \<and> length byID = length developmentGameOrder
          then Some (map (\<lambda>gameID. the (mget byID gameID)) developmentGameOrder) else None))"

section \<open>The development data (seed.go)\<close>

text \<open>The metric points are small whole numbers, on which \<^verbatim>\<open>float64\<close> arithmetic is exact.\<close>

definition seed_history :: "gotime \<Rightarrow> int \<Rightarrow> int \<Rightarrow> MetricPoint list" where
  "seed_history now cpu memory =
     map (\<lambda>i. let wave = (int i * 7) mod 13 - 6
              in \<lparr>mp_Timestamp = now - int i * 5 * minute, mp_CPUPercent = Fin (max 0 (cpu + wave)) 0,
                  mp_MemoryBytes = memory + (int i mod 4) * 83000000\<rparr>) (rev [0..<12])"

definition zero_game :: GameDefinition where
  "zero_game = \<lparr>g_ID = [], g_BundleDigest = [], g_Name = [], g_Summary = [], g_Version = [], g_GameVersion = [], g_Status = [],
     g_Capabilities = [], g_Platforms = [], g_Servers = 0, g_Icon = [], g_DefaultMemory = 0, g_DefaultDisk = 0, g_Signed = False,
     g_Verified = False, g_Runnable = False, g_Supported = False, g_TrustLevel = [], g_Source = [], g_SupportReasons = [],
     g_RuntimeTarget = None, g_BundleDocument = []\<rparr>"

definition addNode :: "Node \<Rightarrow> Memory \<Rightarrow> Memory" where
  "addNode node m = m\<lparr>m_nodes := mput (n_ID node) node (m_nodes m), m_nodeOrder := m_nodeOrder m @ [n_ID node]\<rparr>"

definition addGame :: "GameDefinition \<Rightarrow> Memory \<Rightarrow> Memory" where
  "addGame game m = m\<lparr>m_games := mput (g_ID game) game (m_games m), m_gameOrder := m_gameOrder m @ [g_ID game]\<rparr>"

definition addServer :: "Server \<Rightarrow> Memory \<Rightarrow> Memory" where
  "addServer server m = m\<lparr>m_servers := mput (srv_ID server) server (m_servers m), m_serverOrder := m_serverOrder m @ [srv_ID server]\<rparr>"

definition seed_node1 :: "gotime \<Rightarrow> Node" where
  "seed_node1 now =
     \<lparr>n_ID = ''11111111-1111-4111-8111-111111111111'', n_Name = ''nimbus-east-01'', n_Condition = ''available'',
      n_Version = ''agent 0.1.0-dev'', n_Region = ''Shanghai / East'', n_Architecture = [], n_Draining = False, n_DrainReason = [],
      n_Address = ''10.0.10.21'', n_LastHeartbeatAt = now - 8 * second,
      n_CPUCores = 16, n_MemoryBytes = 68719476736, n_DiskBytes = 1099511627776, n_AllocatedMemoryBytes = 38654705664,
      n_AllocatedDiskBytes = 461708984320, n_RunningServers = 6, n_TotalServers = 9,
      n_Capabilities = [NodeCapabilityRuntimeContainer, NodeCapabilityServerReconcile, ''console/v1'', ''backup/v1'', ''metrics/v1'']\<rparr>"

definition seed_node2 :: "gotime \<Rightarrow> Node" where
  "seed_node2 now =
     \<lparr>n_ID = ''22222222-2222-4222-8222-222222222222'', n_Name = ''atlas-edge-02'', n_Condition = ''available'',
      n_Version = ''agent 0.1.0-dev'', n_Region = ''Singapore / Edge'', n_Architecture = [], n_Draining = False, n_DrainReason = [],
      n_Address = ''10.0.20.14'', n_LastHeartbeatAt = now - 12 * second,
      n_CPUCores = 8, n_MemoryBytes = 34359738368, n_DiskBytes = 549755813888, n_AllocatedMemoryBytes = 17179869184,
      n_AllocatedDiskBytes = 239075328000, n_RunningServers = 3, n_TotalServers = 5,
      n_Capabilities = [NodeCapabilityRuntimeContainer, NodeCapabilityServerReconcile, ''console/v1'', ''metrics/v1'']\<rparr>"

definition seed_node3 :: "gotime \<Rightarrow> Node" where
  "seed_node3 now =
     \<lparr>n_ID = ''33333333-3333-4333-8333-333333333333'', n_Name = ''harbor-lab-03'', n_Condition = ''offline'',
      n_Version = ''agent 0.0.9'', n_Region = ''Tokyo / Lab'', n_Architecture = [], n_Draining = False, n_DrainReason = [],
      n_Address = ''10.0.30.18'', n_LastHeartbeatAt = now - 3 * minute,
      n_CPUCores = 8, n_MemoryBytes = 34359738368, n_DiskBytes = 549755813888, n_AllocatedMemoryBytes = 8589934592,
      n_AllocatedDiskBytes = 107374182400, n_RunningServers = 1, n_TotalServers = 2,
      n_Capabilities = [''container/v1'', ''console/v1'']\<rparr>"

definition seed_server1 :: "gotime \<Rightarrow> GameDefinition \<Rightarrow> Server" where
  "seed_server1 now game =
     \<lparr>srv_ID = ''aaaaaaaa-aaaa-4aaa-8aaa-aaaaaaaaaaaa'',
      srv_Name = [CHR 0xE9, CHR 0x9B, CHR 0xBE, CHR 0xE6, CHR 0xB8, CHR 0xAF, CHR 0xE7, CHR 0x94, CHR 0x9F, CHR 0xE5, CHR 0xAD, CHR 0x98,
      CHR 0xE6, CHR 0x9C, CHR 0x8D],
      srv_Description = ''Season 04 / whitelist'',
      srv_GameID = g_ID game, srv_GameBundleDigest = g_BundleDigest game, srv_GameDefinitionVersion = g_Version game,
      srv_GameName = g_Name game, srv_GameVersion = g_GameVersion game, srv_NodeID = ''11111111-1111-4111-8111-111111111111'',
      srv_NodeName = ''nimbus-east-01'', srv_LifecycleState = ''ready'', srv_DesiredPower = ''running'', srv_ObservedPower = ''running'',
      srv_NodeCondition = ''available'', srv_HealthCondition = ''healthy'', srv_Generation = 12, srv_ObservedGeneration = 12,
      srv_ObservedAt = now - 11 * second, srv_Allocation = ''10.0.10.21:25565'', srv_OwnerName = ''Liang Chen'',
      srv_Metrics = \<lparr>rm_CPUPercent = Fin 42 0, rm_MemoryBytes = 3221225472, rm_MemoryLimit = 4294967296, rm_DiskBytes = 18420000000,
        rm_DiskLimit = 26843545600, rm_NetworkRxBytes = 3100000000, rm_NetworkTxBytes = 1800000000, rm_PlayersOnline = 18,
        rm_PlayersCapacity = 40\<rparr>,
      srv_MetricHistory = seed_history now 42 3221225472, srv_Metadata = [], srv_UpdatedAt = now - 11 * second\<rparr>"

definition seed_server2 :: "gotime \<Rightarrow> GameDefinition \<Rightarrow> Server" where
  "seed_server2 now game =
     \<lparr>srv_ID = ''bbbbbbbb-bbbb-4bbb-8bbb-bbbbbbbbbbbb'',
      srv_Name = [CHR 0xE5, CHR 0x91, CHR 0xA8, CHR 0xE4, CHR 0xBA, CHR 0x94, CHR 0xE5, CHR 0xB7, CHR 0xA5, CHR 0xE5, CHR 0x8E, CHR 0x82],
      srv_Description = ''Co-op / autosave enabled'',
      srv_GameID = g_ID game, srv_GameBundleDigest = g_BundleDigest game, srv_GameDefinitionVersion = g_Version game,
      srv_GameName = g_Name game, srv_GameVersion = g_GameVersion game, srv_NodeID = ''22222222-2222-4222-8222-222222222222'',
      srv_NodeName = ''atlas-edge-02'', srv_LifecycleState = ''ready'', srv_DesiredPower = ''stopped'', srv_ObservedPower = ''stopped'',
      srv_NodeCondition = ''available'', srv_HealthCondition = ''unknown'', srv_Generation = 7, srv_ObservedGeneration = 7,
      srv_ObservedAt = now - 2 * minute, srv_Allocation = ''10.0.20.14:34197'', srv_OwnerName = ''Mina Wu'',
      srv_Metrics = \<lparr>rm_CPUPercent = Fin 0 0, rm_MemoryBytes = 1020000000, rm_MemoryLimit = 4294967296, rm_DiskBytes = 12500000000,
        rm_DiskLimit = 21474836480, rm_NetworkRxBytes = 0, rm_NetworkTxBytes = 0, rm_PlayersOnline = 0,
        rm_PlayersCapacity = 12\<rparr>,
      srv_MetricHistory = seed_history now 0 1020000000, srv_Metadata = [], srv_UpdatedAt = now - 2 * minute\<rparr>"

definition seed_server3 :: "gotime \<Rightarrow> GameDefinition \<Rightarrow> Server" where
  "seed_server3 now game =
     \<lparr>srv_ID = ''cccccccc-cccc-4ccc-8ccc-cccccccccccc'',
      srv_Name = ''Aurora Isles'',
      srv_Description = ''Experimental / node reconnect required'',
      srv_GameID = g_ID game, srv_GameBundleDigest = g_BundleDigest game, srv_GameDefinitionVersion = g_Version game,
      srv_GameName = g_Name game, srv_GameVersion = g_GameVersion game, srv_NodeID = ''33333333-3333-4333-8333-333333333333'',
      srv_NodeName = ''harbor-lab-03'', srv_LifecycleState = ''ready'', srv_DesiredPower = ''running'', srv_ObservedPower = ''unknown'',
      srv_NodeCondition = ''offline'', srv_HealthCondition = ''unknown'', srv_Generation = 3, srv_ObservedGeneration = 2,
      srv_ObservedAt = now - 3 * minute, srv_Allocation = ''10.0.30.18:42420'', srv_OwnerName = ''Kai Zhou'',
      srv_Metrics = \<lparr>rm_CPUPercent = Fin 0 0, rm_MemoryBytes = 0, rm_MemoryLimit = 3221225472, rm_DiskBytes = 8600000000,
        rm_DiskLimit = 19327352832, rm_NetworkRxBytes = 0, rm_NetworkTxBytes = 0, rm_PlayersOnline = 0,
        rm_PlayersCapacity = 8\<rparr>,
      srv_MetricHistory = seed_history now 16 1700000000, srv_Metadata = [], srv_UpdatedAt = now - 3 * minute\<rparr>"

text \<open>\<^verbatim>\<open>m.serverOrder\<close> lists the three servers in the order they were added.\<close>

definition seededAllocations :: "gotime \<Rightarrow> Allocation list" where
  "seededAllocations now =
     [\<lparr>al_ID = ''a1111111-1111-4111-8111-111111111111'', al_ServerID = ''aaaaaaaa-aaaa-4aaa-8aaa-aaaaaaaaaaaa'',
        al_NodeID = ''11111111-1111-4111-8111-111111111111'', al_BindIP = ''10.0.10.21'', al_Port = 25565, al_Protocol = ''tcp'',
        al_PortRef = ''game'', al_ContainerPort = 25565, al_Role = ''primary'', al_Primary = True, al_CreatedAt = now - 30 * 24 * hour,
        al_UpdatedAt = now - 11 * second\<rparr>,
      \<lparr>al_ID = ''a2222222-2222-4222-8222-222222222222'', al_ServerID = ''bbbbbbbb-bbbb-4bbb-8bbb-bbbbbbbbbbbb'',
        al_NodeID = ''22222222-2222-4222-8222-222222222222'', al_BindIP = ''10.0.20.14'', al_Port = 34197, al_Protocol = ''udp'',
        al_PortRef = ''game'', al_ContainerPort = 34197, al_Role = ''primary'', al_Primary = True, al_CreatedAt = now - 14 * 24 * hour,
        al_UpdatedAt = now - 2 * minute\<rparr>,
      \<lparr>al_ID = ''a3333333-3333-4333-8333-333333333333'', al_ServerID = ''cccccccc-cccc-4ccc-8ccc-cccccccccccc'',
        al_NodeID = ''33333333-3333-4333-8333-333333333333'', al_BindIP = ''10.0.30.18'', al_Port = 42420, al_Protocol = ''tcp'',
        al_PortRef = ''game'', al_ContainerPort = 42420, al_Role = ''primary'', al_Primary = True, al_CreatedAt = now - 7 * 24 * hour,
        al_UpdatedAt = now - 3 * minute\<rparr>]"

definition addAllocation :: "Memory \<Rightarrow> Allocation \<Rightarrow> Memory" where
  "addAllocation m allocation =
     m\<lparr>m_allocations := mput (al_ID allocation) allocation (m_allocations m),
       m_allocationOrder := mput (al_ServerID allocation)
         (mget_zero [] (m_allocationOrder m) (al_ServerID allocation) @ [al_ID allocation]) (m_allocationOrder m)\<rparr>"

definition startupOverrides :: "(string, (string, any) gomap) gomap" where
  "startupOverrides =
     [(''aaaaaaaa-aaaa-4aaa-8aaa-aaaaaaaaaaaa'', [(''rcon_password'', AnyString ''paper-rcon-seeded'')]),
      (''bbbbbbbb-bbbb-4bbb-8bbb-bbbbbbbbbbbb'', [(''server_token'', AnyString ''factorio-token-seeded'')])]"

text \<open>The loop over the server order; the first bundle that does not fit its server ends it.\<close>

fun seed_startups :: "lib \<Rightarrow> string list \<Rightarrow> Memory \<Rightarrow> Memory option" where
  "seed_startups L [] m = Some m"
| "seed_startups L (serverID # rest) m =
     (let server = mget_zero zero_server (m_servers m) serverID in
      case startupFromFixedBundle (codec L) server (mget_zero zero_game (m_games m) (srv_GameID server))
             (mget_zero [] startupOverrides serverID) of
        Inl _ \<Rightarrow> None
      | Inr (startup, startupValues) \<Rightarrow>
          seed_startups L rest (m\<lparr>m_startups := mput serverID startup (m_startups m),
            m_startupValues := mput serverID startupValues (m_startupValues m)\<rparr>))"

definition seed_console :: "gotime \<Rightarrow> ConsoleLine list" where
  "seed_console now =
     [\<lparr>cl_Sequence = 1841, cl_Timestamp = now - 44 * second, cl_Stream = ''system'',
        cl_Message = ''[panel] attached to console stream (development adapter)''\<rparr>,
      \<lparr>cl_Sequence = 1842, cl_Timestamp = now - 38 * second, cl_Stream = ''stdout'',
        cl_Message = (''[18:24:11 INFO]: Done (4.892s)! For help, type '' @ [CHR 0x22] @ ''help'' @ [CHR 0x22])\<rparr>,
      \<lparr>cl_Sequence = 1843, cl_Timestamp = now - 21 * second, cl_Stream = ''stdout'',
        cl_Message = ''[18:24:28 INFO]: [Server thread/INFO]: There are 18 of a max of 40 players online''\<rparr>,
      \<lparr>cl_Sequence = 1844, cl_Timestamp = now - 8 * second, cl_Stream = ''stdout'',
        cl_Message = ''[18:24:41 INFO]: Saving the game (this may take a moment!)''\<rparr>]"

definition seed_backup :: "string \<Rightarrow> string \<Rightarrow> int \<Rightarrow> string \<Rightarrow> gotime \<Rightarrow> Backup" where
  "seed_backup backupID name bytes checksum created =
     \<lparr>b_ID = backupID, b_Name = name, b_Status = ''ready'', b_SizeBytes = Some bytes, b_Checksum = Some checksum,
      b_ManifestDigest = None, b_StorageLocation = None, b_RetentionUntil = None, b_CreatedAt = created,
      b_CompletedAt = None, b_FailureCode = None, b_FailureMessage = None, b_DeletedAt = None\<rparr>"

definition seed_backups :: "gotime \<Rightarrow> (string, Backup list) gomap" where
  "seed_backups now =
     [(''aaaaaaaa-aaaa-4aaa-8aaa-aaaaaaaaaaaa'',
       [seed_backup ''d1111111-1111-4111-8111-111111111111'' ''pre-season-04'' 8420000000
        ''sha256:5c7a5c7a5c7a5c7a5c7a5c7a5c7a5c7a5c7a5c7a5c7a5c7a5c7a5c7a5c7a5c7a'' (now - 25 * hour),
        seed_backup ''d2222222-2222-4222-8222-222222222222'' ''before-config-tune'' 8190000000
        ''sha256:8a028a028a028a028a028a028a028a028a028a028a028a028a028a028a028a02'' (now - 4 * 24 * hour)]),
      (''bbbbbbbb-bbbb-4bbb-8bbb-bbbbbbbbbbbb'',
       [seed_backup ''d3333333-3333-4333-8333-333333333333'' ''autosave-2026-08-06'' 7420000000
        ''sha256:30c230c230c230c230c230c230c230c230c230c230c230c230c230c230c230c2'' (now - 20 * hour)]),
      (''cccccccc-cccc-4ccc-8ccc-cccccccccccc'', [])]"

definition seed_audit :: "env \<Rightarrow> gotime \<Rightarrow> AuditEvent list" where
  "seed_audit e now =
     [\<lparr>ae_ID = uuid e 0, ae_ActorName = ''GuGu Admin'', ae_Action = ''server.power.start'', ae_TargetType = ''server'',
        ae_TargetName = [CHR 0xE9, CHR 0x9B, CHR 0xBE, CHR 0xE6, CHR 0xB8, CHR 0xAF, CHR 0xE7, CHR 0x94, CHR 0x9F, CHR 0xE5, CHR 0xAD, CHR 0x98,
      CHR 0xE6, CHR 0x9C, CHR 0x8D], ae_Result = ''success'', ae_OperationID = ''e1111111-1111-4111-8111-111111111111'',
        ae_CreatedAt = now - 11 * second\<rparr>,
      \<lparr>ae_ID = uuid e 1, ae_ActorName = ''Mina Wu'', ae_Action = ''backup.create'', ae_TargetType = ''server'',
        ae_TargetName = [CHR 0xE5, CHR 0x91, CHR 0xA8, CHR 0xE4, CHR 0xBA, CHR 0x94, CHR 0xE5, CHR 0xB7, CHR 0xA5, CHR 0xE5, CHR 0x8E, CHR 0x82], ae_Result = ''success'', ae_OperationID = ''e2222222-2222-4222-8222-222222222222'',
        ae_CreatedAt = now - 21 * minute\<rparr>,
      \<lparr>ae_ID = uuid e 2, ae_ActorName = ''GuGu Admin'', ae_Action = ''catalog.approve'', ae_TargetType = ''game_definition'',
        ae_TargetName = ''PaperMC 1.0.0'', ae_Result = ''success'', ae_OperationID = ''e3333333-3333-4333-8333-333333333333'',
        ae_CreatedAt = now - 2 * hour\<rparr>,
      \<lparr>ae_ID = uuid e 3, ae_ActorName = ''GuGu Admin'', ae_Action = ''node.heartbeat'', ae_TargetType = ''node'',
        ae_TargetName = ''atlas-edge-02'', ae_Result = ''success'', ae_OperationID = ''e4444444-4444-4444-8444-444444444444'',
        ae_CreatedAt = now - 2 * hour\<rparr>,
      \<lparr>ae_ID = uuid e 4, ae_ActorName = ''System'', ae_Action = ''server.reconcile'', ae_TargetType = ''server'',
        ae_TargetName = ''Aurora Isles'', ae_Result = ''failure'', ae_OperationID = ''e5555555-5555-4555-8555-555555555555'',
        ae_CreatedAt = now - 3 * hour\<rparr>]"

text \<open>\<^verbatim>\<open>time.Now().UTC().Truncate(time.Second)\<close> drops the fraction of a second.\<close>

definition seed :: "lib \<Rightarrow> catalog_source \<Rightarrow> env \<Rightarrow> Memory \<Rightarrow> Memory option" where
  "seed L C e m0 =
     (let now = clk e 0 - clk e 0 mod second;
          m1 = addNode (seed_node3 now) (addNode (seed_node2 now) (addNode (seed_node1 now) m0))
      in case loadFixedGameCatalog L C of
           None \<Rightarrow> None
         | Some games \<Rightarrow>
             let m2 = fold addGame games m1;
                 paper = mget_zero zero_game (m_games m2) ''io.gugumanager.papermc'';
                 factorio = mget_zero zero_game (m_games m2) ''io.gugumanager.factorio'';
                 vintageStory = mget_zero zero_game (m_games m2) ''io.gugumanager.vintagestory'';
                 m3 = addServer (seed_server3 now vintageStory) (addServer (seed_server2 now factorio)
                        (addServer (seed_server1 now paper) m2));
                 m4 = foldl addAllocation m3 (seededAllocations now)
             in map_option (\<lambda>m. m\<lparr>m_console := mput ''aaaaaaaa-aaaa-4aaa-8aaa-aaaaaaaaaaaa'' (seed_console now) (m_console m),
                    m_backups := foldl (\<lambda>backups (serverID, list). mput serverID list backups) (m_backups m) (seed_backups now),
                    m_audit := seed_audit e now\<rparr>)
                  (seed_startups L (m_serverOrder m4) m4))"

text \<open>The rest of the constructor: the catalog, the checksums of the seeded backups, and one file
  system per server.\<close>

definition start_store ::
  "lib \<Rightarrow> catalog_source \<Rightarrow> env \<Rightarrow> env \<Rightarrow> string \<Rightarrow> string \<Rightarrow> string \<Rightarrow> string \<Rightarrow> Memory option" where
  "start_store L C e1 e2 environment adminEmail adminPassword agentToken =
     (case newMemoryAt L e1 environment adminEmail adminPassword agentToken of
        None \<Rightarrow> None
      | Some m \<Rightarrow>
     (case seed L C e2 m of
        None \<Rightarrow> None
      | Some m1 \<Rightarrow> let m2 = initializeBackupChecksums m1 in Some (m2\<lparr>m_fileSystems := rev (m_serverOrder m2) @ m_fileSystems m2\<rparr>)))"

end
