(* ===== verification/Start_State.thy ===== *)
theory Start_State
  imports Backup_Lifecycle Game_Catalog
begin

text \<open>
  The store the constructor builds satisfies every invariant of the world: no operation exists yet,
  and the seeded nodes, allocations and backups are consistent. The catalog never offers a verified
  or supported game, and only PaperMC can be installed.
\<close>


section \<open>The first state\<close>

lemma addGames_sel [simp]:
  "m_operations (fold addGame games m) = m_operations m"
  "m_idempotency (fold addGame games m) = m_idempotency m"
  "m_nodes (fold addGame games m) = m_nodes m"
  "m_servers (fold addGame games m) = m_servers m"
  "m_serverOrder (fold addGame games m) = m_serverOrder m"
  "m_allocations (fold addGame games m) = m_allocations m"
  "m_allocationOrder (fold addGame games m) = m_allocationOrder m"
  "m_backups (fold addGame games m) = m_backups m"
  "m_backupChecksums (fold addGame games m) = m_backupChecksums m"
  "m_backupOperations (fold addGame games m) = m_backupOperations m"
  by (induction games arbitrary: m; simp add: addGame_def)+

lemma seed_startups_sel:
  assumes "seed_startups L ids m = Some m'"
  shows "m_operations m' = m_operations m"
    "m_idempotency m' = m_idempotency m"
    "m_nodes m' = m_nodes m"
    "m_servers m' = m_servers m"
    "m_serverOrder m' = m_serverOrder m"
    "m_allocations m' = m_allocations m"
    "m_allocationOrder m' = m_allocationOrder m"
    "m_backups m' = m_backups m"
    "m_backupChecksums m' = m_backupChecksums m"
    "m_backupOperations m' = m_backupOperations m"
proof -
  have "m_operations m' = m_operations m \<and>
    m_idempotency m' = m_idempotency m \<and>
    m_nodes m' = m_nodes m \<and>
    m_servers m' = m_servers m \<and>
    m_serverOrder m' = m_serverOrder m \<and>
    m_allocations m' = m_allocations m \<and>
    m_allocationOrder m' = m_allocationOrder m \<and>
    m_backups m' = m_backups m \<and>
    m_backupChecksums m' = m_backupChecksums m \<and>
    m_backupOperations m' = m_backupOperations m" using assms
  proof (induction ids arbitrary: m)
    case (Cons i ids)
    then obtain x y where "seed_startups L ids (m\<lparr>m_startups := x, m_startupValues := y\<rparr>) = Some m'"
      by (auto simp: Let_def split: sum.splits)
    from Cons(1) [OF this] show ?case by simp
  qed simp
  then show "m_operations m' = m_operations m" "m_idempotency m' = m_idempotency m" "m_nodes m' = m_nodes m" "m_servers m' = m_servers m" "m_serverOrder m' = m_serverOrder m" "m_allocations m' = m_allocations m" "m_allocationOrder m' = m_allocationOrder m" "m_backups m' = m_backups m" "m_backupChecksums m' = m_backupChecksums m" "m_backupOperations m' = m_backupOperations m" by simp_all
qed

lemma newMemoryAt_empty:
  assumes "newMemoryAt L e en em pw ag = Some m"
  shows "m_operations m = []" "m_idempotency m = []" "m_nodes m = []" "m_servers m = []" "m_serverOrder m = []" "m_allocations m = []" "m_allocationOrder m = []" "m_backups m = []" "m_backupChecksums m = []" "m_backupOperations m = []"
  using assms by (auto simp: newMemoryAt_def Let_def split: option.splits)

lemma start_fields:
  assumes "start_store L C e1 e2 en em pw ag = Some m"
  obtains now g1 g2 g3 where
    "m_operations m = []" "m_idempotency m = []"
    "m_nodes m = mput (n_ID (seed_node3 now)) (seed_node3 now) (mput (n_ID (seed_node2 now)) (seed_node2 now)
       (mput (n_ID (seed_node1 now)) (seed_node1 now) []))"
    "m_servers m = mput (srv_ID (seed_server3 now g3)) (seed_server3 now g3) (mput (srv_ID (seed_server2 now g2)) (seed_server2 now g2)
       (mput (srv_ID (seed_server1 now g1)) (seed_server1 now g1) []))"
    "m_allocations m = foldl (\<lambda>as a. mput (al_ID a) a as) [] (seededAllocations now)"
    "m_allocationOrder m = foldl (\<lambda>as a. mput (al_ServerID a) (mget_zero [] as (al_ServerID a) @ [al_ID a]) as) [] (seededAllocations now)"
    "m_backups m = foldl (\<lambda>backups (serverID, list). mput serverID list backups) [] (seed_backups now)"
    "m_backupChecksums m = foldl (\<lambda>sums b. case b_Checksum b of None \<Rightarrow> sums | Some c \<Rightarrow> mput (b_ID b) c sums) []
       (concat (map snd (m_backups m)))"
    "m_backupOperations m = []"
proof -
  from assms obtain m0 m1 where m0: "newMemoryAt L e1 en em pw ag = Some m0" and m1: "seed L C e2 m0 = Some m1"
    and m: "m = (initializeBackupChecksums m1)\<lparr>m_fileSystems := rev (m_serverOrder (initializeBackupChecksums m1)) @ m_fileSystems (initializeBackupChecksums m1)\<rparr>"
    by (auto simp: start_store_def Let_def split: option.splits)
  note z = newMemoryAt_empty [OF m0]
  let ?now = "clk e2 0 - clk e2 0 mod second"
  from m1 obtain games where c: "loadFixedGameCatalog L C = Some games" by (auto simp: seed_def Let_def split: option.splits)
  define m2 where "m2 = fold addGame games (addNode (seed_node3 ?now) (addNode (seed_node2 ?now) (addNode (seed_node1 ?now) m0)))"
  define g1 where "g1 = mget_zero zero_game (m_games m2) ''io.gugumanager.papermc''"
  define g2 where "g2 = mget_zero zero_game (m_games m2) ''io.gugumanager.factorio''"
  define g3 where "g3 = mget_zero zero_game (m_games m2) ''io.gugumanager.vintagestory''"
  define m3 where "m3 = addServer (seed_server3 ?now g3) (addServer (seed_server2 ?now g2) (addServer (seed_server1 ?now g1) m2))"
  define m4 where "m4 = foldl addAllocation m3 (seededAllocations ?now)"
  from m1 c obtain m5 where m5: "seed_startups L (m_serverOrder m4) m4 = Some m5"
    "m1 = m5\<lparr>m_console := mput ''aaaaaaaa-aaaa-4aaa-8aaa-aaaaaaaaaaaa'' (seed_console ?now) (m_console m5),
       m_backups := foldl (\<lambda>backups (serverID, list). mput serverID list backups) (m_backups m5) (seed_backups ?now),
       m_audit := seed_audit e2 ?now\<rparr>"
    by (auto simp: seed_def Let_def m2_def g1_def g2_def g3_def m3_def m4_def)
  note f = seed_startups_sel [OF m5(1)]
  have s2: "m_operations m2 = []" "m_idempotency m2 = []" "m_servers m2 = []" "m_allocations m2 = []" "m_allocationOrder m2 = []" "m_backups m2 = []"
    "m_backupChecksums m2 = []" "m_backupOperations m2 = []"
    "m_nodes m2 = mput (n_ID (seed_node3 ?now)) (seed_node3 ?now) (mput (n_ID (seed_node2 ?now)) (seed_node2 ?now)
       (mput (n_ID (seed_node1 ?now)) (seed_node1 ?now) []))"
    by (simp_all add: m2_def addNode_def z)
  have al: "m_allocations (foldl addAllocation n as) = foldl (\<lambda>as a. mput (al_ID a) a as) (m_allocations n) as"
    "m_allocationOrder (foldl addAllocation n as) =
       foldl (\<lambda>as a. mput (al_ServerID a) (mget_zero [] as (al_ServerID a) @ [al_ID a]) as) (m_allocationOrder n) as"
    "m_operations (foldl addAllocation n as) = m_operations n" "m_idempotency (foldl addAllocation n as) = m_idempotency n"
    "m_servers (foldl addAllocation n as) = m_servers n" "m_nodes (foldl addAllocation n as) = m_nodes n"
    "m_backups (foldl addAllocation n as) = m_backups n" "m_backupChecksums (foldl addAllocation n as) = m_backupChecksums n"
    "m_backupOperations (foldl addAllocation n as) = m_backupOperations n" for n as
    by (induction as arbitrary: n; simp add: addAllocation_def)+
  show thesis
    by (rule that [of ?now g3 g2 g1])
      (simp_all add: m m5(2) initializeBackupChecksums_def f m4_def al m3_def addServer_def s2)
qed

lemma start_world_ok:
  assumes "start_store L C e1 e2 en em pw ag = Some m"
  shows "world_ok \<lparr>w_store = m, w_tasks = []\<rparr>" "capacity_ok m"
proof -
  obtain now g1 g2 g3 where f: "m_operations m = []" "m_idempotency m = []"
    "m_nodes m = mput (n_ID (seed_node3 now)) (seed_node3 now) (mput (n_ID (seed_node2 now)) (seed_node2 now)
       (mput (n_ID (seed_node1 now)) (seed_node1 now) []))" by (rule start_fields [OF assms])
  have "nodes_ok m" by (auto simp: nodes_ok_def nodes_named_def f(3) split: if_splits)
  then show "world_ok \<lparr>w_store = m, w_tasks = []\<rparr>" by (intro world_okI) (simp_all add: f ledger_ok_def)
  have "node_fits (seed_node1 now)" "node_fits (seed_node2 now)" "node_fits (seed_node3 now)"
    by (simp_all add: node_fits_def seed_node1_def seed_node2_def seed_node3_def max_int64_def)
  then show "capacity_ok m" by (auto simp: capacity_ok_def f(3) split: if_splits)
qed

lemma start_allocations_ok:
  assumes "start_store L C e1 e2 en em pw ag = Some m"
  shows "allocations_ok m"
proof -
  obtain now g1 g2 g3 where f: 
    "m_servers m = mput (srv_ID (seed_server3 now g3)) (seed_server3 now g3) (mput (srv_ID (seed_server2 now g2)) (seed_server2 now g2)
       (mput (srv_ID (seed_server1 now g1)) (seed_server1 now g1) []))"
    "m_allocations m = foldl (\<lambda>as a. mput (al_ID a) a as) [] (seededAllocations now)"
    "m_allocationOrder m = foldl (\<lambda>as a. mput (al_ServerID a) (mget_zero [] as (al_ServerID a) @ [al_ID a]) as) [] (seededAllocations now)"
    by (rule start_fields [OF assms])
  have addr: "FormatInt 25565 = ''25565''" "FormatInt 34197 = ''34197''" "FormatInt 42420 = ''42420''"
    by (simp_all add: FormatInt_def digits_of_nat.simps char_of_def bit_0)
  have ord: "order_of m s = (if s = ''aaaaaaaa-aaaa-4aaa-8aaa-aaaaaaaaaaaa'' then [''a1111111-1111-4111-8111-111111111111'']
      else if s = ''bbbbbbbb-bbbb-4bbb-8bbb-bbbbbbbbbbbb'' then [''a2222222-2222-4222-8222-222222222222'']
      else if s = ''cccccccc-cccc-4ccc-8ccc-cccccccccccc'' then [''a3333333-3333-4333-8333-333333333333''] else [])" for s
    by (simp add: order_of_def f(3) seededAllocations_def mget_zero_def)
  have al: "mget (m_allocations m) i =
      (if i = ''a1111111-1111-4111-8111-111111111111'' then Some (seededAllocations now ! 0)
       else if i = ''a2222222-2222-4222-8222-222222222222'' then Some (seededAllocations now ! Suc 0)
       else if i = ''a3333333-3333-4333-8333-333333333333'' then Some (seededAllocations now ! 2) else None)" for i
    by (simp add: f(2) seededAllocations_def)
  have pl: "place m s = (if s = ''aaaaaaaa-aaaa-4aaa-8aaa-aaaaaaaaaaaa'' then Some (''11111111-1111-4111-8111-111111111111'', ''10.0.10.21:25565'')
      else if s = ''bbbbbbbb-bbbb-4bbb-8bbb-bbbbbbbbbbbb'' then Some (''22222222-2222-4222-8222-222222222222'', ''10.0.20.14:34197'')
      else if s = ''cccccccc-cccc-4ccc-8ccc-cccccccccccc'' then Some (''33333333-3333-4333-8333-333333333333'', ''10.0.30.18:42420'') else None)" for s
    by (simp add: place_def f(1) seed_server1_def seed_server2_def seed_server3_def)
  have ad: "allocationAddress (seededAllocations now ! 0) = ''10.0.10.21:25565''" "allocationAddress (seededAllocations now ! Suc 0) = ''10.0.20.14:34197''"
    "allocationAddress (seededAllocations now ! 2) = ''10.0.30.18:42420''"
    by (simp_all add: allocationAddress_def JoinHostPort_def seededAllocations_def addr)
  have sel: "al_ID (seededAllocations now ! 0) = ''a1111111-1111-4111-8111-111111111111''" "al_ID (seededAllocations now ! Suc 0) = ''a2222222-2222-4222-8222-222222222222''"
    "al_ID (seededAllocations now ! 2) = ''a3333333-3333-4333-8333-333333333333''"
    "al_ServerID (seededAllocations now ! 0) = ''aaaaaaaa-aaaa-4aaa-8aaa-aaaaaaaaaaaa''" "al_ServerID (seededAllocations now ! Suc 0) = ''bbbbbbbb-bbbb-4bbb-8bbb-bbbbbbbbbbbb''"
    "al_ServerID (seededAllocations now ! 2) = ''cccccccc-cccc-4ccc-8ccc-cccccccccccc''"
    "al_NodeID (seededAllocations now ! 0) = ''11111111-1111-4111-8111-111111111111''" "al_NodeID (seededAllocations now ! Suc 0) = ''22222222-2222-4222-8222-222222222222''"
    "al_NodeID (seededAllocations now ! 2) = ''33333333-3333-4333-8333-333333333333''"
    "al_Primary (seededAllocations now ! 0)" "al_Primary (seededAllocations now ! Suc 0)" "al_Primary (seededAllocations now ! 2)"
    by (simp_all add: seededAllocations_def)
  have "listed_ok m"
    unfolding listed_ok_def by (intro conjI allI impI) (auto simp: al ord pl sel endpoint_def split: if_splits)
  moreover have "primary_ok m s" for s
    unfolding primary_ok_def by (auto simp: al ord pl sel ad split: if_splits)
  ultimately show ?thesis by (simp add: allocations_ok_def)
qed


definition sealed :: "Backup \<Rightarrow> bool" where
  "sealed b \<longleftrightarrow> b_Status b = ''ready'' \<and>
     (\<exists>d. b_Checksum b = Some (''sha256:'' @ d) \<and> map_option length (hex_decode d) = Some 32)"

lemma seed_sealed:
  assumes "checksum = ''sha256:'' @ d" "map_option length (hex_decode d) = Some 32"
  shows "sealed (seed_backup i n bytes checksum t)"
  using assms by (simp add: sealed_def seed_backup_def)

lemma seed_backups_cases:
  obtains b1 b2 b3 where
    "seed_backups now = [(''aaaaaaaa-aaaa-4aaa-8aaa-aaaaaaaaaaaa'', [b1, b2]), (''bbbbbbbb-bbbb-4bbb-8bbb-bbbbbbbbbbbb'', [b3]),
       (''cccccccc-cccc-4ccc-8ccc-cccccccccccc'', [])]"
    "b_ID b1 = ''d1111111-1111-4111-8111-111111111111''" "b_ID b2 = ''d2222222-2222-4222-8222-222222222222''"
    "b_ID b3 = ''d3333333-3333-4333-8333-333333333333''" "sealed b1" "sealed b2" "sealed b3"
proof -
  have hex: "map_option length (hex_decode ''5c7a5c7a5c7a5c7a5c7a5c7a5c7a5c7a5c7a5c7a5c7a5c7a5c7a5c7a5c7a5c7a'') = Some 32"
    "map_option length (hex_decode ''8a028a028a028a028a028a028a028a028a028a028a028a028a028a028a028a02'') = Some 32"
    "map_option length (hex_decode ''30c230c230c230c230c230c230c230c230c230c230c230c230c230c230c230c2'') = Some 32"
    by (simp_all add: hex_value_def byte_def Let_def)
  show thesis
    by (rule that [OF seed_backups_def]; (rule seed_sealed [OF _ hex(1)] seed_sealed [OF _ hex(2)] seed_sealed [OF _ hex(3)])?)
      (simp_all only: append.simps, simp_all add: seed_backup_def)
qed

lemma start_backups_ok:
  assumes "start_store L C e1 e2 en em pw ag = Some m"
  shows "backups_ok m {}"
proof -
  obtain now where f: 
    "m_backups m = foldl (\<lambda>backups (serverID, list). mput serverID list backups) [] (seed_backups now)"
    "m_backupChecksums m = foldl (\<lambda>sums b. case b_Checksum b of None \<Rightarrow> sums | Some c \<Rightarrow> mput (b_ID b) c sums) []
       (concat (map snd (m_backups m)))" "m_backupOperations m = []"
    by (rule start_fields [OF assms])
  obtain b1 b2 b3 where b: "seed_backups now = [(''aaaaaaaa-aaaa-4aaa-8aaa-aaaaaaaaaaaa'', [b1, b2]), (''bbbbbbbb-bbbb-4bbb-8bbb-bbbbbbbbbbbb'', [b3]),
       (''cccccccc-cccc-4ccc-8ccc-cccccccccccc'', [])]"
    "b_ID b1 = ''d1111111-1111-4111-8111-111111111111''" "b_ID b2 = ''d2222222-2222-4222-8222-222222222222''"
    "b_ID b3 = ''d3333333-3333-4333-8333-333333333333''" "sealed b1" "sealed b2" "sealed b3" by (rule seed_backups_cases)
  have all: "m_backups m = seed_backups now" unfolding f(1) b(1) by (simp add: mput_def)
  have lists: "backups_of m s =
      (if s = ''aaaaaaaa-aaaa-4aaa-8aaa-aaaaaaaaaaaa'' then [b1, b2]
       else if s = ''bbbbbbbb-bbbb-4bbb-8bbb-bbbbbbbbbbbb'' then [b3] else [])" for s
    by (simp add: backups_of_def all b(1) mget_zero_def)
  from b(5-7) obtain d1 d2 d3 where d: "b_Checksum b1 = Some d1" "b_Checksum b2 = Some d2" "b_Checksum b3 = Some d3"
    by (auto simp: sealed_def)
  have sums: "mget (m_backupChecksums m) (b_ID b1) = b_Checksum b1" "mget (m_backupChecksums m) (b_ID b2) = b_Checksum b2"
    "mget (m_backupChecksums m) (b_ID b3) = b_Checksum b3"
    by (simp_all add: f(2) all b(1-4) d)
  have valid: "b_Status b = ''ready'' \<and> backupChecksumValidLocked m b" if "sealed b" "mget (m_backupChecksums m) (b_ID b) = b_Checksum b" for b
    using that by (auto simp: sealed_def backupChecksumValidLocked_def HasPrefix_def TrimPrefix_def)
  have ok: "b_Status b = ''ready'' \<and> b_ID b \<noteq> [] \<and> backupChecksumValidLocked m b" if "b \<in> set (backups_of m s)" for s b
    using that valid [OF b(5) sums(1)] valid [OF b(6) sums(2)] valid [OF b(7) sums(3)] b(2-4) by (auto simp: lists split: if_splits)
  have "unique_backups m" using ok b(2-4) by (auto simp: unique_backups_def lists split: if_splits)
  with ok show ?thesis by (auto simp: backups_ok_def backup_ok_def)
qed

text \<open>Whatever the bundles are, the catalog never calls a game signed, verified or supported, and only
  PaperMC with its pinned image is runnable.\<close>

lemma catalog_game_trust:
  assumes "catalog_game L C content document presentation digest = Some g"
  shows "\<not> g_Signed g \<and> \<not> g_Verified g \<and> \<not> g_Supported g \<and> ''BUNDLE_SIGNATURE_UNVERIFIED'' \<in> set (g_SupportReasons g) \<and>
    g_TrustLevel g = ''L0_LOCAL'' \<and> g_ID g = fbd_ID document \<and> g_Status g = dgp_Status presentation \<and>
    (g_Runnable g \<longrightarrow> g_ID g = paperMCGameID \<and> (\<exists>t. g_RuntimeTarget g = Some t \<and> grt_Image t = paperMCRuntimeImage))"
  using assms
  by (auto simp: catalog_game_def markEmbeddedRuntimeSupport_def markCatalogBundleUntrusted_def untrustedBundleSupportReasons_def Let_def
      split: if_splits)

lemma catalog_entries_trust:
  assumes "catalog_entries L C bundles byID = Some byID'"
    "\<And>i g. mget byID i = Some g \<Longrightarrow> P i g"
    "\<And>content document presentation digest g. catalog_game L C content document presentation digest = Some g \<Longrightarrow>
       mget developmentGamePresentations (fbd_ID document) = Some presentation \<Longrightarrow> P (fbd_ID document) g"
    "mget byID' i = Some g"
  shows "P i g"
  using assms
proof (induction L C bundles byID rule: catalog_entries.induct)
  case (2 L C filename content rest byID)
  from 2(2) obtain document presentation digest game where
    d: "decodeFixedBundle (codec L) content = Some document" "mget developmentGamePresentations (fbd_ID document) = Some presentation"
    "\<not> mhas byID (fbd_ID document)" "CanonicalBundleDigest C content = Some digest" "catalog_game L C content document presentation digest = Some game"
    "catalog_entries L C rest (mput (fbd_ID document) game byID) = Some byID'"
    by (auto split: option.splits if_splits)
  show ?case
    by (rule 2(1) [OF d(1-5) d(6) _ 2(4,5)]) (use 2(3,4) d in \<open>auto split: if_splits\<close>)
qed simp

end
