(* ===== verification/World_Persistence.thy ===== *)
theory World_Persistence
  imports Allocation_Invariant
begin

text \<open>
  What every step keeps for good: an idempotency key stays bound to its operation, a server stays on
  its node, and its generation stays or moves to the next one. The calls that name an expected
  generation (\<open>change_call\<close>) move it.
\<close>

section \<open>Keys and generations\<close>

definition persists :: "Memory \<Rightarrow> Memory \<Rightarrow> bool" where
  "persists m m' \<longleftrightarrow>
     (\<forall>scope r. mget (m_idempotency m) scope = Some r \<longrightarrow> mget (m_idempotency m') scope = Some r) \<and>
     (\<forall>s g n. sviews (m_servers m) s = Some (g, n) \<longrightarrow>
        sviews (m_servers m') s = Some (g, n) \<or> sviews (m_servers m') s = Some (wrap64 (g + 1), n)) \<and>
     (\<forall>s g n. sviews (m_servers m) s = None \<longrightarrow> sviews (m_servers m') s = Some (g, n) \<longrightarrow> g = 1)"

lemma persists_refl [simp]: "persists m m"
  by (simp add: persists_def)

lemma persists_same: "m_idempotency m' = m_idempotency m \<Longrightarrow> sviews (m_servers m') = sviews (m_servers m) \<Longrightarrow> persists m m'"
  by (simp add: persists_def)

lemma unknown_key: "idempotentOperationLocked m scope digest = Inr None \<Longrightarrow> mget (m_idempotency m) scope = None"
  by (simp add: idempotentOperationLocked_def split: option.splits if_splits)

lemma persists_join:
  assumes "idempotentOperationLocked m scope digest = Inr None" "m_idempotency m' = mput scope r (m_idempotency m)"
    "sviews (m_servers m') = sviews (m_servers m)"
  shows "persists m m'"
  using unknown_key [OF assms(1)] assms(2,3) by (auto simp: persists_def)

definition generation_step :: "(int \<times> string) option \<Rightarrow> int \<Rightarrow> string \<Rightarrow> bool" where
  "generation_step v g n \<longleftrightarrow> v = None \<and> g = 1 \<or> v = Some (g, n) \<or> (\<exists>g0. v = Some (g0, n) \<and> g = wrap64 (g0 + 1))"

lemma persists_queue:
  assumes "idempotentOperationLocked m scope digest = Inr None" "m_idempotency m' = mput scope r (m_idempotency m)"
    "sviews (m_servers m') = (sviews (m_servers m))(s \<mapsto> (g, n))" "generation_step (sviews (m_servers m) s) g n"
  shows "persists m m'"
  using unknown_key [OF assms(1)] assms(2-4) by (auto simp: persists_def generation_step_def)

lemma generation_next [simp]:
  "generation_step (Some (g, n)) (wrap64 (g + 1)) n" "generation_step (Some (g, n)) g n" "generation_step None 1 n"
  by (simp_all add: generation_step_def)

definition persisting :: "Memory \<Rightarrow> handled \<Rightarrow> bool" where
  "persisting m h \<longleftrightarrow> persists m (snd (snd h))"

lemma persisting_simp [simp]: "persisting m (r, t, m') = persists m m'"
  by (simp add: persisting_def)

lemmas persisting_intros = handled_intros [where P = "persisting m" for m]

lemma idempotent_reconcile [simp]:
  "idempotentOperationLocked (reconcileNodeLivenessLocked now m) sc d = idempotentOperationLocked m sc d"
  by (simp add: idempotentOperationLocked_def)

lemma persists_reconcile [simp]: "persists m (reconcileNodeLivenessLocked now m)"
  by (simp add: persists_def)

lemma persists_joined:
  "idempotentOperationLocked m scope digest = Inr None \<Longrightarrow> persists m (join_operation scope digest' p m)"
  "idempotentOperationLocked m scope digest = Inr None \<Longrightarrow> persists m (join_operation scope digest' p (reconcileNodeLivenessLocked now m))"
  by (rule persists_join, assumption; simp)+

lemma RequestPower_persists: "persisting m (RequestPower L e s a key actor m)"
  unfolding RequestPower_def
  by (intro persisting_intros; (simp add: persists_joined; fail |
      (simp, rule persists_queue, assumption, simp, simp, simp add: reconcile_server_view)))

lemma CreateServer_persists:
  assumes "fresh_ids e m"
  shows "persisting m (CreateServer L e disk inp key actor m)"
proof -
  have new: "sviews (m_servers m) (uuid e 0) = None" using assms by (simp add: fresh_ids_def sviews_def mhas_def)
  show ?thesis
    unfolding CreateServer_def
    by (intro persisting_intros; (simp; fail |
        (simp, rule persists_queue, assumption, simp, simp, simp add: new)))
qed

definition advancing :: "string \<Rightarrow> int \<Rightarrow> Memory \<Rightarrow> handled \<Rightarrow> bool" where
  "advancing s g m h \<longleftrightarrow> (case h of (_, None, _) \<Rightarrow> True
     | (_, Some _, m') \<Rightarrow> \<exists>n. sviews (m_servers m) s = Some (g, n) \<and> sviews (m_servers m') s = Some (wrap64 (g + 1), n))"

lemma advancing_simps [simp]:
  "advancing s g m (r, None, m')"
  "advancing s g m (r, Some tk, m') \<longleftrightarrow>
     (\<exists>n. sviews (m_servers m) s = Some (g, n) \<and> sviews (m_servers m') s = Some (wrap64 (g + 1), n))"
  by (simp_all add: advancing_def)

lemmas advancing_intros = handled_intros [where P = "advancing s g m" for s g m]

context reconcile_mutation
begin

lemma request_persists: "persisting m (requestReconcile e s g key scope digest actor permission action mutate m)"
proof -
  have next_step: "sviews (m_servers m2) = sviews (m_servers m)" "m_idempotency m2 = m_idempotency m"
      "generation_step (sviews (m_servers m) s) (wrap64 (srv_Generation v' + 1)) n"
    if "mutate now v (reconcileNodeLivenessLocked now m) = Inr (v', m2)" "n = srv_NodeID v"
      "mget (m_servers (reconcileNodeLivenessLocked now m)) s = Some v" for now v v' m2 n
    using mutate_frame [OF that(1)] mutate_server [OF that(1)] that(2) reconcile_server_view [OF that(3)] by simp_all
  show ?thesis
    unfolding requestReconcile_def
    apply (intro persisting_intros; (simp; fail)?)
    apply (simp del: sviews_put, rule persists_queue, assumption)
    apply (simp add: next_step)
    apply (simp add: next_step)
    apply (simp only:, rule next_step, assumption, simp add: mutate_server, assumption)
    done
qed

lemma request_advances: "advancing s g m (requestReconcile e s g key scope digest actor permission action mutate m)"
proof -
  have expected: "srv_Generation v = g" if "reconcile_refused s g v m1 = None" for v m1
    using that by (auto simp: reconcile_refused_def split: option.splits if_splits)
  show ?thesis
    unfolding requestReconcile_def
    apply (intro advancing_intros; (simp; fail)?)
    apply clarify
    apply (frule expected)
    apply (drule reconcile_server_view)
    apply (frule mutate_frame)
    apply (drule mutate_server)
    apply simp
    done
qed

end

definition change_call :: "lib \<Rightarrow> string \<Rightarrow> int \<Rightarrow> Memory \<Rightarrow> handled \<Rightarrow> bool" where
  "change_call L s g m h \<longleftrightarrow>
     (\<exists>e key actor. (\<exists>inp. h = CreateAllocation L e s inp g key actor m) \<or> (\<exists>i. h = SetPrimaryAllocation L e s i g key actor m) \<or>
        (\<exists>i. h = DeleteAllocation L e s i g key actor m) \<or> (\<exists>updates. h = UpdateStartup L e s updates g key actor m))"

lemma change_call_handled:
  assumes "change_call L s g m h"
    "\<And>err. P (Inl err, None, m)"
    "\<And>mutate e key scope digest actor permission action. reconcile_mutation mutate \<Longrightarrow>
       P (requestReconcile e s g key scope digest actor permission action mutate m)"
  shows "P h"
  using assms(1) unfolding change_call_def CreateAllocation_def SetPrimaryAllocation_def DeleteAllocation_def UpdateStartup_def
  by (elim exE disjE; simp only:; intro handled_intros [where P = P] assms(2,3)
      add_alloc.reconcile_mutation_axioms make_prim.reconcile_mutation_axioms remove_alloc.reconcile_mutation_axioms
      change_start.reconcile_mutation_axioms)

lemma change_call_persists: "change_call L s g m h \<Longrightarrow> persisting m h"
  by (erule change_call_handled) (simp_all add: reconcile_mutation.request_persists)

text \<open>A change that starts a goroutine names the current generation and moves the server to the next
  one.\<close>

lemma change_call_advances: "change_call L s g m h \<Longrightarrow> advancing s g m h"
  by (erule change_call_handled) (simp_all add: reconcile_mutation.request_advances)

lemma CreateBackup_persists: "persisting m (CreateBackup L e s key actor m)"
  unfolding CreateBackup_def
  by (intro persisting_intros; (simp add: persists_joined; fail | (simp, rule persists_join, assumption, simp, simp)))

lemma RestoreBackup_persists: "persisting m (RestoreBackup L e s i key actor m)"
  unfolding RestoreBackup_def
  apply (intro persisting_intros; (simp add: persists_joined; fail)?)
  apply (simp, rule persists_queue, assumption, simp, simp)
  apply (auto dest!: restore_targetD(1) reconcile_server_view)
  done

lemma DeleteBackup_persists: "persisting m (DeleteBackup L e s i key actor m)"
  unfolding DeleteBackup_def
  by (intro persisting_intros; (simp add: persists_joined; fail | (simp, rule persists_join, assumption, simp, simp)))


section \<open>Every step\<close>

lemma store_call_persists:
  assumes "store_call L m t m'"
  shows "persists m m'"
proof -
  have change: "persists m m'" if "change_call L s g m (r, t, m')" for s g r
    using change_call_persists [OF that] by simp
  have handler: "persists m m'" if "persisting m (h m)" "h m = (r, t, m')" for h :: "Memory \<Rightarrow> handled" and r
    using that by simp
  from assms show ?thesis
  proof cases
    case create then show ?thesis using handler CreateServer_persists by blast
  next
    case power then show ?thesis using handler RequestPower_persists by blast
  next
    case (allocate e s ai g key actor r) then show ?thesis
      by (intro change [of s g r]) (unfold change_call_def, metis)
  next
    case (primary e s i g key actor r) then show ?thesis
      by (intro change [of s g r]) (unfold change_call_def, metis)
  next
    case (deallocate e s i g key actor r) then show ?thesis
      by (intro change [of s g r]) (unfold change_call_def, metis)
  next
    case (startup e s updates g key actor r) then show ?thesis
      by (intro change [of s g r]) (unfold change_call_def, metis)
  next
    case backup then show ?thesis using handler CreateBackup_persists by blast
  next
    case restore then show ?thesis using handler RestoreBackup_persists by blast
  next
    case discard then show ?thesis using handler DeleteBackup_persists by blast
  qed
qed

lemma world_step_persists:
  assumes "world_step L w w'" "world_ok w"
  shows "persists (w_store w) (w_store w')"
  using assms
proof (induction rule: world_step.induct)
  case (call m t m' ts) then show ?case using store_call_persists by simp
next
  case (other m m' ts)
  note w = world_okE [OF other(2)]
  from other_cases [OF other(1) w(1)] show ?case
    by (auto simp: runtime_same_def persists_same heartbeat_frame)
next
  case (run e d tk m t' m' ts1 ts2)
  note w = world_okE [OF run(2)]
  have tk: "task_ok m tk" using w(4) by simp
  from task_ok_unfinished [OF tk] obtain p where p: "mget (m_operations m) (tk_operationID tk) = Some p" "\<not> isTerminalOperation (op_Status p)" by blast
  from run_section_step [OF w(1) tk p(1) w(7) [OF p] run(1)] show ?case
    by (auto simp: advances_def intro: persists_same)
qed

lemma key_persists:
  assumes "(world_step L)\<^sup>*\<^sup>* w w'" "world_ok w" "mget (m_idempotency (w_store w)) scope = Some r"
  shows "mget (m_idempotency (w_store w')) scope = Some r"
  using assms(1,3)
proof (induction rule: rtranclp_induct)
  case (step y z)
  moreover from step(1) assms(2) have "world_ok y" using world_steps_ok by blast
  ultimately show ?case using world_step_persists [OF step(2)] by (simp add: persists_def)
qed

text \<open>The generation of a server grows by at most one per step as long as it stays an \<open>int64\<close>.\<close>

lemma generation_run:
  assumes "(world_step L ^^ k) w w'" "world_ok w" "sviews (m_servers (w_store w)) s = Some (g, n)" "0 \<le> g" "g + int k \<le> max_int64"
  shows "\<exists>g'. sviews (m_servers (w_store w')) s = Some (g', n) \<and> g \<le> g' \<and> g' \<le> g + int k"
  using assms(1,5)
proof (induction k arbitrary: w')
  case 0
  with assms(3) show ?case by simp
next
  case (Suc k)
  then obtain y where y: "(world_step L ^^ k) w y" "world_step L y w'" by auto
  with Suc.IH [of y] Suc.prems(2) obtain g' where g: "sviews (m_servers (w_store y)) s = Some (g', n)" "g \<le> g'" "g' \<le> g + int k" by auto
  have "world_ok y" using world_steps_ok [OF relpowp_imp_rtranclp [OF y(1)] assms(2)] by simp
  from world_step_persists [OF y(2) this] g(1) have
    "sviews (m_servers (w_store w')) s = Some (g', n) \<or> sviews (m_servers (w_store w')) s = Some (wrap64 (g' + 1), n)"
    by (simp add: persists_def)
  moreover have "wrap64 (g' + 1) = g' + 1" using g(2,3) assms(4) Suc.prems(2) by (intro wrap64_id) auto
  ultimately show ?case using g(2,3) by auto
qed

end
