(* ===== verification/Refinement_Mapping.thy ===== *)
theory Refinement_Mapping
  imports Main
begin

text \<open>
  What a refinement mapping from a program to an abstract machine has to satisfy, and what it gives:
  every run of the program is a run of the machine, and the machine's invariants carry over.
\<close>

locale refinement_mapping =
  fixes abs :: "'c \<Rightarrow> 'a"
    and cinv :: "'c \<Rightarrow> bool"
    and cstep :: "'c \<Rightarrow> 'c \<Rightarrow> bool"
    and astep :: "'a \<Rightarrow> 'a \<Rightarrow> bool"
  assumes preserves: "cinv c \<Longrightarrow> cstep c c' \<Longrightarrow> cinv c'"
    and simulates: "cinv c \<Longrightarrow> cstep c c' \<Longrightarrow> abs c' = abs c \<or> astep (abs c) (abs c')"
begin

lemma runs:
  assumes "cstep\<^sup>*\<^sup>* c c'" "cinv c"
  shows "cinv c' \<and> astep\<^sup>*\<^sup>* (abs c) (abs c')"
  using assms(1)
proof (induction rule: rtranclp_induct)
  case base
  with assms(2) show ?case by simp
next
  case (step y z)
  then show ?case using preserves [OF _ step(2)] simulates [OF _ step(2)] by (auto intro: rtranclp.rtrancl_into_rtrancl)
qed

lemma transfer:
  assumes "cstep\<^sup>*\<^sup>* c c'" "cinv c" "P (abs c)" "\<And>a a'. P a \<Longrightarrow> astep a a' \<Longrightarrow> P a'"
  shows "P (abs c')"
proof -
  have "astep\<^sup>*\<^sup>* (abs c) (abs c')" using runs [OF assms(1,2)] by simp
  then show ?thesis by (induction rule: rtranclp_induct) (use assms(3,4) in blast)+
qed

end

end
