(* ===== verification/Ledger_Refinement.thy ===== *)
theory Ledger_Refinement
  imports World_Invariant Refinement_Mapping
begin

text \<open>
  The operation ledger of the store and its goroutines refines a small abstract machine: one slot per
  server for the operation under way, and the results of the finished ones. The locale
  \<open>refinement_mapping\<close> is interpreted on \<open>slots_of\<close> and the steps of the world.
\<close>

section \<open>The abstract machine\<close>

text \<open>One slot per server, holding the operation it works on and whether that runs already, and the
  results of the finished operations.\<close>

record slots =
  busy :: "string \<Rightarrow> (string \<times> bool) option"
  results :: "string \<Rightarrow> string option"

inductive slot_step :: "slots \<Rightarrow> slots \<Rightarrow> bool" where
  submit: "busy a s = None \<Longrightarrow> results a i = None \<Longrightarrow> (\<And>s' r. busy a s' \<noteq> Some (i, r)) \<Longrightarrow>
    slot_step a (a\<lparr>busy := (busy a)(s \<mapsto> (i, False))\<rparr>)"
| start: "busy a s = Some (i, False) \<Longrightarrow> slot_step a (a\<lparr>busy := (busy a)(s \<mapsto> (i, True))\<rparr>)"
| finish: "busy a s = Some (i, r) \<Longrightarrow> status \<in> {''succeeded'', ''failed''} \<Longrightarrow>
    slot_step a (a\<lparr>busy := (busy a)(s := None), results := (results a)(i \<mapsto> status)\<rparr>)"

inductive_cases slot_stepE: "slot_step a a'"

definition slots_ok :: "slots \<Rightarrow> bool" where
  "slots_ok a \<longleftrightarrow> (\<forall>s i r. busy a s = Some (i, r) \<longrightarrow> results a i = None \<and> (\<forall>s' r'. busy a s' = Some (i, r') \<longrightarrow> s' = s))"

lemma slots_okD: "slots_ok a \<Longrightarrow> busy a s = Some (i, r) \<Longrightarrow> results a i = None"
  unfolding slots_ok_def by blast

lemma slots_ok_step:
  assumes "slots_ok a" "slot_step a a'"
  shows "slots_ok a'"
  using assms(2,1) by (cases rule: slot_step.cases) (auto simp: slots_ok_def split: if_splits)

lemma results_step: "slots_ok a \<Longrightarrow> slot_step a a' \<Longrightarrow> results a i = Some status \<Longrightarrow> results a' i = Some status"
  by (erule slot_stepE) (auto dest: slots_okD)

section \<open>The mapping\<close>

definition slots_of :: "world \<Rightarrow> slots" where
  "slots_of w = \<lparr>busy = (\<lambda>s. map_option (\<lambda>p. (op_ID p, op_Status p = ''running'')) (activeExclusiveOperationLocked (w_store w) s)),
     results = (\<lambda>i. case mget (m_operations (w_store w)) i of None \<Rightarrow> None
       | Some p \<Rightarrow> if isTerminalOperation (op_Status p) then Some (op_Status p) else None)\<rparr>"

lemma one_active:
  "ledger_ok m \<Longrightarrow> mget (m_operations m) i = Some p \<Longrightarrow> mget (m_operations m) j = Some q \<Longrightarrow>
   blocks_server s p \<Longrightarrow> blocks_server s q \<Longrightarrow> i = j"
  unfolding ledger_ok_def by (elim conjE) (metis (no_types))

lemma active_iff:
  assumes "ledger_ok m"
  shows "activeExclusiveOperationLocked m s = Some p \<longleftrightarrow> mget (m_operations m) (op_ID p) = Some p \<and> blocks_server s p"
proof
  assume "mget (m_operations m) (op_ID p) = Some p \<and> blocks_server s p"
  then have p: "mget (m_operations m) (op_ID p) = Some p" "blocks_server s p" by simp_all
  show "activeExclusiveOperationLocked m s = Some p"
  proof (cases "activeExclusiveOperationLocked m s")
    case None
    with active_None p show ?thesis by blast
  next
    case (Some q)
    note q = active_Some [OF Some assms]
    have "op_ID q = op_ID p" by (rule one_active [OF assms conjunct1 [OF q] p(1) conjunct2 [OF q] p(2)])
    then have "Some q = Some p" using conjunct1 [OF q] p(1) by (metis (no_types))
    with Some show ?thesis by simp
  qed
qed (rule active_Some [OF _ assms])

lemma slots_same: "m_operations m' = m_operations m \<Longrightarrow> slots_of \<lparr>w_store = m', w_tasks = ts'\<rparr> = slots_of \<lparr>w_store = m, w_tasks = ts\<rparr>"
  by (simp add: slots_of_def activeExclusiveOperationLocked_def)

lemma busy_iff:
  assumes "ledger_ok m"
  shows "busy (slots_of \<lparr>w_store = m, w_tasks = ts\<rparr>) s = Some (i, r) \<longleftrightarrow>
    (\<exists>p. mget (m_operations m) i = Some p \<and> blocks_server s p \<and> r = (op_Status p = ''running''))"
proof -
  have "op_ID p = i" if "mget (m_operations m) i = Some p" for p using that assms by (simp add: ledger_ok_def)
  then show ?thesis by (auto simp: slots_of_def active_iff [OF assms])
qed

lemma option_ext: "(\<And>y. f = Some y \<longleftrightarrow> g = Some y) \<Longrightarrow> f = g"
  by (cases f; cases g) auto

lemma busy_eqI:
  assumes "ledger_ok m" "\<And>s i r. (\<exists>p. mget (m_operations m) i = Some p \<and> blocks_server s p \<and> r = (op_Status p = ''running'')) \<longleftrightarrow> B s = Some (i, r)"
  shows "busy (slots_of \<lparr>w_store = m, w_tasks = ts\<rparr>) = B"
  using assms(2) busy_iff [OF assms(1)] by (intro ext option_ext) auto

lemma blocks_iff: "isExclusiveOperation (op_Type p) \<Longrightarrow> blocks_server s p \<longleftrightarrow> op_ServerID p = s \<and> \<not> isTerminalOperation (op_Status p)"
  by (auto simp: blocks_server_def)


lemma queued_slots:
  assumes "ledger_ok m" "ledger_ok m'" "queued scope digest p tk m m'" "\<not> mhas (m_operations m) (op_ID p)"
  shows "slot_step (slots_of \<lparr>w_store = m, w_tasks = ts\<rparr>) (slots_of \<lparr>w_store = m', w_tasks = ts'\<rparr>)"
proof -
  let ?a = "slots_of \<lparr>w_store = m, w_tasks = ts\<rparr>" and ?a' = "slots_of \<lparr>w_store = m', w_tasks = ts'\<rparr>"
  note q = assms(3) [unfolded queued_def]
  have new: "mget (m_operations m) (op_ID p) = None" using assms(4) by (simp add: mhas_def)
  have "busy ?a' = (busy ?a)(op_ServerID p \<mapsto> (op_ID p, False))"
  proof (rule busy_eqI [OF assms(2)])
    fix s i r
    show "(\<exists>p'. mget (m_operations m') i = Some p' \<and> blocks_server s p' \<and> r = (op_Status p' = ''running'')) \<longleftrightarrow>
        ((busy ?a)(op_ServerID p \<mapsto> (op_ID p, False))) s = Some (i, r)"
      using q new active_None [of m "op_ServerID p" i] by (auto simp: busy_iff [OF assms(1)] blocks_server_def isTerminalOperation_def)
  qed
  moreover have "results ?a' = results ?a"
    using q new by (auto simp: slots_of_def isTerminalOperation_def fun_eq_iff)
  ultimately have "?a' = ?a\<lparr>busy := (busy ?a)(op_ServerID p \<mapsto> (op_ID p, False))\<rparr>" by simp
  moreover have "busy ?a (op_ServerID p) = None" using q by (simp add: slots_of_def)
  moreover have "results ?a (op_ID p) = None" using new by (simp add: slots_of_def)
  moreover have "busy ?a s' \<noteq> Some (op_ID p, r)" for s' r using new by (simp add: busy_iff [OF assms(1)])
  ultimately show ?thesis using slot_step.submit by metis
qed

lemma advances_slots:
  assumes "ledger_ok m" "ledger_ok m'" "advances i p q m m'" "mget (m_operations m) i = Some p" "\<not> isTerminalOperation (op_Status p)"
    "isExclusiveOperation (op_Type p)" "isTerminalOperation (op_Status q) \<or> op_Status q = ''running''"
  shows "slots_of \<lparr>w_store = m', w_tasks = ts'\<rparr> = slots_of \<lparr>w_store = m, w_tasks = ts\<rparr> \<or>
    slot_step (slots_of \<lparr>w_store = m, w_tasks = ts\<rparr>) (slots_of \<lparr>w_store = m', w_tasks = ts'\<rparr>)"
proof -
  let ?a = "slots_of \<lparr>w_store = m, w_tasks = ts\<rparr>" and ?a' = "slots_of \<lparr>w_store = m', w_tasks = ts'\<rparr>"
  let ?s = "op_ServerID p"
  note a = assms(3) [unfolded advances_def]
  have bp: "blocks_server ?s p" using assms(5,6) by (simp add: blocks_server_def)
  have ops: "mget (m_operations m') j = (if j = i then Some q else mget (m_operations m) j)" for j using a by simp
  have only: "\<not> blocks_server ?s p'" if "mget (m_operations m) j = Some p'" "j \<noteq> i" for j p'
    using one_active [OF assms(1) that(1) assms(4) _ bp] that(2) by blast
  have bq: "blocks_server s q \<longleftrightarrow> s = ?s \<and> \<not> isTerminalOperation (op_Status q)" "blocks_server s p \<longleftrightarrow> s = ?s" for s
    using a assms(5,6) by (auto simp: blocks_server_def)
  have slot: "busy ?a ?s = Some (i, op_Status p = ''running'')" using busy_iff [OF assms(1)] assms(4) bp by blast
  show ?thesis
  proof (cases "isTerminalOperation (op_Status q)")
    case True
    have "busy ?a' = (busy ?a)(?s := None)"
    proof (rule busy_eqI [OF assms(2)], goal_cases)
      case (1 s j r)
      then show ?case
        by (cases "j = i"; cases "s = ?s") (use True only assms(4) in \<open>auto simp: busy_iff [OF assms(1)] ops bq\<close>)
    qed
    moreover have "results ?a' = (results ?a)(i \<mapsto> op_Status q)"
      using a True by (auto simp: slots_of_def fun_eq_iff)
    ultimately have "?a' = ?a\<lparr>busy := (busy ?a)(?s := None), results := (results ?a)(i \<mapsto> op_Status q)\<rparr>" by simp
    with slot_step.finish [OF slot] True show ?thesis by (simp add: isTerminalOperation_def)
  next
    case False
    with assms(7) have running: "op_Status q = ''running''" by simp
    have "busy ?a' = (busy ?a)(?s \<mapsto> (i, True))"
    proof (rule busy_eqI [OF assms(2)], goal_cases)
      case (1 s j r)
      then show ?case
        by (cases "j = i"; cases "s = ?s") (use False running only assms(4) in \<open>auto simp: busy_iff [OF assms(1)] ops bq\<close>)
    qed
    moreover have "results ?a' = results ?a"
      using a False assms(4,5) by (auto simp: slots_of_def fun_eq_iff)
    ultimately have "?a' = ?a\<lparr>busy := (busy ?a)(?s \<mapsto> (i, True))\<rparr>" by simp
    with slot_step.start [of ?a ?s i] slot show ?thesis
      by (cases "op_Status p = ''running''") (simp_all add: fun_upd_idem)
  qed
qed


section \<open>The store refines the machine\<close>

lemma run_section_running:
  assumes "run_section L e d tk m = (Some tk', m')" "task_ok m' tk'" "mget (m_operations m') (tk_operationID tk') = Some q"
  shows "op_Status q = ''running''"
proof -
  have "phase_weight (tk_phase tk') < phase_weight (tk_phase tk)" by (rule run_section_weight [OF assms(1)])
  then have "tk_phase tk' \<noteq> Spawned" by (cases "tk_phase tk") auto
  with assms(2,3) show ?thesis by (cases "tk_phase tk'") (auto simp: task_ok_def)
qed

lemma world_step_slots:
  assumes "world_step L w w'" "world_ok w"
  shows "slots_of w' = slots_of w \<or> slot_step (slots_of w) (slots_of w')"
  using assms
proof (induction rule: world_step.induct)
  case (call m t m' ts)
  note w = world_okE [OF call(2)]
  have l: "ledger_ok m'" using world_step_ok [OF world_step.call [OF call(1)] call(2)] by (auto dest: world_okE(1))
  have "accepted m t m'" using store_call_accepted [OF call(1) w(1,2)] w(7) by force
  then show ?case
    using queued_slots [OF w(1) l] slots_same [of m' m] unfolding accepted_def quiet_def by blast
next
  case (other m m' ts)
  note w = world_okE [OF other(2)]
  from other_quiet [OF other(1) w(1,2)] show ?case using slots_same [of m' m] by (simp add: quiet_def)
next
  case (run e d tk m t' m' ts1 ts2)
  note w = world_okE [OF run(2)]
  have tk: "task_ok m tk" using w(4) by simp
  from task_ok_unfinished [OF tk] obtain p where p: "mget (m_operations m) (tk_operationID tk) = Some p" "\<not> isTerminalOperation (op_Status p)" by blast
  from run_section_step [OF w(1) tk p(1) w(7) [OF p] run(1)] obtain q where q: "advances (tk_operationID tk) p q m m'"
    "case t' of None \<Rightarrow> isTerminalOperation (op_Status q) | Some tk' \<Rightarrow> tk_operationID tk' = tk_operationID tk \<and> task_ok m' tk'" by blast
  have l: "ledger_ok m'" using advances_ledger [OF w(1) p q(1)] by simp
  have "isTerminalOperation (op_Status q) \<or> op_Status q = ''running''"
  proof (cases t')
    case (Some tk')
    with run_section_running [of L e d tk m tk' m' q] run(1) q show ?thesis by (simp add: advances_def)
  qed (use q in simp)
  with advances_slots [OF w(1) l q(1) p w(5) [OF p(1)]] show ?case by blast
qed

interpretation slots: refinement_mapping slots_of world_ok "world_step L" slot_step for L
  by unfold_locales (use world_step_ok world_step_slots in blast)+

lemma slots_of_ok: "world_ok w \<Longrightarrow> slots_ok (slots_of w)"
proof (cases w)
  case (fields m ts)
  assume "world_ok w"
  with fields have l: "ledger_ok m" by (auto dest: world_okE(1))
  show ?thesis
    unfolding slots_ok_def fields
    by (auto simp: busy_iff [OF l] blocks_server_def) (simp add: slots_of_def)
qed

end
