(* ===== verification/Demo_World.thy ===== *)
theory Demo_World
  imports Start_State World_Persistence Ledger_Refinement
begin

text \<open>
  A concrete development store for the worked examples: three small bundles, digests of 32 bytes, and
  a world in which the administrator stops a server, backs it up or adds an allocation.
\<close>

section \<open>Evaluating digests\<close>

definition nibble :: "bool \<Rightarrow> bool \<Rightarrow> bool \<Rightarrow> bool \<Rightarrow> nat" where
  "nibble b3 b2 b1 b0 = of_bool b0 + 2 * of_bool b1 + 4 * of_bool b2 + 8 * of_bool b3"

fun hex_nibble :: "bool \<Rightarrow> bool \<Rightarrow> bool \<Rightarrow> bool \<Rightarrow> char" where
  "hex_nibble b3 b2 b1 b0 =
     (if b3 then if b2 then if b1 then if b0 then CHR ''f'' else CHR ''e'' else if b0 then CHR ''d'' else CHR ''c''
        else if b1 then if b0 then CHR ''b'' else CHR ''a'' else if b0 then CHR ''9'' else CHR ''8''
      else if b2 then if b1 then if b0 then CHR ''7'' else CHR ''6'' else if b0 then CHR ''5'' else CHR ''4''
        else if b1 then if b0 then CHR ''3'' else CHR ''2'' else if b0 then CHR ''1'' else CHR ''0'')"

lemma hex_digit_nibble: "hex_digit (nibble b3 b2 b1 b0) = hex_nibble b3 b2 b1 b0"
  by (cases b0; cases b1; cases b2; cases b3) (simp_all add: nibble_def hex_digit_def char_of_def bit_0 bit_numeral_rec)

lemma byte_nibbles:
  "byte (Char b0 b1 b2 b3 b4 b5 b6 b7) div 16 = nibble b7 b6 b5 b4" "byte (Char b0 b1 b2 b3 b4 b5 b6 b7) mod 16 = nibble b3 b2 b1 b0"
proof -
  have "nibble b3 b2 b1 b0 < 16" by (auto simp: nibble_def of_bool_def)
  moreover have "byte (Char b0 b1 b2 b3 b4 b5 b6 b7) = nibble b3 b2 b1 b0 + 16 * nibble b7 b6 b5 b4"
    by (simp add: byte_def nibble_def of_char_def)
  ultimately show "byte (Char b0 b1 b2 b3 b4 b5 b6 b7) div 16 = nibble b7 b6 b5 b4" "byte (Char b0 b1 b2 b3 b4 b5 b6 b7) mod 16 = nibble b3 b2 b1 b0"
    by simp_all
qed

lemma hex_encode_code [code]:
  "hex_encode [] = []"
  "hex_encode (Char b0 b1 b2 b3 b4 b5 b6 b7 # r) = hex_nibble b7 b6 b5 b4 # hex_nibble b3 b2 b1 b0 # hex_encode r"
  by (simp_all add: hex_encode_def byte_nibbles hex_digit_nibble del: hex_nibble.simps)

section \<open>A concrete development store\<close>

definition demo_document :: "string \<Rightarrow> fixedBundleDocument" where
  "demo_document content =
     \<lparr>fbd_ID = content, fbd_Version = ''1'',
      fbd_Variables = (if content = ''io.gugumanager.papermc'' then ''rcon_password''
        else if content = ''io.gugumanager.factorio'' then ''server_token'' else []),
      fbd_Command = \<lparr>sc_Executable = ''run'', sc_Args = []\<rparr>, fbd_Name = content, fbd_GameVersion = ''1.0'', fbd_Platforms = [],
      fbd_Capabilities = [], fbd_Adapter = ''container/v1'', fbd_Image = paperMCRuntimeImage, fbd_User = [], fbd_WorkingDir = [],
      fbd_Environment = [], fbd_DataMounts = [], fbd_Ports = [], fbd_Stop = \<lparr>rs_Method = [], rs_Value = [], rs_TimeoutSeconds = 0\<rparr>,
      fbd_Health = \<lparr>rh_Type = [], rh_PortRef = [], rh_IntervalSeconds = 0, rh_TimeoutSeconds = 0, rh_FailureThreshold = 0\<rparr>,
      fbd_Console = Some \<lparr>rca_Adapter = ''minecraft-rcon/v1'', rca_Port = 25575\<rparr>\<rparr>"

definition demo_codec :: bundle_codec where
  "demo_codec = \<lparr>decodeFixedBundle = (\<lambda>content. Some (demo_document content)),
     decodeFixedBundleVariables = (\<lambda>name. Some \<lparr>fbv_Schema = name, fbv_Secrets = [name], fbv_Bindings = []\<rparr>),
     DecodeStartupVariableSchema = (\<lambda>name. Some \<lparr>svs_Type = ''object'', svs_AdditionalProperties = Some False, svs_Required = [name],
       svs_Properties = Some [(name, \<lparr>svp_Type = ''string'', svp_Default = None, svp_Const = None, svp_Enum = None, svp_Minimum = None,
         svp_Maximum = None, svp_MinLength = Some 8, svp_MaxLength = None\<rparr>)]\<rparr>),
     bundleDigest = (\<lambda>s. s)\<rparr>"

definition demo_lib :: lib where
  "demo_lib = sample_lib\<lparr>sha256 := (\<lambda>s. take 32 (s @ replicate 32 (CHR 0x00))), codec := demo_codec,
     json_marshal := (\<lambda>r. case r of ReqAllocationCreate g inp \<Rightarrow> ''allocation'' @ cai_BindIP inp | _ \<Rightarrow> sample_json r)\<rparr>"

definition demo_source :: catalog_source where
  "demo_source = \<lparr>FixedBundles = Some (map (\<lambda>i. (i @ ''.json'', i)) developmentGameOrder), CanonicalBundleDigest = Some,
     marshal_target = grt_Image\<rparr>"

definition demo_env :: env where
  "demo_env = sample_env\<lparr>clk := (\<lambda>i. 5000 * second + int i)\<rparr>"

definition demo_start :: "Memory option" where
  "demo_start = start_store demo_lib demo_source demo_env demo_env ''dev'' ''admin@example.com'' ''password'' ''agent''"

definition demo_store :: Memory where
  "demo_store = the demo_start"

text \<open>The administrator stops the first server.\<close>

definition demo_ids :: env where
  "demo_ids = demo_env\<lparr>uuid := (\<lambda>i. ''op'' @ replicate i (CHR ''x''))\<rparr>"

definition demo_server :: string where
  "demo_server = ''aaaaaaaa-aaaa-4aaa-8aaa-aaaaaaaaaaaa''"

definition demo_stop :: "Memory \<Rightarrow> handled" where
  "demo_stop = RequestPower demo_lib demo_ids demo_server PowerStop ''key-0001-key-0001'' sample_admin"

definition demo_backup :: "Memory \<Rightarrow> handled" where
  "demo_backup = CreateBackup demo_lib demo_ids demo_server ''key-0001-key-0001'' sample_admin"

definition demo_change :: "Memory \<Rightarrow> handled" where
  "demo_change = CreateAllocation demo_lib demo_ids demo_server
     \<lparr>cai_BindIP = ''10.0.10.21'', cai_Port = 25566, cai_Protocol = ''tcp'', cai_PortRef = ''query'', cai_ContainerPort = 25566,
      cai_Role = ''query'', cai_Primary = False\<rparr> 12 ''key-0001-key-0001'' sample_admin"

fun starts_op :: "handled \<Rightarrow> bool" where
  "starts_op (Inr p, Some tk, m) = (op_ID p = ''op'' \<and> op_ServerID p = demo_server \<and> op_Status p = ''queued'' \<and> tk_operationID tk = ''op'' \<and>
     tk_serverID tk = demo_server \<and> tk_phase tk = Spawned)"
| "starts_op _ = False"

text \<open>The three requests are accepted one at a time in the first state.\<close>

definition demo_accepts :: "(Memory \<Rightarrow> handled) \<Rightarrow> bool" where
  "demo_accepts f = (case demo_start of None \<Rightarrow> False | Some m \<Rightarrow> starts_op (f m))"

lemma demo_stops: "demo_accepts demo_stop"
  by code_simp

lemma demo_backs: "demo_accepts demo_backup"
  by code_simp

lemma demo_changes: "demo_accepts demo_change"
  by code_simp

lemma demo_started: "demo_start = Some demo_store"
  using demo_stops unfolding demo_accepts_def demo_store_def by (metis option.case_eq_if option.collapse)

lemma demo_accepted: "starts_op (demo_stop demo_store)" "starts_op (demo_backup demo_store)" "starts_op (demo_change demo_store)"
  using demo_stops demo_backs demo_changes by (simp_all add: demo_accepts_def demo_started)

lemma starts_opE:
  assumes "starts_op h"
  obtains p tk m where "h = (Inr p, Some tk, m)" "op_ID p = ''op''" "op_ServerID p = demo_server" "op_Status p = ''queued''"
    "tk_operationID tk = ''op''" "tk_serverID tk = demo_server" "tk_phase tk = Spawned"
  using assms by (cases h rule: starts_op.cases) auto

lemma demo_fresh: "fresh_ids demo_ids demo_store"
proof -
  from demo_started obtain now g1 g2 g3 where f:
    "m_operations demo_store = []" "m_servers demo_store = mput (srv_ID (seed_server3 now g3)) (seed_server3 now g3)
       (mput (srv_ID (seed_server2 now g2)) (seed_server2 now g2) (mput (srv_ID (seed_server1 now g1)) (seed_server1 now g1) []))"
    "m_allocations demo_store = foldl (\<lambda>as a. mput (al_ID a) a as) [] (seededAllocations now)"
    "m_allocationOrder demo_store = foldl (\<lambda>as a. mput (al_ServerID a) (mget_zero [] as (al_ServerID a) @ [al_ID a]) as) [] (seededAllocations now)"
    "m_backups demo_store = foldl (\<lambda>backups (serverID, list). mput serverID list backups) [] (seed_backups now)"
    unfolding demo_start_def by (rule start_fields)
  obtain b1 b2 b3 where b: "seed_backups now = [(''aaaaaaaa-aaaa-4aaa-8aaa-aaaaaaaaaaaa'', [b1, b2]), (''bbbbbbbb-bbbb-4bbb-8bbb-bbbbbbbbbbbb'', [b3]),
       (''cccccccc-cccc-4ccc-8ccc-cccccccccccc'', [])]"
    "b_ID b1 = ''d1111111-1111-4111-8111-111111111111''" "b_ID b2 = ''d2222222-2222-4222-8222-222222222222''"
    "b_ID b3 = ''d3333333-3333-4333-8333-333333333333''" by (rule seed_backups_cases)
  have "inj (uuid demo_ids)" by (rule injI) (simp add: demo_ids_def)
  moreover have "uuid demo_ids j = ''op'' @ replicate j (CHR ''x'')" for j by (simp add: demo_ids_def)
  ultimately show ?thesis
    unfolding fresh_ids_def f b(1)
    by (auto simp: b seededAllocations_def seed_server1_def seed_server2_def seed_server3_def mhas_def mget_zero_def split: if_splits)
qed

definition demo_world :: world where
  "demo_world = \<lparr>w_store = demo_store, w_tasks = []\<rparr>"

text \<open>The world after one accepted request.\<close>

fun after :: "handled \<Rightarrow> world" where
  "after (r, t, m) = \<lparr>w_store = m, w_tasks = (case t of None \<Rightarrow> [] | Some tk \<Rightarrow> [tk])\<rparr>"

lemma demo_step:
  "world_step demo_lib demo_world (after (demo_stop demo_store))"
  "world_step demo_lib demo_world (after (demo_backup demo_store))"
  "world_step demo_lib demo_world (after (demo_change demo_store))"
proof -
  have step: "world_step demo_lib demo_world (after h)" if "store_call demo_lib demo_store (fst (snd h)) (snd (snd h))" for h
    using world_step.call [OF that, of "[]"] by (cases h) (simp add: demo_world_def)
  obtain r1 t1 m1 where 1: "demo_stop demo_store = (r1, t1, m1)" by (rule prod_cases3)
  from step [of "(r1, t1, m1)"] store_call.power [OF 1 [unfolded demo_stop_def] demo_fresh] 1
  show "world_step demo_lib demo_world (after (demo_stop demo_store))" by simp
  obtain r2 t2 m2 where 2: "demo_backup demo_store = (r2, t2, m2)" by (rule prod_cases3)
  from step [of "(r2, t2, m2)"] store_call.backup [OF 2 [unfolded demo_backup_def] demo_fresh] 2
  show "world_step demo_lib demo_world (after (demo_backup demo_store))" by simp
  obtain r3 t3 m3 where 3: "demo_change demo_store = (r3, t3, m3)" by (rule prod_cases3)
  from step [of "(r3, t3, m3)"] store_call.allocate [OF 3 [unfolded demo_change_def] demo_fresh] 3
  show "world_step demo_lib demo_world (after (demo_change demo_store))" by simp
qed

text \<open>Decimal digits by division of integers.\<close>

function digits_of_int :: "int \<Rightarrow> string" where
  "digits_of_int n = (case n < 10 of True \<Rightarrow> [char_of (48 + nat n)] | False \<Rightarrow> digits_of_int (n div 10) @ [char_of (48 + nat (n mod 10))])"
  by pat_completeness auto
termination by (relation "measure nat") auto

declare digits_of_int.simps [simp del]

lemma digits_of_int_nat: "0 \<le> n \<Longrightarrow> digits_of_int n = digits_of_nat (nat n)"
proof (induction n rule: digits_of_int.induct)
  case (1 n)
  show ?case
  proof (cases "n < 10")
    case True
    then have "nat n < 10" using 1(2) by simp
    with True show ?thesis by (subst digits_of_int.simps, subst digits_of_nat.simps) simp
  next
    case False
    then have "\<not> nat n < 10" by simp
    with False 1 show ?thesis
      by (subst digits_of_int.simps, subst digits_of_nat.simps) (simp add: nat_div_distrib nat_mod_distrib)
  qed
qed

lemma FormatInt_code [code]: "FormatInt n = (if n < 0 then ''-'' @ digits_of_int (- n) else digits_of_int n)"
  by (simp add: FormatInt_def digits_of_int_nat)

definition demo_restore :: "Memory \<Rightarrow> handled" where
  "demo_restore = RestoreBackup demo_lib demo_ids ''bbbbbbbb-bbbb-4bbb-8bbb-bbbbbbbbbbbb'' ''d3333333-3333-4333-8333-333333333333''
     ''key-0001-key-0001'' sample_admin"

definition demo_create :: "Memory \<Rightarrow> handled" where
  "demo_create = CreateServer demo_lib demo_ids True
     \<lparr>csi_Name = ''new'', csi_GameDefinitionID = paperMCGameID, csi_GameBundleDigest = paperMCGameID,
      csi_NodeID = ''11111111-1111-4111-8111-111111111111'', csi_MemoryMB = 1024, csi_DiskGB = 10\<rparr> ''key-0001-key-0001'' sample_admin"

fun restores_op :: "handled \<Rightarrow> bool" where
  "restores_op (Inr p, Some tk, m) = list_ex (\<lambda>b. b_Status b = ''restoring'') (mget_zero [] (m_backups m) ''bbbbbbbb-bbbb-4bbb-8bbb-bbbbbbbbbbbb'')"
| "restores_op _ = False"

fun creates_op :: "handled \<Rightarrow> bool" where
  "creates_op (Inr p, Some tk, m) = (op_ID p = ''opx'' \<and> mhas (m_servers m) ''op'')"
| "creates_op _ = False"

lemma demo_restores: "case demo_start of None \<Rightarrow> False | Some m \<Rightarrow> restores_op (demo_restore m)"
  by code_simp

lemma demo_creates: "case demo_start of None \<Rightarrow> False | Some m \<Rightarrow> creates_op (demo_create m)"
  by code_simp

lemma demo_values:
  "case demo_start of None \<Rightarrow> False
   | Some m \<Rightarrow> mget (mget_zero [] (m_startupValues m) demo_server) ''rcon_password'' = Some (AnyString ''paper-rcon-seeded'') \<and>
       mhas (m_startups m) demo_server"
  by code_simp

lemma demo_accepted_more: "restores_op (demo_restore demo_store)" "creates_op (demo_create demo_store)"
  using demo_restores demo_creates by (simp_all add: demo_started)

lemma demo_step_restore: "world_step demo_lib demo_world (after (demo_restore demo_store))"
proof -
  obtain r t m where h: "demo_restore demo_store = (r, t, m)" by (rule prod_cases3)
  from world_step.call [OF store_call.restore [OF h [unfolded demo_restore_def] demo_fresh], of "[]"] h
  show ?thesis by (simp add: demo_world_def)
qed

end
