(* ===== verification/Settings_Invariant.thy ===== *)
theory Settings_Invariant
  imports Start_State
begin

text \<open>
  The catalog, the servers' identifiers and the start-up values in every world: no game is ever called
  signed, verified or supported, only PaperMC can be installed, and every stored start-up value
  satisfies the declaration of its variable.
\<close>

section \<open>Values of a bundle\<close>

text \<open>One round of the loop over the keys.\<close>

definition declared :: "StartupVariableProperty \<Rightarrow> string list \<Rightarrow> string list \<Rightarrow> string \<Rightarrow> StartupVariable" where
  "declared property required secrets key =
     \<lparr>var_Key = key, var_Type = svp_Type property, var_Secret = (key \<in> set secrets),
      var_Required = (key \<in> set required), var_Default = AnyNil, var_Value = AnyNil,
      var_HasValue = False, var_Minimum = svp_Minimum property, var_Maximum = svp_Maximum property,
      var_MinLength = svp_MinLength property, var_MaxLength = svp_MaxLength property,
      var_EnumValues = (case svp_Enum property of None \<Rightarrow> [] | Some enum \<Rightarrow> enum),
      var_ConstValue = AnyNil\<rparr>"

definition fixed_value :: "StartupVariable \<Rightarrow> any option \<Rightarrow> StartupVariable result" where
  "fixed_value d c = (case c of None \<Rightarrow> Inr d | Some constant \<Rightarrow>
     (case normalizeStartupValue d constant of Inl _ \<Rightarrow> Inl packageIncompatible | Inr v \<Rightarrow> Inr (d\<lparr>var_ConstValue := v\<rparr>)))"

definition default_value :: "StartupVariable \<Rightarrow> any option \<Rightarrow> (StartupVariable \<times> (string, any) gomap) result" where
  "default_value d c = (case c of None \<Rightarrow> Inr (d, []) | Some v0 \<Rightarrow>
     (case normalizeStartupValue d v0 of Inl _ \<Rightarrow> Inl packageIncompatible | Inr v \<Rightarrow> Inr (d\<lparr>var_Default := v\<rparr>, [(var_Key d, v)])))"

lemma fixed_value_key: "fixed_value d c = Inr d' \<Longrightarrow> var_Key d' = var_Key d"
  by (auto simp: fixed_value_def split: option.splits sum.splits)

lemma value_ok_default [simp]: "value_ok (d\<lparr>var_Default := x\<rparr>) v = value_ok d v"
  by (cases v) (simp_all add: value_ok_def)

lemma default_value_ok: "default_value d c = Inr (d', own) \<Longrightarrow> var_Key d' = var_Key d \<and> list_all (\<lambda>(k, v). k = var_Key d \<and> value_ok d' v) own"
  by (auto simp: default_value_def dest: normalize_ok split: option.splits sum.splits)

lemma bundle_variables_round:
  "bundle_variables P R S (key # keys) =
     (case mget P key of None \<Rightarrow> Inl packageIncompatible
      | Some property \<Rightarrow>
          if svp_Type property \<noteq> ''string'' \<and> svp_Type property \<noteq> ''integer'' \<and> svp_Type property \<noteq> ''boolean''
          then Inl packageIncompatible
          else (case fixed_value (declared property R S key) (svp_Const property) of
             Inl err \<Rightarrow> Inl err
           | Inr d \<Rightarrow> (case default_value d (svp_Default property) of
               Inl err \<Rightarrow> Inl err
             | Inr (d', own) \<Rightarrow> (case bundle_variables P R S keys of
                 Inl err \<Rightarrow> Inl err
               | Inr (vars, vals) \<Rightarrow> Inr (d' # vars, own @ vals)))))"
proof (cases "mget P key")
  case (Some property)
  have key: "(case c of None \<Rightarrow> Inr (d, []) | Some v0 \<Rightarrow>
      (case normalizeStartupValue d v0 of Inl _ \<Rightarrow> Inl packageIncompatible | Inr v \<Rightarrow> Inr (d\<lparr>var_Default := v\<rparr>, [(key, v)]))) = default_value d c"
    if "var_Key d = key" for d c unfolding default_value_def that ..
  have key1: "var_Key d = key" if "fixed_value (declared property R S key) (svp_Const property) = Inr d" for d
    using fixed_value_key [OF that] by (simp add: declared_def)
  show ?thesis
    unfolding bundle_variables.simps(2) Some option.case Let_def declared_def [symmetric] fixed_value_def [symmetric]
    using key1 by (auto simp: key split: sum.split)
qed simp

lemma bundle_variables_Cons:
  assumes "bundle_variables P R S (key # keys) = Inr (vars, vals)"
  obtains d own vars' vals' where "bundle_variables P R S [key] = Inr ([d], own)"
    "bundle_variables P R S keys = Inr (vars', vals')" "vars = d # vars'" "vals = own @ vals'" "var_Key d = key"
    "list_all (\<lambda>(k, v). k = key \<and> value_ok d v) own"
proof -
  from assms obtain property d d' own vars' vals' where d: "mget P key = Some property"
    "\<not> (svp_Type property \<noteq> ''string'' \<and> svp_Type property \<noteq> ''integer'' \<and> svp_Type property \<noteq> ''boolean'')"
    "fixed_value (declared property R S key) (svp_Const property) = Inr d" "default_value d (svp_Default property) = Inr (d', own)"
    "bundle_variables P R S keys = Inr (vars', vals')" "vars = d' # vars'" "vals = own @ vals'"
    unfolding bundle_variables_round by (auto split: option.splits if_splits sum.splits prod.splits)
  have key: "var_Key d = key" using fixed_value_key [OF d(3)] by (simp add: declared_def)
  have "bundle_variables P R S [key] = Inr ([d'], own)" unfolding bundle_variables_round using d(2) by (simp add: d(1,3,4))
  with that [OF this d(5-7)] default_value_ok [OF d(4)] key show thesis by simp
qed

lemma bundle_variables_ok:
  assumes "bundle_variables P R S keys = Inr (vars, vals)"
  shows "(\<forall>d \<in> set vars. \<exists>own. bundle_variables P R S [var_Key d] = Inr ([d], own)) \<and>
    (\<forall>(k, v) \<in> set vals. \<exists>d \<in> set vars. var_Key d = k \<and> value_ok d v)"
  using assms
proof (induction keys arbitrary: vars vals)
  case (Cons key keys)
  from Cons.prems obtain d own vars' vals' where d: "bundle_variables P R S [key] = Inr ([d], own)"
    "bundle_variables P R S keys = Inr (vars', vals')" "vars = d # vars'" "vals = own @ vals'" "var_Key d = key"
    "list_all (\<lambda>(k, v). k = key \<and> value_ok d v) own" by (rule bundle_variables_Cons)
  from Cons.IH [OF d(2)] d show ?case by (fastforce simp: list_all_iff simp del: bundle_variables.simps)
qed simp

lemma definitions_of_unique:
  assumes "d \<in> set vars" "\<And>d'. d' \<in> set vars \<Longrightarrow> var_Key d' = var_Key d \<Longrightarrow> d' = d"
  shows "mget (definitions_of vars) (var_Key d) = Some d"
  using assms
proof (induction vars rule: rev_induct)
  case (snoc x xs)
  then show ?case by (cases "var_Key x = var_Key d") (auto simp: definitions_of_def)
qed simp

lemma bundle_values_ok:
  assumes "bundle_variables P R S keys = Inr (vars, vals)"
  shows "values_ok (definitions_of vars) vals"
proof -
  note b = bundle_variables_ok [OF assms]
  have uniq: "d' = d" if "d \<in> set vars" "d' \<in> set vars" "var_Key d' = var_Key d" for d d'
  proof -
    from b that(1,2) obtain own own' where "bundle_variables P R S [var_Key d] = Inr ([d], own)"
      "bundle_variables P R S [var_Key d'] = Inr ([d'], own')" by blast
    with that(3) show ?thesis by (simp del: bundle_variables.simps)
  qed
  show ?thesis
    unfolding values_ok_def
  proof (intro allI impI)
    fix key v assume "mget vals key = Some v"
    then have "(key, v) \<in> set vals" by (rule mget_in_set)
    with b obtain d where d: "d \<in> set vars" "var_Key d = key" "value_ok d v" by auto
    with definitions_of_unique [OF d(1)] uniq show "\<exists>d. mget (definitions_of vars) key = Some d \<and> value_ok d v" by blast
  qed
qed

lemma startup_values_ok:
  assumes "startupFromFixedBundle c server game overrides = Inr (startup, vals)"
  shows "values_ok (definitions_of (st_Variables startup)) vals"
  using assms unfolding startupFromFixedBundle_def applyStartupOverrides_def
  by (auto simp: Let_def elim!: apply_overrides_ok intro: bundle_values_ok split: option.splits if_splits sum.splits prod.splits)

lemma initial_startup_ok:
  assumes "initial_startup L inp server game = Inr (startup, vals)"
  shows "values_ok (definitions_of (st_Variables startup)) vals"
  using assms
  by (auto simp: initial_startup_def applyStartupOverrides_def simp del: apply_overrides.simps elim!: apply_overrides_ok intro: startup_values_ok
      split: if_splits sum.splits prod.splits)

lemma check_updates_ok:
  assumes "check_updates defs updates = Inr (cleared, normalized)"
  shows "\<forall>(k, v) \<in> set normalized. \<exists>d. mget defs k = Some d \<and> value_ok d v"
  using assms
proof (induction updates arbitrary: cleared normalized)
  case (Cons u rest)
  obtain key v where u: "u = (key, v)" by (cases u)
  show ?case
  proof (cases "check_updates defs rest")
    case (Inl err)
    with Cons.prems u show ?thesis by (auto split: option.splits if_splits sum.splits)
  next
    case (Inr r)
    obtain c n where r: "r = (c, n)" by (cases r)
    with Inr have rest: "check_updates defs rest = Inr (c, n)" by simp
    from Cons.prems u rest have "normalized = n \<or> (\<exists>d v'. mget defs key = Some d \<and> normalizeStartupValue d v = Inr v' \<and> normalized = (key, v') # n)"
      by (auto split: option.splits if_splits sum.splits)
    with Cons.IH [OF rest] normalize_ok show ?thesis by auto
  qed
qed simp

lemma values_ok_deletes: "values_ok defs vals \<Longrightarrow> values_ok defs (foldl (\<lambda>vs key. mdel key vs) vals cleared)"
  by (induction cleared arbitrary: vals) (simp_all add: values_ok_del)

lemma values_ok_puts:
  "values_ok defs vals \<Longrightarrow> \<forall>(k, v) \<in> set normalized. \<exists>d. mget defs k = Some d \<and> value_ok d v \<Longrightarrow>
   values_ok defs (foldl (\<lambda>vs (key, value). mput key value vs) vals normalized)"
  by (induction normalized arbitrary: vals) (auto intro: values_ok_put)

section \<open>The invariant\<close>

definition games_trusted :: "Memory \<Rightarrow> bool" where
  "games_trusted m \<longleftrightarrow> (\<forall>i g. mget (m_games m) i = Some g \<longrightarrow> g_ID g = i \<and> \<not> g_Signed g \<and> \<not> g_Verified g \<and> \<not> g_Supported g \<and>
     (g_Runnable g \<longrightarrow> i = paperMCGameID \<and> (\<exists>t. g_RuntimeTarget g = Some t \<and> grt_Image t = paperMCRuntimeImage)))"

definition servers_named :: "Memory \<Rightarrow> bool" where
  "servers_named m \<longleftrightarrow> (\<forall>s v. mget (m_servers m) s = Some v \<longrightarrow> srv_ID v = s)"

definition startups_ok :: "Memory \<Rightarrow> bool" where
  "startups_ok m \<longleftrightarrow> (\<forall>s st. mget (m_startups m) s = Some st \<longrightarrow>
     values_ok (definitions_of (st_Variables st)) (mget_zero [] (m_startupValues m) s))"

definition settings_ok :: "Memory \<Rightarrow> bool" where
  "settings_ok m \<longleftrightarrow> games_trusted m \<and> servers_named m \<and> startups_ok m"

lemma settings_frame:
  assumes "settings_ok m" "m_games m' = m_games m" "m_startups m' = m_startups m" "m_startupValues m' = m_startupValues m"
    "\<And>s. map_option srv_ID (mget (m_servers m') s) = map_option srv_ID (mget (m_servers m) s)"
  shows "settings_ok m'"
proof -
  have "srv_ID v = s" if "mget (m_servers m') s = Some v" for s v
  proof -
    from assms(5) [of s] that obtain v0 where "mget (m_servers m) s = Some v0" "srv_ID v0 = srv_ID v"
      by (cases "mget (m_servers m) s") simp_all
    with assms(1) show ?thesis by (simp add: settings_ok_def servers_named_def)
  qed
  with assms(1-4) show ?thesis by (simp add: settings_ok_def games_trusted_def startups_ok_def servers_named_def)
qed

lemma reconcile_names [simp]:
  "map_option srv_ID (mget (m_servers (reconcileNodeLivenessLocked now m)) s) = map_option srv_ID (mget (m_servers m) s)"
  by (auto simp: reconcileNodeLivenessLocked_def option.map_comp intro!: option.map_cong)

lemma heartbeat_names [simp]:
  "map_option srv_ID (mget (m_servers (snd (Heartbeat now name version m))) s) = map_option srv_ID (mget (m_servers m) s)"
  by (auto simp: Heartbeat_def option.map_comp intro!: option.map_cong split: option.split prod.split)

lemma settings_reconcile [simp]: "settings_ok m \<Longrightarrow> settings_ok (reconcileNodeLivenessLocked now m)"
  by (rule settings_frame) simp_all

lemma settings_same:
  "m_games m' = m_games m \<Longrightarrow> m_startups m' = m_startups m \<Longrightarrow> m_startupValues m' = m_startupValues m \<Longrightarrow> m_servers m' = m_servers m \<Longrightarrow>
   settings_ok m' = settings_ok m"
  by (simp add: settings_ok_def games_trusted_def startups_ok_def servers_named_def)

lemma settings_replaced:
  assumes "settings_ok m" "mget (m_servers m) s = Some v" "srv_ID v' = srv_ID v"
    "m_games m' = m_games m" "m_startups m' = m_startups m" "m_startupValues m' = m_startupValues m" "m_servers m' = mput s v' (m_servers m)"
  shows "settings_ok m'"
  by (rule settings_frame [OF assms(1,4-6)]) (simp add: assms(2,3,7))

lemma settings_join [simp]: "settings_ok (join_operation scope digest p m) = settings_ok m"
  by (rule settings_same) (simp_all add: join_operation_def)

lemma settings_calm: "calm m m' \<Longrightarrow> settings_ok m \<Longrightarrow> settings_ok m'"
  by (auto simp: calm_def)

lemma settings_created:
  assumes "created L e inp0 key m tk m'" "settings_ok m"
  shows "settings_ok m'"
proof -
  from assms(1) obtain inp node game a v startup startupValues m1 where c: "m1 = reconcileNodeLivenessLocked (clk e 0) m"
    "placement inp m1 = Inr (node, game)" "initial_startup L inp v game = Inr (startup, startupValues)" "srv_ID v = uuid e 0"
    "m_games m' = mput (g_ID game) (game\<lparr>g_Servers := g_Servers game + 1\<rparr>) (m_games m1)"
    "m_servers m' = mput (uuid e 0) v (m_servers m1)" "m_startups m' = mput (uuid e 0) startup (m_startups m1)"
    "m_startupValues m' = mput (uuid e 0) startupValues (m_startupValues m1)"
    unfolding created_def by - (elim exE conjE, rule that, (assumption | simp add: install_server_def)+)
  have ok: "settings_ok m1" using assms(2) c(1) by simp
  have game: "mget (m_games m1) (csi_GameDefinitionID inp) = Some game" by (rule placement_node(2) [OF c(2)])
  with ok have "g_ID game = csi_GameDefinitionID inp" by (simp add: settings_ok_def games_trusted_def)
  with game c(5) ok have "games_trusted m'" by (auto simp: settings_ok_def games_trusted_def)
  moreover have "servers_named m'" using c(4,6) ok by (auto simp: settings_ok_def servers_named_def)
  moreover have "startups_ok m'"
    using c(7,8) ok initial_startup_ok [OF c(3)] by (auto simp: settings_ok_def startups_ok_def mget_zero_def)
  ultimately show ?thesis by (simp add: settings_ok_def)
qed

lemma mutation_settings:
  assumes "server_mutation L e s f" "f now v m = Inr (v', m')" "settings_ok m" "mget (m_servers m) s = Some v"
  shows "settings_ok m' \<and> srv_ID v' = srv_ID v"
proof -
  have name: "srv_ID v = s" using assms(3,4) by (simp add: settings_ok_def servers_named_def)
  from assms(1) consider (network) "m_startupValues m' = m_startupValues m"
    | (startup) updates where "f = change_startup L s updates"
    using assms(2) by (auto simp: server_mutation_def add_allocation_def make_primary_def remove_allocation_def Let_def
        split: if_splits option.splits)
  then show ?thesis
  proof cases
    case network
    have "m_games m' = m_games m \<and> m_startups m' = m_startups m \<and> m_servers m' = m_servers m \<and> srv_ID v' = srv_ID v"
      using assms(1,2)
      by (auto simp: server_mutation_def add_allocation_def make_primary_def remove_allocation_def change_startup_def Let_def
          split: if_splits option.splits sum.splits prod.splits)
    with network assms(3) show ?thesis using settings_same [of m' m] by simp
  next
    case startup
    with assms(2) obtain st c n where u: "startupTemplateForServerLocked L m v = Inr st"
      "check_updates (definitions_of (st_Variables st)) updates = Inr (c, n)" "v' = v"
      "m' = m\<lparr>m_startupValues := mput s (foldl (\<lambda>vs (key, value). mput key value vs)
         (foldl (\<lambda>vs key. mdel key vs) (mget_zero [] (m_startupValues m) s) c) n) (m_startupValues m)\<rparr>"
      by (auto simp: change_startup_def Let_def split: sum.splits prod.splits)
    from u(1) name obtain cached where cached: "mget (m_startups m) s = Some cached" "st_Variables cached = st_Variables st"
      by (auto simp: startupTemplateForServerLocked_def startupTemplatesEqual_def split: option.splits sum.splits prod.splits if_splits)
        (metis Startup.select_convs(4) Startup.surjective Startup.update_convs(2))
    have "values_ok (definitions_of (st_Variables st)) (mget_zero [] (m_startupValues m) s)"
      unfolding cached(2) [symmetric] using cached(1) assms(3) by (simp add: settings_ok_def startups_ok_def)
    then have "values_ok (definitions_of (st_Variables st)) (mget_zero [] (m_startupValues m') s)"
      by (simp add: u(4) values_ok_puts values_ok_deletes check_updates_ok [OF u(2)])
    with cached assms(3) u(3,4) show ?thesis by (auto simp: settings_ok_def startups_ok_def games_trusted_def servers_named_def mget_zero_def)
  qed
qed

lemma settings_mutated:
  assumes "mutated (server_mutation L e s) s m tk m'" "settings_ok m"
  shows "settings_ok m'"
proof -
  from assms(1) obtain now v v' m2 g c u m1 f where d:
    "m1 = reconcileNodeLivenessLocked now m" "mget (m_servers m1) s = Some v" "server_mutation L e s f" "f now v m1 = Inr (v', m2)"
    "m_games m' = m_games m2" "m_startups m' = m_startups m2" "m_startupValues m' = m_startupValues m2"
    "m_servers m' = mput s (v'\<lparr>srv_Generation := g, srv_NodeCondition := c, srv_UpdatedAt := u\<rparr>) (m_servers m2)"
    by (auto simp: mutated_def)
  have "settings_ok m1" using assms(2) d(1) by simp
  from mutation_settings [OF d(3,4) this d(2)] have ok: "settings_ok m2" "srv_ID v' = srv_ID v" by simp_all
  have "mget (m_servers m2) s = Some v" using mutation_frame [OF d(3,4)] d(2) by simp
  from settings_replaced [OF ok(1) this _ d(5-8)] ok(2) show ?thesis by simp
qed

lemma settings_call:
  assumes "store_call L m t m'" "settings_ok m"
  shows "settings_ok m'"
  using assms(1)
proof (cases rule: store_call_shape)
  case calm with assms(2) show ?thesis by (simp add: settings_calm)
next
  case create with assms(2) show ?thesis by (simp add: settings_created)
next
  case mutate with assms(2) show ?thesis by (simp add: settings_mutated)
next
  case (power tk s)
  then obtain now v v' where "mget (m_servers (reconcileNodeLivenessLocked now m)) s = Some v" "srv_ID v' = srv_ID v"
    "m_games m' = m_games (reconcileNodeLivenessLocked now m)" "m_startups m' = m_startups (reconcileNodeLivenessLocked now m)"
    "m_startupValues m' = m_startupValues (reconcileNodeLivenessLocked now m)"
    "m_servers m' = mput s v' (m_servers (reconcileNodeLivenessLocked now m))"
    by (auto simp: powered_on_def)
  then show ?thesis by (rule settings_replaced [OF settings_reconcile [OF assms(2)]])
next
  case (backup tk e s)
  then obtain now where "m_games m' = m_games (reconcileNodeLivenessLocked now m)" "m_startups m' = m_startups (reconcileNodeLivenessLocked now m)"
    "m_startupValues m' = m_startupValues (reconcileNodeLivenessLocked now m)" "m_servers m' = m_servers (reconcileNodeLivenessLocked now m)"
    by (auto simp: backed_up_def)
  with assms(2) settings_same [of m' "reconcileNodeLivenessLocked now m"] show ?thesis by simp
next
  case (restore tk s b)
  then obtain now v v' i bk where "restore_target s b (reconcileNodeLivenessLocked now m) = Inr (v, i, bk)" "srv_ID v' = srv_ID v"
    "m_games m' = m_games (reconcileNodeLivenessLocked now m)" "m_startups m' = m_startups (reconcileNodeLivenessLocked now m)"
    "m_startupValues m' = m_startupValues (reconcileNodeLivenessLocked now m)"
    "m_servers m' = mput s v' (m_servers (reconcileNodeLivenessLocked now m))"
    unfolding restoring_def by - (elim exE conjE, rule that, (assumption | simp add: set_backup_def)+)
  then show ?thesis by (intro settings_replaced [OF settings_reconcile [OF assms(2)] restore_targetD(1)])
next
  case (discard tk s b)
  then have "m_games m' = m_games m" "m_startups m' = m_startups m" "m_startupValues m' = m_startupValues m" "m_servers m' = m_servers m"
    by (auto simp: discarding_def set_backup_def)
  with assms(2) settings_same [of m' m] show ?thesis by simp
qed

lemma world_step_settings:
  assumes "world_step L w w'" "world_ok w" "settings_ok (w_store w)"
  shows "settings_ok (w_store w')"
  using assms
proof (induction rule: world_step.induct)
  case (call m t m' ts)
  then show ?case using settings_call by simp
next
  case (other m m' ts)
  note w = world_okE [OF other(2)]
  from other_cases [OF other(1) w(1)] other(3) show ?case
    using settings_same [of m' m] by (auto simp: runtime_same_def intro: settings_frame [of m])
next
  case (run e d tk m t' m' ts1 ts2)
  then show ?case
    using run_section_frame [OF run(1)] store_frame_address(2) [OF run_section_frame [OF run(1)]]
    by (auto simp: store_frame_def intro: settings_frame [of m])
qed

section \<open>The first state\<close>

lemma addGame_games [simp]: "m_games (addGame g m) = mput (g_ID g) g (m_games m)"
  by (simp add: addGame_def)

lemma fold_games:
  assumes "mget (m_games (fold addGame games m)) i = Some g"
  shows "(g \<in> set games \<and> i = g_ID g) \<or> mget (m_games m) i = Some g"
  using assms
proof (induction games arbitrary: m)
  case (Cons a games)
  from Cons.IH [of "addGame a m"] Cons.prems show ?case by (auto split: if_splits)
qed simp

lemma catalog_trusted:
  assumes "loadFixedGameCatalog L C = Some games" "g \<in> set games"
  shows "\<not> g_Signed g \<and> \<not> g_Verified g \<and> \<not> g_Supported g \<and>
    (g_Runnable g \<longrightarrow> g_ID g = paperMCGameID \<and> (\<exists>t. g_RuntimeTarget g = Some t \<and> grt_Image t = paperMCRuntimeImage))"
proof -
  from assms(1) obtain bundles byID where b: "catalog_entries L C bundles [] = Some byID" "list_all (mhas byID) developmentGameOrder"
    "games = map (\<lambda>gameID. the (mget byID gameID)) developmentGameOrder"
    by (auto simp: loadFixedGameCatalog_def split: option.splits if_splits)
  with assms(2) obtain i where "mget byID i = Some g" by (auto simp: list_all_iff mhas_def)
  from catalog_entries_trust [OF b(1) _ _ this, where P = "\<lambda>i g. \<not> g_Signed g \<and> \<not> g_Verified g \<and> \<not> g_Supported g \<and>
    (g_Runnable g \<longrightarrow> g_ID g = paperMCGameID \<and> (\<exists>t. g_RuntimeTarget g = Some t \<and> grt_Image t = paperMCRuntimeImage))"]
  show ?thesis using catalog_game_trust by fastforce
qed

lemma seed_startups_ok:
  assumes "seed_startups L ids m = Some m'" "startups_ok m"
  shows "startups_ok m' \<and> m_games m' = m_games m"
  using assms
proof (induction L ids m rule: seed_startups.induct)
  case (2 L s rest m)
  from 2(2) obtain st vals where s: "startupFromFixedBundle (codec L) (mget_zero zero_server (m_servers m) s)
      (mget_zero zero_game (m_games m) (srv_GameID (mget_zero zero_server (m_servers m) s))) (mget_zero [] startupOverrides s) = Inr (st, vals)"
    "seed_startups L rest (m\<lparr>m_startups := mput s st (m_startups m), m_startupValues := mput s vals (m_startupValues m)\<rparr>) = Some m'"
    by (auto simp: Let_def split: sum.splits prod.splits)
  have "startups_ok (m\<lparr>m_startups := mput s st (m_startups m), m_startupValues := mput s vals (m_startupValues m)\<rparr>)"
    using 2(3) startup_values_ok [OF s(1)] by (auto simp: startups_ok_def mget_zero_def)
  from 2(1) [OF refl s(1) refl s(2) this] show ?case by simp
qed simp

lemma addServers_sel [simp]:
  "m_games (addServer v m) = m_games m" "m_startups (addServer v m) = m_startups m" "m_games (addNode n m) = m_games m"
  "m_startups (addNode n m) = m_startups m" "m_startups (addGame g m) = m_startups m"
  "m_games (addAllocation m a) = m_games m" "m_startups (addAllocation m a) = m_startups m"
  by (simp_all add: addServer_def addNode_def addGame_def addAllocation_def)

lemma foldl_allocations [simp]:
  "m_games (foldl addAllocation m as) = m_games m" "m_startups (foldl addAllocation m as) = m_startups m"
  by (induction as arbitrary: m) simp_all

lemma fold_games_startups [simp]: "m_startups (fold addGame games m) = m_startups m"
  by (induction games arbitrary: m) simp_all

lemma newMemoryAt_settings: "newMemoryAt L e en em pw ag = Some m \<Longrightarrow> m_games m = [] \<and> m_startups m = []"
  by (auto simp: newMemoryAt_def Let_def split: option.splits)

lemma start_settings_ok:
  assumes "start_store L C e1 e2 en em pw ag = Some m"
  shows "settings_ok m"
proof -
  from assms obtain m0 m1 where m0: "newMemoryAt L e1 en em pw ag = Some m0" and m1: "seed L C e2 m0 = Some m1"
    and m: "m = (initializeBackupChecksums m1)\<lparr>m_fileSystems := rev (m_serverOrder (initializeBackupChecksums m1)) @ m_fileSystems (initializeBackupChecksums m1)\<rparr>"
    by (auto simp: start_store_def Let_def split: option.splits)
  let ?now = "clk e2 0 - clk e2 0 mod second"
  from m1 obtain games where c: "loadFixedGameCatalog L C = Some games" by (auto simp: seed_def Let_def split: option.splits)
  let ?m2 = "fold addGame games (addNode (seed_node3 ?now) (addNode (seed_node2 ?now) (addNode (seed_node1 ?now) m0)))"
  from m1 c obtain m4 m5 where m5: "seed_startups L (m_serverOrder m4) m4 = Some m5" "m_games m4 = m_games ?m2" "m_startups m4 = []"
    "m_games m1 = m_games m5" "m_startups m1 = m_startups m5" "m_startupValues m1 = m_startupValues m5"
    using newMemoryAt_settings [OF m0] by (auto simp: seed_def Let_def)
  have "startups_ok m4" by (simp add: startups_ok_def m5(3))
  note s = seed_startups_ok [OF m5(1) this]
  have "games_trusted m"
    unfolding games_trusted_def
  proof (intro allI impI)
    fix i g assume "mget (m_games m) i = Some g"
    then have "mget (m_games ?m2) i = Some g" using s m5(2,4) by (simp add: m initializeBackupChecksums_def)
    from fold_games [OF this] newMemoryAt_settings [OF m0] have "g \<in> set games" "i = g_ID g" by auto
    with catalog_trusted [OF c] show "g_ID g = i \<and> \<not> g_Signed g \<and> \<not> g_Verified g \<and> \<not> g_Supported g \<and>
      (g_Runnable g \<longrightarrow> i = paperMCGameID \<and> (\<exists>t. g_RuntimeTarget g = Some t \<and> grt_Image t = paperMCRuntimeImage))" by blast
  qed
  moreover have "startups_ok m" using s m5(5,6) by (simp add: m initializeBackupChecksums_def startups_ok_def)
  moreover obtain now g1 g2 g3 where f:
    "m_servers m = mput (srv_ID (seed_server3 now g3)) (seed_server3 now g3) (mput (srv_ID (seed_server2 now g2)) (seed_server2 now g2)
       (mput (srv_ID (seed_server1 now g1)) (seed_server1 now g1) []))" by (rule start_fields [OF assms])
  have "servers_named m" unfolding servers_named_def f by auto
  ultimately show ?thesis by (simp add: settings_ok_def)
qed

end
