(* ===== verification/Identity_World.thy ===== *)
theory Identity_World
  imports Start_State
begin

text \<open>
  The identity component inside the whole program: no handler of the servers, no goroutine and no
  other call touches the users and their credentials, so the invariant of the identity component holds
  in every world that starts with the seeded store.
\<close>

section \<open>What the rest of the program keeps\<close>

definition logins_same :: "Memory \<Rightarrow> Memory \<Rightarrow> bool" where
  "logins_same m m' \<longleftrightarrow> m_users m' = m_users m \<and> m_userByEmail m' = m_userByEmail m \<and> m_sessions m' = m_sessions m \<and>
     m_passwordResetTokens m' = m_passwordResetTokens m \<and> m_apiTokens m' = m_apiTokens m \<and>
     m_apiTokenByDigest m' = m_apiTokenByDigest m \<and> m_consoleTokens m' = m_consoleTokens m \<and>
     m_setupRequired m' = m_setupRequired m"

lemma logins_refl [simp]: "logins_same m m"
  by (simp add: logins_same_def)

lemma logins_trans: "logins_same a b \<Longrightarrow> logins_same b c \<Longrightarrow> logins_same a c"
  by (simp add: logins_same_def)

lemma logins_identity:
  assumes "logins_same m m'" "identity_ok m"
  shows "identity_ok m'"
proof -
  have "active_user m' = active_user m" using assms(1) by (intro active_user_same) (simp add: logins_same_def)
  then show ?thesis using assms by (simp add: logins_same_def identity_ok_def users_ok_def credentials_ok_def setup_ok_def)
qed

lemma logins_updates [simp]:
  "logins_same m (n\<lparr>m_runtimeAdapter := x1\<rparr>) = logins_same m n"
  "logins_same m (n\<lparr>m_memberships := x2\<rparr>) = logins_same m n"
  "logins_same m (n\<lparr>m_servers := x3\<rparr>) = logins_same m n"
  "logins_same m (n\<lparr>m_serverOrder := x4\<rparr>) = logins_same m n"
  "logins_same m (n\<lparr>m_allocations := x5\<rparr>) = logins_same m n"
  "logins_same m (n\<lparr>m_allocationOrder := x6\<rparr>) = logins_same m n"
  "logins_same m (n\<lparr>m_startups := x7\<rparr>) = logins_same m n"
  "logins_same m (n\<lparr>m_startupValues := x8\<rparr>) = logins_same m n"
  "logins_same m (n\<lparr>m_nodes := x9\<rparr>) = logins_same m n"
  "logins_same m (n\<lparr>m_nodeOrder := x10\<rparr>) = logins_same m n"
  "logins_same m (n\<lparr>m_revokedNodes := x11\<rparr>) = logins_same m n"
  "logins_same m (n\<lparr>m_enrollmentTokens := x12\<rparr>) = logins_same m n"
  "logins_same m (n\<lparr>m_games := x13\<rparr>) = logins_same m n"
  "logins_same m (n\<lparr>m_gameOrder := x14\<rparr>) = logins_same m n"
  "logins_same m (n\<lparr>m_operations := x15\<rparr>) = logins_same m n"
  "logins_same m (n\<lparr>m_idempotency := x16\<rparr>) = logins_same m n"
  "logins_same m (n\<lparr>m_audit := x17\<rparr>) = logins_same m n"
  "logins_same m (n\<lparr>m_console := x18\<rparr>) = logins_same m n"
  "logins_same m (n\<lparr>m_consoleHub := x19\<rparr>) = logins_same m n"
  "logins_same m (n\<lparr>m_fileSystems := x20\<rparr>) = logins_same m n"
  "logins_same m (n\<lparr>m_backups := x21\<rparr>) = logins_same m n"
  "logins_same m (n\<lparr>m_backupChecksums := x22\<rparr>) = logins_same m n"
  "logins_same m (n\<lparr>m_backupOperations := x23\<rparr>) = logins_same m n"
  "logins_same m (n\<lparr>m_backupDeleteFrom := x24\<rparr>) = logins_same m n"
  by (simp_all add: logins_same_def)

lemma logins_calls [simp]:
  "logins_same m (recordAuditLocked a1 a2 a3 a4 a5 a6 a7 a8 n) = logins_same m n"
  "logins_same m (queue_operation scope digest p n) = logins_same m n"
  "logins_same m (join_operation scope digest p n) = logins_same m n"
  "logins_same m (set_backup s i b n) = logins_same m n"
  "logins_same m (observe_server s f n) = logins_same m n"
  "logins_same m (install_server v a st vs inp node game n) = logins_same m n"
  "logins_same m (reconcileNodeLivenessLocked now n) = logins_same m n"
  by (simp_all add: recordAuditLocked_def queue_operation_def join_operation_def set_backup_def observe_server_def
      install_server_def reconcileNodeLivenessLocked_def)

lemma logins_audit [simp]: "logins_same m (audit_backup e a1 a2 s srv b i n) = logins_same m n"
  by (simp add: audit_backup_def)

lemma mutation_logins:
  assumes "server_mutation L e s f" "f now v m = Inr (v', m')"
  shows "logins_same m m'"
  using assms
  by (auto simp: server_mutation_def add_allocation_def make_primary_def remove_allocation_def change_startup_def Let_def
      split: if_splits option.splits sum.splits prod.splits)

lemma call_logins:
  assumes "store_call L m t m'"
  shows "logins_same m m'"
  using assms
proof (cases rule: store_call_shape)
  case calm
  then show ?thesis by (auto simp: calm_def)
next
  case create
  then show ?thesis unfolding created_def by auto
next
  case power
  then show ?thesis unfolding powered_on_def by auto
next
  case (mutate tk e s)
  then obtain now v v' m2 f where f: "server_mutation L e s f" "f now v (reconcileNodeLivenessLocked now m) = Inr (v', m2)"
    and m': "logins_same m2 m'" unfolding mutated_def by auto
  have "logins_same m (reconcileNodeLivenessLocked now m)" by simp
  then show ?thesis using mutation_logins [OF f] m' logins_trans by blast
next
  case backup
  then show ?thesis unfolding backed_up_def by auto
next
  case restore
  then show ?thesis unfolding restoring_def by auto
next
  case discard
  then show ?thesis unfolding discarding_def by auto
qed

lemma heartbeat_logins: "Heartbeat now name version m = (r, m') \<Longrightarrow> logins_same m m'"
  by (auto simp: Heartbeat_def split: option.splits prod.splits if_splits)

lemma other_identity:
  assumes "other_call L m m'" "identity_ok m"
  shows "identity_ok m'"
proof (cases "identity_step L m m'")
  case True
  then show ?thesis using identity_step_ok assms(2) by blast
next
  case False
  with assms(1) have "logins_same m m'"
  proof cases
    case heartbeat then show ?thesis by (rule heartbeat_logins)
  next
    case revoke then show ?thesis by (auto simp: RevokeNode_def split: if_splits)
  next
    case command then show ?thesis by (auto simp: SendConsoleCommand_def Let_def split: if_splits sum.splits option.splits)
  next
    case command_result then show ?thesis by (auto simp: RecordConsoleCommandResult_def split: sum.splits option.splits)
  next
    case get_op then show ?thesis by (auto simp: get_operation_def Let_def split: option.splits)
  next
    case list_ops then show ?thesis by (auto simp: VisibleOperations_def Let_def split: option.splits if_splits)
  next
    case enable then show ?thesis by (auto simp: EnableRealRuntime_def split: if_splits)
  next
    case disable then show ?thesis by (simp add: DisableRealRuntime_def)
  next
    case (file_mutation now) then show ?thesis by (auto simp: beginFileMutation_def Let_def split: sum.splits option.splits if_splits)
  next
    case membership then show ?thesis by (auto simp: PutServerMembership_def Let_def split: sum.splits option.splits if_splits)
  next
    case no_membership then show ?thesis by (auto simp: DeleteServerMembership_def split: option.splits if_splits)
  next
    case enroll then show ?thesis by (auto simp: IssueEnrollmentToken_def Let_def split: sum.splits)
  next
    case enrolled then show ?thesis by (auto simp: ConsumeEnrollmentToken_def Let_def split: option.splits if_splits)
  qed simp_all
  then show ?thesis using assms(2) by (rule logins_identity)
qed

text \<open>The sections of the goroutines.\<close>

lemma complete_section_logins: "complete_section now i s m = (o', m') \<Longrightarrow> logins_same m m'"
  by (auto simp: complete_section_def split: option.splits prod.splits bool.splits)

lemma complete_logins [simp]:
  "logins_same m (case complete_section now i s m of (None, m1) \<Rightarrow> m1
      | (Some operation, m1) \<Rightarrow> if op_Status operation = ''succeeded'' then observe_server s f m1 else m1)"
  by (auto dest: complete_section_logins split: prod.split option.split)

lemma end_section_logins: "logins_same m (end_section L e tk m)"
proof (cases "tk_job tk")
  case JobProvision
  then show ?thesis by (simp add: end_section_def finishProvision_end_def)
next
  case (JobPower a)
  then show ?thesis by (simp add: end_section_def finishPower_end_def)
next
  case (JobReconcile actor action)
  then show ?thesis
    by (auto simp: end_section_def finishReconcile_end_def Let_def dest: complete_section_logins split: option.split prod.split)
next
  case (JobBackup actor)
  then show ?thesis
    by (auto simp: end_section_def finishBackup_end_def Let_def dest: complete_section_logins split: option.split prod.split)
next
  case (JobRestoreBackup b actor)
  then show ?thesis
    by (auto simp: end_section_def finishRestoreBackup_end_def Let_def dest: complete_section_logins split: option.split prod.split)
next
  case (JobDeleteBackup b actor)
  then show ?thesis
    by (auto simp: end_section_def finishDeleteBackup_end_def Let_def dest: complete_section_logins split: option.split prod.split)
qed

lemma runtime_section_logins: "logins_same m (runtime_section e d tk o' sv st m)"
  by (auto simp: runtime_section_def finishProvisionWithRuntime_end_def finishPowerWithRuntime_end_def runtime_fail_def Let_def
      dest: complete_section_logins split: job.split option.split prod.split)

lemma run_section_logins:
  assumes "run_section L e d tk m = (t', m')"
  shows "logins_same m m'"
proof -
  have "logins_same m (snd (beginOperation now i m))" "logins_same m (finishPower_progress now i m)" for now i
    by (auto simp: beginOperation_def finishPower_progress_def Let_def split: option.split)
  then have "logins_same m (snd (run_section L e d tk m))"
    by (auto simp: run_section_def end_section_logins runtime_section_logins split: phase.split prod.split bool.split) (metis snd_conv)+
  with assms show ?thesis by simp
qed

lemma world_step_identity:
  assumes "world_step L w w'" "identity_ok (w_store w)"
  shows "identity_ok (w_store w')"
  using assms(1)
proof cases
  case call
  then show ?thesis using logins_identity [OF call_logins] assms(2) by simp
next
  case other
  then show ?thesis using other_identity assms(2) by simp
next
  case run
  then show ?thesis using logins_identity [OF run_section_logins] assms(2) by simp
qed

section \<open>The first state\<close>

lemma fold_logins [simp]: "logins_same m (fold addGame games n) = logins_same m n"
  by (induction games arbitrary: n) (simp_all add: addGame_def)

lemma foldl_logins [simp]: "logins_same m (foldl addAllocation n as) = logins_same m n"
  by (induction as arbitrary: n) (simp_all add: addAllocation_def)

lemma seed_startups_logins: "seed_startups L ids m = Some m' \<Longrightarrow> logins_same m m'"
proof (induction ids arbitrary: m)
  case (Cons i ids)
  then obtain x y where "seed_startups L ids (m\<lparr>m_startups := x, m_startupValues := y\<rparr>) = Some m'"
    by (auto simp: Let_def split: sum.splits)
  from Cons(1) [OF this] have "logins_same (m\<lparr>m_startups := x, m_startupValues := y\<rparr>) m'" .
  then show ?case by (rule logins_trans [rotated]) simp
qed simp

lemma start_store_logins:
  assumes "start_store L C e1 e2 en em pw ag = Some m"
  shows "\<exists>m0. newMemoryAt L e1 en em pw ag = Some m0 \<and> logins_same m0 m"
proof -
  from assms obtain m0 m1 where m0: "newMemoryAt L e1 en em pw ag = Some m0" and m1: "seed L C e2 m0 = Some m1"
    and m: "logins_same m1 m"
    by (auto simp: start_store_def initializeBackupChecksums_def Let_def split: option.splits)
  from m1 have "logins_same m0 m1"
    by (auto simp: seed_def addNode_def addServer_def Let_def dest!: seed_startups_logins elim!: logins_trans [rotated] split: option.splits)
  then show ?thesis using m m0 logins_trans by blast
qed

lemma start_identity_ok: "start_store L C e1 e2 en em pw ag = Some m \<Longrightarrow> identity_ok m"
  using start_store_logins newMemory_ok logins_identity by blast

text \<open>In setup mode there is no user yet.\<close>

lemma start_setup_identity:
  assumes "start_store L C e1 e2 en [] [] ag = Some m"
  shows "identity_ok (m\<lparr>m_setupRequired := True, m_bootstrapToken := d, m_bootstrapExpiresAt := t\<rparr>)"
proof -
  from start_store_logins [OF assms] obtain m0 where m0: "newMemoryAt L e1 en [] [] ag = Some m0" and same: "logins_same m0 m" by blast
  have "m_users m = []" using newMemoryAt_shape [OF m0] same by (simp add: logins_same_def)
  moreover have "identity_ok m" using start_identity_ok [OF assms] .
  ultimately show ?thesis
    by (simp add: identity_ok_def users_ok_def credentials_ok_def setup_ok_def active_user_def)
qed

end
