(* ===== verification/Reachable_World.thy ===== *)
theory Reachable_World
  imports Demo_World Settings_Invariant Identity_World
begin

text \<open>
  The worlds the program can reach: it starts with the development store or in setup mode and goes on
  with handler calls, other calls and sections of goroutines in any order. The properties of the
  store that hold in all of them.
\<close>

section \<open>Reachable worlds\<close>

text \<open>The store in setup mode: the constructor without an administrator, then the bootstrap token.\<close>

definition start_setup_store :: "lib \<Rightarrow> catalog_source \<Rightarrow> env \<Rightarrow> env \<Rightarrow> string \<Rightarrow> string \<Rightarrow> gotime \<Rightarrow> string \<Rightarrow> Memory option" where
  "start_setup_store L C e1 e2 environment bootstrapToken bootstrapExpiresAt agentToken =
     map_option (\<lambda>m. m\<lparr>m_setupRequired := True, m_bootstrapToken := tokenDigest L bootstrapToken,
        m_bootstrapExpiresAt := bootstrapExpiresAt\<rparr>)
       (start_store L C e1 e2 environment [] [] agentToken)"

inductive reachable :: "lib \<Rightarrow> catalog_source \<Rightarrow> world \<Rightarrow> bool" for L C where
  dev_mode: "start_store L C e1 e2 environment adminEmail adminPassword agentToken = Some m \<Longrightarrow>
    reachable L C \<lparr>w_store = m, w_tasks = []\<rparr>"
| setup_mode: "start_setup_store L C e1 e2 environment bootstrapToken bootstrapExpiresAt agentToken = Some m \<Longrightarrow>
    reachable L C \<lparr>w_store = m, w_tasks = []\<rparr>"
| step: "reachable L C w \<Longrightarrow> world_step L w w' \<Longrightarrow> reachable L C w'"

lemma setup_frame:
  fixes m :: Memory and d t
  defines "m' \<equiv> m\<lparr>m_setupRequired := True, m_bootstrapToken := d, m_bootstrapExpiresAt := t\<rparr>"
  shows "world_ok \<lparr>w_store = m', w_tasks = []\<rparr> = world_ok \<lparr>w_store = m, w_tasks = []\<rparr>"
    "capacity_ok m' = capacity_ok m" "allocations_ok m' = allocations_ok m" "backups_ok m' J = backups_ok m J"
proof -
  have "ledger_ok m' = ledger_ok m" using ledger_same [of m' m] by (simp add: m'_def)
  moreover have "nodes_ok m' = nodes_ok m" by (rule nodes_ok_same) (simp add: m'_def)
  ultimately show "world_ok \<lparr>w_store = m', w_tasks = []\<rparr> = world_ok \<lparr>w_store = m, w_tasks = []\<rparr>"
    by (simp add: world_ok_def Let_def) (simp add: m'_def)
  show "capacity_ok m' = capacity_ok m" by (rule capacity_same) (simp add: m'_def)
  have "place m' = place m" by (simp add: place_def m'_def fun_eq_iff)
  then show "allocations_ok m' = allocations_ok m" by (intro allocations_same) (simp_all add: m'_def)
  show "backups_ok m' J = backups_ok m J" by (rule backups_ok_same) (simp_all add: m'_def)
qed

lemma reachable_ok:
  assumes "reachable L C w"
  shows "world_ok w \<and> allocations_ok (w_store w) \<and> capacity_ok (w_store w)"
  using assms
proof induction
  case dev_mode
  then show ?case using start_world_ok start_allocations_ok by simp
next
  case setup_mode
  then show ?case using start_world_ok start_allocations_ok by (auto simp: start_setup_store_def setup_frame)
next
  case (step w w')
  then show ?case using world_step_ok [of L w w'] world_step_network [of L w w'] by simp
qed

lemma reachable_backups:
  assumes "reachable L C w" "digests_ok L"
  shows "backups_ok (w_store w) (backup_work (w_tasks w))"
  using assms(1)
proof induction
  case dev_mode
  then show ?case using start_backups_ok by (simp add: backup_work_def)
next
  case setup_mode
  then show ?case using start_backups_ok by (auto simp: start_setup_store_def setup_frame backup_work_def)
next
  case (step w w')
  then show ?case using reachable_ok [of L C w] world_step_backups [of L w w'] assms(2) by simp
qed

lemma reachable_steps:
  assumes "(world_step L)\<^sup>*\<^sup>* w w'" "reachable L C w"
  shows "reachable L C w'"
  using assms(1) by (induction rule: rtranclp_induct) (use assms(2) reachable.step in blast)+

lemma demo_reachable:
  "reachable demo_lib demo_source demo_world"
  "reachable demo_lib demo_source (after (demo_stop demo_store))"
  "reachable demo_lib demo_source (after (demo_backup demo_store))"
  "reachable demo_lib demo_source (after (demo_change demo_store))"
proof -
  show d: "reachable demo_lib demo_source demo_world"
    unfolding demo_world_def by (rule reachable.dev_mode) (rule demo_started [unfolded demo_start_def])
  show "reachable demo_lib demo_source (after (demo_stop demo_store))"
    "reachable demo_lib demo_source (after (demo_backup demo_store))"
    "reachable demo_lib demo_source (after (demo_change demo_store))"
    by (rule reachable.step [OF d demo_step(1)] reachable.step [OF d demo_step(2)] reachable.step [OF d demo_step(3)])+
qed

lemma demo_digests: "digests_ok demo_lib"
  by (auto simp: digests_ok_def demo_lib_def min_def)

section \<open>Operations\<close>

lemma starts_after:
  assumes "starts_op h"
  shows "\<exists>tk m. after h = \<lparr>w_store = m, w_tasks = [tk]\<rparr> \<and> tk_operationID tk = ''op'' \<and> tk_serverID tk = demo_server"
proof -
  from assms obtain p tk m where "h = (Inr p, Some tk, m)" "tk_operationID tk = ''op''" "tk_serverID tk = demo_server" by (rule starts_opE)
  then show ?thesis by simp
qed

lemmas demo_running = starts_after [OF demo_accepted(1)] starts_after [OF demo_accepted(2)] starts_after [OF demo_accepted(3)]

definition unfinished :: "world \<Rightarrow> string \<Rightarrow> Operation \<Rightarrow> bool" where
  "unfinished w i p \<longleftrightarrow> mget (m_operations (w_store w)) i = Some p \<and> \<not> isTerminalOperation (op_Status p)"

text \<open>C1: operations and goroutines in every reachable world. Every unfinished operation is served by
  exactly one goroutine and every goroutine serves an unfinished operation, and no server has two
  unfinished operations, however handler calls, node heartbeats and goroutines interleave.\<close>

theorem operations_have_one_goroutine:
  assumes "reachable L C w"
  shows "distinct (map tk_operationID (w_tasks w)) \<and>
    tk_operationID ` set (w_tasks w) = {i. \<exists>p. unfinished w i p} \<and>
    (\<forall>i j p q. unfinished w i p \<and> unfinished w j q \<and> op_ServerID p = op_ServerID q \<longrightarrow> i = j)"
proof (cases w)
  case (fields m ts)
  note w = world_okE [of m ts]
  have ok: "world_ok \<lparr>w_store = m, w_tasks = ts\<rparr>" using reachable_ok [OF assms] fields by simp
  have "i \<in> tk_operationID ` set ts" if "unfinished w i p" for i p
    using w(6) [OF ok] that fields by (auto simp: unfinished_def)
  moreover have "\<exists>p. unfinished w i p" if "i \<in> tk_operationID ` set ts" for i
    using that w(4) [OF ok] task_ok_unfinished [of m] fields by (auto simp: unfinished_def list_all_iff)
  moreover have "i = j" if "unfinished w i p" "unfinished w j q" "op_ServerID p = op_ServerID q" for i j p q
  proof (rule one_active [OF w(1) [OF ok]])
    show "mget (m_operations m) i = Some p" "mget (m_operations m) j = Some q" using that fields by (simp_all add: unfinished_def)
    then show "blocks_server (op_ServerID p) p" "blocks_server (op_ServerID p) q"
      using that w(5) [OF ok] fields by (auto simp: unfinished_def blocks_server_def)
  qed
  ultimately show ?thesis using w(3) [OF ok] fields by auto
qed

theorem operations_have_one_goroutine_witness:
  "{i. \<exists>p. unfinished (after (demo_stop demo_store)) i p} = {''op''}"
proof -
  have "tk_operationID ` set (w_tasks (after (demo_stop demo_store))) = {''op''}" using demo_running(1) by auto
  with operations_have_one_goroutine [OF demo_reachable(2)] show ?thesis by simp
qed

text \<open>an operation never becomes stale. In every reachable world an unfinished operation is meant
  for the generation its server currently has and for the node it is on, so the check before an
  operation completes always finds its target unchanged.\<close>

theorem unfinished_never_stale:
  assumes "reachable L C w" "mget (m_operations (w_store w)) i = Some p" "\<not> isTerminalOperation (op_Status p)"
  shows "operationTargetsCurrentServer p (mget (m_servers (w_store w)) (op_ServerID p))"
proof (cases w)
  case (fields m ts)
  with reachable_ok [OF assms(1)] world_okE(7) [of m ts i p] assms(2,3) show ?thesis by (intro targets_view) simp
qed

lemma demo_operation:
  "\<exists>p. mget (m_operations (w_store (after (demo_stop demo_store)))) ''op'' = Some p \<and> \<not> isTerminalOperation (op_Status p) \<and>
     op_ServerID p = demo_server"
proof -
  obtain tk m where h: "after (demo_stop demo_store) = \<lparr>w_store = m, w_tasks = [tk]\<rparr>" "tk_operationID tk = ''op''" "tk_serverID tk = demo_server"
    using demo_running(1) by blast
  have "task_ok m tk" using reachable_ok [OF demo_reachable(2)] h(1) world_okE(4) [of m "[tk]"] by simp
  from task_ok_unfinished [OF this] this h show ?thesis by (auto simp: task_ok_def)
qed

theorem unfinished_never_stale_witness:
  "\<exists>p. operationTargetsCurrentServer p (mget (m_servers (w_store (after (demo_stop demo_store)))) demo_server)"
proof -
  from demo_operation obtain p where "mget (m_operations (w_store (after (demo_stop demo_store)))) ''op'' = Some p"
    "\<not> isTerminalOperation (op_Status p)" "op_ServerID p = demo_server" by blast
  with unfinished_never_stale [OF demo_reachable(2), of "''op''" p] show ?thesis by auto
qed

text \<open>C6: a finished operation is final. Whatever happens after a reachable world, an operation that has
  succeeded or failed there stays exactly as it is.\<close>

theorem finished_is_final:
  assumes "reachable L C w" "(world_step L)\<^sup>*\<^sup>* w w'"
    "mget (m_operations (w_store w)) i = Some p" "isTerminalOperation (op_Status p)"
  shows "mget (m_operations (w_store w')) i = Some p"
  using world_steps_ok [OF assms(2)] reachable_ok [OF assms(1)] assms(3,4) unfolding ledger_le_def by blast

text \<open>goroutines terminate. If no new request arrives, the goroutines of a reachable world take at
  most three sections each, whatever their order and whatever the container runtime answers; and as
  long as one is left some section can run.\<close>

theorem goroutines_terminate:
  assumes "reachable L C w" "(run_step L ^^ n) w w'"
  shows "n \<le> 3 * length (w_tasks w) \<and> ((\<nexists>w2. run_step L w' w2) \<longleftrightarrow> w_tasks w' = [])"
proof -
  have "world_weight w \<le> 3 * length (w_tasks w)"
  proof -
    have "phase_weight p \<le> 3" for p by (cases p) simp_all
    then have "sum_list (map (phase_weight \<circ> tk_phase) ts) \<le> 3 * length ts" for ts
      by (induction ts) (simp_all add: add_mono)
    then show ?thesis by (simp add: world_weight_def)
  qed
  with run_steps_weight [OF assms(2)] have "n \<le> 3 * length (w_tasks w)" by simp
  moreover have "(\<nexists>w2. run_step L w' w2) \<longleftrightarrow> w_tasks w' = []"
    using run_step_enabled [of w' L] by (cases "w_tasks w' = []") (auto elim!: run_step.cases)
  ultimately show ?thesis by blast
qed

text \<open>C2: every accepted operation ends. From a reachable world the goroutines can be run to the end,
  and when none is left every operation has succeeded or failed.\<close>

theorem operations_end:
  assumes "reachable L C w"
  shows "(\<exists>n w'. (run_step L ^^ n) w w' \<and> w_tasks w' = []) \<and>
    (\<forall>n w' i p. (run_step L ^^ n) w w' \<and> w_tasks w' = [] \<and> mget (m_operations (w_store w')) i = Some p \<longrightarrow>
       isTerminalOperation (op_Status p))"
  using run_steps_end [of L w] reachable_ok [OF assms] world_steps_ok [OF run_steps_rtranclp] idle_terminal by blast


lemma demo_finished:
  "\<exists>n w p. (run_step demo_lib ^^ n) (after (demo_stop demo_store)) w \<and> w_tasks w = [] \<and> mget (m_operations (w_store w)) ''op'' = Some p"
proof -
  obtain n w' where w: "(run_step demo_lib ^^ n) (after (demo_stop demo_store)) w'" "w_tasks w' = []" using run_steps_end by blast
  obtain p where "mget (m_operations (w_store (after (demo_stop demo_store)))) ''op'' = Some p" using demo_operation by blast
  moreover have "ledger_le (w_store (after (demo_stop demo_store))) (w_store w')"
    using world_steps_ok [OF run_steps_rtranclp [OF w(1)]] reachable_ok [OF demo_reachable(2)] by blast
  ultimately obtain q where "mget (m_operations (w_store w')) ''op'' = Some q" unfolding ledger_le_def by blast
  with w show ?thesis by blast
qed

theorem goroutines_terminate_witness:
  "\<exists>n w'. (run_step demo_lib ^^ n) (after (demo_stop demo_store)) w' \<and> w_tasks w' = [] \<and> n \<le> 3"
proof -
  from demo_finished obtain n w' where w: "(run_step demo_lib ^^ n) (after (demo_stop demo_store)) w'" "w_tasks w' = []" by blast
  have "length (w_tasks (after (demo_stop demo_store))) = 1" using demo_running(1) by auto
  with goroutines_terminate [OF demo_reachable(2) w(1)] w show ?thesis by auto
qed

theorem operations_end_witness:
  "\<exists>n w' p. (run_step demo_lib ^^ n) (after (demo_stop demo_store)) w' \<and> mget (m_operations (w_store w')) ''op'' = Some p \<and>
     isTerminalOperation (op_Status p)"
  using operations_end [OF demo_reachable(2)] demo_finished by blast

theorem finished_is_final_witness:
  "\<exists>m p. isTerminalOperation (op_Status p) \<and> mget (m_operations (reconcileNodeLivenessLocked 0 m)) ''op'' = Some p"
proof -
  from demo_finished obtain n w p where w: "(run_step demo_lib ^^ n) (after (demo_stop demo_store)) w" "w_tasks w = []"
    "mget (m_operations (w_store w)) ''op'' = Some p" by blast
  have r: "reachable demo_lib demo_source w" using reachable_steps [OF run_steps_rtranclp [OF w(1)] demo_reachable(2)] .
  have t: "isTerminalOperation (op_Status p)" using idle_terminal [OF _ w(2,3)] reachable_ok [OF r] by blast
  have "world_step demo_lib w \<lparr>w_store = reconcileNodeLivenessLocked 0 (w_store w), w_tasks = w_tasks w\<rparr>"
    using world_step.other [OF other_call.liveness [of demo_lib "w_store w" 0], of "w_tasks w"] by (cases w) simp
  then have "(world_step demo_lib)\<^sup>*\<^sup>* w \<lparr>w_store = reconcileNodeLivenessLocked 0 (w_store w), w_tasks = w_tasks w\<rparr>" ..
  from finished_is_final [OF r this w(3) t] t show ?thesis by auto
qed

lemma setup_settings: "settings_ok (m\<lparr>m_setupRequired := True, m_bootstrapToken := d, m_bootstrapExpiresAt := t\<rparr>) = settings_ok m"
  by (rule settings_same) simp_all

lemma reachable_settings:
  assumes "reachable L C w"
  shows "settings_ok (w_store w)"
  using assms
proof induction
  case dev_mode
  then show ?case using start_settings_ok by simp
next
  case setup_mode
  then show ?case using start_settings_ok by (auto simp: start_setup_store_def setup_settings)
next
  case (step w w')
  then show ?case using reachable_ok [of L C w] world_step_settings [of L w w'] by simp
qed

lemma unfinished_busy:
  assumes "world_ok w"
  shows "(\<exists>p. mget (m_operations (w_store w)) i = Some p \<and> op_ServerID p = s \<and> \<not> isTerminalOperation (op_Status p)) \<longleftrightarrow>
    (\<exists>r. busy (slots_of w) s = Some (i, r))"
proof (cases w)
  case (fields m ts)
  note ok = world_okE [OF assms [unfolded fields]]
  show ?thesis using ok(5) [of i] by (auto simp: fields busy_iff [OF ok(1)] blocks_server_def)
qed

lemma slots_reached:
  assumes "reachable L C w"
  shows "slot_step\<^sup>*\<^sup>* \<lparr>busy = (\<lambda>_. None), results = (\<lambda>_. None)\<rparr> (slots_of w)"
proof -
  have start: "slots_of \<lparr>w_store = m, w_tasks = []\<rparr> = \<lparr>busy = (\<lambda>_. None), results = (\<lambda>_. None)\<rparr>" if "m_operations m = []" for m
    using that by (simp add: slots_of_def activeExclusiveOperationLocked_def)
  have empty: "m_operations m = []" if "start_store L C e1 e2 en em pw ag = Some m" for e1 e2 en em pw ag m
    using that by (rule start_fields)
  show ?thesis
    using assms
  proof induction
    case dev_mode
    then show ?case using start [OF empty] by simp
  next
    case (setup_mode e1 e2 en bt be ag m)
    then have "m_operations m = []" using empty by (auto simp: start_setup_store_def)
    then show ?case using start by simp
  next
    case (step w w')
    then show ?case
      using slots.simulates [of w L w'] reachable_ok [OF step(1)] rtranclp.rtrancl_into_rtrancl [of slot_step _ "slots_of w" "slots_of w'"] by auto
  qed
qed

text \<open>C3: the ledger refines, step by step, one slot per server. At the start every slot is empty. In
  every reachable world the slot of a server holds the one operation of the server that has not
  finished, and is free when there is none. A step of the program either leaves the slots alone or does
  one thing: it takes the free slot of a server for a new operation, starts the operation of a slot, or
  frees a slot and records the result of its operation. A recorded result never changes.\<close>

theorem world_refines_slots:
  assumes "reachable L C w" "world_step L w w'"
  shows "slot_step\<^sup>*\<^sup>* \<lparr>busy = (\<lambda>_. None), results = (\<lambda>_. None)\<rparr> (slots_of w) \<and>
    (\<forall>s i. (\<exists>p. mget (m_operations (w_store w)) i = Some p \<and> op_ServerID p = s \<and> \<not> isTerminalOperation (op_Status p)) \<longleftrightarrow>
      (\<exists>r. busy (slots_of w) s = Some (i, r))) \<and>
    (slots_of w' = slots_of w \<or> slot_step (slots_of w) (slots_of w')) \<and>
    (\<forall>i status. results (slots_of w) i = Some status \<longrightarrow> results (slots_of w') i = Some status)"
proof -
  have ok: "world_ok w" using reachable_ok [OF assms(1)] by simp
  have "slots_of w' = slots_of w \<or> slot_step (slots_of w) (slots_of w')" using slots.simulates [OF ok assms(2)] .
  moreover have "results (slots_of w') i = Some status" if "results (slots_of w) i = Some status" for i status
    using calculation results_step [OF slots_of_ok [OF ok] _ that] that by auto
  ultimately show ?thesis using slots_reached [OF assms(1)] unfinished_busy [OF ok] by blast
qed

theorem world_refines_slots_witness:
  "slot_step (slots_of demo_world) (slots_of (after (demo_stop demo_store)))"
proof -
  from demo_operation obtain p where p: "mget (m_operations (w_store (after (demo_stop demo_store)))) ''op'' = Some p"
    "\<not> isTerminalOperation (op_Status p)" "op_ServerID p = demo_server" by blast
  have "m_operations demo_store = []" using demo_started [unfolded demo_start_def] by (rule start_fields)
  then have "busy (slots_of demo_world) demo_server = None"
    by (simp add: slots_of_def demo_world_def activeExclusiveOperationLocked_def)
  moreover have "busy (slots_of (after (demo_stop demo_store))) demo_server \<noteq> None"
    using p unfinished_busy [of "after (demo_stop demo_store)" "''op''" demo_server] reachable_ok [OF demo_reachable(2)] by auto
  ultimately have "slots_of (after (demo_stop demo_store)) \<noteq> slots_of demo_world" by auto
  then show ?thesis using world_refines_slots [OF demo_reachable(1) demo_step(1)] by blast
qed

section \<open>Servers, nodes and allocations\<close>

text \<open>C5: the network settings in every reachable world. Allocations have endpoints of their own (node,
  address, port and protocol), are listed exactly once by the server they belong to and lie on its
  node; every server has exactly one primary allocation, and shows its address.\<close>

theorem allocations_consistent:
  assumes "reachable L C w"
  shows "allocations_ok (w_store w)"
  using reachable_ok [OF assms] by blast

theorem allocations_consistent_witness: "allocations_ok demo_store"
  using allocations_consistent [OF demo_reachable(1)] by (simp add: demo_world_def)

lemma nextAllocationPort_none:
  "nextAllocationPortLocked n ip proto port m = None \<Longrightarrow> port \<le> q \<Longrightarrow> q \<le> 65535 \<Longrightarrow> allocation_taken n ip proto q m"
proof (induction n ip proto port m rule: nextAllocationPortLocked.induct)
  case (1 n ip proto port m)
  from 1(2) have t: "\<not> port > 65535 \<Longrightarrow> allocation_taken n ip proto port m \<and> nextAllocationPortLocked n ip proto (port + 1) m = None"
    by (subst (asm) nextAllocationPortLocked.simps) (auto split: if_splits)
  show ?case
  proof (cases "q = port")
    case False
    with 1(1) 1(3,4) t show ?thesis by simp
  qed (use t 1(4) in simp)
qed

text \<open>a new server gets the lowest free port. The search returns a port exactly when it is free, in
  range, and every lower port from the first one on is taken; it fails only when all are taken.\<close>

theorem lowest_free_port:
  "nextAllocationPortLocked n ip proto first m = Some p \<longleftrightarrow>
     first \<le> p \<and> p \<le> 65535 \<and> \<not> allocation_taken n ip proto p m \<and> (\<forall>q. first \<le> q \<and> q < p \<longrightarrow> allocation_taken n ip proto q m)"
proof
  assume "nextAllocationPortLocked n ip proto first m = Some p"
  from nextAllocationPort_free [OF this] show
    "first \<le> p \<and> p \<le> 65535 \<and> \<not> allocation_taken n ip proto p m \<and> (\<forall>q. first \<le> q \<and> q < p \<longrightarrow> allocation_taken n ip proto q m)" by blast
next
  assume p: "first \<le> p \<and> p \<le> 65535 \<and> \<not> allocation_taken n ip proto p m \<and> (\<forall>q. first \<le> q \<and> q < p \<longrightarrow> allocation_taken n ip proto q m)"
  then obtain r where r: "nextAllocationPortLocked n ip proto first m = Some r" using nextAllocationPort_none by fastforce
  from nextAllocationPort_free [OF r] p have "\<not> r < p" "\<not> p < r" by auto
  then show "nextAllocationPortLocked n ip proto first m = Some p" using r by simp
qed

lemma demo_ports:
  "allocation_taken ''11111111-1111-4111-8111-111111111111'' ''10.0.10.21'' ''tcp'' q demo_store = (q = 25565)"
proof -
  from demo_started obtain now where f: "m_allocations demo_store = foldl (\<lambda>as a. mput (al_ID a) a as) [] (seededAllocations now)"
    unfolding demo_start_def by (rule start_fields)
  show ?thesis by (auto simp: allocation_taken_def f seededAllocations_def mput_def)
qed

theorem lowest_free_port_witness:
  "nextAllocationPortLocked ''11111111-1111-4111-8111-111111111111'' ''10.0.10.21'' ''tcp'' 25565 demo_store = Some 25566"
  unfolding lowest_free_port demo_ports by auto

text \<open>C9: the capacity of the nodes. In every reachable world the memory and the disk promised to the
  servers of a node lie between zero and what the node has, as \<^verbatim>\<open>int64\<close> values.\<close>

theorem capacity_never_exceeded:
  assumes "reachable L C w" "mget (m_nodes (w_store w)) i = Some n"
  shows "0 \<le> n_AllocatedMemoryBytes n \<and> n_AllocatedMemoryBytes n \<le> n_MemoryBytes n \<and> n_MemoryBytes n \<le> max_int64 \<and>
    0 \<le> n_AllocatedDiskBytes n \<and> n_AllocatedDiskBytes n \<le> n_DiskBytes n \<and> n_DiskBytes n \<le> max_int64"
  using reachable_ok [OF assms(1)] assms(2) by (simp add: capacity_ok_def node_fits_def)

lemma demo_node: "\<exists>n. mget (m_nodes demo_store) ''11111111-1111-4111-8111-111111111111'' = Some n \<and> n_AllocatedMemoryBytes n = 38654705664"
proof -
  from demo_started obtain now where f:
    "m_nodes demo_store = mput (n_ID (seed_node3 now)) (seed_node3 now) (mput (n_ID (seed_node2 now)) (seed_node2 now)
       (mput (n_ID (seed_node1 now)) (seed_node1 now) []))" unfolding demo_start_def by (rule start_fields)
  show ?thesis by (simp add: f seed_node1_def seed_node2_def seed_node3_def)
qed

theorem capacity_never_exceeded_witness:
  "\<exists>n. mget (m_nodes demo_store) ''11111111-1111-4111-8111-111111111111'' = Some n \<and> 38654705664 \<le> n_MemoryBytes n"
proof -
  obtain n where "mget (m_nodes demo_store) ''11111111-1111-4111-8111-111111111111'' = Some n" "n_AllocatedMemoryBytes n = 38654705664"
    using demo_node by blast
  with capacity_never_exceeded [OF demo_reachable(1), of "''11111111-1111-4111-8111-111111111111''" n]
  show ?thesis by (auto simp: demo_world_def)
qed

section \<open>Backups\<close>

text \<open>the life of a backup. In every step from a reachable world no backup disappears, its status
  follows the transition table of the domain, and a backup that was not there before is being
  created.\<close>

theorem backups_follow_the_table:
  assumes "reachable L C w" "digests_ok L" "world_step L w w'"
  shows "backups_evolve (w_store w) (w_store w')"
  using world_step_backups [OF assms(3) _ assms(2) reachable_backups [OF assms(1,2)]] reachable_ok [OF assms(1)] by blast

theorem backups_follow_the_table_witness: "backups_evolve demo_store (w_store (after (demo_backup demo_store)))"
  using backups_follow_the_table [OF demo_reachable(1) demo_digests demo_step(2)] by (simp add: demo_world_def)

text \<open>C4: a ready backup can be restored. In every reachable world a backup whose status is ready has a
  checksum that passes the test a restoration makes; a backup that is being created, restored or
  deleted has a goroutine doing just that.\<close>

theorem ready_backups_are_valid:
  assumes "reachable L C w" "digests_ok L" "b \<in> set (backups_of (w_store w) s)"
  shows "(b_Status b = ''ready'' \<longrightarrow> backupChecksumValidLocked (w_store w) b) \<and>
    (b_Status b \<in> {''creating'', ''restoring'', ''deleting''} \<longrightarrow>
       (\<exists>tk \<in> set (w_tasks w). is_backup_job (tk_job tk) \<and> works_on (w_store w) (work_of tk) s b))"
proof -
  have "backup_ok (w_store w) (backup_work (w_tasks w)) s b"
    using reachable_backups [OF assms(1,2)] assms(3) by (simp add: backups_ok_def)
  moreover have "\<not> works_on (w_store w) x s b" if "b_Status b = ''ready''" for x
    using that by (auto simp: works_on_def split: prod.splits job.splits)
  ultimately show ?thesis by (auto simp: backup_ok_def backup_work_def)
qed

lemma demo_ready: "\<exists>b \<in> set (backups_of demo_store demo_server). b_Status b = ''ready''"
proof -
  from demo_started obtain now where f: "m_backups demo_store = foldl (\<lambda>backups (serverID, list). mput serverID list backups) [] (seed_backups now)"
    unfolding demo_start_def by (rule start_fields)
  obtain b1 b2 b3 where b: "seed_backups now = [(''aaaaaaaa-aaaa-4aaa-8aaa-aaaaaaaaaaaa'', [b1, b2]), (''bbbbbbbb-bbbb-4bbb-8bbb-bbbbbbbbbbbb'', [b3]),
       (''cccccccc-cccc-4ccc-8ccc-cccccccccccc'', [])]" "sealed b1" by (rule seed_backups_cases)
  show ?thesis by (simp add: backups_of_def f b(1) demo_server_def mget_zero_def) (use b(2) in \<open>simp add: sealed_def\<close>)
qed

theorem ready_backups_are_valid_witness:
  "\<exists>b \<in> set (backups_of demo_store demo_server). b_Status b = ''ready'' \<and> backupChecksumValidLocked demo_store b"
proof -
  from demo_ready obtain b where "b \<in> set (backups_of demo_store demo_server)" "b_Status b = ''ready''" by blast
  with ready_backups_are_valid [OF demo_reachable(1) demo_digests, of b demo_server] show ?thesis by (auto simp: demo_world_def)
qed

text \<open>accepted work on backups succeeds. When the goroutine of a backup, a restoration or a deletion
  ends, its operation has succeeded: the backup is still there, its checksum is valid, and the server
  has not moved on, whatever else ran in between.\<close>

theorem backup_operations_succeed:
  assumes "reachable L C \<lparr>w_store = m, w_tasks = ts1 @ tk # ts2\<rparr>" "digests_ok L" "is_backup_job (tk_job tk)"
    and "run_section L e d tk m = (None, m')"
  shows "\<exists>q. mget (m_operations m') (tk_operationID tk) = Some q \<and> op_Status q = ''succeeded''"
proof -
  have "world_ok \<lparr>w_store = m, w_tasks = ts1 @ tk # ts2\<rparr>" "backups_ok m (backup_work (ts1 @ tk # ts2))"
    using reachable_ok [OF assms(1)] reachable_backups [OF assms(1,2)] by simp_all
  from run_backups [OF assms(4) this(1) assms(2) this(2)] assms(3) show ?thesis by simp
qed

text \<open>The demo backup: its goroutine begins its operation and ends it.\<close>

lemma demo_backup_began:
  "\<exists>tk m. reachable demo_lib demo_source \<lparr>w_store = m, w_tasks = [tk]\<rparr> \<and> is_backup_job (tk_job tk) \<and> tk_phase tk = Began \<and>
     tk_operationID tk = ''op''"
proof -
  from demo_accepted(2) obtain p tk m where h: "demo_backup demo_store = (Inr p, Some tk, m)" "tk_operationID tk = ''op''"
    "tk_phase tk = Spawned" by (rule starts_opE)
  from CreateBackup_shape [of demo_lib demo_ids demo_server demo_store "''key-0001-key-0001''" sample_admin] h(1)
  obtain a where job: "tk_job tk = JobBackup a" by (auto simp: demo_backup_def backed_up_def)
  have r: "reachable demo_lib demo_source \<lparr>w_store = m, w_tasks = [tk]\<rparr>" using demo_reachable(3) h(1) by simp
  with reachable_ok have w: "world_ok \<lparr>w_store = m, w_tasks = [tk]\<rparr>" by blast
  have "task_ok m tk" using world_okE(4) [OF w] by simp
  from task_ok_unfinished [OF this] obtain q where q: "mget (m_operations m) (tk_operationID tk) = Some q" "\<not> isTerminalOperation (op_Status q)" by blast
  from beginOperation_advances [OF world_okE(1) [OF w] q, of "clk demo_ids 0"] obtain m1 where b:
    "beginOperation (clk demo_ids 0) (tk_operationID tk) m = (True, m1)" by metis
  then have "run_section demo_lib demo_ids undefined tk m = (Some (tk\<lparr>tk_phase := Began\<rparr>), m1)"
    using h(3) job by (simp add: run_section_def uses_runtime_def)
  from reachable.step [OF r world_step.run [where ?ts1.0 = "[]" and ?ts2.0 = "[]" and L = demo_lib, simplified, OF this, simplified]]
  have "reachable demo_lib demo_source \<lparr>w_store = m1, w_tasks = [tk\<lparr>tk_phase := Began\<rparr>]\<rparr>" by simp
  with job h(2) show ?thesis by (intro exI [of _ "tk\<lparr>tk_phase := Began\<rparr>"] exI [of _ m1]) (simp add: is_backup_job_def)
qed

theorem backup_operations_succeed_witness:
  "\<exists>tk m q. is_backup_job (tk_job tk) \<and> mget (m_operations (end_section demo_lib demo_env tk m)) ''op'' = Some q \<and> op_Status q = ''succeeded''"
proof -
  from demo_backup_began obtain tk m where t: "reachable demo_lib demo_source \<lparr>w_store = m, w_tasks = [] @ tk # []\<rparr>" "is_backup_job (tk_job tk)"
    "tk_phase tk = Began" "tk_operationID tk = ''op''" by auto
  then have "run_section demo_lib demo_env undefined tk m = (None, end_section demo_lib demo_env tk m)"
    by (auto simp: run_section_def is_power_def is_backup_job_def split: job.splits)
  from backup_operations_succeed [OF t(1) demo_digests t(2) this] t(2,4) show ?thesis by auto
qed

lemma demo_again:
  "case demo_start of None \<Rightarrow> False
   | Some m \<Rightarrow> (case demo_stop m of (r, t, m') \<Rightarrow> power_admitted demo_server PowerStop ''key-0001-key-0001'' sample_admin m' \<and>
       power_admitted demo_server PowerStart ''key-0001-key-0001'' sample_admin m')"
  by code_simp

section \<open>Restoring and editing files\<close>

text \<open>nobody edits files under a restoration. In every reachable world in which a backup of a
  server is being restored, a file mutation of that server is refused, whoever asks for it.\<close>

theorem no_file_mutation_during_restore:
  assumes "reachable L C w" "digests_ok L" "b \<in> set (backups_of (w_store w) s)" "b_Status b = ''restoring''"
  shows "isl (fst (beginFileMutation now s actor (w_store w)))"
proof -
  obtain m ts where w: "w = \<lparr>w_store = m, w_tasks = ts\<rparr>" by (cases w)
  from ready_backups_are_valid [OF assms(1-3)] assms(4) w obtain tk where tk: "tk \<in> set ts" "works_on m (work_of tk) s b" by auto
  then have job: "tk_serverID tk = s" "job_type (tk_job tk) = ''restore''"
    using assms(4) by (auto simp: works_on_def work_of_def split: job.splits)
  have "task_ok m tk" using world_okE(4) [of m ts] reachable_ok [OF assms(1)] w tk(1) by (auto simp: list_all_iff)
  from task_ok_unfinished [OF this] this job obtain p where
    p: "mget (m_operations m) (tk_operationID tk) = Some p" "\<not> isTerminalOperation (op_Status p)" "op_ServerID p = s" "op_Type p = ''restore''"
    by (auto simp: task_ok_def)
  then have "activeRestoreOperationLocked s m \<noteq> None"
    using mget_in_set [OF p(1)] p(2-4) unfolding activeRestoreOperationLocked_def find_None_iff by force
  then have "activeRestoreOperationLocked s (reconcileNodeLivenessLocked now m) \<noteq> None"
    by (simp add: activeRestoreOperationLocked_def)
  then show ?thesis by (auto simp: beginFileMutation_def w Let_def split: sum.split option.split)
qed

theorem no_file_mutation_during_restore_witness:
  "isl (fst (beginFileMutation 0 ''bbbbbbbb-bbbb-4bbb-8bbb-bbbbbbbbbbbb'' (u_ID sample_admin) (w_store (after (demo_restore demo_store)))))"
proof -
  have r: "reachable demo_lib demo_source (after (demo_restore demo_store))"
    by (rule reachable.step [OF demo_reachable(1) demo_step_restore])
  obtain x t m where h: "demo_restore demo_store = (x, t, m)" by (rule prod_cases3)
  from demo_accepted_more(1) h obtain b where b: "b \<in> set (backups_of m ''bbbbbbbb-bbbb-4bbb-8bbb-bbbbbbbbbbbb'')" "b_Status b = ''restoring''"
    by (cases "(x, t, m)" rule: restores_op.cases) (auto simp: list_ex_iff backups_of_def)
  from no_file_mutation_during_restore [OF r demo_digests, of b] b h show ?thesis by simp
qed

section \<open>Idempotency keys and expected generations\<close>

definition queued_world :: "task list \<Rightarrow> task option \<Rightarrow> Memory \<Rightarrow> world" where
  "queued_world ts t m = \<lparr>w_store = m, w_tasks = ts @ (case t of None \<Rightarrow> [] | Some tk \<Rightarrow> [tk])\<rparr>"

lemma reachable_ledger: "reachable L C w \<Longrightarrow> ledger_ok (w_store w)"
  using reachable_ok [of L C w] world_okE(1) [of "w_store w" "w_tasks w"] by (cases w) simp

lemma request_recorded:
  assumes "reachable L C w" "fresh_ids e (w_store w)" "RequestPower L e s a key actor (w_store w) = (Inr p, t, m')"
    "(world_step L)\<^sup>*\<^sup>* (queued_world (w_tasks w) t m') w2"
  shows "reachable L C w2" "ledger_le m' (w_store w2)"
    "mget (m_idempotency (w_store w2)) (idempotencyScope ''server:power'' (u_ID actor) s key) =
       mget (m_idempotency m') (idempotencyScope ''server:power'' (u_ID actor) s key)"
    "mget (m_idempotency m') (idempotencyScope ''server:power'' (u_ID actor) s key) =
       Some \<lparr>ir_OperationID = op_ID p, ir_RequestDigest = requestDigest L (ReqPower a)\<rparr>"
proof -
  have l: "ledger_ok (w_store w)" using reachable_ledger [OF assms(1)] .
  have "store_call L (w_store w) t m'" by (rule store_call.power [OF assms(3,2)])
  moreover have "\<lparr>w_store = w_store w, w_tasks = w_tasks w\<rparr> = w" by (cases w) simp
  ultimately have s: "world_step L w (queued_world (w_tasks w) t m')"
    using world_step.call [of L "w_store w" t m' "w_tasks w"] unfolding queued_world_def by metis
  from reachable.step [OF assms(1) this] have r: "reachable L C (queued_world (w_tasks w) t m')" .
  show "reachable L C w2" by (rule reachable_steps [OF assms(4) r])
  have ok: "world_ok (queued_world (w_tasks w) t m')" using reachable_ok [OF r] by blast
  show "ledger_le m' (w_store w2)" using world_steps_ok [OF assms(4) ok] by (simp add: queued_world_def)
  show rec: "mget (m_idempotency m') (idempotencyScope ''server:power'' (u_ID actor) s key) =
       Some \<lparr>ir_OperationID = op_ID p, ir_RequestDigest = requestDigest L (ReqPower a)\<rparr>"
    using power.recorded [OF l TrueI assms(3)] by blast
  from key_persists [OF assms(4) ok] rec
  show "mget (m_idempotency (w_store w2)) (idempotencyScope ''server:power'' (u_ID actor) s key) =
       mget (m_idempotency m') (idempotencyScope ''server:power'' (u_ID actor) s key)" by (simp add: queued_world_def)
qed

text \<open>C8: a repeated power request is answered, not carried out again. Once a request was accepted,
  sending it again with the same key - at any later time, after any other steps - returns the same
  operation in its current state, starts no goroutine and changes no operation.\<close>

theorem power_request_replayed:
  assumes "reachable L C w" "fresh_ids e (w_store w)" "RequestPower L e s a key actor (w_store w) = (Inr p, t, m')"
    "(world_step L)\<^sup>*\<^sup>* (queued_world (w_tasks w) t m') w2" "power_admitted s a key actor (w_store w2)"
  shows "\<exists>q m3. RequestPower L e2 s a key actor (w_store w2) = (Inr q, None, m3) \<and> op_ID q = op_ID p \<and>
    mget (m_operations (w_store w2)) (op_ID p) = Some q \<and> m_operations m3 = m_operations (w_store w2)"
proof -
  note r = request_recorded [OF assms(1-4)]
  have l: "ledger_ok (w_store w)" "ledger_ok (w_store w2)"
    using reachable_ledger [OF assms(1)] reachable_ledger [OF r(1)] .
  from power.replayed [OF l(1) TrueI assms(3) r(2,3) refl assms(5) l(2) TrueI] show ?thesis .
qed

lemma demo_again_admitted:
  "power_admitted demo_server PowerStop ''key-0001-key-0001'' sample_admin (w_store (after (demo_stop demo_store)))"
  "power_admitted demo_server PowerStart ''key-0001-key-0001'' sample_admin (w_store (after (demo_stop demo_store)))"
  using demo_again by (cases "demo_stop demo_store"; simp add: demo_started)+

lemma demo_queued:
  assumes "demo_stop demo_store = (r, t, m)"
  shows "queued_world (w_tasks demo_world) t m = after (demo_stop demo_store)"
  unfolding assms by (simp add: queued_world_def demo_world_def)

theorem power_request_replayed_witness:
  "\<exists>q m3. RequestPower demo_lib demo_env demo_server PowerStop ''key-0001-key-0001'' sample_admin (w_store (after (demo_stop demo_store))) =
     (Inr q, None, m3) \<and> op_ID q = ''op''"
proof -
  from demo_accepted(1) obtain p tk m where h: "demo_stop demo_store = (Inr p, Some tk, m)" "op_ID p = ''op''" by (rule starts_opE)
  have f: "fresh_ids demo_ids (w_store demo_world)" using demo_fresh by (simp add: demo_world_def)
  have c: "RequestPower demo_lib demo_ids demo_server PowerStop ''key-0001-key-0001'' sample_admin (w_store demo_world) = (Inr p, Some tk, m)"
    using h(1) by (simp add: demo_stop_def demo_world_def)
  have s: "(world_step demo_lib)\<^sup>*\<^sup>* (queued_world (w_tasks demo_world) (Some tk) m) (after (demo_stop demo_store))"
    unfolding demo_queued [OF h(1)] ..
  from power_request_replayed [OF demo_reachable(1) f c s demo_again_admitted(1), of demo_env] h(2) show ?thesis by auto
qed

text \<open>a key answers for one request only. Once a request was accepted, another action under the same
  key is refused with \<^verbatim>\<open>IDEMPOTENCY_KEY_REUSED\<close> for ever, when the two digests differ.\<close>

theorem power_key_reused:
  assumes "reachable L C w" "fresh_ids e (w_store w)" "RequestPower L e s a key actor (w_store w) = (Inr p, t, m')"
    "(world_step L)\<^sup>*\<^sup>* (queued_world (w_tasks w) t m') w2" "power_admitted s b key actor (w_store w2)"
    "requestDigest L (ReqPower b) \<noteq> requestDigest L (ReqPower a)"
  shows "fst (RequestPower L e2 s b key actor (w_store w2)) = Inl (NewProblem ''IDEMPOTENCY_KEY_REUSED'' False)"
proof -
  note r = request_recorded [OF assms(1-4)]
  from r(3,4) have "mget (m_idempotency (w_store w2)) (idempotencyScope ''server:power'' (u_ID actor) s key) =
       Some \<lparr>ir_OperationID = op_ID p, ir_RequestDigest = requestDigest L (ReqPower a)\<rparr>" by simp
  from power.reused [OF this assms(6) [symmetric] assms(5)] show ?thesis .
qed

theorem power_key_reused_witness:
  "fst (RequestPower demo_lib demo_env demo_server PowerStart ''key-0001-key-0001'' sample_admin (w_store (after (demo_stop demo_store)))) =
     Inl (NewProblem ''IDEMPOTENCY_KEY_REUSED'' False)"
proof -
  from demo_accepted(1) obtain p tk m where h: "demo_stop demo_store = (Inr p, Some tk, m)" by (rule starts_opE)
  have f: "fresh_ids demo_ids (w_store demo_world)" using demo_fresh by (simp add: demo_world_def)
  have c: "RequestPower demo_lib demo_ids demo_server PowerStop ''key-0001-key-0001'' sample_admin (w_store demo_world) = (Inr p, Some tk, m)"
    using h(1) by (simp add: demo_stop_def demo_world_def)
  have s: "(world_step demo_lib)\<^sup>*\<^sup>* (queued_world (w_tasks demo_world) (Some tk) m) (after (demo_stop demo_store))"
    unfolding demo_queued [OF h(1)] ..
  have d: "requestDigest demo_lib (ReqPower PowerStart) \<noteq> requestDigest demo_lib (ReqPower PowerStop)"
    by (simp add: requestDigest_def demo_lib_def)
  from power_key_reused [OF demo_reachable(1) f c s demo_again_admitted(2) d] show ?thesis .
qed

text \<open>C7: optimistic concurrency. Of all network and startup changes of a server that name the same
  expected generation at most one is carried out: after it has been accepted, no later request with
  that generation starts anything, as long as the generation has not reached the end of \<^verbatim>\<open>int64\<close>.\<close>

theorem expected_generation_once:
  assumes "reachable L C \<lparr>w_store = m1, w_tasks = ts\<rparr>" "change_call L s g m (r, Some tk, m1)" "0 \<le> g"
    "(world_step L ^^ k) \<lparr>w_store = m1, w_tasks = ts\<rparr> w2" "g + 1 + int k \<le> max_int64"
    "change_call L s g (w_store w2) (r2, t2, m3)"
  shows "t2 = None"
proof (rule ccontr)
  assume "t2 \<noteq> None"
  then obtain tk2 where t2: "t2 = Some tk2" by blast
  from change_call_advances [OF assms(2)] obtain n where n: "sviews (m_servers m1) s = Some (wrap64 (g + 1), n)" by auto
  have "wrap64 (g + 1) = g + 1" using assms(3,5) by (intro wrap64_id) auto
  with n have n': "sviews (m_servers (w_store \<lparr>w_store = m1, w_tasks = ts\<rparr>)) s = Some (g + 1, n)" by simp
  have "world_ok \<lparr>w_store = m1, w_tasks = ts\<rparr>" using reachable_ok [OF assms(1)] by blast
  from generation_run [OF assms(4) this n'] assms(3,5) obtain g' where "sviews (m_servers (w_store w2)) s = Some (g', n)" "g + 1 \<le> g'" by auto
  moreover from change_call_advances [OF assms(6) [unfolded t2]] obtain n2 where "sviews (m_servers (w_store w2)) s = Some (g, n2)" by auto
  ultimately show False by simp
qed

theorem expected_generation_once_witness:
  "fst (snd (demo_change (w_store (after (demo_change demo_store))))) = None"
proof -
  have change: "change_call demo_lib demo_server 12 m (demo_change m)" for m
    unfolding change_call_def demo_change_def by blast
  from demo_accepted(3) obtain p tk m where h: "demo_change demo_store = (Inr p, Some tk, m)" by (rule starts_opE)
  have r: "reachable demo_lib demo_source \<lparr>w_store = m, w_tasks = [tk]\<rparr>" using demo_reachable(4) h by simp
  obtain r2 t2 m2 where h2: "demo_change m = (r2, t2, m2)" by (rule prod_cases3)
  have c2: "change_call demo_lib demo_server 12 (w_store \<lparr>w_store = m, w_tasks = [tk]\<rparr>) (r2, t2, m2)"
    using change [of m] h2 by simp
  have k: "(world_step demo_lib ^^ 0) \<lparr>w_store = m, w_tasks = [tk]\<rparr> \<lparr>w_store = m, w_tasks = [tk]\<rparr>" by simp
  have "t2 = None"
    by (rule expected_generation_once [OF r change [of demo_store, unfolded h] _ k _ c2]) (simp_all add: max_int64_def)
  with h h2 show ?thesis by simp
qed

section \<open>The catalog and the start-up values\<close>

text \<open>only what the catalog trusts is installed. In every reachable world no game is called signed,
  verified or supported, and a request for a new server that starts a goroutine names PaperMC, whose
  runtime target has the pinned image.\<close>

theorem only_papermc_installed:
  assumes "reachable L C w"
  shows "(\<forall>i g. mget (m_games (w_store w)) i = Some g \<longrightarrow> \<not> g_Signed g \<and> \<not> g_Verified g \<and> \<not> g_Supported g) \<and>
    (\<forall>e disk inp key actor r tk m'. CreateServer L e disk inp key actor (w_store w) = (r, Some tk, m') \<longrightarrow>
       csi_GameDefinitionID inp = paperMCGameID \<and>
       (\<exists>g t. mget (m_games (w_store w)) paperMCGameID = Some g \<and> g_RuntimeTarget g = Some t \<and> grt_Image t = paperMCRuntimeImage))"
proof -
  have trusted: "games_trusted (w_store w)" using reachable_settings [OF assms] by (simp add: settings_ok_def)
  have "csi_GameDefinitionID inp = paperMCGameID \<and>
      (\<exists>g t. mget (m_games (w_store w)) paperMCGameID = Some g \<and> g_RuntimeTarget g = Some t \<and> grt_Image t = paperMCRuntimeImage)"
    if h: "CreateServer L e disk inp key actor (w_store w) = (r, Some tk, m')" for e disk inp key actor r tk m'
  proof -
    from CreateServer_shape [of L e inp key "w_store w" disk actor] h have "created L e inp key (w_store w) tk m'" by simp
    then obtain inp' node game where c: "placement inp' (reconcileNodeLivenessLocked (clk e 0) (w_store w)) = Inr (node, game)"
      "validate_create inp key = Inr inp'" unfolding created_def by blast
    from placement_node(2) [OF c(1)] validate_create_trims [OF c(2)]
    have "mget (m_games (w_store w)) (csi_GameDefinitionID inp) = Some game" by simp
    moreover have "g_Runnable game" using c(1) by (auto simp: placement_def split: option.splits if_splits)
    ultimately show ?thesis using trusted unfolding games_trusted_def by metis
  qed
  with trusted show ?thesis unfolding games_trusted_def by blast
qed

theorem only_papermc_installed_witness:
  "\<exists>g t. mget (m_games demo_store) paperMCGameID = Some g \<and> g_RuntimeTarget g = Some t \<and> grt_Image t = paperMCRuntimeImage \<and>
     \<not> g_Supported g"
proof -
  obtain r t m where h: "demo_create demo_store = (r, t, m)" by (rule prod_cases3)
  with demo_accepted_more(2) obtain tk where "t = Some tk" by (cases "(r, t, m)" rule: creates_op.cases) auto
  with h have "CreateServer demo_lib demo_ids True
     \<lparr>csi_Name = ''new'', csi_GameDefinitionID = paperMCGameID, csi_GameBundleDigest = paperMCGameID,
      csi_NodeID = ''11111111-1111-4111-8111-111111111111'', csi_MemoryMB = 1024, csi_DiskGB = 10\<rparr> ''key-0001-key-0001'' sample_admin
     (w_store demo_world) = (r, Some tk, m)" by (simp add: demo_create_def demo_world_def)
  with only_papermc_installed [OF demo_reachable(1)] show ?thesis by (simp add: demo_world_def) blast
qed

text \<open>C10: stored start-up values fit their declarations. In every reachable world each value of a
  start-up variable belongs to a declared variable of its server, has its type and satisfies its
  bounds, enumeration and constant.\<close>

theorem startup_values_fit:
  assumes "reachable L C w" "mget (m_startups (w_store w)) s = Some startup"
    "mget (mget_zero [] (m_startupValues (w_store w)) s) key = Some v"
  shows "\<exists>d. mget (definitions_of (st_Variables startup)) key = Some d \<and> value_ok d v"
  using reachable_settings [OF assms(1)] assms(2,3) by (auto simp: settings_ok_def startups_ok_def values_ok_def)


theorem startup_values_fit_witness: "\<exists>d. value_ok d (AnyString ''paper-rcon-seeded'') \<and> var_Type d = ''string''"
proof -
  from demo_values [unfolded demo_started option.case] obtain startup where s: "mget (m_startups demo_store) demo_server = Some startup"
    "mget (mget_zero [] (m_startupValues demo_store) demo_server) ''rcon_password'' = Some (AnyString ''paper-rcon-seeded'')"
    by (auto simp: mhas_def)
  from startup_values_fit [OF demo_reachable(1), of demo_server startup "''rcon_password''"] s
  obtain d where "value_ok d (AnyString ''paper-rcon-seeded'')" by (auto simp: demo_world_def)
  then show ?thesis by (intro exI [of _ d]) (simp add: value_ok_def)
qed

section \<open>Users and their credentials\<close>

text \<open>C37: in every reachable world the e-mail index and the users agree in both directions, every
  session, API token, console token and reset token belongs to an active user, every digest of an API
  token leads to a token, and setup is open only while there is no user: whatever handlers, goroutines,
  logins, recoveries, updates, resets and token calls have run, in whatever order, since the program
  started with the seeded store or in setup mode.\<close>

theorem identity_reachable_ok:
  assumes "reachable L C w"
  shows "users_ok (w_store w) \<and> credentials_ok (w_store w) \<and> setup_ok (w_store w)"
proof -
  have "identity_ok (w_store w)" using assms
  proof induction
    case dev_mode
    then show ?case using start_identity_ok by simp
  next
    case setup_mode
    then show ?case using start_setup_identity by (auto simp: start_setup_store_def)
  next
    case step
    then show ?case using world_step_identity by blast
  qed
  then show ?thesis by (simp add: identity_ok_def)
qed

text \<open>The administrator opens a console connection.\<close>

definition demo_console :: "Memory \<Rightarrow> ConsoleConnectionCredential result \<times> Memory" where
  "demo_console = IssueConsoleConnectionToken demo_lib demo_ids demo_server (u_ID sample_admin)"

fun opens_console :: "Memory option \<Rightarrow> bool" where
  "opens_console None = False"
| "opens_console (Some m) = (map (ccp_UserID \<circ> snd) (m_consoleTokens (snd (demo_console m))) = [u_ID sample_admin])"

lemma demo_opens: "opens_console demo_start"
  by code_simp

theorem identity_reachable_ok_witness:
  "\<exists>w d c. reachable demo_lib demo_source w \<and> mget (m_consoleTokens (w_store w)) d = Some c \<and>
     ccp_UserID c = u_ID sample_admin \<and> active_user (w_store w) (ccp_UserID c)"
proof -
  let ?m = "snd (demo_console demo_store)" and ?w = "\<lparr>w_store = snd (demo_console demo_store), w_tasks = []\<rparr>"
  have "identity_step demo_lib demo_store ?m"
    unfolding demo_console_def by (rule identity_step.issue_console [OF prod.collapse [symmetric]])
  then have "world_step demo_lib demo_world ?w" unfolding demo_world_def by (intro world_step.other other_call.identity)
  with demo_reachable(1) have r: "reachable demo_lib demo_source ?w" by (rule reachable.step)
  obtain d c where dc: "m_consoleTokens ?m = [(d, c)]" "ccp_UserID c = u_ID sample_admin"
    using demo_opens by (auto simp: demo_started Cons_eq_map_conv map_eq_Cons_conv)
  then have "mget (m_consoleTokens ?m) d = Some c" by simp
  with identity_reachable_ok [OF r] have "active_user ?m (ccp_UserID c)" by (simp add: credentials_ok_def)
  with r dc(2) \<open>mget _ d = Some c\<close> show ?thesis by (intro exI [of _ ?w] exI [of _ d] exI [of _ c]) simp
qed

end
