(* ===== verification/Agent_Journal.thy ===== *)
theory Agent_Journal
  imports Attempt_Limiter "HOL-Library.Word"
begin

text \<open>
  The operation journal of the agent (\<^verbatim>\<open>internal/agent/journal.go\<close>): what it remembers of every
  operation across restarts. A bucket of \<^verbatim>\<open>bbolt\<close> is a map from keys to bytes; bytes that do not
  decode as an entry are \<^verbatim>\<open>None\<close>. Every method is one transaction; the record \<open>disk\<close> says
  which transactions fail to start or to commit, what the clock shows and in which order the unstable \<^verbatim>\<open>sort.Slice\<close> leaves
  the entries of equal age.
\<close>

record journalEntry =
  je_Digest :: string
  je_Status :: string
  je_Attempt :: "32 word"
  je_Checkpoint :: string
  je_ErrorCode :: string
  je_Retryable :: bool
  je_ResultJSON :: string
  je_Observed :: string
  je_UpdatedAt :: int

type_synonym bucket = "(string, journalEntry option) gomap"

text \<open>\<^verbatim>\<open>None\<close> is a database without the bucket.\<close>

type_synonym journal_db = "bucket option"

datatype journal_error = TransactionFailed | BucketMissing | EntryUndecodable | ErrJournalDigestMismatch | NoRunningRecord

record disk =
  dk_view_fails :: bool
  dk_begin_fails :: bool
  dk_commit_fails :: bool
  dk_now :: int
  dk_order :: "(string \<times> int) list \<Rightarrow> (string \<times> int) list"

text \<open>The contract of \<^verbatim>\<open>sort.Slice\<close> by \<^verbatim>\<open>UpdatedAt\<close>.\<close>

definition sorts_by_age :: "((string \<times> int) list \<Rightarrow> (string \<times> int) list) \<Rightarrow> bool" where
  "sorts_by_age f \<longleftrightarrow> (\<forall>xs. mset (f xs) = mset xs \<and> sorted (map snd (f xs)))"

definition journalMaxEntries :: nat where
  "journalMaxEntries = 512"

definition OpenOperationJournal :: "journal_db \<Rightarrow> journal_db" where
  "OpenOperationJournal db = (case db of None \<Rightarrow> Some [] | Some bucket \<Rightarrow> Some bucket)"

definition journal_lookup :: "disk \<Rightarrow> string \<Rightarrow> journal_db \<Rightarrow> journal_error + journalEntry option" where
  "journal_lookup k operationID db =
     (if dk_view_fails k then Inl TransactionFailed
      else
        (case db of
           None \<Rightarrow> Inl BucketMissing
         | Some bucket \<Rightarrow>
             (case mget bucket operationID of
                None \<Rightarrow> Inr None
              | Some None \<Rightarrow> Inl EntryUndecodable
              | Some (Some entry) \<Rightarrow> Inr (Some entry))))"

definition dated :: "bucket \<Rightarrow> (string \<times> int) list" where
  "dated bucket = map (\<lambda>(key, entry). (key, case entry of None \<Rightarrow> 0 | Some e \<Rightarrow> je_UpdatedAt e)) bucket"

definition evictLocked :: "disk \<Rightarrow> bucket \<Rightarrow> bucket" where
  "evictLocked k bucket =
     (let entries = dated bucket in
      if length entries \<le> journalMaxEntries then bucket
      else foldl (\<lambda>b key. mdel key b) bucket
             (map fst (take (length entries - journalMaxEntries) (dk_order k entries))))"

text \<open>An error leaves the database as it was. The identifiers of operations are UUIDs: the refusal of
  an empty key by \<^verbatim>\<open>bbolt\<close> is not modelled.\<close>

definition running_entry :: "disk \<Rightarrow> string \<Rightarrow> 32 word \<Rightarrow> journalEntry" where
  "running_entry k digest attempt =
     \<lparr>je_Digest = digest, je_Status = ''running'', je_Attempt = attempt, je_Checkpoint = [], je_ErrorCode = [],
      je_Retryable = False, je_ResultJSON = [], je_Observed = [], je_UpdatedAt = dk_now k\<rparr>"

definition RecordRunning :: "disk \<Rightarrow> string \<Rightarrow> string \<Rightarrow> 32 word \<Rightarrow> journal_db \<Rightarrow> journal_error option \<times> journal_db" where
  "RecordRunning k operationID digest attempt db =
     (if dk_begin_fails k then (Some TransactionFailed, db)
      else
        (case db of
           None \<Rightarrow> (Some BucketMissing, db)
         | Some bucket \<Rightarrow>
             if (case mget bucket operationID of
                   Some (Some existing) \<Rightarrow> je_Digest existing \<noteq> [] \<and> je_Digest existing \<noteq> digest
                 | _ \<Rightarrow> False)
             then (Some ErrJournalDigestMismatch, db)
             else if dk_commit_fails k then (Some TransactionFailed, db)
             else (None, Some (evictLocked k (mput operationID (Some (running_entry k digest attempt)) bucket)))))"

record inflightResult =
  ir_succeeded :: bool
  ir_errorCode :: string
  ir_retryable :: bool
  ir_resultJSON :: string
  ir_observed :: string

definition terminal_entry :: "disk \<Rightarrow> string \<Rightarrow> 32 word \<Rightarrow> string \<Rightarrow> inflightResult \<Rightarrow> journalEntry" where
  "terminal_entry k digest attempt checkpoint r =
     \<lparr>je_Digest = digest, je_Status = (if ir_succeeded r then ''succeeded'' else ''failed''), je_Attempt = attempt,
      je_Checkpoint = checkpoint, je_ErrorCode = ir_errorCode r, je_Retryable = ir_retryable r,
      je_ResultJSON = ir_resultJSON r, je_Observed = ir_observed r, je_UpdatedAt = dk_now k\<rparr>"

definition journal_complete ::
  "disk \<Rightarrow> string \<Rightarrow> string \<Rightarrow> 32 word \<Rightarrow> string \<Rightarrow> inflightResult \<Rightarrow> journal_db \<Rightarrow> journal_error option \<times> journal_db" where
  "journal_complete k operationID digest attempt checkpoint r db =
     (if dk_begin_fails k then (Some TransactionFailed, db) else
      case db of
        None \<Rightarrow> (Some BucketMissing, db)
      | Some bucket \<Rightarrow>
          (case mget bucket operationID of
             None \<Rightarrow> (Some NoRunningRecord, db)
           | Some None \<Rightarrow> (Some EntryUndecodable, db)
           | Some (Some existing) \<Rightarrow>
               if je_Digest existing \<noteq> digest then (Some ErrJournalDigestMismatch, db)
               else if dk_commit_fails k then (Some TransactionFailed, db)
               else (None, Some (mput operationID (Some (terminal_entry k digest attempt checkpoint r)) bucket))))"

section \<open>Facts\<close>

definition journal_ok :: "journal_db \<Rightarrow> bool" where
  "journal_ok db \<longleftrightarrow> (\<forall>bucket. db = Some bucket \<longrightarrow> mwf bucket \<and> length bucket \<le> journalMaxEntries)"

lemma dated_keys: "map fst (dated bucket) = map fst bucket" "length (dated bucket) = length bucket"
  by (simp_all add: dated_def comp_def split_beta)

lemma evict_bound:
  assumes "mwf bucket" "sorts_by_age (dk_order k)"
  shows "mwf (evictLocked k bucket) \<and> length (evictLocked k bucket) \<le> journalMaxEntries"
proof (cases "length bucket \<le> journalMaxEntries")
  case True
  then show ?thesis using assms(1) by (simp add: evictLocked_def dated_keys)
next
  case False
  let ?all = "dk_order k (dated bucket)"
  let ?out = "map fst (take (length bucket - journalMaxEntries) ?all)"
  have perm: "mset ?all = mset (dated bucket)" using assms(2) by (simp add: sorts_by_age_def)
  then have "mset (map fst ?all) = mset (map fst bucket)" by (metis dated_keys(1) mset_map)
  then have keys: "distinct (map fst ?all)" "set (map fst ?all) = fst ` set bucket"
    using assms(1) by (metis mset_eq_imp_distinct_iff mwf_def, metis mset_eq_setD list.set_map)
  have len: "length ?all = length bucket" using perm by (metis mset_eq_length dated_keys(2))
  have "distinct ?out" using keys(1) by (simp add: distinct_take flip: take_map)
  moreover have "\<forall>key \<in> set ?out. mhas bucket key"
  proof
    fix key assume "key \<in> set ?out"
    then have "key \<in> fst ` set bucket" using keys(2) by (metis in_set_takeD take_map)
    then show "mhas bucket key" by (auto simp: mhas_def mget_def map_of_eq_None_iff)
  qed
  ultimately have "length (foldl (\<lambda>b key. mdel key b) bucket ?out) + length ?out = length bucket"
    using length_foldl_mdel [OF assms(1)] by blast
  moreover have "length ?out = length bucket - journalMaxEntries" using len by simp
  moreover have "mwf (foldl (\<lambda>b key. mdel key b) b ks)" if "mwf b" for b :: bucket and ks
    using that by (induction ks arbitrary: b) auto
  ultimately show ?thesis using False assms(1) by (simp add: evictLocked_def dated_keys)
qed

lemma evict_keeps: "mget (evictLocked k bucket) i = mget bucket i \<or> mget (evictLocked k bucket) i = None"
  by (simp add: evictLocked_def Let_def foldl_mdel_get)

lemma evict_small: "length bucket \<le> journalMaxEntries \<Longrightarrow> evictLocked k bucket = bucket"
  by (simp add: evictLocked_def dated_keys)

lemma RecordRunning_ok:
  assumes "journal_ok db" "sorts_by_age (dk_order k)"
  shows "journal_ok (snd (RecordRunning k i digest attempt db))"
  using assms evict_bound by (auto simp: RecordRunning_def journal_ok_def split: option.splits)

lemma journal_complete_ok: "journal_ok db \<Longrightarrow> journal_ok (snd (journal_complete k i digest attempt ck r db))"
  by (auto simp: journal_complete_def journal_ok_def length_mput mhas_def split: option.splits)

lemma Open_ok: "journal_ok db \<Longrightarrow> journal_ok (OpenOperationJournal db)"
  by (auto simp: journal_ok_def OpenOperationJournal_def split: option.splits)

end
