(* ===== verification/Task_Tables.thy ===== *)
theory Task_Tables
  imports Backup_Store Path_Safety
begin

text \<open>
  The tables of the persistent store that carry tasks to the nodes, and the statements on them
  (\<^verbatim>\<open>internal/store/postgres_tasks.go\<close>, \<^verbatim>\<open>postgres_outbox.go\<close>, with the constraints of
  \<^verbatim>\<open>migrations/000001_core.up.sql\<close>, \<^verbatim>\<open>000007\<close>, \<^verbatim>\<open>000008\<close> and \<^verbatim>\<open>000009\<close>). A table is a map from the
  primary key to the row, with the columns the tasks use; its order is the order in which a scan
  visits the rows. A transaction is a function from the tables to an error or a result with the new
  tables; an error undoes everything. The record \<open>pg\<close> says which statements fail (a lost
  connection, a timeout, a key that is no UUID), which rows another transaction has locked, and what
  the clocks and the random sources return.
\<close>

section \<open>Rows\<close>

record task_row =
  st_ID :: string
  st_ServerID :: string
  st_NodeID :: string
  st_TaskType :: string
  st_Status :: string
  st_Generation :: int
  st_ActorID :: "string option"
  st_Scope :: string
  st_Key :: string
  st_RequestDigest :: string
  st_Attempt :: int
  st_MaxAttempts :: int
  st_LeaseOwner :: "string option"
  st_LeaseToken :: "string option"
  st_LeaseExpiresAt :: "gotime option"
  st_LeaseRenewedAt :: "gotime option"
  st_ConnectionEpoch :: int
  st_StateVersion :: int
  st_TaskInput :: "string option"
  st_Checkpoint :: "string option"
  st_Progress :: int
  st_ErrorCode :: "string option"
  st_ErrorRetryable :: "bool option"
  st_CreatedAt :: gotime
  st_UpdatedAt :: gotime
  st_CompletedAt :: "gotime option"

record backup_row =
  bu_ServerID :: string
  bu_Status :: string
  bu_ContentDigest :: "string option"
  bu_ManifestDigest :: "string option"
  bu_SizeBytes :: "int option"
  bu_StorageLocation :: "string option"
  bu_CompletedAt :: "gotime option"
  bu_FailureCode :: "string option"
  bu_FailureMessage :: "failure_text option"
  bu_DeletedAt :: "gotime option"
  bu_ObjectManifestID :: "string option"
  bu_RemoteStatus :: string

record server_row =
  sv_LifecycleState :: string
  sv_DesiredPower :: string
  sv_ObservedPower :: string
  sv_HealthCondition :: string
  sv_Generation :: int
  sv_ObservedGeneration :: int
  sv_ObservedAt :: gotime
  sv_GameBundleID :: string
  sv_GameVersion :: string
  sv_DeletedAt :: "gotime option"
  sv_UpdatedAt :: gotime

record history_row =
  hi_OperationID :: string
  hi_FromBundleID :: string
  hi_Status :: string
  hi_CompletedAt :: "gotime option"

record tombstone_row =
  ts_Status :: string
  ts_UpdatedAt :: gotime

record outbox_row =
  ob_AggregateType :: string
  ob_AggregateID :: string
  ob_EventType :: string
  ob_EventVersion :: int
  ob_Payload :: string
  ob_BusinessAt :: gotime
  ob_CreatedAt :: gotime
  ob_PublishAttempts :: int
  ob_LastError :: "string option"
  ob_NextAttemptAt :: gotime
  ob_PublishedAt :: "gotime option"
  ob_DeadLetteredAt :: "gotime option"

record audit_row =
  au_ActorID :: "string option"
  au_ActorType :: string
  au_Action :: string
  au_TargetType :: string
  au_TargetID :: string
  au_Result :: string
  au_OperationID :: string

record secret_row =
  sh_OperationID :: string
  sh_ServerID :: string
  sh_NodeID :: string
  sh_VariableKey :: string
  sh_EncryptedValue :: string
  sh_Attempt :: int
  sh_ExpiresAt :: gotime
  sh_ConsumedAt :: "gotime option"

record tables =
  server_tasks :: "(string, task_row) gomap"
  backup_rows :: "(string, backup_row) gomap"
  server_rows :: "(string, server_row) gomap"
  node_ids :: "string list"
  bundle_versions :: "(string, string) gomap"
  bundle_history :: "(string, history_row) gomap"
  object_tombstones :: "(string, tombstone_row) gomap"
  outbox_events :: "(string, outbox_row) gomap"
  audit_events :: "audit_row list"
  secret_handles :: "(string, secret_row) gomap"
  startup_json :: "(string, string) gomap"

section \<open>Statements and transactions\<close>

text \<open>The statements of the code, so that \<open>pg\<close> can name the ones that fail.\<close>

datatype stmt =
    BeginTx | Commit
  | SelectTask | InsertTask | UpdateTask | SelectReplay
  | InsertOutbox | InsertAudit | UpdateServer
  | SelectBackup | UpdateBackup | UpdateRemote | InsertTombstone
  | SelectHistory | UpdateHistory
  | SelectStartup | InsertSecret | SelectSecret | ConsumeSecret
  | RequeueExpired | FailExpired
  | SelectEvent | UpdateEvent

record pg =
  pg_fails :: "stmt \<Rightarrow> bool"
  pg_locked :: "string \<Rightarrow> bool"
  pg_clock :: gotime
  pg_now :: gotime
  pg_id :: string
  pg_uuid :: string
  pg_event_id :: "string \<Rightarrow> string"
  pg_random :: "nat \<Rightarrow> string"

text \<open>
  \<open>pg_clock\<close> is \<^verbatim>\<open>time.Now\<close> in Go, \<open>pg_now\<close> is \<^verbatim>\<open>now()\<close> in SQL, \<open>pg_id\<close> is \<^verbatim>\<open>id.New\<close>,
  \<open>pg_uuid\<close> is \<^verbatim>\<open>gen_random_uuid()\<close> for a lease token, \<open>pg_event_id\<close> for the event of an operation,
  and \<open>pg_random\<close> are the draws of 32 random bytes of one claim.
\<close>

type_synonym 'a tx = "tables \<Rightarrow> problem + 'a \<times> tables"

abbreviation internal_error :: problem where
  "internal_error \<equiv> NewProblem ''INTERNAL_ERROR'' True"

definition ret :: "'a \<Rightarrow> 'a tx" where
  "ret x = (\<lambda>d. Inr (x, d))"

definition fail :: "problem \<Rightarrow> 'a tx" where
  "fail err = (\<lambda>d. Inl err)"

definition andThen :: "'a tx \<Rightarrow> ('a \<Rightarrow> 'b tx) \<Rightarrow> 'b tx" where
  "andThen m f = (\<lambda>d. case m d of Inl err \<Rightarrow> Inl err | Inr (x, d') \<Rightarrow> f x d')"

text \<open>A statement that fails ends the transaction with the error the code reports for it.\<close>

definition stmt :: "pg \<Rightarrow> stmt \<Rightarrow> 'a tx \<Rightarrow> 'a tx" where
  "stmt e s m = (\<lambda>d. if pg_fails e s then Inl internal_error else m d)"

definition ask :: "(tables \<Rightarrow> 'a) \<Rightarrow> 'a tx" where
  "ask f = (\<lambda>d. Inr (f d, d))"

definition change :: "(tables \<Rightarrow> tables) \<Rightarrow> unit tx" where
  "change f = (\<lambda>d. Inr ((), f d))"

definition commit :: "pg \<Rightarrow> 'a \<Rightarrow> 'a tx" where
  "commit e x = stmt e Commit (ret x)"

text \<open>\<^verbatim>\<open>BeginTx\<close> and the body with its \<^verbatim>\<open>Commit\<close>; every error rolls back.\<close>

definition transaction :: "pg \<Rightarrow> 'a tx \<Rightarrow> tables \<Rightarrow> 'a result \<times> tables" where
  "transaction e m d =
     (case stmt e BeginTx m d of
        Inl err \<Rightarrow> (Inl err, d)
      | Inr (x, d') \<Rightarrow> (Inr x, d'))"

text \<open>\<^verbatim>\<open>UPDATE ... SET f WHERE p\<close>: the rows it changes and the table it leaves.\<close>

definition matching :: "('r \<Rightarrow> bool) \<Rightarrow> (string, 'r) gomap \<Rightarrow> 'r list" where
  "matching p T = filter p (map snd T)"

definition updated :: "('r \<Rightarrow> bool) \<Rightarrow> ('r \<Rightarrow> 'r) \<Rightarrow> (string, 'r) gomap \<Rightarrow> (string, 'r) gomap" where
  "updated p f T = mmap (\<lambda>_ r. if p r then f r else r) T"

definition update_tasks :: "(task_row \<Rightarrow> bool) \<Rightarrow> (task_row \<Rightarrow> task_row) \<Rightarrow> task_row list tx" where
  "update_tasks p f = (\<lambda>d. Inr (map f (matching p (server_tasks d)),
     d\<lparr>server_tasks := updated p f (server_tasks d)\<rparr>))"

section \<open>The parameters\<close>

record backup_payload =
  bp_BackupID :: string
  bp_StorageObjectKey :: string

record backup_result =
  br_BackupID :: string
  br_Checksum :: string
  br_ManifestDigest :: string
  br_SizeBytes :: "int option"
  br_StorageLocation :: string

record taskEventPayload =
  ev_OperationID :: string
  ev_ServerID :: string
  ev_NodeID :: string
  ev_TaskType :: string
  ev_Generation :: int
  ev_Attempt :: int
  ev_MaxAttempts :: int
  ev_Status :: string
  ev_ErrorCode :: string

text \<open>
  JSON and the ciphers. \<open>backup_id_in\<close> is the field after an \<^verbatim>\<open>Unmarshal\<close> whose error is ignored;
  \<open>secret_input\<close> reads the variables and the secret keys of a provision or reconcile payload, and
  \<open>sealed_input\<close> encodes the payload with other variables and without the keys; \<open>jsonb_text\<close> is the
  text of \<^verbatim>\<open>to_jsonb\<close> of a string; \<open>decrypt\<close> is \<^verbatim>\<open>None\<close> when no key is configured.
\<close>

record task_codec =
  event_json :: "taskEventPayload \<Rightarrow> string"
  jsonb_text :: "string \<Rightarrow> string"
  backup_id_in :: "string \<Rightarrow> string"
  backup_payload_in :: "string \<Rightarrow> backup_payload option"
  backup_result_in :: "string \<Rightarrow> backup_result option"
  secret_input :: "string \<Rightarrow> string \<Rightarrow> ((string, string) gomap \<times> string list) option"
  sealed_input :: "string \<Rightarrow> string \<Rightarrow> (string, string) gomap \<Rightarrow> string option"
  startup_values_in :: "string \<Rightarrow> (string, any) gomap option"
  token_digest :: "string \<Rightarrow> string"
  decrypt :: "(string \<Rightarrow> any option) option"
  sprint :: "any \<Rightarrow> string"

section \<open>Events, audits and new tasks\<close>

definition recordTaskOutboxEvent :: "task_codec \<Rightarrow> pg \<Rightarrow> string \<Rightarrow> taskEventPayload \<Rightarrow> unit tx" where
  "recordTaskOutboxEvent C e eventType payload = stmt e InsertOutbox (\<lambda>d.
     if mhas (outbox_events d) (pg_event_id e (ev_OperationID payload)) then Inl internal_error
     else Inr ((), d\<lparr>outbox_events := mput (pg_event_id e (ev_OperationID payload))
       \<lparr>ob_AggregateType = ''server_task'', ob_AggregateID = ev_ServerID payload,
        ob_EventType = eventType, ob_EventVersion = 1, ob_Payload = event_json C payload,
        ob_BusinessAt = pg_now e, ob_CreatedAt = pg_now e, ob_PublishAttempts = 0,
        ob_LastError = None, ob_NextAttemptAt = pg_now e, ob_PublishedAt = None,
        ob_DeadLetteredAt = None\<rparr> (outbox_events d)\<rparr>))"

definition insert_audit :: "pg \<Rightarrow> audit_row \<Rightarrow> unit tx" where
  "insert_audit e row = stmt e InsertAudit (change (\<lambda>d. d\<lparr>audit_events := audit_events d @ [row]\<rparr>))"

definition taskIdempotencyScope :: "string \<Rightarrow> string \<Rightarrow> string \<Rightarrow> string" where
  "taskIdempotencyScope taskType actorID idemKey =
     ''server:'' @ taskType @ [CHR 0x1F] @ actorID @ [CHR 0x1F] @ idemKey"

definition activeTask :: "task_row \<Rightarrow> bool" where
  "activeTask r \<longleftrightarrow> st_Status r = ''queued'' \<or> st_Status r = ''leased'' \<or> st_Status r = ''running''"

definition task_types :: "string list" where
  "task_types = [''provision'', ''start'', ''stop'', ''restart'', ''kill'', ''backup'', ''restore'',
     ''backup-delete'', ''delete'', ''reconcile'']"

text \<open>The \<^verbatim>\<open>CHECK\<close> constraints of \<^verbatim>\<open>server_tasks\<close> on a new row.\<close>

definition task_checks :: "task_row \<Rightarrow> bool" where
  "task_checks r \<longleftrightarrow> st_TaskType r \<in> set task_types \<and> 0 < st_Generation r
     \<and> 16 \<le> rune_count (st_Key r) \<and> rune_count (st_Key r) \<le> 128 \<and> length (st_RequestDigest r) = 32
     \<and> 0 \<le> st_Attempt r \<and> 0 < st_MaxAttempts r"

text \<open>
  \<^verbatim>\<open>INSERT INTO server_tasks ... ON CONFLICT (idempotency_scope, idempotency_key) DO NOTHING\<close>: a
  used pair of scope and key inserts nothing; a used identifier, a second active task of the server
  (the partial unique index) or an unknown server or node is an error.
\<close>

definition insert_task :: "pg \<Rightarrow> task_row \<Rightarrow> string option tx" where
  "insert_task e r = stmt e InsertTask (\<lambda>d.
     if \<not> task_checks r then Inl internal_error
     else if matching (\<lambda>q. st_Scope q = st_Scope r \<and> st_Key q = st_Key r) (server_tasks d) \<noteq> [] then Inr (None, d)
     else if mhas (server_tasks d) (st_ID r) then Inl internal_error
     else if matching (\<lambda>q. st_ServerID q = st_ServerID r \<and> activeTask q) (server_tasks d) \<noteq> []
     then Inl internal_error
     else if \<not> mhas (server_rows d) (st_ServerID r) \<or> st_NodeID r \<notin> set (node_ids d) then Inl internal_error
     else Inr (Some (st_ID r), d\<lparr>server_tasks := mput (st_ID r) r (server_tasks d)\<rparr>))"

definition new_task ::
  "string \<Rightarrow> string \<Rightarrow> string \<Rightarrow> string \<Rightarrow> int \<Rightarrow> string \<Rightarrow> string \<Rightarrow> string \<Rightarrow> string option \<Rightarrow> gotime \<Rightarrow> task_row" where
  "new_task taskID serverID nodeID taskType generation actorID idemKey digest taskInput now =
     \<lparr>st_ID = taskID, st_ServerID = serverID, st_NodeID = nodeID, st_TaskType = taskType,
      st_Status = ''queued'', st_Generation = generation,
      st_ActorID = (if actorID = [] then None else Some actorID),
      st_Scope = taskIdempotencyScope taskType actorID idemKey, st_Key = idemKey,
      st_RequestDigest = digest, st_Attempt = 0, st_MaxAttempts = 3, st_LeaseOwner = None,
      st_LeaseToken = None, st_LeaseExpiresAt = None, st_LeaseRenewedAt = None,
      st_ConnectionEpoch = 0, st_StateVersion = 0, st_TaskInput = taskInput, st_Checkpoint = None,
      st_Progress = 0, st_ErrorCode = None, st_ErrorRetryable = None, st_CreatedAt = now,
      st_UpdatedAt = now, st_CompletedAt = None\<rparr>"

definition task_created :: "string \<Rightarrow> string \<Rightarrow> string \<Rightarrow> string \<Rightarrow> int \<Rightarrow> taskEventPayload" where
  "task_created inserted serverID nodeID taskType generation =
     \<lparr>ev_OperationID = inserted, ev_ServerID = serverID, ev_NodeID = nodeID, ev_TaskType = taskType,
      ev_Generation = generation, ev_Attempt = 0, ev_MaxAttempts = 3, ev_Status = ''queued'',
      ev_ErrorCode = []\<rparr>"

text \<open>
  \<^verbatim>\<open>EnqueueTask\<close> runs outside a transaction: the row is committed before the event is written, and
  stays when that fails.
\<close>

definition EnqueueTask ::
  "task_codec \<Rightarrow> pg \<Rightarrow> string \<Rightarrow> string \<Rightarrow> string \<Rightarrow> int \<Rightarrow> string \<Rightarrow> string \<Rightarrow> string \<Rightarrow> tables \<Rightarrow> string result \<times> tables" where
  "EnqueueTask C e serverID nodeID taskType generation actorID idemKey digest d =
     (let scope = taskIdempotencyScope taskType actorID idemKey in
      case insert_task e (new_task (pg_id e) serverID nodeID taskType generation actorID idemKey digest None (pg_clock e)) d of
        Inl err \<Rightarrow> (Inl err, d)
      | Inr (Some inserted, d1) \<Rightarrow>
          (case recordTaskOutboxEvent C e ''task.created''
                  (task_created inserted serverID nodeID taskType generation) d1 of
             Inl err \<Rightarrow> (Inl err, d1)
           | Inr (_, d2) \<Rightarrow> (Inr inserted, d2))
      | Inr (None, d1) \<Rightarrow>
          if pg_fails e SelectReplay then (Inl internal_error, d1)
          else (case matching (\<lambda>q. st_Scope q = scope \<and> st_Key q = idemKey) (server_tasks d1) of
                  [] \<Rightarrow> (Inl internal_error, d1)
                | existing # _ \<Rightarrow>
                    if st_RequestDigest existing \<noteq> digest
                    then (Inl (NewProblem ''IDEMPOTENCY_KEY_REUSED'' False), d1)
                    else (Inr (st_ID existing), d1)))"

definition enqueueTaskTx ::
  "task_codec \<Rightarrow> pg \<Rightarrow> string \<Rightarrow> string \<Rightarrow> string \<Rightarrow> string \<Rightarrow> int \<Rightarrow> string \<Rightarrow> string \<Rightarrow> string \<Rightarrow> string \<Rightarrow> string option tx" where
  "enqueueTaskTx C e taskID serverID nodeID taskType generation actorID idemKey digest taskInput =
     andThen (insert_task e (new_task taskID serverID nodeID taskType generation actorID idemKey digest
         (if taskInput = [] then None else Some taskInput) (pg_now e))) (\<lambda>inserted.
       case inserted of
         None \<Rightarrow> ret None
       | Some taskID' \<Rightarrow>
           andThen (recordTaskOutboxEvent C e ''task.created''
             (task_created taskID' serverID nodeID taskType generation)) (\<lambda>_. ret (Some taskID')))"

section \<open>The fence\<close>

record TaskLeaseFence =
  fence_OperationID :: string
  fence_NodeID :: string
  fence_Epoch :: int
  fence_Attempt :: int
  fence_LeaseToken :: string

definition taskLeaseDuration :: duration where
  "taskLeaseDuration = 30 * second"

definition coalesce :: "string option \<Rightarrow> string" where
  "coalesce v = (case v of None \<Rightarrow> [] | Some s \<Rightarrow> s)"

definition taskFenceMatches :: "TaskLeaseFence \<Rightarrow> int \<Rightarrow> int \<Rightarrow> string \<Rightarrow> bool" where
  "taskFenceMatches fence attempt epoch leaseToken =
     (if fence_LeaseToken fence = [] then fence_Attempt fence = attempt
      else fence_Attempt fence = attempt \<and> fence_Epoch fence = epoch \<and> fence_LeaseToken fence = leaseToken)"

text \<open>\<^verbatim>\<open>sql.ErrNoRows\<close> is \<^verbatim>\<open>None\<close>: no such row, or a fence that does not match.\<close>

definition fenceTaskRow :: "pg \<Rightarrow> TaskLeaseFence \<Rightarrow> task_row option tx" where
  "fenceTaskRow e fence = stmt e SelectTask (ask (\<lambda>d.
     case mget (server_tasks d) (fence_OperationID fence) of
       None \<Rightarrow> None
     | Some r \<Rightarrow>
         if st_NodeID r \<noteq> fence_NodeID fence then None
         else if taskFenceMatches fence (st_Attempt r) (st_ConnectionEpoch r) (coalesce (st_LeaseToken r))
         then Some r else None))"

end
