(* ===== verification/Secret_Handles.thy ===== *)
theory Secret_Handles
  imports Task_Tables
begin

text \<open>
  One-time references to encrypted start-up values (\<^verbatim>\<open>internal/store/secret_handles.go\<close>): a claim
  replaces each secret variable of a provision or reconcile task by an opaque handle, which the
  agent exchanges for the plain value once, while its attempt of the task lasts. The base64 alphabet
  and grouping of \<^verbatim>\<open>base64.RawURLEncoding\<close> are written out; hashing, JSON and ciphers are in
  \<open>task_codec\<close>.
\<close>

section \<open>base64.RawURLEncoding\<close>

definition b64_char :: "nat \<Rightarrow> char" where
  "b64_char n =
     (if n < 26 then char_of (65 + n) else if n < 52 then char_of (71 + n)
      else if n < 62 then char_of (n - 4) else if n = 62 then CHR ''-'' else CHR ''_'')"

definition b64_value :: "char \<Rightarrow> nat option" where
  "b64_value c =
     (let x = byte c in
      if 65 \<le> x \<and> x \<le> 90 then Some (x - 65)
      else if 97 \<le> x \<and> x \<le> 122 then Some (x - 71)
      else if 48 \<le> x \<and> x \<le> 57 then Some (x + 4)
      else if x = 45 then Some 62 else if x = 95 then Some 63 else None)"

fun b64_groups :: "nat list \<Rightarrow> nat list" where
  "b64_groups (a # b # c # rest) =
     a div 4 # ((a mod 4) * 16 + b div 16) # ((b mod 16) * 4 + c div 64) # c mod 64 # b64_groups rest"
| "b64_groups [a, b] = [a div 4, (a mod 4) * 16 + b div 16, (b mod 16) * 4]"
| "b64_groups [a] = [a div 4, (a mod 4) * 16]"
| "b64_groups [] = []"

definition b64_encode :: "string \<Rightarrow> string" where
  "b64_encode s = map b64_char (b64_groups (map byte s))"

text \<open>The decoder skips line breaks, refuses a single left-over digit and ignores trailing bits.\<close>

fun b64_bytes :: "nat list \<Rightarrow> nat list option" where
  "b64_bytes (p # q # r # s # rest) =
     map_option (\<lambda>bytes. (p * 4 + q div 16) # ((q mod 16) * 16 + r div 4) # ((r mod 4) * 64 + s) # bytes) (b64_bytes rest)"
| "b64_bytes [p, q, r] = Some [p * 4 + q div 16, (q mod 16) * 16 + r div 4]"
| "b64_bytes [p, q] = Some [p * 4 + q div 16]"
| "b64_bytes [p] = None"
| "b64_bytes [] = Some []"

definition b64_decode :: "string \<Rightarrow> string option" where
  "b64_decode s =
     (let digits = filter (\<lambda>c. byte c \<noteq> 10 \<and> byte c \<noteq> 13) s in
      if list_ex (\<lambda>c. b64_value c = None) digits then None
      else map_option (map char_of) (b64_bytes (map (\<lambda>c. the (b64_value c)) digits)))"

section \<open>Handles\<close>

definition secretHandlePrefix :: string where
  "secretHandlePrefix = ''sh:v1:''"

definition secretHandleTTL :: duration where
  "secretHandleTTL = 2 * minute"

definition secretHandleValue :: "string \<Rightarrow> string" where
  "secretHandleValue token = secretHandlePrefix @ b64_encode token"

datatype secret_error =
    InvalidPrefix | InvalidEncoding | BeginFailed | HandleUnavailable | LookupFailed | TaskUnverified
  | AttemptEnded | Undecryptable | NotConfigured | ConsumeFailed | CommitFailed

definition parseSecretHandle :: "string \<Rightarrow> secret_error + string" where
  "parseSecretHandle handle =
     (if \<not> HasPrefix handle secretHandlePrefix then Inl InvalidPrefix
      else (case b64_decode (TrimPrefix handle secretHandlePrefix) of
              None \<Rightarrow> Inl InvalidEncoding
            | Some raw \<Rightarrow> if length raw \<noteq> 32 then Inl InvalidEncoding else Inr raw))"

definition IsSecretCiphertext :: "any \<Rightarrow> bool" where
  "IsSecretCiphertext v =
     (case v of AnyString text \<Rightarrow> HasPrefix text ''enc:v1:'' \<or> HasPrefix text ''enc:v2:'' | _ \<Rightarrow> False)"

text \<open>\<^verbatim>\<open>None\<close> on the left is the error of a value that is not encrypted.\<close>

definition secretHandleSnapshot :: "(string, any) gomap \<Rightarrow> string \<Rightarrow> unit + string option" where
  "secretHandleSnapshot values key =
     (case mget values key of
        None \<Rightarrow> Inr None
      | Some (AnyString ciphertext) \<Rightarrow>
          if IsSecretCiphertext (AnyString ciphertext) then Inr (Some ciphertext) else Inl ()
      | Some _ \<Rightarrow> Inl ())"

section \<open>A claimed task\<close>

record ClaimedTask =
  ct_OperationID :: string
  ct_ServerID :: string
  ct_NodeID :: string
  ct_Generation :: int
  ct_TaskType :: string
  ct_Attempt :: int
  ct_LeaseToken :: string
  ct_ConnectionEpoch :: int
  ct_StateVersion :: int
  ct_PayloadJSON :: string
  ct_TaskInputJSON :: string

definition InputJSON :: "ClaimedTask \<Rightarrow> string" where
  "InputJSON t = (if ct_TaskInputJSON t \<noteq> [] then ct_TaskInputJSON t else ct_PayloadJSON t)"

definition SetInputJSON :: "string \<Rightarrow> ClaimedTask \<Rightarrow> ClaimedTask" where
  "SetInputJSON encoded t =
     (if ct_TaskInputJSON t \<noteq> [] then t\<lparr>ct_TaskInputJSON := encoded\<rparr> else t\<lparr>ct_PayloadJSON := encoded\<rparr>)"

definition normalizeJSONNumbers :: "any \<Rightarrow> any" where
  "normalizeJSONNumbers v =
     (case v of
        AnyNumber text \<Rightarrow> (case ParseStartupInteger text of Some n \<Rightarrow> AnyInt n | None \<Rightarrow> AnyString text)
      | _ \<Rightarrow> v)"

definition startupValuesTx :: "task_codec \<Rightarrow> pg \<Rightarrow> string \<Rightarrow> (string, any) gomap tx" where
  "startupValuesTx C e serverID = stmt e SelectStartup (\<lambda>d.
     case mget (startup_json d) serverID of
       None \<Rightarrow> Inr ([], d)
     | Some raw \<Rightarrow>
         (case startup_values_in C raw of
            None \<Rightarrow> Inl internal_error
          | Some values \<Rightarrow> Inr (mmap (\<lambda>_. normalizeJSONNumbers) values, d)))"

text \<open>
  The insertion with the constraints of the table; the referenced task, server and node exist, since
  the task's row is locked.
\<close>

definition insert_secret :: "pg \<Rightarrow> string \<Rightarrow> secret_row \<Rightarrow> unit tx" where
  "insert_secret e digest row = stmt e InsertSecret (\<lambda>d.
     if length digest \<noteq> 32 \<or> rune_count (sh_VariableKey row) < 1 \<or> 128 < rune_count (sh_VariableKey row)
        \<or> sh_Attempt row \<le> 0 \<or> mhas (secret_handles d) digest
     then Inl internal_error
     else Inr ((), d\<lparr>secret_handles := mput digest row (secret_handles d)\<rparr>))"

text \<open>The loop over the secret keys.\<close>

fun seal_keys ::
  "task_codec \<Rightarrow> pg \<Rightarrow> ClaimedTask \<Rightarrow> (string, any) gomap \<Rightarrow> nat \<Rightarrow> string list \<Rightarrow> (string, string) gomap
   \<Rightarrow> (string, string) gomap tx" where
  "seal_keys C e task values i [] variables = ret variables"
| "seal_keys C e task values i (key # keys) variables =
     (case secretHandleSnapshot values key of
        Inl _ \<Rightarrow> fail internal_error
      | Inr None \<Rightarrow> seal_keys C e task values i keys variables
      | Inr (Some ciphertext) \<Rightarrow>
          andThen (insert_secret e (token_digest C (pg_random e i))
              \<lparr>sh_OperationID = ct_OperationID task, sh_ServerID = ct_ServerID task,
               sh_NodeID = ct_NodeID task, sh_VariableKey = key, sh_EncryptedValue = ciphertext,
               sh_Attempt = ct_Attempt task + 1, sh_ExpiresAt = pg_clock e + secretHandleTTL,
               sh_ConsumedAt = None\<rparr>) (\<lambda>_.
            seal_keys C e task values (Suc i) keys (mput key (secretHandleValue (pg_random e i)) variables)))"

definition materializeSecretHandlesTx :: "task_codec \<Rightarrow> pg \<Rightarrow> ClaimedTask \<Rightarrow> ClaimedTask tx" where
  "materializeSecretHandlesTx C e task =
     (if InputJSON task = [] \<or> ct_TaskType task \<noteq> ''provision'' \<and> ct_TaskType task \<noteq> ''reconcile'' then ret task
      else
        (case secret_input C (ct_TaskType task) (InputJSON task) of
           None \<Rightarrow> fail internal_error
         | Some (variables, secretKeys) \<Rightarrow>
             if secretKeys = [] then ret task
             else
               andThen (startupValuesTx C e (ct_ServerID task)) (\<lambda>values.
               andThen (seal_keys C e task values 0 secretKeys variables) (\<lambda>variables'.
                 case sealed_input C (ct_TaskType task) (InputJSON task) variables' of
                   None \<Rightarrow> fail internal_error
                 | Some encoded \<Rightarrow> ret (SetInputJSON encoded task)))))"

section \<open>Resolving a handle\<close>

text \<open>\<open>definitions\<close> are the keys of the declared variables with their secret flag.\<close>

fun decrypt_each ::
  "(string \<Rightarrow> any option) \<Rightarrow> (string \<times> bool) list \<Rightarrow> (string, any) gomap \<Rightarrow> (string, any) gomap option" where
  "decrypt_each dec [] values = Some values"
| "decrypt_each dec ((key, secret) # definitions) values =
     (if \<not> secret then decrypt_each dec definitions values
      else (case mget values key of
              Some (AnyString text) \<Rightarrow>
                (case dec text of
                   None \<Rightarrow> None
                 | Some decrypted \<Rightarrow> decrypt_each dec definitions (mput key decrypted values))
            | _ \<Rightarrow> decrypt_each dec definitions values))"

definition decryptSecretValues ::
  "task_codec \<Rightarrow> (string \<times> bool) list \<Rightarrow> (string, any) gomap \<Rightarrow> (string, any) gomap option" where
  "decryptSecretValues C definitions values =
     (case decrypt C of
        None \<Rightarrow>
          if list_ex (\<lambda>(key, _). case mget values key of None \<Rightarrow> False | Some v \<Rightarrow> IsSecretCiphertext v) definitions
          then None else Some values
      | Some dec \<Rightarrow> decrypt_each dec definitions values)"

definition stringifiedStartupValues :: "task_codec \<Rightarrow> (string, any) gomap \<Rightarrow> (string, string) gomap" where
  "stringifiedStartupValues C values =
     map (\<lambda>(key, v). (key, case v of
        AnyString text \<Rightarrow> text
      | AnyBool b \<Rightarrow> FormatBool b
      | AnyInt n \<Rightarrow> FormatInt n
      | _ \<Rightarrow> sprint C v)) values"

text \<open>The value a valid handle stands for.\<close>

definition secret_value :: "task_codec \<Rightarrow> secret_row \<Rightarrow> secret_error + string" where
  "secret_value C row =
     (case decryptSecretValues C [(sh_VariableKey row, True)] [(sh_VariableKey row, AnyString (sh_EncryptedValue row))] of
        None \<Rightarrow> Inl Undecryptable
      | Some values \<Rightarrow>
          (case mget values (sh_VariableKey row) of
             None \<Rightarrow> Inl NotConfigured
           | Some value \<Rightarrow>
               Inr (mget_zero [] (stringifiedStartupValues C [(sh_VariableKey row, value)]) (sh_VariableKey row))))"

definition usable_handle :: "pg \<Rightarrow> string \<Rightarrow> string \<Rightarrow> string \<Rightarrow> secret_row \<Rightarrow> bool" where
  "usable_handle e operationID serverID nodeID row \<longleftrightarrow>
     sh_OperationID row = operationID \<and> sh_ServerID row = serverID \<and> sh_NodeID row = nodeID
     \<and> sh_ConsumedAt row = None \<and> pg_now e < sh_ExpiresAt row"

definition ResolveSecretHandle ::
  "task_codec \<Rightarrow> pg \<Rightarrow> string \<Rightarrow> string \<Rightarrow> string \<Rightarrow> string \<Rightarrow> tables \<Rightarrow> (secret_error + string \<times> gotime) \<times> tables" where
  "ResolveSecretHandle C e operationID serverID nodeID handle d =
     (case parseSecretHandle handle of
        Inl err \<Rightarrow> (Inl err, d)
      | Inr raw \<Rightarrow>
          let digest = token_digest C raw in
          if pg_fails e BeginTx then (Inl BeginFailed, d)
          else if pg_fails e SelectSecret then (Inl LookupFailed, d)
          else
            (case mget (secret_handles d) digest of
               None \<Rightarrow> (Inl HandleUnavailable, d)
             | Some row \<Rightarrow>
                 if \<not> usable_handle e operationID serverID nodeID row then (Inl HandleUnavailable, d)
                 else if pg_fails e SelectTask then (Inl TaskUnverified, d)
                 else
                   (case mget (server_tasks d) operationID of
                      None \<Rightarrow> (Inl TaskUnverified, d)
                    | Some t \<Rightarrow>
                        if st_ServerID t \<noteq> serverID \<or> st_NodeID t \<noteq> nodeID then (Inl TaskUnverified, d)
                        else if st_Attempt t \<noteq> sh_Attempt row \<or> st_Status t \<noteq> ''leased'' \<and> st_Status t \<noteq> ''running''
                        then (Inl AttemptEnded, d)
                        else
                          (case secret_value C row of
                             Inl err \<Rightarrow> (Inl err, d)
                           | Inr text \<Rightarrow>
                               if pg_fails e ConsumeSecret then (Inl ConsumeFailed, d)
                               else if pg_fails e Commit then (Inl CommitFailed, d)
                               else (Inr (text, sh_ExpiresAt row),
                                     d\<lparr>secret_handles := mput digest (row\<lparr>sh_ConsumedAt := Some (pg_now e)\<rparr>)
                                         (secret_handles d)\<rparr>)))))"

section \<open>The text of a handle\<close>

lemma b64_digit: "n < 64 \<Longrightarrow> b64_value (b64_char n) = Some n \<and> byte (b64_char n) \<noteq> 10 \<and> byte (b64_char n) \<noteq> 13"
  by (auto simp: b64_char_def b64_value_def byte_def Let_def)

lemma b64_groups_digits: "\<forall>x \<in> set xs. x < 256 \<Longrightarrow> \<forall>n \<in> set (b64_groups xs). n < 64"
  by (induction xs rule: b64_groups.induct) auto

lemma b64_bytes_groups: "\<forall>x \<in> set xs. x < 256 \<Longrightarrow> b64_bytes (b64_groups xs) = Some xs"
proof (induction xs rule: b64_groups.induct)
  case (1 a b c rest)
  have "q < m \<Longrightarrow> (k * m + q) div m = k \<and> (k * m + q) mod m = q" for k q m :: nat by simp
  from this [of "b div 16" 16 "a mod 4"] this [of "c div 64" 4 "b mod 16"] have
    "a div 4 * 4 + (a mod 4 * 16 + b div 16) div 16 = a div 4 * 4 + a mod 4"
    "(a mod 4 * 16 + b div 16) mod 16 * 16 + (b mod 16 * 4 + c div 64) div 4 = b div 16 * 16 + b mod 16"
    "(b mod 16 * 4 + c div 64) mod 4 * 64 + c mod 64 = c div 64 * 64 + c mod 64"
    using 1(2) by (simp_all add: less_mult_imp_div_less)
  then show ?case using 1 by (simp only: div_mult_mod_eq b64_groups.simps b64_bytes.simps) simp
qed auto

lemma b64_roundtrip: "b64_decode (b64_encode s) = Some s"
proof -
  let ?xs = "b64_groups (map byte s)"
  have small: "\<forall>x \<in> set (map byte s). x < 256" by (auto simp: byte_def)
  have digits: "\<forall>n \<in> set ?xs. n < 64" using small by (rule b64_groups_digits)
  then have keep: "filter (\<lambda>c. byte c \<noteq> 10 \<and> byte c \<noteq> 13) (map b64_char ?xs) = map b64_char ?xs"
    using b64_digit by (auto simp: filter_id_conv)
  have vals: "map (\<lambda>c. the (b64_value c)) (map b64_char ?xs) = ?xs"
    using digits b64_digit by (simp add: comp_def map_idI)
  have "\<not> list_ex (\<lambda>c. b64_value c = None) (map b64_char ?xs)"
    using digits b64_digit by (auto simp: list_ex_iff)
  then show ?thesis
    using b64_bytes_groups [OF small] vals
    unfolding b64_decode_def b64_encode_def keep Let_def by (simp add: comp_def map_idI byte_def)
qed

text \<open>The text of a handle parses back to the 32 random bytes it was made of.\<close>

theorem parseSecretHandle_roundtrip:
  assumes "length token = 32"
  shows "parseSecretHandle (secretHandleValue token) = Inr token"
  using assms b64_roundtrip [of token]
  by (simp add: parseSecretHandle_def secretHandleValue_def HasPrefix_def TrimPrefix_def)

theorem parseSecretHandle_roundtrip_witness:
  "parseSecretHandle (secretHandleValue (replicate 32 (CHR ''k''))) = Inr (replicate 32 (CHR ''k''))"
  by (rule parseSecretHandle_roundtrip) simp

end
