(* ===== verification/Task_Leases.thy ===== *)
theory Task_Leases
  imports Secret_Handles
begin

text \<open>
  Leases on tasks (\<^verbatim>\<open>internal/store/postgres_tasks.go\<close>): a node claims its oldest queued task under
  a fresh lease token, acknowledges it, reports progress, renews the lease and finally reports the
  result; a message counts only when its fence matches the row. Expired leases return to the queue
  or fail for good. Each function is one transaction (\<open>ReconcileTaskLeases\<close> is a statement and a
  transaction) and takes the tables before to its answer and the tables after.
\<close>

section \<open>Claiming\<close>

definition claimable :: "pg \<Rightarrow> string \<Rightarrow> task_row \<Rightarrow> bool" where
  "claimable e nodeID r \<longleftrightarrow> st_NodeID r = nodeID \<and> st_Status r = ''queued''
     \<and> st_Attempt r < st_MaxAttempts r \<and> \<not> pg_locked e (st_ID r)"

text \<open>\<^verbatim>\<open>ORDER BY created_at LIMIT 1\<close>\<close>

fun oldest :: "task_row list \<Rightarrow> task_row option" where
  "oldest [] = None"
| "oldest (r # rs) =
     (case oldest rs of
        None \<Rightarrow> Some r
      | Some q \<Rightarrow> if st_CreatedAt r \<le> st_CreatedAt q then Some r else Some q)"

text \<open>
  The claimed task as it is when the secrets are prepared: the lease columns, the attempt among them,
  are filled in afterwards.
\<close>

definition scanned_task :: "task_row \<Rightarrow> ClaimedTask" where
  "scanned_task r =
     \<lparr>ct_OperationID = st_ID r, ct_ServerID = st_ServerID r, ct_NodeID = st_NodeID r,
      ct_Generation = st_Generation r, ct_TaskType = st_TaskType r, ct_Attempt = 0,
      ct_LeaseToken = [], ct_ConnectionEpoch = 0, ct_StateVersion = 0,
      ct_PayloadJSON = (if st_TaskInput r = None then coalesce (st_Checkpoint r) else []),
      ct_TaskInputJSON = coalesce (st_TaskInput r)\<rparr>"

definition lease_task :: "pg \<Rightarrow> string \<Rightarrow> int \<Rightarrow> task_row \<Rightarrow> task_row" where
  "lease_task e nodeID connectionEpoch r =
     r\<lparr>st_Status := ''leased'', st_LeaseOwner := Some nodeID, st_LeaseToken := Some (pg_uuid e),
       st_ConnectionEpoch := connectionEpoch,
       st_LeaseExpiresAt := Some (pg_clock e + taskLeaseDuration),
       st_LeaseRenewedAt := Some (pg_now e), st_Attempt := st_Attempt r + 1,
       st_StateVersion := st_StateVersion r + 1, st_UpdatedAt := pg_now e\<rparr>"

definition with_error :: "problem \<Rightarrow> 'a tx \<Rightarrow> 'a tx" where
  "with_error err m = (\<lambda>d. case m d of Inl _ \<Rightarrow> Inl err | Inr r \<Rightarrow> Inr r)"

definition claim_row :: "task_codec \<Rightarrow> pg \<Rightarrow> string \<Rightarrow> int \<Rightarrow> task_row \<Rightarrow> ClaimedTask option tx" where
  "claim_row C e nodeID connectionEpoch r =
     andThen (with_error (NewProblem ''SECRET_HANDLE_FAILED'' True)
       (materializeSecretHandlesTx C e (scanned_task r))) (\<lambda>task.
     andThen (stmt e UpdateTask (update_tasks
       (\<lambda>q. st_ID q = st_ID r \<and> st_Status q = ''queued'') (lease_task e nodeID connectionEpoch))) (\<lambda>rows.
       case rows of
         [] \<Rightarrow> fail internal_error
       | q # _ \<Rightarrow>
           commit e (Some (task\<lparr>ct_ConnectionEpoch := connectionEpoch, ct_Attempt := st_Attempt q,
             ct_StateVersion := st_StateVersion q, ct_LeaseToken := coalesce (st_LeaseToken q)\<rparr>))))"

definition ClaimTask ::
  "task_codec \<Rightarrow> pg \<Rightarrow> string \<Rightarrow> int \<Rightarrow> tables \<Rightarrow> ClaimedTask option result \<times> tables" where
  "ClaimTask C e nodeID connectionEpoch = transaction e
     (andThen (stmt e SelectTask (ask (\<lambda>d. oldest (matching (claimable e nodeID) (server_tasks d))))) (\<lambda>found.
        case found of None \<Rightarrow> ret None | Some r \<Rightarrow> claim_row C e nodeID connectionEpoch r))"

section \<open>Messages of the agent\<close>

text \<open>The row a fence names, for a body that acts on it; otherwise the message is a no-op.\<close>

definition fenced :: "pg \<Rightarrow> TaskLeaseFence \<Rightarrow> (task_row \<Rightarrow> unit tx) \<Rightarrow> unit tx" where
  "fenced e fence body = andThen (fenceTaskRow e fence) (\<lambda>found.
     case found of None \<Rightarrow> ret () | Some r \<Rightarrow> body r)"

text \<open>The update of the one task a fence names: nothing is committed unless exactly one row changed.\<close>

definition fenced_update ::
  "pg \<Rightarrow> TaskLeaseFence \<Rightarrow> (task_row \<Rightarrow> bool) \<Rightarrow> (task_row \<Rightarrow> task_row) \<Rightarrow> tables \<Rightarrow> unit result \<times> tables" where
  "fenced_update e fence p f d = transaction e (fenced e fence (\<lambda>_.
     andThen (stmt e UpdateTask (update_tasks (\<lambda>q. st_ID q = fence_OperationID fence \<and> p q) f)) (\<lambda>rows.
       if length rows \<noteq> 1 then change (\<lambda>_. d) else commit e ()))) d"

definition lease_held :: "task_row \<Rightarrow> bool" where
  "lease_held r \<longleftrightarrow> st_Status r = ''leased'' \<or> st_Status r = ''running''"

definition start_running :: "pg \<Rightarrow> task_row \<Rightarrow> task_row" where
  "start_running e r =
     r\<lparr>st_Status := ''running'', st_LeaseExpiresAt := Some (pg_now e + taskLeaseDuration),
       st_LeaseRenewedAt := Some (pg_now e), st_StateVersion := st_StateVersion r + 1,
       st_UpdatedAt := pg_now e\<rparr>"

text \<open>A task in a terminal state: the lease is gone.\<close>

definition end_task :: "string \<Rightarrow> string option \<Rightarrow> bool option \<Rightarrow> gotime \<Rightarrow> task_row \<Rightarrow> task_row" where
  "end_task status code retryable now r =
     r\<lparr>st_Status := status, st_ErrorCode := code, st_ErrorRetryable := retryable,
       st_CompletedAt := Some now, st_LeaseOwner := None, st_LeaseExpiresAt := None,
       st_LeaseRenewedAt := None, st_LeaseToken := None, st_StateVersion := st_StateVersion r + 1,
       st_UpdatedAt := now\<rparr>"

definition reject_task :: "pg \<Rightarrow> string \<Rightarrow> task_row \<Rightarrow> task_row" where
  "reject_task e errCode =
     end_task ''failed'' (Some (if TrimSpace errCode = [] then ''ACK_REJECTED'' else TrimSpace errCode))
       (Some False) (pg_now e)"

definition AckTask ::
  "pg \<Rightarrow> TaskLeaseFence \<Rightarrow> bool \<Rightarrow> string \<Rightarrow> tables \<Rightarrow> unit result \<times> tables" where
  "AckTask e fence accepted errCode =
     (if accepted then fenced_update e fence (\<lambda>q. st_Status q = ''leased'') (start_running e)
      else fenced_update e fence lease_held (reject_task e errCode))"

definition advance_task :: "task_codec \<Rightarrow> pg \<Rightarrow> int \<Rightarrow> string \<Rightarrow> task_row \<Rightarrow> task_row" where
  "advance_task C e percent checkpoint r =
     r\<lparr>st_Progress := max (st_Progress r) percent,
       st_Checkpoint := (if checkpoint = [] then st_Checkpoint r else Some (jsonb_text C checkpoint)),
       st_Status := (if st_Status r = ''leased'' then ''running'' else st_Status r),
       st_LeaseExpiresAt := Some (pg_now e + taskLeaseDuration),
       st_LeaseRenewedAt := Some (pg_now e), st_StateVersion := st_StateVersion r + 1,
       st_UpdatedAt := pg_now e\<rparr>"

definition ReportTaskProgress ::
  "task_codec \<Rightarrow> pg \<Rightarrow> TaskLeaseFence \<Rightarrow> int \<Rightarrow> string \<Rightarrow> tables \<Rightarrow> unit result \<times> tables" where
  "ReportTaskProgress C e fence percent checkpoint d =
     (if percent < 0 \<or> 100 < percent then (Inl (NewProblem ''VALIDATION_FAILED'' False), d)
      else fenced_update e fence lease_held (advance_task C e percent checkpoint) d)"

definition renew_lease :: "pg \<Rightarrow> task_row \<Rightarrow> task_row" where
  "renew_lease e r =
     r\<lparr>st_LeaseExpiresAt := Some (pg_clock e + taskLeaseDuration),
       st_LeaseRenewedAt := Some (pg_clock e), st_StateVersion := st_StateVersion r + 1,
       st_UpdatedAt := pg_now e\<rparr>"

definition RenewTaskLease :: "pg \<Rightarrow> TaskLeaseFence \<Rightarrow> tables \<Rightarrow> unit result \<times> tables" where
  "RenewTaskLease e fence = fenced_update e fence lease_held (renew_lease e)"

section \<open>Backup results\<close>

definition sha256_text :: "string \<Rightarrow> bool" where
  "sha256_text v \<longleftrightarrow> HasPrefix v ''sha256:'' \<and> length v = 7 + 32 * 2
     \<and> hex_decode (TrimPrefix v ''sha256:'') \<noteq> None"

definition validBackupTaskResult :: "task_codec \<Rightarrow> string \<Rightarrow> string \<Rightarrow> bool" where
  "validBackupTaskResult C checkpoint resultJSON =
     (case backup_payload_in C checkpoint of
        None \<Rightarrow> False
      | Some payload \<Rightarrow>
          if bp_BackupID payload = [] then False
          else
            (case backup_result_in C resultJSON of
               None \<Rightarrow> False
             | Some result \<Rightarrow>
                 if br_BackupID result \<noteq> bp_BackupID payload \<or> br_SizeBytes result = None
                    \<or> the (br_SizeBytes result) < 0 \<or> br_StorageLocation result = [] then False
                 else if \<not> sha256_text (br_Checksum result) \<or> \<not> sha256_text (br_ManifestDigest result) then False
                 else
                   (let clean = Clean (br_StorageLocation result) in
                    if clean \<noteq> br_StorageLocation result \<or> clean = ''.'' \<or> clean = ''..''
                       \<or> HasPrefix clean ''../'' \<or> HasPrefix clean ''/'' then False
                    else if bp_StorageObjectKey payload \<noteq> [] \<and> clean \<noteq> Clean (bp_StorageObjectKey payload) then False
                    else True)))"

definition requireSingleRow :: "nat \<Rightarrow> string \<Rightarrow> problem option" where
  "requireSingleRow affected code =
     (if affected = 1 then None
      else Some ((NewProblem code False)\<lparr>Details := mput ''rowsAffected'' (AnyInt (int affected)) []\<rparr>))"

definition requireBackupTransition :: "nat \<Rightarrow> string \<Rightarrow> string \<Rightarrow> problem option" where
  "requireBackupTransition affected expected upcoming =
     (if \<not> BackupStatusTransitionAllowed expected upcoming then Some (NewProblem ''INTERNAL_ERROR'' False)
      else map_option (\<lambda>p. p\<lparr>Details := mput ''nextStatus'' (AnyString upcoming)
             (mput ''expectedStatus'' (AnyString expected) (Details p))\<rparr>)
           (requireSingleRow affected ''BACKUP_STATE_CONFLICT''))"

definition require :: "problem option \<Rightarrow> unit tx" where
  "require p = (case p of None \<Rightarrow> ret () | Some err \<Rightarrow> fail err)"

text \<open>\<^verbatim>\<open>CHECK (... ~ '^sha256:[a-f0-9]{64}$')\<close> and the other constraints on a changed backup.\<close>

definition lower_hex :: "char \<Rightarrow> bool" where
  "lower_hex c \<longleftrightarrow> 0x30 \<le> byte c \<and> byte c \<le> 0x39 \<or> 0x61 \<le> byte c \<and> byte c \<le> 0x66"

definition digest_check :: "string option \<Rightarrow> bool" where
  "digest_check v = (case v of None \<Rightarrow> True
     | Some s \<Rightarrow> HasPrefix s ''sha256:'' \<and> length s = 71 \<and> list_all lower_hex (TrimPrefix s ''sha256:''))"

definition backup_checks :: "backup_row \<Rightarrow> bool" where
  "backup_checks b \<longleftrightarrow> digest_check (bu_ContentDigest b) \<and> digest_check (bu_ManifestDigest b)
     \<and> (case bu_SizeBytes b of None \<Rightarrow> True | Some n \<Rightarrow> 0 \<le> n)
     \<and> (bu_FailureCode b = None \<longleftrightarrow> bu_FailureMessage b = None)
     \<and> (bu_Status b = ''failed'' \<longrightarrow> bu_FailureCode b \<noteq> None)
     \<and> (bu_Status b = ''deleted'' \<longleftrightarrow> bu_DeletedAt b \<noteq> None)"

text \<open>\<^verbatim>\<open>UPDATE backups SET f WHERE id = ... AND p\<close>, with the number of rows it changed.\<close>

definition update_backup :: "string \<Rightarrow> (backup_row \<Rightarrow> bool) \<Rightarrow> (backup_row \<Rightarrow> backup_row) \<Rightarrow> nat tx" where
  "update_backup backupID p f = (\<lambda>d.
     case mget (backup_rows d) backupID of
       None \<Rightarrow> Inr (0, d)
     | Some b \<Rightarrow>
         if \<not> p b then Inr (0, d)
         else if \<not> backup_checks (f b) then Inl internal_error
         else Inr (1, d\<lparr>backup_rows := mput backupID (f b) (backup_rows d)\<rparr>))"

definition update_server :: "string \<Rightarrow> (server_row \<Rightarrow> bool) \<Rightarrow> (server_row \<Rightarrow> server_row) \<Rightarrow> nat tx" where
  "update_server serverID p f = (\<lambda>d.
     case mget (server_rows d) serverID of
       None \<Rightarrow> Inr (0, d)
     | Some s \<Rightarrow>
         if \<not> p s then Inr (0, d)
         else Inr (1, d\<lparr>server_rows := mput serverID (f s) (server_rows d)\<rparr>))"

text \<open>
  The status a backup has while its task is under way, and the one it gets back when the task fails:
  a deletion that fails leaves a backup failed when it carried a failure before.
\<close>

definition compensated_status :: "pg \<Rightarrow> string \<Rightarrow> string \<Rightarrow> string \<Rightarrow> (string \<times> string) tx" where
  "compensated_status e taskType backupID serverID =
     (if taskType = ''restore'' then ret (''restoring'', ''ready'')
      else if taskType = ''backup-delete'' then
        stmt e SelectBackup (\<lambda>d.
          case mget (backup_rows d) backupID of
            Some b \<Rightarrow>
              if bu_ServerID b = serverID \<and> bu_Status b = ''deleting''
              then Inr ((''deleting'', if bu_FailureCode b = None then ''ready'' else ''failed''), d)
              else Inl (NewProblem ''BACKUP_STATE_CONFLICT'' False)
          | None \<Rightarrow> Inl (NewProblem ''BACKUP_STATE_CONFLICT'' False))
      else ret (''creating'', ''failed''))"

definition compensate_row :: "string \<Rightarrow> string \<Rightarrow> backup_row \<Rightarrow> backup_row" where
  "compensate_row status failureCode b =
     b\<lparr>bu_Status := status,
       bu_CompletedAt := (if status = ''failed'' then None else bu_CompletedAt b),
       bu_FailureCode := Some (fst (backupFailureDetails failureCode)),
       bu_FailureMessage := Some (snd (backupFailureDetails failureCode))\<rparr>"

definition compensateBackupTaskTx :: "task_codec \<Rightarrow> pg \<Rightarrow> string \<Rightarrow> string \<Rightarrow> string \<Rightarrow> string \<Rightarrow> unit tx" where
  "compensateBackupTaskTx C e taskType checkpoint serverID failureCode =
     (if taskType \<noteq> ''backup'' \<and> taskType \<noteq> ''restore'' \<and> taskType \<noteq> ''backup-delete'' then ret ()
      else
        (case backup_payload_in C checkpoint of
           None \<Rightarrow> ret ()
         | Some payload \<Rightarrow>
             if bp_BackupID payload = [] then ret ()
             else
               andThen (compensated_status e taskType (bp_BackupID payload) serverID) (\<lambda>(expectedStatus, status).
               andThen (stmt e UpdateBackup (update_backup (bp_BackupID payload)
                   (\<lambda>b. bu_ServerID b = serverID \<and> bu_Status b = expectedStatus)
                   (compensate_row status failureCode)))
                 (\<lambda>affected. require (requireBackupTransition affected expectedStatus status)))))"

end
