(* ===== verification/Task_Completion.thy ===== *)
theory Task_Completion
  imports Task_Leases
begin

text \<open>
  The end of a task (\<^verbatim>\<open>CompleteTask\<close> and \<^verbatim>\<open>ReconcileTaskLeases\<close> of
  \<^verbatim>\<open>internal/store/postgres_tasks.go\<close>): the terminal state, its event and audit, and what the result
  means for the server, the backup and the bundle history, all in one transaction.
\<close>

section \<open>The consequences of a result\<close>

definition settle_server :: "pg \<Rightarrow> bool \<Rightarrow> task_row \<Rightarrow> unit tx" where
  "settle_server e succeeded t =
     (if succeeded \<and> st_TaskType t = ''provision'' then
        andThen (stmt e UpdateServer (update_server (st_ServerID t) (\<lambda>s. sv_DeletedAt s = None)
          (\<lambda>s. s\<lparr>sv_LifecycleState := ''ready'', sv_UpdatedAt := pg_now e\<rparr>))) (\<lambda>_. ret ())
      else ret ())"

text \<open>
  The fields of the result of a backup: it has been validated, so that it decodes; the zero value
  stands for a text that does not.
\<close>

definition result_fields :: "task_codec \<Rightarrow> string \<Rightarrow> backup_result" where
  "result_fields C resultJSON =
     (case backup_result_in C resultJSON of
        Some res \<Rightarrow> res
      | None \<Rightarrow> \<lparr>br_BackupID = [], br_Checksum = [], br_ManifestDigest = [], br_SizeBytes = None,
                  br_StorageLocation = []\<rparr>)"

definition backup_created :: "pg \<Rightarrow> backup_result \<Rightarrow> backup_row \<Rightarrow> backup_row" where
  "backup_created e res b =
     b\<lparr>bu_Status := ''ready'', bu_ContentDigest := (if br_Checksum res = [] then None else Some (br_Checksum res)),
       bu_SizeBytes := br_SizeBytes res, bu_StorageLocation := Some (br_StorageLocation res),
       bu_ManifestDigest := Some (br_ManifestDigest res), bu_CompletedAt := Some (pg_now e),
       bu_FailureCode := None, bu_FailureMessage := None\<rparr>"

definition server_restored :: "int \<Rightarrow> gotime \<Rightarrow> server_row \<Rightarrow> server_row" where
  "server_restored generation now s =
     s\<lparr>sv_DesiredPower := ''stopped'', sv_ObservedPower := ''stopped'', sv_HealthCondition := ''unknown'',
       sv_ObservedGeneration := generation, sv_ObservedAt := now, sv_UpdatedAt := now\<rparr>"

text \<open>
  The tombstone of the remote object of a deleted backup, unless a backup that is not deleted still
  refers to the object.
\<close>

definition insert_tombstone :: "pg \<Rightarrow> string \<Rightarrow> unit tx" where
  "insert_tombstone e backupID = change (\<lambda>d.
     case mget (backup_rows d) backupID of
       None \<Rightarrow> d
     | Some b \<Rightarrow>
         (case bu_ObjectManifestID b of
            None \<Rightarrow> d
          | Some object \<Rightarrow>
              if matching (\<lambda>live. bu_ObjectManifestID live = Some object \<and> bu_Status live \<noteq> ''deleted'') (backup_rows d) \<noteq> []
              then d
              else d\<lparr>object_tombstones := mput object
                \<lparr>ts_Status = (case mget (object_tombstones d) object of
                    None \<Rightarrow> ''pending''
                  | Some t \<Rightarrow> if ts_Status t = ''completed'' then ''pending'' else ts_Status t),
                 ts_UpdatedAt = pg_now e\<rparr> (object_tombstones d)\<rparr>))"

definition settle_created :: "task_codec \<Rightarrow> pg \<Rightarrow> task_row \<Rightarrow> string \<Rightarrow> string \<Rightarrow> unit tx" where
  "settle_created C e t payload resultJSON =
     (if resultJSON = [] \<or> backup_id_in C payload = [] then ret ()
      else
        andThen (stmt e UpdateBackup (update_backup (backup_id_in C payload)
            (\<lambda>b. bu_ServerID b = st_ServerID t \<and> bu_Status b = ''creating'')
            (backup_created e (result_fields C resultJSON))))
          (\<lambda>affected. require (requireBackupTransition affected ''creating'' ''ready'')))"

definition settle_restored :: "task_codec \<Rightarrow> pg \<Rightarrow> task_row \<Rightarrow> string \<Rightarrow> unit tx" where
  "settle_restored C e t payload =
     (if backup_id_in C payload = [] then ret ()
      else
        andThen (stmt e UpdateBackup (update_backup (backup_id_in C payload)
            (\<lambda>b. bu_ServerID b = st_ServerID t \<and> bu_Status b = ''restoring'')
            (\<lambda>b. b\<lparr>bu_Status := ''ready'', bu_FailureCode := None, bu_FailureMessage := None\<rparr>)))
          (\<lambda>affected.
        andThen (require (requireBackupTransition affected ''restoring'' ''ready'')) (\<lambda>_.
        andThen (stmt e UpdateServer (update_server (st_ServerID t)
            (\<lambda>s. sv_DeletedAt s = None \<and> sv_Generation s = st_Generation t)
            (server_restored (st_Generation t) (pg_clock e)))) (\<lambda>servers.
          require (requireSingleRow servers ''SERVER_STATE_CONFLICT'')))))"

definition settle_deleted :: "task_codec \<Rightarrow> pg \<Rightarrow> task_row \<Rightarrow> string \<Rightarrow> unit tx" where
  "settle_deleted C e t payload =
     (let backupID = backup_id_in C payload in
      if backupID = [] then ret ()
      else
        andThen (stmt e UpdateBackup (update_backup backupID
            (\<lambda>b. bu_ServerID b = st_ServerID t \<and> bu_Status b = ''deleting'')
            (\<lambda>b. b\<lparr>bu_Status := ''deleted'', bu_DeletedAt := Some (pg_now e), bu_FailureCode := None,
                   bu_FailureMessage := None\<rparr>))) (\<lambda>affected.
        andThen (require (requireBackupTransition affected ''deleting'' ''deleted'')) (\<lambda>_.
        andThen (stmt e UpdateRemote (update_backup backupID (\<lambda>b. bu_ServerID b = st_ServerID t)
            (\<lambda>b. b\<lparr>bu_RemoteStatus := (if bu_ObjectManifestID b = None then ''deleted'' else ''delete_pending'')\<rparr>)))
          (\<lambda>_. stmt e InsertTombstone (insert_tombstone e backupID)))))"

definition settle_backup ::
  "task_codec \<Rightarrow> pg \<Rightarrow> bool \<Rightarrow> string option \<Rightarrow> task_row \<Rightarrow> string \<Rightarrow> string \<Rightarrow> unit tx" where
  "settle_backup C e succeeded code t payload resultJSON =
     (if succeeded then
        (if st_TaskType t = ''backup'' then settle_created C e t payload resultJSON
         else if st_TaskType t = ''restore'' then settle_restored C e t payload
         else if st_TaskType t = ''backup-delete'' then settle_deleted C e t payload
         else ret ())
      else if st_TaskType t = ''backup'' \<or> st_TaskType t = ''restore'' \<or> st_TaskType t = ''backup-delete'' then
        compensateBackupTaskTx C e (st_TaskType t) payload (st_ServerID t)
          (if coalesce code \<noteq> [] then coalesce code else ''BACKUP_FAILED'')
      else ret ())"

definition set_history :: "pg \<Rightarrow> string \<Rightarrow> string \<Rightarrow> unit tx" where
  "set_history e historyID status = stmt e UpdateHistory (change (\<lambda>d.
     d\<lparr>bundle_history := (case mget (bundle_history d) historyID of
        None \<Rightarrow> bundle_history d
      | Some h \<Rightarrow> mput historyID (h\<lparr>hi_Status := status, hi_CompletedAt := Some (pg_now e)\<rparr>) (bundle_history d))\<rparr>))"

text \<open>The history of an upgrade under way, joined with the version of the bundle it left.\<close>

definition reconciling_history :: "string \<Rightarrow> tables \<Rightarrow> (string \<times> string \<times> string) option" where
  "reconciling_history operationID d =
     (case find (\<lambda>(_, h). hi_OperationID h = operationID \<and> hi_Status h = ''reconciling''
                  \<and> mhas (bundle_versions d) (hi_FromBundleID h)) (bundle_history d) of
        None \<Rightarrow> None
      | Some (historyID, h) \<Rightarrow>
          Some (historyID, hi_FromBundleID h, mget_zero [] (bundle_versions d) (hi_FromBundleID h)))"

definition settle_history :: "pg \<Rightarrow> bool \<Rightarrow> task_row \<Rightarrow> unit tx" where
  "settle_history e succeeded t =
     (if st_TaskType t \<noteq> ''reconcile'' then ret ()
      else
        andThen (stmt e SelectHistory (ask (reconciling_history (st_ID t)))) (\<lambda>found.
          case found of
            None \<Rightarrow> ret ()
          | Some (historyID, fromBundleID, fromGameVersion) \<Rightarrow>
              if succeeded then set_history e historyID ''applied''
              else
                andThen (stmt e UpdateServer (update_server (st_ServerID t)
                    (\<lambda>s. sv_Generation s = st_Generation t)
                    (\<lambda>s. s\<lparr>sv_GameBundleID := fromBundleID, sv_GameVersion := fromGameVersion,
                          sv_UpdatedAt := pg_now e\<rparr>))) (\<lambda>_.
                  set_history e historyID ''rolled-back'')))"

section \<open>CompleteTask\<close>

definition task_payload :: "task_row \<Rightarrow> string" where
  "task_payload t =
     (if coalesce (st_TaskInput t) = [] then coalesce (st_Checkpoint t) else coalesce (st_TaskInput t))"

text \<open>A backup whose result does not hold up counts as failed.\<close>

definition integrity_failed :: "task_codec \<Rightarrow> task_row \<Rightarrow> bool \<Rightarrow> string \<Rightarrow> bool" where
  "integrity_failed C t succeeded resultJSON \<longleftrightarrow>
     succeeded \<and> st_TaskType t = ''backup'' \<and> \<not> validBackupTaskResult C (task_payload t) resultJSON"

text \<open>What follows the terminal update in the same transaction.\<close>

definition task_settled ::
  "task_codec \<Rightarrow> pg \<Rightarrow> TaskLeaseFence \<Rightarrow> bool \<Rightarrow> string option \<Rightarrow> string \<Rightarrow> task_row \<Rightarrow> unit tx" where
  "task_settled C e fence effective code resultJSON t =
     andThen (recordTaskOutboxEvent C e ''task.completed''
       \<lparr>ev_OperationID = fence_OperationID fence, ev_ServerID = st_ServerID t,
        ev_NodeID = fence_NodeID fence, ev_TaskType = st_TaskType t,
        ev_Generation = st_Generation t, ev_Attempt = 0, ev_MaxAttempts = 0,
        ev_Status = (if effective then ''succeeded'' else ''failed''), ev_ErrorCode = coalesce code\<rparr>) (\<lambda>_.
     andThen (settle_server e effective t) (\<lambda>_.
     andThen (settle_backup C e effective code t (task_payload t) resultJSON) (\<lambda>_.
     andThen (settle_history e effective t) (\<lambda>_.
     andThen (insert_audit e
       \<lparr>au_ActorID = None, au_ActorType = ''agent'', au_Action = ''task.complete'',
        au_TargetType = ''server'', au_TargetID = st_ServerID t,
        au_Result = (if effective then ''success'' else ''failure''),
        au_OperationID = fence_OperationID fence\<rparr>) (\<lambda>_.
     commit e ())))))"

definition complete_row ::
  "task_codec \<Rightarrow> pg \<Rightarrow> TaskLeaseFence \<Rightarrow> bool \<Rightarrow> string option \<Rightarrow> string \<Rightarrow> task_row \<Rightarrow> unit tx" where
  "complete_row C e fence succeeded errCode resultJSON t =
     (if st_Status t = ''succeeded'' \<or> st_Status t = ''failed'' then ret ()
      else
        (let invalid = integrity_failed C t succeeded resultJSON;
             effective = (succeeded \<and> \<not> invalid);
             code = (if invalid then Some ''BACKUP_INTEGRITY_FAILED'' else errCode)
         in
           andThen (stmt e UpdateTask (update_tasks
               (\<lambda>q. st_ID q = fence_OperationID fence \<and> st_NodeID q = fence_NodeID fence \<and> lease_held q)
               (\<lambda>q. end_task (if effective then ''succeeded'' else ''failed'') code (st_ErrorRetryable q) (pg_clock e) q)))
             (\<lambda>rows. if rows = [] then ret () else task_settled C e fence effective code resultJSON t)))"

definition CompleteTask ::
  "task_codec \<Rightarrow> pg \<Rightarrow> TaskLeaseFence \<Rightarrow> bool \<Rightarrow> string option \<Rightarrow> string \<Rightarrow> tables \<Rightarrow> unit result \<times> tables" where
  "CompleteTask C e fence succeeded errCode resultJSON =
     transaction e (fenced e fence (complete_row C e fence succeeded errCode resultJSON))"

section \<open>Expired leases\<close>

definition lease_expired :: "gotime \<Rightarrow> task_row \<Rightarrow> bool" where
  "lease_expired now r \<longleftrightarrow> st_Status r = ''leased''
     \<and> (case st_LeaseExpiresAt r of None \<Rightarrow> False | Some t \<Rightarrow> t < now)"

definition requeue_task :: "pg \<Rightarrow> task_row \<Rightarrow> task_row" where
  "requeue_task e r =
     r\<lparr>st_Status := ''queued'', st_LeaseOwner := None, st_LeaseExpiresAt := None,
       st_LeaseRenewedAt := None, st_LeaseToken := None, st_StateVersion := st_StateVersion r + 1,
       st_UpdatedAt := pg_now e\<rparr>"

definition expire_task :: "pg \<Rightarrow> task_row \<Rightarrow> task_row" where
  "expire_task e = end_task ''failed'' (Some ''MAX_ATTEMPTS'') (Some False) (pg_now e)"

text \<open>The loop over the tasks that used up their attempts.\<close>

fun expire_each :: "task_codec \<Rightarrow> pg \<Rightarrow> task_row list \<Rightarrow> unit tx" where
  "expire_each C e [] = ret ()"
| "expire_each C e (t # rest) =
     andThen (compensateBackupTaskTx C e (st_TaskType t) (task_payload t) (st_ServerID t) ''MAX_ATTEMPTS'') (\<lambda>_.
     andThen (recordTaskOutboxEvent C e ''task.completed''
       \<lparr>ev_OperationID = st_ID t, ev_ServerID = st_ServerID t, ev_NodeID = [], ev_TaskType = st_TaskType t,
        ev_Generation = 0, ev_Attempt = 0, ev_MaxAttempts = 0, ev_Status = ''failed'',
        ev_ErrorCode = ''MAX_ATTEMPTS''\<rparr>) (\<lambda>_.
     andThen (insert_audit e
       \<lparr>au_ActorID = None, au_ActorType = ''system'', au_Action = ''task.expired'', au_TargetType = ''server'',
        au_TargetID = st_ServerID t, au_Result = ''failure'', au_OperationID = st_ID t\<rparr>) (\<lambda>_.
     expire_each C e rest)))"

definition fail_expired :: "task_codec \<Rightarrow> pg \<Rightarrow> gotime \<Rightarrow> tables \<Rightarrow> unit result \<times> tables" where
  "fail_expired C e now = transaction e
     (andThen (stmt e FailExpired (update_tasks
         (\<lambda>r. lease_expired now r \<and> st_MaxAttempts r \<le> st_Attempt r) (expire_task e))) (\<lambda>expired.
      andThen (expire_each C e expired) (\<lambda>_. commit e ())))"

definition requeue_expired :: "pg \<Rightarrow> gotime \<Rightarrow> tables \<Rightarrow> tables" where
  "requeue_expired e now d =
     d\<lparr>server_tasks := updated (\<lambda>r. lease_expired now r \<and> st_Attempt r < st_MaxAttempts r) (requeue_task e)
        (server_tasks d)\<rparr>"

definition ReconcileTaskLeases :: "task_codec \<Rightarrow> pg \<Rightarrow> gotime \<Rightarrow> tables \<Rightarrow> tables" where
  "ReconcileTaskLeases C e now d =
     (if pg_fails e RequeueExpired then d
      else snd (fail_expired C e now (requeue_expired e now d)))"

end
