(* ===== verification/Agent_Frames.thy ===== *)
theory Agent_Frames
  imports Task_Completion "HOL-Library.Word"
begin

text \<open>
  The frames of a connected agent that concern tasks (\<^verbatim>\<open>internal/agentrpc/connect.go\<close>, with the types
  of \<^verbatim>\<open>api/proto/gugumanager/agent/v1/agent.proto\<close>): each handler builds the fence from the frame and
  from the node of the connection, which the certificate has established, and calls the store. The
  answer of the store is only logged.
\<close>

record frame_fence =
  fr_OperationID :: string
  fr_Attempt :: "32 word"
  fr_ConnectionEpoch :: "64 word"
  fr_LeaseToken :: string

datatype frame =
    TaskAck frame_fence bool string
  | TaskProgress frame_fence "32 word" string
  | RunningTaskHeartbeat frame_fence
  | TaskResult frame_fence bool string string

text \<open>\<^verbatim>\<open>int64(epoch)\<close> reinterprets the 64 bits, \<^verbatim>\<open>int(attempt)\<close> keeps the value.\<close>

definition frame_lease :: "string \<Rightarrow> frame_fence \<Rightarrow> TaskLeaseFence" where
  "frame_lease nodeID f =
     \<lparr>fence_OperationID = fr_OperationID f, fence_NodeID = nodeID, fence_Epoch = sint (fr_ConnectionEpoch f),
      fence_Attempt = uint (fr_Attempt f), fence_LeaseToken = fr_LeaseToken f\<rparr>"

definition handleTaskAck :: "pg \<Rightarrow> string \<Rightarrow> frame_fence \<Rightarrow> bool \<Rightarrow> string \<Rightarrow> tables \<Rightarrow> tables" where
  "handleTaskAck e nodeID f accepted errorCode d =
     (if fr_OperationID f = [] then d else snd (AckTask e (frame_lease nodeID f) accepted errorCode d))"

definition handleTaskProgress ::
  "task_codec \<Rightarrow> pg \<Rightarrow> string \<Rightarrow> frame_fence \<Rightarrow> 32 word \<Rightarrow> string \<Rightarrow> tables \<Rightarrow> tables" where
  "handleTaskProgress C e nodeID f percent checkpoint d =
     (if fr_OperationID f = [] then d
      else snd (ReportTaskProgress C e (frame_lease nodeID f) (uint percent) checkpoint d))"

definition handleRunningTaskHeartbeat :: "pg \<Rightarrow> string \<Rightarrow> frame_fence \<Rightarrow> tables \<Rightarrow> tables" where
  "handleRunningTaskHeartbeat e nodeID f d =
     (if fr_OperationID f = [] then d else snd (RenewTaskLease e (frame_lease nodeID f) d))"

definition handleTaskResult ::
  "task_codec \<Rightarrow> pg \<Rightarrow> string \<Rightarrow> frame_fence \<Rightarrow> bool \<Rightarrow> string \<Rightarrow> string \<Rightarrow> tables \<Rightarrow> tables" where
  "handleTaskResult C e nodeID f succeeded errorCode resultJSON d =
     (if fr_OperationID f = [] then d
      else snd (CompleteTask C e (frame_lease nodeID f) succeeded
             (if errorCode = [] then None else Some errorCode) resultJSON d))"

definition receive :: "task_codec \<Rightarrow> pg \<Rightarrow> string \<Rightarrow> frame \<Rightarrow> tables \<Rightarrow> tables" where
  "receive C e nodeID frame =
     (case frame of
        TaskAck f accepted code \<Rightarrow> handleTaskAck e nodeID f accepted code
      | TaskProgress f percent checkpoint \<Rightarrow> handleTaskProgress C e nodeID f percent checkpoint
      | RunningTaskHeartbeat f \<Rightarrow> handleRunningTaskHeartbeat e nodeID f
      | TaskResult f succeeded code json \<Rightarrow> handleTaskResult C e nodeID f succeeded code json)"

fun frame_fence_of :: "frame \<Rightarrow> frame_fence" where
  "frame_fence_of (TaskAck f _ _) = f"
| "frame_fence_of (TaskProgress f _ _) = f"
| "frame_fence_of (RunningTaskHeartbeat f) = f"
| "frame_fence_of (TaskResult f _ _ _) = f"

section \<open>Connection epochs\<close>

text \<open>Every connection of a node gets the next number, from 1 when the process starts.\<close>

definition nextConnectionEpoch :: "string \<Rightarrow> (string, int) gomap \<Rightarrow> int \<times> (string, int) gomap" where
  "nextConnectionEpoch nodeID epochs =
     (let epoch = wrap64 (mget_zero 0 epochs nodeID + 1) in (epoch, mput nodeID epoch epochs))"

end
