(* ===== verification/Agent_Tasks.thy ===== *)
theory Agent_Tasks
  imports Agent_Journal Agent_Frames
begin

text \<open>
  How the agent carries out tasks (\<^verbatim>\<open>internal/agent/agent.go\<close>): a bounded pool of workers takes tasks
  from a channel; \<^verbatim>\<open>executeTask\<close> consults the journal, registers the operation, takes the lock of
  the server, executes, records the outcome and reports it. A worker is a program counter (\<open>stage\<close>)
  with its task; each step of \<open>worker_step\<close> is the code between two points where another worker can
  interfere: a transaction of the journal, a critical section of a mutex, a wait. Frames are logged
  when \<^verbatim>\<open>Send\<close> is called; that it fails is only logged by the code as well.
\<close>

section \<open>Tasks\<close>

text \<open>
  \<open>Typed text\<close> is a payload message with its \<^verbatim>\<open>protojson\<close> text, \<^verbatim>\<open>None\<close> when it cannot be encoded.
\<close>

datatype agent_payload = Typed "string option" | PayloadJson string

record agent_task =
  tk_OperationID :: string
  tk_ServerID :: string
  tk_Type :: string
  tk_Generation :: "64 word"
  tk_Attempt :: "32 word"
  tk_LeaseToken :: string
  tk_ConnectionEpoch :: "64 word"
  tk_Payload :: "agent_payload option"

text \<open>\<open>al_decodes\<close>: the text decodes as a \<^verbatim>\<open>ServerObserved\<close>.\<close>

record agent_lib =
  al_sha256 :: "string \<Rightarrow> string"
  al_decodes :: "string \<Rightarrow> bool"

definition taskPayloadDigest :: "agent_lib \<Rightarrow> agent_task \<Rightarrow> string" where
  "taskPayloadDigest L task =
     hex_encode (al_sha256 L (tk_Type task @ [CHR 0x0A] @ FormatInt (uint (tk_Generation task)) @ [CHR 0x0A] @
       (case tk_Payload task of
          None \<Rightarrow> []
        | Some (Typed encoded) \<Rightarrow> (case encoded of None \<Rightarrow> [] | Some text \<Rightarrow> text)
        | Some (PayloadJson raw) \<Rightarrow> raw)))"

datatype agent_frame =
    AckFrame frame_fence bool string
  | HeartbeatFrame frame_fence
  | ResultFrame frame_fence bool string bool string
  | ObservedFrame string

definition task_fence :: "agent_task \<Rightarrow> frame_fence" where
  "task_fence task =
     \<lparr>fr_OperationID = tk_OperationID task, fr_Attempt = tk_Attempt task,
      fr_ConnectionEpoch = tk_ConnectionEpoch task, fr_LeaseToken = tk_LeaseToken task\<rparr>"

record outcome =
  oc_Succeeded :: bool
  oc_ErrorCode :: string
  oc_Retryable :: bool
  oc_ResultJSON :: string
  oc_Observed :: "string option"

section \<open>The agent\<close>

datatype stage =
    Fresh | Registering | Recording | Locking | Executing | Completing outcome | Publishing outcome
  | Replying outcome | Unlocking | Unregistering | Awaiting | Waiting nat | Checking | Recovering

datatype agent_event = Sent agent_frame | Executed string nat

text \<open>
  An execution is known by the number of the worker that registered it; \<open>ag_results\<close> are the results
  of closed executions. \<open>ag_locks\<close> says which worker holds the lock of a server.
\<close>

record agent =
  ag_journal :: journal_db
  ag_inflight :: "(string, nat) gomap"
  ag_results :: "(nat, inflightResult) gomap"
  ag_locks :: "(string, nat) gomap"
  ag_workers :: "(nat, agent_task \<times> stage) gomap"
  ag_queue :: "agent_task list"
  ag_next :: nat
  ag_log :: "agent_event list"

text \<open>
  What a step meets: the disk, whether the secrets resolve, what the executor returns (\<^verbatim>\<open>None\<close> for an
  error or a nil outcome), whether a send succeeds, and whether the session has been cancelled.
\<close>

record agent_env =
  ae_disk :: disk
  ae_secrets :: bool
  ae_outcome :: "outcome option"
  ae_sent :: bool
  ae_cancelled :: bool

definition log_frames :: "agent_frame list \<Rightarrow> agent \<Rightarrow> agent" where
  "log_frames frames a = a\<lparr>ag_log := ag_log a @ map Sent frames\<rparr>"

definition sendAck :: "agent_task \<Rightarrow> bool \<Rightarrow> string \<Rightarrow> agent \<Rightarrow> agent" where
  "sendAck task accepted code = log_frames [AckFrame (task_fence task) accepted code]"

definition observed_frames :: "agent_lib \<Rightarrow> string \<Rightarrow> agent_frame list" where
  "observed_frames L observed = (if observed \<noteq> [] \<and> al_decodes L observed then [ObservedFrame observed] else [])"

definition replayJournalResult :: "agent_lib \<Rightarrow> agent_env \<Rightarrow> agent_task \<Rightarrow> journalEntry \<Rightarrow> agent \<Rightarrow> agent" where
  "replayJournalResult L e task entry =
     (let succeeded = (je_Status entry = ''succeeded'');
          errorCode = (if succeeded then [] else if je_ErrorCode entry = [] then ''OPERATION_FAILED'' else je_ErrorCode entry)
      in log_frames (ResultFrame (task_fence task) succeeded errorCode (je_Retryable entry) (je_ResultJSON entry)
           # (if ae_sent e then observed_frames L (je_Observed entry) else [])))"

definition sendTaskResult :: "agent_task \<Rightarrow> bool \<Rightarrow> string \<Rightarrow> bool \<Rightarrow> string \<Rightarrow> agent \<Rightarrow> agent" where
  "sendTaskResult task succeeded errorCode retryable resultJSON =
     log_frames [ResultFrame (task_fence task) succeeded
       (if \<not> succeeded \<and> errorCode = [] then ''OPERATION_FAILED'' else errorCode) retryable resultJSON]"

definition terminal_status :: "journalEntry \<Rightarrow> bool" where
  "terminal_status entry \<longleftrightarrow> je_Status entry = ''succeeded'' \<or> je_Status entry = ''failed''"

definition result_of :: "outcome \<Rightarrow> inflightResult" where
  "result_of oc =
     \<lparr>ir_succeeded = oc_Succeeded oc, ir_errorCode = oc_ErrorCode oc, ir_retryable = oc_Retryable oc,
      ir_resultJSON = oc_ResultJSON oc, ir_observed = (case oc_Observed oc of None \<Rightarrow> [] | Some text \<Rightarrow> text)\<rparr>"

definition failed_outcome :: "string \<Rightarrow> outcome" where
  "failed_outcome code =
     \<lparr>oc_Succeeded = False, oc_ErrorCode = code, oc_Retryable = True, oc_ResultJSON = [], oc_Observed = None\<rparr>"

definition recoveryCode :: string where
  "recoveryCode = ''AGENT_RESTARTED_DURING_OPERATION''"

definition recovery_result :: inflightResult where
  "recovery_result =
     \<lparr>ir_succeeded = False, ir_errorCode = recoveryCode, ir_retryable = False,
      ir_resultJSON = ''{\"code\":\"AGENT_RESTARTED_DURING_OPERATION\"}'', ir_observed = []\<rparr>"

text \<open>The first step of \<^verbatim>\<open>executeTask\<close>: what the journal knows of the operation.\<close>

definition consult_journal :: "agent_lib \<Rightarrow> agent_env \<Rightarrow> agent_task \<Rightarrow> agent \<Rightarrow> stage option \<times> agent" where
  "consult_journal L e task a =
     (case journal_lookup (ae_disk e) (tk_OperationID task) (ag_journal a) of
        Inl _ \<Rightarrow> (Some Registering, a)
      | Inr None \<Rightarrow> (Some Registering, a)
      | Inr (Some entry) \<Rightarrow>
          if je_Digest entry \<noteq> taskPayloadDigest L task then (None, sendAck task False ''OPERATION_DIGEST_MISMATCH'' a)
          else if terminal_status entry then (None, replayJournalResult L e task entry (sendAck task True [] a))
          else (Some Awaiting, sendAck task True [] a))"

definition registerInflight :: "nat \<Rightarrow> agent_task \<Rightarrow> agent \<Rightarrow> stage option \<times> agent" where
  "registerInflight w task a =
     (if mhas (ag_inflight a) (tk_OperationID task) then (Some Awaiting, sendAck task True [] a)
      else (Some Recording, a\<lparr>ag_inflight := mput (tk_OperationID task) w (ag_inflight a)\<rparr>))"

definition record_running :: "agent_lib \<Rightarrow> agent_env \<Rightarrow> agent_task \<Rightarrow> agent \<Rightarrow> stage option \<times> agent" where
  "record_running L e task a =
     (case RecordRunning (ae_disk e) (tk_OperationID task) (taskPayloadDigest L task) (tk_Attempt task) (ag_journal a) of
        (err, db) \<Rightarrow>
          if err = Some ErrJournalDigestMismatch
          then (Some Unregistering, sendAck task False ''OPERATION_DIGEST_MISMATCH'' (a\<lparr>ag_journal := db\<rparr>))
          else (Some Locking, sendAck task True [] (a\<lparr>ag_journal := db\<rparr>)))"

definition execute :: "agent_env \<Rightarrow> nat \<Rightarrow> agent_task \<Rightarrow> agent \<Rightarrow> stage option \<times> agent" where
  "execute e w task a =
     (if \<not> ae_secrets e then (Some (Completing (failed_outcome ''SECRET_HANDLE_FAILED'')), a)
      else (Some (Completing (case ae_outcome e of None \<Rightarrow> failed_outcome ''EXECUTION_ERROR'' | Some oc \<Rightarrow> oc)),
            a\<lparr>ag_log := ag_log a @ [Executed (tk_OperationID task) w]\<rparr>))"

definition reply :: "agent_task \<Rightarrow> outcome \<Rightarrow> agent \<Rightarrow> agent" where
  "reply task oc =
     log_frames (ResultFrame (task_fence task) (oc_Succeeded oc) (oc_ErrorCode oc) (oc_Retryable oc) (oc_ResultJSON oc)
       # (case oc_Observed oc of None \<Rightarrow> [] | Some text \<Rightarrow> [ObservedFrame text]))"

text \<open>\<^verbatim>\<open>awaitInflight\<close> after the registration has gone: the journal decides.\<close>

definition check_journal :: "agent_lib \<Rightarrow> agent_env \<Rightarrow> agent_task \<Rightarrow> agent \<Rightarrow> stage option \<times> agent" where
  "check_journal L e task a =
     (case journal_lookup (ae_disk e) (tk_OperationID task) (ag_journal a) of
        Inr (Some entry) \<Rightarrow>
          if je_Digest entry \<noteq> taskPayloadDigest L task then (None, a)
          else if terminal_status entry then (None, replayJournalResult L e task entry a)
          else (Some Recovering, a)
      | _ \<Rightarrow> (None, a))"

text \<open>
  One step of worker \<open>w\<close>: \<^verbatim>\<open>None\<close> when it has to wait, otherwise where it goes (\<^verbatim>\<open>None\<close> when
  \<^verbatim>\<open>executeTask\<close> returns) and the agent after it.
\<close>

fun worker_step :: "agent_lib \<Rightarrow> agent_env \<Rightarrow> nat \<Rightarrow> agent_task \<Rightarrow> stage \<Rightarrow> agent \<Rightarrow> (stage option \<times> agent) option" where
  "worker_step L e w task Fresh a = Some (consult_journal L e task a)"
| "worker_step L e w task Registering a = Some (registerInflight w task a)"
| "worker_step L e w task Recording a = Some (record_running L e task a)"
| "worker_step L e w task Locking a =
     (if mhas (ag_locks a) (tk_ServerID task) then None
      else Some (Some Executing, a\<lparr>ag_locks := mput (tk_ServerID task) w (ag_locks a)\<rparr>))"
| "worker_step L e w task Executing a = Some (execute e w task a)"
| "worker_step L e w task (Completing oc) a =
     Some (Some (Publishing oc), a\<lparr>ag_journal := snd (journal_complete (ae_disk e) (tk_OperationID task)
       (taskPayloadDigest L task) (tk_Attempt task) [] (result_of oc) (ag_journal a))\<rparr>)"
| "worker_step L e w task (Publishing oc) a =
     Some (Some (Replying oc), a\<lparr>ag_results := mput w (result_of oc) (ag_results a)\<rparr>)"
| "worker_step L e w task (Replying oc) a = Some (Some Unlocking, reply task oc a)"
| "worker_step L e w task Unlocking a =
     Some (Some Unregistering, a\<lparr>ag_locks := mdel (tk_ServerID task) (ag_locks a)\<rparr>)"
| "worker_step L e w task Unregistering a =
     Some (None, a\<lparr>ag_inflight := mdel (tk_OperationID task) (ag_inflight a)\<rparr>)"
| "worker_step L e w task Awaiting a =
     Some (case mget (ag_inflight a) (tk_OperationID task) of
             None \<Rightarrow> (Some Checking, a)
           | Some x \<Rightarrow> (Some (Waiting x), a))"
| "worker_step L e w task (Waiting x) a =
     (if ae_cancelled e then Some (None, a)
      else
        (case mget (ag_results a) x of
           None \<Rightarrow> None
         | Some r \<Rightarrow>
             Some (None, log_frames (observed_frames L (ir_observed r))
               (sendTaskResult task (ir_succeeded r) (ir_errorCode r) (ir_retryable r) (ir_resultJSON r) a))))"
| "worker_step L e w task Checking a = Some (check_journal L e task a)"
| "worker_step L e w task Recovering a =
     Some (None, sendTaskResult task False recoveryCode False (ir_resultJSON recovery_result)
       (a\<lparr>ag_journal := snd (journal_complete (ae_disk e) (tk_OperationID task) (taskPayloadDigest L task)
          (tk_Attempt task) ''failed'' recovery_result (ag_journal a))\<rparr>))"

text \<open>The stages between the lock of the server and its release, and those with a registration.\<close>

fun holds_lock :: "stage \<Rightarrow> bool" where
  "holds_lock Executing = True"
| "holds_lock (Completing _) = True"
| "holds_lock (Publishing _) = True"
| "holds_lock (Replying _) = True"
| "holds_lock Unlocking = True"
| "holds_lock _ = False"

fun registered :: "stage \<Rightarrow> bool" where
  "registered Recording = True"
| "registered Locking = True"
| "registered Unregistering = True"
| "registered s = holds_lock s"

definition move_worker :: "nat \<Rightarrow> agent_task \<Rightarrow> stage option \<Rightarrow> agent \<Rightarrow> agent" where
  "move_worker w task next a =
     (case next of
        None \<Rightarrow> a\<lparr>ag_workers := mdel w (ag_workers a)\<rparr>
      | Some s \<Rightarrow> a\<lparr>ag_workers := mput w (task, s) (ag_workers a)\<rparr>)"

text \<open>The pool has as many workers as the control plane asks for, from one to eight.\<close>

definition worker_count :: "32 word \<Rightarrow> nat" where
  "worker_count maxInFlight = (if unat maxInFlight = 0 then 1 else if 8 < unat maxInFlight then 8 else unat maxInFlight)"

text \<open>
  The agent under all interleavings: \<open>P\<close> restricts what the steps may meet. A session ends when its
  workers have returned; a restart loses everything but the journal.
\<close>

inductive agent_step :: "agent_lib \<Rightarrow> nat \<Rightarrow> (agent_env \<Rightarrow> bool) \<Rightarrow> agent \<Rightarrow> agent \<Rightarrow> bool" for L pool P where
  receive: "length (ag_queue a) < 2 * pool \<Longrightarrow> agent_step L pool P a (a\<lparr>ag_queue := ag_queue a @ [task]\<rparr>)"
| take: "ag_queue a = task # queue \<Longrightarrow> length (ag_workers a) < pool \<Longrightarrow>
    agent_step L pool P a (a\<lparr>ag_queue := queue, ag_workers := mput (ag_next a) (task, Fresh) (ag_workers a),
      ag_next := Suc (ag_next a)\<rparr>)"
| work: "mget (ag_workers a) w = Some (task, s) \<Longrightarrow> P e \<Longrightarrow> worker_step L e w task s a = Some (next, a') \<Longrightarrow>
    agent_step L pool P a (move_worker w task next a')"
| heartbeat: "mget (ag_workers a) w = Some (task, s) \<Longrightarrow> holds_lock s \<Longrightarrow> tk_LeaseToken task \<noteq> [] \<Longrightarrow>
    agent_step L pool P a (log_frames [HeartbeatFrame (task_fence task)] a)"
| session: "ag_workers a = [] \<Longrightarrow> agent_step L pool P a (a\<lparr>ag_queue := []\<rparr>)"
| restart: "agent_step L pool P a (a\<lparr>ag_journal := OpenOperationJournal (ag_journal a), ag_inflight := [],
    ag_results := [], ag_locks := [], ag_workers := [], ag_queue := []\<rparr>)"

definition new_agent :: "journal_db \<Rightarrow> agent" where
  "new_agent db =
     \<lparr>ag_journal = OpenOperationJournal db, ag_inflight = [], ag_results = [], ag_locks = [], ag_workers = [],
      ag_queue = [], ag_next = 0, ag_log = []\<rparr>"

end
