(* ===== verification/Task_Facts.thy ===== *)
theory Task_Facts
  imports Agent_Frames
begin

text \<open>
  What the operations on tasks do, as facts for the invariants: transactions by the preorders they
  stay in (\<open>tx_rel\<close>), messages by their effect on the one row their fence names, claims by the row
  they lease and the handles they create.
\<close>

section \<open>Transactions\<close>

text \<open>A relation between the tables before and after every successful run of a transaction body.\<close>

definition tx_rel :: "(tables \<Rightarrow> tables \<Rightarrow> bool) \<Rightarrow> 'a tx \<Rightarrow> bool" where
  "tx_rel R m \<longleftrightarrow> (\<forall>d x d'. m d = Inr (x, d') \<longrightarrow> R d d')"

named_theorems tx_rels \<open>bodies whose runs stay in a preorder\<close>

lemma tx_relI: "(\<And>d x d'. m d = Inr (x, d') \<Longrightarrow> R d d') \<Longrightarrow> tx_rel R m"
  by (simp add: tx_rel_def)

lemma tx_relD: "tx_rel R m \<Longrightarrow> m d = Inr (x, d') \<Longrightarrow> R d d'"
  by (simp add: tx_rel_def)

lemma tx_rel_ret [tx_rels]: "reflp R \<Longrightarrow> tx_rel R (ret x)"
  by (simp add: tx_rel_def ret_def reflp_def)

lemma tx_rel_fail [tx_rels]: "tx_rel R (fail err)"
  by (simp add: tx_rel_def fail_def)

lemma tx_rel_stmt [tx_rels]: "tx_rel R m \<Longrightarrow> tx_rel R (stmt e s m)"
  by (simp add: tx_rel_def stmt_def)

lemma tx_rel_commit [tx_rels]: "reflp R \<Longrightarrow> tx_rel R (commit e x)"
  by (simp add: commit_def tx_rels)

lemma tx_rel_ask [tx_rels]: "reflp R \<Longrightarrow> tx_rel R (ask f)"
  by (simp add: tx_rel_def ask_def reflp_def)

lemma tx_rel_change: "(\<And>d. R d (f d)) \<Longrightarrow> tx_rel R (change f)"
  by (simp add: tx_rel_def change_def)

lemma tx_rel_with_error [tx_rels]: "tx_rel R m \<Longrightarrow> tx_rel R (with_error err m)"
  by (auto simp: tx_rel_def with_error_def split: sum.splits)

lemma tx_rel_andThen:
  assumes "transp R" "tx_rel R m" "\<And>x. tx_rel R (f x)"
  shows "tx_rel R (andThen m f)"
  using assms unfolding tx_rel_def andThen_def transp_def by (auto split: sum.splits) blast

lemma tx_rel_require [tx_rels]: "reflp R \<Longrightarrow> tx_rel R (require p)"
  by (cases p) (simp_all add: require_def tx_rels)

lemma transaction_cases:
  assumes "transaction e m d = (res, d')"
  obtains err where "res = Inl err" "d' = d" | x where "m d = Inr (x, d')" "res = Inr x"
  using assms by (auto simp: transaction_def stmt_def split: sum.splits if_splits)

lemma andThen_Inr:
  assumes "andThen m f d = Inr (y, d')"
  obtains x d1 where "m d = Inr (x, d1)" "f x d1 = Inr (y, d')"
  using assms by (auto simp: andThen_def split: sum.splits)

lemma stmt_Inr: "stmt e s m d = Inr (x, d') \<longleftrightarrow> \<not> pg_fails e s \<and> m d = Inr (x, d')"
  by (simp add: stmt_def)

lemma commit_Inr: "commit e x d = Inr (y, d') \<longleftrightarrow> \<not> pg_fails e Commit \<and> y = x \<and> d' = d"
  by (auto simp: commit_def stmt_def ret_def)

lemma ret_Inr: "ret x d = Inr (y, d') \<longleftrightarrow> y = x \<and> d' = d"
  by (auto simp: ret_def)

lemma ask_Inr: "ask f d = Inr (y, d') \<longleftrightarrow> y = f d \<and> d' = d"
  by (auto simp: ask_def)

lemmas tx_Inr = stmt_Inr commit_Inr ret_Inr ask_Inr

section \<open>What leaves the tasks and the secrets alone\<close>

definition same_tasks :: "tables \<Rightarrow> tables \<Rightarrow> bool" where
  "same_tasks d d' \<longleftrightarrow> server_tasks d' = server_tasks d \<and> secret_handles d' = secret_handles d"

lemma same_tasks_order [simp]: "reflp same_tasks" "transp same_tasks"
  by (auto simp: same_tasks_def reflp_def transp_def)

lemmas same_tasks_then = tx_rel_andThen [where R = same_tasks, OF same_tasks_order(2)]

lemma same_tasks_event [tx_rels]: "tx_rel same_tasks (recordTaskOutboxEvent C e ty p)"
  unfolding recordTaskOutboxEvent_def by (rule tx_rel_stmt, rule tx_relI) (auto simp: same_tasks_def split: if_splits)

lemma same_tasks_audit [tx_rels]: "tx_rel same_tasks (insert_audit e row)"
  unfolding insert_audit_def by (rule tx_rel_stmt, rule tx_rel_change) (simp add: same_tasks_def)

lemma same_tasks_backup [tx_rels]: "tx_rel same_tasks (update_backup b p f)"
  unfolding update_backup_def by (rule tx_relI) (auto simp: same_tasks_def split: if_splits option.splits)

lemma same_tasks_server [tx_rels]: "tx_rel same_tasks (update_server s p f)"
  unfolding update_server_def by (rule tx_relI) (auto simp: same_tasks_def split: if_splits option.splits)

lemma same_tasks_tombstone [tx_rels]: "tx_rel same_tasks (insert_tombstone e b)"
  unfolding insert_tombstone_def by (rule tx_rel_change) (simp add: same_tasks_def split: option.splits)

lemma same_tasks_set_history [tx_rels]: "tx_rel same_tasks (set_history e h s)"
  unfolding set_history_def by (rule tx_rel_stmt, rule tx_rel_change) (simp add: same_tasks_def)

lemma same_tasks_status [tx_rels]: "tx_rel same_tasks (compensated_status e ty b s)"
  unfolding compensated_status_def
  by (auto intro!: tx_rels) (auto intro!: tx_relI simp: same_tasks_def split: option.splits if_splits)

lemma same_tasks_compensate [tx_rels]: "tx_rel same_tasks (compensateBackupTaskTx C e ty ck s code)"
  unfolding compensateBackupTaskTx_def by (auto intro!: same_tasks_then tx_rels split: option.splits)

lemma same_tasks_settle_server [tx_rels]: "tx_rel same_tasks (settle_server e ok t)"
  unfolding settle_server_def by (auto intro!: same_tasks_then tx_rels)

lemma same_tasks_settle_backup [tx_rels]: "tx_rel same_tasks (settle_backup C e ok code t p json)"
  unfolding settle_backup_def settle_created_def settle_restored_def settle_deleted_def Let_def
  by (auto intro!: same_tasks_then tx_rels)

lemma same_tasks_settle_history [tx_rels]: "tx_rel same_tasks (settle_history e ok t)"
  unfolding settle_history_def by (auto intro!: same_tasks_then tx_rels split: option.splits)

lemma same_tasks_expire_each [tx_rels]: "tx_rel same_tasks (expire_each C e ts)"
  by (induction ts) (auto intro!: same_tasks_then tx_rels)

lemma same_tasks_startup [tx_rels]: "tx_rel same_tasks (startupValuesTx C e s)"
  unfolding startupValuesTx_def
  by (rule tx_rel_stmt, rule tx_relI) (auto simp: same_tasks_def split: option.splits)

section \<open>Updates of one row\<close>

definition ids_ok :: "(string, task_row) gomap \<Rightarrow> bool" where
  "ids_ok T \<longleftrightarrow> mwf T \<and> (\<forall>(i, r) \<in> set T. st_ID r = i)"

lemma ids_okD: "ids_ok T \<Longrightarrow> mget T i = Some r \<Longrightarrow> st_ID r = i"
  by (auto simp: ids_ok_def dest: mget_in_set)

lemma matching_one:
  assumes "ids_ok T" "mget T i = Some r"
  shows "matching (\<lambda>q. st_ID q = i \<and> p q) T = (if p r then [r] else [])"
  using assms
proof (induction T)
  case (Cons x T)
  obtain k v where x: "x = (k, v)" by (cases x)
  have none: "matching (\<lambda>q. st_ID q = i \<and> p q) T = []" if "i \<notin> fst ` set T" "\<forall>(i, r) \<in> set T. st_ID r = i"
    using that by (force simp: matching_def filter_empty_conv)
  show ?case
  proof (cases "k = i")
    case True
    then have "v = r" "i \<notin> fst ` set T" "st_ID v = i" "\<forall>(i, r) \<in> set T. st_ID r = i"
      using Cons.prems x by (auto simp: ids_ok_def mwf_def)
    then show ?thesis using none x by (simp add: matching_def)
  next
    case False
    then have "ids_ok T" "mget T i = Some r" "st_ID v \<noteq> i"
      using Cons.prems x by (auto simp: ids_ok_def mwf_def)
    then show ?thesis using Cons.IH x by (simp add: matching_def)
  qed
qed simp

lemma updated_one:
  assumes "ids_ok T" "mget T i = Some r"
  shows "updated (\<lambda>q. st_ID q = i \<and> p q) f T = (if p r then mput i (f r) T else T)"
  using assms
proof (induction T)
  case (Cons x T)
  obtain k v where x: "x = (k, v)" by (cases x)
  have same: "updated (\<lambda>q. st_ID q = i \<and> p q) f T = T" if "i \<notin> fst ` set T" "\<forall>(i, r) \<in> set T. st_ID r = i"
    using that by (force simp: updated_def mmap_def intro: map_idI)
  show ?case
  proof (cases "k = i")
    case True
    then have "v = r" "i \<notin> fst ` set T" "st_ID v = i" "\<forall>(i, r) \<in> set T. st_ID r = i"
      using Cons.prems x by (auto simp: ids_ok_def mwf_def)
    then show ?thesis using same x True by (simp add: updated_def mmap_def mput_def)
  next
    case False
    then have "ids_ok T" "mget T i = Some r" "st_ID v \<noteq> i"
      using Cons.prems x by (auto simp: ids_ok_def mwf_def)
    then show ?thesis using Cons.IH x False by (simp add: updated_def mmap_def mput_def)
  qed
qed simp

lemma ids_ok_put: "ids_ok T \<Longrightarrow> st_ID r = i \<Longrightarrow> ids_ok (mput i r T)"
  by (auto simp: ids_ok_def in_mput split: if_splits)

lemma ids_ok_updated: "ids_ok T \<Longrightarrow> (\<And>r. st_ID (f r) = st_ID r) \<Longrightarrow> ids_ok (updated p f T)"
  by (auto simp: ids_ok_def updated_def mmap_def mwf_def split_beta comp_def)

lemma mget_updated: "mget (updated p f T) i = map_option (\<lambda>r. if p r then f r else r) (mget T i)"
  by (simp add: updated_def)

section \<open>What the operations do to the tasks\<close>

definition fence_ok :: "TaskLeaseFence \<Rightarrow> task_row \<Rightarrow> bool" where
  "fence_ok fence r \<longleftrightarrow> st_NodeID r = fence_NodeID fence
     \<and> taskFenceMatches fence (st_Attempt r) (st_ConnectionEpoch r) (coalesce (st_LeaseToken r))"

lemma fenceTaskRow_Inr:
  "fenceTaskRow e fence d = Inr (found, d') \<longleftrightarrow> \<not> pg_fails e SelectTask \<and> d' = d
     \<and> found = (case mget (server_tasks d) (fence_OperationID fence) of
         None \<Rightarrow> None | Some r \<Rightarrow> if fence_ok fence r then Some r else None)"
  by (auto simp: fenceTaskRow_def tx_Inr fence_ok_def split: option.splits)

lemma update_tasks_Inr:
  "update_tasks p f d = Inr (rows, d') \<longleftrightarrow> rows = map f (matching p (server_tasks d))
     \<and> d' = d\<lparr>server_tasks := updated p f (server_tasks d)\<rparr>"
  by (auto simp: update_tasks_def)

lemma fenced_cases:
  assumes "fenced e fence body d = Inr (x, d')"
  obtains "d' = d"
  | r where "mget (server_tasks d) (fence_OperationID fence) = Some r" "fence_ok fence r" "body r d = Inr (x, d')"
  using assms unfolding fenced_def
  by (auto elim!: andThen_Inr simp: fenceTaskRow_Inr ret_Inr split: option.splits if_splits)

lemma fenced_update_cases:
  assumes ids: "ids_ok (server_tasks d)" and run: "fenced_update e fence p f d = (res, d')"
  obtains "d' = d"
  | r where "mget (server_tasks d) (fence_OperationID fence) = Some r" "fence_ok fence r" "p r"
      "d' = d\<lparr>server_tasks := mput (fence_OperationID fence) (f r) (server_tasks d)\<rparr>"
  using run unfolding fenced_update_def
proof (elim transaction_cases fenced_cases)
  fix x r
  assume r: "mget (server_tasks d) (fence_OperationID fence) = Some r" "fence_ok fence r"
    and body: "andThen (stmt e UpdateTask (update_tasks (\<lambda>q. st_ID q = fence_OperationID fence \<and> p q) f))
      (\<lambda>rows. if length rows \<noteq> 1 then change (\<lambda>_. d) else commit e ()) d = Inr (x, d')"
  then show thesis
    using that by (cases "p r") (auto elim!: andThen_Inr
      simp: tx_Inr update_tasks_Inr change_def matching_one [OF ids r(1)] updated_one [OF ids r(1)])
qed (use that in simp_all)

text \<open>The effects a message has on the row its fence names.\<close>

inductive message_effect :: "task_row \<Rightarrow> task_row \<Rightarrow> bool" where
  starts: "st_Status r = ''leased'' \<Longrightarrow> message_effect r (start_running e r)"
| advances: "lease_held r \<Longrightarrow> 0 \<le> percent \<Longrightarrow> percent \<le> 100 \<Longrightarrow> message_effect r (advance_task C e percent ck r)"
| renews: "lease_held r \<Longrightarrow> message_effect r (renew_lease e r)"
| ends: "lease_held r \<Longrightarrow> s = ''succeeded'' \<or> s = ''failed'' \<Longrightarrow> message_effect r (end_task s code retryable now r)"

definition message_step :: "TaskLeaseFence \<Rightarrow> tables \<Rightarrow> tables \<Rightarrow> bool" where
  "message_step fence d d' \<longleftrightarrow> d' = d \<or>
     (\<exists>r r'. mget (server_tasks d) (fence_OperationID fence) = Some r \<and> fence_ok fence r \<and> message_effect r r'
        \<and> server_tasks d' = mput (fence_OperationID fence) r' (server_tasks d)
        \<and> secret_handles d' = secret_handles d)"

lemma fenced_update_step:
  assumes "ids_ok (server_tasks d)" "fenced_update e fence p f d = (res, d')"
    and "\<And>r. p r \<Longrightarrow> message_effect r (f r)"
  shows "message_step fence d d'"
  using assms(1,2) by (rule fenced_update_cases) (auto simp: message_step_def intro: assms(3))

lemma AckTask_step:
  assumes "ids_ok (server_tasks d)" "AckTask e fence accepted code d = (res, d')"
  shows "message_step fence d d'"
proof (cases accepted)
  case True
  then have "fenced_update e fence (\<lambda>q. st_Status q = ''leased'') (start_running e) d = (res, d')"
    using assms(2) by (simp add: AckTask_def)
  then show ?thesis by (rule fenced_update_step [OF assms(1)]) (rule message_effect.starts)
next
  case False
  then have "fenced_update e fence lease_held (reject_task e code) d = (res, d')"
    using assms(2) by (simp add: AckTask_def)
  then show ?thesis
    by (rule fenced_update_step [OF assms(1)]) (simp add: reject_task_def message_effect.ends)
qed

lemma ReportTaskProgress_step:
  assumes "ids_ok (server_tasks d)" "ReportTaskProgress C e fence percent ck d = (res, d')"
  shows "message_step fence d d'"
proof (cases "0 \<le> percent \<and> percent \<le> 100")
  case True
  then have "fenced_update e fence lease_held (advance_task C e percent ck) d = (res, d')"
    using assms(2) by (simp add: ReportTaskProgress_def)
  then show ?thesis by (rule fenced_update_step [OF assms(1)]) (simp add: True message_effect.advances)
next
  case False
  then show ?thesis using assms(2) by (auto simp: ReportTaskProgress_def message_step_def split: if_splits)
qed

lemma RenewTaskLease_step:
  assumes "ids_ok (server_tasks d)" "RenewTaskLease e fence d = (res, d')"
  shows "message_step fence d d'"
  using assms(2) unfolding RenewTaskLease_def
  by (rule fenced_update_step [OF assms(1)]) (rule message_effect.renews)

lemma same_tasks_settled: "tx_rel same_tasks (task_settled C e fence ok code json t)"
  unfolding task_settled_def by (auto intro!: same_tasks_then tx_rels)

lemma complete_row_cases:
  assumes ids: "ids_ok (server_tasks d)" and r: "mget (server_tasks d) (fence_OperationID fence) = Some r"
    and run: "complete_row C e fence ok code json r d = Inr (x, d')"
  obtains "d' = d"
  | effective code' where "lease_held r" "effective \<longleftrightarrow> ok \<and> \<not> integrity_failed C r ok json"
      "task_settled C e fence effective code' json r
         (d\<lparr>server_tasks := mput (fence_OperationID fence)
            (end_task (if effective then ''succeeded'' else ''failed'') code' (st_ErrorRetryable r) (pg_clock e) r)
            (server_tasks d)\<rparr>) = Inr (x, d')"
proof (cases "lease_held r \<and> st_NodeID r = fence_NodeID fence")
  case True
  then have "\<not> (st_Status r = ''succeeded'' \<or> st_Status r = ''failed'')" by (auto simp: lease_held_def)
  then show ?thesis
    using run True that(2) by (auto simp: complete_row_def Let_def stmt_Inr update_tasks_Inr
      matching_one [OF ids r] updated_one [OF ids r] elim!: andThen_Inr split: if_splits)
next
  case False
  then show ?thesis
    using run that(1) by (auto simp: complete_row_def Let_def tx_Inr update_tasks_Inr
      matching_one [OF ids r] updated_one [OF ids r] elim!: andThen_Inr split: if_splits)
qed

lemma CompleteTask_step:
  assumes ids: "ids_ok (server_tasks d)" and run: "CompleteTask C e fence ok code json d = (res, d')"
  shows "message_step fence d d'"
  using run unfolding CompleteTask_def
proof (elim transaction_cases fenced_cases)
  fix x r
  assume r: "mget (server_tasks d) (fence_OperationID fence) = Some r" "fence_ok fence r"
    and "complete_row C e fence ok code json r d = Inr (x, d')"
  from ids r(1) this(3) show ?thesis
  proof (rule complete_row_cases)
    fix effective code'
    assume held: "lease_held r" and settled: "task_settled C e fence effective code' json r
         (d\<lparr>server_tasks := mput (fence_OperationID fence)
            (end_task (if effective then ''succeeded'' else ''failed'') code' (st_ErrorRetryable r) (pg_clock e) r)
            (server_tasks d)\<rparr>) = Inr (x, d')"
    have "message_effect r (end_task (if effective then ''succeeded'' else ''failed'') code'
        (st_ErrorRetryable r) (pg_clock e) r)"
      by (rule message_effect.ends [OF held]) simp
    then show ?thesis
      using r tx_relD [OF same_tasks_settled settled] unfolding message_step_def same_tasks_def by auto
  qed (simp add: message_step_def)
qed (simp_all add: message_step_def)

section \<open>Claims\<close>

lemma oldest_None: "oldest rs = None \<longleftrightarrow> rs = []"
  by (cases rs) (auto split: option.splits if_splits)

lemma oldest_Some: "oldest rs = Some r \<Longrightarrow> r \<in> set rs \<and> (\<forall>q \<in> set rs. st_CreatedAt r \<le> st_CreatedAt q)"
proof (induction rs arbitrary: r)
  case (Cons a rs)
  then show ?case by (cases "oldest rs") (auto simp: oldest_None split: if_splits)
qed simp

lemma matching_iff: "r \<in> set (matching p T) \<longleftrightarrow> p r \<and> (\<exists>i. (i, r) \<in> set T)"
  by (force simp: matching_def)

lemma matching_mget: "ids_ok T \<Longrightarrow> r \<in> set (matching p T) \<Longrightarrow> mget T (st_ID r) = Some r \<and> p r"
  by (auto simp: matching_iff ids_ok_def mget_Some_iff)

text \<open>New handles of one claim, all else as before.\<close>

definition sealed_for :: "ClaimedTask \<Rightarrow> tables \<Rightarrow> tables \<Rightarrow> bool" where
  "sealed_for t d d' \<longleftrightarrow> server_tasks d' = server_tasks d \<and>
     (\<forall>k. mget (secret_handles d') k = mget (secret_handles d) k \<or>
        mget (secret_handles d) k = None \<and>
        (\<exists>row. mget (secret_handles d') k = Some row \<and> sh_OperationID row = ct_OperationID t
           \<and> sh_Attempt row = ct_Attempt t + 1 \<and> sh_ConsumedAt row = None))"

lemma sealed_for_order [simp]: "reflp (sealed_for t)" "transp (sealed_for t)"
proof -
  show "reflp (sealed_for t)" by (simp add: sealed_for_def reflp_def)
  show "transp (sealed_for t)"
  proof (rule transpI)
    fix x y z assume xy: "sealed_for t x y" and yz: "sealed_for t y z"
    show "sealed_for t x z" unfolding sealed_for_def
    proof (intro conjI allI)
      show "server_tasks z = server_tasks x" using xy yz by (simp add: sealed_for_def)
      fix k
      let ?new = "\<lambda>v. \<exists>row. v = Some row \<and> sh_OperationID row = ct_OperationID t
         \<and> sh_Attempt row = ct_Attempt t + 1 \<and> sh_ConsumedAt row = None"
      have "mget (secret_handles y) k = mget (secret_handles x) k
          \<or> mget (secret_handles x) k = None \<and> ?new (mget (secret_handles y) k)"
        using xy unfolding sealed_for_def by (elim conjE allE [where x = k])
      moreover have "mget (secret_handles z) k = mget (secret_handles y) k
          \<or> mget (secret_handles y) k = None \<and> ?new (mget (secret_handles z) k)"
        using yz unfolding sealed_for_def by (elim conjE allE [where x = k])
      ultimately show "mget (secret_handles z) k = mget (secret_handles x) k
          \<or> mget (secret_handles x) k = None \<and> ?new (mget (secret_handles z) k)"
        by (elim disjE) simp_all
    qed
  qed
qed

lemma sealed_for_same: "same_tasks d d' \<Longrightarrow> sealed_for t d d'"
  by (simp add: same_tasks_def sealed_for_def)

lemma tx_rel_mono: "tx_rel R m \<Longrightarrow> (\<And>d d'. R d d' \<Longrightarrow> R' d d') \<Longrightarrow> tx_rel R' m"
  by (simp add: tx_rel_def)

lemma sealed_for_insert:
  assumes "sh_OperationID row = ct_OperationID t" "sh_Attempt row = ct_Attempt t + 1" "sh_ConsumedAt row = None"
  shows "tx_rel (sealed_for t) (insert_secret e k row)"
  unfolding insert_secret_def
  by (rule tx_rel_stmt, rule tx_relI) (use assms in \<open>auto simp: sealed_for_def mhas_def split: if_splits\<close>)

lemma sealed_for_keys: "tx_rel (sealed_for t) (seal_keys C e t vals i keys vars)"
proof (induction keys arbitrary: i vars)
  case (Cons key keys)
  show ?case
    by (auto intro!: tx_rel_andThen sealed_for_insert tx_rels Cons.IH split: sum.splits option.splits)
qed (auto intro!: tx_rels)

lemma sealed_for_materialize: "tx_rel (sealed_for t) (materializeSecretHandlesTx C e t)"
  unfolding materializeSecretHandlesTx_def
  by (auto intro!: tx_rel_andThen sealed_for_keys tx_rels split: option.splits
      intro: tx_rel_mono [OF same_tasks_startup sealed_for_same])

lemma materialize_task:
  assumes "materializeSecretHandlesTx C e t d = Inr (t', d')"
  shows "t' = t \<or> (\<exists>encoded. t' = SetInputJSON encoded t)"
  using assms unfolding materializeSecretHandlesTx_def
  by (auto elim!: andThen_Inr simp: ret_Inr fail_def split: if_splits option.splits prod.splits)

lemma SetInputJSON_sel [simp]:
  "ct_OperationID (SetInputJSON x t) = ct_OperationID t" "ct_NodeID (SetInputJSON x t) = ct_NodeID t"
  "ct_ServerID (SetInputJSON x t) = ct_ServerID t" "ct_TaskType (SetInputJSON x t) = ct_TaskType t"
  by (simp_all add: SetInputJSON_def)

lemma scanned_task_sel [simp]: "ct_OperationID (scanned_task r) = st_ID r" "ct_Attempt (scanned_task r) = 0"
  by (simp_all add: scanned_task_def)

lemma lease_task_sel [simp]:
  "st_ID (lease_task e n c r) = st_ID r" "st_Attempt (lease_task e n c r) = st_Attempt r + 1"
  "st_LeaseToken (lease_task e n c r) = Some (pg_uuid e)"
  by (simp_all add: lease_task_def)

lemma with_error_Inr: "with_error err m d = Inr x \<longleftrightarrow> m d = Inr x"
  by (auto simp: with_error_def split: sum.splits)

lemma ClaimTask_cases:
  assumes ids: "ids_ok (server_tasks d)" and run: "ClaimTask C e node epoch d = (res, d')"
  obtains "d' = d" "\<And>t. res \<noteq> Inr (Some t)"
  | r t where "oldest (matching (claimable e node) (server_tasks d)) = Some r"
      "mget (server_tasks d) (st_ID r) = Some r" "claimable e node r" "res = Inr (Some t)"
      "ct_OperationID t = st_ID r" "ct_Attempt t = st_Attempt r + 1" "ct_LeaseToken t = pg_uuid e"
      "server_tasks d' = mput (st_ID r) (lease_task e node epoch r) (server_tasks d)"
      "sealed_for (scanned_task r) d (d'\<lparr>server_tasks := server_tasks d\<rparr>)"
  using run unfolding ClaimTask_def
proof (elim transaction_cases andThen_Inr)
  fix x found d1
  assume "stmt e SelectTask (ask (\<lambda>d. oldest (matching (claimable e node) (server_tasks d)))) d = Inr (found, d1)"
    and rest: "(case found of None \<Rightarrow> ret None | Some r \<Rightarrow> claim_row C e node epoch r) d1 = Inr (x, d')"
    and res: "res = Inr x"
  then have d1: "d1 = d" and found: "found = oldest (matching (claimable e node) (server_tasks d))"
    by (auto simp: tx_Inr)
  show thesis
  proof (cases found)
    case None
    then show thesis using that(1) rest res d1 by (simp add: ret_Inr)
  next
    case (Some r)
    then have mem: "r \<in> set (matching (claimable e node) (server_tasks d))"
      using found oldest_Some by metis
    note r = matching_mget [OF ids mem]
    have queued: "st_Status r = ''queued''" using r by (simp add: claimable_def)
    from rest Some d1 have "claim_row C e node epoch r d = Inr (x, d')" by simp
    then obtain task d2 where
        m: "with_error (NewProblem ''SECRET_HANDLE_FAILED'' True)
          (materializeSecretHandlesTx C e (scanned_task r)) d = Inr (task, d2)"
      and upd: "andThen (stmt e UpdateTask (update_tasks
          (\<lambda>q. st_ID q = st_ID r \<and> st_Status q = ''queued'') (lease_task e node epoch))) (\<lambda>rows.
       case rows of [] \<Rightarrow> fail internal_error | q # _ \<Rightarrow>
           commit e (Some (task\<lparr>ct_ConnectionEpoch := epoch, ct_Attempt := st_Attempt q,
             ct_StateVersion := st_StateVersion q, ct_LeaseToken := coalesce (st_LeaseToken q)\<rparr>))) d2 = Inr (x, d')"
      unfolding claim_row_def by (rule andThen_Inr)
    from m have mat: "materializeSecretHandlesTx C e (scanned_task r) d = Inr (task, d2)"
      by (simp add: with_error_Inr)
    from tx_relD [OF sealed_for_materialize mat] have sealed: "sealed_for (scanned_task r) d d2" .
    then have same: "server_tasks d2 = server_tasks d" by (simp add: sealed_for_def)
    from materialize_task [OF mat] have op: "ct_OperationID task = st_ID r" by auto
    let ?q = "lease_task e node epoch r"
    from upd have x: "x = Some (task\<lparr>ct_ConnectionEpoch := epoch, ct_Attempt := st_Attempt ?q,
             ct_StateVersion := st_StateVersion ?q, ct_LeaseToken := coalesce (st_LeaseToken ?q)\<rparr>)"
      and d': "d' = d2\<lparr>server_tasks := mput (st_ID r) ?q (server_tasks d)\<rparr>"
      using matching_one [OF ids conjunct1 [OF r]] updated_one [OF ids conjunct1 [OF r]]
      by (auto elim!: andThen_Inr simp: tx_Inr update_tasks_Inr same queued)
    show thesis
    proof (rule that(2) [where t = "the x"])
      show "oldest (matching (claimable e node) (server_tasks d)) = Some r" using found Some by simp
      show "sealed_for (scanned_task r) d (d'\<lparr>server_tasks := server_tasks d\<rparr>)"
        using sealed same by (simp add: d' sealed_for_def)
    qed (use r x res d' op in \<open>simp_all add: coalesce_def\<close>)
  qed
qed (use that(1) in auto)

section \<open>Frames\<close>

lemma receive_step:
  assumes "ids_ok (server_tasks d)"
  shows "message_step (frame_lease node (frame_fence_of fr)) d (receive C e node fr d)"
proof (cases fr)
  case (TaskAck f ok code)
  then show ?thesis
    using AckTask_step [OF assms prod.collapse [symmetric]]
    by (simp add: receive_def handleTaskAck_def message_step_def)
next
  case (TaskProgress f p ck)
  then show ?thesis
    using ReportTaskProgress_step [OF assms prod.collapse [symmetric]]
    by (simp add: receive_def handleTaskProgress_def message_step_def)
next
  case (RunningTaskHeartbeat f)
  then show ?thesis
    using RenewTaskLease_step [OF assms prod.collapse [symmetric]]
    by (simp add: receive_def handleRunningTaskHeartbeat_def message_step_def)
next
  case (TaskResult f ok code json)
  then show ?thesis
    using CompleteTask_step [OF assms prod.collapse [symmetric]]
    by (simp add: receive_def handleTaskResult_def message_step_def)
qed

end
