(* ===== verification/Lease_World.thy ===== *)
theory Lease_World
  imports Task_Facts Refinement_Mapping
begin

text \<open>
  The persistent store, any number of control planes and the agents as one transition system on the
  tables: a step is one transaction, since each locks the row it works on. \<open>lw_claims\<close> remembers
  every claim (token, operation, attempt), the latest first. The only assumption on the surroundings
  is that a lease token drawn by \<^verbatim>\<open>gen_random_uuid()\<close> is new.
\<close>

record lease_world =
  lw_tables :: tables
  lw_claims :: "(string \<times> string \<times> int) list"

abbreviation lw_tasks :: "lease_world \<Rightarrow> (string, task_row) gomap" where
  "lw_tasks w \<equiv> server_tasks (lw_tables w)"

inductive lease_step :: "task_codec \<Rightarrow> lease_world \<Rightarrow> lease_world \<Rightarrow> bool" for C where
  enqueue: "d' = snd (EnqueueTask C e serverID nodeID taskType generation actorID idemKey digest (lw_tables w)) \<Longrightarrow>
    lease_step C w (w\<lparr>lw_tables := d'\<rparr>)"
| enqueue_with: "same_tasks (lw_tables w) d0 \<Longrightarrow>
    enqueueTaskTx C e taskID serverID nodeID taskType generation actorID idemKey digest taskInput d0 = Inr (x, d1) \<Longrightarrow>
    same_tasks d1 d' \<Longrightarrow> lease_step C w (w\<lparr>lw_tables := d'\<rparr>)"
| claim: "ClaimTask C e nodeID epoch (lw_tables w) = (Inr (Some t), d') \<Longrightarrow>
    pg_uuid e \<noteq> [] \<Longrightarrow> pg_uuid e \<notin> fst ` set (lw_claims w) \<Longrightarrow>
    lease_step C w \<lparr>lw_tables = d', lw_claims = (ct_LeaseToken t, ct_OperationID t, ct_Attempt t) # lw_claims w\<rparr>"
| message: "lease_step C w (w\<lparr>lw_tables := receive C e nodeID frame (lw_tables w)\<rparr>)"
| requeue: "lease_step C w (w\<lparr>lw_tables := requeue_expired e now (lw_tables w)\<rparr>)"
| expire: "lease_step C w (w\<lparr>lw_tables := snd (fail_expired C e now (lw_tables w))\<rparr>)"
| resolve: "lease_step C w (w\<lparr>lw_tables := snd (ResolveSecretHandle C e operationID serverID nodeID handle (lw_tables w))\<rparr>)"
| elsewhere: "same_tasks (lw_tables w) d' \<Longrightarrow> lease_step C w (w\<lparr>lw_tables := d'\<rparr>)"

text \<open>Nothing enqueued yet; the other tables are arbitrary.\<close>

definition fresh_world :: "lease_world \<Rightarrow> bool" where
  "fresh_world w \<longleftrightarrow> server_tasks (lw_tables w) = [] \<and> secret_handles (lw_tables w) = [] \<and> lw_claims w = []"

section \<open>How a row moves\<close>

text \<open>The moves that keep the attempt, and the claim, which starts the next one.\<close>

inductive row_keep :: "task_row \<Rightarrow> task_row \<Rightarrow> bool" where
  stays: "row_keep r r"
| reported: "message_effect r r' \<Longrightarrow> row_keep r r'"
| requeued: "st_Status r = ''leased'' \<Longrightarrow> st_Attempt r < st_MaxAttempts r \<Longrightarrow> row_keep r (requeue_task e r)"
| given_up: "st_Status r = ''leased'' \<Longrightarrow> st_MaxAttempts r \<le> st_Attempt r \<Longrightarrow> row_keep r (expire_task e r)"

inductive row_move :: "task_row \<Rightarrow> task_row \<Rightarrow> bool" where
  keeps: "row_keep r r' \<Longrightarrow> row_move r r'"
| leased: "st_Status r = ''queued'' \<Longrightarrow> st_Attempt r < st_MaxAttempts r \<Longrightarrow> st_NodeID r = n \<Longrightarrow>
    row_move r (lease_task e n epoch r)"

lemmas row_defs = lease_task_def start_running_def advance_task_def renew_lease_def end_task_def
  requeue_task_def expire_task_def

definition same_task :: "task_row \<Rightarrow> task_row \<Rightarrow> bool" where
  "same_task r r' \<longleftrightarrow> st_ID r' = st_ID r \<and> st_ServerID r' = st_ServerID r \<and> st_NodeID r' = st_NodeID r
     \<and> st_TaskType r' = st_TaskType r \<and> st_Scope r' = st_Scope r \<and> st_Key r' = st_Key r
     \<and> st_MaxAttempts r' = st_MaxAttempts r"

lemma message_frame:
  assumes "message_effect r r'"
  shows "same_task r r' \<and> st_Attempt r' = st_Attempt r \<and> lease_held r
    \<and> (lease_held r' \<longrightarrow> st_LeaseToken r' = st_LeaseToken r \<and> st_LeaseOwner r' = st_LeaseOwner r
         \<and> st_LeaseExpiresAt r' \<noteq> None)"
  using assms by cases (auto simp: row_defs same_task_def lease_held_def)

lemma row_keep_frame:
  assumes "row_keep r r'"
  shows "same_task r r' \<and> st_Attempt r' = st_Attempt r
    \<and> (lease_held r' \<longrightarrow> st_LeaseToken r' = st_LeaseToken r \<and> st_LeaseOwner r' = st_LeaseOwner r)"
  using assms by cases (auto simp: row_defs same_task_def lease_held_def message_frame [unfolded same_task_def lease_held_def])

lemma row_move_frame: "row_move r r' \<Longrightarrow> same_task r r'"
  by (erule row_move.cases) (simp_all add: row_keep_frame, simp add: row_defs same_task_def)

lemma held_active: "lease_held r \<Longrightarrow> activeTask r"
  by (auto simp: lease_held_def activeTask_def)

lemma row_move_active:
  assumes "row_move r r'" "activeTask r'"
  shows "activeTask r"
  using assms(1)
proof cases
  case keeps
  then show ?thesis
  proof cases
    case reported
    then show ?thesis by (simp add: held_active message_frame)
  qed (use assms(2) in \<open>simp_all add: activeTask_def\<close>)
qed (simp add: activeTask_def)

text \<open>Every row of the new table is the successor of the row with its identifier.\<close>

definition rows_rel :: "(task_row \<Rightarrow> task_row \<Rightarrow> bool) \<Rightarrow> (string, task_row) gomap \<Rightarrow> (string, task_row) gomap \<Rightarrow> bool" where
  "rows_rel Q T T' \<longleftrightarrow> (\<forall>i. rel_option Q (mget T i) (mget T' i))"

lemma rows_rel_refl: "rows_rel row_keep T T"
  by (simp add: rows_rel_def option.rel_refl row_keep.stays)

lemma rows_rel_put:
  assumes "mget T i = Some r" "Q r r'" "\<And>r. Q r r"
  shows "rows_rel Q T (mput i r' T)"
  using assms by (auto simp: rows_rel_def option.rel_refl)

lemma rows_rel_updated:
  assumes "\<And>r. p r \<Longrightarrow> Q r (f r)" "\<And>r. Q r r"
  shows "rows_rel Q T (updated p f T)"
proof -
  have "rel_option Q v (map_option (\<lambda>r. if p r then f r else r) v)" for v
    using assms by (cases v) auto
  then show ?thesis by (simp add: rows_rel_def mget_updated)
qed

lemma rows_rel_mono: "rows_rel Q T T' \<Longrightarrow> (\<And>r r'. Q r r' \<Longrightarrow> Q' r r') \<Longrightarrow> rows_rel Q' T T'"
  unfolding rows_rel_def by (blast intro: option.rel_mono_strong)

lemma rows_relD: "rows_rel Q T T' \<Longrightarrow> mget T i = Some r \<Longrightarrow> \<exists>r'. mget T' i = Some r' \<and> Q r r'"
  unfolding rows_rel_def by (drule spec [of _ i]) (auto elim: option.rel_cases)

lemma rows_relD2: "rows_rel Q T T' \<Longrightarrow> mget T' i = Some r' \<Longrightarrow> \<exists>r. mget T i = Some r \<and> Q r r'"
  unfolding rows_rel_def by (drule spec [of _ i]) (auto elim: option.rel_cases)

section \<open>New rows\<close>

definition row_added :: "task_row \<Rightarrow> (string, task_row) gomap \<Rightarrow> bool" where
  "row_added r T \<longleftrightarrow> task_checks r \<and> st_Status r = ''queued'' \<and> st_Attempt r = 0 \<and> st_Progress r = 0
     \<and> st_MaxAttempts r = 3 \<and> st_LeaseToken r = None \<and> \<not> mhas T (st_ID r)
     \<and> (\<forall>i q. mget T i = Some q \<longrightarrow> \<not> (st_Scope q = st_Scope r \<and> st_Key q = st_Key r)
           \<and> \<not> (activeTask q \<and> st_ServerID q = st_ServerID r))"

lemma matching_Nil: "matching p T = [] \<Longrightarrow> mget T i = Some q \<Longrightarrow> \<not> p q"
  by (force simp: matching_def filter_empty_conv dest: mget_in_set)

lemma insert_task_cases:
  assumes run: "insert_task e r d = Inr (inserted, d')"
    and r: "st_Status r = ''queued''" "st_Attempt r = 0" "st_Progress r = 0" "st_MaxAttempts r = 3" "st_LeaseToken r = None"
  obtains "inserted = None" "d' = d"
  | "inserted = Some (st_ID r)" "row_added r (server_tasks d)" "d' = d\<lparr>server_tasks := mput (st_ID r) r (server_tasks d)\<rparr>"
proof (cases "matching (\<lambda>q. st_Scope q = st_Scope r \<and> st_Key q = st_Key r) (server_tasks d) = []")
  case True
  then have ok: "task_checks r" "\<not> mhas (server_tasks d) (st_ID r)"
      "matching (\<lambda>q. st_ServerID q = st_ServerID r \<and> activeTask q) (server_tasks d) = []"
    and d': "inserted = Some (st_ID r)" "d' = d\<lparr>server_tasks := mput (st_ID r) r (server_tasks d)\<rparr>"
    using run by (simp_all add: insert_task_def stmt_Inr split: if_splits)
  have "row_added r (server_tasks d)"
    unfolding row_added_def using r ok(1,2) matching_Nil [OF True] matching_Nil [OF ok(3)] by blast
  then show thesis using that(2) d' by blast
next
  case False
  then show thesis using run that(1) by (simp add: insert_task_def stmt_Inr split: if_splits)
qed

lemma new_task_sel [simp]:
  "st_Status (new_task i s n t g a k dg inp now) = ''queued''" "st_Attempt (new_task i s n t g a k dg inp now) = 0"
  "st_Progress (new_task i s n t g a k dg inp now) = 0" "st_MaxAttempts (new_task i s n t g a k dg inp now) = 3"
  "st_LeaseToken (new_task i s n t g a k dg inp now) = None" "st_ID (new_task i s n t g a k dg inp now) = i"
  by (simp_all add: new_task_def)

definition tasks_added :: "tables \<Rightarrow> tables \<Rightarrow> bool" where
  "tasks_added d d' \<longleftrightarrow> secret_handles d' = secret_handles d \<and>
     (server_tasks d' = server_tasks d \<or>
      (\<exists>r. row_added r (server_tasks d) \<and> server_tasks d' = mput (st_ID r) r (server_tasks d)))"

lemma tasks_added_then: "tasks_added d d' \<Longrightarrow> same_tasks d' d'' \<Longrightarrow> tasks_added d d''"
  by (auto simp: tasks_added_def same_tasks_def)

lemma insert_task_added:
  "insert_task e (new_task i s n t g a k dg inp now) d = Inr (x, d') \<Longrightarrow> tasks_added d d'"
  by (erule insert_task_cases) (auto simp: tasks_added_def)

lemma EnqueueTask_added: "tasks_added d (snd (EnqueueTask C e s n t g a k dg d))"
proof (cases "insert_task e (new_task (pg_id e) s n t g a k dg None (pg_clock e)) d")
  case (Inl err)
  then show ?thesis by (simp add: EnqueueTask_def Let_def tasks_added_def)
next
  case (Inr xd)
  obtain x d1 where xd: "xd = (x, d1)" by (cases xd)
  have added: "tasks_added d d1" using Inr xd insert_task_added by blast
  show ?thesis
    using added tx_relD [OF same_tasks_event]
    by (auto simp: EnqueueTask_def Let_def Inr xd split: option.splits sum.splits list.splits
        intro: tasks_added_then)
qed

lemma enqueueTaskTx_added:
  assumes "enqueueTaskTx C e i s n t g a k dg inp d = Inr (x, d')"
  shows "tasks_added d d'"
proof -
  obtain y d1 where ins: "insert_task e (new_task i s n t g a k dg (if inp = [] then None else Some inp) (pg_now e)) d = Inr (y, d1)"
    and rest: "(case y of None \<Rightarrow> ret None | Some i' \<Rightarrow>
       andThen (recordTaskOutboxEvent C e ''task.created'' (task_created i' s n t g)) (\<lambda>_. ret (Some i'))) d1 = Inr (x, d')"
    using assms unfolding enqueueTaskTx_def by (rule andThen_Inr)
  have "tx_rel same_tasks (case y of None \<Rightarrow> ret None | Some i' \<Rightarrow>
       andThen (recordTaskOutboxEvent C e ''task.created'' (task_created i' s n t g)) (\<lambda>_. ret (Some i')))"
    by (auto intro!: same_tasks_then tx_rels split: option.splits)
  from tx_relD [OF this rest] insert_task_added [OF ins] show ?thesis by (blast intro: tasks_added_then)
qed

section \<open>The kinds of steps\<close>

text \<open>
  A step adds a row, leases one row, or moves rows without a claim; the secrets grow with a claim and
  are otherwise only used up.
\<close>

definition secrets_used :: "tables \<Rightarrow> tables \<Rightarrow> bool" where
  "secrets_used d d' \<longleftrightarrow> (\<forall>k. rel_option (\<lambda>s s'. s' = s \<or> (\<exists>at. s' = s\<lparr>sh_ConsumedAt := Some at\<rparr> \<and> sh_ConsumedAt s = None))
     (mget (secret_handles d) k) (mget (secret_handles d') k))"

lemma secrets_used_same: "secret_handles d' = secret_handles d \<Longrightarrow> secrets_used d d'"
  by (simp add: secrets_used_def option.rel_refl)

lemma ResolveSecretHandle_used:
  "secrets_used d (snd (ResolveSecretHandle C e op srv n h d))
   \<and> server_tasks (snd (ResolveSecretHandle C e op srv n h d)) = server_tasks d"
  by (auto simp: ResolveSecretHandle_def Let_def secrets_used_def option.rel_refl usable_handle_def
      split: sum.splits option.splits)

lemma message_step_rows:
  assumes "message_step fence d d'" "ids_ok (server_tasks d)"
  shows "rows_rel row_keep (server_tasks d) (server_tasks d') \<and> ids_ok (server_tasks d')
    \<and> secret_handles d' = secret_handles d"
  using assms(1) unfolding message_step_def
proof (elim disjE exE conjE)
  fix r r'
  assume "mget (server_tasks d) (fence_OperationID fence) = Some r" "message_effect r r'"
    "server_tasks d' = mput (fence_OperationID fence) r' (server_tasks d)" "secret_handles d' = secret_handles d"
  then show ?thesis
    using ids_okD [OF assms(2)] message_frame
    by (auto intro!: rows_rel_put row_keep.intros ids_ok_put assms(2) simp: same_task_def)
qed (use assms(2) in \<open>simp add: rows_rel_refl\<close>)

lemma requeue_rows:
  assumes "ids_ok (server_tasks d)"
  shows "rows_rel row_keep (server_tasks d) (server_tasks (requeue_expired e now d))
    \<and> ids_ok (server_tasks (requeue_expired e now d)) \<and> secret_handles (requeue_expired e now d) = secret_handles d"
  unfolding requeue_expired_def
  by (auto intro!: rows_rel_updated ids_ok_updated row_keep.requeued row_keep.stays assms simp: lease_expired_def)
    (simp add: requeue_task_def)

lemma fail_expired_cases:
  obtains "snd (fail_expired C e now d) = d"
  | "same_tasks (d\<lparr>server_tasks := updated (\<lambda>r. lease_expired now r \<and> st_MaxAttempts r \<le> st_Attempt r)
        (expire_task e) (server_tasks d)\<rparr>) (snd (fail_expired C e now d))"
proof (cases "fail_expired C e now d")
  case (Pair res d')
  then show thesis unfolding fail_expired_def
  proof (elim transaction_cases andThen_Inr)
    fix x x1 d1 x2 d2
    assume "stmt e FailExpired (update_tasks (\<lambda>r. lease_expired now r \<and> st_MaxAttempts r \<le> st_Attempt r)
        (expire_task e)) d = Inr (x1, d1)" "expire_each C e x1 d1 = Inr (x2, d2)" "commit e () d2 = Inr (x, d')"
    then show thesis
      using that(2) Pair tx_relD [OF same_tasks_expire_each] by (auto simp: tx_Inr update_tasks_Inr)
  qed (use that(1) Pair in simp)
qed

lemma fail_expired_rows:
  assumes "ids_ok (server_tasks d)"
  shows "rows_rel row_keep (server_tasks d) (server_tasks (snd (fail_expired C e now d)))
    \<and> ids_ok (server_tasks (snd (fail_expired C e now d)))
    \<and> secret_handles (snd (fail_expired C e now d)) = secret_handles d"
proof (rule fail_expired_cases [of C e now d])
  assume "same_tasks (d\<lparr>server_tasks := updated (\<lambda>r. lease_expired now r \<and> st_MaxAttempts r \<le> st_Attempt r)
        (expire_task e) (server_tasks d)\<rparr>) (snd (fail_expired C e now d))"
  then show ?thesis
    by (auto simp: same_tasks_def lease_expired_def expire_task_def end_task_def
        intro!: rows_rel_updated ids_ok_updated row_keep.given_up [unfolded expire_task_def end_task_def] row_keep.stays assms)
qed (simp add: assms rows_rel_refl)

lemma lease_step_kinds:
  assumes step: "lease_step C w w'" and ids: "ids_ok (lw_tasks w)"
  obtains (added) "tasks_added (lw_tables w) (lw_tables w')" "lw_claims w' = lw_claims w"
  | (claimed) r e n epoch where "mget (lw_tasks w) (st_ID r) = Some r" "claimable e n r"
      "oldest (matching (claimable e n) (lw_tasks w)) = Some r"
      "pg_uuid e \<noteq> []" "pg_uuid e \<notin> fst ` set (lw_claims w)"
      "lw_tasks w' = mput (st_ID r) (lease_task e n epoch r) (lw_tasks w)"
      "sealed_for (scanned_task r) (lw_tables w) (lw_tables w'\<lparr>server_tasks := lw_tasks w\<rparr>)"
      "lw_claims w' = (pg_uuid e, st_ID r, st_Attempt r + 1) # lw_claims w"
  | (moved) "rows_rel row_keep (lw_tasks w) (lw_tasks w')" "ids_ok (lw_tasks w')"
      "secrets_used (lw_tables w) (lw_tables w')" "lw_claims w' = lw_claims w"
  using step
proof cases
  case (enqueue d' e s n t g a k dg)
  then show thesis using EnqueueTask_added by (auto intro: added)
next
  case (enqueue_with d0 e i s n t g a k dg inp x d1 d')
  have "tasks_added d0 d'" using enqueueTaskTx_added [OF enqueue_with(3)] enqueue_with(4) by (rule tasks_added_then)
  then have "tasks_added (lw_tables w) d'" using enqueue_with(2) by (simp add: tasks_added_def same_tasks_def)
  then show thesis using enqueue_with(1) by (auto intro: added)
next
  case (claim e n epoch t d')
  show thesis
  proof (rule ClaimTask_cases [OF ids claim(2)])
    fix r u
    assume "oldest (matching (claimable e n) (lw_tasks w)) = Some r" "mget (lw_tasks w) (st_ID r) = Some r"
      "claimable e n r" "Inr (Some t) = Inr (Some u)" "ct_OperationID u = st_ID r"
      "ct_Attempt u = st_Attempt r + 1" "ct_LeaseToken u = pg_uuid e"
      "server_tasks d' = mput (st_ID r) (lease_task e n epoch r) (lw_tasks w)"
      "sealed_for (scanned_task r) (lw_tables w) (d'\<lparr>server_tasks := lw_tasks w\<rparr>)"
    then show thesis using claim(1,3,4) by (intro claimed [of r e n epoch]) simp_all
  qed auto
next
  case (message e n frame)
  then show thesis using message_step_rows [OF receive_step [OF ids] ids] by (intro moved) (simp_all add: secrets_used_same)
next
  case (requeue e now)
  then show thesis using requeue_rows [OF ids] by (intro moved) (simp_all add: secrets_used_same)
next
  case (expire e now)
  then show thesis using fail_expired_rows [OF ids] by (intro moved) (simp_all add: secrets_used_same)
next
  case (resolve e op srv n h)
  then show thesis
    using ResolveSecretHandle_used [of "lw_tables w" C e op srv n h] ids by (intro moved) (simp_all add: rows_rel_refl)
next
  case (elsewhere d')
  then show thesis using ids by (intro moved) (simp_all add: rows_rel_refl same_tasks_def secrets_used_same)
qed

section \<open>The invariant\<close>

definition task_ok :: "(string \<times> string \<times> int) list \<Rightarrow> task_row \<Rightarrow> bool" where
  "task_ok claims r \<longleftrightarrow> 0 \<le> st_Attempt r \<and> st_Attempt r \<le> st_MaxAttempts r \<and> st_MaxAttempts r = 3
     \<and> 0 \<le> st_Progress r \<and> st_Progress r \<le> 100
     \<and> (if lease_held r
        then st_LeaseOwner r = Some (st_NodeID r) \<and> st_LeaseExpiresAt r \<noteq> None
           \<and> (\<exists>token. st_LeaseToken r = Some token \<and> (token, st_ID r, st_Attempt r) \<in> set claims)
        else st_LeaseToken r = None
           \<and> (st_Status r = ''queued'' \<and> st_Attempt r < st_MaxAttempts r
              \<or> (st_Status r = ''succeeded'' \<or> st_Status r = ''failed'') \<and> st_CompletedAt r \<noteq> None))"

text \<open>The claims of an operation are its attempts, the latest first, under different tokens.\<close>

definition attempts_of :: "(string \<times> string \<times> int) list \<Rightarrow> string \<Rightarrow> int list" where
  "attempts_of claims i = map (snd \<circ> snd) (filter (\<lambda>c. fst (snd c) = i) claims)"

definition claims_ok :: "(string, task_row) gomap \<Rightarrow> (string \<times> string \<times> int) list \<Rightarrow> bool" where
  "claims_ok T claims \<longleftrightarrow> distinct (map fst claims) \<and> [] \<notin> fst ` set claims
     \<and> (\<forall>i. attempts_of claims i = (case mget T i of None \<Rightarrow> [] | Some r \<Rightarrow> rev [1..st_Attempt r]))"

definition tasks_distinct :: "(string, task_row) gomap \<Rightarrow> bool" where
  "tasks_distinct T \<longleftrightarrow> (\<forall>i j r q. mget T i = Some r \<longrightarrow> mget T j = Some q \<longrightarrow> i \<noteq> j \<longrightarrow>
     \<not> (st_Scope r = st_Scope q \<and> st_Key r = st_Key q)
     \<and> \<not> (activeTask r \<and> activeTask q \<and> st_ServerID r = st_ServerID q))"

definition handles_ok :: "tables \<Rightarrow> bool" where
  "handles_ok d \<longleftrightarrow> (\<forall>k s. mget (secret_handles d) k = Some s \<longrightarrow> sh_Attempt s = 1)"

definition lease_ok :: "lease_world \<Rightarrow> bool" where
  "lease_ok w \<longleftrightarrow> ids_ok (lw_tasks w) \<and> (\<forall>i r. mget (lw_tasks w) i = Some r \<longrightarrow> task_ok (lw_claims w) r)
     \<and> tasks_distinct (lw_tasks w) \<and> claims_ok (lw_tasks w) (lw_claims w) \<and> handles_ok (lw_tables w)"

lemma lease_okD:
  assumes "lease_ok w"
  shows "ids_ok (lw_tasks w)" "mget (lw_tasks w) i = Some r \<Longrightarrow> task_ok (lw_claims w) r"
    "tasks_distinct (lw_tasks w)" "claims_ok (lw_tasks w) (lw_claims w)" "handles_ok (lw_tables w)"
  using assms by (auto simp: lease_ok_def)

lemma tasks_distinctD:
  "tasks_distinct T \<Longrightarrow> mget T i = Some r \<Longrightarrow> mget T j = Some q \<Longrightarrow> i \<noteq> j \<Longrightarrow>
     \<not> (st_Scope r = st_Scope q \<and> st_Key r = st_Key q) \<and> \<not> (activeTask r \<and> activeTask q \<and> st_ServerID r = st_ServerID q)"
  unfolding tasks_distinct_def by blast

lemma fresh_ok: "fresh_world w \<Longrightarrow> lease_ok w"
  by (simp add: fresh_world_def lease_ok_def ids_ok_def tasks_distinct_def claims_ok_def handles_ok_def attempts_of_def)

lemma task_ok_more: "task_ok claims r \<Longrightarrow> set claims \<subseteq> set claims' \<Longrightarrow> task_ok claims' r"
  by (auto simp: task_ok_def split: if_splits)

lemma task_ok_message:
  assumes "task_ok claims r" "message_effect r r'"
  shows "task_ok claims r'"
proof -
  have held: "lease_held r" using assms(2) message_frame by blast
  have "task_ok claims r'" if "lease_held r'"
    using assms(2,1) message_frame [OF assms(2)] that held
    by (cases rule: message_effect.cases) (auto simp: task_ok_def row_defs same_task_def)
  moreover have "task_ok claims r'" if "\<not> lease_held r'"
    using assms(2,1) that held
    by (cases rule: message_effect.cases) (auto simp: task_ok_def row_defs lease_held_def)
  ultimately show ?thesis by blast
qed

lemma task_ok_keep:
  assumes "task_ok claims r" "row_keep r r'"
  shows "task_ok claims r'"
  using assms(2)
proof cases
  case reported
  then show ?thesis by (rule task_ok_message [OF assms(1)])
qed (use assms(1) in \<open>auto simp: task_ok_def row_defs lease_held_def\<close>)

lemma task_ok_lease:
  assumes "task_ok claims r" "claimable e n r"
  shows "task_ok ((pg_uuid e, st_ID r, st_Attempt r + 1) # claims) (lease_task e n epoch r)"
  using assms by (auto simp: task_ok_def claimable_def lease_held_def lease_task_def)

lemma task_ok_added: "row_added r T \<Longrightarrow> task_ok claims r"
  by (simp add: row_added_def task_ok_def lease_held_def)

lemma tasks_distinct_move:
  assumes dis: "tasks_distinct T" and rel: "rows_rel row_move T T'"
  shows "tasks_distinct T'"
  unfolding tasks_distinct_def
proof (intro allI impI)
  fix i j r' q' assume "mget T' i = Some r'" "mget T' j = Some q'" "i \<noteq> j"
  then obtain r q where "mget T i = Some r" "row_move r r'" "mget T j = Some q" "row_move q q'"
    using rows_relD2 [OF rel] by blast
  then have "\<not> (st_Scope r = st_Scope q \<and> st_Key r = st_Key q) \<and> \<not> (activeTask r \<and> activeTask q \<and> st_ServerID r = st_ServerID q)"
      "same_task r r'" "same_task q q'" "activeTask r' \<Longrightarrow> activeTask r" "activeTask q' \<Longrightarrow> activeTask q"
    using tasks_distinctD [OF dis _ _ \<open>i \<noteq> j\<close>] row_move_frame row_move_active by blast+
  then show "\<not> (st_Scope r' = st_Scope q' \<and> st_Key r' = st_Key q')
     \<and> \<not> (activeTask r' \<and> activeTask q' \<and> st_ServerID r' = st_ServerID q')"
    by (auto simp: same_task_def)
qed

lemma tasks_distinct_add:
  assumes dis: "tasks_distinct T" and add: "row_added r T"
  shows "tasks_distinct (mput (st_ID r) r T)"
proof -
  have other: "\<not> (st_Scope q = st_Scope r \<and> st_Key q = st_Key r) \<and> \<not> (activeTask q \<and> st_ServerID q = st_ServerID r)"
    if "mget T i = Some q" for i q
    using add that unfolding row_added_def by blast
  show ?thesis
    unfolding tasks_distinct_def
  proof (intro allI impI)
    fix i j p q
    assume "mget (mput (st_ID r) r T) i = Some p" "mget (mput (st_ID r) r T) j = Some q" "i \<noteq> j"
    then show "\<not> (st_Scope p = st_Scope q \<and> st_Key p = st_Key q)
       \<and> \<not> (activeTask p \<and> activeTask q \<and> st_ServerID p = st_ServerID q)"
      using other [of i p] other [of j q] tasks_distinctD [OF dis, of i p j q] by (auto split: if_splits)
  qed
qed

lemma claims_ok_move:
  assumes "claims_ok T claims" "rows_rel row_keep T T'"
  shows "claims_ok T' claims"
proof -
  have "(case mget T' i of None \<Rightarrow> [] | Some r \<Rightarrow> rev [1..st_Attempt r]) =
      (case mget T i of None \<Rightarrow> [] | Some r \<Rightarrow> rev [1..st_Attempt r])" for i
    using spec [OF assms(2) [unfolded rows_rel_def], of i] row_keep_frame by (auto elim!: option.rel_cases)
  then show ?thesis using assms(1) by (simp add: claims_ok_def)
qed

lemma claims_ok_add:
  assumes "claims_ok T claims" "row_added r T"
  shows "claims_ok (mput (st_ID r) r T) claims"
proof -
  have "mget T (st_ID r) = None" "st_Attempt r = 0" using assms(2) by (simp_all add: row_added_def mhas_def)
  then show ?thesis using assms(1) by (auto simp: claims_ok_def)
qed

lemma claims_ok_claim:
  assumes ok: "claims_ok T claims" and r: "mget T (st_ID r) = Some r" "0 \<le> st_Attempt r"
    and new: "token \<noteq> []" "token \<notin> fst ` set claims" and r': "st_Attempt r' = st_Attempt r + 1"
  shows "claims_ok (mput (st_ID r) r' T) ((token, st_ID r, st_Attempt r + 1) # claims)"
proof -
  have at: "attempts_of claims i = (case mget T i of None \<Rightarrow> [] | Some r \<Rightarrow> rev [1..st_Attempt r])" for i
    using ok by (simp add: claims_ok_def)
  have "rev [1..st_Attempt r + 1] = (st_Attempt r + 1) # rev [1..st_Attempt r]"
    using r(2) upto_rec2 [of 1 "st_Attempt r + 1"] by simp
  then have "attempts_of ((token, st_ID r, st_Attempt r + 1) # claims) i =
      (case mget (mput (st_ID r) r' T) i of None \<Rightarrow> [] | Some r \<Rightarrow> rev [1..st_Attempt r])" for i
    using at [of i] r(1) r' by (cases "i = st_ID r") (simp_all add: attempts_of_def)
  then show ?thesis using ok new by (simp add: claims_ok_def)
qed

lemma handles_ok_used: "handles_ok d \<Longrightarrow> secrets_used d d' \<Longrightarrow> handles_ok d'"
  unfolding handles_ok_def
proof (intro allI impI)
  fix k s' assume ok: "\<forall>k s. mget (secret_handles d) k = Some s \<longrightarrow> sh_Attempt s = 1" and used: "secrets_used d d'"
    and s': "mget (secret_handles d') k = Some s'"
  from spec [OF used [unfolded secrets_used_def], of k] s' ok show "sh_Attempt s' = 1"
    by (auto elim!: option.rel_cases)
qed

lemma handles_ok_sealed:
  assumes "handles_ok d" "sealed_for (scanned_task r) d (d'\<lparr>server_tasks := T\<rparr>)"
  shows "handles_ok d'"
  unfolding handles_ok_def
proof (intro allI impI)
  fix k s assume "mget (secret_handles d') k = Some s"
  moreover have "mget (secret_handles d') k = mget (secret_handles d) k \<or>
      (\<exists>row. mget (secret_handles d') k = Some row \<and> sh_Attempt row = 1)"
    using assms(2) unfolding sealed_for_def by (elim conjE allE [where x = k]) auto
  ultimately show "sh_Attempt s = 1" using assms(1) unfolding handles_ok_def by auto
qed

lemma claim_moves:
  assumes "mget T (st_ID r) = Some r" "claimable e n r"
  shows "rows_rel row_move T (mput (st_ID r) (lease_task e n epoch r) T)"
proof (rule rows_rel_put [OF assms(1)])
  show "row_move r (lease_task e n epoch r)" using assms(2) by (intro row_move.leased) (auto simp: claimable_def)
qed (intro row_move.keeps row_keep.stays)

lemma lease_ok_step:
  assumes ok: "lease_ok w" and step: "lease_step C w w'"
  shows "lease_ok w'"
  using step lease_okD(1) [OF ok]
proof (cases rule: lease_step_kinds)
  case added
  then show ?thesis
    unfolding tasks_added_def
  proof (elim conjE disjE exE)
    fix r assume r: "row_added r (lw_tasks w)" "lw_tasks w' = mput (st_ID r) r (lw_tasks w)"
    then show ?thesis
      using ok added tasks_distinct_add claims_ok_add task_ok_added
      by (auto simp: lease_ok_def handles_ok_def tasks_added_def intro!: ids_ok_put split: if_splits)
  qed (use ok added in \<open>simp add: lease_ok_def handles_ok_def\<close>)
next
  case (claimed r e n epoch)
  have r: "task_ok (lw_claims w) r" using lease_okD(2) [OF ok claimed(1)] .
  have "rows_rel row_move (lw_tasks w) (lw_tasks w')"
    unfolding claimed(6) using claimed(1,2) by (rule claim_moves)
  then have "tasks_distinct (lw_tasks w')" by (rule tasks_distinct_move [OF lease_okD(3) [OF ok]])
  moreover have "ids_ok (lw_tasks w')" using claimed(6) lease_okD(1) [OF ok] by (simp add: ids_ok_put)
  moreover have "claims_ok (lw_tasks w') (lw_claims w')"
    unfolding claimed(6,8) using r claimed(1,4,5)
    by (intro claims_ok_claim [OF lease_okD(4) [OF ok]]) (simp_all add: task_ok_def)
  moreover have "task_ok (lw_claims w') q" if "mget (lw_tasks w') i = Some q" for i q
  proof (cases "i = st_ID r")
    case True
    then show ?thesis using that task_ok_lease [OF r claimed(2)] unfolding claimed(6,8) by auto
  next
    case False
    then have "task_ok (lw_claims w) q" using that lease_okD(2) [OF ok] unfolding claimed(6) by simp
    then show ?thesis unfolding claimed(8) by (rule task_ok_more) auto
  qed
  moreover have "handles_ok (lw_tables w')" using lease_okD(5) [OF ok] claimed(7) by (rule handles_ok_sealed)
  ultimately show ?thesis by (simp add: lease_ok_def)
next
  case moved
  have "tasks_distinct (lw_tasks w')"
    by (rule tasks_distinct_move [OF lease_okD(3) [OF ok] rows_rel_mono [OF moved(1) row_move.keeps]])
  moreover have "task_ok (lw_claims w') q" if q: "mget (lw_tasks w') i = Some q" for i q
  proof -
    obtain r where "mget (lw_tasks w) i = Some r" "row_keep r q" using rows_relD2 [OF moved(1) q] by blast
    then have "task_ok (lw_claims w) q" by (rule task_ok_keep [OF lease_okD(2) [OF ok]])
    then show ?thesis by (simp add: moved(4))
  qed
  ultimately show ?thesis
    using moved(2,4) claims_ok_move [OF lease_okD(4) [OF ok] moved(1)] handles_ok_used [OF lease_okD(5) [OF ok] moved(3)]
    by (simp add: lease_ok_def)
qed

lemma lease_steps_ok: "(lease_step C)\<^sup>*\<^sup>* w w' \<Longrightarrow> lease_ok w \<Longrightarrow> lease_ok w'"
  by (induction rule: rtranclp_induct) (auto intro: lease_ok_step)

section \<open>What a step leaves of a task\<close>

lemma task_step:
  assumes "lease_ok w" "lease_step C w w'" "mget (lw_tasks w) i = Some r"
  obtains r' where "mget (lw_tasks w') i = Some r'" "row_move r r'"
  using assms(2) lease_okD(1) [OF assms(1)]
proof (cases rule: lease_step_kinds)
  case added
  then have "mget (lw_tasks w') i = Some r"
    using assms(3) by (auto simp: tasks_added_def row_added_def mhas_def)
  then show thesis using that row_move.keeps [OF row_keep.stays] by blast
next
  case (claimed r0 e n epoch)
  have "rows_rel row_move (lw_tasks w) (lw_tasks w')"
    unfolding claimed(6) using claimed(1,2) by (rule claim_moves)
  then show thesis using that rows_relD assms(3) by blast
next
  case moved
  then show thesis using that rows_relD [OF _ assms(3)] row_move.keeps by blast
qed

lemma ended_stays:
  assumes "row_move r r'" "st_Status r = ''succeeded'' \<or> st_Status r = ''failed''"
  shows "r' = r"
  using assms(1)
proof cases
  case keeps
  then show ?thesis
  proof cases
    case reported
    then have "lease_held r" by (simp add: message_frame)
    then show ?thesis using assms(2) by (auto simp: lease_held_def)
  qed (use assms(2) in auto)
qed (use assms(2) in auto)

end
