(* ===== verification/Lease_Demo.thy ===== *)
theory Lease_Demo
  imports Lease_World
begin

text \<open>
  A worked example for the leases: one server on one node, a provision task with one secret variable,
  and its life through claim, acknowledgement, exchange of the secret, result, and the other branch
  where the lease expires and the task is claimed again.
\<close>

section \<open>The surroundings\<close>

definition trial_sha :: string where
  "trial_sha = ''sha256:'' @ replicate 64 (CHR ''a'')"

definition trial_codec :: task_codec where
  "trial_codec =
     \<lparr>event_json = (\<lambda>_. ''{}''), jsonb_text = id, backup_id_in = id,
      backup_payload_in = (\<lambda>s. Some \<lparr>bp_BackupID = s, bp_StorageObjectKey = []\<rparr>),
      backup_result_in = (\<lambda>s. Some \<lparr>br_BackupID = s, br_Checksum = trial_sha, br_ManifestDigest = trial_sha,
        br_SizeBytes = Some 10, br_StorageLocation = ''backups/a.tar''\<rparr>),
      secret_input = (\<lambda>_ _. Some ([], [''rcon''])), sealed_input = (\<lambda>_ _ _. Some ''{sealed}''),
      startup_values_in = (\<lambda>_. Some [(''rcon'', AnyString ''enc:v1:x'')]), token_digest = id,
      decrypt = Some (\<lambda>_. Some (AnyString ''pw'')), sprint = (\<lambda>_. [])\<rparr>"

definition trial_pg :: "string \<Rightarrow> int \<Rightarrow> pg" where
  "trial_pg tag now =
     \<lparr>pg_fails = (\<lambda>_. False), pg_locked = (\<lambda>_. False), pg_clock = now, pg_now = now, pg_id = tag,
      pg_uuid = tag, pg_event_id = (\<lambda>i. tag @ i), pg_random = (\<lambda>_. replicate 32 (CHR ''k''))\<rparr>"

definition trial_tables :: tables where
  "trial_tables =
     \<lparr>server_tasks = [], backup_rows = [],
      server_rows = [(''s1'', \<lparr>sv_LifecycleState = ''provisioning'', sv_DesiredPower = ''stopped'',
        sv_ObservedPower = ''unknown'', sv_HealthCondition = ''unknown'', sv_Generation = 1,
        sv_ObservedGeneration = 0, sv_ObservedAt = 0, sv_GameBundleID = ''g1'', sv_GameVersion = ''1'',
        sv_DeletedAt = None, sv_UpdatedAt = 0\<rparr>)],
      node_ids = [''n1''], bundle_versions = [], bundle_history = [], object_tombstones = [],
      outbox_events = [], audit_events = [], secret_handles = [], startup_json = [(''s1'', ''{}'')]\<rparr>"

definition trial_frame :: "string \<Rightarrow> 32 word \<Rightarrow> frame_fence" where
  "trial_frame token attempt =
     \<lparr>fr_OperationID = ''t1'', fr_Attempt = attempt, fr_ConnectionEpoch = 1, fr_LeaseToken = token\<rparr>"


definition trial_row :: task_row where
  "trial_row = new_task ''t1'' ''s1'' ''n1'' ''provision'' 1 ''u1'' ''key-0123456789ab'' (replicate 32 (CHR ''d''))
     (Some ''{input}'') 1"

definition trial_event :: "string \<Rightarrow> gotime \<Rightarrow> outbox_row" where
  "trial_event ty now =
       \<lparr>ob_AggregateType = ''server_task'', ob_AggregateID = ''s1'',
        ob_EventType = ty, ob_EventVersion = 1, ob_Payload = ''{}'',
        ob_BusinessAt = now, ob_CreatedAt = now, ob_PublishAttempts = 0,
        ob_LastError = None, ob_NextAttemptAt = now, ob_PublishedAt = None,
        ob_DeadLetteredAt = None\<rparr>"

definition trial_queued :: tables where
  "trial_queued = trial_tables\<lparr>server_tasks := [(''t1'', trial_row)], outbox_events := [(''qt1'', trial_event ''task.created'' 1)]\<rparr>"

lemma trial_codec_sel [simp]:
  "event_json trial_codec p = ''{}''" "token_digest trial_codec s = s" "decrypt trial_codec = Some (\<lambda>_. Some (AnyString ''pw''))"
  "secret_input trial_codec ty s = Some ([], [''rcon''])" "sealed_input trial_codec ty s vars = Some ''{sealed}''"
  "startup_values_in trial_codec s = Some [(''rcon'', AnyString ''enc:v1:x'')]"
  "backup_payload_in trial_codec s = Some \<lparr>bp_BackupID = s, bp_StorageObjectKey = []\<rparr>" "backup_id_in trial_codec s = s"
  by (simp_all add: trial_codec_def)

lemma trial_pg_sel [simp]:
  "pg_fails (trial_pg tag now) s = False" "pg_locked (trial_pg tag now) i = False" "pg_clock (trial_pg tag now) = now"
  "pg_now (trial_pg tag now) = now" "pg_id (trial_pg tag now) = tag" "pg_uuid (trial_pg tag now) = tag"
  "pg_event_id (trial_pg tag now) i = tag @ i" "pg_random (trial_pg tag now) n = replicate 32 (CHR ''k'')"
  by (simp_all add: trial_pg_def)

lemmas trial_simps = enqueueTaskTx_def insert_task_def andThen_def stmt_def ret_def ask_def change_def commit_def
  recordTaskOutboxEvent_def task_created_def mhas_def mput_def mget_def matching_def

lemma trial_row_sel [simp]:
  "task_checks trial_row" "st_ID trial_row = ''t1''" "st_Status trial_row = ''queued''" "st_ServerID trial_row = ''s1''"
  "st_NodeID trial_row = ''n1''" "st_Attempt trial_row = 0" "st_MaxAttempts trial_row = 3" "st_TaskType trial_row = ''provision''"
  "st_TaskInput trial_row = Some ''{input}''" "st_LeaseToken trial_row = None" "st_StateVersion trial_row = 0"
  "st_ConnectionEpoch trial_row = 0" "st_Progress trial_row = 0" "st_Generation trial_row = 1" "st_Checkpoint trial_row = None"
  by (code_simp, simp_all add: trial_row_def new_task_def)

lemma trial_enqueue:
  "enqueueTaskTx trial_codec (trial_pg ''q'' 1) ''t1'' ''s1'' ''n1'' ''provision'' 1 ''u1'' ''key-0123456789ab''
     (replicate 32 (CHR ''d'')) ''{input}'' trial_tables = Inr (Some ''t1'', trial_queued)"
  by (simp add: trial_simps trial_queued_def trial_tables_def trial_event_def flip: trial_row_def)

definition trial_secret :: "gotime \<Rightarrow> secret_row" where
  "trial_secret now = \<lparr>sh_OperationID = ''t1'', sh_ServerID = ''s1'', sh_NodeID = ''n1'', sh_VariableKey = ''rcon'',
     sh_EncryptedValue = ''enc:v1:x'', sh_Attempt = 1, sh_ExpiresAt = now + secretHandleTTL, sh_ConsumedAt = None\<rparr>"

definition trial_claimed :: "string \<Rightarrow> int \<Rightarrow> int \<Rightarrow> ClaimedTask" where
  "trial_claimed token attempt epoch = (scanned_task trial_row)\<lparr>ct_TaskInputJSON := ''{sealed}'', ct_Attempt := attempt,
     ct_LeaseToken := token, ct_ConnectionEpoch := epoch, ct_StateVersion := (if attempt = 1 then 1 else 3)\<rparr>"

definition trial_leased_row :: task_row where
  "trial_leased_row = lease_task (trial_pg ''L1'' 2) ''n1'' 1 trial_row"

definition trial_leased :: tables where
  "trial_leased = trial_queued\<lparr>server_tasks := [(''t1'', trial_leased_row)], secret_handles := [(replicate 32 (CHR ''k''), trial_secret 2)]\<rparr>"

lemma rune_count_rcon: "rune_count ''rcon'' = 4"
  by code_simp

lemma trial_claim:
  "ClaimTask trial_codec (trial_pg ''L1'' 2) ''n1'' 1 trial_queued = (Inr (Some (trial_claimed ''L1'' 1 1)), trial_leased)"
  by (simp add: ClaimTask_def claimable_def claim_row_def transaction_def trial_simps with_error_def materializeSecretHandlesTx_def
     InputJSON_def SetInputJSON_def scanned_task_def trial_queued_def trial_tables_def startupValuesTx_def secretHandleSnapshot_def
     IsSecretCiphertext_def HasPrefix_def insert_secret_def coalesce_def mmap_def normalizeJSONNumbers_def rune_count_rcon
     updated_def update_tasks_def lease_task_def trial_leased_def trial_leased_row_def trial_claimed_def trial_secret_def
     trial_event_def)


definition trial_handle :: string where
  "trial_handle = secretHandleValue (replicate 32 (CHR ''k''))"

definition trial_used :: tables where
  "trial_used = trial_leased\<lparr>secret_handles := [(replicate 32 (CHR ''k''), (trial_secret 2)\<lparr>sh_ConsumedAt := Some 3\<rparr>)]\<rparr>"

lemma trial_leased_row_sel [simp]:
  "st_ID trial_leased_row = ''t1''" "st_Status trial_leased_row = ''leased''" "st_ServerID trial_leased_row = ''s1''"
  "st_NodeID trial_leased_row = ''n1''" "st_Attempt trial_leased_row = 1" "st_MaxAttempts trial_leased_row = 3"
  "st_LeaseToken trial_leased_row = Some ''L1''" "st_LeaseExpiresAt trial_leased_row = Some (2 + taskLeaseDuration)"
  "st_ConnectionEpoch trial_leased_row = 1" "st_TaskType trial_leased_row = ''provision''"
  "st_TaskInput trial_leased_row = Some ''{input}''" "st_StateVersion trial_leased_row = 1"
  "st_Generation trial_leased_row = 1"
  by (simp_all add: trial_leased_row_def lease_task_def)

lemma trial_tables_sel [simp]:
  "server_tasks trial_leased = [(''t1'', trial_leased_row)]" "secret_handles trial_leased = [(replicate 32 (CHR ''k''), trial_secret 2)]"
  by (simp_all add: trial_leased_def)

lemma trial_parse: "parseSecretHandle trial_handle = Inr (replicate 32 (CHR ''k''))"
  using b64_roundtrip [of "replicate 32 (CHR ''k'')"]
  by (simp add: trial_handle_def parseSecretHandle_def secretHandleValue_def HasPrefix_def TrimPrefix_def)

lemma trial_resolve:
  "ResolveSecretHandle trial_codec (trial_pg ''h'' 3) ''t1'' ''s1'' ''n1'' trial_handle trial_leased
     = (Inr (''pw'', 2 + secretHandleTTL), trial_used)"
  by (simp add: ResolveSecretHandle_def trial_parse mget_def usable_handle_def trial_secret_def secretHandleTTL_def minute_def second_def
    secret_value_def decryptSecretValues_def mput_def stringifiedStartupValues_def mget_zero_def trial_used_def)

definition trial_running_row :: task_row where
  "trial_running_row = start_running (trial_pg ''a'' 3) trial_leased_row"

lemma trial_running_row_sel [simp]:
  "st_ID trial_running_row = ''t1''" "st_Status trial_running_row = ''running''" "st_ServerID trial_running_row = ''s1''"
  "st_NodeID trial_running_row = ''n1''" "st_Attempt trial_running_row = 1"
  "st_LeaseToken trial_running_row = Some ''L1''" "st_ConnectionEpoch trial_running_row = 1" "st_TaskType trial_running_row = ''provision''"
  "st_TaskInput trial_running_row = Some ''{input}''" "st_ErrorRetryable trial_running_row = None"
  by (simp_all add: trial_running_row_def start_running_def) (simp add: trial_leased_row_def lease_task_def trial_row_def new_task_def)

definition trial_running :: tables where
  "trial_running = trial_leased\<lparr>server_tasks := [(''t1'', trial_running_row)]\<rparr>"

lemmas trial_receive_simps = receive_def handleTaskAck_def handleTaskResult_def trial_frame_def frame_lease_def AckTask_def
  fenced_update_def fenced_def fenceTaskRow_def taskFenceMatches_def coalesce_def transaction_def update_tasks_def updated_def
  mmap_def trial_simps

lemma trial_ack:
  "receive trial_codec (trial_pg ''a'' 3) ''n1'' (TaskAck (trial_frame ''L1'' 1) True []) trial_leased = trial_running"
  by (simp add: trial_receive_simps trial_running_def trial_running_row_def)

definition trial_done_row :: task_row where
  "trial_done_row = end_task ''succeeded'' None None 4 trial_running_row"

definition trial_done :: tables where
  "trial_done = trial_running\<lparr>server_tasks := [(''t1'', trial_done_row)],
     outbox_events := [(''qt1'', trial_event ''task.created'' 1), (''rt1'', trial_event ''task.completed'' 4)],
     server_rows := mmap (\<lambda>_ s. s\<lparr>sv_LifecycleState := ''ready'', sv_UpdatedAt := 4\<rparr>) (server_rows trial_tables),
     audit_events := [\<lparr>au_ActorID = None, au_ActorType = ''agent'', au_Action = ''task.complete'',
        au_TargetType = ''server'', au_TargetID = ''s1'', au_Result = ''success'', au_OperationID = ''t1''\<rparr>]\<rparr>"

lemma trial_result:
  "receive trial_codec (trial_pg ''r'' 4) ''n1'' (TaskResult (trial_frame ''L1'' 1) True [] []) trial_running = trial_done"
  by (simp add: trial_receive_simps CompleteTask_def complete_row_def integrity_failed_def lease_held_def task_settled_def
    settle_server_def settle_backup_def settle_history_def update_server_def insert_audit_def
    trial_running_def trial_leased_def trial_queued_def trial_tables_def trial_done_def trial_done_row_def trial_event_def)

definition trial_requeued_row :: task_row where
  "trial_requeued_row = requeue_task (trial_pg ''x'' (60 * second)) trial_leased_row"

definition trial_requeued :: tables where
  "trial_requeued = trial_leased\<lparr>server_tasks := [(''t1'', trial_requeued_row)]\<rparr>"

lemma trial_requeue: "requeue_expired (trial_pg ''x'' (60 * second)) (60 * second) trial_leased = trial_requeued"
  by (simp add: requeue_expired_def updated_def mmap_def lease_expired_def taskLeaseDuration_def second_def
    trial_requeued_def trial_requeued_row_def)


lemma trial_requeued_row_sel [simp]:
  "st_ID trial_requeued_row = ''t1''" "st_Status trial_requeued_row = ''queued''" "st_ServerID trial_requeued_row = ''s1''"
  "st_NodeID trial_requeued_row = ''n1''" "st_Attempt trial_requeued_row = 1" "st_MaxAttempts trial_requeued_row = 3"
  "st_TaskType trial_requeued_row = ''provision''" "st_StateVersion trial_requeued_row = 2"
  "st_TaskInput trial_requeued_row = Some ''{input}''" "st_Generation trial_requeued_row = 1"
  by (simp_all add: trial_requeued_row_def requeue_task_def)

definition trial_pg2 :: pg where
  "trial_pg2 = (trial_pg ''L2'' (61 * second))\<lparr>pg_random := \<lambda>_. replicate 32 (CHR ''m'')\<rparr>"

definition trial_again_row :: task_row where
  "trial_again_row = lease_task trial_pg2 ''n1'' 2 trial_requeued_row"

definition trial_again :: tables where
  "trial_again = trial_requeued\<lparr>server_tasks := [(''t1'', trial_again_row)],
     secret_handles := [(replicate 32 (CHR ''k''), trial_secret 2), (replicate 32 (CHR ''m''), trial_secret (61 * second))]\<rparr>"

lemma trial_keys: "replicate 32 (CHR ''m'') \<noteq> replicate 32 (CHR ''k'')"
  by (simp add: replicate_eq_replicate)

lemma trial_claim_again:
  "ClaimTask trial_codec trial_pg2 ''n1'' 2 trial_requeued = (Inr (Some (trial_claimed ''L2'' 2 2)), trial_again)"
  using trial_keys not_sym [OF trial_keys]
  by (simp add: trial_pg2_def ClaimTask_def claimable_def claim_row_def transaction_def trial_simps with_error_def
     materializeSecretHandlesTx_def InputJSON_def SetInputJSON_def scanned_task_def trial_leased_def trial_queued_def trial_tables_def
     trial_requeued_def startupValuesTx_def secretHandleSnapshot_def
     IsSecretCiphertext_def HasPrefix_def insert_secret_def coalesce_def mmap_def normalizeJSONNumbers_def rune_count_rcon
     updated_def update_tasks_def lease_task_def trial_again_def trial_again_row_def trial_claimed_def trial_secret_def
     trial_event_def)

section \<open>The states of the example\<close>

definition trial_start :: lease_world where "trial_start = \<lparr>lw_tables = trial_tables, lw_claims = []\<rparr>"
definition trial_w1 :: lease_world where "trial_w1 = \<lparr>lw_tables = trial_queued, lw_claims = []\<rparr>"
definition trial_w2 :: lease_world where "trial_w2 = \<lparr>lw_tables = trial_leased, lw_claims = [(''L1'', ''t1'', 1)]\<rparr>"
definition trial_w3 :: lease_world where "trial_w3 = \<lparr>lw_tables = trial_running, lw_claims = [(''L1'', ''t1'', 1)]\<rparr>"
definition trial_w4 :: lease_world where "trial_w4 = \<lparr>lw_tables = trial_done, lw_claims = [(''L1'', ''t1'', 1)]\<rparr>"
definition trial_w5 :: lease_world where "trial_w5 = \<lparr>lw_tables = trial_requeued, lw_claims = [(''L1'', ''t1'', 1)]\<rparr>"
definition trial_w6 :: lease_world where
  "trial_w6 = \<lparr>lw_tables = trial_again, lw_claims = [(''L2'', ''t1'', 2), (''L1'', ''t1'', 1)]\<rparr>"

lemma trial_fresh: "fresh_world trial_start"
  by (simp add: fresh_world_def trial_start_def trial_tables_def)

lemma trial_steps:
  "lease_step trial_codec trial_start trial_w1" "lease_step trial_codec trial_w1 trial_w2" "lease_step trial_codec trial_w2 trial_w3"
  "lease_step trial_codec trial_w3 trial_w4" "lease_step trial_codec trial_w2 trial_w5" "lease_step trial_codec trial_w5 trial_w6"
proof -
  have refl: "same_tasks d d" for d by (simp add: same_tasks_def)
  show "lease_step trial_codec trial_start trial_w1"
    using lease_step.enqueue_with [OF _ trial_enqueue refl, of trial_start] refl by (simp add: trial_start_def trial_w1_def)
  show "lease_step trial_codec trial_w1 trial_w2"
    using lease_step.claim [of trial_codec "trial_pg ''L1'' 2" "''n1''" 1 trial_w1] trial_claim
    by (simp add: trial_w1_def trial_w2_def trial_claimed_def scanned_task_def)
  show "lease_step trial_codec trial_w2 trial_w3"
    using lease_step.message [of trial_codec trial_w2] trial_ack by (metis trial_w2_def trial_w3_def lease_world.select_convs(1) lease_world.update_convs(1))
  show "lease_step trial_codec trial_w3 trial_w4"
    using lease_step.message [of trial_codec trial_w3] trial_result by (metis trial_w3_def trial_w4_def lease_world.select_convs(1) lease_world.update_convs(1))
  show "lease_step trial_codec trial_w2 trial_w5"
    using lease_step.requeue [of trial_codec trial_w2] trial_requeue by (metis trial_w2_def trial_w5_def lease_world.select_convs(1) lease_world.update_convs(1))
  show "lease_step trial_codec trial_w5 trial_w6"
    using lease_step.claim [of trial_codec trial_pg2 "''n1''" 2 trial_w5] trial_claim_again
    by (simp add: trial_w5_def trial_w6_def trial_claimed_def scanned_task_def trial_pg2_def)
qed

lemma trial_reach:
  "(lease_step trial_codec)\<^sup>*\<^sup>* trial_start trial_w2" "(lease_step trial_codec)\<^sup>*\<^sup>* trial_start trial_w3"
  "(lease_step trial_codec)\<^sup>*\<^sup>* trial_start trial_w4" "(lease_step trial_codec)\<^sup>*\<^sup>* trial_start trial_w6"
proof -
  note into = rtranclp.rtrancl_into_rtrancl [where r = "lease_step trial_codec"]
  show w2: "(lease_step trial_codec)\<^sup>*\<^sup>* trial_start trial_w2"
    by (rule into [OF into [OF rtranclp.rtrancl_refl [where r = "lease_step trial_codec"] trial_steps(1)] trial_steps(2)])
  show w3: "(lease_step trial_codec)\<^sup>*\<^sup>* trial_start trial_w3" by (rule into [OF w2 trial_steps(3)])
  show "(lease_step trial_codec)\<^sup>*\<^sup>* trial_start trial_w4" by (rule into [OF w3 trial_steps(4)])
  show "(lease_step trial_codec)\<^sup>*\<^sup>* trial_start trial_w6" by (rule into [OF into [OF w2 trial_steps(5)] trial_steps(6)])
qed

end
