(* ===== verification/Lease_Properties.thy ===== *)
theory Lease_Properties
  imports Lease_Demo
begin

text \<open>
  The abstract machine of a leased task, the refinement of the store to it, and the properties of all
  reachable states: one holder per task, fencing of late messages, at most three attempts, one use
  per secret handle, validated backups. A small store with one server and a few calls serves the
  concrete examples.
\<close>

section \<open>The task machine\<close>

text \<open>What the machine keeps of a task: where it belongs, its phase, how often it was claimed and how
  far it is. An ended task keeps its result.\<close>

datatype phase = Queued | Leased | Running | Done string

record task_view =
  tv_server :: string
  tv_node :: string
  tv_phase :: phase
  tv_attempt :: int
  tv_progress :: int

definition ended_view :: "task_view \<Rightarrow> bool" where
  "ended_view v \<longleftrightarrow> (\<exists>status. tv_phase v = Done status)"

text \<open>One task moves in a step, but for the passes over the expired leases, which take a whole set of
  leased tasks back. A task is created only for a server without an unfinished task.\<close>

inductive machine_step :: "(string \<Rightarrow> task_view option) \<Rightarrow> (string \<Rightarrow> task_view option) \<Rightarrow> bool" where
  create: "A i = None \<Longrightarrow> (\<And>j v. A j = Some v \<Longrightarrow> tv_server v = s \<Longrightarrow> ended_view v) \<Longrightarrow>
    machine_step A (A(i \<mapsto> \<lparr>tv_server = s, tv_node = n, tv_phase = Queued, tv_attempt = 0, tv_progress = 0\<rparr>))"
| claim: "A i = Some v \<Longrightarrow> tv_phase v = Queued \<Longrightarrow> tv_attempt v < 3 \<Longrightarrow>
    machine_step A (A(i \<mapsto> v\<lparr>tv_phase := Leased, tv_attempt := tv_attempt v + 1\<rparr>))"
| report: "A i = Some v \<Longrightarrow> tv_phase v \<in> {Leased, Running} \<Longrightarrow> tv_progress v \<le> p \<Longrightarrow> p \<le> 100 \<Longrightarrow>
    ph = Running \<or> ph = tv_phase v \<Longrightarrow> machine_step A (A(i \<mapsto> v\<lparr>tv_phase := ph, tv_progress := p\<rparr>))"
| finish: "A i = Some v \<Longrightarrow> tv_phase v \<in> {Leased, Running} \<Longrightarrow> status \<in> {''succeeded'', ''failed''} \<Longrightarrow>
    machine_step A (A(i \<mapsto> v\<lparr>tv_phase := Done status\<rparr>))"
| requeue: "(\<And>i v. i \<in> X \<Longrightarrow> A i = Some v \<Longrightarrow> tv_phase v = Leased \<and> tv_attempt v < 3) \<Longrightarrow>
    machine_step A (\<lambda>i. if i \<in> X then map_option (tv_phase_update (\<lambda>_. Queued)) (A i) else A i)"
| give_up: "(\<And>i v. i \<in> X \<Longrightarrow> A i = Some v \<Longrightarrow> tv_phase v = Leased \<and> tv_attempt v = 3) \<Longrightarrow>
    machine_step A (\<lambda>i. if i \<in> X then map_option (tv_phase_update (\<lambda>_. Done ''failed'')) (A i) else A i)"

definition phase_of :: "task_row \<Rightarrow> phase" where
  "phase_of r =
     (if st_Status r = ''queued'' then Queued else if st_Status r = ''leased'' then Leased
      else if st_Status r = ''running'' then Running else Done (st_Status r))"

definition view_of :: "task_row \<Rightarrow> task_view" where
  "view_of r = \<lparr>tv_server = st_ServerID r, tv_node = st_NodeID r, tv_phase = phase_of r, tv_attempt = st_Attempt r,
     tv_progress = st_Progress r\<rparr>"

definition task_views :: "lease_world \<Rightarrow> string \<Rightarrow> task_view option" where
  "task_views w i = map_option view_of (mget (lw_tasks w) i)"

lemma views_put: "lw_tasks w' = mput i r (lw_tasks w) \<Longrightarrow> task_views w' = (task_views w)(i \<mapsto> view_of r)"
  by (auto simp: task_views_def)

lemma views_same: "lw_tasks w' = lw_tasks w \<Longrightarrow> task_views w' = task_views w"
  by (simp add: task_views_def fun_eq_iff)

lemma views_updated:
  assumes "lw_tasks w' = updated p f (lw_tasks w)"
    and "\<And>i r. mget (lw_tasks w) i = Some r \<Longrightarrow> p r \<Longrightarrow> view_of (f r) = (view_of r)\<lparr>tv_phase := ph\<rparr>"
  shows "task_views w' = (\<lambda>i. if i \<in> {i. \<exists>r. mget (lw_tasks w) i = Some r \<and> p r}
           then map_option (tv_phase_update (\<lambda>_. ph)) (task_views w i) else task_views w i)"
proof
  show "task_views w' i = (if i \<in> {i. \<exists>r. mget (lw_tasks w) i = Some r \<and> p r}
           then map_option (tv_phase_update (\<lambda>_. ph)) (task_views w i) else task_views w i)" for i
    using assms(2) [of i] by (cases "mget (lw_tasks w) i") (simp_all add: task_views_def assms(1) mget_updated)
qed

lemma phase_held: "lease_held r \<Longrightarrow> phase_of r \<in> {Leased, Running}"
  by (auto simp: phase_of_def lease_held_def)

lemma inactive_ended: "\<not> activeTask r \<Longrightarrow> ended_view (view_of r)"
  by (auto simp: ended_view_def view_of_def phase_of_def activeTask_def)

text \<open>A message moves its task by one step of the machine.\<close>

lemma views_message:
  assumes row: "mget (lw_tasks w) i = Some r" and eff: "message_effect r r'" and ok: "task_ok claims r"
    and put: "lw_tasks w' = mput i r' (lw_tasks w)"
  shows "machine_step (task_views w) (task_views w')"
proof -
  let ?v = "view_of r"
  have held: "tv_phase ?v \<in> {Leased, Running}" and same: "same_task r r'" "st_Attempt r' = st_Attempt r"
    using message_frame [OF eff] phase_held by (simp_all add: view_of_def)
  have A: "task_views w i = Some ?v" "task_views w' = (task_views w)(i \<mapsto> view_of r')"
    using row views_put [OF put] by (simp_all add: task_views_def)
  have p: "0 \<le> st_Progress r" "st_Progress r \<le> 100" using ok by (simp_all add: task_ok_def)
  have report: ?thesis if "phase_of r' = Running \<or> phase_of r' = phase_of r" "st_Progress r \<le> st_Progress r'" "st_Progress r' \<le> 100"
    using machine_step.report [of "task_views w" i ?v "st_Progress r'" "phase_of r'"] A held that same by (simp add: view_of_def same_task_def)
  show ?thesis
    using eff
  proof cases
    case (ends s code retryable now)
    then have "view_of r' = ?v\<lparr>tv_phase := Done s\<rparr>" by (auto simp: end_task_def view_of_def phase_of_def)
    then show ?thesis using machine_step.finish [of "task_views w" i ?v s] A held ends by simp
  qed (rule report; simp add: p row_defs phase_of_def)+
qed

lemma task_views_ok:
  assumes "lease_ok w" "mget (lw_tasks w) i = Some r"
  shows "st_MaxAttempts r = 3" "st_Attempt r \<le> 3"
  using lease_okD(2) [OF assms] by (simp_all add: task_ok_def)

lemma tasks_added_views:
  assumes "tasks_added (lw_tables w) (lw_tables w')"
  shows "task_views w' = task_views w \<or> machine_step (task_views w) (task_views w')"
  using assms unfolding tasks_added_def
proof (elim conjE disjE exE)
  fix r assume r: "row_added r (lw_tasks w)" "lw_tasks w' = mput (st_ID r) r (lw_tasks w)"
  have "task_views w' = (task_views w)(st_ID r \<mapsto>
      \<lparr>tv_server = st_ServerID r, tv_node = st_NodeID r, tv_phase = Queued, tv_attempt = 0, tv_progress = 0\<rparr>)"
    using views_put [OF r(2)] r(1) by (simp add: view_of_def phase_of_def row_added_def)
  moreover have "task_views w (st_ID r) = None" using r(1) by (simp add: task_views_def row_added_def mhas_def)
  moreover have "ended_view v" if v: "task_views w j = Some v" "tv_server v = st_ServerID r" for j v
  proof -
    obtain q where q: "mget (lw_tasks w) j = Some q" "v = view_of q" using v(1) by (auto simp: task_views_def)
    moreover have "st_ServerID q = st_ServerID r" using q(2) v(2) by (simp add: view_of_def)
    then have "\<not> activeTask q" using r(1) q(1) unfolding row_added_def by blast
    ultimately show ?thesis using inactive_ended by simp
  qed
  ultimately show ?thesis using machine_step.create [of "task_views w" "st_ID r" "st_ServerID r" "st_NodeID r"] by simp
qed (rule disjI1, rule views_same, simp)

lemma lease_step_simulates:
  assumes ok: "lease_ok w" and step: "lease_step C w w'"
  shows "task_views w' = task_views w \<or> machine_step (task_views w) (task_views w')"
  using step
proof cases
  case (enqueue d' e s n t g a k dg)
  then show ?thesis using EnqueueTask_added tasks_added_views [of w w'] by simp
next
  case (enqueue_with d0 e j s n t g a k dg inp x d1 d')
  have "tasks_added d0 d'" using enqueueTaskTx_added [OF enqueue_with(3)] enqueue_with(4) by (rule tasks_added_then)
  then have "tasks_added (lw_tables w) d'" using enqueue_with(2) by (simp add: tasks_added_def same_tasks_def)
  then show ?thesis using enqueue_with(1) tasks_added_views [of w w'] by simp
next
  case claim
  show ?thesis
    using step lease_okD(1) [OF ok]
  proof (cases rule: lease_step_kinds)
    case (claimed r e n epoch)
    have "st_Status r = ''queued''" using claimed(2) by (simp add: claimable_def)
    moreover have "st_Attempt r < 3" using claimed(2) task_views_ok(1) [OF ok claimed(1)] by (simp add: claimable_def)
    moreover have "task_views w (st_ID r) = Some (view_of r)" using claimed(1) by (simp add: task_views_def)
    moreover have "task_views w' = (task_views w)(st_ID r \<mapsto> view_of (lease_task e n epoch r))"
      using claimed(6) by (rule views_put)
    ultimately show ?thesis
      using machine_step.claim [of "task_views w" "st_ID r" "view_of r"] claimed(2)
      by (simp add: view_of_def phase_of_def lease_task_def claimable_def)
  next
    case added
    then show ?thesis using tasks_added_views by blast
  next
    case moved
    then show ?thesis using claim(1) by simp
  qed
next
  case (message e n frame)
  from receive_step [OF lease_okD(1) [OF ok], of n frame C e] show ?thesis
    unfolding message_step_def
  proof (elim disjE exE conjE)
    fix r r' assume r: "mget (lw_tasks w) (fence_OperationID (frame_lease n (frame_fence_of frame))) = Some r" "message_effect r r'"
      and put: "server_tasks (receive C e n frame (lw_tables w))
        = mput (fence_OperationID (frame_lease n (frame_fence_of frame))) r' (lw_tasks w)"
    show ?thesis
      using views_message [OF r lease_okD(2) [OF ok r(1)], of w'] put message by simp
  qed (rule disjI1, rule views_same, simp add: message)
next
  case (requeue e now)
  let ?X = "{i. \<exists>r. mget (lw_tasks w) i = Some r \<and> lease_expired now r \<and> st_Attempt r < st_MaxAttempts r}"
  have eq: "task_views w' = (\<lambda>i. if i \<in> ?X then map_option (tv_phase_update (\<lambda>_. Queued)) (task_views w i) else task_views w i)"
    by (rule views_updated [where f = "requeue_task e"]) (simp_all add: requeue requeue_expired_def requeue_task_def view_of_def phase_of_def)
  have low: "tv_phase v = Leased \<and> tv_attempt v < 3" if v: "i \<in> ?X" "task_views w i = Some v" for i v
  proof -
    obtain r where r: "mget (lw_tasks w) i = Some r" "lease_expired now r" "st_Attempt r < st_MaxAttempts r" using v(1) by blast
    have "v = view_of r" using v(2) r(1) by (simp add: task_views_def)
    then show ?thesis using r(2,3) task_views_ok [OF ok r(1)] by (simp add: view_of_def phase_of_def lease_expired_def)
  qed
  show ?thesis unfolding eq by (rule disjI2, rule machine_step.requeue, rule low)
next
  case (expire e now)
  let ?p = "\<lambda>r. lease_expired now r \<and> st_MaxAttempts r \<le> st_Attempt r"
  let ?X = "{i. \<exists>r. mget (lw_tasks w) i = Some r \<and> ?p r}"
  show ?thesis
  proof (rule fail_expired_cases [of C e now "lw_tables w"])
    assume "same_tasks (lw_tables w\<lparr>server_tasks := updated ?p (expire_task e) (lw_tasks w)\<rparr>) (snd (fail_expired C e now (lw_tables w)))"
    then have eq: "task_views w' = (\<lambda>i. if i \<in> ?X then map_option (tv_phase_update (\<lambda>_. Done ''failed'')) (task_views w i) else task_views w i)"
      by (intro views_updated [where f = "expire_task e"]) (simp_all add: expire same_tasks_def expire_task_def end_task_def view_of_def phase_of_def)
    have used: "tv_phase v = Leased \<and> tv_attempt v = 3" if v: "i \<in> ?X" "task_views w i = Some v" for i v
    proof -
      obtain r where r: "mget (lw_tasks w) i = Some r" "?p r" using v(1) by blast
      have "v = view_of r" using v(2) r(1) by (simp add: task_views_def)
      then show ?thesis using r(2) task_views_ok [OF ok r(1)] by (simp add: view_of_def phase_of_def lease_expired_def)
    qed
    show ?thesis unfolding eq by (rule disjI2, rule machine_step.give_up, rule used)
  qed (rule disjI1, rule views_same, simp add: expire)
next
  case (resolve e op srv n h)
  then show ?thesis using views_same [of w' w] ResolveSecretHandle_used [of "lw_tables w" C e op srv n h] by simp
next
  case (elsewhere d')
  then show ?thesis using views_same [of w' w] by (simp add: same_tasks_def)
qed

interpretation tasks: refinement_mapping task_views lease_ok "lease_step C" machine_step for C
proof
  show "lease_ok c'" if "lease_ok c" "lease_step C c c'" for c c' using that by (rule lease_ok_step)
  show "task_views c' = task_views c \<or> machine_step (task_views c) (task_views c')"
    if "lease_ok c" "lease_step C c c'" for c c' using that by (rule lease_step_simulates)
qed

lemma claims_okD:
  assumes "claims_ok T claims"
  shows "(t, i, a) \<in> set claims \<Longrightarrow> (t, j, b) \<in> set claims \<Longrightarrow> j = i \<and> b = a"
    and "(t, i, a) \<in> set claims \<Longrightarrow> t \<noteq> []"
    and "(t, i, a) \<in> set claims \<Longrightarrow> mget T i = Some r \<Longrightarrow> a \<le> st_Attempt r"
proof -
  show "(t, i, a) \<in> set claims \<Longrightarrow> (t, j, b) \<in> set claims \<Longrightarrow> j = i \<and> b = a"
    using assms eq_key_imp_eq_value [of claims t "(i, a)" "(j, b)"] by (simp add: claims_ok_def)
  show "(t, i, a) \<in> set claims \<Longrightarrow> t \<noteq> []" using assms by (force simp: claims_ok_def)
  assume "(t, i, a) \<in> set claims" "mget T i = Some r"
  then have "a \<in> set (attempts_of claims i)" "attempts_of claims i = rev [1..st_Attempt r]"
    using assms by (force simp: attempts_of_def, simp add: claims_ok_def)
  then show "a \<le> st_Attempt r" by simp
qed

section \<open>Properties\<close>

text \<open>C11: In every reachable state each task has a legal status with the columns that belong to it: a
  task that is leased or running has the token of one claim, a queued one has an attempt left, an ended
  one has no lease; no two tasks share an idempotency key, and no server has two active tasks.\<close>

theorem one_holder_per_task:
  assumes "fresh_world w" "(lease_step C)\<^sup>*\<^sup>* w w'"
  shows "(\<forall>i r. mget (lw_tasks w') i = Some r \<longrightarrow> st_ID r = i \<and> task_ok (lw_claims w') r)
    \<and> tasks_distinct (lw_tasks w')"
proof -
  have "lease_ok w'" using lease_steps_ok [OF assms(2) fresh_ok [OF assms(1)]] .
  then show ?thesis using ids_okD lease_okD by blast
qed

text \<open>C12: The tasks of the store refine, step by step, a machine in which a server has at most one
  unfinished task, a task is claimed at most three times, only a held task is reported on, ended or
  taken back, and the result of an ended task stays: it starts empty, and every step of the store
  either leaves what the machine sees or is one step of the machine.\<close>

theorem tasks_refine_machine:
  assumes "fresh_world w0" "(lease_step C)\<^sup>*\<^sup>* w0 w" "lease_step C w w'"
  shows "task_views w0 = (\<lambda>_. None) \<and> machine_step\<^sup>*\<^sup>* (task_views w0) (task_views w)
    \<and> (task_views w' = task_views w \<or> machine_step (task_views w) (task_views w'))"
  using tasks.runs [OF assms(2) fresh_ok [OF assms(1)]] tasks.simulates [OF _ assms(3)] assms(1)
  by (simp add: fresh_world_def task_views_def fun_eq_iff)

text \<open>A task that has succeeded or failed never changes again, whatever arrives for it.\<close>

theorem finished_task_is_final:
  assumes "fresh_world w" "(lease_step C)\<^sup>*\<^sup>* w w'" "(lease_step C)\<^sup>*\<^sup>* w' w''"
    and "mget (lw_tasks w') i = Some r" "st_Status r = ''succeeded'' \<or> st_Status r = ''failed''"
  shows "mget (lw_tasks w'') i = Some r"
  using assms(3)
proof (induction rule: rtranclp_induct)
  case base
  show ?case by (rule assms(4))
next
  case (step y z)
  have "lease_ok y" using lease_steps_ok [OF rtranclp_trans [OF assms(2) step(1)] fresh_ok [OF assms(1)]] .
  then obtain r' where "mget (lw_tasks z) i = Some r'" "row_move r r'"
    using task_step [OF _ step(2,3)] by blast
  then show ?case using ended_stays assms(5) by blast
qed

text \<open>C13: Once an operation has been claimed again, a message under the token of an earlier claim
  changes nothing.\<close>

theorem late_messages_ignored:
  assumes "fresh_world w" "(lease_step C)\<^sup>*\<^sup>* w w'"
    and "(token, i, a) \<in> set (lw_claims w')" "(token', i, a') \<in> set (lw_claims w')" "a < a'"
    and "fr_OperationID (frame_fence_of fr) = i" "fr_LeaseToken (frame_fence_of fr) = token"
  shows "receive C e node fr (lw_tables w') = lw_tables w'"
proof -
  have ok: "lease_ok w'" using lease_steps_ok [OF assms(2) fresh_ok [OF assms(1)]] .
  note cl = claims_okD [OF lease_okD(4) [OF ok]]
  show ?thesis
    using receive_step [OF lease_okD(1) [OF ok], of node fr C e] unfolding message_step_def
  proof (elim disjE exE conjE)
    fix r r' assume "mget (lw_tasks w') (fence_OperationID (frame_lease node (frame_fence_of fr))) = Some r"
      and fence: "fence_ok (frame_lease node (frame_fence_of fr)) r" and "message_effect r r'"
    then have r: "mget (lw_tasks w') i = Some r" and held: "lease_held r"
      using assms(6) message_frame by (auto simp: frame_lease_def)
    from lease_okD(2) [OF ok r] held obtain t where
        t: "st_LeaseToken r = Some t" "(t, st_ID r, st_Attempt r) \<in> set (lw_claims w')"
      by (auto simp: task_ok_def)
    have "t = token"
      using fence t(1) cl(2) [OF assms(3)] assms(7)
      by (simp add: fence_ok_def taskFenceMatches_def frame_lease_def coalesce_def)
    then have "a = st_Attempt r" using cl(1) [OF assms(3)] t(2) by blast
    then show ?thesis using cl(3) [OF assms(4) r] assms(5) by simp
  qed
qed

text \<open>C14: An operation is handed out at most three times, and its attempt counter says how often.\<close>

theorem attempts_bounded:
  assumes "fresh_world w" "(lease_step C)\<^sup>*\<^sup>* w w'" "mget (lw_tasks w') i = Some r"
  shows "int (length (filter (\<lambda>(token, op, attempt). op = i) (lw_claims w'))) = st_Attempt r \<and> st_Attempt r \<le> 3"
proof -
  have ok: "lease_ok w'" using lease_steps_ok [OF assms(2) fresh_ok [OF assms(1)]] .
  have "attempts_of (lw_claims w') i = rev [1..st_Attempt r]"
    using lease_okD(4) [OF ok] assms(3) by (simp add: claims_ok_def)
  then have "length (filter (\<lambda>c. fst (snd c) = i) (lw_claims w')) = length (rev [1..st_Attempt r])"
    by (metis attempts_of_def length_map)
  moreover have "0 \<le> st_Attempt r" "st_Attempt r \<le> 3" using lease_okD(2) [OF ok assms(3)] by (simp_all add: task_ok_def)
  moreover have "(\<lambda>(token, op, attempt). op = i) = (\<lambda>c :: string \<times> string \<times> int. fst (snd c) = i)" by auto
  ultimately show ?thesis by simp
qed

lemma updated_other: "mget T i = Some r \<Longrightarrow> \<not> p r \<Longrightarrow> mget (updated p f T) i = Some r"
  by (simp add: mget_updated)

lemma running_not_expired: "st_Status r = ''running'' \<Longrightarrow> \<not> lease_expired now r"
  by (simp add: lease_expired_def)

lemma added_other: "tasks_added d d' \<Longrightarrow> mget (server_tasks d) i = Some r \<Longrightarrow> mget (server_tasks d') i = Some r"
  by (auto simp: tasks_added_def row_added_def mhas_def)

lemma running_moves:
  assumes ok: "lease_ok w" and step: "lease_step C w w'" and r: "mget (lw_tasks w) i = Some r" "st_Status r = ''running''"
    and changed: "mget (lw_tasks w') i \<noteq> Some r"
  obtains e node fr where "lw_tables w' = receive C e node fr (lw_tables w)"
  using step
proof cases
  case (message e n frame)
  then show thesis using that by simp
next
  case (enqueue d' e s n t g a k dg)
  then show thesis using added_other [OF EnqueueTask_added r(1)] changed by simp
next
  case (enqueue_with d0 e j s n t g a k dg inp x d1 d')
  have "tasks_added d0 d'" using enqueueTaskTx_added [OF enqueue_with(3)] enqueue_with(4) by (rule tasks_added_then)
  then show thesis using added_other r(1) changed enqueue_with(1,2) by (simp add: same_tasks_def)
next
  case (claim e n epoch t d')
  have "mget (server_tasks d') i = Some r"
    using lease_okD(1) [OF ok] claim(2)
    by (rule ClaimTask_cases) (use r in \<open>auto simp: claimable_def\<close>)
  then show thesis using changed claim(1) by simp
next
  case (requeue e now)
  then show thesis using changed updated_other [OF r(1)] running_not_expired [OF r(2)] by (simp add: requeue_expired_def)
next
  case (expire e now)
  have "mget (server_tasks (snd (fail_expired C e now (lw_tables w)))) i = Some r"
    by (rule fail_expired_cases [of C e now "lw_tables w"])
      (simp_all add: r(1) same_tasks_def updated_other [OF r(1)] running_not_expired [OF r(2)])
  then show thesis using changed expire by simp
next
  case (resolve e op srv n h)
  then show thesis using changed r(1) ResolveSecretHandle_used [of "lw_tables w" C e op srv n h] by simp
next
  case (elsewhere d')
  then show thesis using changed r(1) by (simp add: same_tasks_def)
qed

text \<open>C15: A running task moves only by a message of its agent under its own fence: it is never handed
  out again and its lease never expires. While it stays, its server accepts no other task.\<close>

theorem running_task_waits_for_its_agent:
  assumes "fresh_world w0" "(lease_step C)\<^sup>*\<^sup>* w0 w"
    and "mget (lw_tasks w) i = Some r" "st_Status r = ''running''"
  shows "(lease_step C w w' \<longrightarrow> mget (lw_tasks w') i \<noteq> Some r \<longrightarrow>
      (\<exists>e fr. lw_tables w' = receive C e (st_NodeID r) fr (lw_tables w)
         \<and> fr_OperationID (frame_fence_of fr) = i \<and> fence_ok (frame_lease (st_NodeID r) (frame_fence_of fr)) r))
    \<and> enqueueTaskTx C e2 j (st_ServerID r) n ty g a k dg inp (lw_tables w) \<noteq> Inr (Some x, d')"
proof (intro conjI impI notI)
  have ok: "lease_ok w" using lease_steps_ok [OF assms(2) fresh_ok [OF assms(1)]] .
  assume step: "lease_step C w w'" and changed: "mget (lw_tasks w') i \<noteq> Some r"
  obtain e node fr where fr: "lw_tables w' = receive C e node fr (lw_tables w)"
    using running_moves [OF ok step assms(3,4) changed] .
  from receive_step [OF lease_okD(1) [OF ok], of node fr C e]
  show "\<exists>e fr. lw_tables w' = receive C e (st_NodeID r) fr (lw_tables w)
         \<and> fr_OperationID (frame_fence_of fr) = i \<and> fence_ok (frame_lease (st_NodeID r) (frame_fence_of fr)) r"
    unfolding message_step_def
  proof (elim disjE exE conjE)
    assume "receive C e node fr (lw_tables w) = lw_tables w"
    then show ?thesis using fr changed assms(3) by simp
  next
    fix q q'
    let ?op = "fence_OperationID (frame_lease node (frame_fence_of fr))"
    assume q: "mget (lw_tasks w) ?op = Some q" "fence_ok (frame_lease node (frame_fence_of fr)) q"
      and put: "server_tasks (receive C e node fr (lw_tables w)) = mput ?op q' (lw_tasks w)"
    have "?op = i" using put fr changed assms(3) by (auto split: if_splits)
    then have "q = r" using q(1) assms(3) by simp
    moreover have "st_NodeID q = node" using q(2) by (simp add: fence_ok_def frame_lease_def)
    ultimately show ?thesis using fr q(2) \<open>?op = i\<close> by (auto simp: frame_lease_def)
  qed
next
  assume "enqueueTaskTx C e2 j (st_ServerID r) n ty g a k dg inp (lw_tables w) = Inr (Some x, d')"
  then obtain y d1 where ins: "insert_task e2 (new_task j (st_ServerID r) n ty g a k dg (if inp = [] then None else Some inp) (pg_now e2))
        (lw_tables w) = Inr (y, d1)"
    and rest: "(case y of None \<Rightarrow> ret None | Some i' \<Rightarrow> andThen (recordTaskOutboxEvent C e2 ''task.created''
        (task_created i' (st_ServerID r) n ty g)) (\<lambda>_. ret (Some i'))) d1 = Inr (Some x, d')"
    unfolding enqueueTaskTx_def by (rule andThen_Inr)
  have "y \<noteq> None" using rest by (cases y) (simp_all add: ret_Inr)
  with ins have "row_added (new_task j (st_ServerID r) n ty g a k dg (if inp = [] then None else Some inp) (pg_now e2)) (lw_tasks w)"
    by (elim insert_task_cases) simp_all
  then show False using assms(3,4) by (auto simp: row_added_def activeTask_def new_task_def)
qed

lemma fail_expired_error:
  assumes "fst (fail_expired C e now d) \<noteq> Inr ()"
  shows "snd (fail_expired C e now d) = d"
proof (cases "fail_expired C e now d")
  case (Pair res d')
  then have "d' = d" unfolding fail_expired_def
    by (elim transaction_cases) (use assms Pair in auto)
  then show ?thesis using Pair by simp
qed

text \<open>C16: What a pass of the reconciliation does with each task, whenever its first statement
  succeeds: an expired lease with attempts left is queued again; the expired leases without are failed
  with MAX_ATTEMPTS, all of them when the second transaction commits and none when it does not; every
  other task stays. When the second transaction fails, what it wrote is undone as a whole.\<close>

theorem expired_leases_reclaimed:
  assumes "\<not> pg_fails e RequeueExpired" "mget (server_tasks d) i = Some r"
  shows "mget (server_tasks (ReconcileTaskLeases C e now d)) i =
      Some (if \<not> lease_expired now r then r
            else if st_Attempt r < st_MaxAttempts r then requeue_task e r
            else if fst (fail_expired C e now (requeue_expired e now d)) = Inr () then expire_task e r else r)
    \<and> (fst (fail_expired C e now (requeue_expired e now d)) \<noteq> Inr () \<longrightarrow>
        ReconcileTaskLeases C e now d = requeue_expired e now d)"
proof (cases "fst (fail_expired C e now (requeue_expired e now d)) = Inr ()")
  case True
  let ?d1 = "requeue_expired e now d"
  obtain d' where run: "fail_expired C e now ?d1 = (Inr (), d')" using True by (cases "fail_expired C e now ?d1") auto
  have "same_tasks (?d1\<lparr>server_tasks := updated (\<lambda>r. lease_expired now r \<and> st_MaxAttempts r \<le> st_Attempt r)
        (expire_task e) (server_tasks ?d1)\<rparr>) d'"
    using run unfolding fail_expired_def
  proof (elim transaction_cases andThen_Inr)
    fix x x1 d1 x2 d2
    assume "stmt e FailExpired (update_tasks (\<lambda>r. lease_expired now r \<and> st_MaxAttempts r \<le> st_Attempt r)
        (expire_task e)) ?d1 = Inr (x1, d1)" "expire_each C e x1 d1 = Inr (x2, d2)" "commit e () d2 = Inr (x, d')"
    then show ?thesis using tx_relD [OF same_tasks_expire_each] by (auto simp: tx_Inr update_tasks_Inr)
  qed simp
  moreover have "\<not> lease_expired now (requeue_task e r)" by (simp add: lease_expired_def requeue_task_def)
  ultimately show ?thesis
    using assms run
    by (auto simp: ReconcileTaskLeases_def same_tasks_def mget_updated requeue_expired_def)
next
  case False
  then have "ReconcileTaskLeases C e now d = requeue_expired e now d"
    using assms(1) fail_expired_error [of C e now "requeue_expired e now d"] by (simp add: ReconcileTaskLeases_def)
  then show ?thesis using assms(2) False by (simp add: requeue_expired_def mget_updated)
qed

section \<open>Secret handles\<close>

lemma Resolve_Inr:
  assumes "ResolveSecretHandle C e op srv n h d = (Inr v, d')"
  obtains raw row t where "parseSecretHandle h = Inr raw"
    "mget (secret_handles d) (token_digest C raw) = Some row" "usable_handle e op srv n row"
    "mget (server_tasks d) op = Some t" "st_ServerID t = srv" "st_NodeID t = n"
    "st_Attempt t = sh_Attempt row" "lease_held t"
    "d' = d\<lparr>secret_handles := mput (token_digest C raw) (row\<lparr>sh_ConsumedAt := Some (pg_now e)\<rparr>) (secret_handles d)\<rparr>"
proof -
  obtain raw where raw: "parseSecretHandle h = Inr raw"
    using assms by (cases "parseSecretHandle h") (auto simp: ResolveSecretHandle_def)
  obtain row where row: "mget (secret_handles d) (token_digest C raw) = Some row" "usable_handle e op srv n row"
    using assms raw by (auto simp: ResolveSecretHandle_def Let_def split: if_splits option.splits)
  obtain t where t: "mget (server_tasks d) op = Some t"
    using assms raw row by (auto simp: ResolveSecretHandle_def Let_def split: if_splits option.splits)
  show thesis
    using assms raw row t
    by (intro that [OF raw row t]) (auto simp: ResolveSecretHandle_def Let_def lease_held_def split: if_splits sum.splits)
qed

lemma consumed_stays:
  assumes "lease_ok w" "lease_step C w w'" "mget (secret_handles (lw_tables w)) k = Some s" "sh_ConsumedAt s \<noteq> None"
  shows "mget (secret_handles (lw_tables w')) k = Some s"
  using assms(2) lease_okD(1) [OF assms(1)]
proof (cases rule: lease_step_kinds)
  case added
  then show ?thesis using assms(3) by (simp add: tasks_added_def)
next
  case (claimed r e n epoch)
  then show ?thesis using assms(3) unfolding sealed_for_def by (elim conjE allE [where x = k]) auto
next
  case moved
  then show ?thesis
    using spec [OF moved(3) [unfolded secrets_used_def], of k] assms(3,4) by (auto elim: option.rel_cases)
qed

lemma consumed_stays_steps:
  assumes "(lease_step C)\<^sup>*\<^sup>* w w'" "lease_ok w" "mget (secret_handles (lw_tables w)) k = Some s" "sh_ConsumedAt s \<noteq> None"
  shows "mget (secret_handles (lw_tables w')) k = Some s"
  using assms(1)
proof (induction rule: rtranclp_induct)
  case (step y z)
  then show ?case using consumed_stays [OF lease_steps_ok [OF step(1) assms(2)] step(2) _ assms(4)] by blast
qed (rule assms(3))

text \<open>C17: A secret handle gives its value once: after a successful exchange every later one under the
  same handle is refused, in every state that can follow, whoever asks.\<close>

theorem secret_handle_single_use:
  assumes "fresh_world w" "(lease_step C)\<^sup>*\<^sup>* w w1"
    and "ResolveSecretHandle C e op srv n h (lw_tables w1) = (Inr v, d)"
    and "(lease_step C)\<^sup>*\<^sup>* (w1\<lparr>lw_tables := d\<rparr>) w2"
  shows "fst (ResolveSecretHandle C e' op' srv' n' h (lw_tables w2)) \<noteq> Inr v'"
proof
  assume "fst (ResolveSecretHandle C e' op' srv' n' h (lw_tables w2)) = Inr v'"
  then obtain d' where again: "ResolveSecretHandle C e' op' srv' n' h (lw_tables w2) = (Inr v', d')"
    by (cases "ResolveSecretHandle C e' op' srv' n' h (lw_tables w2)") simp
  from assms(3) show False
  proof (rule Resolve_Inr)
    fix raw row t
    assume raw: "parseSecretHandle h = Inr raw"
      and d: "d = (lw_tables w1)\<lparr>secret_handles := mput (token_digest C raw) (row\<lparr>sh_ConsumedAt := Some (pg_now e)\<rparr>)
        (secret_handles (lw_tables w1))\<rparr>"
    have "lease_step C w1 (w1\<lparr>lw_tables := d\<rparr>)"
      using lease_step.resolve [of C w1 e op srv n h] assms(3) by simp
    then have ok: "lease_ok (w1\<lparr>lw_tables := d\<rparr>)"
      by (rule lease_ok_step [OF lease_steps_ok [OF assms(2) fresh_ok [OF assms(1)]]])
    have used: "mget (secret_handles (lw_tables w2)) (token_digest C raw) = Some (row\<lparr>sh_ConsumedAt := Some (pg_now e)\<rparr>)"
      by (rule consumed_stays_steps [OF assms(4) ok]) (simp_all add: d)
    from again show False
      by (rule Resolve_Inr) (use used raw in \<open>auto simp: usable_handle_def\<close>)
  qed
qed

text \<open>C18: A secret handle is exchanged only for the node that holds its task, and only while that task
  is in its first attempt: no handle of a later attempt is ever accepted.\<close>

theorem secret_handles_first_attempt_only:
  assumes "fresh_world w0" "(lease_step C)\<^sup>*\<^sup>* w0 w"
    and "fst (ResolveSecretHandle C e op srv n h (lw_tables w)) = Inr v"
  shows "\<exists>t. mget (lw_tasks w) op = Some t \<and> st_ServerID t = srv \<and> st_NodeID t = n \<and> lease_held t \<and> st_Attempt t = 1"
proof -
  have ok: "lease_ok w" using lease_steps_ok [OF assms(2) fresh_ok [OF assms(1)]] .
  obtain d' where "ResolveSecretHandle C e op srv n h (lw_tables w) = (Inr v, d')"
    using assms(3) by (cases "ResolveSecretHandle C e op srv n h (lw_tables w)") simp
  then show ?thesis
  proof (rule Resolve_Inr)
    fix raw row t
    assume "mget (secret_handles (lw_tables w)) (token_digest C raw) = Some row" "mget (lw_tasks w) op = Some t"
      "st_ServerID t = srv" "st_NodeID t = n" "st_Attempt t = sh_Attempt row" "lease_held t"
    then show ?thesis using lease_okD(5) [OF ok] by (auto simp: handles_ok_def)
  qed
qed

section \<open>The properties on the example\<close>

lemmas trial_world_simps = trial_w2_def trial_w3_def trial_w4_def trial_w6_def mget_def trial_running_def trial_done_def trial_again_def

theorem one_holder_per_task_witness:
  "st_ID trial_leased_row = ''t1'' \<and> task_ok [(''L1'', ''t1'', 1)] trial_leased_row"
proof -
  have "mget (lw_tasks trial_w2) ''t1'' = Some trial_leased_row" by (simp add: trial_world_simps)
  then have "st_ID trial_leased_row = ''t1'' \<and> task_ok (lw_claims trial_w2) trial_leased_row"
    using one_holder_per_task [OF trial_fresh trial_reach(1)] by blast
  then show ?thesis by (simp add: trial_w2_def)
qed

theorem tasks_refine_machine_witness:
  "tv_phase (view_of trial_done_row) = Done ''succeeded'' \<and> machine_step (task_views trial_w3) (task_views trial_w4)"
proof -
  have "task_views trial_w3 ''t1'' \<noteq> task_views trial_w4 ''t1''"
    by (simp add: task_views_def trial_world_simps view_of_def phase_of_def trial_running_row_def trial_done_row_def
      start_running_def end_task_def)
  then have "machine_step (task_views trial_w3) (task_views trial_w4)"
    using tasks_refine_machine [OF trial_fresh trial_reach(2) trial_steps(4)] by metis
  then show ?thesis by (simp add: view_of_def phase_of_def trial_done_row_def end_task_def)
qed

theorem finished_task_is_final_witness:
  "mget (server_tasks (receive trial_codec (trial_pg ''z'' 9) ''n1'' (TaskResult (trial_frame ''L1'' 1) False ''LATE'' [])
     trial_done)) ''t1'' = Some trial_done_row"
proof -
  let ?late = "trial_w4\<lparr>lw_tables := receive trial_codec (trial_pg ''z'' 9) ''n1''
     (TaskResult (trial_frame ''L1'' 1) False ''LATE'' []) (lw_tables trial_w4)\<rparr>"
  have step: "lease_step trial_codec trial_w4 ?late" by (rule lease_step.message)
  have row: "mget (lw_tasks trial_w4) ''t1'' = Some trial_done_row" by (simp add: trial_w4_def mget_def trial_done_def)
  have "st_Status trial_done_row = ''succeeded''" by (simp add: trial_done_row_def end_task_def)
  then have "mget (lw_tasks ?late) ''t1'' = Some trial_done_row"
    by (rule finished_task_is_final [OF trial_fresh trial_reach(3) r_into_rtranclp [of "lease_step trial_codec", OF step] row disjI1])
  then show ?thesis by (simp add: trial_w4_def)
qed

theorem late_messages_ignored_witness:
  "receive trial_codec (trial_pg ''z'' (70 * second)) ''n1'' (TaskResult (trial_frame ''L1'' 1) True [] []) trial_again = trial_again"
  using late_messages_ignored [OF trial_fresh trial_reach(4), of "''L1''" "''t1''" 1 "''L2''" 2
      "TaskResult (trial_frame ''L1'' 1) True [] []" "trial_pg ''z'' (70 * second)" "''n1''"]
  by (simp add: trial_w6_def trial_frame_def)

theorem attempts_bounded_witness:
  "int (length (filter (\<lambda>(token, op, attempt). op = ''t1'') [(''L2'', ''t1'', 2 :: int), (''L1'', ''t1'', 1)])) = 2
    \<and> st_Attempt trial_again_row \<le> 3"
proof -
  have "st_Attempt trial_again_row = 2" by (simp add: trial_again_row_def)
  then show ?thesis
    using attempts_bounded [OF trial_fresh trial_reach(4), of "''t1''" trial_again_row]
    by (simp add: trial_w6_def mget_def trial_again_def)
qed

theorem running_task_waits_for_its_agent_witness:
  "(\<exists>e fr. trial_done = receive trial_codec e ''n1'' fr trial_running \<and> fr_OperationID (frame_fence_of fr) = ''t1'')
   \<and> enqueueTaskTx trial_codec (trial_pg ''q'' 5) ''t2'' ''s1'' ''n1'' ''stop'' 1 ''u1'' ''key-00000000stop'' (replicate 32 (CHR ''e''))
       [] trial_running \<noteq> Inr (Some ''t2'', trial_running)"
proof -
  have r: "mget (lw_tasks trial_w3) ''t1'' = Some trial_running_row" by (simp add: trial_world_simps)
  have changed: "mget (lw_tasks trial_w4) ''t1'' \<noteq> Some trial_running_row"
    using trial_running_row_sel(2) by (auto simp: trial_w4_def trial_done_def mget_def trial_done_row_def end_task_def
        dest!: arg_cong [where f = st_Status])
  note waits = running_task_waits_for_its_agent [OF trial_fresh trial_reach(2) r trial_running_row_sel(2)]
  obtain e fr where "lw_tables trial_w4 = receive trial_codec e (st_NodeID trial_running_row) fr (lw_tables trial_w3)"
      "fr_OperationID (frame_fence_of fr) = ''t1''"
    using conjunct1 [OF waits, rule_format, OF trial_steps(4) changed] by blast
  then have "\<exists>e fr. trial_done = receive trial_codec e ''n1'' fr trial_running \<and> fr_OperationID (frame_fence_of fr) = ''t1''"
    by (auto simp: trial_w3_def trial_w4_def)
  then show ?thesis using conjunct2 [OF waits] by (simp add: trial_w3_def)
qed

theorem expired_leases_reclaimed_witness:
  "mget (server_tasks (ReconcileTaskLeases trial_codec (trial_pg ''x'' (60 * second)) (60 * second) trial_leased)) ''t1''
     = Some trial_requeued_row"
proof -
  have "fst (fail_expired trial_codec (trial_pg ''x'' (60 * second)) (60 * second) trial_requeued) = Inr ()"
    by (simp add: fail_expired_def transaction_def stmt_def andThen_def update_tasks_def matching_def trial_requeued_def
      lease_expired_def ret_def commit_def)
  moreover have "lease_expired (60 * second) trial_leased_row"
    by (simp add: lease_expired_def taskLeaseDuration_def second_def)
  ultimately show ?thesis
    using expired_leases_reclaimed [of "trial_pg ''x'' (60 * second)" trial_leased "''t1''" trial_leased_row trial_codec "60 * second"]
    by (simp add: trial_requeue mget_def trial_requeued_row_def)
qed

theorem secret_handle_single_use_witness:
  "fst (ResolveSecretHandle trial_codec (trial_pg ''h'' 4) ''t1'' ''s1'' ''n1'' trial_handle trial_used) \<noteq> Inr (''pw'', 2 + secretHandleTTL)"
  using secret_handle_single_use [OF trial_fresh trial_reach(1), of "trial_pg ''h'' 3" "''t1''" "''s1''" "''n1''" trial_handle
      "(''pw'', 2 + secretHandleTTL)" trial_used "trial_w2\<lparr>lw_tables := trial_used\<rparr>"] trial_resolve
  by (simp add: trial_w2_def)

theorem secret_handles_first_attempt_only_witness:
  "\<exists>t. mget (server_tasks trial_leased) ''t1'' = Some t \<and> st_NodeID t = ''n1'' \<and> lease_held t \<and> st_Attempt t = 1"
  using secret_handles_first_attempt_only [OF trial_fresh trial_reach(1), of "trial_pg ''h'' 3" "''t1''" "''s1''" "''n1''" trial_handle]
    trial_resolve by (auto simp: trial_w2_def)

end
