(* ===== verification/Task_Results.thy ===== *)
theory Task_Results
  imports Lease_Properties
begin

text \<open>
  What the end of a task means for its backup: a result is checked before the backup becomes ready, a
  failure is compensated, and a conflict undoes the whole transaction.
\<close>

section \<open>One conflict blocks the expiry\<close>

definition not_creating :: "string \<Rightarrow> string \<Rightarrow> tables \<Rightarrow> bool" where
  "not_creating b s d \<longleftrightarrow> (\<forall>row. mget (backup_rows d) b = Some row \<longrightarrow> \<not> (bu_ServerID row = s \<and> bu_Status row = ''creating''))"

definition creates_nothing :: "tables \<Rightarrow> tables \<Rightarrow> bool" where
  "creates_nothing d d' \<longleftrightarrow> (\<forall>b s. not_creating b s d \<longrightarrow> not_creating b s d')"

lemma creates_nothing_order [simp]: "reflp creates_nothing" "transp creates_nothing"
  by (auto simp: creates_nothing_def reflp_def transp_def)

lemmas creates_nothing_then = tx_rel_andThen [where R = creates_nothing, OF creates_nothing_order(2)]

lemma creates_nothing_same: "backup_rows d' = backup_rows d \<Longrightarrow> creates_nothing d d'"
  by (simp add: creates_nothing_def not_creating_def)

lemma creates_nothing_event [tx_rels]: "tx_rel creates_nothing (recordTaskOutboxEvent C e ty p)"
  unfolding recordTaskOutboxEvent_def
  by (rule tx_rel_stmt, rule tx_relI) (auto intro: creates_nothing_same split: if_splits)

lemma creates_nothing_audit [tx_rels]: "tx_rel creates_nothing (insert_audit e row)"
  unfolding insert_audit_def by (rule tx_rel_stmt, rule tx_rel_change) (simp add: creates_nothing_same)

lemma creates_nothing_update [tx_rels]:
  assumes "status \<noteq> ''creating''"
  shows "tx_rel creates_nothing (update_backup b p (compensate_row status code))"
  unfolding update_backup_def using assms
  by (intro tx_relI) (auto simp: creates_nothing_def not_creating_def compensate_row_def split: option.splits if_splits)

lemma compensated_status_Inr:
  "compensated_status e ty b s d = Inr ((old, new), d') \<Longrightarrow>
     d' = d \<and> new \<noteq> ''creating'' \<and> (ty = ''backup'' \<longrightarrow> old = ''creating'')"
  by (auto simp: compensated_status_def tx_Inr split: if_splits option.splits)

lemma require_Inr: "require p d = Inr (x, d') \<longleftrightarrow> p = None \<and> d' = d"
  by (cases p) (auto simp: require_def ret_def fail_def)

lemma compensate_cases:
  assumes "compensateBackupTaskTx C e ty ck s code d = Inr (x, d')"
  obtains "d' = d" "ty = ''backup'' \<Longrightarrow> backup_payload_in C ck = Some p \<Longrightarrow> bp_BackupID p = []"
  | p old new n where "backup_payload_in C ck = Some p" "compensated_status e ty (bp_BackupID p) s d = Inr ((old, new), d)"
      "update_backup (bp_BackupID p) (\<lambda>b. bu_ServerID b = s \<and> bu_Status b = old) (compensate_row new code) d = Inr (n, d')"
      "requireBackupTransition n old new = None"
proof (cases "ty \<noteq> ''backup'' \<and> ty \<noteq> ''restore'' \<and> ty \<noteq> ''backup-delete''
    \<or> (\<forall>p. backup_payload_in C ck = Some p \<longrightarrow> bp_BackupID p = [])")
  case True
  then have "d' = d" using assms by (auto simp: compensateBackupTaskTx_def ret_Inr split: if_splits option.splits)
  then show thesis using True that(1) by auto
next
  case False
  then obtain p where p: "backup_payload_in C ck = Some p" "bp_BackupID p \<noteq> []" by blast
  then have run: "andThen (compensated_status e ty (bp_BackupID p) s) (\<lambda>(old, new).
      andThen (stmt e UpdateBackup (update_backup (bp_BackupID p)
           (\<lambda>b. bu_ServerID b = s \<and> bu_Status b = old) (compensate_row new code)))
         (\<lambda>affected. require (requireBackupTransition affected old new))) d = Inr (x, d')"
    using assms False by (auto simp: compensateBackupTaskTx_def split: if_splits)
  then obtain st d1 where st: "compensated_status e ty (bp_BackupID p) s d = Inr (st, d1)"
    and rest: "(case st of (old, new) \<Rightarrow> andThen (stmt e UpdateBackup (update_backup (bp_BackupID p)
           (\<lambda>b. bu_ServerID b = s \<and> bu_Status b = old) (compensate_row new code)))
         (\<lambda>affected. require (requireBackupTransition affected old new))) d1 = Inr (x, d')"
    by (rule andThen_Inr)
  obtain old new where on: "st = (old, new)" by (cases st)
  have "d1 = d" using compensated_status_Inr st on by blast
  from rest on obtain n d2 where "stmt e UpdateBackup (update_backup (bp_BackupID p)
           (\<lambda>b. bu_ServerID b = s \<and> bu_Status b = old) (compensate_row new code)) d1 = Inr (n, d2)"
      "require (requireBackupTransition n old new) d2 = Inr (x, d')"
    by (auto elim: andThen_Inr)
  then show thesis using that(2) [OF p(1)] st on \<open>d1 = d\<close> by (auto simp: tx_Inr require_Inr)
qed

lemma creates_nothing_compensate [tx_rels]: "tx_rel creates_nothing (compensateBackupTaskTx C e ty ck s code)"
proof (rule tx_relI)
  fix d x d' assume "compensateBackupTaskTx C e ty ck s code d = Inr (x, d')"
  then show "creates_nothing d d'"
  proof (rule compensate_cases)
    fix p old new n
    assume st: "compensated_status e ty (bp_BackupID p) s d = Inr ((old, new), d)"
      and up: "update_backup (bp_BackupID p) (\<lambda>b. bu_ServerID b = s \<and> bu_Status b = old) (compensate_row new code) d = Inr (n, d')"
    have "new \<noteq> ''creating''" using compensated_status_Inr [OF st] by simp
    then show ?thesis using tx_relD [OF creates_nothing_update up] by blast
  qed (simp add: creates_nothing_same)
qed

lemma compensate_conflict:
  assumes "backup_payload_in C ck = Some p" "bp_BackupID p \<noteq> []" "not_creating (bp_BackupID p) s d"
  shows "compensateBackupTaskTx C e ''backup'' ck s code d \<noteq> Inr (x, d')"
proof
  assume "compensateBackupTaskTx C e ''backup'' ck s code d = Inr (x, d')"
  then show False
  proof (rule compensate_cases)
    fix q old new n
    assume q: "backup_payload_in C ck = Some q" and st: "compensated_status e ''backup'' (bp_BackupID q) s d = Inr ((old, new), d)"
      and up: "update_backup (bp_BackupID q) (\<lambda>b. bu_ServerID b = s \<and> bu_Status b = old) (compensate_row new code) d = Inr (n, d')"
      and req: "requireBackupTransition n old new = None"
    have "old = ''creating''" using compensated_status_Inr [OF st] by simp
    then have "n = 0" using up q assms(1,3) by (auto simp: update_backup_def not_creating_def split: option.splits if_splits)
    then show False using req by (simp add: requireBackupTransition_def requireSingleRow_def split: if_splits)
  qed (use assms in blast)
qed

lemma expire_each_conflict:
  assumes "t \<in> set ts" "st_TaskType t = ''backup''" "backup_payload_in C (task_payload t) = Some p" "bp_BackupID p \<noteq> []"
    and "not_creating (bp_BackupID p) (st_ServerID t) d"
  shows "\<exists>err. expire_each C e ts d = Inl err"
  using assms(1,5)
proof (induction ts arbitrary: d)
  case (Cons u ts)
  show ?case
  proof (rule ccontr)
    assume "\<not> ?case"
    then obtain x d' where "expire_each C e (u # ts) d = Inr (x, d')"
      by (cases "expire_each C e (u # ts) d") auto
    then obtain x1 d1 x2 d2 x3 d3 where
      c: "compensateBackupTaskTx C e (st_TaskType u) (task_payload u) (st_ServerID u) ''MAX_ATTEMPTS'' d = Inr (x1, d1)"
      and d2: "creates_nothing d1 d2" and d3: "creates_nothing d2 d3" and rest: "expire_each C e ts d3 = Inr (x3, d')"
      by (auto elim!: andThen_Inr dest!: tx_relD [OF creates_nothing_event] tx_relD [OF creates_nothing_audit])
    have "creates_nothing d d1" using tx_relD [OF creates_nothing_compensate c] .
    then have keep: "not_creating (bp_BackupID p) (st_ServerID t) d3"
      using d2 d3 Cons.prems(2) unfolding creates_nothing_def by blast
    show False
    proof (cases "u = t")
      case True
      then show False using compensate_conflict [OF assms(3,4) Cons.prems(2)] c assms(2) by simp
    next
      case False
      then show False using Cons.IH [OF _ keep] Cons.prems(1) rest by auto
    qed
  qed
qed simp

text \<open>When one task that has used up its attempts carries a backup that is not being created any
  more, the pass that fails such tasks changes nothing at all: every other exhausted task stays leased.\<close>

theorem one_conflict_blocks_expiry:
  assumes "mget (server_tasks d) i = Some t" "lease_expired now t" "st_MaxAttempts t \<le> st_Attempt t"
    and "st_TaskType t = ''backup''" "backup_payload_in C (task_payload t) = Some p" "bp_BackupID p \<noteq> []"
    and "not_creating (bp_BackupID p) (st_ServerID t) d"
  shows "snd (fail_expired C e now d) = d"
proof -
  obtain res d' where run: "fail_expired C e now d = (res, d')" by (cases "fail_expired C e now d")
  then have "d' = d" unfolding fail_expired_def
  proof (elim transaction_cases andThen_Inr)
    fix x x1 d1 x2 d2
    assume "stmt e FailExpired (update_tasks (\<lambda>r. lease_expired now r \<and> st_MaxAttempts r \<le> st_Attempt r)
        (expire_task e)) d = Inr (x1, d1)" and failing: "expire_each C e x1 d1 = Inr (x2, d2)"
    then have x1: "x1 = map (expire_task e) (matching (\<lambda>r. lease_expired now r \<and> st_MaxAttempts r \<le> st_Attempt r) (server_tasks d))"
      and d1: "backup_rows d1 = backup_rows d" by (auto simp: tx_Inr update_tasks_Inr)
    have "(i, t) \<in> set (server_tasks d)" using assms(1) by (rule mget_in_set)
    then have "t \<in> set (matching (\<lambda>r. lease_expired now r \<and> st_MaxAttempts r \<le> st_Attempt r) (server_tasks d))"
      using assms(2,3) by (force simp: matching_def)
    then have "expire_task e t \<in> set x1" by (simp add: x1)
    moreover have "not_creating (bp_BackupID p) (st_ServerID t) d1" using assms(7) by (simp add: not_creating_def d1)
    moreover have "st_TaskType (expire_task e t) = st_TaskType t" "st_ServerID (expire_task e t) = st_ServerID t"
        "task_payload (expire_task e t) = task_payload t"
      by (simp_all add: expire_task_def end_task_def task_payload_def)
    ultimately show ?thesis
      using expire_each_conflict [of "expire_task e t" x1 C p d1 e] assms(4-6) failing by auto
  qed simp
  then show ?thesis using run by simp
qed

section \<open>Backups\<close>




definition backups_same :: "tables \<Rightarrow> tables \<Rightarrow> bool" where
  "backups_same d d' \<longleftrightarrow> backup_rows d' = backup_rows d"






lemma backups_same_history [tx_rels]: "tx_rel backups_same (set_history e h s)"
  unfolding set_history_def by (rule tx_rel_stmt, rule tx_rel_change) (simp add: backups_same_def)


















section \<open>The properties on an example\<close>



definition trial_backup_task :: task_row where
  "trial_backup_task = new_task ''t1'' ''s1'' ''n1'' ''backup'' 1 ''u1'' ''key-0123456789ab'' (replicate 32 (CHR ''d'')) (Some ''b1'') 1"




lemma trial_backup_task_sel [simp]:
  "task_checks trial_backup_task" "st_ID trial_backup_task = ''t1''" "st_Status trial_backup_task = ''queued''"
  "st_ServerID trial_backup_task = ''s1''"
  "st_NodeID trial_backup_task = ''n1''" "st_Attempt trial_backup_task = 0" "st_MaxAttempts trial_backup_task = 3"
  "st_TaskType trial_backup_task = ''backup''" "st_TaskInput trial_backup_task = Some ''b1''"
  "st_ErrorRetryable trial_backup_task = None" "st_StateVersion trial_backup_task = 0" "st_Checkpoint trial_backup_task = None"
  by (code_simp, simp_all add: trial_backup_task_def new_task_def)






theorem one_conflict_blocks_expiry_witness:
  "snd (fail_expired trial_codec (trial_pg ''x'' 9) 9 (trial_tables\<lparr>server_tasks :=
      [(''t2'', trial_leased_row\<lparr>st_Attempt := 3, st_LeaseExpiresAt := Some 1\<rparr>),
       (''t1'', trial_backup_task\<lparr>st_Attempt := 3, st_Status := ''leased'', st_LeaseExpiresAt := Some 1\<rparr>)]\<rparr>))
   = trial_tables\<lparr>server_tasks :=
      [(''t2'', trial_leased_row\<lparr>st_Attempt := 3, st_LeaseExpiresAt := Some 1\<rparr>),
       (''t1'', trial_backup_task\<lparr>st_Attempt := 3, st_Status := ''leased'', st_LeaseExpiresAt := Some 1\<rparr>)]\<rparr>"
  by (rule one_conflict_blocks_expiry [where i = "''t1''" and p = "\<lparr>bp_BackupID = ''b1'', bp_StorageObjectKey = []\<rparr>"
      and t = "trial_backup_task\<lparr>st_Attempt := 3, st_Status := ''leased'', st_LeaseExpiresAt := Some 1\<rparr>"])
    (simp_all add: mget_def lease_expired_def task_payload_def coalesce_def not_creating_def trial_tables_def)

end
