(* ===== verification/Agent_World.thy ===== *)
theory Agent_World
  imports Agent_Tasks Task_Results
begin

text \<open>
  The invariant of the agent's workers: the tables of registrations and of locks name exactly the
  workers in the stages they protect, and the journal stays within its bound. What a worker did is
  read off the log.
\<close>

section \<open>Tables of holders\<close>

text \<open>A table that names, for each key, the one worker in a protected stage.\<close>

definition guards :: "(agent_task \<Rightarrow> string) \<Rightarrow> (stage \<Rightarrow> bool) \<Rightarrow> (string, nat) gomap \<Rightarrow> (nat, agent_task \<times> stage) gomap \<Rightarrow> bool" where
  "guards key inside holders W \<longleftrightarrow>
     (\<forall>k w. mget holders k = Some w \<longleftrightarrow> (\<exists>t s. mget W w = Some (t, s) \<and> key t = k \<and> inside s))"

lemma guards_one:
  assumes "guards key inside holders W" "mget W v = Some (t, s)" "inside s" "mget W w = Some (u, r)" "inside r" "key u = key t"
  shows "v = w"
proof -
  have "mget holders (key t) = Some v" "mget holders (key t) = Some w"
    using assms unfolding guards_def by blast+
  then show ?thesis by simp
qed

lemma guards_stay:
  assumes "guards key inside holders W" "mget W w = Some (t, s)" "inside s' \<longleftrightarrow> inside s"
  shows "guards key inside holders (mput w (t, s') W)"
  using assms unfolding guards_def by (auto split: if_splits)

lemma guards_new:
  assumes "guards key inside holders W" "mget W w = None" "\<not> inside s"
  shows "guards key inside holders (mput w (t, s) W)"
  using assms unfolding guards_def by (auto split: if_splits)

lemma guards_enter:
  assumes "guards key inside holders W" "mget W w = Some (t, s)" "\<not> inside s" "inside s'" "mget holders (key t) = None"
  shows "guards key inside (mput (key t) w holders) (mput w (t, s') W)"
  using assms unfolding guards_def by (auto split: if_splits) (metis option.distinct(1))+

lemma guards_leave:
  assumes "guards key inside holders W" "mget W w = Some (t, s)" "inside s" "\<not> inside s'"
  shows "guards key inside (mdel (key t) holders) (mput w (t, s') W)"
  unfolding guards_def
proof (intro allI)
  fix k v
  have H: "mget holders k = Some v \<longleftrightarrow> (\<exists>u r. mget W v = Some (u, r) \<and> key u = k \<and> inside r)" for k v
    using assms(1) unfolding guards_def by blast
  show "mget (mdel (key t) holders) k = Some v \<longleftrightarrow> (\<exists>u r. mget (mput w (t, s') W) v = Some (u, r) \<and> key u = k \<and> inside r)"
  proof (cases "v = w")
    case True
    then show ?thesis using H [of k v] assms(2-) by auto
  next
    case False
    have "\<not> (\<exists>u r. mget W v = Some (u, r) \<and> key u = key t \<and> inside r)"
      using guards_one [OF assms(1,2,3)] False by blast
    then show ?thesis using H [of k v] False by auto
  qed
qed

lemma guards_gone:
  assumes "guards key inside holders W" "mget W w = Some (t, s)" "\<not> inside s"
  shows "guards key inside holders (mdel w W)"
  using assms unfolding guards_def by (auto split: if_splits)

lemma guards_exit:
  assumes "guards key inside holders W" "mget W w = Some (t, s)" "inside s"
  shows "guards key inside (mdel (key t) holders) (mdel w W)"
  unfolding guards_def
proof (intro allI)
  fix k v
  have H: "mget holders k = Some v \<longleftrightarrow> (\<exists>u r. mget W v = Some (u, r) \<and> key u = k \<and> inside r)" for k v
    using assms(1) unfolding guards_def by blast
  show "mget (mdel (key t) holders) k = Some v \<longleftrightarrow> (\<exists>u r. mget (mdel w W) v = Some (u, r) \<and> key u = k \<and> inside r)"
  proof (cases "v = w")
    case True
    then show ?thesis using H [of k v] assms(2-) by auto
  next
    case False
    have "\<not> (\<exists>u r. mget W v = Some (u, r) \<and> key u = key t \<and> inside r)"
      using guards_one [OF assms(1,2,3)] False by blast
    then show ?thesis using H [of k v] False by auto
  qed
qed

section \<open>The invariant\<close>

definition agent_ok :: "nat \<Rightarrow> agent \<Rightarrow> bool" where
  "agent_ok pool a \<longleftrightarrow> mwf (ag_workers a) \<and> (\<forall>w. mhas (ag_workers a) w \<longrightarrow> w < ag_next a)
     \<and> length (ag_workers a) \<le> pool \<and> length (ag_queue a) \<le> 2 * pool
     \<and> guards tk_OperationID registered (ag_inflight a) (ag_workers a)
     \<and> guards tk_ServerID holds_lock (ag_locks a) (ag_workers a)
     \<and> journal_ok (ag_journal a)"

definition orders :: "agent_env \<Rightarrow> bool" where
  "orders e \<longleftrightarrow> sorts_by_age (dk_order (ae_disk e))"

lemma log_frames_sel [simp]:
  "ag_journal (log_frames fs a) = ag_journal a" "ag_inflight (log_frames fs a) = ag_inflight a"
  "ag_results (log_frames fs a) = ag_results a" "ag_locks (log_frames fs a) = ag_locks a"
  "ag_workers (log_frames fs a) = ag_workers a" "ag_queue (log_frames fs a) = ag_queue a"
  "ag_next (log_frames fs a) = ag_next a" "ag_log (log_frames fs a) = ag_log a @ map Sent fs"
  by (simp_all add: log_frames_def)

lemmas frame_defs = sendAck_def replayJournalResult_def sendTaskResult_def reply_def Let_def

text \<open>What a step of a worker leaves alone, and what it does to the two tables.\<close>

lemma worker_step_frame:
  assumes "worker_step L e w task s a = Some (next, a')"
  shows "ag_workers a' = ag_workers a \<and> ag_queue a' = ag_queue a \<and> ag_next a' = ag_next a"
  using assms
  by (cases s) (auto simp: consult_journal_def registerInflight_def record_running_def execute_def check_journal_def frame_defs
      split: sum.splits option.splits if_splits prod.splits)

lemma RecordRunning_run:
  "RecordRunning k i digest attempt db = (err, db') \<Longrightarrow> journal_ok db \<Longrightarrow> sorts_by_age (dk_order k) \<Longrightarrow> journal_ok db'"
  using RecordRunning_ok [of db k i digest attempt] by simp

lemma worker_step_journal:
  assumes "worker_step L e w task s a = Some (next, a')" "orders e" "journal_ok (ag_journal a)"
  shows "journal_ok (ag_journal a')"
  using assms RecordRunning_run journal_complete_ok
  by (cases s) (auto simp: consult_journal_def registerInflight_def record_running_def execute_def check_journal_def frame_defs orders_def
      split: sum.splits option.splits if_splits prod.splits)

text \<open>How a step of a worker treats a table: it stays outside or inside, enters, leaves or returns.\<close>

definition moved_in ::
  "(agent_task \<Rightarrow> string) \<Rightarrow> (stage \<Rightarrow> bool) \<Rightarrow> nat \<Rightarrow> agent_task \<Rightarrow> stage \<Rightarrow> stage option \<Rightarrow> (string, nat) gomap \<Rightarrow> (string, nat) gomap \<Rightarrow> bool" where
  "moved_in key inside w t s next H H' \<longleftrightarrow>
     (case next of
        None \<Rightarrow> if inside s then H' = mdel (key t) H else H' = H
      | Some s' \<Rightarrow>
          if inside s = inside s' then H' = H
          else if inside s then H' = mdel (key t) H
          else mget H (key t) = None \<and> H' = mput (key t) w H)"

lemma guards_move:
  assumes "guards key inside H W" "mget W w = Some (t, s)" "moved_in key inside w t s next H H'"
  shows "guards key inside H' (case next of None \<Rightarrow> mdel w W | Some s' \<Rightarrow> mput w (t, s') W)"
proof (cases "next")
  case None
  then show ?thesis using assms guards_gone [OF assms(1,2)] guards_exit [OF assms(1,2)] by (auto simp: moved_in_def split: if_splits)
next
  case (Some s')
  then show ?thesis
    using assms guards_stay [OF assms(1,2)] guards_enter [OF assms(1,2)] guards_leave [OF assms(1,2)]
    by (auto simp: moved_in_def split: if_splits)
qed

lemma worker_step_tables:
  assumes "worker_step L e w t s a = Some (next, a')"
  shows "moved_in tk_OperationID registered w t s next (ag_inflight a) (ag_inflight a')
    \<and> moved_in tk_ServerID holds_lock w t s next (ag_locks a) (ag_locks a')"
  using assms
  by (cases s) (auto simp: moved_in_def consult_journal_def registerInflight_def record_running_def execute_def check_journal_def frame_defs
      mhas_def split: sum.splits option.splits if_splits prod.splits)

lemma length_mput_has: "mhas m k \<Longrightarrow> length (mput k v m) = length m"
  by (simp add: length_mput)

lemma length_mdel_le': "length (mdel k m) \<le> length m"
  by (simp add: mdel_def AList.delete_eq)

lemma agent_step_ok:
  assumes ok: "agent_ok pool a" and step: "agent_step L pool orders a a'"
  shows "agent_ok pool a'"
  using step
proof cases
  case (take t queue)
  have "\<not> mhas (ag_workers a) (ag_next a)" using ok by (auto simp: agent_ok_def)
  then have "mget (ag_workers a) (ag_next a) = None" unfolding mhas_def by blast
  then show ?thesis
    using ok take by (auto simp: agent_ok_def less_Suc_eq length_mput intro!: guards_new)
next
  case (work w t s e "next" b)
  note frame = worker_step_frame [OF work(4)] and tables = worker_step_tables [OF work(4)]
  have W: "ag_workers a' = (case next of None \<Rightarrow> mdel w (ag_workers a) | Some s' \<Rightarrow> mput w (t, s') (ag_workers a))"
    using frame work(1) by (auto simp: move_worker_def split: option.splits)
  have rest: "ag_inflight a' = ag_inflight b" "ag_locks a' = ag_locks b" "ag_journal a' = ag_journal b"
      "ag_next a' = ag_next a" "ag_queue a' = ag_queue a"
    using frame work(1) by (auto simp: move_worker_def split: option.splits)
  have "guards tk_OperationID registered (ag_inflight a') (ag_workers a')"
       "guards tk_ServerID holds_lock (ag_locks a') (ag_workers a')"
    unfolding W rest using ok work(2) tables by (auto simp: agent_ok_def intro!: guards_move)
  moreover have "journal_ok (ag_journal a')"
    unfolding rest using worker_step_journal [OF work(4)] work(3) ok by (simp add: agent_ok_def)
  moreover have "mwf (ag_workers a') \<and> (\<forall>v. mhas (ag_workers a') v \<longrightarrow> v < ag_next a) \<and> length (ag_workers a') \<le> pool"
    unfolding W using ok work(2) length_mdel_le' [of w "ag_workers a"] mhas_Some [OF work(2)]
    by (auto simp: agent_ok_def length_mput_has mhas_def split: option.splits if_splits)
  ultimately show ?thesis using ok rest by (simp add: agent_ok_def)
next
  case restart
  then show ?thesis using ok Open_ok by (auto simp: agent_ok_def guards_def mhas_def)
qed (use ok in \<open>auto simp: agent_ok_def guards_def mhas_def\<close>)

lemma agent_steps_ok: "(agent_step L pool orders)\<^sup>*\<^sup>* a a' \<Longrightarrow> agent_ok pool a \<Longrightarrow> agent_ok pool a'"
  by (induction rule: rtranclp_induct) (auto intro: agent_step_ok)

lemma new_agent_ok: "journal_ok db \<Longrightarrow> agent_ok pool (new_agent db)"
  using Open_ok by (auto simp: new_agent_def agent_ok_def guards_def mhas_def)

end
