(* ===== verification/Agent_Properties.thy ===== *)
theory Agent_Properties
  imports Agent_World
begin

text \<open>
  What holds of the agent in every interleaving: exclusive execution per server and operation, no
  second execution of a journaled operation, results that survive a restart, and how a redelivery
  that meets the first execution can still execute twice.
\<close>

section \<open>Exclusion\<close>

text \<open>C24: No two workers work under the lock of one server, no two are registered for one operation, the
  pool has at most eight workers and the journal at most 512 entries.\<close>

theorem exclusive_execution:
  assumes "journal_ok db" "(agent_step L (worker_count m) orders)\<^sup>*\<^sup>* (new_agent db) a"
  shows "(\<forall>v w t u s r. mget (ag_workers a) v = Some (t, s) \<longrightarrow> mget (ag_workers a) w = Some (u, r) \<longrightarrow> v \<noteq> w \<longrightarrow>
      \<not> (tk_ServerID t = tk_ServerID u \<and> holds_lock s \<and> holds_lock r)
      \<and> \<not> (tk_OperationID t = tk_OperationID u \<and> registered s \<and> registered r))
    \<and> length (ag_workers a) \<le> 8 \<and> (\<forall>bucket. ag_journal a = Some bucket \<longrightarrow> length bucket \<le> 512)"
proof -
  have ok: "agent_ok (worker_count m) a" using agent_steps_ok [OF assms(2) new_agent_ok [OF assms(1)]] .
  then have ops: "guards tk_OperationID registered (ag_inflight a) (ag_workers a)"
    and locks: "guards tk_ServerID holds_lock (ag_locks a) (ag_workers a)"
    and small: "length (ag_workers a) \<le> worker_count m" and journal: "journal_ok (ag_journal a)"
    by (simp_all add: agent_ok_def)
  have "worker_count m \<le> 8" by (simp add: worker_count_def)
  then have "length (ag_workers a) \<le> 8" using small by simp
  moreover have "\<forall>bucket. ag_journal a = Some bucket \<longrightarrow> length bucket \<le> 512"
    using journal by (simp add: journal_ok_def journalMaxEntries_def)
  moreover have "v = w" if "mget (ag_workers a) v = Some (t, s)" "mget (ag_workers a) w = Some (u, r)"
      "tk_ServerID t = tk_ServerID u" "holds_lock s" "holds_lock r" for v w t u s r
    using guards_one [OF locks that(1,4,2,5)] that(3) by simp
  moreover have "v = w" if "mget (ag_workers a) v = Some (t, s)" "mget (ag_workers a) w = Some (u, r)"
      "tk_OperationID t = tk_OperationID u" "registered s" "registered r" for v w t u s r
    using guards_one [OF ops that(1,4,2,5)] that(3) by simp
  ultimately show ?thesis by blast
qed

section \<open>No second execution\<close>

fun executes :: "string \<Rightarrow> agent_event \<Rightarrow> bool" where
  "executes i (Executed j w) = (j = i)"
| "executes i (Sent f) = False"

definition executions :: "string \<Rightarrow> agent \<Rightarrow> nat" where
  "executions i a = length (filter (executes i) (ag_log a))"

definition recorded :: "string \<Rightarrow> agent \<Rightarrow> bool" where
  "recorded i a \<longleftrightarrow> (\<exists>bucket entry. ag_journal a = Some bucket \<and> mget bucket i = Some (Some entry))"

text \<open>The stages from which a worker goes on to execute without looking at the journal again.\<close>

definition heading :: "stage \<Rightarrow> bool" where
  "heading s \<longleftrightarrow> s = Registering \<or> s = Recording \<or> s = Locking \<or> s = Executing"

definition none_heading :: "string \<Rightarrow> agent \<Rightarrow> bool" where
  "none_heading i a \<longleftrightarrow> (\<forall>w t s. mget (ag_workers a) w = Some (t, s) \<longrightarrow> tk_OperationID t = i \<longrightarrow> \<not> heading s)"

definition readable :: "agent_env \<Rightarrow> bool" where
  "readable e \<longleftrightarrow> orders e \<and> \<not> dk_view_fails (ae_disk e)"

lemma executes_Sent [simp]: "filter (executes i) (map Sent fs) = []"
  by (induction fs) auto

lemma not_heading_step:
  assumes "worker_step L e w t s a = Some (next, a')" "readable e" "recorded (tk_OperationID t) a" "\<not> heading s"
  shows "(\<forall>s'. next = Some s' \<longrightarrow> \<not> heading s') \<and> executions i a' = executions i a"
  using assms
  by (cases s) (auto simp: heading_def consult_journal_def journal_lookup_def readable_def recorded_def executions_def check_journal_def frame_defs
      split: sum.splits option.splits if_splits prod.splits)

lemma other_executions:
  assumes "worker_step L e w t s a = Some (next, a')" "tk_OperationID t \<noteq> i"
  shows "executions i a' = executions i a"
  using assms
  by (cases s) (auto simp: consult_journal_def registerInflight_def record_running_def execute_def check_journal_def executions_def frame_defs
      split: sum.splits option.splits if_splits prod.splits)

lemma recorded_step:
  assumes "agent_step L pool readable a a'" "recorded i a" "none_heading i a"
  shows "none_heading i a' \<and> executions i a' = executions i a"
  using assms(1)
proof cases
  case (work w t s e "next" b)
  have W: "ag_workers b = ag_workers a" using worker_step_frame [OF work(4)] by simp
  have log: "executions i a' = executions i b" using work(1) by (simp add: move_worker_def executions_def split: option.splits)
  show ?thesis
  proof (cases "tk_OperationID t = i")
    case True
    then have "\<not> heading s" using assms(3) work(2) unfolding none_heading_def by blast
    from not_heading_step [OF work(4,3) _ this, of i] True assms(2)
    have "(\<forall>s'. next = Some s' \<longrightarrow> \<not> heading s') \<and> executions i b = executions i a" by simp
    then show ?thesis
      using assms(3) log unfolding work(1) none_heading_def
      by (auto simp: move_worker_def W split: option.splits if_splits)
  next
    case False
    then show ?thesis
      using assms(3) other_executions [OF work(4)] log unfolding work(1) none_heading_def
      by (auto simp: move_worker_def W split: option.splits if_splits)
  qed
next
  case (take t queue)
  then show ?thesis using assms(3) by (auto simp: none_heading_def executions_def heading_def split: if_splits)
qed (use assms(3) in \<open>auto simp: none_heading_def executions_def\<close>)

text \<open>C25: Once the journal holds an operation, and provided that no worker has already passed its look at
  the journal for it on the way to the execution, the operation is never executed again, through
  redeliveries, sessions and restarts, as long as the journal keeps the entry and can be read.\<close>

theorem journaled_not_reexecuted:
  assumes "recorded i a" "none_heading i a"
    and "(\<lambda>x y. agent_step L pool readable x y \<and> recorded i y)\<^sup>*\<^sup>* a a'"
  shows "executions i a' = executions i a"
proof -
  have "recorded i a' \<and> none_heading i a' \<and> executions i a' = executions i a"
    using assms(3)
  proof (induction rule: rtranclp_induct)
    case (step y z)
    then show ?case using recorded_step [of L pool y z i] by auto
  qed (use assms(1,2) in simp)
  then show ?thesis by simp
qed

section \<open>Results survive a restart\<close>

text \<open>C26: When the journal has recorded an outcome and the agent restarts, the operation, delivered again with
  the same payload digest under any lease, is not executed, provided the journal can be read: the agent
  acknowledges it and reports the recorded outcome under the new fence, with the recorded result and
  retryability and, for a failure, the recorded code or OPERATION_FAILED when that is empty. (A payload
  whose secret handles were issued anew has another digest and is refused instead.)\<close>

theorem recorded_result_replayed:
  assumes "journal_complete k (tk_OperationID t) (taskPayloadDigest L t) attempt ck r db = (None, db')"
    and "\<not> dk_view_fails (ae_disk e)" "tk_OperationID t' = tk_OperationID t" "taskPayloadDigest L t' = taskPayloadDigest L t"
  shows "consult_journal L e t' (new_agent db') =
    (None, log_frames ([AckFrame (task_fence t') True [],
        ResultFrame (task_fence t') (ir_succeeded r)
          (if ir_succeeded r then [] else if ir_errorCode r = [] then ''OPERATION_FAILED'' else ir_errorCode r)
          (ir_retryable r) (ir_resultJSON r)]
        @ (if ae_sent e then observed_frames L (ir_observed r) else [])) (new_agent db'))"
proof -
  obtain bucket where "db' = Some (mput (tk_OperationID t) (Some (terminal_entry k (taskPayloadDigest L t) attempt ck r)) bucket)"
    using assms(1) by (auto simp: journal_complete_def split: if_splits option.splits)
  then show ?thesis
    using assms(2-4)
    by (simp add: consult_journal_def journal_lookup_def new_agent_def OpenOperationJournal_def terminal_entry_def terminal_status_def
        frame_defs log_frames_def)
qed

section \<open>A changed payload\<close>

text \<open>The frames the control plane acts on.\<close>

definition to_frame :: "agent_frame \<Rightarrow> frame option" where
  "to_frame f =
     (case f of
        AckFrame fence accepted code \<Rightarrow> Some (TaskAck fence accepted code)
      | HeartbeatFrame fence \<Rightarrow> Some (RunningTaskHeartbeat fence)
      | ResultFrame fence succeeded code _ json \<Rightarrow> Some (TaskResult fence succeeded code json)
      | ObservedFrame _ \<Rightarrow> None)"

text \<open>C27: A redelivered operation whose payload has another digest is refused without execution, and
  the refusal makes the control plane fail the task, even when the journal holds its success.\<close>

theorem changed_payload_fails_task:
  assumes "journal_lookup (ae_disk e) (tk_OperationID t) (ag_journal a) = Inr (Some entry)"
    and "je_Digest entry \<noteq> taskPayloadDigest L t"
    and "ids_ok (server_tasks d)" "mget (server_tasks d) (tk_OperationID t) = Some r" "tk_OperationID t \<noteq> []"
    and "fence_ok (frame_lease node (task_fence t)) r" "lease_held r" "\<And>s. \<not> pg_fails p s"
  shows "\<exists>f r'. consult_journal L e t a = (None, log_frames [f] a) \<and>
    (\<exists>g. to_frame f = Some g \<and> mget (server_tasks (receive C p node g d)) (tk_OperationID t) = Some r') \<and>
    st_Status r' = ''failed'' \<and> st_ErrorCode r' = Some ''OPERATION_DIGEST_MISMATCH'' \<and> st_ErrorRetryable r' = Some False"
proof -
  let ?ack = "AckFrame (task_fence t) False ''OPERATION_DIGEST_MISMATCH''"
  let ?r' = "reject_task p ''OPERATION_DIGEST_MISMATCH'' r"
  have code: "TrimSpace ''OPERATION_DIGEST_MISMATCH'' = ''OPERATION_DIGEST_MISMATCH''" by code_simp
  have op: "fence_OperationID (frame_lease node (task_fence t)) = tk_OperationID t"
    by (simp add: frame_lease_def task_fence_def)
  have "mget (server_tasks (receive C p node (TaskAck (task_fence t) False ''OPERATION_DIGEST_MISMATCH'') d)) (tk_OperationID t) = Some ?r'"
    using assms(4-8)
    by (simp add: receive_def handleTaskAck_def AckTask_def fenced_update_def transaction_def stmt_def fenced_def andThen_def
        fenceTaskRow_def ask_def op fence_ok_def update_tasks_def matching_one [OF assms(3,4)] updated_one [OF assms(3,4)]
        commit_def ret_def) (simp add: task_fence_def frame_lease_def)
  moreover have "st_Status ?r' = ''failed''" "st_ErrorCode ?r' = Some ''OPERATION_DIGEST_MISMATCH''" "st_ErrorRetryable ?r' = Some False"
    using code by (simp_all add: reject_task_def end_task_def)
  moreover have "consult_journal L e t a = (None, log_frames [?ack] a)"
    using assms(1,2) by (simp add: consult_journal_def sendAck_def)
  ultimately show ?thesis by (intro exI [of _ ?ack] exI [of _ ?r']) (auto simp: to_frame_def)
qed

section \<open>A redelivery that is executed twice\<close>

text \<open>A schedule: the numbers of the workers in the order in which they make their steps.\<close>

fun run_workers :: "agent_lib \<Rightarrow> agent_env \<Rightarrow> nat list \<Rightarrow> agent \<Rightarrow> agent option" where
  "run_workers L e [] a = Some a"
| "run_workers L e (w # ws) a =
     (case mget (ag_workers a) w of
        None \<Rightarrow> None
      | Some (task, s) \<Rightarrow>
          (case worker_step L e w task s a of
             None \<Rightarrow> None
           | Some (next, b) \<Rightarrow> run_workers L e ws (move_worker w task next b)))"

lemma run_workers_steps:
  assumes "run_workers L e ws a = Some a'" "P e"
  shows "(agent_step L pool P)\<^sup>*\<^sup>* a a'"
  using assms(1)
proof (induction ws arbitrary: a)
  case (Cons w ws)
  from Cons.prems obtain task s "next" b where
      w: "mget (ag_workers a) w = Some (task, s)" "worker_step L e w task s a = Some (next, b)"
    and rest: "run_workers L e ws (move_worker w task next b) = Some a'"
    by (auto split: option.splits prod.splits)
  have "agent_step L pool P a (move_worker w task next b)" using w assms(2) by (intro agent_step.work)
  then show ?case using Cons.IH [OF rest] by (rule converse_rtranclp_into_rtranclp)
qed simp

definition both_taken :: "agent_task \<Rightarrow> agent_task \<Rightarrow> agent" where
  "both_taken t t' = (new_agent None)\<lparr>ag_workers := [(0, (t, Fresh)), (1, (t', Fresh))], ag_next := 2\<rparr>"

lemma both_taken_reached:
  assumes "2 \<le> pool"
  shows "(agent_step L pool P)\<^sup>*\<^sup>* (new_agent None) (both_taken t t')"
proof -
  let ?a0 = "new_agent None"
  let ?a1 = "?a0\<lparr>ag_queue := [t]\<rparr>"
  let ?a2 = "?a0\<lparr>ag_queue := [t, t']\<rparr>"
  let ?a3 = "?a0\<lparr>ag_queue := [t'], ag_workers := [(0, (t, Fresh))], ag_next := 1\<rparr>"
  have "agent_step L pool P ?a0 ?a1" using agent_step.receive [of ?a0 pool L P t] assms by (simp add: new_agent_def)
  moreover have "agent_step L pool P ?a1 ?a2" using agent_step.receive [of ?a1 pool L P t'] assms by (simp add: new_agent_def)
  moreover have "agent_step L pool P ?a2 ?a3"
    using agent_step.take [of ?a2 t "[t']" pool L P] assms by (simp add: new_agent_def mput_def)
  moreover have "agent_step L pool P ?a3 (both_taken t t')"
    using agent_step.take [of ?a3 t' "[]" pool L P] assms by (simp add: new_agent_def mput_def both_taken_def numeral_2_eq_2)
  ultimately show ?thesis by (meson converse_rtranclp_into_rtranclp rtranclp.rtrancl_refl)
qed

definition healthy :: "agent_env \<Rightarrow> bool" where
  "healthy e \<longleftrightarrow> \<not> dk_view_fails (ae_disk e) \<and> \<not> dk_begin_fails (ae_disk e) \<and> \<not> dk_commit_fails (ae_disk e)
     \<and> ae_secrets e \<and> ae_outcome e \<noteq> None"

text \<open>C28: Two deliveries of one operation can both be executed, even without any fault, when the second
  worker looks at the journal before the first one records the operation and registers after the first
  one has finished: the recorded result is overwritten.\<close>

theorem redelivery_can_execute_twice:
  assumes "tk_OperationID t' = tk_OperationID t" "taskPayloadDigest L t' = taskPayloadDigest L t" "2 \<le> pool"
    and "P e" "healthy e"
  shows "\<exists>a b entry. (agent_step L pool P)\<^sup>*\<^sup>* (new_agent None) a \<and> (agent_step L pool P)\<^sup>*\<^sup>* a b
    \<and> journal_lookup (ae_disk e) (tk_OperationID t) (ag_journal a) = Inr (Some entry) \<and> terminal_status entry
    \<and> executions (tk_OperationID t) a = 1 \<and> executions (tk_OperationID t) b = 2"
proof -
  obtain oc where oc: "ae_outcome e = Some oc" using assms(5) by (auto simp: healthy_def)
  obtain a where a: "run_workers L e (0 # replicate 10 1) (both_taken t t') = Some a"
    "mget (ag_workers a) 0 = Some (t, Registering)" "ag_workers a = [(0, (t, Registering))]"
    "ag_inflight a = []" "ag_locks a = []" "executions (tk_OperationID t) a = 1"
    "ag_journal a = Some [(tk_OperationID t, Some (terminal_entry (ae_disk e) (taskPayloadDigest L t) (tk_Attempt t') [] (result_of oc)))]"
    using assms(1,2,5) oc
    by (simp add: both_taken_def new_agent_def numeral_eq_Suc healthy_def move_worker_def consult_journal_def journal_lookup_def
        OpenOperationJournal_def registerInflight_def record_running_def RecordRunning_def evict_small journalMaxEntries_def
        mput_def mdel_def mhas_def execute_def journal_complete_def mget_def executions_def frame_defs log_frames_def running_entry_def)
  obtain b where b: "run_workers L e [0, 0, 0, 0] a = Some b" "executions (tk_OperationID t) b = 2"
    using a(2-) assms(5) oc
    by (simp add: healthy_def move_worker_def registerInflight_def record_running_def RecordRunning_def evict_small journalMaxEntries_def
        mput_def mdel_def mhas_def execute_def mget_def executions_def frame_defs log_frames_def running_entry_def terminal_entry_def)
  have "(agent_step L pool P)\<^sup>*\<^sup>* (new_agent None) a"
    using both_taken_reached [OF assms(3)] run_workers_steps [where pool = pool and P = P and e = e, OF a(1) assms(4)] by (rule rtranclp_trans)
  moreover have "(agent_step L pool P)\<^sup>*\<^sup>* a b" by (rule run_workers_steps [where e = e, OF b(1)]) (rule assms(4))
  moreover have "journal_lookup (ae_disk e) (tk_OperationID t) (ag_journal a)
      = Inr (Some (terminal_entry (ae_disk e) (taskPayloadDigest L t) (tk_Attempt t') [] (result_of oc)))"
    using a(7) assms(5) by (simp add: journal_lookup_def healthy_def)
  moreover have "terminal_status (terminal_entry (ae_disk e) (taskPayloadDigest L t) (tk_Attempt t') [] (result_of oc))"
    by (simp add: terminal_status_def terminal_entry_def)
  ultimately show ?thesis using a(6) b(2) by blast
qed

section \<open>The properties on an example\<close>

definition probe_lib :: agent_lib where
  "probe_lib = \<lparr>al_sha256 = (\<lambda>s. s), al_decodes = (\<lambda>_. True)\<rparr>"

definition probe_outcome :: outcome where
  "probe_outcome = \<lparr>oc_Succeeded = True, oc_ErrorCode = [], oc_Retryable = False, oc_ResultJSON = ''{}'', oc_Observed = None\<rparr>"

definition probe_env :: agent_env where
  "probe_env =
     \<lparr>ae_disk = \<lparr>dk_view_fails = False, dk_begin_fails = False, dk_commit_fails = False, dk_now = 5, dk_order = sort_key snd\<rparr>,
      ae_secrets = True, ae_outcome = Some probe_outcome, ae_sent = True, ae_cancelled = False\<rparr>"

definition probe_task :: "string \<Rightarrow> string \<Rightarrow> agent_task" where
  "probe_task token payload =
     \<lparr>tk_OperationID = ''t1'', tk_ServerID = ''s1'', tk_Type = ''start'', tk_Generation = 1, tk_Attempt = 1,
      tk_LeaseToken = token, tk_ConnectionEpoch = 1, tk_Payload = Some (PayloadJson payload)\<rparr>"

lemma probe_orders: "orders probe_env" "readable probe_env" "healthy probe_env"
  by (simp_all add: orders_def readable_def healthy_def probe_env_def sorts_by_age_def)

theorem exclusive_execution_witness:
  "length (ag_workers (both_taken (probe_task ''L1'' ''a'') (probe_task ''L2'' ''a''))) \<le> 8
   \<and> \<not> (holds_lock Fresh \<and> holds_lock Fresh)"
proof -
  have "2 \<le> worker_count 4" by (simp add: worker_count_def)
  then have run: "(agent_step probe_lib (worker_count 4) orders)\<^sup>*\<^sup>* (new_agent None)
      (both_taken (probe_task ''L1'' ''a'') (probe_task ''L2'' ''a''))" by (rule both_taken_reached)
  have "journal_ok None" by (simp add: journal_ok_def)
  from exclusive_execution [OF this run] show ?thesis by simp
qed

definition probe_entry :: journalEntry where
  "probe_entry = terminal_entry (ae_disk probe_env) ''other'' 1 [] (result_of probe_outcome)"

theorem journaled_not_reexecuted_witness:
  "executions ''t1'' ((new_agent (Some [(''t1'', Some probe_entry)]))\<lparr>ag_queue := [probe_task ''L1'' ''a'']\<rparr>) = 0"
proof -
  let ?a = "new_agent (Some [(''t1'', Some probe_entry)])"
  have step: "agent_step probe_lib 1 readable ?a (?a\<lparr>ag_queue := [probe_task ''L1'' ''a'']\<rparr>)"
    using agent_step.receive [of ?a 1 probe_lib readable "probe_task ''L1'' ''a''"] by (simp add: new_agent_def)
  have kept: "recorded ''t1'' ?a" "recorded ''t1'' (?a\<lparr>ag_queue := [probe_task ''L1'' ''a'']\<rparr>)"
    by (simp_all add: recorded_def new_agent_def OpenOperationJournal_def)
  have "none_heading ''t1'' ?a" by (simp add: none_heading_def new_agent_def)
  from journaled_not_reexecuted [OF kept(1) this, of probe_lib 1 "?a\<lparr>ag_queue := [probe_task ''L1'' ''a'']\<rparr>"] step kept(2)
  have "executions ''t1'' (?a\<lparr>ag_queue := [probe_task ''L1'' ''a'']\<rparr>) = executions ''t1'' ?a" by auto
  then show ?thesis by (simp add: executions_def new_agent_def)
qed

theorem recorded_result_replayed_witness:
  "consult_journal probe_lib probe_env (probe_task ''L2'' ''a'')
      (new_agent (snd (journal_complete (ae_disk probe_env) ''t1'' (taskPayloadDigest probe_lib (probe_task ''L1'' ''a'')) 1 []
         (result_of probe_outcome)
         (Some [(''t1'', Some (running_entry (ae_disk probe_env) (taskPayloadDigest probe_lib (probe_task ''L1'' ''a'')) 1))]))))
   = (None, log_frames [AckFrame (task_fence (probe_task ''L2'' ''a'')) True [],
        ResultFrame (task_fence (probe_task ''L2'' ''a'')) True [] False ''{}'']
      (new_agent (snd (journal_complete (ae_disk probe_env) ''t1'' (taskPayloadDigest probe_lib (probe_task ''L1'' ''a'')) 1 []
         (result_of probe_outcome)
         (Some [(''t1'', Some (running_entry (ae_disk probe_env) (taskPayloadDigest probe_lib (probe_task ''L1'' ''a'')) 1))])))))"
proof -
  let ?t = "probe_task ''L1'' ''a''" and ?t' = "probe_task ''L2'' ''a''"
  let ?db = "Some [(''t1'', Some (running_entry (ae_disk probe_env) (taskPayloadDigest probe_lib ?t) 1))]"
  let ?run = "journal_complete (ae_disk probe_env) ''t1'' (taskPayloadDigest probe_lib ?t) 1 [] (result_of probe_outcome) ?db"
  have "fst ?run = None" by (simp add: journal_complete_def probe_env_def running_entry_def)
  then have run: "journal_complete (ae_disk probe_env) (tk_OperationID ?t) (taskPayloadDigest probe_lib ?t) 1 []
      (result_of probe_outcome) ?db = (None, snd ?run)"
    by (simp add: probe_task_def prod_eq_iff)
  have "taskPayloadDigest probe_lib ?t' = taskPayloadDigest probe_lib ?t" "tk_OperationID ?t' = tk_OperationID ?t"
    by (simp_all add: taskPayloadDigest_def probe_task_def)
  moreover have "\<not> dk_view_fails (ae_disk probe_env)" by (simp add: probe_env_def)
  ultimately show ?thesis
    using recorded_result_replayed [OF run, of probe_env ?t']
    by (simp add: result_of_def probe_outcome_def observed_frames_def)
qed

theorem changed_payload_fails_task_witness:
  "\<exists>f r'. consult_journal probe_lib probe_env (probe_task ''L1'' ''a'') (new_agent (Some [(''t1'', Some probe_entry)]))
      = (None, log_frames [f] (new_agent (Some [(''t1'', Some probe_entry)])))
    \<and> (\<exists>g. to_frame f = Some g \<and> mget (server_tasks (receive trial_codec (trial_pg ''z'' 9) ''n1'' g trial_leased)) ''t1'' = Some r')
    \<and> st_Status r' = ''failed'' \<and> st_ErrorCode r' = Some ''OPERATION_DIGEST_MISMATCH''"
proof -
  let ?t = "probe_task ''L1'' ''a''"
  have look: "journal_lookup (ae_disk probe_env) (tk_OperationID ?t) (ag_journal (new_agent (Some [(''t1'', Some probe_entry)])))
      = Inr (Some probe_entry)"
    by (simp add: journal_lookup_def probe_env_def new_agent_def OpenOperationJournal_def probe_task_def)
  have even: "length (hex_encode s) = 2 * length s" for s
    by (induction s) (simp_all add: hex_encode_def)
  have other: "je_Digest probe_entry \<noteq> taskPayloadDigest probe_lib ?t"
  proof
    assume "je_Digest probe_entry = taskPayloadDigest probe_lib ?t"
    then have "even (length ''other'')" using even by (simp add: probe_entry_def terminal_entry_def taskPayloadDigest_def)
    then show False by simp
  qed
  have ids: "ids_ok (server_tasks trial_leased)" by (simp add: ids_ok_def mwf_def)
  have row: "mget (server_tasks trial_leased) (tk_OperationID ?t) = Some trial_leased_row" by (simp add: probe_task_def mget_def)
  have fence: "fence_ok (frame_lease ''n1'' (task_fence ?t)) trial_leased_row"
    by (simp add: fence_ok_def frame_lease_def task_fence_def probe_task_def taskFenceMatches_def coalesce_def)
  have "tk_OperationID ?t \<noteq> []" by (simp add: probe_task_def)
  moreover have "lease_held trial_leased_row" by (simp add: lease_held_def)
  moreover have "\<not> pg_fails (trial_pg ''z'' 9) s" for s by simp
  moreover have "tk_OperationID ?t = ''t1''" by (simp add: probe_task_def)
  ultimately show ?thesis
    using changed_payload_fails_task [OF look other ids row _ fence, where p = "trial_pg ''z'' 9" and C = trial_codec] by metis
qed

theorem redelivery_can_execute_twice_witness:
  "\<exists>b. (agent_step probe_lib 2 readable)\<^sup>*\<^sup>* (new_agent None) b \<and> executions ''t1'' b = 2"
  using redelivery_can_execute_twice [of "probe_task ''L2'' ''a''" "probe_task ''L1'' ''a''" probe_lib 2 readable probe_env]
    probe_orders
  by (auto simp: probe_task_def taskPayloadDigest_def intro: rtranclp_trans)

end
