(* ===== verification/Automation.thy ===== *)
theory Automation
  imports Task_Tables Identity_Store Attempt_Limiter
begin

text \<open>
  Schedules and notifications of the persistent store (\<^verbatim>\<open>internal/store/automation.go\<close>, the tables of
  \<^verbatim>\<open>migrations/000015_automation_operations.up.sql\<close>). As for tasks, a table is a map from the primary
  key to the row, and each function is the code between two commits; an error that the code passes on as it is
  counts as \<open>internal_error\<close>. Cron expressions, time zones,
  URLs, ciphers and the delivery over HTTP are parameters.
\<close>

section \<open>Tables\<close>

record schedule_row =
  sc_ServerID :: string
  sc_Name :: string
  sc_Action :: string
  sc_CronExpression :: string
  sc_Timezone :: string
  sc_Enabled :: bool
  sc_MissedRunPolicy :: string
  sc_ConcurrencyPolicy :: string
  sc_NextRunAt :: "gotime option"
  sc_LastScheduledAt :: "gotime option"
  sc_CreatedBy :: string
  sc_CreatedAt :: gotime
  sc_UpdatedAt :: gotime

record run_row =
  rn_ScheduleID :: string
  rn_ScheduledFor :: gotime
  rn_Status :: string
  rn_OperationID :: "string option"
  rn_FailureCode :: "string option"
  rn_StartedAt :: "gotime option"
  rn_CompletedAt :: "gotime option"

record webhook_row =
  wh_Name :: string
  wh_URL :: string
  wh_SecretCiphertext :: string
  wh_Enabled :: bool

record notification_row =
  no_DedupeKey :: string
  no_Severity :: string
  no_AcknowledgedAt :: "gotime option"
  no_AcknowledgedBy :: "string option"

record delivery_row =
  dl_NotificationID :: string
  dl_EndpointID :: "string option"
  dl_Channel :: string
  dl_Status :: string
  dl_Attempt :: int
  dl_NextAttemptAt :: gotime
  dl_LeaseOwner :: "string option"
  dl_LeaseUntil :: "gotime option"
  dl_LastError :: "string option"
  dl_DeliveredAt :: "gotime option"

record auto_tables =
  schedules :: "(string, schedule_row) gomap"
  schedule_runs :: "(string, run_row) gomap"
  webhook_endpoints :: "(string, webhook_row) gomap"
  notifications :: "(string, notification_row) gomap"
  notification_deliveries :: "(string, delivery_row) gomap"
  operation_ends :: "(string, string \<times> string option) gomap"
  known_servers :: "string list"

text \<open>
  \<open>operation_ends\<close> is what \<^verbatim>\<open>ReconcileScheduleRuns\<close> reads of \<^verbatim>\<open>server_tasks\<close>: the status and the
  error code of each operation.
\<close>

datatype auto_stmt =
    AutoBegin | AutoCommit | TryLeader | SelectDue | CountActive | InsertRun | UpdateSchedule | UpdateRun
  | ReconcileRuns | InsertSchedule | DeleteScheduleRow | InsertEndpoint | UpsertNotification | InsertDeliveries | ClaimRow | FinishRow

text \<open>
  \<open>av_leader\<close>: the advisory lock of the scheduler was free; \<open>av_locked\<close>: rows another transaction
  holds; \<open>av_now\<close> is the clock of PostgreSQL, \<open>av_ids\<close> are the fresh identifiers of one call.
\<close>

record auto_env =
  av_fails :: "auto_stmt \<Rightarrow> bool"
  av_leader :: bool
  av_locked :: "string \<Rightarrow> bool"
  av_now :: gotime
  av_ids :: "nat \<Rightarrow> string"

text \<open>\<open>cron\<close> is \<^verbatim>\<open>cron.ParseStandard\<close> with the \<^verbatim>\<open>Next\<close> of its result, \<open>zone\<close> whether \<^verbatim>\<open>LoadLocation\<close> accepts.\<close>

record auto_lib =
  cron :: "string \<Rightarrow> (gotime \<Rightarrow> gotime) option"
  zone :: "string \<Rightarrow> bool"

definition cron_text :: "string \<Rightarrow> string \<Rightarrow> string" where
  "cron_text timezone expression = ''CRON_TZ='' @ timezone @ '' '' @ expression"

section \<open>Creating schedules\<close>

record ScheduleInput =
  si_ServerID :: string
  si_Name :: string
  si_Action :: string
  si_CronExpression :: string
  si_Timezone :: string
  si_Enabled :: "bool option"
  si_MissedRunPolicy :: string
  si_ConcurrencyPolicy :: string

abbreviation invalid :: problem where
  "invalid \<equiv> NewProblem ''VALIDATION_FAILED'' False"

definition normalizeScheduleInput :: "auto_lib \<Rightarrow> ScheduleInput \<Rightarrow> gotime \<Rightarrow> problem + ScheduleInput \<times> gotime" where
  "normalizeScheduleInput L inp now =
     (let inp = inp\<lparr>si_Name := TrimSpace (si_Name inp), si_Action := TrimSpace (si_Action inp),
                  si_CronExpression := TrimSpace (si_CronExpression inp), si_Timezone := TrimSpace (si_Timezone inp)\<rparr>
      in
        if rune_count (si_Name inp) < 1 \<or> 128 < rune_count (si_Name inp) then Inl invalid
        else if si_Action inp \<notin> {''backup'', ''start'', ''stop'', ''restart'', ''retention-cleanup''}
          \<or> si_ServerID inp = [] \<and> si_Action inp \<noteq> ''retention-cleanup'' then Inl invalid
        else
          (let inp = (if si_Timezone inp = [] then inp\<lparr>si_Timezone := ''UTC''\<rparr> else inp) in
             if \<not> zone L (si_Timezone inp) then Inl invalid
             else
               (case cron L (cron_text (si_Timezone inp) (si_CronExpression inp)) of
                  None \<Rightarrow> Inl invalid
                | Some upcoming \<Rightarrow>
                    (let inp = (if si_MissedRunPolicy inp = [] then inp\<lparr>si_MissedRunPolicy := ''skip''\<rparr> else inp);
                         inp = (if si_ConcurrencyPolicy inp = [] then inp\<lparr>si_ConcurrencyPolicy := ''forbid''\<rparr> else inp)
                     in
                       if si_MissedRunPolicy inp \<notin> {''skip'', ''run-once'', ''catch-up''}
                         \<or> si_ConcurrencyPolicy inp \<notin> {''forbid'', ''allow'', ''replace''} then Inl invalid
                       else Inr (inp, upcoming now)))))"

text \<open>\<open>clock\<close> is \<^verbatim>\<open>time.Now\<close>; the row is inserted with the references it names.\<close>

definition CreateSchedule ::
  "auto_lib \<Rightarrow> auto_env \<Rightarrow> gotime \<Rightarrow> ScheduleInput \<Rightarrow> User \<Rightarrow> auto_tables \<Rightarrow> (problem + string) \<times> auto_tables" where
  "CreateSchedule L e clock inp actor d =
     (if \<not> hasRole actor ''platform_admin'' then (Inl (NewProblem ''FORBIDDEN'' False), d)
      else
        (case normalizeScheduleInput L inp clock of
           Inl err \<Rightarrow> (Inl err, d)
         | Inr (norm, upcoming) \<Rightarrow>
             let enabled = (case si_Enabled norm of None \<Rightarrow> True | Some b \<Rightarrow> b) in
             if av_fails e InsertSchedule \<or> mhas (schedules d) (av_ids e 0) then (Inl internal_error, d)
             else if si_ServerID norm \<noteq> [] \<and> si_ServerID norm \<notin> set (known_servers d) then (Inl (NewProblem ''NOT_FOUND'' False), d)
             else
               (Inr (av_ids e 0), d\<lparr>schedules := mput (av_ids e 0)
                  \<lparr>sc_ServerID = si_ServerID norm, sc_Name = si_Name norm, sc_Action = si_Action norm,
                   sc_CronExpression = si_CronExpression norm, sc_Timezone = si_Timezone norm, sc_Enabled = enabled,
                   sc_MissedRunPolicy = si_MissedRunPolicy norm, sc_ConcurrencyPolicy = si_ConcurrencyPolicy norm,
                   sc_NextRunAt = (if enabled then Some upcoming else None), sc_LastScheduledAt = None,
                   sc_CreatedBy = u_ID actor, sc_CreatedAt = clock, sc_UpdatedAt = clock\<rparr> (schedules d)\<rparr>)))"

text \<open>The runs of a deleted schedule go with it (\<^verbatim>\<open>ON DELETE CASCADE\<close>).\<close>

definition DeleteSchedule :: "auto_env \<Rightarrow> string \<Rightarrow> User \<Rightarrow> auto_tables \<Rightarrow> problem option \<times> auto_tables" where
  "DeleteSchedule e scheduleID actor d =
     (if \<not> hasRole actor ''platform_admin'' then (Some (NewProblem ''FORBIDDEN'' False), d)
      else if av_fails e DeleteScheduleRow then (Some internal_error, d)
      else if \<not> mhas (schedules d) scheduleID then (Some (NewProblem ''NOT_FOUND'' False), d)
      else (None, d\<lparr>schedules := mdel scheduleID (schedules d),
                   schedule_runs := mdel_if (\<lambda>_ r. rn_ScheduleID r = scheduleID) (schedule_runs d)\<rparr>))"

section \<open>Running schedules\<close>

record dueSchedule =
  due_id :: string
  due_serverID :: string
  due_action :: string
  due_expression :: string
  due_timezone :: string
  due_missed :: string
  due_concurrency :: string
  due_actorID :: string
  due_scheduledFor :: gotime

definition due_of :: "string \<Rightarrow> schedule_row \<Rightarrow> gotime \<Rightarrow> dueSchedule" where
  "due_of i s scheduledFor =
     \<lparr>due_id = i, due_serverID = sc_ServerID s, due_action = sc_Action s, due_expression = sc_CronExpression s,
      due_timezone = sc_Timezone s, due_missed = sc_MissedRunPolicy s, due_concurrency = sc_ConcurrencyPolicy s,
      due_actorID = sc_CreatedBy s, due_scheduledFor = scheduledFor\<rparr>"

text \<open>\<^verbatim>\<open>WHERE enabled AND next_run_at <= now ORDER BY next_run_at ... SKIP LOCKED LIMIT 1\<close>\<close>

fun earliest :: "(string \<times> schedule_row \<times> gotime) list \<Rightarrow> (string \<times> schedule_row \<times> gotime) option" where
  "earliest [] = None"
| "earliest ((i, s, t) # rest) =
     (case earliest rest of
        None \<Rightarrow> Some (i, s, t)
      | Some (j, q, u) \<Rightarrow> if t \<le> u then Some (i, s, t) else Some (j, q, u))"

definition due_schedules :: "auto_env \<Rightarrow> gotime \<Rightarrow> auto_tables \<Rightarrow> (string \<times> schedule_row \<times> gotime) list" where
  "due_schedules e now d =
     concat (map (\<lambda>(i, s). case sc_NextRunAt s of
        Some t \<Rightarrow> if sc_Enabled s \<and> t \<le> now \<and> \<not> av_locked e i then [(i, s, t)] else []
      | None \<Rightarrow> []) (schedules d))"

definition active_run :: "string \<Rightarrow> run_row \<Rightarrow> bool" where
  "active_run i r \<longleftrightarrow> rn_ScheduleID r = i \<and> (rn_Status r = ''queued'' \<or> rn_Status r = ''running'')"

definition new_run :: "string \<Rightarrow> gotime \<Rightarrow> string \<Rightarrow> gotime \<Rightarrow> run_row" where
  "new_run scheduleID scheduledFor status now =
     \<lparr>rn_ScheduleID = scheduleID, rn_ScheduledFor = scheduledFor, rn_Status = status, rn_OperationID = None,
      rn_FailureCode = None, rn_StartedAt = None, rn_CompletedAt = (if status = ''skipped'' then Some now else None)\<rparr>"

text \<open>
  The transaction that claims one due occurrence: \<^verbatim>\<open>Inl ()\<close> is an error, \<^verbatim>\<open>Inr None\<close> nothing to do,
  otherwise the occurrence with the identifier of its run and whether it is skipped.
\<close>

definition claimDueSchedule ::
  "auto_lib \<Rightarrow> auto_env \<Rightarrow> gotime \<Rightarrow> auto_tables \<Rightarrow> (unit + (dueSchedule \<times> string \<times> bool) option) \<times> auto_tables" where
  "claimDueSchedule L e now d =
     (if av_fails e AutoBegin \<or> av_fails e TryLeader then (Inl (), d)
      else if \<not> av_leader e then (Inr None, d)
      else if av_fails e SelectDue then (Inl (), d)
      else
        (case earliest (due_schedules e now d) of
           None \<Rightarrow> (if av_fails e AutoCommit then Inl () else Inr None, d)
         | Some (i, s, scheduledFor) \<Rightarrow>
             (case cron L (cron_text (sc_Timezone s) (sc_CronExpression s)) of
                None \<Rightarrow> (Inl (), d)
              | Some upcoming \<Rightarrow>
                  let base = (if sc_MissedRunPolicy s \<noteq> ''catch-up'' \<and> time_sub now scheduledFor > 60 * second then now else scheduledFor);
                      skipped = (filter (active_run i) (map snd (schedule_runs d)) \<noteq> [] \<and> sc_ConcurrencyPolicy s \<noteq> ''allow'');
                      status = (if skipped then ''skipped'' else ''queued'');
                      runID = av_ids e 0;
                      taken = (\<exists>r \<in> set (map snd (schedule_runs d)). rn_ScheduleID r = i \<and> rn_ScheduledFor r = scheduledFor)
                  in
                    if av_fails e CountActive \<or> av_fails e InsertRun \<or> av_fails e UpdateSchedule \<or> av_fails e AutoCommit
                       \<or> \<not> taken \<and> mhas (schedule_runs d) runID then (Inl (), d)
                    else
                      (Inr (Some (due_of i s scheduledFor, runID, skipped)),
                       d\<lparr>schedule_runs := (if taken then schedule_runs d
                            else mput runID (new_run i scheduledFor status (av_now e)) (schedule_runs d)),
                         schedules := mput i (s\<lparr>sc_LastScheduledAt := Some scheduledFor, sc_NextRunAt := Some (upcoming base),
                            sc_UpdatedAt := av_now e\<rparr>) (schedules d)\<rparr>))))"

text \<open>\<^verbatim>\<open>UPDATE schedule_runs ... WHERE id = runID\<close>; the code ignores its error.\<close>

definition update_run :: "auto_env \<Rightarrow> string \<Rightarrow> (run_row \<Rightarrow> run_row) \<Rightarrow> auto_tables \<Rightarrow> auto_tables" where
  "update_run e runID f d =
     (if av_fails e UpdateRun then d
      else
        (case mget (schedule_runs d) runID of
           None \<Rightarrow> d
         | Some r \<Rightarrow> d\<lparr>schedule_runs := mput runID (f r) (schedule_runs d)\<rparr>))"

definition completeScheduleRun :: "auto_env \<Rightarrow> string \<Rightarrow> string \<Rightarrow> string \<Rightarrow> string \<Rightarrow> auto_tables \<Rightarrow> auto_tables" where
  "completeScheduleRun e runID status failureCode operationID =
     update_run e runID (\<lambda>r. r\<lparr>rn_Status := status, rn_FailureCode := (if failureCode = [] then None else Some failureCode),
       rn_OperationID := (if operationID = [] then rn_OperationID r else Some operationID), rn_CompletedAt := Some (av_now e)\<rparr>)"

text \<open>What the action of an occurrence came to: the operation is empty for a retention clean-up.\<close>

datatype action_result = ActorRevoked | ActionFailed string | ActionDone string

definition settle_run :: "auto_env \<Rightarrow> string \<Rightarrow> action_result \<Rightarrow> auto_tables \<Rightarrow> auto_tables" where
  "settle_run e runID result =
     (case result of
        ActorRevoked \<Rightarrow> completeScheduleRun e runID ''failed'' ''ACTOR_REVOKED'' []
      | ActionFailed code \<Rightarrow> completeScheduleRun e runID ''failed'' code []
      | ActionDone operationID \<Rightarrow>
          if operationID = [] then completeScheduleRun e runID ''succeeded'' [] []
          else update_run e runID (\<lambda>r. r\<lparr>rn_Status := ''running'', rn_OperationID := Some operationID, rn_StartedAt := Some (av_now e)\<rparr>))"

definition ReconcileScheduleRuns :: "auto_env \<Rightarrow> auto_tables \<Rightarrow> auto_tables" where
  "ReconcileScheduleRuns e d =
     (if av_fails e ReconcileRuns then d
      else d\<lparr>schedule_runs := mmap (\<lambda>_ r.
        if rn_Status r \<noteq> ''running'' then r
        else
          (case rn_OperationID r of
             None \<Rightarrow> r
           | Some op \<Rightarrow>
               (case mget (operation_ends d) op of
                  None \<Rightarrow> r
                | Some (status, code) \<Rightarrow>
                    if status \<noteq> ''succeeded'' \<and> status \<noteq> ''failed'' then r
                    else r\<lparr>rn_Status := (if status = ''succeeded'' then ''succeeded'' else ''failed''),
                           rn_FailureCode := (if status = ''failed''
                             then Some (case code of None \<Rightarrow> ''OPERATION_FAILED'' | Some c \<Rightarrow> c) else None),
                           rn_CompletedAt := Some (av_now e)\<rparr>))) (schedule_runs d)\<rparr>)"

text \<open>
  The loop: \<open>env k\<close> is what the \<open>k\<close>-th round meets, \<open>act\<close> carries out an occurrence (it reads the actor
  and calls the store). The error of a claim ends the call before the runs are reconciled.
\<close>

fun run_due ::
  "auto_lib \<Rightarrow> (nat \<Rightarrow> auto_env) \<Rightarrow> (dueSchedule \<Rightarrow> action_result) \<Rightarrow> gotime \<Rightarrow> nat \<Rightarrow> nat \<Rightarrow> auto_tables
   \<Rightarrow> nat \<times> bool \<times> auto_tables" where
  "run_due L env act now 0 processed d = (processed, False, ReconcileScheduleRuns (env processed) d)"
| "run_due L env act now (Suc n) processed d =
     (case claimDueSchedule L (env processed) now d of
        (Inl _, d') \<Rightarrow> (processed, True, d')
      | (Inr None, d') \<Rightarrow> (processed, False, ReconcileScheduleRuns (env processed) d')
      | (Inr (Some (due, runID, skipped)), d') \<Rightarrow>
          run_due L env act now n (Suc processed)
            (if skipped then d' else settle_run (env processed) runID (act due) d'))"

definition RunDueSchedules ::
  "auto_lib \<Rightarrow> (nat \<Rightarrow> auto_env) \<Rightarrow> (dueSchedule \<Rightarrow> action_result) \<Rightarrow> gotime \<Rightarrow> int \<Rightarrow> auto_tables \<Rightarrow> nat \<times> bool \<times> auto_tables" where
  "RunDueSchedules L env act now limit =
     run_due L env act now (if limit < 1 \<or> 100 < limit then 16 else nat limit) 0"

section \<open>Notifications\<close>

text \<open>
  The notification under a used key is kept. The unique constraint on deliveries does not see the
  row of the application itself, whose endpoint is \<^verbatim>\<open>NULL\<close>; a webhook gets one delivery.
\<close>

definition new_delivery :: "string \<Rightarrow> string option \<Rightarrow> gotime \<Rightarrow> delivery_row" where
  "new_delivery notificationID endpoint now =
     \<lparr>dl_NotificationID = notificationID, dl_EndpointID = endpoint,
      dl_Channel = (if endpoint = None then ''in-app'' else ''webhook''),
      dl_Status = (if endpoint = None then ''delivered'' else ''pending''), dl_Attempt = 0, dl_NextAttemptAt = now,
      dl_LeaseOwner = None, dl_LeaseUntil = None, dl_LastError = None,
      dl_DeliveredAt = (if endpoint = None then Some now else None)\<rparr>"

definition has_delivery :: "string \<Rightarrow> string \<Rightarrow> (string, delivery_row) gomap \<Rightarrow> bool" where
  "has_delivery notificationID endpoint D \<longleftrightarrow>
     (\<exists>r \<in> set (map snd D). dl_NotificationID r = notificationID \<and> dl_EndpointID r = Some endpoint \<and> dl_Channel r = ''webhook'')"

fun add_deliveries ::
  "auto_env \<Rightarrow> string \<Rightarrow> nat \<Rightarrow> string list \<Rightarrow> (string, delivery_row) gomap \<Rightarrow> (string, delivery_row) gomap" where
  "add_deliveries e notificationID k [] D = D"
| "add_deliveries e notificationID k (endpoint # rest) D =
     add_deliveries e notificationID (Suc k) rest
       (if has_delivery notificationID endpoint D then D
        else mput (av_ids e k) (new_delivery notificationID (Some endpoint) (av_now e)) D)"

definition enabled_endpoints :: "auto_tables \<Rightarrow> string list" where
  "enabled_endpoints d = map fst (filter (\<lambda>(_, w). wh_Enabled w) (webhook_endpoints d))"

definition EmitNotification :: "auto_env \<Rightarrow> string \<Rightarrow> string \<Rightarrow> auto_tables \<Rightarrow> string option \<times> auto_tables" where
  "EmitNotification e severity dedupeKey d =
     (if av_fails e AutoBegin \<or> av_fails e UpsertNotification \<or> av_fails e InsertDeliveries \<or> av_fails e AutoCommit
         \<or> severity \<notin> {''info'', ''warning'', ''critical''} then (None, d)
      else
        (let (notificationID, N) =
           (case find (\<lambda>(_, n). no_DedupeKey n = dedupeKey) (notifications d) of
              Some (i, _) \<Rightarrow> (i, notifications d)
            | None \<Rightarrow> (av_ids e 0, mput (av_ids e 0) \<lparr>no_DedupeKey = dedupeKey, no_Severity = severity,
                 no_AcknowledgedAt = None, no_AcknowledgedBy = None\<rparr> (notifications d)))
         in
           (Some notificationID,
            d\<lparr>notifications := N,
              notification_deliveries := add_deliveries e notificationID 2 (enabled_endpoints d)
                (mput (av_ids e 1) (new_delivery notificationID None (av_now e)) (notification_deliveries d))\<rparr>)))"

definition AcknowledgeNotification :: "auto_env \<Rightarrow> string \<Rightarrow> User \<Rightarrow> auto_tables \<Rightarrow> problem option \<times> auto_tables" where
  "AcknowledgeNotification e notificationID actor d =
     (if av_fails e UpsertNotification then (Some internal_error, d)
      else
        (case mget (notifications d) notificationID of
           None \<Rightarrow> (Some (NewProblem ''NOT_FOUND'' False), d)
         | Some n \<Rightarrow>
             (None, d\<lparr>notifications := mput notificationID
               (n\<lparr>no_AcknowledgedAt := Some (case no_AcknowledgedAt n of None \<Rightarrow> av_now e | Some t \<Rightarrow> t),
                  no_AcknowledgedBy := Some (case no_AcknowledgedBy n of None \<Rightarrow> u_ID actor | Some u \<Rightarrow> u)\<rparr>) (notifications d)\<rparr>)))"

definition TestWebhook :: "auto_env \<Rightarrow> string \<Rightarrow> User \<Rightarrow> auto_tables \<Rightarrow> (problem + string) \<times> auto_tables" where
  "TestWebhook e webhookID actor d =
     (if \<not> hasRole actor ''platform_admin'' then (Inl (NewProblem ''FORBIDDEN'' False), d)
      else
        (case mget (webhook_endpoints d) webhookID of
           None \<Rightarrow> (Inl (NewProblem ''NOT_FOUND'' False), d)
         | Some w \<Rightarrow>
             if \<not> wh_Enabled w then (Inl (NewProblem ''NOT_FOUND'' False), d)
             else if av_fails e AutoBegin \<or> av_fails e UpsertNotification \<or> av_fails e InsertDeliveries \<or> av_fails e AutoCommit
             then (Inl internal_error, d)
             else
               (Inr (av_ids e 1),
                d\<lparr>notifications := mput (av_ids e 0) \<lparr>no_DedupeKey = ''webhook-test-'' @ av_ids e 1, no_Severity = ''info'',
                     no_AcknowledgedAt = None, no_AcknowledgedBy = None\<rparr> (notifications d),
                  notification_deliveries := mput (av_ids e 1) (new_delivery (av_ids e 0) (Some webhookID) (av_now e))
                    (notification_deliveries d)\<rparr>)))"

text \<open>
  \<open>parse_url\<close> is \<^verbatim>\<open>url.Parse\<close> with the scheme, the host name and whether there is user information;
  \<open>entropy\<close> the random bytes as hexadecimal text, \<open>encrypt\<close> the key ring or the older cipher.
\<close>

record webhook_lib =
  parse_url :: "string \<Rightarrow> (string \<times> string \<times> bool) option"
  entropy :: "string option"
  encrypt :: "(string \<Rightarrow> string option) option"

definition valid_webhook :: "webhook_lib \<Rightarrow> string \<Rightarrow> string \<Rightarrow> bool" where
  "valid_webhook W name url \<longleftrightarrow> 1 \<le> rune_count name \<and> rune_count name \<le> 128 \<and>
     (case parse_url W url of
        None \<Rightarrow> False
      | Some (scheme, host, user) \<Rightarrow> scheme = ''https'' \<and> host \<noteq> [] \<and> \<not> user)"

definition CreateWebhook ::
  "webhook_lib \<Rightarrow> auto_env \<Rightarrow> string \<Rightarrow> string \<Rightarrow> bool option \<Rightarrow> User \<Rightarrow> auto_tables \<Rightarrow> (problem + string \<times> string) \<times> auto_tables" where
  "CreateWebhook W e name url enabled actor d =
     (if \<not> hasRole actor ''platform_admin'' then (Inl (NewProblem ''FORBIDDEN'' False), d)
      else
        (let name = TrimSpace name; url = TrimSpace url in
           if \<not> valid_webhook W name url then (Inl invalid, d)
           else
             (case entropy W of
                None \<Rightarrow> (Inl internal_error, d)
              | Some secret \<Rightarrow>
                  (case Option.bind (encrypt W) (\<lambda>f. f secret) of
                     None \<Rightarrow> (Inl internal_error, d)
                   | Some encrypted \<Rightarrow>
                       if av_fails e InsertEndpoint \<or> mhas (webhook_endpoints d) (av_ids e 0) \<or> take 8 url \<noteq> ''https://''
                       then (Inl internal_error, d)
                       else
                         (Inr (av_ids e 0, secret),
                          d\<lparr>webhook_endpoints := mput (av_ids e 0)
                            \<lparr>wh_Name = name, wh_URL = url, wh_SecretCiphertext = encrypted,
                             wh_Enabled = (case enabled of None \<Rightarrow> True | Some b \<Rightarrow> b)\<rparr> (webhook_endpoints d)\<rparr>)))))"

section \<open>Deliveries\<close>

definition claimable_delivery :: "auto_env \<Rightarrow> string \<Rightarrow> delivery_row \<Rightarrow> bool" where
  "claimable_delivery e i r \<longleftrightarrow> dl_Channel r = ''webhook'' \<and> (dl_Status r = ''pending'' \<or> dl_Status r = ''failed'')
     \<and> dl_NextAttemptAt r \<le> av_now e \<and> \<not> av_locked e i"

fun soonest :: "(string \<times> delivery_row) list \<Rightarrow> (string \<times> delivery_row) option" where
  "soonest [] = None"
| "soonest ((i, r) # rest) =
     (case soonest rest of
        None \<Rightarrow> Some (i, r)
      | Some (j, q) \<Rightarrow> if dl_NextAttemptAt r \<le> dl_NextAttemptAt q then Some (i, r) else Some (j, q))"

record deliveryClaim =
  dc_id :: string
  dc_notificationID :: string
  dc_endpointID :: string
  dc_attempt :: int

text \<open>
  The candidate is chosen before its endpoint is looked at: when that is missing or disabled, the
  statement changes nothing and the caller takes it that nothing is due.
\<close>

definition claimDelivery :: "auto_env \<Rightarrow> auto_tables \<Rightarrow> (unit + (deliveryClaim \<times> string) option) \<times> auto_tables" where
  "claimDelivery e d =
     (if av_fails e ClaimRow then (Inl (), d)
      else
        (case soonest (filter (\<lambda>(i, r). claimable_delivery e i r) (notification_deliveries d)) of
           None \<Rightarrow> (Inr None, d)
         | Some (i, r) \<Rightarrow>
             (case dl_EndpointID r of
                None \<Rightarrow> (Inr None, d)
              | Some endpoint \<Rightarrow>
                  (case mget (webhook_endpoints d) endpoint of
                     None \<Rightarrow> (Inr None, d)
                   | Some w \<Rightarrow>
                       if \<not> wh_Enabled w then (Inr None, d)
                       else
                         (Inr (Some (\<lparr>dc_id = i, dc_notificationID = dl_NotificationID r, dc_endpointID = endpoint,
                              dc_attempt = dl_Attempt r + 1\<rparr>, av_ids e 0)),
                          d\<lparr>notification_deliveries := mput i
                            (r\<lparr>dl_Status := ''leased'', dl_Attempt := dl_Attempt r + 1, dl_LeaseOwner := Some (av_ids e 0),
                               dl_LeaseUntil := Some (av_now e + 120 * second)\<rparr>) (notification_deliveries d)\<rparr>)))))"

text \<open>\<open>result\<close> is \<^verbatim>\<open>None\<close> when the webhook accepted, otherwise the text of the error.\<close>

definition finish_row :: "auto_env \<Rightarrow> deliveryClaim \<Rightarrow> string option \<Rightarrow> delivery_row \<Rightarrow> delivery_row" where
  "finish_row e claim result r =
     (case result of
        None \<Rightarrow> r\<lparr>dl_Status := ''delivered'', dl_DeliveredAt := Some (av_now e), dl_LeaseOwner := None, dl_LeaseUntil := None,
                  dl_LastError := None\<rparr>
      | Some err \<Rightarrow>
          r\<lparr>dl_Status := (if 8 \<le> dc_attempt claim then ''dead-letter'' else ''failed''),
            dl_NextAttemptAt := av_now e + 2 ^ nat (min (dc_attempt claim) 10) * second, dl_LeaseOwner := None,
            dl_LeaseUntil := None, dl_LastError := Some (take 1000 err)\<rparr>)"

definition finish_delivery :: "auto_env \<Rightarrow> deliveryClaim \<Rightarrow> string \<Rightarrow> string option \<Rightarrow> auto_tables \<Rightarrow> auto_tables" where
  "finish_delivery e claim lease result d =
     (if av_fails e FinishRow then d
      else
        (case mget (notification_deliveries d) (dc_id claim) of
           None \<Rightarrow> d
         | Some r \<Rightarrow>
             if dl_LeaseOwner r \<noteq> Some lease then d
             else d\<lparr>notification_deliveries := mput (dc_id claim) (finish_row e claim result r) (notification_deliveries d)\<rparr>))"

text \<open>
  The loop of the sender: \<open>env k\<close> is what its \<open>k\<close>-th round meets and \<open>send k\<close> the answer of the webhook
  then. The code has no bound but the number of delivered messages; \<^verbatim>\<open>None\<close> is fuel that does not
  suffice, and the context is not cancelled. No other control plane writes the table during the loop.
\<close>

fun deliver ::
  "(nat \<Rightarrow> auto_env) \<Rightarrow> (nat \<Rightarrow> deliveryClaim \<Rightarrow> string option) \<Rightarrow> nat \<Rightarrow> nat \<Rightarrow> nat \<Rightarrow> nat \<Rightarrow> auto_tables
   \<Rightarrow> (nat \<times> bool \<times> auto_tables) option" where
  "deliver env send limit 0 k delivered d = None"
| "deliver env send limit (Suc fuel) k delivered d =
     (if limit \<le> delivered then Some (delivered, False, d)
      else
        (case claimDelivery (env k) d of
           (Inl _, d') \<Rightarrow> Some (delivered, True, d')
         | (Inr None, d') \<Rightarrow> Some (delivered, False, d')
         | (Inr (Some (claim, lease)), d') \<Rightarrow>
             deliver env send limit fuel (Suc k) (if send k claim = None then Suc delivered else delivered)
               (finish_delivery (env k) claim lease (send k claim) d')))"

definition DeliverNotifications ::
  "(nat \<Rightarrow> auto_env) \<Rightarrow> (nat \<Rightarrow> deliveryClaim \<Rightarrow> string option) \<Rightarrow> nat \<Rightarrow> int \<Rightarrow> auto_tables
   \<Rightarrow> (nat \<times> bool \<times> auto_tables) option" where
  "DeliverNotifications env send fuel limit d =
     deliver env send (if limit < 1 \<or> 100 < limit then 16 else nat limit) fuel 0 0 d"

end
