(* ===== verification/Schedule_World.thy ===== *)
theory Schedule_World
  imports Automation
begin

text \<open>
  The scheduler of any number of control planes as a transition system: one step is one transaction.
  \<open>sw_claims\<close> remembers every claimed occurrence (schedule, time, whether it was skipped), \<open>sw_pending\<close>
  are the runs whose control plane is still working on them; a crash forgets some of these. Fresh
  identifiers are new.
\<close>

record schedule_world =
  sw_tables :: auto_tables
  sw_claims :: "(string \<times> gotime \<times> bool) list"
  sw_pending :: "string list"

abbreviation sw_schedules :: "schedule_world \<Rightarrow> (string, schedule_row) gomap" where
  "sw_schedules w \<equiv> schedules (sw_tables w)"

abbreviation sw_runs :: "schedule_world \<Rightarrow> (string, run_row) gomap" where
  "sw_runs w \<equiv> schedule_runs (sw_tables w)"

inductive schedule_step :: "auto_lib \<Rightarrow> schedule_world \<Rightarrow> schedule_world \<Rightarrow> bool" for L where
  create: "av_ids e 0 \<notin> fst ` set (sw_claims w) \<Longrightarrow>
    schedule_step L w (w\<lparr>sw_tables := snd (CreateSchedule L e clock inp actor (sw_tables w))\<rparr>)"
| delete: "schedule_step L w (w\<lparr>sw_tables := snd (DeleteSchedule e scheduleID actor (sw_tables w))\<rparr>)"
| claim: "claimDueSchedule L e now (sw_tables w) = (Inr (Some (due, runID, skipped)), d') \<Longrightarrow>
    \<not> mhas (sw_runs w) runID \<Longrightarrow> runID \<notin> set (sw_pending w) \<Longrightarrow>
    schedule_step L w \<lparr>sw_tables = d', sw_claims = (due_id due, due_scheduledFor due, skipped) # sw_claims w,
      sw_pending = (if skipped then sw_pending w else runID # sw_pending w)\<rparr>"
| settle: "runID \<in> set (sw_pending w) \<Longrightarrow>
    schedule_step L w (w\<lparr>sw_tables := settle_run e runID result (sw_tables w), sw_pending := removeAll runID (sw_pending w)\<rparr>)"
| crash: "schedule_step L w (w\<lparr>sw_pending := filter alive (sw_pending w)\<rparr>)"
| reconcile: "schedule_step L w (w\<lparr>sw_tables := ReconcileScheduleRuns e (sw_tables w)\<rparr>)"
| elsewhere: "schedules d' = sw_schedules w \<Longrightarrow> schedule_runs d' = sw_runs w \<Longrightarrow> schedule_step L w (w\<lparr>sw_tables := d'\<rparr>)"

text \<open>
  An expression such as the 30th of February parses but names no time at all: then \<^verbatim>\<open>Next\<close> returns
  the zero time, and \<^verbatim>\<open>CreateSchedule\<close> accepts such a schedule. The schedules of a regular world have
  expressions that always name a later time; \<open>impossible_expression_stays_due\<close> shows what becomes of others.
\<close>

definition advancing :: "auto_lib \<Rightarrow> schedule_row \<Rightarrow> bool" where
  "advancing L s \<longleftrightarrow> (\<forall>upcoming t. cron L (cron_text (sc_Timezone s) (sc_CronExpression s)) = Some upcoming \<longrightarrow> t < upcoming t)"

definition regular :: "auto_lib \<Rightarrow> schedule_world \<Rightarrow> bool" where
  "regular L w \<longleftrightarrow> (\<forall>(i, s) \<in> set (sw_schedules w). advancing L s)"

definition regular_step :: "auto_lib \<Rightarrow> schedule_world \<Rightarrow> schedule_world \<Rightarrow> bool" where
  "regular_step L w w' \<longleftrightarrow> schedule_step L w w' \<and> regular L w'"

definition empty_world :: "schedule_world \<Rightarrow> bool" where
  "empty_world w \<longleftrightarrow> sw_schedules w = [] \<and> sw_runs w = [] \<and> sw_claims w = [] \<and> sw_pending w = []"

section \<open>The invariant\<close>

definition occurrences :: "(string \<times> gotime \<times> bool) list \<Rightarrow> (string \<times> gotime) list" where
  "occurrences claims = map (\<lambda>(i, t, _). (i, t)) claims"

definition one_active :: "auto_tables \<Rightarrow> bool" where
  "one_active d \<longleftrightarrow> (\<forall>i s a b r q. mget (schedules d) i = Some s \<longrightarrow> sc_ConcurrencyPolicy s \<noteq> ''allow'' \<longrightarrow>
     mget (schedule_runs d) a = Some r \<longrightarrow> mget (schedule_runs d) b = Some q \<longrightarrow> active_run i r \<longrightarrow> active_run i q \<longrightarrow> a = b)"

definition schedule_ok :: "schedule_world \<Rightarrow> bool" where
  "schedule_ok w \<longleftrightarrow> mwf (sw_schedules w) \<and> mwf (sw_runs w) \<and> distinct (occurrences (sw_claims w))
     \<and> (\<forall>i s t u. mget (sw_schedules w) i = Some s \<longrightarrow> sc_NextRunAt s = Some t \<longrightarrow> (i, u) \<in> set (occurrences (sw_claims w)) \<longrightarrow> u < t)
     \<and> (\<forall>a r. mget (sw_runs w) a = Some r \<longrightarrow> (rn_ScheduleID r, rn_ScheduledFor r) \<in> set (occurrences (sw_claims w)))
     \<and> (\<forall>a r. a \<in> set (sw_pending w) \<longrightarrow> mget (sw_runs w) a = Some r \<longrightarrow> rn_Status r = ''queued'')
     \<and> one_active (sw_tables w)"

lemma schedule_okD:
  assumes "schedule_ok w"
  shows "mwf (sw_schedules w)" "mwf (sw_runs w)" "distinct (occurrences (sw_claims w))"
    "mget (sw_schedules w) i = Some s \<Longrightarrow> sc_NextRunAt s = Some t \<Longrightarrow> (i, u) \<in> set (occurrences (sw_claims w)) \<Longrightarrow> u < t"
    "mget (sw_runs w) a = Some r \<Longrightarrow> (rn_ScheduleID r, rn_ScheduledFor r) \<in> set (occurrences (sw_claims w))"
    "a \<in> set (sw_pending w) \<Longrightarrow> mget (sw_runs w) a = Some r \<Longrightarrow> rn_Status r = ''queued''"
    "one_active (sw_tables w)"
  using assms unfolding schedule_ok_def by blast+

lemma one_activeD:
  "one_active d \<Longrightarrow> mget (schedules d) i = Some s \<Longrightarrow> sc_ConcurrencyPolicy s \<noteq> ''allow'' \<Longrightarrow> mget (schedule_runs d) a = Some r \<Longrightarrow>
     mget (schedule_runs d) b = Some q \<Longrightarrow> active_run i r \<Longrightarrow> active_run i q \<Longrightarrow> a = b"
  unfolding one_active_def by blast

lemma in_occurrences: "(i, t) \<in> set (occurrences claims) \<Longrightarrow> i \<in> fst ` set claims"
  by (force simp: occurrences_def)

text \<open>Runs may end or start running; nothing else about them changes.\<close>

definition run_moves :: "run_row \<Rightarrow> run_row \<Rightarrow> bool" where
  "run_moves r r' \<longleftrightarrow> rn_ScheduleID r' = rn_ScheduleID r \<and> rn_ScheduledFor r' = rn_ScheduledFor r
     \<and> (rn_Status r' = rn_Status r \<or> rn_Status r \<in> {''queued'', ''running''} \<and> rn_Status r' \<noteq> ''queued'')"

lemma run_moves_active: "run_moves r r' \<Longrightarrow> active_run i r' \<Longrightarrow> active_run i r"
  by (auto simp: run_moves_def active_run_def)

definition runs_move :: "(string, run_row) gomap \<Rightarrow> (string, run_row) gomap \<Rightarrow> bool" where
  "runs_move R R' \<longleftrightarrow> (\<forall>a. rel_option run_moves (mget R a) (mget R' a))"

lemma runs_moveD: "runs_move R R' \<Longrightarrow> mget R' a = Some r' \<Longrightarrow> \<exists>r. mget R a = Some r \<and> run_moves r r'"
  unfolding runs_move_def by (drule spec [of _ a]) (auto elim: option.rel_cases)

lemma run_moves_refl: "run_moves r r"
  by (simp add: run_moves_def)

lemma runs_move_put:
  assumes "mget R a = Some r" "run_moves r r'"
  shows "runs_move R (mput a r' R)"
  using assms by (auto simp: runs_move_def option.rel_refl run_moves_refl)

lemma one_active_move:
  assumes "one_active d" "schedules d' = schedules d" "runs_move (schedule_runs d) (schedule_runs d')"
  shows "one_active d'"
  unfolding one_active_def
proof (intro allI impI)
  fix i s a b r' q'
  assume s: "mget (schedules d') i = Some s" "sc_ConcurrencyPolicy s \<noteq> ''allow''" and act: "active_run i r'" "active_run i q'"
    and rows: "mget (schedule_runs d') a = Some r'" "mget (schedule_runs d') b = Some q'"
  obtain r where r: "mget (schedule_runs d) a = Some r" "run_moves r r'" using runs_moveD [OF assms(3) rows(1)] by auto
  obtain q where q: "mget (schedule_runs d) b = Some q" "run_moves q q'" using runs_moveD [OF assms(3) rows(2)] by auto
  have "mget (schedules d) i = Some s" using s(1) assms(2) by simp
  from one_activeD [OF assms(1) this s(2) r(1) q(1) run_moves_active [OF r(2) act(1)] run_moves_active [OF q(2) act(2)]]
  show "a = b" .
qed

definition reconciled :: "auto_env \<Rightarrow> auto_tables \<Rightarrow> run_row \<Rightarrow> run_row" where
  "reconciled e d r =
     (if rn_Status r \<noteq> ''running'' then r
      else
        (case Option.bind (rn_OperationID r) (mget (operation_ends d)) of
           None \<Rightarrow> r
         | Some (status, code) \<Rightarrow>
             if status \<noteq> ''succeeded'' \<and> status \<noteq> ''failed'' then r
             else r\<lparr>rn_Status := (if status = ''succeeded'' then ''succeeded'' else ''failed''),
                    rn_FailureCode := (if status = ''failed''
                      then Some (case code of None \<Rightarrow> ''OPERATION_FAILED'' | Some c \<Rightarrow> c) else None),
                    rn_CompletedAt := Some (av_now e)\<rparr>))"

lemma reconcile_reconciled:
  "ReconcileScheduleRuns e d = (if av_fails e ReconcileRuns then d else d\<lparr>schedule_runs := mmap (\<lambda>_. reconciled e d) (schedule_runs d)\<rparr>)"
proof -
  have "(if rn_Status r \<noteq> ''running'' then r
        else
          (case rn_OperationID r of
             None \<Rightarrow> r
           | Some op \<Rightarrow>
               (case mget (operation_ends d) op of
                  None \<Rightarrow> r
                | Some (status, code) \<Rightarrow>
                    if status \<noteq> ''succeeded'' \<and> status \<noteq> ''failed'' then r
                    else r\<lparr>rn_Status := (if status = ''succeeded'' then ''succeeded'' else ''failed''),
                           rn_FailureCode := (if status = ''failed''
                             then Some (case code of None \<Rightarrow> ''OPERATION_FAILED'' | Some c \<Rightarrow> c) else None),
                           rn_CompletedAt := Some (av_now e)\<rparr>))) = reconciled e d r" for r
    by (cases "rn_OperationID r") (simp_all add: reconciled_def)
  then show ?thesis by (simp add: ReconcileScheduleRuns_def)
qed

lemma reconciled_moves: "run_moves r (reconciled e d r)"
  by (simp add: reconciled_def run_moves_def split: option.split prod.split)

lemma reconciled_queued: "rn_Status r = ''queued'' \<Longrightarrow> reconciled e d r = r"
  by (simp add: reconciled_def)

lemma reconcile_moves:
  "schedules (ReconcileScheduleRuns e d) = schedules d \<and> runs_move (schedule_runs d) (schedule_runs (ReconcileScheduleRuns e d))
   \<and> (mwf (schedule_runs d) \<longrightarrow> mwf (schedule_runs (ReconcileScheduleRuns e d)))
   \<and> (\<forall>a r. mget (schedule_runs d) a = Some r \<longrightarrow> rn_Status r = ''queued'' \<longrightarrow> mget (schedule_runs (ReconcileScheduleRuns e d)) a = Some r)"
proof -
  have "rel_option run_moves v (map_option (reconciled e d) v)" for v
    using reconciled_moves by (cases v) auto
  then show ?thesis
    by (simp add: reconcile_reconciled runs_move_def option.rel_refl run_moves_refl reconciled_queued)
qed

definition settled :: "auto_env \<Rightarrow> action_result \<Rightarrow> run_row \<Rightarrow> run_row" where
  "settled e result r =
     (case result of
        ActorRevoked \<Rightarrow> r\<lparr>rn_Status := ''failed'', rn_FailureCode := Some ''ACTOR_REVOKED'', rn_CompletedAt := Some (av_now e)\<rparr>
      | ActionFailed code \<Rightarrow> r\<lparr>rn_Status := ''failed'', rn_FailureCode := (if code = [] then None else Some code),
          rn_CompletedAt := Some (av_now e)\<rparr>
      | ActionDone operationID \<Rightarrow>
          if operationID = [] then r\<lparr>rn_Status := ''succeeded'', rn_FailureCode := None, rn_CompletedAt := Some (av_now e)\<rparr>
          else r\<lparr>rn_Status := ''running'', rn_OperationID := Some operationID, rn_StartedAt := Some (av_now e)\<rparr>)"

lemma settle_run_settled: "settle_run e runID result = update_run e runID (settled e result)"
  by (cases result) (simp_all add: settle_run_def completeScheduleRun_def settled_def fun_eq_iff update_run_def split: option.split)

lemma settled_moves: "rn_Status r = ''queued'' \<Longrightarrow> run_moves r (settled e result r)"
  by (cases result) (auto simp: settled_def run_moves_def)

lemma settle_moves:
  assumes "\<And>r. mget (schedule_runs d) runID = Some r \<Longrightarrow> rn_Status r = ''queued''"
  shows "schedules (settle_run e runID result d) = schedules d
    \<and> runs_move (schedule_runs d) (schedule_runs (settle_run e runID result d))
    \<and> (mwf (schedule_runs d) \<longrightarrow> mwf (schedule_runs (settle_run e runID result d)))
    \<and> (\<forall>a. a \<noteq> runID \<longrightarrow> mget (schedule_runs (settle_run e runID result d)) a = mget (schedule_runs d) a)"
proof -
  have same: "runs_move R R" for R by (simp add: runs_move_def option.rel_refl run_moves_refl)
  show ?thesis
  proof (cases "mget (schedule_runs d) runID")
    case None
    then show ?thesis using same by (simp add: settle_run_settled update_run_def)
  next
    case (Some r)
    then show ?thesis
      using same runs_move_put [OF Some settled_moves [OF assms [OF Some]]] by (simp add: settle_run_settled update_run_def)
  qed
qed

lemma earliest_in: "earliest xs = Some x \<Longrightarrow> x \<in> set xs"
  by (induction xs rule: earliest.induct) (auto split: option.splits if_splits)

lemma claim_cases:
  assumes "claimDueSchedule L e now d = (Inr (Some (due, runID, skipped)), d')"
  obtains i s t upcoming base where "(i, s) \<in> set (schedules d)" "sc_NextRunAt s = Some t" "t \<le> now"
    "due = due_of i s t" "cron L (cron_text (sc_Timezone s) (sc_CronExpression s)) = Some upcoming" "t \<le> base"
    "skipped \<longleftrightarrow> (\<exists>r \<in> snd ` set (schedule_runs d). active_run i r) \<and> sc_ConcurrencyPolicy s \<noteq> ''allow''"
    "schedules d' = mput i (s\<lparr>sc_LastScheduledAt := Some t, sc_NextRunAt := Some (upcoming base), sc_UpdatedAt := av_now e\<rparr>) (schedules d)"
    "schedule_runs d' = (if \<exists>r \<in> snd ` set (schedule_runs d). rn_ScheduleID r = i \<and> rn_ScheduledFor r = t then schedule_runs d
       else mput runID (new_run i t (if skipped then ''skipped'' else ''queued'') (av_now e)) (schedule_runs d))"
    "sc_Enabled s"
proof -
  obtain i s t where first: "earliest (due_schedules e now d) = Some (i, s, t)"
    using assms by (auto simp: claimDueSchedule_def split: if_splits option.splits)
  then have "(i, s, t) \<in> set (due_schedules e now d)" by (rule earliest_in)
  then have it: "(i, s) \<in> set (schedules d)" "sc_NextRunAt s = Some t" "t \<le> now" "sc_Enabled s"
    by (auto simp: due_schedules_def split: option.splits if_splits)
  obtain upcoming where up: "cron L (cron_text (sc_Timezone s) (sc_CronExpression s)) = Some upcoming"
    using assms first by (auto simp: claimDueSchedule_def split: if_splits option.splits)
  show thesis
    using assms first up it
    by (intro that [OF it(1-3) _ up, of "if sc_MissedRunPolicy s \<noteq> ''catch-up'' \<and> time_sub now t > 60 * second then now else t"])
      (auto simp: claimDueSchedule_def Let_def filter_empty_conv split: if_splits)
qed

section \<open>The steps keep it\<close>

lemma ok_moves:
  assumes ok: "schedule_ok w" and same: "schedules d' = sw_schedules w" and runs: "runs_move (sw_runs w) (schedule_runs d')"
    and wf: "mwf (schedule_runs d')"
    and queued: "\<And>a r. a \<in> set pending \<Longrightarrow> mget (schedule_runs d') a = Some r \<Longrightarrow> rn_Status r = ''queued''"
  shows "schedule_ok (w\<lparr>sw_tables := d', sw_pending := pending\<rparr>)"
proof -
  have "(rn_ScheduleID r', rn_ScheduledFor r') \<in> set (occurrences (sw_claims w))" if "mget (schedule_runs d') a = Some r'" for a r'
  proof -
    from runs_moveD [OF runs that] obtain r where "mget (sw_runs w) a = Some r" "run_moves r r'" by auto
    then show ?thesis using schedule_okD(5) [OF ok] by (auto simp: run_moves_def)
  qed
  then show ?thesis
    using schedule_okD(1,3,4) [OF ok] same wf queued one_active_move [OF schedule_okD(7) [OF ok] same runs]
    by (simp add: schedule_ok_def)
qed

lemma ok_create:
  assumes ok: "schedule_ok w" and new: "i \<notin> fst ` set (sw_claims w)" "mget (sw_schedules w) i = None"
  shows "schedule_ok (w\<lparr>sw_tables := (sw_tables w)\<lparr>schedules := mput i s (sw_schedules w)\<rparr>\<rparr>)"
proof -
  have none: "(i, u) \<notin> set (occurrences (sw_claims w))" for u using new(1) in_occurrences by blast
  then have runs: "rn_ScheduleID r \<noteq> i" if "mget (sw_runs w) a = Some r" for a r
    using schedule_okD(5) [OF ok that] by auto
  have "one_active ((sw_tables w)\<lparr>schedules := mput i s (sw_schedules w)\<rparr>)"
    unfolding one_active_def
  proof (intro allI impI)
    fix j q a b r r'
    let ?d = "(sw_tables w)\<lparr>schedules := mput i s (sw_schedules w)\<rparr>"
    assume j: "mget (schedules ?d) j = Some q" and "sc_ConcurrencyPolicy q \<noteq> ''allow''"
      and rows: "mget (schedule_runs ?d) a = Some r" "mget (schedule_runs ?d) b = Some r'" "active_run j r" "active_run j r'"
    have "j \<noteq> i" using runs [of a r] rows(1,3) by (auto simp: active_run_def)
    then show "a = b"
      using one_activeD [OF schedule_okD(7) [OF ok], of j q a r b r'] j rows \<open>sc_ConcurrencyPolicy q \<noteq> ''allow''\<close> by simp
  qed
  moreover have "u < t" if "mget (mput i s (sw_schedules w)) j = Some q" "sc_NextRunAt q = Some t" "(j, u) \<in> set (occurrences (sw_claims w))" for j q t u
    using that none schedule_okD(4) [OF ok] by (auto split: if_splits)
  ultimately show ?thesis using schedule_okD(1,2,3,5,6) [OF ok] by (simp add: schedule_ok_def)
qed

lemma CreateSchedule_cases:
  "snd (CreateSchedule L e clock inp actor d) = d \<or>
   (\<exists>s. \<not> mhas (schedules d) (av_ids e 0) \<and>
     snd (CreateSchedule L e clock inp actor d) = d\<lparr>schedules := mput (av_ids e 0) s (schedules d)\<rparr>)"
  by (cases "normalizeScheduleInput L inp clock") (auto simp: CreateSchedule_def Let_def)

lemma DeleteSchedule_cases:
  "snd (DeleteSchedule e i actor d) = d \<or>
   snd (DeleteSchedule e i actor d) = d\<lparr>schedules := mdel i (schedules d), schedule_runs := mdel_if (\<lambda>_ r. rn_ScheduleID r = i) (schedule_runs d)\<rparr>"
  by (simp add: DeleteSchedule_def)

lemma ok_delete:
  assumes ok: "schedule_ok w"
  shows "schedule_ok (w\<lparr>sw_tables := (sw_tables w)\<lparr>schedules := mdel i (sw_schedules w),
    schedule_runs := mdel_if (\<lambda>_ r. rn_ScheduleID r = i) (sw_runs w)\<rparr>\<rparr>)"
proof -
  let ?R = "mdel_if (\<lambda>_ r. rn_ScheduleID r = i) (sw_runs w)"
  have kept: "mget (sw_runs w) a = Some r" if "mget ?R a = Some r" for a r
    using that schedule_okD(2) [OF ok] by (auto simp: mget_del_if split: option.splits if_splits)
  have "one_active ((sw_tables w)\<lparr>schedules := mdel i (sw_schedules w), schedule_runs := ?R\<rparr>)"
    unfolding one_active_def
  proof (intro allI impI)
    fix j q a b r r'
    let ?d = "(sw_tables w)\<lparr>schedules := mdel i (sw_schedules w), schedule_runs := ?R\<rparr>"
    assume j: "mget (schedules ?d) j = Some q" "sc_ConcurrencyPolicy q \<noteq> ''allow''"
      and rows: "mget (schedule_runs ?d) a = Some r" "mget (schedule_runs ?d) b = Some r'" "active_run j r" "active_run j r'"
    have "mget (sw_schedules w) j = Some q" using j(1) by (simp split: if_splits)
    then show "a = b" using one_activeD [OF schedule_okD(7) [OF ok] _ j(2) kept kept rows(3,4)] rows(1,2) by simp
  qed
  moreover have "u < t" if "mget (mdel i (sw_schedules w)) j = Some q" "sc_NextRunAt q = Some t" "(j, u) \<in> set (occurrences (sw_claims w))" for j q t u
    using that schedule_okD(4) [OF ok] by (auto split: if_splits)
  moreover have "(rn_ScheduleID r, rn_ScheduledFor r) \<in> set (occurrences (sw_claims w))"
      "a \<in> set (sw_pending w) \<Longrightarrow> rn_Status r = ''queued''" if "mget ?R a = Some r" for a r
    using schedule_okD(5,6) [OF ok] kept [OF that] by blast+
  ultimately show ?thesis
    using schedule_okD(1,2,3) [OF ok] by (simp add: schedule_ok_def)
qed

lemma ok_claim:
  assumes ok: "schedule_ok w" and adv: "regular L w"
    and run: "claimDueSchedule L e now (sw_tables w) = (Inr (Some (due, runID, skipped)), d')"
    and new: "\<not> mhas (sw_runs w) runID" "runID \<notin> set (sw_pending w)"
  shows "schedule_ok \<lparr>sw_tables = d', sw_claims = (due_id due, due_scheduledFor due, skipped) # sw_claims w,
      sw_pending = (if skipped then sw_pending w else runID # sw_pending w)\<rparr>"
  using run
proof (rule claim_cases)
  fix i s t upcoming base
  assume s: "(i, s) \<in> set (sw_schedules w)" "sc_NextRunAt s = Some t" and due: "due = due_of i s t"
    and up: "cron L (cron_text (sc_Timezone s) (sc_CronExpression s)) = Some upcoming" "t \<le> base"
    and skip: "skipped \<longleftrightarrow> (\<exists>r \<in> snd ` set (sw_runs w). active_run i r) \<and> sc_ConcurrencyPolicy s \<noteq> ''allow''"
    and S: "schedules d' = mput i (s\<lparr>sc_LastScheduledAt := Some t, sc_NextRunAt := Some (upcoming base), sc_UpdatedAt := av_now e\<rparr>) (sw_schedules w)"
    and R: "schedule_runs d' = (if \<exists>r \<in> snd ` set (sw_runs w). rn_ScheduleID r = i \<and> rn_ScheduledFor r = t then sw_runs w
       else mput runID (new_run i t (if skipped then ''skipped'' else ''queued'') (av_now e)) (sw_runs w))"
  have row: "mget (sw_schedules w) i = Some s" using s(1) mget_Some_iff [OF schedule_okD(1) [OF ok]] by simp
  have rows: "r \<in> snd ` set (sw_runs w) \<longleftrightarrow> (\<exists>a. mget (sw_runs w) a = Some r)" for r
    using mget_Some_iff [OF schedule_okD(2) [OF ok]] by force
  have fresh: "(i, t) \<notin> set (occurrences (sw_claims w))" using schedule_okD(4) [OF ok row s(2)] by auto
  then have R': "schedule_runs d' = mput runID (new_run i t (if skipped then ''skipped'' else ''queued'') (av_now e)) (sw_runs w)"
    using R rows schedule_okD(5) [OF ok] by (metis (no_types, lifting))
  have later: "t < upcoming base" using adv s(1) up unfolding regular_def advancing_def by (fastforce intro: le_less_trans)
  have "u < v" if "mget (schedules d') j = Some q" "sc_NextRunAt q = Some v" "(j, u) = (i, t) \<or> (j, u) \<in> set (occurrences (sw_claims w))" for j q v u
  proof (cases "j = i")
    case True
    then have "v = upcoming base" using that(1,2) S by auto
    moreover have "u \<le> t" using that(3) True schedule_okD(4) [OF ok row s(2), of u] by auto
    ultimately show ?thesis using later by simp
  next
    case False
    then show ?thesis using that S schedule_okD(4) [OF ok, of j q v u] by auto
  qed
  moreover have "one_active d'"
    unfolding one_active_def
  proof (intro allI impI)
    fix j q a b r r'
    assume j: "mget (schedules d') j = Some q" "sc_ConcurrencyPolicy q \<noteq> ''allow''"
      and rs: "mget (schedule_runs d') a = Some r" "mget (schedule_runs d') b = Some r'" "active_run j r" "active_run j r'"
    obtain q0 where q0: "mget (sw_schedules w) j = Some q0" "sc_ConcurrencyPolicy q0 \<noteq> ''allow''"
      using j S row by (auto split: if_splits)
    have old: "a \<noteq> runID \<Longrightarrow> mget (sw_runs w) a = Some r" "b \<noteq> runID \<Longrightarrow> mget (sw_runs w) b = Some r'"
      using rs(1,2) R' by (simp_all split: if_splits)
    have only: "\<not> (\<exists>x. mget (sw_runs w) x = Some v \<and> active_run i v)" if "\<not> skipped" "sc_ConcurrencyPolicy s \<noteq> ''allow''" for v
    proof -
      have "\<not> (\<exists>r \<in> snd ` set (sw_runs w). active_run i r)" using that skip by blast
      then show ?thesis using rows by blast
    qed
    have added: "j = i \<and> \<not> skipped" if "c = runID" "mget (schedule_runs d') c = Some v" "active_run j v" for c v
      using that R' by (auto simp: active_run_def new_run_def split: if_splits)
    show "a = b"
    proof (cases "a = runID \<or> b = runID")
      case True
      then have "j = i" "\<not> skipped" using added rs by blast+
      moreover have "sc_ConcurrencyPolicy s \<noteq> ''allow''" using q0 row \<open>j = i\<close> by simp
      ultimately show ?thesis using only [of r] only [of r'] old rs(3,4) True by blast
    next
      case False
      then show ?thesis using one_activeD [OF schedule_okD(7) [OF ok] q0 old(1) old(2) rs(3,4)] by blast
    qed
  qed
  moreover have "(rn_ScheduleID r, rn_ScheduledFor r) = (i, t) \<or> (rn_ScheduleID r, rn_ScheduledFor r) \<in> set (occurrences (sw_claims w))"
    if "mget (schedule_runs d') a = Some r" for a r
    using that R' schedule_okD(5) [OF ok, of a r] by (auto simp: new_run_def split: if_splits)
  moreover have "rn_Status r = ''queued''"
    if "a \<in> set (if skipped then sw_pending w else runID # sw_pending w)" "mget (schedule_runs d') a = Some r" for a r
    using that R' new(2) schedule_okD(6) [OF ok, of a r] by (auto simp: new_run_def split: if_splits)
  ultimately show ?thesis
    using schedule_okD(1-3) [OF ok] fresh S R' by (simp add: schedule_ok_def due due_of_def occurrences_def)
qed

lemma schedule_step_ok:
  assumes ok: "schedule_ok w" and adv: "regular L w" and step: "schedule_step L w w'"
  shows "schedule_ok w'"
  using step
proof cases
  case (create e clock inp actor)
  show ?thesis
    unfolding create(1) using CreateSchedule_cases [of L e clock inp actor "sw_tables w"] ok ok_create [OF ok create(2)]
    by (auto simp: mhas_def)
next
  case (delete e i actor)
  show ?thesis
    unfolding delete using DeleteSchedule_cases [of e i actor "sw_tables w"] ok ok_delete [OF ok] by auto
next
  case (claim e now due runID skipped d')
  then show ?thesis using ok_claim [OF ok adv claim(2-4)] by simp
next
  case (settle runID e result)
  have q: "mget (sw_runs w) runID = Some r \<Longrightarrow> rn_Status r = ''queued''" for r using schedule_okD(6) [OF ok settle(2)] .
  note m = settle_moves [of "sw_tables w" runID e result, OF q]
  show ?thesis
    unfolding settle(1) using m schedule_okD(2,6) [OF ok] by (intro ok_moves [OF ok]) auto
next
  case (crash alive)
  have "runs_move (sw_runs w) (sw_runs w)" by (simp add: runs_move_def option.rel_refl run_moves_refl)
  moreover have "rn_Status r = ''queued''" if "a \<in> set (filter alive (sw_pending w))" "mget (sw_runs w) a = Some r" for a r
    using that schedule_okD(6) [OF ok, of a r] by simp
  ultimately show ?thesis
    using ok_moves [OF ok refl _ schedule_okD(2) [OF ok], of "filter alive (sw_pending w)"] crash by simp
next
  case (reconcile e)
  note m = reconcile_moves [of e "sw_tables w"]
  have "rn_Status r = ''queued''" if a: "a \<in> set (sw_pending w)" and r: "mget (schedule_runs (ReconcileScheduleRuns e (sw_tables w))) a = Some r" for a r
  proof -
    obtain r0 where r0: "mget (sw_runs w) a = Some r0" using runs_moveD [OF conjunct1 [OF conjunct2 [OF m]] r] by auto
    then have "mget (schedule_runs (ReconcileScheduleRuns e (sw_tables w))) a = Some r0"
      using m schedule_okD(6) [OF ok a r0] r0 by blast
    then show ?thesis using r schedule_okD(6) [OF ok a r0] by simp
  qed
  then show ?thesis
    using ok_moves [OF ok, of "ReconcileScheduleRuns e (sw_tables w)" "sw_pending w"] m schedule_okD(2) [OF ok] reconcile by simp
next
  case (elsewhere d')
  have "runs_move (sw_runs w) (sw_runs w)" by (simp add: runs_move_def option.rel_refl run_moves_refl)
  then show ?thesis using ok_moves [OF ok, of d' "sw_pending w"] schedule_okD(2,6) [OF ok] elsewhere by simp
qed

lemma regular_steps_ok:
  "(regular_step L)\<^sup>*\<^sup>* w w' \<Longrightarrow> schedule_ok w \<and> regular L w \<Longrightarrow> schedule_ok w' \<and> regular L w'"
  by (induction rule: rtranclp_induct) (auto simp: regular_step_def intro: schedule_step_ok)

lemma empty_ok: "empty_world w \<Longrightarrow> schedule_ok w \<and> regular L w"
  by (simp add: empty_world_def schedule_ok_def one_active_def occurrences_def regular_def)

lemmas schedule_steps_ok = regular_steps_ok [OF _ empty_ok, THEN conjunct1]

end
