(* ===== verification/Schedule_Properties.thy ===== *)
theory Schedule_Properties
  imports Schedule_World
begin

text \<open>
  What holds in every reachable world of the schedulers, the loss of a control plane between the claim
  and the action included, and an example world where it happens.
\<close>

section \<open>What holds of the scheduler\<close>

text \<open>C29: While every schedule has a regular expression, one that always names a later time (which excludes
  the 30th of February, though \<^verbatim>\<open>CreateSchedule\<close> accepts it), no occurrence of a schedule is claimed
  twice, by however many control planes; every run belongs to a claimed occurrence, and the next
  occurrence lies after all claimed ones.\<close>

theorem occurrences_claimed_once:
  assumes "empty_world w0" "(regular_step L)\<^sup>*\<^sup>* w0 w"
  shows "distinct (occurrences (sw_claims w))
    \<and> (\<forall>a r. mget (sw_runs w) a = Some r \<longrightarrow> (rn_ScheduleID r, rn_ScheduledFor r) \<in> set (occurrences (sw_claims w)))
    \<and> (\<forall>i s t u. mget (sw_schedules w) i = Some s \<longrightarrow> sc_NextRunAt s = Some t \<longrightarrow> (i, u) \<in> set (occurrences (sw_claims w)) \<longrightarrow> u < t)"
  using schedule_steps_ok [OF assms(2,1)] unfolding schedule_ok_def by blast

text \<open>C30: While every schedule has a regular expression, a schedule that does not allow concurrent runs has
  at most one run that is queued or running.\<close>

theorem forbidden_runs_exclude:
  assumes "empty_world w0" "(regular_step L)\<^sup>*\<^sup>* w0 w"
    and "mget (sw_schedules w) i = Some s" "sc_ConcurrencyPolicy s \<noteq> ''allow''"
    and "mget (sw_runs w) a = Some r" "mget (sw_runs w) b = Some q" "active_run i r" "active_run i q"
  shows "a = b"
  by (rule one_activeD [OF schedule_okD(7) [OF schedule_steps_ok [OF assms(2,1)]] assms(3-8)])

definition lost_run :: "string \<Rightarrow> string \<Rightarrow> run_row \<Rightarrow> schedule_world \<Rightarrow> bool" where
  "lost_run i a r w \<longleftrightarrow> i \<in> fst ` set (sw_claims w) \<and> rn_Status r = ''queued'' \<and> rn_ScheduleID r = i \<and>
     (\<forall>s. mget (sw_schedules w) i = Some s \<longrightarrow>
        sc_ConcurrencyPolicy s \<noteq> ''allow'' \<and> mget (sw_runs w) a = Some r \<and> a \<notin> set (sw_pending w))"

lemma lost_run_step:
  assumes ok: "schedule_ok w" and lost: "lost_run i a r w" and step: "schedule_step L w w'"
  shows "lost_run i a r w'"
  using step
proof cases
  case (create e clock inp actor)
  have "i \<in> fst ` set (sw_claims w)" using lost by (simp add: lost_run_def)
  then have "i \<noteq> av_ids e 0" using create(2) by blast
  then have "lost_run i a r (w\<lparr>sw_tables := (sw_tables w)\<lparr>schedules := mput (av_ids e 0) s (sw_schedules w)\<rparr>\<rparr>)" for s
    using lost by (simp add: lost_run_def)
  then show ?thesis
    unfolding create(1) using CreateSchedule_cases [of L e clock inp actor "sw_tables w"] lost by auto
next
  case (delete e j actor)
  then show ?thesis
    using lost DeleteSchedule_cases [of e j actor "sw_tables w"] schedule_okD(2) [OF ok]
    by (auto simp: lost_run_def mget_del_if split: if_splits)
next
  case (claim e now due runID skipped d')
  from claim(2) show ?thesis
  proof (rule claim_cases)
    fix j s t upcoming base
    assume row: "(j, s) \<in> set (sw_schedules w)"
      and S: "schedules d' = mput j (s\<lparr>sc_LastScheduledAt := Some t, sc_NextRunAt := Some (upcoming base), sc_UpdatedAt := av_now e\<rparr>) (sw_schedules w)"
      and R: "schedule_runs d' = (if \<exists>r \<in> snd ` set (sw_runs w). rn_ScheduleID r = j \<and> rn_ScheduledFor r = t then sw_runs w
         else mput runID (new_run j t (if skipped then ''skipped'' else ''queued'') (av_now e)) (sw_runs w))"
    have j: "mget (sw_schedules w) j = Some s" using row mget_Some_iff [OF schedule_okD(1) [OF ok]] by simp
    have old: "mget (schedules d') k = Some q' \<Longrightarrow> \<exists>q. mget (sw_schedules w) k = Some q \<and> sc_ConcurrencyPolicy q = sc_ConcurrencyPolicy q'" for k q'
      using S j by (auto split: if_splits)
    show ?thesis
      using lost claim(1,3,4) R old unfolding lost_run_def by (fastforce simp: mhas_def split: if_splits)
  qed
next
  case (settle runID e result)
  have q: "mget (sw_runs w) runID = Some r \<Longrightarrow> rn_Status r = ''queued''" for r using schedule_okD(6) [OF ok settle(2)] .
  show ?thesis
    using lost settle settle_moves [of "sw_tables w" runID e result, OF q] by (auto simp: lost_run_def)
next
  case (reconcile e)
  then show ?thesis using lost reconcile_moves [of e "sw_tables w"] by (auto simp: lost_run_def)
qed (use lost in \<open>auto simp: lost_run_def\<close>)

text \<open>C31: When the control plane that claimed an occurrence of a schedule that does not allow concurrent
  runs is lost before it carries the action out, the run stays queued as long as the schedule exists, and
  every later occurrence of the schedule is skipped; all schedules have regular expressions. (A schedule
  that allows concurrent runs carries its later occurrences out.)\<close>

theorem lost_run_blocks_schedule:
  assumes "empty_world w0" "(regular_step L)\<^sup>*\<^sup>* w0 w" "(regular_step L)\<^sup>*\<^sup>* w w'"
    and "mget (sw_schedules w) i = Some s" "sc_ConcurrencyPolicy s \<noteq> ''allow''"
    and "mget (sw_runs w) a = Some r" "rn_ScheduleID r = i" "rn_Status r = ''queued''" "a \<notin> set (sw_pending w)"
    and "mget (sw_schedules w') i = Some s'"
  shows "mget (sw_runs w') a = Some r
    \<and> (claimDueSchedule L e now (sw_tables w') = (Inr (Some (due, runID, skipped)), d') \<longrightarrow> due_id due = i \<longrightarrow> skipped)"
proof -
  have ok: "schedule_ok w" using schedule_steps_ok [OF assms(2,1)] .
  have "i \<in> fst ` set (sw_claims w)" using in_occurrences [OF schedule_okD(5) [OF ok assms(6)]] assms(7) by simp
  then have "lost_run i a r w" using assms(4-9) by (simp add: lost_run_def)
  with assms(3) have "lost_run i a r w' \<and> schedule_ok w' \<and> regular L w'"
  proof (induction rule: rtranclp_induct)
    case (step y z)
    then show ?case
      using lost_run_step [of y i a r L z] schedule_step_ok [of y L z] by (auto simp: regular_step_def)
  qed (use ok regular_steps_ok [OF assms(2) empty_ok [OF assms(1)]] in simp)
  then have run: "mget (sw_runs w') a = Some r" and s': "sc_ConcurrencyPolicy s' \<noteq> ''allow''" and ok': "schedule_ok w'"
    using assms(10) by (auto simp: lost_run_def)
  have "skipped" if c: "claimDueSchedule L e now (sw_tables w') = (Inr (Some (due, runID, skipped)), d')" "due_id due = i"
    using c(1)
  proof (rule claim_cases)
    fix j q t upcoming base
    assume row: "(j, q) \<in> set (sw_schedules w')" and due: "due = due_of j q t"
      and skip: "skipped \<longleftrightarrow> (\<exists>r \<in> snd ` set (sw_runs w'). active_run j r) \<and> sc_ConcurrencyPolicy q \<noteq> ''allow''"
    have "j = i" using c(2) due by (simp add: due_of_def)
    then have "q = s'" using row assms(10) mget_Some_iff [OF schedule_okD(1) [OF ok'], of i q] by simp
    moreover have "r \<in> snd ` set (sw_runs w')" using run mget_in_set by force
    moreover have "active_run j r" using assms(7,8) \<open>j = i\<close> by (simp add: active_run_def)
    ultimately show "skipped" using skip s' by blast
  qed
  then show ?thesis using run by blast
qed

text \<open>An occurrence is left out only because an earlier run of its schedule is active and the schedule
  does not allow concurrent runs: not because it is late under the policy to skip missed runs. The
  earlier runs stay as they are, also under the policy to replace them.\<close>

theorem late_occurrence_still_runs:
  assumes "claimDueSchedule L e now d = (Inr (Some (due, runID, skipped)), d')" "\<not> mhas (schedule_runs d) runID"
  shows "(skipped \<longleftrightarrow> due_concurrency due \<noteq> ''allow'' \<and> (\<exists>r \<in> snd ` set (schedule_runs d). active_run (due_id due) r))
    \<and> (\<forall>a r. mget (schedule_runs d) a = Some r \<longrightarrow> mget (schedule_runs d') a = Some r)"
  using assms(1)
proof (rule claim_cases)
  fix j s t
  assume "due = due_of j s t"
    and "skipped \<longleftrightarrow> (\<exists>r \<in> snd ` set (schedule_runs d). active_run j r) \<and> sc_ConcurrencyPolicy s \<noteq> ''allow''"
    and "schedule_runs d' = (if \<exists>r \<in> snd ` set (schedule_runs d). rn_ScheduleID r = j \<and> rn_ScheduledFor r = t then schedule_runs d
       else mput runID (new_run j t (if skipped then ''skipped'' else ''queued'') (av_now e)) (schedule_runs d))"
  then show ?thesis using assms(2) by (auto simp: due_of_def mhas_def)
qed

text \<open>
  An expression that names no time, for which the library answers with the zero time, is accepted; its
  schedule stays due for ever, and claiming the same occurrence again leaves no further run behind.
\<close>

lemma impossible_expression_stays_due:
  assumes "claimDueSchedule L e now d = (Inr (Some (due, runID, skipped)), d')"
    and "cron L (cron_text (due_timezone due) (due_expression due)) = Some (\<lambda>_. zero)" "zero \<le> now'" "\<not> av_locked e' (due_id due)"
  shows "\<exists>s. (due_id due, s, zero) \<in> set (due_schedules e' now' d')"
    and "due_scheduledFor due = zero \<Longrightarrow> \<exists>r \<in> snd ` set (schedule_runs d). rn_ScheduleID r = due_id due \<and> rn_ScheduledFor r = zero \<Longrightarrow>
      schedule_runs d' = schedule_runs d"
proof -
  obtain i s t upcoming base where it: "due = due_of i s t" "sc_Enabled s"
    and up: "cron L (cron_text (sc_Timezone s) (sc_CronExpression s)) = Some upcoming"
    and S: "schedules d' = mput i (s\<lparr>sc_LastScheduledAt := Some t, sc_NextRunAt := Some (upcoming base), sc_UpdatedAt := av_now e\<rparr>) (schedules d)"
    and R: "schedule_runs d' = (if \<exists>r \<in> snd ` set (schedule_runs d). rn_ScheduleID r = i \<and> rn_ScheduledFor r = t then schedule_runs d
       else mput runID (new_run i t (if skipped then ''skipped'' else ''queued'') (av_now e)) (schedule_runs d))"
    using assms(1) by (rule claim_cases)
  let ?s = "s\<lparr>sc_LastScheduledAt := Some t, sc_NextRunAt := Some zero, sc_UpdatedAt := av_now e\<rparr>"
  have "mget (schedules d') i = Some ?s" using S up assms(2) it(1) by (simp add: due_of_def)
  from mget_in_set [OF this] have "(i, ?s, zero) \<in> set (due_schedules e' now' d')"
    using assms(3,4) it by (force simp: due_schedules_def due_of_def)
  then show "\<exists>s. (due_id due, s, zero) \<in> set (due_schedules e' now' d')" using it(1) by (auto simp: due_of_def)
  show "due_scheduledFor due = zero \<Longrightarrow> \<exists>r \<in> snd ` set (schedule_runs d). rn_ScheduleID r = due_id due \<and> rn_ScheduledFor r = zero \<Longrightarrow>
      schedule_runs d' = schedule_runs d"
    using R it(1) by (simp add: due_of_def)
qed

section \<open>An example\<close>

text \<open>A backup every minute whose first run is lost: the control plane claims it and goes away.\<close>

definition minute_lib :: auto_lib where
  "minute_lib = \<lparr>cron = (\<lambda>_. Some (\<lambda>t. t + 60 * second)), zone = (\<lambda>_. True)\<rparr>"

definition minute_env :: "string \<Rightarrow> gotime \<Rightarrow> auto_env" where
  "minute_env tag now = \<lparr>av_fails = (\<lambda>_. False), av_leader = True, av_locked = (\<lambda>_. False), av_now = now, av_ids = (\<lambda>_. tag)\<rparr>"

definition minute_admin :: User where
  "minute_admin = zero_user\<lparr>u_ID := ''u1'', u_Roles := [''platform_admin'']\<rparr>"

definition minute_input :: ScheduleInput where
  "minute_input = \<lparr>si_ServerID = ''s1'', si_Name = ''n'', si_Action = ''backup'', si_CronExpression = ''x'', si_Timezone = [],
     si_Enabled = None, si_MissedRunPolicy = [], si_ConcurrencyPolicy = []\<rparr>"

definition minute_empty :: schedule_world where
  "minute_empty = \<lparr>sw_tables = \<lparr>schedules = [], schedule_runs = [], webhook_endpoints = [], notifications = [],
     notification_deliveries = [], operation_ends = [], known_servers = [''s1'']\<rparr>, sw_claims = [], sw_pending = []\<rparr>"

definition minute_row :: "gotime option \<Rightarrow> gotime \<Rightarrow> gotime \<Rightarrow> schedule_row" where
  "minute_row lastAt nextAt changedAt =
     \<lparr>sc_ServerID = ''s1'', sc_Name = ''n'', sc_Action = ''backup'', sc_CronExpression = ''x'', sc_Timezone = ''UTC'',
      sc_Enabled = True, sc_MissedRunPolicy = ''skip'', sc_ConcurrencyPolicy = ''forbid'', sc_NextRunAt = Some nextAt,
      sc_LastScheduledAt = lastAt, sc_CreatedBy = ''u1'', sc_CreatedAt = 0, sc_UpdatedAt = changedAt\<rparr>"

definition minute_created :: schedule_world where
  "minute_created = minute_empty\<lparr>sw_tables := (sw_tables minute_empty)\<lparr>schedules := [(''c1'', minute_row None (60 * second) 0)]\<rparr>\<rparr>"

definition minute_claimed :: schedule_world where
  "minute_claimed = \<lparr>sw_tables = (sw_tables minute_created)\<lparr>
      schedules := [(''c1'', minute_row (Some (60 * second)) (120 * second) (60 * second))],
      schedule_runs := [(''r1'', new_run ''c1'' (60 * second) ''queued'' (60 * second))]\<rparr>,
     sw_claims = [(''c1'', 60 * second, False)], sw_pending = [''r1'']\<rparr>"

definition minute_lost :: schedule_world where
  "minute_lost = minute_claimed\<lparr>sw_pending := []\<rparr>"

lemma minute_advancing: "advancing minute_lib s"
  by (simp add: advancing_def minute_lib_def second_def)

lemma minute_starts: "empty_world minute_empty"
  by (simp add: empty_world_def minute_empty_def)

lemma minute_create:
  "CreateSchedule minute_lib (minute_env ''c1'' 0) 0 minute_input minute_admin (sw_tables minute_empty) =
     (Inr ''c1'', sw_tables minute_created)"
  by code_simp

lemma minute_claim:
  "claimDueSchedule minute_lib (minute_env ''r1'' (60 * second)) (60 * second) (sw_tables minute_created) =
     (Inr (Some (due_of ''c1'' (minute_row None (60 * second) 0) (60 * second), ''r1'', False)), sw_tables minute_claimed)"
  by code_simp

lemma minute_later:
  "claimDueSchedule minute_lib (minute_env ''r2'' (120 * second)) (120 * second) (sw_tables minute_lost) =
     (Inr (Some (due_of ''c1'' (minute_row (Some (60 * second)) (120 * second) (60 * second)) (120 * second), ''r2'', True)),
      (sw_tables minute_lost)\<lparr>
        schedules := [(''c1'', minute_row (Some (120 * second)) (180 * second) (120 * second))],
        schedule_runs := [(''r1'', new_run ''c1'' (60 * second) ''queued'' (60 * second)),
           (''r2'', new_run ''c1'' (120 * second) ''skipped'' (120 * second))]\<rparr>)"
  by code_simp

lemma minute_reached:
  "(regular_step minute_lib)\<^sup>*\<^sup>* minute_empty minute_lost"
proof -
  have "schedule_step minute_lib minute_empty minute_created"
    using create [of "minute_env ''c1'' 0" minute_empty minute_lib 0 minute_input minute_admin] minute_create
    by (simp add: minute_created_def minute_empty_def)
  moreover have "schedule_step minute_lib minute_created minute_claimed"
    using claim [OF minute_claim] by (simp add: minute_created_def minute_claimed_def minute_empty_def mhas_def due_of_def)
  moreover have "schedule_step minute_lib minute_claimed minute_lost"
    using crash [of minute_lib minute_claimed "\<lambda>_. False"] by (simp add: minute_lost_def)
  ultimately have "regular_step minute_lib minute_empty minute_created" "regular_step minute_lib minute_created minute_claimed"
      "regular_step minute_lib minute_claimed minute_lost"
    using minute_advancing by (auto simp: regular_step_def regular_def)
  then show ?thesis by (meson rtranclp.rtrancl_into_rtrancl rtranclp.rtrancl_refl)
qed

lemma minute_lost_run: "mget (sw_runs minute_lost) ''r1'' = Some (new_run ''c1'' (60 * second) ''queued'' (60 * second))"
  by (simp add: minute_lost_def minute_claimed_def)

lemma minute_lost_schedule: "mget (sw_schedules minute_lost) ''c1'' = Some (minute_row (Some (60 * second)) (120 * second) (60 * second))"
  by (simp add: minute_lost_def minute_claimed_def)

theorem occurrences_claimed_once_witness:
  "occurrences (sw_claims minute_lost) = [(''c1'', 60 * second)] \<and> distinct (occurrences (sw_claims minute_lost))"
  using occurrences_claimed_once [OF minute_starts minute_reached]
  by (simp add: occurrences_def minute_lost_def minute_claimed_def)

theorem forbidden_runs_exclude_witness:
  "\<exists>r. mget (sw_runs minute_lost) ''r1'' = Some r \<and> active_run ''c1'' r \<and> ''r1'' = ''r1''"
  using forbidden_runs_exclude [OF minute_starts minute_reached minute_lost_schedule _ minute_lost_run minute_lost_run] minute_lost_run
  by (simp add: minute_row_def active_run_def new_run_def)

theorem lost_run_blocks_schedule_witness:
  "\<exists>due skipped d. claimDueSchedule minute_lib (minute_env ''r2'' (120 * second)) (120 * second) (sw_tables minute_lost) =
     (Inr (Some (due, ''r2'', skipped)), d) \<and> due_id due = ''c1'' \<and> skipped
     \<and> mget (sw_runs minute_lost) ''r1'' = Some (new_run ''c1'' (60 * second) ''queued'' (60 * second))"
proof -
  obtain due skipped d where c: "claimDueSchedule minute_lib (minute_env ''r2'' (120 * second)) (120 * second) (sw_tables minute_lost) =
     (Inr (Some (due, ''r2'', skipped)), d)" "due_id due = ''c1''"
    using minute_later by (simp add: due_of_def)
  have "mget (sw_runs minute_lost) ''r1'' = Some (new_run ''c1'' (60 * second) ''queued'' (60 * second)) \<and> skipped"
    using lost_run_blocks_schedule [OF minute_starts minute_reached rtranclp.rtrancl_refl
      minute_lost_schedule _ minute_lost_run _ _ _ minute_lost_schedule,
      of "minute_env ''r2'' (120 * second)" "120 * second" due "''r2''" skipped d] c
    by (simp add: minute_row_def new_run_def minute_lost_def)
  then show ?thesis using c by blast
qed

theorem late_occurrence_still_runs_witness:
  "\<exists>due runID skipped d. claimDueSchedule minute_lib (minute_env ''r2'' (120 * second)) (120 * second) (sw_tables minute_lost) =
     (Inr (Some (due, runID, skipped)), d) \<and> due_concurrency due \<noteq> ''allow'' \<and> skipped
     \<and> mget (schedule_runs d) ''r1'' = mget (sw_runs minute_lost) ''r1''"
proof -
  have "\<not> mhas (sw_runs minute_lost) ''r2''" by (simp add: minute_lost_def minute_claimed_def mhas_def)
  from late_occurrence_still_runs [OF minute_later this] show ?thesis
    using minute_later minute_lost_run by auto
qed

end
