(* ===== verification/Delivery_World.thy ===== *)
theory Delivery_World
  imports Automation
begin

text \<open>
  The deliveries of notifications by any number of senders as a transition system. \<open>dw_claims\<close> remembers
  every claim with its lease, \<open>dw_working\<close> are the claims whose sender is still at work; a crash forgets
  some of these. Fresh identifiers are new.
\<close>

record delivery_world =
  dw_tables :: auto_tables
  dw_claims :: "(deliveryClaim \<times> string) list"
  dw_working :: "(deliveryClaim \<times> string) list"

abbreviation dw_rows :: "delivery_world \<Rightarrow> (string, delivery_row) gomap" where
  "dw_rows w \<equiv> notification_deliveries (dw_tables w)"

definition unused_ids :: "auto_env \<Rightarrow> delivery_world \<Rightarrow> bool" where
  "unused_ids e w \<longleftrightarrow> (\<forall>k. \<not> mhas (dw_rows w) (av_ids e k))"

inductive delivery_step :: "delivery_world \<Rightarrow> delivery_world \<Rightarrow> bool" where
  emit: "unused_ids e w \<Longrightarrow> delivery_step w (w\<lparr>dw_tables := snd (EmitNotification e severity dedupeKey (dw_tables w))\<rparr>)"
| test: "unused_ids e w \<Longrightarrow> delivery_step w (w\<lparr>dw_tables := snd (TestWebhook e webhookID actor (dw_tables w))\<rparr>)"
| webhook: "delivery_step w (w\<lparr>dw_tables := snd (CreateWebhook W e name url enabled actor (dw_tables w))\<rparr>)"
| claim: "claimDelivery e (dw_tables w) = (Inr (Some (c, lease)), d') \<Longrightarrow> lease \<notin> snd ` set (dw_claims w) \<Longrightarrow>
    delivery_step w \<lparr>dw_tables = d', dw_claims = (c, lease) # dw_claims w, dw_working = (c, lease) # dw_working w\<rparr>"
| finish: "(c, lease) \<in> set (dw_working w) \<Longrightarrow>
    delivery_step w (w\<lparr>dw_tables := finish_delivery e c lease result (dw_tables w),
      dw_working := removeAll (c, lease) (dw_working w)\<rparr>)"
| crash: "delivery_step w (w\<lparr>dw_working := filter alive (dw_working w)\<rparr>)"
| elsewhere: "notification_deliveries d' = dw_rows w \<Longrightarrow> delivery_step w (w\<lparr>dw_tables := d'\<rparr>)"

definition idle_world :: "delivery_world \<Rightarrow> bool" where
  "idle_world w \<longleftrightarrow> dw_rows w = [] \<and> dw_claims w = [] \<and> dw_working w = []"

section \<open>The invariant\<close>

definition claims_of :: "string \<Rightarrow> (deliveryClaim \<times> string) list \<Rightarrow> nat" where
  "claims_of i claims = length (filter (\<lambda>(c, _). dc_id c = i) claims)"

lemma claims_of_Nil [simp]: "claims_of i [] = 0"
  by (simp add: claims_of_def)

lemma claims_of_Cons [simp]: "claims_of i ((c, l) # claims) = (if dc_id c = i then Suc (claims_of i claims) else claims_of i claims)"
  by (simp add: claims_of_def)

lemma claims_of_none: "\<forall>(c, l) \<in> set claims. dc_id c \<noteq> i \<Longrightarrow> claims_of i claims = 0"
  by (auto simp: claims_of_def filter_empty_conv)

definition row_ok :: "(deliveryClaim \<times> string) list \<Rightarrow> string \<Rightarrow> delivery_row \<Rightarrow> bool" where
  "row_ok claims i r \<longleftrightarrow> dl_Attempt r = int (claims_of i claims) \<and> dl_Attempt r \<le> 8
     \<and> dl_Status r \<in> {''pending'', ''leased'', ''delivered'', ''failed'', ''dead-letter''}
     \<and> (dl_Status r \<in> {''pending'', ''failed''} \<longrightarrow> dl_Attempt r < 8)
     \<and> (dl_Status r = ''dead-letter'' \<longrightarrow> dl_Attempt r = 8)
     \<and> (case dl_LeaseOwner r of
          None \<Rightarrow> dl_Status r \<noteq> ''leased''
        | Some l \<Rightarrow> dl_Status r = ''leased'' \<and> (\<exists>c. (c, l) \<in> set claims \<and> dc_id c = i \<and> dc_attempt c = dl_Attempt r))"

definition delivery_ok :: "delivery_world \<Rightarrow> bool" where
  "delivery_ok w \<longleftrightarrow> mwf (dw_rows w) \<and> (\<forall>i r. mget (dw_rows w) i = Some r \<longrightarrow> row_ok (dw_claims w) i r)
     \<and> distinct (map snd (dw_claims w)) \<and> set (dw_working w) \<subseteq> set (dw_claims w)
     \<and> (\<forall>(c, l) \<in> set (dw_claims w). mhas (dw_rows w) (dc_id c))"

lemma delivery_okD:
  assumes "delivery_ok w"
  shows "mwf (dw_rows w)" "mget (dw_rows w) i = Some r \<Longrightarrow> row_ok (dw_claims w) i r" "distinct (map snd (dw_claims w))"
    "set (dw_working w) \<subseteq> set (dw_claims w)" "(c, l) \<in> set (dw_claims w) \<Longrightarrow> mhas (dw_rows w) (dc_id c)"
  using assms unfolding delivery_ok_def by blast+

section \<open>What the operations do to the rows\<close>

text \<open>New rows come beside the old ones, which stay as they are.\<close>

definition added :: "(string, delivery_row) gomap \<Rightarrow> (string, delivery_row) gomap \<Rightarrow> bool" where
  "added D D' \<longleftrightarrow> (mwf D \<longrightarrow> mwf D') \<and> (\<forall>i r. mget D i = Some r \<longrightarrow> mget D' i = Some r)
     \<and> (\<forall>i r. mget D' i = Some r \<longrightarrow> mget D i = Some r \<or> \<not> mhas D i \<and> (\<exists>n endpoint t. r = new_delivery n endpoint t))"

lemma added_refl: "added D D"
  by (simp add: added_def)

lemma added_put: "added D D' \<Longrightarrow> \<not> mhas D i \<Longrightarrow> added D (mput i (new_delivery n endpoint t) D')"
  by (auto simp: added_def mhas_def split: if_splits)

lemma added_deliveries:
  "added D D' \<Longrightarrow> (\<And>k. \<not> mhas D (av_ids e k)) \<Longrightarrow> added D (add_deliveries e n k endpoints D')"
  by (induction endpoints arbitrary: k D') (auto intro: added_put)

lemma EmitNotification_adds:
  assumes "\<And>k. \<not> mhas (notification_deliveries d) (av_ids e k)"
  shows "added (notification_deliveries d) (notification_deliveries (snd (EmitNotification e severity key d)))"
  using assms added_put [OF added_refl]
  by (auto simp: EmitNotification_def added_refl split: prod.splits option.splits intro!: added_deliveries added_put)

lemma TestWebhook_adds:
  assumes "\<And>k. \<not> mhas (notification_deliveries d) (av_ids e k)"
  shows "added (notification_deliveries d) (notification_deliveries (snd (TestWebhook e i actor d)))"
  using assms by (auto simp: TestWebhook_def added_refl split: option.splits intro!: added_put)

lemma CreateWebhook_rows: "notification_deliveries (snd (CreateWebhook W e name url enabled actor d)) = notification_deliveries d"
  by (simp add: CreateWebhook_def Let_def split: option.splits)

lemma soonest_in: "soonest xs = Some x \<Longrightarrow> x \<in> set xs"
  by (induction xs rule: soonest.induct) (auto split: option.splits if_splits)

definition leased_row :: "auto_env \<Rightarrow> delivery_row \<Rightarrow> delivery_row" where
  "leased_row e r = r\<lparr>dl_Status := ''leased'', dl_Attempt := dl_Attempt r + 1, dl_LeaseOwner := Some (av_ids e 0),
     dl_LeaseUntil := Some (av_now e + 120 * second)\<rparr>"

lemma claimDelivery_cases:
  assumes "claimDelivery e d = (Inr (Some (c, lease)), d')"
  obtains r where "(dc_id c, r) \<in> set (notification_deliveries d)" "claimable_delivery e (dc_id c) r" "dc_attempt c = dl_Attempt r + 1"
    "lease = av_ids e 0" "notification_deliveries d' = mput (dc_id c) (leased_row e r) (notification_deliveries d)"
proof -
  obtain i r where first: "soonest (filter (\<lambda>(i, r). claimable_delivery e i r) (notification_deliveries d)) = Some (i, r)"
    using assms by (auto simp: claimDelivery_def split: if_splits option.splits)
  then have "(i, r) \<in> set (notification_deliveries d)" "claimable_delivery e i r"
    using soonest_in [OF first] by auto
  moreover have "dc_id c = i" "dc_attempt c = dl_Attempt r + 1" "lease = av_ids e 0"
      "notification_deliveries d' = mput i (leased_row e r) (notification_deliveries d)"
    using assms first by (auto simp: claimDelivery_def leased_row_def split: if_splits option.splits)
  ultimately show thesis using that by blast
qed

lemma finish_delivery_rows:
  "finish_delivery e c lease result d = d \<or>
   (\<exists>r. mget (notification_deliveries d) (dc_id c) = Some r \<and> dl_LeaseOwner r = Some lease \<and>
     notification_deliveries (finish_delivery e c lease result d) = mput (dc_id c) (finish_row e c result r) (notification_deliveries d))"
  by (auto simp: finish_delivery_def split: option.splits)

section \<open>The steps keep it\<close>

lemma ok_added:
  assumes ok: "delivery_ok w" and more: "added (dw_rows w) (notification_deliveries d)"
  shows "delivery_ok (w\<lparr>dw_tables := d\<rparr>)"
proof -
  have "row_ok (dw_claims w) i r" if "mget (notification_deliveries d) i = Some r" for i r
  proof (cases "mget (dw_rows w) i = Some r")
    case False
    then obtain n endpoint t where new: "\<not> mhas (dw_rows w) i" "r = new_delivery n endpoint t"
      using more \<open>mget (notification_deliveries d) i = Some r\<close> unfolding added_def by blast
    then have "claims_of i (dw_claims w) = 0" using delivery_okD(5) [OF ok] by (intro claims_of_none) auto
    then show ?thesis using new(2) by (simp add: row_ok_def new_delivery_def)
  qed (use delivery_okD(2) [OF ok] in blast)
  moreover have "mhas (notification_deliveries d) i" if "mhas (dw_rows w) i" for i
    using that more by (auto simp: added_def mhas_def)
  ultimately show ?thesis
    using delivery_okD [OF ok] more by (auto simp: delivery_ok_def added_def)
qed

lemma row_ok_other: "row_ok claims i r \<Longrightarrow> dc_id c \<noteq> i \<Longrightarrow> row_ok ((c, l) # claims) i r"
  by (auto simp: row_ok_def split: option.splits)

lemma ok_claim_delivery:
  assumes ok: "delivery_ok w" and run: "claimDelivery e (dw_tables w) = (Inr (Some (c, lease)), d')"
    and new: "lease \<notin> snd ` set (dw_claims w)"
  shows "delivery_ok \<lparr>dw_tables = d', dw_claims = (c, lease) # dw_claims w, dw_working = (c, lease) # dw_working w\<rparr>"
  using run
proof (rule claimDelivery_cases)
  fix r
  assume r: "(dc_id c, r) \<in> set (dw_rows w)" "claimable_delivery e (dc_id c) r" "dc_attempt c = dl_Attempt r + 1" "lease = av_ids e 0"
    and D: "notification_deliveries d' = mput (dc_id c) (leased_row e r) (dw_rows w)"
  have "mget (dw_rows w) (dc_id c) = Some r" using r(1) mget_Some_iff [OF delivery_okD(1) [OF ok]] by simp
  then have "row_ok (dw_claims w) (dc_id c) r" by (rule delivery_okD(2) [OF ok])
  then have leased: "row_ok ((c, lease) # dw_claims w) (dc_id c) (leased_row e r)"
    using r(2-4) by (auto simp: row_ok_def claimable_delivery_def leased_row_def)
  have "row_ok ((c, lease) # dw_claims w) i q" if "mget (notification_deliveries d') i = Some q" for i q
    using that leased delivery_okD(2) [OF ok, of i q] D by (auto intro: row_ok_other split: if_splits)
  then show ?thesis
    using delivery_okD(1,3,4,5) [OF ok] new D by (auto simp: delivery_ok_def)
qed

lemma finished_row_ok:
  assumes "row_ok claims (dc_id c) r" "dl_LeaseOwner r = Some lease" "(c, lease) \<in> set claims" "distinct (map snd claims)"
  shows "row_ok claims (dc_id c) (finish_row e c result r)"
proof -
  obtain c' where "(c', lease) \<in> set claims" "dc_attempt c' = dl_Attempt r" using assms(1,2) by (auto simp: row_ok_def)
  then have "dc_attempt c = dl_Attempt r" using eq_key_imp_eq_value [of "map prod.swap claims" lease c c'] assms(3,4)
    by (force simp: comp_def)
  then show ?thesis using assms(1) by (auto simp: row_ok_def finish_row_def split: option.splits)
qed

lemma ok_finish:
  assumes ok: "delivery_ok w" and at: "(c, lease) \<in> set (dw_working w)"
  shows "delivery_ok (w\<lparr>dw_tables := finish_delivery e c lease result (dw_tables w), dw_working := removeAll (c, lease) (dw_working w)\<rparr>)"
proof -
  note D = delivery_okD [OF ok]
  have mine: "(c, lease) \<in> set (dw_claims w)" using at D(4) by blast
  show ?thesis
    using finish_delivery_rows [of e c lease result "dw_tables w"]
  proof
    assume "finish_delivery e c lease result (dw_tables w) = dw_tables w"
    then show ?thesis using D by (auto simp: delivery_ok_def)
  next
    assume "\<exists>r. mget (dw_rows w) (dc_id c) = Some r \<and> dl_LeaseOwner r = Some lease \<and>
      notification_deliveries (finish_delivery e c lease result (dw_tables w)) = mput (dc_id c) (finish_row e c result r) (dw_rows w)"
    then obtain r where r: "mget (dw_rows w) (dc_id c) = Some r" "dl_LeaseOwner r = Some lease"
      and R: "notification_deliveries (finish_delivery e c lease result (dw_tables w)) = mput (dc_id c) (finish_row e c result r) (dw_rows w)"
      by blast
    have "row_ok (dw_claims w) (dc_id c) (finish_row e c result r)"
      using finished_row_ok [OF D(2) [OF r(1)] r(2) mine D(3)] .
    then show ?thesis using D R by (auto simp: delivery_ok_def split: if_splits)
  qed
qed

lemma delivery_step_ok:
  assumes ok: "delivery_ok w" and step: "delivery_step w w'"
  shows "delivery_ok w'"
  using step
proof cases
  case (emit e severity key)
  then show ?thesis using ok_added [OF ok EmitNotification_adds] by (simp add: unused_ids_def)
next
  case (test e i actor)
  then show ?thesis using ok_added [OF ok TestWebhook_adds] by (simp add: unused_ids_def)
next
  case (webhook W e name url enabled actor)
  then show ?thesis using ok_added [OF ok] by (simp add: CreateWebhook_rows added_refl)
next
  case (claim e c lease d')
  then show ?thesis using ok_claim_delivery [OF ok claim(2,3)] by simp
next
  case (finish c lease e result)
  then show ?thesis using ok_finish [OF ok finish(2)] by simp
next
  case (crash alive)
  then show ?thesis using delivery_okD [OF ok] by (auto simp: delivery_ok_def)
next
  case (elsewhere d')
  then show ?thesis using ok_added [OF ok] by (simp add: added_refl)
qed

lemma idle_ok: "idle_world w \<Longrightarrow> delivery_ok w"
  by (simp add: idle_world_def delivery_ok_def)

lemma delivery_steps_ok: "delivery_step\<^sup>*\<^sup>* w w' \<Longrightarrow> delivery_ok w \<Longrightarrow> delivery_ok w'"
  by (induction rule: rtranclp_induct) (auto intro: delivery_step_ok)

end
