(* ===== verification/Delivery_Properties.thy ===== *)
theory Delivery_Properties
  imports Delivery_World
begin

text \<open>
  How often a delivery is tried, what becomes of one whose sender is lost, and that the sender's loop
  ends; with an example world.
\<close>

section \<open>What holds of the deliveries\<close>

text \<open>C32: A delivery is claimed at most eight times, its row counts the claims, and it is given up only after
  the eighth: while it may still be tried it has been claimed less than eight times.\<close>

theorem delivery_attempts_bounded:
  assumes "idle_world w0" "delivery_step\<^sup>*\<^sup>* w0 w" "mget (dw_rows w) i = Some r"
  shows "dl_Attempt r = int (claims_of i (dw_claims w)) \<and> claims_of i (dw_claims w) \<le> 8
    \<and> (dl_Status r = ''dead-letter'' \<longrightarrow> claims_of i (dw_claims w) = 8)
    \<and> (dl_Status r = ''pending'' \<or> dl_Status r = ''failed'' \<longrightarrow> claims_of i (dw_claims w) < 8)"
  using delivery_okD(2) [OF delivery_steps_ok [OF assms(2) idle_ok [OF assms(1)]] assms(3)] by (auto simp: row_ok_def)

lemma settled_row_step:
  assumes ok: "delivery_ok w" and row: "mget (dw_rows w) i = Some r" and step: "delivery_step w w'"
    and idle: "dl_Status r \<in> {''delivered'', ''dead-letter''} \<or>
      dl_Status r = ''leased'' \<and> (\<forall>(c, l) \<in> set (dw_working w). dl_LeaseOwner r \<noteq> Some l)"
  shows "mget (dw_rows w') i = Some r"
  using step
proof cases
  case (emit e severity key)
  then show ?thesis using EmitNotification_adds [of "dw_tables w" e severity key] row by (simp add: unused_ids_def added_def)
next
  case (test e j actor)
  then show ?thesis using TestWebhook_adds [of "dw_tables w" e j actor] row by (simp add: unused_ids_def added_def)
next
  case (webhook W e name url enabled actor)
  then show ?thesis using row by (simp add: CreateWebhook_rows)
next
  case (claim e c lease d')
  from claim(2) show ?thesis
  proof (rule claimDelivery_cases)
    fix q
    assume q: "(dc_id c, q) \<in> set (dw_rows w)" "claimable_delivery e (dc_id c) q"
      and D: "notification_deliveries d' = mput (dc_id c) (leased_row e q) (dw_rows w)"
    have "mget (dw_rows w) (dc_id c) = Some q" using q(1) mget_Some_iff [OF delivery_okD(1) [OF ok]] by simp
    then have "dc_id c \<noteq> i" using q(2) row idle by (auto simp: claimable_delivery_def)
    then show ?thesis using D row claim(1) by simp
  qed
next
  case (finish c lease e result)
  have "\<not> (dc_id c = i \<and> dl_LeaseOwner r = Some lease)"
    using idle finish(2) delivery_okD(2) [OF ok row] by (auto simp: row_ok_def)
  then show ?thesis using finish_delivery_rows [of e c lease result "dw_tables w"] row finish(1) by auto
next
  case (crash alive)
  then show ?thesis using row by simp
next
  case (elsewhere d')
  then show ?thesis using row by simp
qed

text \<open>A message that was delivered, or given up, is never sent again.\<close>

lemma delivered_is_final:
  assumes "idle_world w0" "delivery_step\<^sup>*\<^sup>* w0 w" "delivery_step\<^sup>*\<^sup>* w w'"
    and "mget (dw_rows w) i = Some r" "dl_Status r \<in> {''delivered'', ''dead-letter''}"
  shows "mget (dw_rows w') i = Some r \<and> claims_of i (dw_claims w') = claims_of i (dw_claims w)"
proof -
  have ok: "delivery_ok w" using delivery_steps_ok [OF assms(2) idle_ok [OF assms(1)]] .
  from assms(3) have "mget (dw_rows w') i = Some r \<and> delivery_ok w'"
  proof (induction rule: rtranclp_induct)
    case (step y z)
    then show ?case using settled_row_step [of y i r z] delivery_step_ok [of y z] assms(5) by auto
  qed (use assms(4) ok in simp)
  then show ?thesis using delivery_okD(2) [OF ok assms(4)] delivery_okD(2) [of w' i r] by (simp add: row_ok_def)
qed

text \<open>
  The end of a lease is written but nowhere read: a claimed delivery whose sender is lost stays
  \<^verbatim>\<open>leased\<close>, and is never tried again.
\<close>

lemma lost_row_step:
  assumes ok: "delivery_ok w" and lost: "(c, lease) \<in> set (dw_claims w)" "(c, lease) \<notin> set (dw_working w)"
    and step: "delivery_step w w'"
  shows "(c, lease) \<in> set (dw_claims w') \<and> (c, lease) \<notin> set (dw_working w')"
  using step lost by cases force+

text \<open>A delivery whose sender is lost after the claim is never tried again: its row stays leased in every
  later state, although the lease runs out after two minutes.\<close>

theorem lost_delivery_never_retried:
  assumes "idle_world w0" "delivery_step\<^sup>*\<^sup>* w0 w" "delivery_step\<^sup>*\<^sup>* w w'"
    and "mget (dw_rows w) (dc_id c) = Some r" "dl_Status r = ''leased''" "dl_LeaseOwner r = Some lease"
    and "(c, lease) \<in> set (dw_claims w)" "(c, lease) \<notin> set (dw_working w)"
  shows "mget (dw_rows w') (dc_id c) = Some r"
proof -
  have ok: "delivery_ok w" using delivery_steps_ok [OF assms(2) idle_ok [OF assms(1)]] .
  have mine: "c' = c" if "(c', lease) \<in> set (dw_working z)" "(c, lease) \<in> set (dw_claims z)" "delivery_ok z" for c' z
    using that delivery_okD(3,4) [of z] eq_key_imp_eq_value [of "map prod.swap (dw_claims z)" lease c' c]
    by (force simp: comp_def)
  from assms(3) have "mget (dw_rows w') (dc_id c) = Some r \<and> delivery_ok w' \<and>
      (c, lease) \<in> set (dw_claims w') \<and> (c, lease) \<notin> set (dw_working w')"
  proof (induction rule: rtranclp_induct)
    case (step y z)
    have "\<forall>(c', l) \<in> set (dw_working y). dl_LeaseOwner r \<noteq> Some l" using step mine [of _ y] assms(6) by auto
    then show ?case
      using step settled_row_step [of y "dc_id c" r z] delivery_step_ok [of y z] lost_row_step [of y c lease z] assms(5) by auto
  qed (use assms(4,7,8) ok in simp)
  then show ?thesis by simp
qed

section \<open>The sender's loop ends\<close>

definition rounds_left :: "delivery_row \<Rightarrow> nat" where
  "rounds_left r = (if dl_Status r = ''pending'' \<or> dl_Status r = ''failed'' then 1 + nat (8 - dl_Attempt r) else 0)"

definition all_rounds :: "auto_tables \<Rightarrow> nat" where
  "all_rounds d = (\<Sum>(i, r) \<leftarrow> notification_deliveries d. rounds_left r)"

lemma rounds_put:
  assumes "mwf D" "mget D i = Some r"
  shows "(\<Sum>(i, r) \<leftarrow> mput i q D. rounds_left r) + rounds_left r = (\<Sum>(i, r) \<leftarrow> D. rounds_left r) + rounds_left q"
  using assms
proof (induction D)
  case (Cons x D)
  show ?case
  proof (cases "fst x = i")
    case True
    then show ?thesis using Cons.prems by (cases x) (simp add: mput_def)
  next
    case False
    then show ?thesis using Cons by (cases x) (auto simp: mput_def mwf_def)
  qed
qed simp

lemma round_progress:
  assumes wf: "mwf (notification_deliveries d)" and run: "claimDelivery e d = (Inr (Some (c, lease)), d')"
  shows "all_rounds (finish_delivery e c lease result d') < all_rounds d \<and> mwf (notification_deliveries (finish_delivery e c lease result d'))"
  using run
proof (rule claimDelivery_cases)
  fix r
  assume r: "(dc_id c, r) \<in> set (notification_deliveries d)" "claimable_delivery e (dc_id c) r" "dc_attempt c = dl_Attempt r + 1"
    and D: "notification_deliveries d' = mput (dc_id c) (leased_row e r) (notification_deliveries d)"
  let ?D = "notification_deliveries d" let ?i = "dc_id c"
  have row: "mget ?D ?i = Some r" using r(1) mget_Some_iff [OF wf] by simp
  have left: "rounds_left (leased_row e r) = 0" by (simp add: rounds_left_def leased_row_def)
  have fin: "rounds_left (finish_row e c result (leased_row e r)) < rounds_left r"
    using r(2,3) by (auto simp: rounds_left_def finish_row_def leased_row_def claimable_delivery_def split: option.splits)
  have "notification_deliveries (finish_delivery e c lease result d') = mput ?i (leased_row e r) ?D \<or>
      notification_deliveries (finish_delivery e c lease result d') = mput ?i (finish_row e c result (leased_row e r)) ?D"
    using finish_delivery_rows [of e c lease result d'] D by auto
  then show ?thesis
    using rounds_put [OF wf row, of "leased_row e r"] rounds_put [OF wf row, of "finish_row e c result (leased_row e r)"] left fin wf
    by (auto simp: all_rounds_def)
qed

lemma deliver_ends:
  "mwf (notification_deliveries d) \<Longrightarrow> all_rounds d < fuel \<Longrightarrow> deliver env send limit fuel k delivered d \<noteq> None"
proof (induction fuel arbitrary: k delivered d)
  case (Suc fuel)
  obtain x d' where c: "claimDelivery (env k) d = (x, d')" by fastforce
  show ?case
  proof (cases x)
    case (Inr y)
    show ?thesis
    proof (cases y)
      case (Some p)
      then obtain cl lease where "x = Inr (Some (cl, lease))" using Inr by (cases p) simp
      then have run: "claimDelivery (env k) d = (Inr (Some (cl, lease)), d')" using c by simp
      let ?d = "finish_delivery (env k) cl lease (send k cl) d'"
      have "mwf (notification_deliveries ?d)" "all_rounds ?d < fuel"
        using round_progress [OF Suc.prems(1) run, of "send k cl"] Suc.prems(2) by simp_all
      from Suc.IH [OF this] show ?thesis using run by (simp del: not_None_eq)
    qed (use c Inr in \<open>simp del: not_None_eq\<close>)
  qed (use c in \<open>simp del: not_None_eq\<close>)
qed simp

text \<open>C33: The sender's loop ends, whatever the webhooks answer and whatever fails: nine rounds for each row of
  the table are enough fuel.\<close>

theorem DeliverNotifications_terminates:
  assumes "mwf (notification_deliveries d)" "\<forall>r \<in> snd ` set (notification_deliveries d). 0 \<le> dl_Attempt r"
  shows "\<exists>result. DeliverNotifications env send (9 * length (notification_deliveries d) + 1) limit d = Some result"
proof -
  have "(\<Sum>(i, r) \<leftarrow> D. rounds_left r) \<le> 9 * length D" if "\<forall>r \<in> snd ` set D. 0 \<le> dl_Attempt r" for D :: "(string, delivery_row) gomap"
    using that by (induction D) (auto simp: rounds_left_def)
  then have "all_rounds d < 9 * length (notification_deliveries d) + 1" using assms(2) by (simp add: all_rounds_def less_Suc_eq_le)
  from deliver_ends [OF assms(1) this, of env send "if limit < 1 \<or> 100 < limit then 16 else nat limit" 0 0]
  show ?thesis unfolding DeliverNotifications_def by (simp del: deliver.simps)
qed

section \<open>An example\<close>

text \<open>One notification for one webhook; the sender claims the delivery and goes away.\<close>

definition hook_env :: "string \<Rightarrow> gotime \<Rightarrow> auto_env" where
  "hook_env tag now = \<lparr>av_fails = (\<lambda>_. False), av_leader = True, av_locked = (\<lambda>_. False), av_now = now,
     av_ids = (\<lambda>k. tag @ replicate k (CHR ''i''))\<rparr>"

definition hook_row :: delivery_row where
  "hook_row = \<lparr>dl_NotificationID = ''x'', dl_EndpointID = Some ''w1'', dl_Channel = ''webhook'', dl_Status = ''leased'', dl_Attempt = 1,
     dl_NextAttemptAt = 1, dl_LeaseOwner = Some ''y'', dl_LeaseUntil = Some (2 + 120 * second), dl_LastError = None, dl_DeliveredAt = None\<rparr>"

definition hook_claim :: deliveryClaim where
  "hook_claim = \<lparr>dc_id = ''xii'', dc_notificationID = ''x'', dc_endpointID = ''w1'', dc_attempt = 1\<rparr>"

definition hook_idle :: delivery_world where
  "hook_idle = \<lparr>dw_tables = \<lparr>schedules = [], schedule_runs = [],
     webhook_endpoints = [(''w1'', \<lparr>wh_Name = ''n'', wh_URL = ''https://h'', wh_SecretCiphertext = ''c'', wh_Enabled = True\<rparr>)],
     notifications = [], notification_deliveries = [], operation_ends = [], known_servers = []\<rparr>, dw_claims = [], dw_working = []\<rparr>"

definition hook_emitted :: auto_tables where
  "hook_emitted = snd (EmitNotification (hook_env ''x'' 1) ''info'' ''k'' (dw_tables hook_idle))"

definition hook_claimed :: auto_tables where
  "hook_claimed = hook_emitted\<lparr>notification_deliveries :=
     [(''xi'', new_delivery ''x'' None 1), (''xii'', hook_row)]\<rparr>"

definition hook_lost :: delivery_world where
  "hook_lost = \<lparr>dw_tables = hook_claimed, dw_claims = [(hook_claim, ''y'')], dw_working = []\<rparr>"

lemma hook_runs: "claimDelivery (hook_env ''y'' 2) hook_emitted = (Inr (Some (hook_claim, ''y'')), hook_claimed)"
  by code_simp

lemma hook_starts: "idle_world hook_idle"
  by (simp add: idle_world_def hook_idle_def)

lemma hook_reached: "delivery_step\<^sup>*\<^sup>* hook_idle hook_lost"
proof -
  let ?w = "hook_idle\<lparr>dw_tables := hook_emitted\<rparr>"
  let ?v = "\<lparr>dw_tables = hook_claimed, dw_claims = [(hook_claim, ''y'')], dw_working = [(hook_claim, ''y'')]\<rparr>"
  have "delivery_step hook_idle ?w"
    unfolding hook_emitted_def by (rule emit) (simp add: unused_ids_def hook_idle_def mhas_def)
  moreover have "delivery_step ?w ?v"
    using claim [of "hook_env ''y'' 2" ?w hook_claim "''y''" hook_claimed] hook_runs by (simp add: hook_idle_def)
  moreover have "delivery_step ?v hook_lost"
    using crash [of ?v "\<lambda>_. False"] by (simp add: hook_lost_def)
  ultimately show ?thesis by (meson rtranclp.rtrancl_into_rtrancl rtranclp.rtrancl_refl)
qed

lemma hook_lost_row: "mget (dw_rows hook_lost) ''xii'' = Some hook_row"
  by (simp add: hook_lost_def hook_claimed_def)

theorem delivery_attempts_bounded_witness:
  "dl_Attempt hook_row = 1 \<and> claims_of ''xii'' (dw_claims hook_lost) = 1 \<and> (1::nat) \<le> 8"
  using delivery_attempts_bounded [OF hook_starts hook_reached hook_lost_row] by (simp add: hook_row_def)

theorem lost_delivery_never_retried_witness:
  "delivery_step\<^sup>*\<^sup>* hook_idle hook_lost \<and> mget (dw_rows hook_lost) (dc_id hook_claim) = Some hook_row \<and> dw_working hook_lost = []"
  using lost_delivery_never_retried [OF hook_starts hook_reached rtranclp.rtrancl_refl, of hook_claim hook_row "''y''"] hook_lost_row hook_reached
  by (simp add: hook_claim_def hook_row_def hook_lost_def)

theorem DeliverNotifications_terminates_witness:
  "\<exists>result. DeliverNotifications (\<lambda>_. hook_env ''y'' 2) (\<lambda>_ _. Some ''refused'') 19 16 hook_emitted = Some result"
proof -
  have "mwf (notification_deliveries hook_emitted)" "length (notification_deliveries hook_emitted) = 2"
      "\<forall>r \<in> snd ` set (notification_deliveries hook_emitted). 0 \<le> dl_Attempt r"
    by code_simp+
  from DeliverNotifications_terminates [OF this(1,3), of "\<lambda>_. hook_env ''y'' 2" "\<lambda>_ _. Some ''refused''" 16] this(2)
  show ?thesis by simp
qed

end
