(* ===== verification/Outbox.thy ===== *)
theory Outbox
  imports Task_Facts
begin

text \<open>
  The publication of events (\<^verbatim>\<open>internal/store/postgres_outbox.go\<close>): the row of an event is written in
  the transaction of the task, and published later, each event in a transaction of its own that holds
  the row while the broker answers. \<open>answer\<close> is the broker: \<^verbatim>\<open>None\<close> acknowledges.
\<close>

section \<open>Publishing\<close>

definition outboxMaxPublishAttempts :: int where
  "outboxMaxPublishAttempts = 10"

definition due_event :: "pg \<Rightarrow> string \<Rightarrow> outbox_row \<Rightarrow> bool" where
  "due_event e i r \<longleftrightarrow> ob_PublishedAt r = None \<and> ob_DeadLetteredAt r = None \<and> ob_NextAttemptAt r \<le> pg_now e \<and> \<not> pg_locked e i"

fun first_event :: "(string \<times> outbox_row) list \<Rightarrow> (string \<times> outbox_row) option" where
  "first_event [] = None"
| "first_event ((i, r) # rest) =
     (case first_event rest of
        None \<Rightarrow> Some (i, r)
      | Some (j, q) \<Rightarrow> if ob_CreatedAt r \<le> ob_CreatedAt q then Some (i, r) else Some (j, q))"

definition refused_event :: "pg \<Rightarrow> string \<Rightarrow> outbox_row \<Rightarrow> outbox_row" where
  "refused_event e message r =
     r\<lparr>ob_PublishAttempts := ob_PublishAttempts r + 1, ob_LastError := Some (take 1024 (TrimSpace message)),
       ob_NextAttemptAt := pg_now e + min 300 (2 ^ nat (min 8 (ob_PublishAttempts r + 1))) * second,
       ob_DeadLetteredAt := (if outboxMaxPublishAttempts \<le> ob_PublishAttempts r + 1 then Some (pg_now e) else None)\<rparr>"

definition published_event :: "pg \<Rightarrow> outbox_row \<Rightarrow> outbox_row" where
  "published_event e r =
     r\<lparr>ob_PublishedAt := Some (pg_now e), ob_PublishAttempts := ob_PublishAttempts r + 1, ob_LastError := None,
       ob_NextAttemptAt := pg_now e\<rparr>"

text \<open>
  One round: nothing due, a failure before the broker was asked, the broker refused (with or without
  its refusal on record), the broker acknowledged (with or without the mark).
\<close>

datatype publish_round = Drained | RoundFailed | Refused string | Unrecorded | Unmarked string | Published string

definition publish_round :: "pg \<Rightarrow> (string \<Rightarrow> outbox_row \<Rightarrow> string option) \<Rightarrow> tables \<Rightarrow> publish_round \<times> tables" where
  "publish_round e answer d =
     (if pg_fails e BeginTx \<or> pg_fails e SelectEvent then (RoundFailed, d)
      else
        (case first_event (filter (\<lambda>(i, r). due_event e i r) (outbox_events d)) of
           None \<Rightarrow> (Drained, d)
         | Some (i, r) \<Rightarrow>
             (case answer i r of
                Some message \<Rightarrow>
                  if pg_fails e UpdateEvent \<or> pg_fails e Commit then (Unrecorded, d)
                  else (Refused message, d\<lparr>outbox_events := mput i (refused_event e message r) (outbox_events d)\<rparr>)
              | None \<Rightarrow>
                  if pg_fails e UpdateEvent \<or> pg_fails e Commit then (Unmarked i, d)
                  else (Published i, d\<lparr>outbox_events := mput i (published_event e r) (outbox_events d)\<rparr>))))"

text \<open>What the call reports besides the number of events: no error, an internal one, or that of the broker.\<close>

datatype publish_end = PublishDone | PublishBroken | PublishRefused string

fun publish_loop ::
  "(nat \<Rightarrow> pg) \<Rightarrow> (nat \<Rightarrow> string \<Rightarrow> outbox_row \<Rightarrow> string option) \<Rightarrow> nat \<Rightarrow> nat \<Rightarrow> tables \<Rightarrow> nat \<times> publish_end \<times> tables" where
  "publish_loop env answer 0 published d = (published, PublishDone, d)"
| "publish_loop env answer (Suc n) published d =
     (case publish_round (env published) (answer published) d of
        (Drained, d') \<Rightarrow> (published, PublishDone, d')
      | (Refused message, d') \<Rightarrow> (published, PublishRefused message, d')
      | (Published _, d') \<Rightarrow> publish_loop env answer n (Suc published) d'
      | (_, d') \<Rightarrow> (published, PublishBroken, d'))"

definition PublishOutboxEventsTo ::
  "(nat \<Rightarrow> pg) \<Rightarrow> (nat \<Rightarrow> string \<Rightarrow> outbox_row \<Rightarrow> string option) \<Rightarrow> int \<Rightarrow> tables \<Rightarrow> nat \<times> publish_end \<times> tables" where
  "PublishOutboxEventsTo env answer limit d =
     publish_loop env answer (if limit \<le> 0 then 50 else nat limit) 0 d"

definition ReplayDeadLetter :: "pg \<Rightarrow> string \<Rightarrow> tables \<Rightarrow> problem option \<times> tables" where
  "ReplayDeadLetter e eventID d =
     (if pg_fails e UpdateEvent then (Some internal_error, d)
      else
        (case mget (outbox_events d) eventID of
           None \<Rightarrow> (Some (NewProblem ''NOT_FOUND'' False), d)
         | Some r \<Rightarrow>
             if ob_PublishedAt r \<noteq> None \<or> ob_DeadLetteredAt r = None then (Some (NewProblem ''NOT_FOUND'' False), d)
             else
               (None, d\<lparr>outbox_events := mput eventID
                 (r\<lparr>ob_DeadLetteredAt := None, ob_PublishAttempts := 0, ob_LastError := None,
                    ob_NextAttemptAt := pg_now e\<rparr>) (outbox_events d)\<rparr>)))"

lemma first_event_in: "first_event xs = Some x \<Longrightarrow> x \<in> set xs"
  by (induction xs rule: first_event.induct) (auto split: option.splits if_splits)

lemma first_event_None: "first_event xs = None \<longleftrightarrow> xs = []"
  by (induction xs rule: first_event.induct) (auto split: option.splits)

lemma publish_round_cases:
  assumes "publish_round e answer d = (round, d')"
  obtains "d' = d" "\<And>i. round \<noteq> Published i" "\<And>i. round = Unmarked i \<Longrightarrow> mhas (outbox_events d) i"
  | i r message where "(i, r) \<in> set (outbox_events d)" "due_event e i r" "round = Refused message"
      "d' = d\<lparr>outbox_events := mput i (refused_event e message r) (outbox_events d)\<rparr>"
  | i r where "(i, r) \<in> set (outbox_events d)" "due_event e i r" "round = Published i"
      "d' = d\<lparr>outbox_events := mput i (published_event e r) (outbox_events d)\<rparr>"
proof (cases "first_event (filter (\<lambda>(i, r). due_event e i r) (outbox_events d))")
  case None
  then show thesis using assms that(1) by (auto simp: publish_round_def split: if_splits)
next
  case (Some x)
  obtain i r where x: "x = (i, r)" by (cases x)
  have it: "(i, r) \<in> set (outbox_events d)" "due_event e i r" using first_event_in [OF Some] x by auto
  then have has: "mhas (outbox_events d) i" by (force simp: mhas_def map_of_eq_None_iff mget_def)
  show thesis
  proof (cases "pg_fails e BeginTx \<or> pg_fails e SelectEvent")
    case True
    then show thesis using assms that(1) by (auto simp: publish_round_def)
  next
    case False
    show thesis
    proof (cases "answer i r")
      case None
      then show thesis
        using assms Some x it has False that(1) that(3) [of i r] by (auto simp: publish_round_def split: if_splits)
    next
      case (Some message)
      then show thesis
        using assms \<open>first_event _ = _\<close> x it False that(1) that(2) [of i r message] by (auto simp: publish_round_def split: if_splits)
    qed
  qed
qed

section \<open>Events come beside the old ones\<close>

definition new_event :: "outbox_row \<Rightarrow> bool" where
  "new_event r \<longleftrightarrow> ob_PublishAttempts r = 0 \<and> ob_PublishedAt r = None \<and> ob_DeadLetteredAt r = None"

definition grown :: "tables \<Rightarrow> tables \<Rightarrow> bool" where
  "grown d d' \<longleftrightarrow> (mwf (outbox_events d) \<longrightarrow> mwf (outbox_events d'))
     \<and> (\<forall>i r. mget (outbox_events d) i = Some r \<longrightarrow> mget (outbox_events d') i = Some r)
     \<and> (\<forall>i r. mget (outbox_events d') i = Some r \<longrightarrow> mget (outbox_events d) i = Some r \<or> \<not> mhas (outbox_events d) i \<and> new_event r)"

lemma grown_same: "outbox_events d' = outbox_events d \<Longrightarrow> grown d d'"
  by (simp add: grown_def)

lemma grown_order [simp]: "reflp grown" "transp grown"
proof -
  show "reflp grown" by (simp add: grown_same reflp_def)
  show "transp grown"
  proof (rule transpI)
    fix x y z assume xy: "grown x y" and yz: "grown y z"
    have "mget (outbox_events x) i = Some r \<or> \<not> mhas (outbox_events x) i \<and> new_event r" if "mget (outbox_events z) i = Some r" for i r
    proof (cases "mget (outbox_events y) i = Some r")
      case True
      then show ?thesis using xy unfolding grown_def by blast
    next
      case False
      then have "\<not> mhas (outbox_events y) i" "new_event r" using yz that unfolding grown_def by blast+
      moreover have "mhas (outbox_events x) i \<Longrightarrow> mhas (outbox_events y) i" using xy unfolding grown_def mhas_def by auto
      ultimately show ?thesis by blast
    qed
    moreover have "mget (outbox_events z) i = Some r" if "mget (outbox_events x) i = Some r" for i r
      using that xy yz unfolding grown_def by blast
    ultimately show "grown x z" using xy yz unfolding grown_def by blast
  qed
qed

lemmas grown_then = tx_rel_andThen [where R = grown, OF grown_order(2)]

lemma tx_rel_outbox: "(\<And>d x d'. m d = Inr (x, d') \<Longrightarrow> outbox_events d' = outbox_events d) \<Longrightarrow> tx_rel grown m"
  by (simp add: tx_rel_def grown_same)

lemma grown_event [tx_rels]: "tx_rel grown (recordTaskOutboxEvent C e ty p)"
  unfolding recordTaskOutboxEvent_def
  by (rule tx_rel_stmt, rule tx_relI) (auto simp: grown_def new_event_def mhas_def split: if_splits)

lemma grown_audit [tx_rels]: "tx_rel grown (insert_audit e row)"
  unfolding insert_audit_def by (rule tx_rel_stmt, rule tx_rel_change) (simp add: grown_same)

lemma grown_tasks [tx_rels]: "tx_rel grown (update_tasks p f)"
  by (rule tx_rel_outbox) (auto simp: update_tasks_def)

lemma grown_insert_task [tx_rels]: "tx_rel grown (insert_task e r)"
  unfolding insert_task_def by (rule tx_rel_stmt, rule tx_rel_outbox) (auto split: if_splits)

lemma grown_backup [tx_rels]: "tx_rel grown (update_backup b p f)"
  unfolding update_backup_def by (rule tx_rel_outbox) (auto split: if_splits option.splits)

lemma grown_server [tx_rels]: "tx_rel grown (update_server s p f)"
  unfolding update_server_def by (rule tx_rel_outbox) (auto split: if_splits option.splits)

lemma grown_tombstone [tx_rels]: "tx_rel grown (insert_tombstone e b)"
  unfolding insert_tombstone_def by (rule tx_rel_change) (auto intro!: grown_same split: option.splits)

lemma grown_set_history [tx_rels]: "tx_rel grown (set_history e h s)"
  unfolding set_history_def by (rule tx_rel_stmt, rule tx_rel_change) (simp add: grown_same)

lemma grown_status [tx_rels]: "tx_rel grown (compensated_status e ty b s)"
  unfolding compensated_status_def
  by (auto intro!: tx_rels) (auto intro!: tx_rel_outbox split: option.splits if_splits)

lemma grown_compensate [tx_rels]: "tx_rel grown (compensateBackupTaskTx C e ty ck s code)"
  unfolding compensateBackupTaskTx_def by (auto intro!: grown_then tx_rels split: option.splits)

lemma grown_settle_server [tx_rels]: "tx_rel grown (settle_server e ok t)"
  unfolding settle_server_def by (auto intro!: grown_then tx_rels)

lemma grown_settle_backup [tx_rels]: "tx_rel grown (settle_backup C e ok code t p json)"
  unfolding settle_backup_def settle_created_def settle_restored_def settle_deleted_def Let_def
  by (auto intro!: grown_then tx_rels)

lemma grown_settle_history [tx_rels]: "tx_rel grown (settle_history e ok t)"
  unfolding settle_history_def by (auto intro!: grown_then tx_rels split: option.splits)

lemma grown_expire_each [tx_rels]: "tx_rel grown (expire_each C e ts)"
  by (induction ts) (auto intro!: grown_then tx_rels)

lemma grown_startup [tx_rels]: "tx_rel grown (startupValuesTx C e s)"
  unfolding startupValuesTx_def by (rule tx_rel_stmt, rule tx_rel_outbox) (auto split: option.splits)

lemma grown_insert_secret [tx_rels]: "tx_rel grown (insert_secret e k row)"
  unfolding insert_secret_def by (rule tx_rel_stmt, rule tx_rel_outbox) (auto split: if_splits)

lemma grown_seal_keys [tx_rels]: "tx_rel grown (seal_keys C e t vals i keys vars)"
proof (induction keys arbitrary: i vars)
  case (Cons key keys)
  show ?case by (auto intro!: grown_then tx_rels Cons.IH split: sum.splits option.splits)
qed (auto intro!: tx_rels)

lemma grown_materialize [tx_rels]: "tx_rel grown (materializeSecretHandlesTx C e t)"
  unfolding materializeSecretHandlesTx_def by (auto intro!: grown_then tx_rels split: option.splits)

lemma grown_fence [tx_rels]: "tx_rel grown (fenceTaskRow e fence)"
  unfolding fenceTaskRow_def by (auto intro!: tx_rels)

lemma grown_transaction: "tx_rel grown m \<Longrightarrow> grown d (snd (transaction e m d))"
  using transaction_cases [OF prod.collapse [symmetric], of e m d]
  by (metis grown_same tx_relD)

lemma grown_fenced [tx_rels]: "(\<And>r. tx_rel grown (body r)) \<Longrightarrow> tx_rel grown (fenced e fence body)"
  unfolding fenced_def by (auto intro!: grown_then tx_rels split: option.splits)

section \<open>Every operation on tasks keeps the events\<close>

lemma grown_ClaimTask: "grown d (snd (ClaimTask C e node epoch d))"
  unfolding ClaimTask_def claim_row_def
  by (rule grown_transaction) (auto intro!: grown_then tx_rels split: option.splits list.splits)

lemma grown_CompleteTask: "grown d (snd (CompleteTask C e fence ok code json d))"
  unfolding CompleteTask_def complete_row_def task_settled_def Let_def
  by (rule grown_transaction) (auto intro!: grown_then tx_rels)

lemma fenced_update_rows:
  assumes "fenced_update e fence p f d = (res, d')"
  shows "outbox_events d' = outbox_events d"
  using assms unfolding fenced_update_def
proof (elim transaction_cases fenced_cases)
  fix x r
  assume "andThen (stmt e UpdateTask (update_tasks (\<lambda>q. st_ID q = fence_OperationID fence \<and> p q) f))
    (\<lambda>rows. if length rows \<noteq> 1 then change (\<lambda>_. d) else commit e ()) d = Inr (x, d')"
  then show ?thesis by (auto elim!: andThen_Inr simp: tx_Inr update_tasks_Inr change_def split: if_splits)
qed simp_all

lemmas fenced_update_outbox = fenced_update_rows [OF prod.collapse [symmetric]]

lemma grown_receive: "grown d (receive C e node frame d)"
  using grown_CompleteTask
  by (auto simp: receive_def handleTaskAck_def handleTaskProgress_def handleRunningTaskHeartbeat_def handleTaskResult_def
      AckTask_def ReportTaskProgress_def RenewTaskLease_def fenced_update_outbox intro!: grown_same split: frame.splits)

lemma grown_fail_expired: "grown d (snd (fail_expired C e now d))"
  unfolding fail_expired_def by (rule grown_transaction) (auto intro!: grown_then tx_rels)

lemma grown_EnqueueTask: "grown d (snd (EnqueueTask C e s n t g a k dg d))"
proof (cases "insert_task e (new_task (pg_id e) s n t g a k dg None (pg_clock e)) d")
  case (Inr xd)
  obtain x d1 where xd: "xd = (x, d1)" by (cases xd)
  have first: "grown d d1" using Inr xd tx_relD [OF grown_insert_task] by blast
  show ?thesis
  proof (cases x)
    case (Some i)
    show ?thesis
    proof (cases "recordTaskOutboxEvent C e ''task.created'' (task_created i s n t g) d1")
      case (Inr yd)
      obtain y d2 where yd: "yd = (y, d2)" by (cases yd)
      have "grown d1 d2" using Inr yd tx_relD [OF grown_event] by blast
      then have "grown d d2" using first grown_order(2) by (blast dest: transpD)
      then show ?thesis using \<open>insert_task _ _ _ = Inr xd\<close> xd Some Inr yd by (simp add: EnqueueTask_def Let_def)
    qed (use first Inr xd Some in \<open>simp add: EnqueueTask_def Let_def\<close>)
  qed (use first Inr xd in \<open>auto simp: EnqueueTask_def Let_def split: list.splits\<close>)
qed (simp add: EnqueueTask_def Let_def grown_same)

lemma grown_enqueueTaskTx: "tx_rel grown (enqueueTaskTx C e i s n t g a k dg inp)"
  unfolding enqueueTaskTx_def by (auto intro!: grown_then tx_rels split: option.splits)

lemma ResolveSecretHandle_outbox: "outbox_events (snd (ResolveSecretHandle C e op srv n h d)) = outbox_events d"
  by (simp add: ResolveSecretHandle_def Let_def split: sum.splits option.splits)

end
