(* ===== verification/Outbox_World.thy ===== *)
theory Outbox_World
  imports Outbox Lease_Demo
begin

text \<open>
  Tasks and the publication of their events together: the transactions on tasks with the agents'
  messages, any number of publishers, and the broker. \<open>ow_refused\<close> are the operations for which an agent
  sent an acknowledgement that refuses them, \<open>ow_broker\<close> the events the broker has acknowledged.
\<close>

record outbox_world =
  ow_leases :: lease_world
  ow_refused :: "string list"
  ow_broker :: "string list"

abbreviation ow_tables :: "outbox_world \<Rightarrow> tables" where
  "ow_tables w \<equiv> lw_tables (ow_leases w)"

abbreviation ow_events :: "outbox_world \<Rightarrow> (string, outbox_row) gomap" where
  "ow_events w \<equiv> outbox_events (ow_tables w)"

definition with_tables :: "tables \<Rightarrow> outbox_world \<Rightarrow> outbox_world" where
  "with_tables d w = w\<lparr>ow_leases := (ow_leases w)\<lparr>lw_tables := d\<rparr>\<rparr>"

definition refused_by :: "frame \<Rightarrow> string list" where
  "refused_by frame = (case frame of TaskAck f False _ \<Rightarrow> [fr_OperationID f] | _ \<Rightarrow> [])"

definition acknowledged_by :: "publish_round \<Rightarrow> string list" where
  "acknowledged_by round = (case round of Published i \<Rightarrow> [i] | Unmarked i \<Rightarrow> [i] | _ \<Rightarrow> [])"

definition apart :: "tables \<Rightarrow> tables \<Rightarrow> bool" where
  "apart d d' \<longleftrightarrow> same_tasks d d' \<and> outbox_events d' = outbox_events d"

inductive outbox_step :: "task_codec \<Rightarrow> outbox_world \<Rightarrow> outbox_world \<Rightarrow> bool" for C where
  enqueue: "outbox_step C w (with_tables
    (snd (EnqueueTask C e serverID nodeID taskType generation actorID idemKey digest (ow_tables w))) w)"
| enqueue_with: "apart (ow_tables w) d0 \<Longrightarrow>
    enqueueTaskTx C e taskID serverID nodeID taskType generation actorID idemKey digest taskInput d0 = Inr (x, d1) \<Longrightarrow>
    apart d1 d' \<Longrightarrow> outbox_step C w (with_tables d' w)"
| claim: "ClaimTask C e nodeID epoch (ow_tables w) = (Inr (Some t), d') \<Longrightarrow>
    pg_uuid e \<noteq> [] \<Longrightarrow> pg_uuid e \<notin> fst ` set (lw_claims (ow_leases w)) \<Longrightarrow>
    outbox_step C w (w\<lparr>ow_leases := \<lparr>lw_tables = d',
      lw_claims = (ct_LeaseToken t, ct_OperationID t, ct_Attempt t) # lw_claims (ow_leases w)\<rparr>\<rparr>)"
| message: "outbox_step C w ((with_tables (receive C e nodeID frame (ow_tables w)) w)
    \<lparr>ow_refused := refused_by frame @ ow_refused w\<rparr>)"
| requeue: "outbox_step C w (with_tables (requeue_expired e now (ow_tables w)) w)"
| expire: "outbox_step C w (with_tables (snd (fail_expired C e now (ow_tables w))) w)"
| resolve: "outbox_step C w (with_tables (snd (ResolveSecretHandle C e operationID serverID nodeID handle (ow_tables w))) w)"
| publish: "publish_round e answer (ow_tables w) = (round, d') \<Longrightarrow>
    outbox_step C w (with_tables d' (w\<lparr>ow_broker := acknowledged_by round @ ow_broker w\<rparr>))"
| replay: "outbox_step C w (with_tables (snd (ReplayDeadLetter e eventID (ow_tables w))) w)"
| elsewhere: "apart (ow_tables w) d' \<Longrightarrow> outbox_step C w (with_tables d' w)"

definition clean_world :: "outbox_world \<Rightarrow> bool" where
  "clean_world w \<longleftrightarrow> fresh_world (ow_leases w) \<and> ow_events w = [] \<and> ow_broker w = []"

section \<open>Ends of tasks and their events\<close>

definition ended :: "task_row \<Rightarrow> bool" where
  "ended r \<longleftrightarrow> st_Status r = ''succeeded'' \<or> st_Status r = ''failed''"

definition announces :: "task_codec \<Rightarrow> string \<Rightarrow> string \<Rightarrow> outbox_row \<Rightarrow> bool" where
  "announces C i status r \<longleftrightarrow> ob_EventType r = ''task.completed''
     \<and> (\<exists>ev. ob_Payload r = event_json C ev \<and> ev_OperationID ev = i \<and> ev_Status ev = status)"

definition announced :: "task_codec \<Rightarrow> tables \<Rightarrow> string \<Rightarrow> string \<Rightarrow> bool" where
  "announced C d i status \<longleftrightarrow> (\<exists>k r. mget (outbox_events d) k = Some r \<and> announces C i status r)"

text \<open>Publishing and replaying change what a row says of its publication, not what it announces.\<close>

definition same_event :: "outbox_row \<Rightarrow> outbox_row \<Rightarrow> bool" where
  "same_event r r' \<longleftrightarrow> ob_EventType r' = ob_EventType r \<and> ob_Payload r' = ob_Payload r \<and> ob_AggregateID r' = ob_AggregateID r"

definition events_kept :: "tables \<Rightarrow> tables \<Rightarrow> bool" where
  "events_kept d d' \<longleftrightarrow> (\<forall>k r. mget (outbox_events d) k = Some r \<longrightarrow> (\<exists>r'. mget (outbox_events d') k = Some r' \<and> same_event r r'))"

lemma announced_kept: "announced C d i status \<Longrightarrow> events_kept d d' \<Longrightarrow> announced C d' i status"
  unfolding announced_def events_kept_def same_event_def announces_def by metis

lemma grown_kept: "grown d d' \<Longrightarrow> events_kept d d'"
  by (simp add: grown_def events_kept_def same_event_def)

lemma announced_grown: "announced C d i status \<Longrightarrow> grown d d' \<Longrightarrow> announced C d' i status"
  by (rule announced_kept [OF _ grown_kept])

lemma recorded_announces:
  assumes "recordTaskOutboxEvent C e ''task.completed'' ev d = Inr (x, d')"
  shows "announced C d' (ev_OperationID ev) (ev_Status ev)"
proof -
  have "mget (outbox_events d') (pg_event_id e (ev_OperationID ev)) =
      Some \<lparr>ob_AggregateType = ''server_task'', ob_AggregateID = ev_ServerID ev,
        ob_EventType = ''task.completed'', ob_EventVersion = 1, ob_Payload = event_json C ev,
        ob_BusinessAt = pg_now e, ob_CreatedAt = pg_now e, ob_PublishAttempts = 0,
        ob_LastError = None, ob_NextAttemptAt = pg_now e, ob_PublishedAt = None, ob_DeadLetteredAt = None\<rparr>"
    using assms by (auto simp: recordTaskOutboxEvent_def stmt_Inr split: if_splits)
  then show ?thesis unfolding announced_def announces_def by force
qed

text \<open>Which tasks a transaction ends: none, or only such as it announces.\<close>

definition ending_none :: "tables \<Rightarrow> tables \<Rightarrow> bool" where
  "ending_none d d' \<longleftrightarrow> (\<forall>i r. mget (server_tasks d') i = Some r \<longrightarrow> ended r \<longrightarrow> mget (server_tasks d) i = Some r)"

definition announcing :: "task_codec \<Rightarrow> tables \<Rightarrow> tables \<Rightarrow> bool" where
  "announcing C d d' \<longleftrightarrow> (\<forall>i r. mget (server_tasks d') i = Some r \<longrightarrow> ended r \<longrightarrow>
     mget (server_tasks d) i = Some r \<or> announced C d' i (st_Status r))"

lemma ending_none_same: "server_tasks d' = server_tasks d \<Longrightarrow> ending_none d d'"
  by (simp add: ending_none_def)

lemma ending_none_announcing: "ending_none d d' \<Longrightarrow> announcing C d d'"
  by (simp add: ending_none_def announcing_def)

lemma ending_none_added: "tasks_added d d' \<Longrightarrow> ending_none d d'"
  by (auto simp: tasks_added_def ending_none_def row_added_def ended_def split: if_splits)

lemma ending_none_put: "server_tasks d' = mput i r (server_tasks d) \<Longrightarrow> \<not> ended r \<Longrightarrow> ending_none d d'"
  by (auto simp: ending_none_def split: if_splits)

lemma ending_none_claim:
  assumes "ids_ok (server_tasks d)" "ClaimTask C e node epoch d = (res, d')"
  shows "ending_none d d'"
  using assms
proof (rule ClaimTask_cases)
  fix r t
  assume "server_tasks d' = mput (st_ID r) (lease_task e node epoch r) (server_tasks d)"
  then show ?thesis by (rule ending_none_put) (simp add: ended_def lease_task_def)
qed (simp add: ending_none_same)

lemma ending_none_requeue: "ending_none d (requeue_expired e now d)"
  by (auto simp: ending_none_def requeue_expired_def mget_updated requeue_task_def ended_def split: if_splits)

lemma ending_none_fenced:
  assumes ids: "ids_ok (server_tasks d)" and move: "\<And>r. p r \<Longrightarrow> \<not> ended (f r)"
  shows "ending_none d (snd (fenced_update e fence p f d))"
  by (rule fenced_update_cases [OF ids prod.collapse [symmetric], of e fence p f])
    (use move in \<open>auto simp: ending_none_same intro: ending_none_put\<close>)

lemma fenced_elsewhere:
  assumes "ids_ok (server_tasks d)" "i \<noteq> fence_OperationID fence"
  shows "mget (server_tasks (snd (fenced_update e fence p f d))) i = mget (server_tasks d) i"
  by (rule fenced_update_cases [OF assms(1) prod.collapse [symmetric], of e fence p f]) (use assms(2) in auto)

lemma settled_announces:
  assumes "task_settled C e fence ok code json t d = Inr (x, d')"
  shows "announced C d' (fence_OperationID fence) (if ok then ''succeeded'' else ''failed'')"
proof -
  let ?ev = "\<lparr>ev_OperationID = fence_OperationID fence, ev_ServerID = st_ServerID t,
        ev_NodeID = fence_NodeID fence, ev_TaskType = st_TaskType t,
        ev_Generation = st_Generation t, ev_Attempt = 0, ev_MaxAttempts = 0,
        ev_Status = (if ok then ''succeeded'' else ''failed''), ev_ErrorCode = coalesce code\<rparr>"
  let ?rest = "\<lambda>_. andThen (settle_server e ok t) (\<lambda>_.
     andThen (settle_backup C e ok code t (task_payload t) json) (\<lambda>_.
     andThen (settle_history e ok t) (\<lambda>_.
     andThen (insert_audit e
       \<lparr>au_ActorID = None, au_ActorType = ''agent'', au_Action = ''task.complete'',
        au_TargetType = ''server'', au_TargetID = st_ServerID t,
        au_Result = (if ok then ''success'' else ''failure''),
        au_OperationID = fence_OperationID fence\<rparr>) (\<lambda>_.
     commit e ()))))"
  obtain y d1 where first: "recordTaskOutboxEvent C e ''task.completed'' ?ev d = Inr (y, d1)" and rest: "?rest () d1 = Inr (x, d')"
    using assms unfolding task_settled_def by (auto elim: andThen_Inr)
  have "tx_rel grown (?rest ())" by (auto intro!: grown_then tx_rels)
  then have "grown d1 d'" using rest by (rule tx_relD)
  then show ?thesis using announced_grown [OF recorded_announces [OF first]] by simp
qed

lemma complete_announcing:
  assumes ids: "ids_ok (server_tasks d)" and run: "CompleteTask C e fence ok code json d = (res, d')"
  shows "announcing C d d'"
  using run unfolding CompleteTask_def
proof (elim transaction_cases fenced_cases)
  fix x r
  assume r: "mget (server_tasks d) (fence_OperationID fence) = Some r"
    and "complete_row C e fence ok code json r d = Inr (x, d')"
  from ids r this(2) show ?thesis
  proof (rule complete_row_cases)
    fix effective code'
    let ?row = "end_task (if effective then ''succeeded'' else ''failed'') code' (st_ErrorRetryable r) (pg_clock e) r"
    assume settled: "task_settled C e fence effective code' json r
         (d\<lparr>server_tasks := mput (fence_OperationID fence) ?row (server_tasks d)\<rparr>) = Inr (x, d')"
    have "server_tasks d' = mput (fence_OperationID fence) ?row (server_tasks d)"
      using tx_relD [OF same_tasks_settled settled] by (simp add: same_tasks_def)
    moreover have "st_Status ?row = (if effective then ''succeeded'' else ''failed'')" by (simp add: end_task_def)
    ultimately show ?thesis
      using settled_announces [OF settled] by (auto simp: announcing_def split: if_splits)
  qed (simp add: announcing_def)
qed (simp_all add: announcing_def)

lemma expire_each_announces:
  assumes "expire_each C e ts d = Inr (x, d')" "t \<in> set ts"
  shows "announced C d' (st_ID t) ''failed''"
  using assms
proof (induction ts arbitrary: d)
  case (Cons u ts)
  let ?ev = "\<lparr>ev_OperationID = st_ID u, ev_ServerID = st_ServerID u, ev_NodeID = [], ev_TaskType = st_TaskType u,
        ev_Generation = 0, ev_Attempt = 0, ev_MaxAttempts = 0, ev_Status = ''failed'', ev_ErrorCode = ''MAX_ATTEMPTS''\<rparr>"
  obtain d1 d2 d3 y1 y2 y3 where run: "recordTaskOutboxEvent C e ''task.completed'' ?ev d1 = Inr (y2, d2)"
      "insert_audit e \<lparr>au_ActorID = None, au_ActorType = ''system'', au_Action = ''task.expired'', au_TargetType = ''server'',
        au_TargetID = st_ServerID u, au_Result = ''failure'', au_OperationID = st_ID u\<rparr> d2 = Inr (y3, d3)"
      "expire_each C e ts d3 = Inr (x, d')"
    using Cons.prems(1) by (auto elim!: andThen_Inr)
  show ?case
  proof (cases "t \<in> set ts")
    case True
    then show ?thesis using Cons.IH [OF run(3)] by simp
  next
    case False
    have "announced C d2 (st_ID t) ''failed''" using recorded_announces [OF run(1)] False Cons.prems(2) by simp
    then show ?thesis using announced_grown tx_relD [OF grown_audit run(2)] tx_relD [OF grown_expire_each run(3)] by blast
  qed
qed simp

lemma expire_announcing:
  assumes ids: "ids_ok (server_tasks d)" and run: "fail_expired C e now d = (res, d')"
  shows "announcing C d d'"
  using run unfolding fail_expired_def
proof (elim transaction_cases andThen_Inr)
  let ?p = "\<lambda>r. lease_expired now r \<and> st_MaxAttempts r \<le> st_Attempt r"
  fix x x1 d1 x2 d2
  assume upd: "stmt e FailExpired (update_tasks ?p (expire_task e)) d = Inr (x1, d1)"
    and each: "expire_each C e x1 d1 = Inr (x2, d2)" and "commit e () d2 = Inr (x, d')"
  then have d': "d' = d2" by (simp add: tx_Inr)
  have rows: "x1 = map (expire_task e) (matching ?p (server_tasks d))" "server_tasks d1 = updated ?p (expire_task e) (server_tasks d)"
    using upd by (auto simp: tx_Inr update_tasks_Inr)
  have same: "server_tasks d' = updated ?p (expire_task e) (server_tasks d)"
    using tx_relD [OF same_tasks_expire_each each] rows(2) d' by (simp add: same_tasks_def)
  have "announced C d' i (st_Status r)" if new: "mget (server_tasks d') i = Some r" "mget (server_tasks d) i \<noteq> Some r" for i r
  proof -
    obtain q where q0: "mget (server_tasks d) i = Some q" "r = (if ?p q then expire_task e q else q)"
      using new(1) same by (auto simp: mget_updated)
    then have q: "mget (server_tasks d) i = Some q" "?p q" "r = expire_task e q"
      using new(2) by (auto split: if_splits)
    have "q \<in> set (matching ?p (server_tasks d))" using q(1,2) mget_in_set by (force simp: matching_iff)
    then have "announced C d2 (st_ID (expire_task e q)) ''failed''" using expire_each_announces [OF each] rows(1) by auto
    then show ?thesis using q ids_okD [OF ids q(1)] d' by (simp add: expire_task_def end_task_def)
  qed
  then show ?thesis unfolding announcing_def by blast
qed (simp add: announcing_def)

text \<open>A message ends a task without an event only when it refuses it.\<close>

lemma message_announcing:
  assumes ids: "ids_ok (server_tasks d)"
    and row: "mget (server_tasks (receive C e node frame d)) i = Some r" "ended r" "mget (server_tasks d) i \<noteq> Some r"
  shows "announced C (receive C e node frame d) i (st_Status r) \<or> i \<in> set (refused_by frame)"
proof (cases frame)
  case (TaskAck f accepted code)
  show ?thesis
  proof (cases "fr_OperationID f = []")
    case True
    then show ?thesis using row TaskAck by (simp add: receive_def handleTaskAck_def)
  next
    case False
    show ?thesis
    proof (cases accepted)
      case True
      have "ending_none d (snd (fenced_update e (frame_lease node f) (\<lambda>q. st_Status q = ''leased'') (start_running e) d))"
        by (rule ending_none_fenced [OF ids]) (simp add: ended_def start_running_def)
      then show ?thesis
        using row TaskAck True False by (simp add: receive_def handleTaskAck_def AckTask_def ending_none_def)
    next
      case refused: False
      have "i = fr_OperationID f"
        using row(1,3) TaskAck False refused fenced_elsewhere [OF ids, of i "frame_lease node f" e lease_held "reject_task e code"]
        by (auto simp: receive_def handleTaskAck_def AckTask_def frame_lease_def)
      then show ?thesis using TaskAck refused by (simp add: refused_by_def)
    qed
  qed
next
  case (TaskProgress f percent ck)
  have "ending_none d (snd (fenced_update e (frame_lease node f) lease_held (advance_task C e (uint percent) ck) d))"
    by (rule ending_none_fenced [OF ids]) (auto simp: lease_held_def ended_def advance_task_def)
  then have "ending_none d (snd (ReportTaskProgress C e (frame_lease node f) (uint percent) ck d))"
    by (simp add: ReportTaskProgress_def ending_none_same)
  then show ?thesis using row TaskProgress by (simp add: receive_def handleTaskProgress_def ending_none_def split: if_splits)
next
  case (RunningTaskHeartbeat f)
  have "ending_none d (snd (RenewTaskLease e (frame_lease node f) d))"
    unfolding RenewTaskLease_def by (rule ending_none_fenced [OF ids]) (auto simp: lease_held_def ended_def renew_lease_def)
  then show ?thesis using row RunningTaskHeartbeat by (simp add: receive_def handleRunningTaskHeartbeat_def ending_none_def split: if_splits)
next
  case (TaskResult f ok code json)
  then show ?thesis
    using row complete_announcing [OF ids prod.collapse [symmetric], of C e "frame_lease node f" ok "if code = [] then None else Some code" json]
    unfolding announcing_def by (auto simp: receive_def handleTaskResult_def split: if_splits)
qed

section \<open>The invariant\<close>

definition event_ok :: "string list \<Rightarrow> string \<Rightarrow> outbox_row \<Rightarrow> bool" where
  "event_ok broker i r \<longleftrightarrow> 0 \<le> ob_PublishAttempts r \<and> ob_PublishAttempts r \<le> 10
     \<and> (ob_PublishedAt r \<noteq> None \<longrightarrow> i \<in> set broker \<and> ob_DeadLetteredAt r = None)
     \<and> (ob_DeadLetteredAt r \<noteq> None \<longrightarrow> ob_PublishAttempts r = 10)
     \<and> (ob_PublishedAt r = None \<longrightarrow> ob_DeadLetteredAt r = None \<longrightarrow> ob_PublishAttempts r < 10)"

definition outbox_ok :: "task_codec \<Rightarrow> outbox_world \<Rightarrow> bool" where
  "outbox_ok C w \<longleftrightarrow> lease_ok (ow_leases w) \<and> mwf (ow_events w)
     \<and> (\<forall>i r. mget (ow_events w) i = Some r \<longrightarrow> event_ok (ow_broker w) i r)
     \<and> (\<forall>i \<in> set (ow_broker w). mhas (ow_events w) i)
     \<and> (\<forall>i r. mget (server_tasks (ow_tables w)) i = Some r \<longrightarrow> ended r \<longrightarrow> i \<in> set (ow_refused w) \<or> announced C (ow_tables w) i (st_Status r))"

lemma outbox_okD:
  assumes "outbox_ok C w"
  shows "lease_ok (ow_leases w)" "ids_ok (server_tasks (ow_tables w))" "mwf (ow_events w)"
    "mget (ow_events w) i = Some r \<Longrightarrow> event_ok (ow_broker w) i r" "i \<in> set (ow_broker w) \<Longrightarrow> mhas (ow_events w) i"
    "mget (server_tasks (ow_tables w)) i = Some t \<Longrightarrow> ended t \<Longrightarrow> i \<in> set (ow_refused w) \<or> announced C (ow_tables w) i (st_Status t)"
  using assms by (auto simp: outbox_ok_def lease_ok_def)

lemma new_event_ok: "new_event r \<Longrightarrow> event_ok broker i r"
  by (simp add: new_event_def event_ok_def)

lemma event_ok_more: "event_ok broker i r \<Longrightarrow> set broker \<subseteq> set broker' \<Longrightarrow> event_ok broker' i r"
  by (auto simp: event_ok_def)

text \<open>A transaction on tasks.\<close>

lemma ok_tasks:
  assumes ok: "outbox_ok C w" and step: "lease_step C (ow_leases w) l" and grows: "grown (ow_tables w) (lw_tables l)"
    and ends: "\<And>i r. mget (server_tasks (lw_tables l)) i = Some r \<Longrightarrow> ended r \<Longrightarrow> mget (server_tasks (ow_tables w)) i \<noteq> Some r \<Longrightarrow>
      i \<in> set refused \<or> announced C (lw_tables l) i (st_Status r)"
  shows "outbox_ok C (w\<lparr>ow_leases := l, ow_refused := refused @ ow_refused w\<rparr>)"
proof -
  have "i \<in> set refused \<or> i \<in> set (ow_refused w) \<or> announced C (lw_tables l) i (st_Status r)"
    if "mget (server_tasks (lw_tables l)) i = Some r" "ended r" for i r
    using ends [OF that] outbox_okD(6) [OF ok _ that(2)] announced_grown [OF _ grows] by blast
  moreover have "event_ok (ow_broker w) i r" if "mget (outbox_events (lw_tables l)) i = Some r" for i r
    using that grows outbox_okD(4) [OF ok] new_event_ok unfolding grown_def by blast
  moreover have "mhas (outbox_events (lw_tables l)) i" if "i \<in> set (ow_broker w)" for i
    using outbox_okD(5) [OF ok that] grows by (auto simp: grown_def mhas_def)
  moreover have "mwf (outbox_events (lw_tables l))" using outbox_okD(3) [OF ok] grows by (simp add: grown_def)
  ultimately show ?thesis
    using lease_ok_step [OF outbox_okD(1) [OF ok] step] by (auto simp: outbox_ok_def)
qed

lemma ok_announcing:
  assumes ok: "outbox_ok C w" and step: "lease_step C (ow_leases w) ((ow_leases w)\<lparr>lw_tables := d\<rparr>)"
    and grows: "grown (ow_tables w) d" and ends: "announcing C (ow_tables w) d"
  shows "outbox_ok C (with_tables d w)"
  using ok_tasks [OF ok step, of "[]"] grows ends by (auto simp: with_tables_def announcing_def)

text \<open>A transaction on one event.\<close>

lemma ok_event:
  assumes ok: "outbox_ok C w" and row: "mget (ow_events w) i = Some r" and same: "same_event r r'"
    and good: "event_ok (acks @ ow_broker w) i r'" and known: "set acks \<subseteq> {i}"
  shows "outbox_ok C (with_tables ((ow_tables w)\<lparr>outbox_events := mput i r' (ow_events w)\<rparr>) (w\<lparr>ow_broker := acks @ ow_broker w\<rparr>))"
proof -
  let ?d = "(ow_tables w)\<lparr>outbox_events := mput i r' (ow_events w)\<rparr>"
  have "lease_step C (ow_leases w) ((ow_leases w)\<lparr>lw_tables := ?d\<rparr>)"
    by (rule lease_step.elsewhere) (simp add: same_tasks_def)
  then have leases: "lease_ok ((ow_leases w)\<lparr>lw_tables := ?d\<rparr>)" by (rule lease_ok_step [OF outbox_okD(1) [OF ok]])
  have "events_kept (ow_tables w) ?d" using row same by (auto simp: events_kept_def same_event_def)
  then have kept: "announced C ?d j status" if "announced C (ow_tables w) j status" for j status
    using announced_kept that by blast
  have "event_ok (acks @ ow_broker w) j q" if "mget (mput i r' (ow_events w)) j = Some q" for j q
    using that good event_ok_more [OF outbox_okD(4) [OF ok], of j q "acks @ ow_broker w"] by (auto split: if_splits)
  moreover have "j \<in> set (ow_refused w) \<or> announced C ?d j (st_Status t)"
    if "mget (server_tasks (ow_tables w)) j = Some t" "ended t" for j t
    using outbox_okD(6) [OF ok that] kept by blast
  moreover have "mwf (mput i r' (ow_events w))" using outbox_okD(3) [OF ok] by simp
  moreover have "mhas (mput i r' (ow_events w)) j" if "j \<in> set (acks @ ow_broker w)" for j
    using that known outbox_okD(5) [OF ok, of j] by auto
  ultimately show ?thesis using leases by (simp add: outbox_ok_def with_tables_def)
qed

lemma ok_publish:
  assumes ok: "outbox_ok C w" and run: "publish_round e answer (ow_tables w) = (round, d')"
  shows "outbox_ok C (with_tables d' (w\<lparr>ow_broker := acknowledged_by round @ ow_broker w\<rparr>))"
  using run
proof (rule publish_round_cases)
  assume none: "d' = ow_tables w" "\<And>i. round \<noteq> Published i" "\<And>i. round = Unmarked i \<Longrightarrow> mhas (ow_events w) i"
  have acks: "mhas (ow_events w) i" if "i \<in> set (acknowledged_by round)" for i
    using that none(2,3) by (auto simp: acknowledged_by_def split: publish_round.splits)
  have "event_ok (acknowledged_by round @ ow_broker w) i r" if "mget (ow_events w) i = Some r" for i r
    by (rule event_ok_more [OF outbox_okD(4) [OF ok that]]) simp
  then show ?thesis
    using outbox_okD(1,3,5,6) [OF ok] none(1) acks by (auto simp: outbox_ok_def with_tables_def)
next
  fix i r message
  assume it: "(i, r) \<in> set (ow_events w)" "due_event e i r" "round = Refused message"
      "d' = (ow_tables w)\<lparr>outbox_events := mput i (refused_event e message r) (ow_events w)\<rparr>"
  have row: "mget (ow_events w) i = Some r" using it(1) mget_Some_iff [OF outbox_okD(3) [OF ok]] by simp
  have good: "event_ok ([] @ ow_broker w) i (refused_event e message r)"
    using it(2) outbox_okD(4) [OF ok row] by (auto simp: event_ok_def refused_event_def due_event_def outboxMaxPublishAttempts_def)
  show ?thesis
    using ok_event [OF ok row _ good] it(3,4) by (simp add: acknowledged_by_def same_event_def refused_event_def)
next
  fix i r
  assume it: "(i, r) \<in> set (ow_events w)" "due_event e i r" "round = Published i"
      "d' = (ow_tables w)\<lparr>outbox_events := mput i (published_event e r) (ow_events w)\<rparr>"
  have row: "mget (ow_events w) i = Some r" using it(1) mget_Some_iff [OF outbox_okD(3) [OF ok]] by simp
  have good: "event_ok ([i] @ ow_broker w) i (published_event e r)"
    using it(2) outbox_okD(4) [OF ok row] by (auto simp: event_ok_def published_event_def due_event_def)
  show ?thesis
    using ok_event [OF ok row _ good] it(3,4) by (simp add: acknowledged_by_def same_event_def published_event_def)
qed

lemma ok_replay:
  assumes ok: "outbox_ok C w"
  shows "outbox_ok C (with_tables (snd (ReplayDeadLetter e i (ow_tables w))) w)"
proof -
  have same: "with_tables (ow_tables w) w = w" by (simp add: with_tables_def)
  show ?thesis
  proof (cases "mget (ow_events w) i")
    case (Some r)
    let ?r = "r\<lparr>ob_DeadLetteredAt := None, ob_PublishAttempts := 0, ob_LastError := None, ob_NextAttemptAt := pg_now e\<rparr>"
    show ?thesis
    proof (cases "pg_fails e UpdateEvent \<or> ob_PublishedAt r \<noteq> None \<or> ob_DeadLetteredAt r = None")
      case False
      then have "event_ok ([] @ ow_broker w) i ?r" by (simp add: event_ok_def)
      from ok_event [OF ok Some _ this]
      have "outbox_ok C (with_tables ((ow_tables w)\<lparr>outbox_events := mput i ?r (ow_events w)\<rparr>) w)" by (simp add: same_event_def)
      moreover have "snd (ReplayDeadLetter e i (ow_tables w)) = (ow_tables w)\<lparr>outbox_events := mput i ?r (ow_events w)\<rparr>"
        using Some False by (auto simp: ReplayDeadLetter_def)
      ultimately show ?thesis by simp
    qed (use Some same ok in \<open>auto simp: ReplayDeadLetter_def\<close>)
  qed (simp add: ReplayDeadLetter_def same ok)
qed

lemma outbox_step_ok:
  assumes ok: "outbox_ok C w" and step: "outbox_step C w w'"
  shows "outbox_ok C w'"
  using step
proof cases
  case (enqueue e s n t g a k dg)
  show ?thesis
    unfolding enqueue
    by (rule ok_announcing [OF ok]) (auto intro: lease_step.enqueue grown_EnqueueTask ending_none_announcing ending_none_added EnqueueTask_added)
next
  case (enqueue_with d0 e i s n t g a k dg inp x d1 d')
  have same: "same_tasks (ow_tables w) d0" "same_tasks d1 d'" using enqueue_with(2,4) by (simp_all add: apart_def)
  have "tasks_added d0 d1" using enqueueTaskTx_added [OF enqueue_with(3)] .
  then have added: "tasks_added (ow_tables w) d'" using same by (auto simp: tasks_added_def same_tasks_def)
  have "grown d0 d1" using tx_relD [OF grown_enqueueTaskTx enqueue_with(3)] .
  then have "grown (ow_tables w) d'" using enqueue_with(2,4) by (simp add: apart_def grown_def)
  then show ?thesis
    unfolding enqueue_with(1)
    by (rule ok_announcing [OF ok lease_step.enqueue_with [OF same(1) enqueue_with(3) same(2)]])
      (rule ending_none_announcing [OF ending_none_added [OF added]])
next
  case (claim e n epoch t d')
  have "grown (ow_tables w) d'" using grown_ClaimTask [of "ow_tables w" C e n epoch] claim(2) by simp
  moreover have "ending_none (ow_tables w) d'" by (rule ending_none_claim [OF outbox_okD(2) [OF ok] claim(2)])
  ultimately show ?thesis
    using ok_tasks [OF ok lease_step.claim [OF claim(2-4)], of "[]"] claim(1) by (auto simp: ending_none_def)
next
  case (message frame e n)
  have "outbox_ok C (w\<lparr>ow_leases := (ow_leases w)\<lparr>lw_tables := receive C e n frame (ow_tables w)\<rparr>, ow_refused := refused_by frame @ ow_refused w\<rparr>)"
  proof (rule ok_tasks [OF ok lease_step.message])
    fix i r
    let ?l = "(ow_leases w)\<lparr>lw_tables := receive C e n frame (ow_tables w)\<rparr>"
    assume "mget (lw_tasks ?l) i = Some r" "ended r" "mget (server_tasks (ow_tables w)) i \<noteq> Some r"
    then show "i \<in> set (refused_by frame) \<or> announced C (lw_tables ?l) i (st_Status r)"
      using message_announcing [OF outbox_okD(2) [OF ok], of C e n frame i r] by auto
  qed (simp add: grown_receive)
  then show ?thesis using message by (simp add: with_tables_def)
next
  case (requeue e now)
  show ?thesis
    unfolding requeue
    by (rule ok_announcing [OF ok lease_step.requeue _ ending_none_announcing [OF ending_none_requeue]])
      (simp add: grown_same requeue_expired_def)
next
  case (expire e now)
  show ?thesis
    unfolding expire
    by (rule ok_announcing [OF ok lease_step.expire grown_fail_expired expire_announcing [OF outbox_okD(2) [OF ok] prod.collapse [symmetric]]])
next
  case (resolve e op s n h)
  show ?thesis
    unfolding resolve
    by (rule ok_announcing [OF ok lease_step.resolve])
      (use ResolveSecretHandle_used [of "ow_tables w" C e op s n h] in
        \<open>auto intro: ending_none_announcing ending_none_same grown_same simp: ResolveSecretHandle_outbox\<close>)
next
  case (publish e answer round d')
  show ?thesis unfolding publish(1) by (rule ok_publish [OF ok publish(2)])
next
  case (replay e i)
  show ?thesis unfolding replay by (rule ok_replay [OF ok])
next
  case (elsewhere d')
  then have "same_tasks (ow_tables w) d'" "grown (ow_tables w) d'" by (simp_all add: apart_def grown_same)
  then show ?thesis
    unfolding elsewhere(1)
    by (intro ok_announcing [OF ok lease_step.elsewhere] ending_none_announcing ending_none_same) (simp_all add: same_tasks_def)
qed

lemma outbox_steps_ok: "(outbox_step C)\<^sup>*\<^sup>* w w' \<Longrightarrow> outbox_ok C w \<Longrightarrow> outbox_ok C w'"
  by (induction rule: rtranclp_induct) (auto intro: outbox_step_ok)

lemma clean_ok: "clean_world w \<Longrightarrow> outbox_ok C w"
  using fresh_ok [of "ow_leases w"] by (simp add: clean_world_def outbox_ok_def fresh_world_def)

end
