(* ===== verification/Outbox_Properties.thy ===== *)
theory Outbox_Properties
  imports Outbox_World
begin

text \<open>
  What holds of tasks and their events in every reachable world, what a drain of the outbox achieves
  with a working broker, and what a refused task leaves behind.
\<close>

section \<open>Ends are announced\<close>

text \<open>C20: A task that has ended, unless its agent refused it, has an event in the outbox that names it and
  says how it ended; once the row says that the event was published, the broker has acknowledged it.\<close>

theorem ended_tasks_announced:
  assumes "clean_world w0" "(outbox_step C)\<^sup>*\<^sup>* w0 w"
    and "mget (server_tasks (ow_tables w)) i = Some t" "ended t" "i \<notin> set (ow_refused w)"
  shows "\<exists>k r ev. mget (ow_events w) k = Some r \<and> ob_EventType r = ''task.completed'' \<and> ob_Payload r = event_json C ev
    \<and> ev_OperationID ev = i \<and> ev_Status ev = st_Status t \<and> (ob_PublishedAt r = None \<or> k \<in> set (ow_broker w))"
proof -
  have ok: "outbox_ok C w" by (rule outbox_steps_ok [OF assms(2) clean_ok [OF assms(1)]])
  from outbox_okD(6) [OF ok assms(3,4)] assms(5) obtain k r ev where r: "mget (ow_events w) k = Some r"
    "ob_EventType r = ''task.completed''" "ob_Payload r = event_json C ev" "ev_OperationID ev = i" "ev_Status ev = st_Status t"
    by (auto simp: announced_def announces_def)
  have "ob_PublishedAt r = None \<or> k \<in> set (ow_broker w)" using outbox_okD(4) [OF ok r(1)] by (auto simp: event_ok_def)
  then show ?thesis using r by blast
qed

lemma event_moves:
  assumes ok: "outbox_ok C w" and step: "outbox_step C w w'" and row: "mget (ow_events w) i = Some r"
  shows "\<exists>r'. mget (ow_events w') i = Some r' \<and> same_event r r' \<and> (ob_PublishedAt r \<noteq> None \<longrightarrow> r' = r)"
proof -
  have still: ?thesis if "mget (ow_events w') i = Some r" using that by (simp add: same_event_def)
  have tasks: ?thesis if "grown (ow_tables w) (ow_tables w')" using that row still unfolding grown_def by blast
  show ?thesis
    using step
  proof cases
    case (enqueue_with d0 e j s n t g a k dg inp x d1 d')
    have "grown d0 d1" using tx_relD [OF grown_enqueueTaskTx enqueue_with(3)] .
    then show ?thesis using enqueue_with(1,2,4) tasks by (simp add: apart_def grown_def with_tables_def)
  next
    case (claim e n epoch t d')
    then show ?thesis using tasks grown_ClaimTask [of "ow_tables w" C e n epoch] by simp
  next
    case (publish e answer round d')
    from publish(2) show ?thesis
    proof (rule publish_round_cases)
      fix j q message
      assume it: "(j, q) \<in> set (ow_events w)" "due_event e j q"
        "d' = (ow_tables w)\<lparr>outbox_events := mput j (refused_event e message q) (ow_events w)\<rparr>"
      have "mget (ow_events w) j = Some q" using it(1) mget_Some_iff [OF outbox_okD(3) [OF ok]] by simp
      then show ?thesis
        using publish(1) it(2,3) row by (auto simp: with_tables_def same_event_def refused_event_def due_event_def)
    next
      fix j q
      assume it: "(j, q) \<in> set (ow_events w)" "due_event e j q"
        "d' = (ow_tables w)\<lparr>outbox_events := mput j (published_event e q) (ow_events w)\<rparr>"
      have "mget (ow_events w) j = Some q" using it(1) mget_Some_iff [OF outbox_okD(3) [OF ok]] by simp
      then show ?thesis
        using publish(1) it(2,3) row by (auto simp: with_tables_def same_event_def published_event_def due_event_def)
    qed (use publish(1) row still in \<open>simp add: with_tables_def\<close>)
  next
    case (replay e j)
    then show ?thesis
      using row by (auto simp: with_tables_def ReplayDeadLetter_def same_event_def split: option.splits)
  qed (use tasks grown_EnqueueTask grown_receive grown_fail_expired in
      \<open>auto simp: with_tables_def grown_same requeue_expired_def ResolveSecretHandle_outbox apart_def\<close>)
qed

text \<open>C21: An event is never lost nor altered, and once published it stays as it is; published means acknowledged
  by the broker, which knows only events of the outbox; an event is tried at most ten times and given up
  only after the tenth attempt.\<close>

theorem events_reach_the_broker:
  assumes "clean_world w0" "(outbox_step C)\<^sup>*\<^sup>* w0 w" "(outbox_step C)\<^sup>*\<^sup>* w w'" "mget (ow_events w) i = Some r"
  shows "\<exists>r'. mget (ow_events w') i = Some r' \<and> same_event r r' \<and> (ob_PublishedAt r = None \<or> r' = r)
    \<and> (ob_PublishedAt r' = None \<or> i \<in> set (ow_broker w')) \<and> 0 \<le> ob_PublishAttempts r' \<and> ob_PublishAttempts r' \<le> 10
    \<and> (ob_DeadLetteredAt r' = None \<or> ob_PublishAttempts r' = 10 \<and> ob_PublishedAt r' = None)
    \<and> set (ow_broker w') \<subseteq> {k. mhas (ow_events w') k}"
proof -
  have ok: "outbox_ok C w" by (rule outbox_steps_ok [OF assms(2) clean_ok [OF assms(1)]])
  from assms(3) have "outbox_ok C w' \<and> (\<exists>r'. mget (ow_events w') i = Some r' \<and> same_event r r' \<and> (ob_PublishedAt r \<noteq> None \<longrightarrow> r' = r))"
  proof (induction rule: rtranclp_induct)
    case (step y z)
    then obtain q where q: "mget (ow_events y) i = Some q" "same_event r q" "ob_PublishedAt r \<noteq> None \<longrightarrow> q = r" and y: "outbox_ok C y" by blast
    obtain q' where "mget (ow_events z) i = Some q'" "same_event q q'" "ob_PublishedAt q \<noteq> None \<longrightarrow> q' = q"
      using event_moves [OF y step(2) q(1)] by blast
    then show ?case using q(2,3) outbox_step_ok [OF y step(2)] by (auto simp: same_event_def)
  qed (use ok assms(4) in \<open>simp add: same_event_def\<close>)
  then obtain r' where ok': "outbox_ok C w'" and r': "mget (ow_events w') i = Some r'" "same_event r r'" "ob_PublishedAt r \<noteq> None \<longrightarrow> r' = r" by blast
  then show ?thesis using outbox_okD(4) [OF ok' r'(1)] outbox_okD(5) [OF ok'] by (auto simp: event_ok_def)
qed

section \<open>A drain with a working broker\<close>

definition due_count :: "pg \<Rightarrow> (string, outbox_row) gomap \<Rightarrow> nat" where
  "due_count e D = length (filter (\<lambda>(i, r). due_event e i r) D)"

lemma due_count_put:
  assumes "mwf D" "mget D i = Some r" "due_event e i r" "\<not> due_event e i q"
  shows "Suc (due_count e (mput i q D)) = due_count e D"
  using assms(1,2)
proof (induction D)
  case (Cons x D)
  show ?case
  proof (cases "fst x = i")
    case True
    then show ?thesis using Cons.prems assms(3,4) by (cases x) (simp add: mput_def due_count_def)
  next
    case False
    then show ?thesis using Cons by (cases x) (auto simp: mput_def mwf_def due_count_def)
  qed
qed simp

definition working :: "(nat \<Rightarrow> pg) \<Rightarrow> (nat \<Rightarrow> string \<Rightarrow> outbox_row \<Rightarrow> string option) \<Rightarrow> gotime \<Rightarrow> bool" where
  "working env answer now \<longleftrightarrow> (\<forall>k. (\<forall>s. \<not> pg_fails (env k) s) \<and> (\<forall>i. \<not> pg_locked (env k) i) \<and> pg_now (env k) = now \<and> (\<forall>i r. answer k i r = None))"

lemma workingD:
  assumes "working env answer now"
  shows "\<not> pg_fails (env k) s" "pg_now (env k) = now" "answer k i r = None"
    "due_event (env k) i r \<longleftrightarrow> due_event (env 0) i r" "published_event (env k) r = published_event (env 0) r"
  using assms unfolding working_def due_event_def published_event_def by simp_all

lemma working_due:
  assumes "working env answer now"
  shows "filter (\<lambda>(i, r). due_event (env k) i r) D = filter (\<lambda>(i, r). due_event (env 0) i r) D"
  using workingD(4) [OF assms, of k] by simp

lemma first_event_oldest: "first_event xs = Some (i, r) \<Longrightarrow> (j, q) \<in> set xs \<Longrightarrow> ob_CreatedAt r \<le> ob_CreatedAt q"
proof (induction xs arbitrary: i r rule: first_event.induct)
  case (2 k s rest)
  show ?case
  proof (cases "first_event rest")
    case None
    then have "rest = []" by (simp add: first_event_None)
    then show ?thesis using 2 by simp
  next
    case (Some x)
    obtain l t where x: "x = (l, t)" by (cases x)
    have oldest: "ob_CreatedAt t \<le> ob_CreatedAt q" if "(j, q) \<in> set rest" using 2(1) [OF _ that] Some x by simp
    show ?thesis using 2(2,3) Some x oldest by (auto split: if_splits)
  qed
qed simp

text \<open>The events that are due, by identifier.\<close>

definition due_ids :: "pg \<Rightarrow> (string, outbox_row) gomap \<Rightarrow> string set" where
  "due_ids e D = {i. \<exists>r. mget D i = Some r \<and> due_event e i r}"

lemma due_ids_put:
  "mget D i = Some r \<Longrightarrow> \<not> due_event e i q \<Longrightarrow> due_ids e (mput i q D) = due_ids e D - {i}"
  by (auto simp: due_ids_def split: if_splits)

lemma card_due_ids:
  assumes "mwf D"
  shows "card (due_ids e D) = due_count e D" and "finite (due_ids e D)"
proof -
  let ?due = "filter (\<lambda>(i, r). due_event e i r) D"
  have "due_ids e D = set (map fst ?due)"
    using mget_Some_iff [OF assms] by (force simp: due_ids_def)
  moreover have "distinct (map fst ?due)" using assms distinct_map_filter unfolding mwf_def by blast
  ultimately show "card (due_ids e D) = due_count e D" "finite (due_ids e D)"
    using distinct_card [of "map fst ?due"] by (simp_all add: due_count_def)
qed

definition created :: "(string, outbox_row) gomap \<Rightarrow> string \<Rightarrow> gotime" where
  "created D i = ob_CreatedAt (the (mget D i))"

lemma created_put: "j \<noteq> i \<Longrightarrow> created (mput i q D) j = created D j"
  by (simp add: created_def)

lemma due_count_None: "first_event (filter (\<lambda>(i, r). due_event e i r) D) = None \<Longrightarrow> due_count e D = 0"
  by (simp add: first_event_None due_count_def)

text \<open>What a run of at most \<open>n\<close> rounds has published.\<close>

definition drained :: "pg \<Rightarrow> nat \<Rightarrow> (string, outbox_row) gomap \<Rightarrow> string set \<Rightarrow> (string, outbox_row) gomap \<Rightarrow> bool" where
  "drained e n D P D' \<longleftrightarrow> finite P \<and> P \<subseteq> due_ids e D \<and> card P = min n (due_count e D)
     \<and> (\<forall>i \<in> P. \<forall>j \<in> due_ids e D - P. created D i \<le> created D j)
     \<and> (\<forall>i. mget D' i = (if i \<in> P then map_option (published_event e) (mget D i) else mget D i))"

lemma drain_loop:
  assumes work: "working env answer now"
  shows "mwf (outbox_events d) \<Longrightarrow>
    \<exists>d' P. publish_loop env answer n p d = (p + card P, PublishDone, d') \<and> drained (env 0) n (outbox_events d) P (outbox_events d')"
proof (induction n arbitrary: p d)
  case 0
  show ?case by (intro exI [of _ d] exI [of _ "{}"]) (simp add: drained_def)
next
  case (Suc n)
  let ?D = "outbox_events d"
  let ?due = "filter (\<lambda>(i, r). due_event (env 0) i r) ?D"
  show ?case
  proof (cases "first_event ?due")
    case None
    have "publish_round (env p) (answer p) d = (Drained, d)"
      using None by (simp add: publish_round_def workingD(1) [OF work] working_due [OF work, of p])
    then show ?thesis using due_count_None [OF None] by (intro exI [of _ d] exI [of _ "{}"]) (simp add: drained_def)
  next
    case (Some x)
    obtain i r where x: "x = (i, r)" by (cases x)
    have it: "(i, r) \<in> set ?D" "due_event (env 0) i r" using first_event_in [OF Some] x by auto
    have row: "mget ?D i = Some r" using it(1) mget_Some_iff [OF Suc.prems(1)] by simp
    let ?q = "published_event (env 0) r"
    let ?d = "d\<lparr>outbox_events := mput i ?q ?D\<rparr>"
    have over: "\<not> due_event (env 0) i ?q" by (simp add: due_event_def published_event_def)
    have round: "publish_round (env p) (answer p) d = (Published i, ?d)"
      using Some x by (simp add: publish_round_def workingD(1,3) [OF work] workingD(5) [OF work, of p] working_due [OF work, of p])
    have count: "due_count (env 0) ?D = Suc (due_count (env 0) (outbox_events ?d))"
      using due_count_put [OF Suc.prems(1) row it(2) over] by simp
    have due: "due_ids (env 0) (outbox_events ?d) = due_ids (env 0) ?D - {i}" "i \<in> due_ids (env 0) ?D"
      using due_ids_put [OF row over] row it(2) by (simp_all add: due_ids_def)
    have oldest: "created ?D i \<le> created ?D j" if "j \<in> due_ids (env 0) ?D" for j
    proof -
      obtain q where q: "mget ?D j = Some q" "due_event (env 0) j q" using \<open>j \<in> _\<close> unfolding due_ids_def by blast
      then have "(j, q) \<in> set ?due" using mget_in_set by fastforce
      then show ?thesis using first_event_oldest [of ?due i r j q] Some x row q(1) by (simp add: created_def)
    qed
    have "mwf (outbox_events ?d)" using Suc.prems(1) by simp
    from Suc.IH [OF this, of "Suc p"] obtain d' P where
      run: "publish_loop env answer n (Suc p) ?d = (Suc p + card P, PublishDone, d')"
      and P: "drained (env 0) n (outbox_events ?d) P (outbox_events d')" by blast
    note P = P [unfolded drained_def due(1)]
    have new: "i \<notin> P" using P by blast
    have order: "created ?D k \<le> created ?D j" if k: "k \<in> insert i P" and j: "j \<in> due_ids (env 0) ?D - insert i P" for k j
    proof (cases "k = i")
      case False
      have "created (outbox_events ?d) k \<le> created (outbox_events ?d) j" using P k j False by blast
      moreover have "j \<noteq> i" using j by blast
      ultimately show ?thesis using False by (simp add: created_put)
    qed (use oldest j in blast)
    have "drained (env 0) (Suc n) ?D (insert i P) (outbox_events d')"
      unfolding drained_def
    proof (intro conjI ballI allI)
      show "finite (insert i P)" "insert i P \<subseteq> due_ids (env 0) ?D" using P due(2) by blast+
      show "card (insert i P) = min (Suc n) (due_count (env 0) ?D)" using P new count by simp
      show "mget (outbox_events d') j = (if j \<in> insert i P then map_option (published_event (env 0)) (mget ?D j) else mget ?D j)" for j
        using P new row by (cases "j = i") simp_all
    qed (rule order)
    moreover have "card (insert i P) = Suc (card P)" using P new by simp
    ultimately show ?thesis using run round by (intro exI [of _ d'] exI [of _ "insert i P"]) simp
  qed
qed

text \<open>C22: With a broker that accepts and no failing statement, one call publishes exactly as many of the due
  events as there are, but at most its limit (50 when the limit is not positive), and reports their
  number. The events it publishes are the oldest: none is younger than a due event it leaves. Nothing
  else changes in the outbox.\<close>

theorem drain_publishes_due:
  assumes "working env answer now" "mwf (outbox_events d)"
  shows "\<exists>d' P. PublishOutboxEventsTo env answer limit d = (card P, PublishDone, d')
    \<and> P \<subseteq> {i. \<exists>r. mget (outbox_events d) i = Some r \<and> due_event (env 0) i r}
    \<and> card P = min (if limit \<le> 0 then 50 else nat limit) (due_count (env 0) (outbox_events d))
    \<and> (due_count (env 0) (outbox_events d) \<le> (if limit \<le> 0 then 50 else nat limit) \<longrightarrow>
        P = {i. \<exists>r. mget (outbox_events d) i = Some r \<and> due_event (env 0) i r})
    \<and> (\<forall>i r j q. i \<in> P \<longrightarrow> mget (outbox_events d) i = Some r \<longrightarrow>
        j \<notin> P \<longrightarrow> mget (outbox_events d) j = Some q \<longrightarrow> due_event (env 0) j q \<longrightarrow> ob_CreatedAt r \<le> ob_CreatedAt q)
    \<and> (\<forall>i. mget (outbox_events d') i =
        (if i \<in> P then map_option (published_event (env 0)) (mget (outbox_events d) i) else mget (outbox_events d) i))"
proof -
  let ?n = "if limit \<le> 0 then 50 else nat limit"
  from drain_loop [OF assms, of ?n 0] obtain d' P where
    run: "PublishOutboxEventsTo env answer limit d = (card P, PublishDone, d')"
    and P: "drained (env 0) ?n (outbox_events d) P (outbox_events d')" by (auto simp: PublishOutboxEventsTo_def)
  have "ob_CreatedAt r \<le> ob_CreatedAt q" if k: "i \<in> P" "mget (outbox_events d) i = Some r" "j \<notin> P"
      "mget (outbox_events d) j = Some q" "due_event (env 0) j q" for i r j q
  proof -
    have "j \<in> due_ids (env 0) (outbox_events d) - P" using k unfolding due_ids_def by blast
    then have "created (outbox_events d) i \<le> created (outbox_events d) j" using P k(1) unfolding drained_def by blast
    then show ?thesis using k(2,4) by (simp add: created_def)
  qed
  moreover have "P = due_ids (env 0) (outbox_events d)" if "due_count (env 0) (outbox_events d) \<le> ?n"
    using P card_due_ids [OF assms(2), of "env 0"] card_subset_eq [of "due_ids (env 0) (outbox_events d)" P] that
    by (simp add: drained_def)
  ultimately show ?thesis using run P unfolding drained_def due_ids_def by blast
qed

section \<open>A refused task\<close>

text \<open>C23: The refusal of a task by its agent fails the task and does nothing else: no event announces the end, a
  backup that the task was to create, restore or delete keeps its state under way, and so does the
  upgrade of a bundle.\<close>

theorem refused_task_leaves_no_trace:
  assumes "ids_ok (server_tasks d)" "mget (server_tasks d) (fence_OperationID fence) = Some r" "fence_ok fence r" "lease_held r"
    and "\<And>s. \<not> pg_fails e s"
  shows "AckTask e fence False code d =
      (Inr (), d\<lparr>server_tasks := mput (fence_OperationID fence) (reject_task e code r) (server_tasks d)\<rparr>)
    \<and> st_Status (reject_task e code r) = ''failed''"
  using assms(2-5)
  by (simp add: AckTask_def fenced_update_def transaction_def stmt_def fenced_def andThen_def fenceTaskRow_def ask_def fence_ok_def
      update_tasks_def matching_one [OF assms(1,2)] updated_one [OF assms(1,2)] commit_def ret_def reject_task_def end_task_def)

section \<open>An example\<close>

definition post_start :: outbox_world where
  "post_start = \<lparr>ow_leases = trial_start, ow_refused = [], ow_broker = []\<rparr>"

definition post_done :: outbox_world where
  "post_done = \<lparr>ow_leases = trial_w4, ow_refused = [], ow_broker = []\<rparr>"

lemma post_clean: "clean_world post_start"
  using trial_fresh by (simp add: clean_world_def post_start_def trial_start_def trial_tables_def)

lemma post_reached: "(outbox_step trial_codec)\<^sup>*\<^sup>* post_start post_done"
proof -
  let ?w = "\<lambda>l. \<lparr>ow_leases = l, ow_refused = [], ow_broker = []\<rparr> :: outbox_world"
  have refl: "apart d d" for d by (simp add: apart_def same_tasks_def)
  have "outbox_step trial_codec post_start (?w trial_w1)"
    using enqueue_with [where w = post_start and C = trial_codec, OF refl _ refl] trial_enqueue
    by (simp add: post_start_def trial_start_def trial_w1_def with_tables_def)
  moreover have "outbox_step trial_codec (?w trial_w1) (?w trial_w2)"
    using claim [of trial_codec "trial_pg ''L1'' 2" "''n1''" 1 "?w trial_w1"] trial_claim
    by (simp add: trial_w1_def trial_w2_def trial_claimed_def scanned_task_def)
  moreover have "outbox_step trial_codec (?w trial_w2) (?w trial_w3)"
    using message [where C = trial_codec and w = "?w trial_w2" and e = "trial_pg ''a'' 3" and nodeID = "''n1''" and frame = "TaskAck (trial_frame ''L1'' 1) True []"] trial_ack
    by (simp add: trial_w2_def trial_w3_def with_tables_def refused_by_def)
  moreover have "outbox_step trial_codec (?w trial_w3) post_done"
    using message [where C = trial_codec and w = "?w trial_w3" and e = "trial_pg ''r'' 4" and nodeID = "''n1''" and frame = "TaskResult (trial_frame ''L1'' 1) True [] []"] trial_result
    by (simp add: trial_w3_def trial_w4_def with_tables_def refused_by_def post_done_def)
  ultimately show ?thesis by (meson rtranclp.rtrancl_into_rtrancl rtranclp.rtrancl_refl)
qed

lemma post_task: "mget (server_tasks (ow_tables post_done)) ''t1'' = Some trial_done_row" "ended trial_done_row"
  by (simp_all add: post_done_def trial_w4_def trial_done_def trial_done_row_def end_task_def ended_def)

lemma post_events: "outbox_events trial_done = [(''qt1'', trial_event ''task.created'' 1), (''rt1'', trial_event ''task.completed'' 4)]"
  by (simp add: trial_done_def)

theorem ended_tasks_announced_witness:
  "\<exists>k r ev. mget (ow_events post_done) k = Some r \<and> ob_EventType r = ''task.completed'' \<and> ev_OperationID ev = ''t1''
    \<and> ob_Payload r = event_json trial_codec ev \<and> ev_Status ev = ''succeeded''"
proof -
  have "''t1'' \<notin> set (ow_refused post_done)" "st_Status trial_done_row = ''succeeded''"
    by (simp_all add: post_done_def trial_done_row_def end_task_def)
  then show ?thesis using ended_tasks_announced [OF post_clean post_reached post_task] by auto
qed

theorem events_reach_the_broker_witness:
  "\<exists>r. mget (ow_events post_done) ''rt1'' = Some r \<and> ob_PublishAttempts r \<le> 10 \<and> ob_EventType r = ''task.completed''"
proof -
  have "mget (ow_events post_done) ''rt1'' = Some (trial_event ''task.completed'' 4)"
    by (simp add: post_done_def trial_w4_def post_events)
  from events_reach_the_broker [OF post_clean post_reached rtranclp.rtrancl_refl this] this
  show ?thesis by (simp add: trial_event_def same_event_def)
qed

theorem drain_publishes_due_witness:
  "\<exists>d'. PublishOutboxEventsTo (\<lambda>_. trial_pg ''p'' 9) (\<lambda>_ _ _. None) 1 trial_done = (1, PublishDone, d')
    \<and> map_option ob_PublishedAt (mget (outbox_events d') ''qt1'') = Some (Some 9)
    \<and> map_option ob_PublishedAt (mget (outbox_events d') ''rt1'') = Some None"
proof -
  let ?D = "outbox_events trial_done" and ?e = "trial_pg ''p'' 9"
  have work: "working (\<lambda>_. ?e) (\<lambda>_ _ _. None) 9" by (simp add: working_def)
  have wf: "mwf ?D" by (simp add: post_events mwf_def)
  have two: "due_count ?e ?D = 2" by (simp add: due_count_def post_events due_event_def trial_event_def)
  have rows: "mget ?D ''qt1'' = Some (trial_event ''task.created'' 1)" "mget ?D ''rt1'' = Some (trial_event ''task.completed'' 4)"
    "mget ?D i = Some r \<Longrightarrow> i = ''qt1'' \<or> i = ''rt1''" for i r
    by (auto simp: post_events split: if_splits)
  have due: "due_event ?e i (trial_event ty t)" if "t \<le> 9" for i ty t using that by (simp add: due_event_def trial_event_def)
  from drain_publishes_due [OF work wf, of 1] obtain d' P where
    run: "PublishOutboxEventsTo (\<lambda>_. ?e) (\<lambda>_ _ _. None) 1 trial_done = (card P, PublishDone, d')"
    and P: "P \<subseteq> {i. \<exists>r. mget ?D i = Some r \<and> due_event ?e i r}" "card P = 1"
    and order: "\<forall>i r j q. i \<in> P \<longrightarrow> mget ?D i = Some r \<longrightarrow> j \<notin> P \<longrightarrow> mget ?D j = Some q \<longrightarrow> due_event ?e j q
      \<longrightarrow> ob_CreatedAt r \<le> ob_CreatedAt q"
    and after: "\<forall>i. mget (outbox_events d') i = (if i \<in> P then map_option (published_event ?e) (mget ?D i) else mget ?D i)"
    using two by auto
  obtain i where i: "P = {i}" using P(2) card_1_singletonE by blast
  then have "i = ''qt1'' \<or> i = ''rt1''" using P(1) rows(3) by blast
  moreover have "i \<noteq> ''rt1''"
    using order [rule_format, OF _ rows(2) _ rows(1) due] i by (auto simp: trial_event_def)
  ultimately have "P = {''qt1''}" using i by simp
  then show ?thesis using run after rows by (simp add: published_event_def trial_event_def)
qed

theorem refused_task_leaves_no_trace_witness:
  "AckTask (trial_pg ''z'' 9) (frame_lease ''n1'' (trial_frame ''L1'' 1)) False ''NO'' trial_leased =
     (Inr (), trial_leased\<lparr>server_tasks := [(''t1'', reject_task (trial_pg ''z'' 9) ''NO'' trial_leased_row)]\<rparr>)"
proof -
  have "ids_ok (server_tasks trial_leased)" by (simp add: ids_ok_def mwf_def)
  moreover have "fence_ok (frame_lease ''n1'' (trial_frame ''L1'' 1)) trial_leased_row"
    by (simp add: fence_ok_def frame_lease_def trial_frame_def taskFenceMatches_def coalesce_def)
  ultimately show ?thesis
    using refused_task_leaves_no_trace [of trial_leased "frame_lease ''n1'' (trial_frame ''L1'' 1)" trial_leased_row "trial_pg ''z'' 9" "''NO''"]
    by (simp add: frame_lease_def trial_frame_def lease_held_def mput_def)
qed

end
