(* ===== verification/Spec2Isabelle.thy ===== *)
theory Spec2Isabelle
  imports Path_Safety Attempt_Limiter Startup_Render Identity_Invariants Reachable_World
    Agent_Properties Schedule_Properties Delivery_Properties Outbox_Properties
begin

text \<open>
  A model of GuGuManager, a manager of game servers. The control plane keeps users, nodes, servers,
  allocations, backups and operations in a store; the HTTP layer calls the store's handlers, and every
  accepted change queues an operation. With the store in memory a goroutine carries the operation out;
  with the store in PostgreSQL it is a task, leased to the agent of the node, which executes it and
  reports the result. Schedules start operations, and notifications are delivered to webhooks.

  Theories and the code they follow:

  \<^item> \<open>Go_Prelude\<close>: results with Go errors, maps with insertion order, the clock and random values,
    strings and integers of Go, and the lemma collections shared by all theories.
  \<^item> \<open>Domain_Model\<close> (\<^verbatim>\<open>internal/domain\<close>): a record per struct, the power coordinator, backup
    transitions and capability strings.
  \<^item> \<open>Path_Safety\<close> (\<^verbatim>\<open>internal/files/path.go\<close>), \<open>Attempt_Limiter\<close>
    (\<^verbatim>\<open>internal/identity/login_limiter.go\<close>), \<open>Console_Hub\<close> (\<^verbatim>\<open>internal/store/console_hub.go\<close>).
  \<^item> \<open>Startup_Variables\<close>, \<open>Startup_Render\<close> (\<^verbatim>\<open>spec/game-definition\<close>) and \<open>Startup_Bundle\<close>
    (\<^verbatim>\<open>internal/store/game_bundles.go\<close>, \<^verbatim>\<open>network_startup.go\<close>): declarations, values and
    rendering of start-up variables.
  \<^item> \<open>Memory_Store\<close> (\<^verbatim>\<open>memory.go\<close>, \<^verbatim>\<open>node_liveness.go\<close>): the state of the in-memory store, its
    idempotency records and the life of an operation.
  \<^item> \<open>Identity_Store\<close>, \<open>Access_Tokens\<close>, \<open>Identity_Invariants\<close>, \<open>Single_Use\<close>: users, sessions,
    memberships and tokens (\<^verbatim>\<open>identity.go\<close>, \<^verbatim>\<open>access_tokens.go\<close>, \<^verbatim>\<open>enrollment_tokens.go\<close>).
  \<^item> \<open>Server_Operations\<close>, \<open>Network_Startup\<close>, \<open>Backup_Store\<close>, \<open>Runtime_Adapter\<close>: the handlers and
    the locked sections of their goroutines (\<^verbatim>\<open>operations.go\<close>, \<^verbatim>\<open>network_startup.go\<close>,
    \<^verbatim>\<open>backups.go\<close>, \<^verbatim>\<open>runtime_adapter.go\<close>).
  \<^item> \<open>Game_Catalog\<close> (\<^verbatim>\<open>game_bundles.go\<close>, \<^verbatim>\<open>seed.go\<close>): the embedded catalog and the data the store
    starts with.
  \<^item> \<open>Handler_Outcomes\<close>, \<open>Operation_World\<close>, \<open>World_Steps\<close>, \<open>World_Invariant\<close>,
    \<open>Allocation_Invariant\<close>, \<open>Backup_Lifecycle\<close>, \<open>World_Persistence\<close>, \<open>Settings_Invariant\<close>,
    \<open>Start_State\<close>: the store and its goroutines as one transition system, and its invariants: the
    table of operations and goroutines, the capacity and the ports of the nodes, the life of backups,
    the idempotency keys that stay, generations that only grow, trusted games and start-up values.
  \<^item> \<open>Refinement_Mapping\<close>: a locale for a step relation with an invariant and an abstract machine,
    interpreted for the store and for the tasks. \<open>Ledger_Refinement\<close>: the abstract machine of operation
    slots, one per server, which hold the unfinished operation; every step of the store is a step of
    it or leaves it alone, and results stay.
  \<^item> \<open>Identity_World\<close>: the invariant of the identity component in the worlds of the whole program.
  \<^item> \<open>Demo_World\<close>: concrete parameters, a store and a few commands, evaluated by the witnesses.
  \<^item> \<open>Reachable_World\<close>: the states the program reaches from its start, and what holds in all of them.
  \<^item> \<open>Task_Tables\<close>, \<open>Secret_Handles\<close>, \<open>Task_Leases\<close>, \<open>Task_Completion\<close>, \<open>Agent_Frames\<close>: the tables that
    tasks touch, with the constraints of \<^verbatim>\<open>migrations/000001_core.up.sql\<close>; queuing, claiming,
    acknowledging, completing and expiring tasks (\<^verbatim>\<open>postgres_tasks.go\<close>), the one-time handles for
    secret values (\<^verbatim>\<open>secret_handles.go\<close>) and the frames of an agent
    (\<^verbatim>\<open>internal/agentrpc/connect.go\<close>). A statement maps the tables to new ones or an error, and a
    transaction keeps the old ones when it ends in an error.
  \<^item> \<open>Task_Facts\<close>, \<open>Lease_World\<close>, \<open>Lease_Demo\<close>, \<open>Lease_Properties\<close>, \<open>Task_Results\<close>: all transactions on
    tasks as one transition system; the machine of tasks that every transaction follows, exclusive
    tasks, the fence of a lease, the bound on attempts, late
    messages, expiry, single use of handles, and what the result of a backup has to pass.
  \<^item> \<open>Outbox\<close>, \<open>Outbox_World\<close>, \<open>Outbox_Properties\<close>: the publication of the events of tasks
    (\<^verbatim>\<open>postgres_outbox.go\<close>) together with the transactions on tasks and a broker: which ends of tasks
    are announced, that events are kept and reach the broker, and what a drain achieves.
  \<^item> \<open>Agent_Journal\<close>, \<open>Agent_Tasks\<close>, \<open>Agent_World\<close>, \<open>Agent_Properties\<close>: the operation journal of the
    agent (\<^verbatim>\<open>internal/agent/journal.go\<close>) and \<^verbatim>\<open>executeTask\<close> (\<^verbatim>\<open>internal/agent/agent.go\<close>) with its
    workers, registrations, locks, replays and recoveries, sessions and restarts included.
  \<^item> \<open>Automation\<close> (\<^verbatim>\<open>internal/store/automation.go\<close>): schedules and their runs, notifications, webhooks and
    deliveries. \<open>Schedule_World\<close>, \<open>Schedule_Properties\<close>, \<open>Delivery_World\<close>, \<open>Delivery_Properties\<close>: any number
    of control planes that run schedules and deliver messages, the loss of one included. The properties
    of schedules are those of regular expressions, which always name a later time; the code accepts
    others, and a lemma shows what becomes of them.

  Concurrency. Every method holds the store's lock over a section; a step of the transition system is
  one such section, and sections of different goroutines interleave freely. A goroutine is the list of
  the sections it has left, at most three, so that each ends after as many steps. For the PostgreSQL
  store a step is one committed transaction; rows that another transaction holds are an argument, as
  \<^verbatim>\<open>SKIP LOCKED\<close> passes over them. In the agent a step is the code between two points where another
  worker can interfere. A crash forgets what is only in memory.

  Bounds. A task has at most three attempts, a delivery eight, an event ten; an agent has at most eight workers and
  512 entries in its journal. The loop of the sender has fuel, and nine rounds for each row are proved
  to be enough; the loop over due schedules ends with its limit. Ports stay between the ends of a node's range, at most 65535; generations are Go's int64;
  lists and maps are finite but not bounded.

  Parameters. Hashing, JSON encoding, parsing of addresses, the decoder of bundles and the container
  runtime are arguments of the definitions (records \<open>lib\<close>, \<open>bundle_codec\<close>, \<open>catalog_source\<close>,
  \<open>docker\<close>, \<open>task_codec\<close>, \<open>agent_lib\<close>, \<open>auto_lib\<close>, \<open>webhook_lib\<close>); times, random values, and which
  statements fail come from the records \<open>env\<close>, \<open>pg\<close>, \<open>agent_env\<close>, \<open>disk\<close> and \<open>auto_env\<close>. What the agent's
  executor comes to, and what a webhook answers, are arguments too.

  Not modelled: the rest of the PostgreSQL store (its handlers are SQL statements over the data that
  the memory store keeps in maps, and are modelled there), the read-only listings, backup policies,
  quotas and node drain, the HTTP layer, the agent's executor with Docker, archives and host files,
  the gRPC streams and certificates, file system calls, object storage, installers, signatures,
  configuration and command lines: they are input and output, cryptography, or calls of libraries
  around the modelled parts.
\<close>

end
